(* ===== verification/Prelude.thy ===== *)
theory Prelude
  imports Main "HOL-Library.List_Lexorder" "HOL-Library.Char_ord" "HOL-Library.Product_Lexorder"
begin

text \<open>
  Shared vocabulary of the development: C++ exceptions as values, the ordered associative
  containers \<open>std::map\<close> and \<open>std::set\<close> as strictly sorted lists, \<open>int64_t\<close> ranges and
  narrowing, and the generic lemmas the component theories rest on.

  Byte strings (\<open>std::string\<close>, \<open>std::vector<unsigned char>\<close>, \<open>std::span\<close>) are all
  \<^typ>\<open>string\<close>: a \<^typ>\<open>char\<close> is one byte, and the library order on \<^typ>\<open>string\<close>
  (bytewise, lexicographic, a proper prefix first) is the one \<open>std::string::compare\<close> and
  \<open>std::array::operator<\<close> use.
\<close>

named_theorems smap_simps \<open>lookups after updates of ordered maps\<close>
named_theorems res_simps \<open>unfolding the exception monad\<close>

section \<open>Exceptions as values\<close>

type_synonym bytes = string

text \<open>
  One constructor for each exception class the modelled code raises or catches.
  \<open>Undefined_behaviour\<close> stands for a step whose effect C++ leaves undefined (dereferencing an
  empty optional, signed overflow, \<open>front()\<close> of an empty container), and \<open>Nontermination\<close> for a
  loop that never returns: a theorem that an operation succeeds excludes both.
\<close>

datatype exn =
    Config_error
  | Signature_error
  | Missing_signature
  | Config_parse_error
  | Bt_deserialize_invalid
  | Overflow_error
  | Bad_variant_access
  | Invalid_argument
  | Out_of_range
  | Runtime_error
  | Logic_error
  | Length_error
  | Decrypt_error
  | Bad_function_call
  | Json_error
  | Assertion_failed
  | Undefined_behaviour
  | Nontermination

type_synonym 'a res = "exn + 'a"

abbreviation throw :: "exn \<Rightarrow> 'a res" where "throw \<equiv> Inl"
abbreviation ok :: "'a \<Rightarrow> 'a res" where "ok \<equiv> Inr"

definition res_bind :: "'a res \<Rightarrow> ('a \<Rightarrow> 'b res) \<Rightarrow> 'b res" where
  "res_bind r f = (case r of Inl e \<Rightarrow> Inl e | Inr x \<Rightarrow> f x)"

definition guard :: "bool \<Rightarrow> exn \<Rightarrow> unit res" where
  "guard b e = (if b then Inr () else Inl e)"

fun res_map :: "('a \<Rightarrow> 'b res) \<Rightarrow> 'a list \<Rightarrow> 'b list res" where
  "res_map f [] = Inr []"
| "res_map f (x # xs) =
     res_bind (f x) (\<lambda>y. res_bind (res_map f xs) (\<lambda>ys. Inr (y # ys)))"

fun res_fold :: "('a \<Rightarrow> 's \<Rightarrow> 's res) \<Rightarrow> 'a list \<Rightarrow> 's \<Rightarrow> 's res" where
  "res_fold f [] s = Inr s"
| "res_fold f (x # xs) s = res_bind (f x s) (res_fold f xs)"

lemma res_bind_simps [simp, res_simps]:
  "res_bind (Inr x) f = f x" "res_bind (Inl e) f = Inl e"
  by (simp_all add: res_bind_def)

lemma res_bind_cong [fundef_cong]:
  "r = s \<Longrightarrow> (\<And>x. s = Inr x \<Longrightarrow> f x = g x) \<Longrightarrow> res_bind r f = res_bind s g"
  by (auto simp: res_bind_def split: sum.splits)

lemma res_bind_eq_Inr: "(res_bind r f = Inr y) \<longleftrightarrow> (\<exists>x. r = Inr x \<and> f x = Inr y)"
  by (auto simp: res_bind_def split: sum.splits)

lemma res_bind_eq_Inl: "(res_bind r f = Inl e) \<longleftrightarrow> r = Inl e \<or> (\<exists>x. r = Inr x \<and> f x = Inl e)"
  by (auto simp: res_bind_def split: sum.splits)

lemma res_bind_split: "P (res_bind r f) \<longleftrightarrow> (\<forall>e. r = Inl e \<longrightarrow> P (Inl e)) \<and> (\<forall>x. r = Inr x \<longrightarrow> P (f x))"
  by (auto simp: res_bind_def split: sum.splits)

lemma guard_eq [simp]: "(guard b e = Inr u) \<longleftrightarrow> b" "(guard b e = Inl e') \<longleftrightarrow> \<not> b \<and> e' = e"
  by (auto simp: guard_def)

lemma guard_True [simp]: "guard True e = Inr ()" "guard False e = Inl e"
  by (simp_all add: guard_def)

lemma res_fold_append: "res_fold f (xs @ ys) s = res_bind (res_fold f xs s) (res_fold f ys)"
  by (induction xs arbitrary: s) (auto simp: res_bind_def split: sum.splits)

lemma res_map_ok: "(\<And>x. x \<in> set xs \<Longrightarrow> f x = Inr (g x)) \<Longrightarrow> res_map f xs = Inr (map g xs)"
  by (induction xs) auto

section \<open>Machine integers\<close>

definition in_i64 :: "int \<Rightarrow> bool" where
  "in_i64 i \<longleftrightarrow> - (2 ^ 63) \<le> i \<and> i < 2 ^ 63"

text \<open>Arithmetic on \<open>int64_t\<close>: signed overflow is undefined behaviour.\<close>

definition i64_arith :: "int \<Rightarrow> int res" where
  "i64_arith i = (if in_i64 i then Inr i else Inl Undefined_behaviour)"

text \<open>
  Implicit narrowing of an \<open>int64_t\<close> to a 32-bit \<open>int\<close> (two's complement: modulo \<open>2^32\<close>, which
  C++20 fixes as the meaning of the conversion).
\<close>

definition to_int32 :: "int \<Rightarrow> int" where
  "to_int32 i = (i + 2 ^ 31) mod 2 ^ 32 - 2 ^ 31"

lemma to_int32_range: "- (2 ^ 31) \<le> to_int32 i \<and> to_int32 i < 2 ^ 31"
  by (simp add: to_int32_def)

lemma to_int32_id: "- (2 ^ 31) \<le> i \<Longrightarrow> i < 2 ^ 31 \<Longrightarrow> to_int32 i = i"
  by (simp add: to_int32_def)

lemma i64_arith_ok [simp]: "in_i64 i \<Longrightarrow> i64_arith i = Inr i"
  by (simp add: i64_arith_def)

lemma i64_arith_eq_Inr: "i64_arith i = Inr j \<longleftrightarrow> in_i64 i \<and> j = i"
  by (auto simp: i64_arith_def)

section \<open>Strictly sorted lists: std::set\<close>

abbreviation ssorted :: "'a::linorder list \<Rightarrow> bool" where
  "ssorted \<equiv> sorted_wrt (<)"

fun set_insert :: "'a::linorder \<Rightarrow> 'a list \<Rightarrow> 'a list" where
  "set_insert x [] = [x]"
| "set_insert x (y # ys) =
     (if y < x then y # set_insert x ys else if y = x then y # ys else x # y # ys)"

definition set_erase :: "'a \<Rightarrow> 'a list \<Rightarrow> 'a list" where
  "set_erase x xs = filter (\<lambda>y. y \<noteq> x) xs"

lemma ssorted_distinct: "ssorted xs \<Longrightarrow> distinct xs"
  by (simp add: strict_sorted_iff)

lemma ssorted_ext: "ssorted xs \<Longrightarrow> ssorted ys \<Longrightarrow> set xs = set ys \<Longrightarrow> xs = ys"
  by (rule strict_sorted_equal) auto

lemma set_set_insert [simp]: "set (set_insert x ys) = insert x (set ys)"
  by (induction ys) auto

lemma ssorted_set_insert [simp]: "ssorted ys \<Longrightarrow> ssorted (set_insert x ys)"
  by (induction ys) auto

lemma set_set_erase [simp]: "set (set_erase x ys) = set ys - {x}"
  by (auto simp: set_erase_def)

lemma ssorted_set_erase [simp]: "ssorted ys \<Longrightarrow> ssorted (set_erase x ys)"
  by (simp add: set_erase_def sorted_wrt_filter)

lemma set_insert_not_Nil [simp]: "set_insert x ys \<noteq> []"
  by (cases ys) auto

lemma set_fold_insert: "set (fold set_insert xs ys) = set xs \<union> set ys"
  by (induction xs arbitrary: ys) auto

lemma ssorted_fold_insert: "ssorted ys \<Longrightarrow> ssorted (fold set_insert xs ys)"
  by (induction xs arbitrary: ys) auto

lemma set_fold_erase: "set (fold set_erase xs ys) = set ys - set xs"
  by (induction xs arbitrary: ys) auto

lemma ssorted_fold_erase: "ssorted ys \<Longrightarrow> ssorted (fold set_erase xs ys)"
  by (induction xs arbitrary: ys) auto

section \<open>Ordered association lists: std::map\<close>

type_synonym ('k, 'v) smap = "('k \<times> 'v) list"

abbreviation smap_ok :: "('k::linorder, 'v) smap \<Rightarrow> bool" where
  "smap_ok m \<equiv> ssorted (map fst m)"

text \<open>\<open>m[k] = v\<close>, \<open>m.erase(k)\<close>, and \<open>m.emplace(k, v)\<close>, which keeps an existing value.\<close>

fun smap_put :: "'k::linorder \<Rightarrow> 'v \<Rightarrow> ('k, 'v) smap \<Rightarrow> ('k, 'v) smap" where
  "smap_put k v [] = [(k, v)]"
| "smap_put k v (p # m) =
     (if fst p < k then p # smap_put k v m
      else if fst p = k then (k, v) # m else (k, v) # p # m)"

definition smap_del :: "'k \<Rightarrow> ('k, 'v) smap \<Rightarrow> ('k, 'v) smap" where
  "smap_del k m = filter (\<lambda>p. fst p \<noteq> k) m"

definition smap_emplace :: "'k::linorder \<Rightarrow> 'v \<Rightarrow> ('k, 'v) smap \<Rightarrow> ('k, 'v) smap" where
  "smap_emplace k v m = (case map_of m k of None \<Rightarrow> smap_put k v m | Some _ \<Rightarrow> m)"

text \<open>
  The interface a client of an ordered map relies on: what a lookup returns after an update or
  an erase, and that both keep the representation invariant. Two maps with the same lookups are
  equal, because the representation is canonical.
\<close>

locale ordered_map =
  fixes find :: "'m \<Rightarrow> 'k \<Rightarrow> 'v option"
    and put :: "'k \<Rightarrow> 'v \<Rightarrow> 'm \<Rightarrow> 'm"
    and del :: "'k \<Rightarrow> 'm \<Rightarrow> 'm"
    and valid :: "'m \<Rightarrow> bool"
  assumes find_put: "valid m \<Longrightarrow> find (put k v m) = (find m)(k \<mapsto> v)"
    and find_del: "valid m \<Longrightarrow> find (del k m) = (find m)(k := None)"
    and valid_put: "valid m \<Longrightarrow> valid (put k v m)"
    and valid_del: "valid m \<Longrightarrow> valid (del k m)"
    and canonical: "valid m \<Longrightarrow> valid n \<Longrightarrow> find m = find n \<Longrightarrow> m = n"
begin

lemma put_same: "valid m \<Longrightarrow> find m k = Some v \<Longrightarrow> put k v m = m"
  by (rule canonical) (auto simp: find_put valid_put fun_upd_idem)

lemma del_missing: "valid m \<Longrightarrow> find m k = None \<Longrightarrow> del k m = m"
  by (rule canonical) (auto simp: find_del valid_del fun_upd_idem)

lemma put_put: "valid m \<Longrightarrow> put k v (put k w m) = put k v m"
  by (rule canonical) (auto simp: find_put valid_put)

lemma put_commute: "valid m \<Longrightarrow> j \<noteq> k \<Longrightarrow> put k v (put j w m) = put j w (put k v m)"
  by (rule canonical) (auto simp: find_put valid_put fun_upd_twist)

lemma del_put: "valid m \<Longrightarrow> del k (put k v m) = del k m"
  by (rule canonical) (auto simp: find_put find_del valid_put valid_del)

end

lemma set_keys_smap_put [simp]: "fst ` set (smap_put k v m) = insert k (fst ` set m)"
  by (induction m) auto

lemma smap_ok_put [simp]: "smap_ok m \<Longrightarrow> smap_ok (smap_put k v m)"
  by (induction m) auto

lemma smap_ok_del [simp]: "smap_ok m \<Longrightarrow> smap_ok (smap_del k m)"
  by (simp add: smap_del_def sorted_wrt_map sorted_wrt_filter)

lemma smap_ok_emplace [simp]: "smap_ok m \<Longrightarrow> smap_ok (smap_emplace k v m)"
  by (simp add: smap_emplace_def split: option.split)

lemma map_of_smap_put [smap_simps]: "smap_ok m \<Longrightarrow> map_of (smap_put k v m) = (map_of m)(k \<mapsto> v)"
  by (induction m) (auto simp: fun_eq_iff)

lemma map_of_smap_del [smap_simps]: "map_of (smap_del k m) = (map_of m)(k := None)"
  by (induction m) (auto simp: smap_del_def fun_eq_iff)

lemma smap_ok_distinct: "smap_ok m \<Longrightarrow> distinct (map fst m)"
  by (rule ssorted_distinct)

lemma smap_ext:
  assumes "smap_ok m" and "smap_ok n" and "map_of m = map_of n"
  shows "m = n"
proof -
  have "set m = set n"
    using assms smap_ok_distinct map_of_inject_set by metis
  then show ?thesis
    using assms by (metis map_sorted_distinct_set_unique distinct_map smap_ok_distinct
        strict_sorted_imp_sorted sup.idem)
qed

interpretation smap: ordered_map map_of smap_put smap_del "smap_ok :: ('k::linorder, 'v) smap \<Rightarrow> bool"
  by unfold_locales (auto simp: map_of_smap_put map_of_smap_del intro: smap_ext)

lemma map_of_smap_emplace [smap_simps]:
  "smap_ok m \<Longrightarrow> map_of (smap_emplace k v m) = (map_of m)(k \<mapsto> (case map_of m k of None \<Rightarrow> v | Some w \<Rightarrow> w))"
  by (auto simp: smap_emplace_def map_of_smap_put fun_upd_idem split: option.split)

lemma smap_put_values: "p \<in> set (smap_put k v m) \<Longrightarrow> p = (k, v) \<or> p \<in> set m"
  by (induction m) (auto split: if_splits)

lemma smap_del_values: "p \<in> set (smap_del k m) \<Longrightarrow> p \<in> set m"
  by (auto simp: smap_del_def)

lemma smap_put_not_Nil [simp]: "smap_put k v m \<noteq> []"
  by (cases m) auto

lemma smap_ok_Cons: "smap_ok ((k, v) # m) \<longleftrightarrow> smap_ok m \<and> (\<forall>p \<in> set m. k < fst p)"
  by auto

lemma map_of_None_if_less: "(\<forall>p \<in> set m. (k::'k::linorder) < fst p) \<Longrightarrow> map_of m k = None"
  by (force simp: map_of_eq_None_iff)

lemma map_of_Some_smap: "smap_ok m \<Longrightarrow> map_of m k = Some v \<longleftrightarrow> (k, v) \<in> set m"
  by (rule map_of_eq_Some_iff) (rule smap_ok_distinct)

lemma smap_ok_map_snd: "smap_ok (map (\<lambda>(k, v). (k, f k v)) m) = smap_ok m"
  by (simp add: comp_def case_prod_beta)

lemma smap_ok_above:
  "smap_ok m \<Longrightarrow> (m \<noteq> [] \<longrightarrow> fst (last m) < k) \<Longrightarrow> smap_ok (m @ [(k, v)])"
  by (cases m rule: rev_cases) (auto simp: sorted_wrt_append intro: order.strict_trans)

end
