(* ===== verification/Bt_Values.thy ===== *)
theory Bt_Values
  imports Prelude
begin

text \<open>
  The bencoded values the configuration code exchanges with the \<open>oxenc\<close> library
  (\<open>oxenc::bt_value\<close>, \<open>bt_list\<close>, \<open>bt_dict\<close>), the accessors of \<open>src/src/config.cpp\<close> over them, and
  the two merge routines of \<open>src/src/bt_merge.cpp\<close> and \<open>src/include/session/bt_merge.hpp\<close>.

  \<open>oxenc\<close> is not part of the repository. Its value type is modelled by the alternatives the
  repository's code tests for: an integer (\<open>int64_t\<close> or \<open>uint64_t\<close>), a string (\<open>std::string\<close> or
  \<open>std::string_view\<close>), a list and a dict. A dict is its sequence of key/value pairs: sorted when it
  is a \<open>std::map\<close>, in wire order (possibly unsorted, with repeated keys) when it is what a
  \<open>bt_dict_consumer\<close> walks over.
\<close>

section \<open>Definitions\<close>

datatype bt_value =
    BtInt int
  | BtStr string
  | BtList "bt_value list"
  | BtDict "(string \<times> bt_value) list"

type_synonym bt_dict = "(string \<times> bt_value) list"
type_synonym bt_list = "bt_value list"

definition in_u64 :: "int \<Rightarrow> bool" where
  "in_u64 i \<longleftrightarrow> 0 \<le> i \<and> i < 2 ^ 64"

text \<open>\<open>get_bt_int\<close>: no value for a non-integer; \<open>oxenc::get_int<int64_t>\<close> throws
  \<open>std::overflow_error\<close> for a value that does not fit.\<close>

definition get_bt_int :: "bt_value \<Rightarrow> int option res" where
  "get_bt_int v =
     (case v of BtInt i \<Rightarrow> (if in_i64 i then Inr (Some i) else Inl Overflow_error) | _ \<Rightarrow> Inr None)"

definition get_bt_str :: "bt_value \<Rightarrow> string option" where
  "get_bt_str v = (case v of BtStr s \<Rightarrow> Some s | _ \<Rightarrow> None)"

text \<open>The iterator pair of \<open>session::bt::merge\<close> as two lists of remaining elements.\<close>

fun merge :: "bt_dict \<Rightarrow> bt_dict \<Rightarrow> bt_dict" where
  "merge [] [] = []"
| "merge (p # a) [] = p # merge a []"
| "merge [] (q # b) = q # merge [] b"
| "merge (p # a) (q # b) =
     (if fst p < fst q then p # merge a (q # b)
      else if fst p = fst q then p # merge a b
      else q # merge (p # a) b)"

text \<open>\<open>merge_sorted\<close> with and without \<open>duplicates\<close>; the tail that is left is appended.\<close>

fun merge_sorted_dup :: "('a \<Rightarrow> 'a \<Rightarrow> bool) \<Rightarrow> 'a list \<Rightarrow> 'a list \<Rightarrow> 'a list" where
  "merge_sorted_dup cmp (x # a) (y # b) =
     (if \<not> cmp x y then y # merge_sorted_dup cmp (x # a) b
      else x # merge_sorted_dup cmp a (y # b))"
| "merge_sorted_dup cmp a [] = a"
| "merge_sorted_dup cmp [] b = b"

fun merge_sorted_nodup :: "('a \<Rightarrow> 'a \<Rightarrow> bool) \<Rightarrow> 'a list \<Rightarrow> 'a list \<Rightarrow> 'a list" where
  "merge_sorted_nodup cmp (x # a) (y # b) =
     (if cmp y x then y # merge_sorted_nodup cmp (x # a) b
      else if cmp x y then x # merge_sorted_nodup cmp a (y # b)
      else merge_sorted_nodup cmp (x # a) b)"
| "merge_sorted_nodup cmp a [] = a"
| "merge_sorted_nodup cmp [] b = b"

definition merge_sorted :: "('a \<Rightarrow> 'a \<Rightarrow> bool) \<Rightarrow> bool \<Rightarrow> 'a list \<Rightarrow> 'a list \<Rightarrow> 'a list" where
  "merge_sorted cmp duplicates a b =
     (if duplicates then merge_sorted_dup cmp a b else merge_sorted_nodup cmp a b)"

text \<open>
  Values the bencode producer can write: every dict is sorted by key without repetition, and every
  integer is an \<open>int64_t\<close> or a \<open>uint64_t\<close>.
\<close>

fun bt_ok :: "bt_value \<Rightarrow> bool" where
  "bt_ok (BtInt i) = (in_i64 i \<or> in_u64 i)"
| "bt_ok (BtStr s) = True"
| "bt_ok (BtList l) = list_all bt_ok l"
| "bt_ok (BtDict d) = (smap_ok d \<and> list_all (\<lambda>(k, v). bt_ok v) d)"

section \<open>Lemmas\<close>

lemma bt_tree_induct [case_names BtInt BtStr BtList BtDict Nil Cons]:
  assumes "\<And>i. P (BtInt i)" and "\<And>s. P (BtStr s)" and "\<And>l. (\<And>x. x \<in> set l \<Longrightarrow> P x) \<Longrightarrow> P (BtList l)"
    and "\<And>d. Q d \<Longrightarrow> P (BtDict d)" and "Q []" and "\<And>k v m. P v \<Longrightarrow> Q m \<Longrightarrow> Q ((k, v) # m)"
  shows "P v" and "Q m"
proof -
  have list: "\<forall>p \<in> set m. P (snd p) \<Longrightarrow> Q m" for m
    using assms(5,6) by (induction m) auto
  have tree: "P v" for v
  proof (induction v)
    case (BtDict d)
    then have "\<forall>p \<in> set d. P (snd p)" by (metis snds.intros)
    then show ?case using assms(4) list by blast
  qed (use assms(1-3) in auto)
  then show "P v" by blast
  from tree list show "Q m" by blast
qed

lemma merge_Nil [simp]: "merge a [] = a" "merge [] b = b"
  by (induction a, simp_all) (induction b, simp_all)

lemma keys_merge: "fst ` set (merge a b) = fst ` set a \<union> fst ` set b"
  by (induction a b rule: merge.induct) auto

lemma smap_ok_merge: "smap_ok a \<Longrightarrow> smap_ok b \<Longrightarrow> smap_ok (merge a b)"
proof (induction a b rule: merge.induct)
  case (4 p a q b)
  have *: "x \<in> fst ` set (merge c d) \<Longrightarrow> x \<in> fst ` set c \<or> x \<in> fst ` set d" for x c d
    by (simp add: keys_merge)
  from 4 show ?case
    by (force dest: * simp: keys_merge)
qed simp_all

lemma map_of_merge: "smap_ok a \<Longrightarrow> smap_ok b \<Longrightarrow> map_of (merge a b) k = (map_of b ++ map_of a) k"
proof (induction a b rule: merge.induct)
  case (4 p a q b)
  obtain kp vp kq vq where pq: "p = (kp, vp)" "q = (kq, vq)" by fastforce
  have "kp < kq \<Longrightarrow> map_of b kp = None" "kq < kp \<Longrightarrow> map_of a kq = None"
    using 4 pq by (auto intro!: map_of_None_if_less simp: smap_ok_Cons)
  then show ?case using 4 pq
    by (auto simp: map_add_def split: option.splits)
qed (auto simp: map_add_def split: option.splits)

text \<open>What \<open>merge_sorted\<close> needs of its comparison: a strict total preorder.\<close>

definition strict_weak :: "('a \<Rightarrow> 'a \<Rightarrow> bool) \<Rightarrow> bool" where
  "strict_weak cmp \<longleftrightarrow>
     (\<forall>x y. cmp x y \<longrightarrow> \<not> cmp y x) \<and> (\<forall>x y z. \<not> cmp x y \<longrightarrow> \<not> cmp y z \<longrightarrow> \<not> cmp x z)"

abbreviation cmp_sorted :: "('a \<Rightarrow> 'a \<Rightarrow> bool) \<Rightarrow> 'a list \<Rightarrow> bool" where
  "cmp_sorted cmp \<equiv> sorted_wrt (\<lambda>x y. \<not> cmp y x)"

lemma set_merge_sorted_dup: "set (merge_sorted_dup cmp a b) = set a \<union> set b"
  by (induction cmp a b rule: merge_sorted_dup.induct) auto

lemma set_merge_sorted_nodup: "set (merge_sorted_nodup cmp a b) \<subseteq> set a \<union> set b"
  by (induction cmp a b rule: merge_sorted_nodup.induct) auto

lemma set_merge_sorted_nodup_a: "set a \<subseteq> set (merge_sorted_nodup cmp a b)"
  by (induction cmp a b rule: merge_sorted_nodup.induct) auto

lemma strict_weakD:
  assumes "strict_weak cmp"
  shows "cmp x y \<Longrightarrow> \<not> cmp y x" and "\<not> cmp x y \<Longrightarrow> \<not> cmp y z \<Longrightarrow> \<not> cmp x z" and "\<not> cmp x x"
  using assms unfolding strict_weak_def by blast+

lemma strict_weak_below:
  "strict_weak cmp \<Longrightarrow> \<not> cmp x y \<Longrightarrow> \<forall>z \<in> A. \<not> cmp z x \<Longrightarrow> z \<in> A \<Longrightarrow> \<not> cmp z y"
  using strict_weakD(2) [of cmp z x y] by blast

lemma sorted_merge_sorted_dup:
  "strict_weak cmp \<Longrightarrow> cmp_sorted cmp a \<Longrightarrow> cmp_sorted cmp b \<Longrightarrow>
   cmp_sorted cmp (merge_sorted_dup cmp a b)"
proof (induction cmp a b rule: merge_sorted_dup.induct)
  case (1 cmp x a y b)
  show ?case
  proof (cases "cmp x y")
    case True
    then have "\<forall>z \<in> set a \<union> set (y # b). \<not> cmp z x"
      using 1(3-5) strict_weak_below [of cmp y x "set b"] strict_weakD(1) [of cmp x y] by auto
    with True 1 show ?thesis by (simp add: set_merge_sorted_dup)
  next
    case False
    then have "\<forall>z \<in> set (x # a) \<union> set b. \<not> cmp z y"
      using 1(3-5) strict_weak_below [of cmp x y "set a"] by auto
    with False 1 show ?thesis by (simp add: set_merge_sorted_dup)
  qed
qed simp_all

lemma sorted_merge_sorted_nodup:
  "strict_weak cmp \<Longrightarrow> cmp_sorted cmp a \<Longrightarrow> cmp_sorted cmp b \<Longrightarrow>
   cmp_sorted cmp (merge_sorted_nodup cmp a b)"
proof (induction cmp a b rule: merge_sorted_nodup.induct)
  case (1 cmp x a y b)
  note sub = set_merge_sorted_nodup [THEN subsetD]
  consider "cmp y x" | "\<not> cmp y x" "cmp x y" | "\<not> cmp y x" "\<not> cmp x y" by blast
  then show ?case
  proof cases
    case 1
    then have "\<forall>z \<in> set (x # a) \<union> set b. \<not> cmp z y"
      using "1.prems" strict_weak_below [of cmp x y "set a"] strict_weakD(1) [of cmp y x] by auto
    with 1 "1.prems" "1.IH"(1) show ?thesis by (auto dest!: sub)
  next
    case 2
    then have "\<forall>z \<in> set a \<union> set (y # b). \<not> cmp z x"
      using "1.prems" strict_weak_below [of cmp y x "set b"] by auto
    with 2 "1.prems" "1.IH"(2) show ?thesis by (auto dest!: sub)
  next
    case 3
    with "1.prems" "1.IH"(3) show ?thesis by simp
  qed
qed simp_all

text \<open>Every element of either input is represented in the result by one that compares equal.\<close>

lemma merge_sorted_nodup_covers:
  "strict_weak cmp \<Longrightarrow> y \<in> set a \<union> set b \<Longrightarrow>
   \<exists>z \<in> set (merge_sorted_nodup cmp a b). \<not> cmp y z \<and> \<not> cmp z y"
proof (induction cmp a b rule: merge_sorted_nodup.induct)
  case (1 cmp x a w b)
  have x: "x \<in> set (merge_sorted_nodup cmp (x # a) b)"
    using set_merge_sorted_nodup_a [of "x # a" cmp b] by simp
  consider "cmp w x" | "\<not> cmp w x" "cmp x w" | "\<not> cmp w x" "\<not> cmp x w" by blast
  then show ?case
  proof cases
    case 1
    with "1.IH"(1) "1.prems" show ?thesis by (cases "y = w") (auto dest: strict_weakD(3))
  next
    case 2
    with "1.IH"(2) "1.prems" show ?thesis by (cases "y = x") (auto dest: strict_weakD(3))
  next
    case 3
    with "1.IH"(3) "1.prems" x show ?thesis by (cases "y = w") auto
  qed
qed (auto dest: strict_weakD(3))

end
