(* ===== verification/Config_Data.thy ===== *)
theory Config_Data
  imports Bt_Values
begin

text \<open>
  The application data of a config message and the three algorithms over it from
  \<open>src/src/config.cpp\<close>: pruning empty containers (\<open>prune_\<close>), computing the diff of two data trees
  (\<open>diff_impl\<close>) and replaying a diff (\<open>apply_diff\<close>).

  \<open>dict\<close> is a \<open>std::map\<close> from keys to values that are again dicts, sets or scalars, kept as a
  strictly sorted association list; \<open>set\<close> is a strictly sorted list of scalars.
\<close>

section \<open>Data\<close>

datatype scalar = SInt int | SStr string

datatype dict_value =
    VDict "(string \<times> dict_value) list"
  | VSet "scalar list"
  | VScalar scalar

type_synonym dict = "(string \<times> dict_value) list"

abbreviation dict_size :: "dict \<Rightarrow> nat" where
  "dict_size \<equiv> size_list (size_prod (\<lambda>_. 0) size)"

text \<open>\<open>std::variant\<close> compares the index first (integers before strings), then the value.\<close>

instantiation scalar :: linorder
begin

fun less_eq_scalar :: "scalar \<Rightarrow> scalar \<Rightarrow> bool" where
  "less_eq_scalar (SInt i) (SInt j) = (i \<le> j)"
| "less_eq_scalar (SInt i) (SStr t) = True"
| "less_eq_scalar (SStr s) (SInt j) = False"
| "less_eq_scalar (SStr s) (SStr t) = (s \<le> t)"

fun less_scalar :: "scalar \<Rightarrow> scalar \<Rightarrow> bool" where
  "less_scalar (SInt i) (SInt j) = (i < j)"
| "less_scalar (SInt i) (SStr t) = True"
| "less_scalar (SStr s) (SInt j) = False"
| "less_scalar (SStr s) (SStr t) = (s < t)"

instance
proof
  fix x y z :: scalar
  show "(x < y) = (x \<le> y \<and> \<not> y \<le> x)" by (cases x; cases y) auto
  show "x \<le> x" by (cases x) auto
  show "x \<le> y \<Longrightarrow> y \<le> z \<Longrightarrow> x \<le> z" by (cases x; cases y; cases z) auto
  show "x \<le> y \<Longrightarrow> y \<le> x \<Longrightarrow> x = y" by (cases x; cases y) auto
  show "x \<le> y \<or> y \<le> x" by (cases x; cases y) auto
qed

end

text \<open>The representation invariant: sorted keys and sets, integers that fit \<open>int64_t\<close>.\<close>

fun wf_scalar :: "scalar \<Rightarrow> bool" where
  "wf_scalar (SInt i) = in_i64 i"
| "wf_scalar (SStr s) = True"

fun wf_val :: "dict_value \<Rightarrow> bool" where
  "wf_val (VDict d) = (smap_ok d \<and> (\<forall>(k, v) \<in> set d. wf_val v))"
| "wf_val (VSet s) = (ssorted s \<and> list_all wf_scalar s)"
| "wf_val (VScalar x) = wf_scalar x"

abbreviation wf_dict :: "dict \<Rightarrow> bool" where
  "wf_dict d \<equiv> wf_val (VDict d)"

text \<open>No empty dict or set below the top level.\<close>

fun pruned_val :: "dict_value \<Rightarrow> bool" where
  "pruned_val (VDict d) = (d \<noteq> [] \<and> (\<forall>(k, v) \<in> set d. pruned_val v))"
| "pruned_val (VSet s) = (s \<noteq> [])"
| "pruned_val (VScalar x) = True"

definition pruned :: "dict \<Rightarrow> bool" where
  "pruned d \<longleftrightarrow> (\<forall>(k, v) \<in> set d. pruned_val v)"

section \<open>prune\<close>

text \<open>
  \<open>prune_\<close> on a value returns the pruned value with the pair \<open>(should_remove, removed_subkeys)\<close>;
  \<open>prune_entries\<close> is the loop over a dict's entries, which erases an entry when its value says so
  and reports whether anything was removed.
\<close>

fun prune_val :: "dict_value \<Rightarrow> dict_value \<times> bool \<times> bool"
  and prune_entries :: "dict \<Rightarrow> dict \<times> bool" where
  "prune_val (VDict d) =
     (let r = prune_entries d in (VDict (fst r), fst r = [], snd r))"
| "prune_val (VSet s) = (VSet s, s = [], False)"
| "prune_val (VScalar x) = (VScalar x, False, False)"
| "prune_entries [] = ([], False)"
| "prune_entries ((k, v) # m) =
     (let r = prune_val v; v' = fst r; rm_key = fst (snd r); rm_subkeys = snd (snd r);
          rest = prune_entries m
      in (if rm_key then fst rest else (k, v') # fst rest, rm_key \<or> rm_subkeys \<or> snd rest))"

definition prune_dict :: "dict \<Rightarrow> dict \<times> bool \<times> bool" where
  "prune_dict d = (let r = prune_entries d in (fst r, fst r = [], snd r))"

section \<open>diff\<close>

text \<open>
  The set diff walks both sorted sets and returns the added and the removed elements; the
  \<open>std::nullopt\<close> of the source is the pair of empty lists.
\<close>

fun diff_set :: "scalar list \<Rightarrow> scalar list \<Rightarrow> scalar list \<times> scalar list" where
  "diff_set [] [] = ([], [])"
| "diff_set [] (n # new) = (case diff_set [] new of (a, r) \<Rightarrow> (n # a, r))"
| "diff_set (x # old) [] = (case diff_set old [] of (a, r) \<Rightarrow> (a, x # r))"
| "diff_set (x # old) (n # new) =
     (if n < x then (case diff_set (x # old) new of (a, r) \<Rightarrow> (n # a, r))
      else if x < n then (case diff_set old (n # new) of (a, r) \<Rightarrow> (a, x # r))
      else diff_set old new)"

fun bt_scalar :: "scalar \<Rightarrow> bt_value" where
  "bt_scalar (SInt i) = BtInt i"
| "bt_scalar (SStr s) = BtStr s"

definition bt_set_diff :: "scalar list \<times> scalar list \<Rightarrow> bt_value" where
  "bt_set_diff ar = BtList [BtList (map bt_scalar (fst ar)), BtList (map bt_scalar (snd ar))]"

text \<open>
  The dict diff. The source's result optional is empty exactly when the diff dict is, so the model
  returns the dict; \<open>*diff_impl(...)\<close> on an empty result dereferences a \<open>nullopt\<close>, which
  \<open>deref_dict\<close> and \<open>deref_set\<close> make explicit. \<open>diff_new\<close> and \<open>diff_removed\<close> are the code for an
  entry that is only in the new or only in the old data.
\<close>

definition deref_dict :: "bt_dict \<Rightarrow> bt_value res" where
  "deref_dict df = (if df = [] then Inl Undefined_behaviour else Inr (BtDict df))"

definition deref_set :: "scalar list \<times> scalar list \<Rightarrow> bt_value res" where
  "deref_set ar = (if ar = ([], []) then Inl Undefined_behaviour else Inr (bt_set_diff ar))"

function (sequential) diff_impl :: "dict \<Rightarrow> dict \<Rightarrow> bt_dict res"
  and diff_new :: "dict_value \<Rightarrow> bt_value res"
  and diff_removed :: "dict_value \<Rightarrow> bt_value res"
  and diff_same :: "dict_value \<Rightarrow> dict_value \<Rightarrow> bt_value option res" where
  "diff_impl [] [] = Inr []"
| "diff_impl [] ((nk, nv) # new) =
     res_bind (diff_new nv) (\<lambda>e. res_bind (diff_impl [] new) (\<lambda>df. Inr ((nk, e) # df)))"
| "diff_impl ((xk, xv) # old) [] =
     res_bind (diff_removed xv) (\<lambda>e. res_bind (diff_impl old []) (\<lambda>df. Inr ((xk, e) # df)))"
| "diff_impl ((xk, xv) # old) ((nk, nv) # new) =
     (if nk < xk then
        res_bind (diff_new nv) (\<lambda>e.
        res_bind (diff_impl ((xk, xv) # old) new) (\<lambda>df. Inr ((nk, e) # df)))
      else if xk < nk then
        res_bind (diff_removed xv) (\<lambda>e.
        res_bind (diff_impl old ((nk, nv) # new)) (\<lambda>df. Inr ((xk, e) # df)))
      else
        res_bind (diff_same xv nv) (\<lambda>eo.
        res_bind (diff_impl old new) (\<lambda>df.
          Inr (case eo of None \<Rightarrow> df | Some e \<Rightarrow> (nk, e) # df))))"
| "diff_new (VDict d) = res_bind (diff_impl [] d) deref_dict"
| "diff_new (VSet s) = deref_set (diff_set [] s)"
| "diff_new (VScalar x) = Inr (BtStr '''')"
| "diff_removed (VDict d) = res_bind (diff_impl d []) deref_dict"
| "diff_removed (VSet s) = deref_set (diff_set s [])"
| "diff_removed (VScalar x) = Inr (BtStr ''-'')"
| "diff_same (VScalar x) (VScalar y) = Inr (if x \<noteq> y then Some (BtStr '''') else None)"
| "diff_same (VDict x) (VDict y) =
     res_bind (diff_impl x y) (\<lambda>df. Inr (if df = [] then None else Some (BtDict df)))"
| "diff_same (VSet x) (VSet y) =
     Inr (let ar = diff_set x y in if ar = ([], []) then None else Some (bt_set_diff ar))"
| "diff_same xv nv = res_bind (diff_new nv) (\<lambda>e. Inr (Some e))"
  by pat_completeness auto
termination
  by (relation "measure (case_sum
        (case_sum (\<lambda>(x, y). 3 * (dict_size x + dict_size y)) (\<lambda>v. 3 * size v))
        (case_sum (\<lambda>v. 3 * size v) (\<lambda>(v, w). 3 * (size v + size w) + 1)))") auto

section \<open>apply\<close>

text \<open>\<open>get_bt_scalar\<close>: an integer or a string, nothing otherwise.\<close>

definition get_bt_scalar :: "bt_value \<Rightarrow> scalar option res" where
  "get_bt_scalar v =
     res_bind (get_bt_int v) (\<lambda>io. Inr (case io of
        Some i \<Rightarrow> Some (SInt i)
      | None \<Rightarrow> map_option SStr (get_bt_str v)))"

text \<open>The two loops over a set diff's \<open>[added]\<close> and \<open>[removed]\<close> sublists.\<close>

definition get_bt_list :: "bt_value \<Rightarrow> bt_list res" where
  "get_bt_list v = (case v of BtList l \<Rightarrow> Inr l | _ \<Rightarrow> Inl Bad_variant_access)"

definition scalar_or_error :: "bt_value \<Rightarrow> scalar res" where
  "scalar_or_error v =
     res_bind (get_bt_scalar v) (\<lambda>so. case so of Some x \<Rightarrow> Inr x | None \<Rightarrow> Inl Config_error)"

definition insert_step :: "bt_value \<Rightarrow> scalar list \<Rightarrow> scalar list res" where
  "insert_step v s = res_bind (scalar_or_error v) (\<lambda>x. Inr (set_insert x s))"

definition erase_step :: "bt_value \<Rightarrow> scalar list \<Rightarrow> scalar list res" where
  "erase_step v s = res_bind (scalar_or_error v) (\<lambda>x. Inr (set_erase x s))"

definition apply_set_diff :: "bt_list \<Rightarrow> scalar list \<Rightarrow> scalar list res" where
  "apply_set_diff l s =
     (case l of
        [] \<Rightarrow> Inl Undefined_behaviour
      | a # rest \<Rightarrow>
          res_bind (get_bt_list a) (\<lambda>added.
          res_bind (res_fold insert_step added s) (\<lambda>s1.
            case rest of
              [] \<Rightarrow> Inl Undefined_behaviour
            | r # _ \<Rightarrow>
                res_bind (get_bt_list r) (\<lambda>removed. res_fold erase_step removed s1))))"

text \<open>
  \<open>apply_diff\<close>: for each diff entry, what becomes of the key in \<open>data\<close> given its current value and
  the value in \<open>source\<close>. The first test of the source (missing in \<open>source\<close>, or there with a type
  that does not match the diff) erases the key.
\<close>

definition assign :: "string \<Rightarrow> dict_value option \<Rightarrow> dict \<Rightarrow> dict" where
  "assign k r d = (case r of None \<Rightarrow> smap_del k d | Some v \<Rightarrow> smap_put k v d)"

fun apply_diff :: "dict \<Rightarrow> bt_dict \<Rightarrow> dict \<Rightarrow> dict res"
  and apply_value :: "dict_value option \<Rightarrow> bt_value \<Rightarrow> dict_value option \<Rightarrow> dict_value option res" where
  "apply_diff data [] source = Inr data"
| "apply_diff data ((k, v) # df) source =
     res_bind (apply_value (map_of data k) v (map_of source k))
       (\<lambda>r. apply_diff (assign k r data) df source)"
| "apply_value cur v None = Inr None"
| "apply_value cur (BtStr m) (Some (VScalar x)) =
     (if m = ''-'' then Inr None
      else if m = '''' then Inr (Some (VScalar x))
      else Inl Config_error)"
| "apply_value cur (BtStr m) (Some sv) = Inr None"
| "apply_value cur (BtDict df) (Some (VDict source)) =
     res_bind (apply_diff (case cur of Some (VDict d) \<Rightarrow> d | _ \<Rightarrow> []) df source)
       (\<lambda>d. Inr (Some (VDict d)))"
| "apply_value cur (BtDict df) (Some sv) = Inr None"
| "apply_value cur (BtList l) (Some (VSet source)) =
     res_bind (apply_set_diff l (case cur of Some (VSet s) \<Rightarrow> s | _ \<Rightarrow> []))
       (\<lambda>s. Inr (Some (VSet s)))"
| "apply_value cur (BtList l) (Some sv) = Inr None"
| "apply_value cur (BtInt i) (Some sv) = Inl Config_error"

section \<open>Induction over data trees\<close>

text \<open>Values and the entry lists below them, one list step at a time.\<close>

lemma dict_tree_induct [case_names VDict VSet VScalar Nil Cons]:
  assumes "\<And>d. Q d \<Longrightarrow> P (VDict d)" and "\<And>s. P (VSet s)" and "\<And>x. P (VScalar x)"
    and "Q []" and "\<And>k v m. P v \<Longrightarrow> Q m \<Longrightarrow> Q ((k, v) # m)"
  shows "P v" and "Q m"
proof -
  have list: "\<forall>p \<in> set m. P (snd p) \<Longrightarrow> Q m" for m
    using assms(4,5) by (induction m) auto
  have tree: "P v" for v
  proof (induction v)
    case (VDict d)
    then have "\<forall>p \<in> set d. P (snd p)" by (metis snds.intros)
    then show ?case using assms(1) list by blast
  qed (use assms(2,3) in auto)
  then show "P v" by blast
  from tree list show "Q m" by blast
qed

section \<open>Lemmas on prune\<close>

lemma prune_sizes:
  "size (fst (prune_val v)) \<le> size v \<and> (snd (snd (prune_val v)) \<longrightarrow> size (fst (prune_val v)) < size v)"
  "dict_size (fst (prune_entries m)) \<le> dict_size m \<and>
   (snd (prune_entries m) \<longrightarrow> dict_size (fst (prune_entries m)) < dict_size m)"
  by (induction v and m rule: dict_tree_induct) (auto simp: Let_def)

lemma prune_unchanged:
  "\<not> snd (snd (prune_val v)) \<Longrightarrow> fst (prune_val v) = v"
  "\<not> snd (prune_entries m) \<Longrightarrow> fst (prune_entries m) = m"
  by (induction v and m rule: dict_tree_induct) (auto simp: Let_def split: if_splits)

lemma prune_entries_changed: "snd (prune_entries m) \<longleftrightarrow> fst (prune_entries m) \<noteq> m"
  using prune_sizes(2) [of m] prune_unchanged(2) [of m] by auto

lemma keys_prune_entries: "p \<in> set (fst (prune_entries m)) \<Longrightarrow> fst p \<in> fst ` set m"
  by (induction m) (auto simp: Let_def split: if_splits)

lemma prune_pruned:
  "\<not> fst (snd (prune_val v)) \<Longrightarrow> pruned_val (fst (prune_val v))"
  "\<forall>(k, w) \<in> set (fst (prune_entries m)). pruned_val w"
  by (induction v and m rule: dict_tree_induct) (auto simp: Let_def split: if_splits)

lemma prune_wf:
  "wf_val v \<Longrightarrow> wf_val (fst (prune_val v))"
  "wf_dict m \<Longrightarrow> wf_dict (fst (prune_entries m))"
proof (induction v and m rule: dict_tree_induct)
  case (Cons k v m)
  from Cons show ?case
    by (fastforce simp: Let_def dest: keys_prune_entries)
qed (auto simp: Let_def)

lemma prune_fixed:
  "pruned_val v \<Longrightarrow> prune_val v = (v, False, False)"
  "pruned m \<Longrightarrow> prune_entries m = (m, False)"
  by (induction v and m rule: dict_tree_induct)
    (auto simp: pruned_def Let_def)

lemma pruned_prune_dict: "pruned (fst (prune_dict d))"
  using prune_pruned(2) [of d] by (simp add: prune_dict_def pruned_def Let_def)

lemma wf_prune_dict: "wf_dict d \<Longrightarrow> wf_dict (fst (prune_dict d))"
  using prune_wf(2) [of d] by (simp add: prune_dict_def Let_def)

lemma prune_dict_fixed: "pruned d \<Longrightarrow> prune_dict d = (d, d = [], False)"
  by (simp add: prune_dict_def prune_fixed)

lemma wf_dict_Cons: "wf_dict ((k, v) # d) \<longleftrightarrow> wf_val v \<and> wf_dict d \<and> (\<forall>p \<in> set d. k < fst p)"
  by auto

lemma pruned_Cons [simp]: "pruned ((k, v) # d) \<longleftrightarrow> pruned_val v \<and> pruned d"
  by (simp add: pruned_def)

lemma pruned_Nil [simp]: "pruned []"
  by (simp add: pruned_def)

lemma pruned_val_VDict: "pruned_val (VDict d) \<longleftrightarrow> d \<noteq> [] \<and> pruned d"
  by (simp add: pruned_def)

lemma wf_dict_lookup: "wf_dict d \<Longrightarrow> map_of d k = Some v \<Longrightarrow> wf_val v"
  by (auto dest: map_of_SomeD)

lemma pruned_lookup: "pruned d \<Longrightarrow> map_of d k = Some v \<Longrightarrow> pruned_val v"
  by (auto simp: pruned_def dest: map_of_SomeD)

lemma smap_ok_assign [simp]: "smap_ok d \<Longrightarrow> smap_ok (assign k r d)"
  by (simp add: assign_def split: option.split)

lemma map_of_assign [smap_simps]: "smap_ok d \<Longrightarrow> map_of (assign k r d) = (map_of d)(k := r)"
  by (simp add: assign_def smap_simps split: option.split)

end
