(* ===== verification/Config_Diff.thy ===== *)
theory Config_Diff
  imports Config_Data
begin

text \<open>
  Correctness of the diff machinery of \<open>src/src/config.cpp\<close>: the set diff computes the two set
  differences, replaying a diff entry by entry acts on each key independently, and replaying the
  diff of two data trees over the old one gives the new one.
\<close>

section \<open>Sets\<close>

lemma diff_set_sets:
  "ssorted old \<Longrightarrow> ssorted new \<Longrightarrow>
   set (fst (diff_set old new)) = set new - set old \<and> set (snd (diff_set old new)) = set old - set new"
proof (induction old new rule: diff_set.induct)
  case (4 x old n new)
  then show ?case
    by (cases "n < x"; cases "x < n") (force split: prod.splits)+
qed (auto split: prod.splits)

lemma diff_set_sorted:
  "ssorted old \<Longrightarrow> ssorted new \<Longrightarrow>
   ssorted (fst (diff_set old new)) \<and> ssorted (snd (diff_set old new))"
proof (induction old new rule: diff_set.induct)
  case (2 n new)
  then show ?case using diff_set_sets [of "[]" new] by (auto split: prod.splits)
next
  case (3 x old)
  then show ?case using diff_set_sets [of old "[]"] by (auto split: prod.splits)
next
  case (4 x old n new)
  consider "n < x" | "\<not> n < x" "x < n" | "x = n" by fastforce
  then show ?case
  proof cases
    case 1
    with 4 diff_set_sets [of "x # old" new] show ?thesis by (auto split: prod.splits)
  next
    case 2
    with 4 diff_set_sets [of old "n # new"] show ?thesis by (auto split: prod.splits)
  qed (use 4 in auto)
qed simp

lemma diff_set_empty_iff:
  assumes "ssorted old" "ssorted new"
  shows "diff_set old new = ([], []) \<longleftrightarrow> old = new"
proof -
  have "diff_set old new = ([], []) \<longleftrightarrow> set (fst (diff_set old new)) = {} \<and> set (snd (diff_set old new)) = {}"
    by (cases "diff_set old new") simp
  also have "\<dots> \<longleftrightarrow> set old = set new"
    using diff_set_sets [OF assms] by auto
  also have "\<dots> \<longleftrightarrow> old = new"
    using ssorted_ext assms by auto
  finally show ?thesis .
qed

lemma list_all_diff_set:
  "ssorted old \<Longrightarrow> ssorted new \<Longrightarrow> list_all P old \<Longrightarrow> list_all P new \<Longrightarrow>
   list_all P (fst (diff_set old new)) \<and> list_all P (snd (diff_set old new))"
  using diff_set_sets [of old new] by (auto simp: list_all_iff)

lemma scalar_or_error_bt_scalar [simp]: "wf_scalar x \<Longrightarrow> scalar_or_error (bt_scalar x) = Inr x"
  by (cases x) (auto simp: scalar_or_error_def get_bt_scalar_def get_bt_int_def get_bt_str_def)

lemma res_fold_insert_step:
  "list_all wf_scalar xs \<Longrightarrow> res_fold insert_step (map bt_scalar xs) s = Inr (fold set_insert xs s)"
  by (induction xs arbitrary: s) (auto simp: insert_step_def)

lemma res_fold_erase_step:
  "list_all wf_scalar xs \<Longrightarrow> res_fold erase_step (map bt_scalar xs) s = Inr (fold set_erase xs s)"
  by (induction xs arbitrary: s) (auto simp: erase_step_def)

lemma apply_set_diff_bt:
  assumes "ssorted old" "ssorted new" "list_all wf_scalar old" "list_all wf_scalar new"
    and "bt_set_diff (diff_set old new) = BtList l"
  shows "apply_set_diff l old = Inr new"
proof -
  obtain a r where ar: "diff_set old new = (a, r)" by fastforce
  have "ssorted (fold set_erase r (fold set_insert a old))"
    by (simp add: ssorted_fold_erase ssorted_fold_insert assms)
  moreover have "set (fold set_erase r (fold set_insert a old)) = set new"
    using diff_set_sets [OF assms(1,2)] ar by (auto simp: set_fold_erase set_fold_insert)
  ultimately have "fold set_erase r (fold set_insert a old) = new"
    using ssorted_ext assms(2) by blast
  moreover have "list_all wf_scalar a" "list_all wf_scalar r"
    using list_all_diff_set [OF assms(1-4)] ar by auto
  ultimately show ?thesis
    using assms(5) ar
    by (auto simp: bt_set_diff_def apply_set_diff_def get_bt_list_def
        res_fold_insert_step res_fold_erase_step)
qed

section \<open>Replaying a diff acts on each key independently\<close>

lemma apply_diff_lookup:
  assumes "smap_ok data" and "distinct (map fst df)"
    and "\<And>k e. (k, e) \<in> set df \<Longrightarrow> apply_value (map_of data k) e (map_of source k) = Inr (R k)"
  shows "\<exists>d. apply_diff data df source = Inr d \<and> smap_ok d \<and>
    (\<forall>k. map_of d k = (if k \<in> fst ` set df then R k else map_of data k))"
  using assms
proof (induction df arbitrary: data)
  case Nil
  then show ?case by simp
next
  case (Cons p df)
  obtain k e where p: "p = (k, e)" by fastforce
  let ?data = "assign k (R k) data"
  have "\<exists>d. apply_diff ?data df source = Inr d \<and> smap_ok d \<and>
    (\<forall>j. map_of d j = (if j \<in> fst ` set df then R j else map_of ?data j))"
  proof (rule Cons.IH)
    fix j f
    assume "(j, f) \<in> set df"
    moreover from this have "j \<noteq> k" using Cons.prems(2) p by force
    ultimately show "apply_value (map_of ?data j) f (map_of source j) = Inr (R j)"
      using Cons.prems p by (simp add: smap_simps)
  qed (use Cons.prems in auto)
  then show ?case
    using Cons.prems p by (auto simp: smap_simps)
qed

lemma apply_diff_decompose:
  assumes "smap_ok data" and "distinct (map fst df)" and "apply_diff data df source = Inr d"
  shows "smap_ok d \<and> (\<forall>k. case map_of df k of
      None \<Rightarrow> map_of d k = map_of data k
    | Some e \<Rightarrow> apply_value (map_of data k) e (map_of source k) = Inr (map_of d k))"
  using assms
proof (induction df arbitrary: data)
  case Nil
  then show ?case by simp
next
  case (Cons p df)
  obtain k e where p: "p = (k, e)" by fastforce
  from Cons.prems p obtain r where r: "apply_value (map_of data k) e (map_of source k) = Inr r"
    and step: "apply_diff (assign k r data) df source = Inr d"
    by (auto simp: res_bind_eq_Inr)
  have none: "map_of df k = None" using Cons.prems(2) p by (simp add: map_of_eq_None_iff)
  have IH: "smap_ok d" "case map_of df j of
      None \<Rightarrow> map_of d j = map_of (assign k r data) j
    | Some f \<Rightarrow> apply_value (map_of (assign k r data) j) f (map_of source j) = Inr (map_of d j)" for j
    using Cons.IH [OF _ _ step] Cons.prems p by auto
  have "case map_of (p # df) j of
      None \<Rightarrow> map_of d j = map_of data j
    | Some f \<Rightarrow> apply_value (map_of data j) f (map_of source j) = Inr (map_of d j)" for j
    using IH(2) [of j] none r Cons.prems(1) p
    by (cases "j = k") (simp_all add: smap_simps cong: option.case_cong)
  with IH(1) show ?case by blast
qed

section \<open>Diff then apply\<close>

definition entry_replays :: "dict_value option \<Rightarrow> bt_value option \<Rightarrow> dict_value option \<Rightarrow> bool" where
  "entry_replays x eo n =
     (case eo of None \<Rightarrow> x = n | Some e \<Rightarrow> apply_value x e n = Inr n)"

lemma entry_replays_simps [simp]:
  "entry_replays x None n \<longleftrightarrow> x = n"
  "entry_replays x (Some e) n \<longleftrightarrow> apply_value x e n = Inr n"
  by (simp_all add: entry_replays_def)

definition diff_replays :: "dict \<Rightarrow> dict \<Rightarrow> bt_dict \<Rightarrow> bool" where
  "diff_replays old new df \<longleftrightarrow> smap_ok df \<and> fst ` set df \<subseteq> fst ` set old \<union> fst ` set new \<and>
     (\<forall>k. entry_replays (map_of old k) (map_of df k) (map_of new k))"

lemma diff_replays_apply:
  assumes "smap_ok old" "smap_ok new" "diff_replays old new df"
  shows "apply_diff old df new = Inr new"
proof -
  have keys: "k \<in> fst ` set df \<longleftrightarrow> map_of df k \<noteq> None" for k
    by (auto simp: map_of_eq_None_iff)
  have "\<exists>d. apply_diff old df new = Inr d \<and> smap_ok d \<and>
      (\<forall>k. map_of d k = (if k \<in> fst ` set df then map_of new k else map_of old k))"
  proof (rule apply_diff_lookup)
    show "distinct (map fst df)" using assms by (simp add: diff_replays_def smap_ok_distinct)
    fix k e assume "(k, e) \<in> set df"
    then have "map_of df k = Some e"
      using assms by (simp add: diff_replays_def map_of_Some_smap)
    moreover have "entry_replays (map_of old k) (map_of df k) (map_of new k)"
      using assms(3) by (simp add: diff_replays_def)
    ultimately show "apply_value (map_of old k) e (map_of new k) = Inr (map_of new k)"
      by simp
  qed (rule assms)
  then obtain d where d: "apply_diff old df new = Inr d" "smap_ok d"
    and look: "\<forall>k. map_of d k = (if k \<in> fst ` set df then map_of new k else map_of old k)"
    by blast
  have "map_of d k = map_of new k" for k
  proof (cases "map_of df k")
    case None
    moreover have "entry_replays (map_of old k) (map_of df k) (map_of new k)"
      using assms(3) by (simp add: diff_replays_def)
    ultimately have "map_of old k = map_of new k" by simp
    with None look keys [of k] show ?thesis by simp
  qed (use look keys [of k] in simp)
  then show ?thesis using d assms(2) smap_ext by blast
qed

lemma diff_replays_Nil: "diff_replays old new [] \<Longrightarrow> map_of old = map_of new"
  by (auto simp: diff_replays_def)

lemma diff_replays_one_sided:
  "diff_replays [] d df \<Longrightarrow> d \<noteq> [] \<Longrightarrow> df \<noteq> []"
  "diff_replays d [] df \<Longrightarrow> d \<noteq> [] \<Longrightarrow> df \<noteq> []"
  using diff_replays_Nil [of "[]" d] diff_replays_Nil [of d "[]"] by auto

text \<open>A new value is replayed over anything of another type, or nothing.\<close>

definition other_kind :: "dict_value option \<Rightarrow> dict_value \<Rightarrow> bool" where
  "other_kind cur v =
     (case (cur, v) of
        (Some (VDict _), VDict _) \<Rightarrow> False
      | (Some (VSet _), VSet _) \<Rightarrow> False
      | _ \<Rightarrow> True)"

lemma diff_replays_Cons_new:
  assumes "diff_replays old new df" and "\<forall>p \<in> set old. nk < fst p" and "\<forall>p \<in> set new. nk < fst p"
    and "apply_value None e (Some nv) = Inr (Some nv)"
  shows "diff_replays old ((nk, nv) # new) ((nk, e) # df)"
proof -
  have "\<forall>p \<in> set df. nk < fst p"
    using assms(1-3) unfolding diff_replays_def by fastforce
  then show ?thesis
    using assms by (auto simp: diff_replays_def entry_replays_def map_of_None_if_less)
qed

lemma diff_replays_Cons_removed:
  assumes "diff_replays old new df" and "\<forall>p \<in> set old. xk < fst p" and "\<forall>p \<in> set new. xk < fst p"
  shows "diff_replays ((xk, xv) # old) new ((xk, e) # df)"
proof -
  have "\<forall>p \<in> set df. xk < fst p"
    using assms unfolding diff_replays_def by fastforce
  then show ?thesis
    using assms by (auto simp: diff_replays_def entry_replays_def map_of_None_if_less)
qed

lemma diff_replays_Cons_same:
  assumes "diff_replays old new df" and "\<forall>p \<in> set old. k < fst p" and "\<forall>p \<in> set new. k < fst p"
    and "entry_replays (Some xv) eo (Some nv)"
  shows "diff_replays ((k, xv) # old) ((k, nv) # new) (case eo of None \<Rightarrow> df | Some e \<Rightarrow> (k, e) # df)"
proof -
  have less: "\<forall>p \<in> set df. k < fst p"
    using assms(1-3) unfolding diff_replays_def by fastforce
  then have "map_of df k = None" by (rule map_of_None_if_less)
  with less show ?thesis
    using assms by (cases eo) (auto simp: diff_replays_def entry_replays_def)
qed

lemma diff_replay_all:
  "wf_dict old \<Longrightarrow> wf_dict new \<Longrightarrow> pruned old \<Longrightarrow> pruned new \<Longrightarrow>
     \<exists>df. diff_impl old new = Inr df \<and> diff_replays old new df"
  "wf_val n \<Longrightarrow> pruned_val n \<Longrightarrow>
     \<exists>e. diff_new n = Inr e \<and> (\<forall>cur. other_kind cur n \<longrightarrow> apply_value cur e (Some n) = Inr (Some n))"
  "wf_val x \<Longrightarrow> pruned_val x \<Longrightarrow> \<exists>e. diff_removed x = Inr e"
  "wf_val xv \<Longrightarrow> wf_val nv \<Longrightarrow> pruned_val xv \<Longrightarrow> pruned_val nv \<Longrightarrow>
     \<exists>eo. diff_same xv nv = Inr eo \<and> entry_replays (Some xv) eo (Some nv)"
proof (induction old new and n and x and xv nv
    rule: diff_impl_diff_new_diff_removed_diff_same.induct)
  case 1
  then show ?case by (simp add: diff_replays_def entry_replays_def)
next
  case (2 nk nv new)
  then obtain e df where "diff_new nv = Inr e" "diff_impl [] new = Inr df" "diff_replays [] new df"
    "apply_value None e (Some nv) = Inr (Some nv)"
    by (fastforce simp: other_kind_def split: prod.splits)
  then show ?case using "2.prems" by (auto intro: diff_replays_Cons_new)
next
  case (3 xk xv old)
  then obtain e df where "diff_removed xv = Inr e" "diff_impl old [] = Inr df" "diff_replays old [] df"
    by fastforce
  then show ?case using "3.prems" by (auto intro: diff_replays_Cons_removed)
next
  case (4 xk xv old nk nv new)
  have less: "\<forall>p \<in> set old. xk < fst p" "\<forall>p \<in> set new. nk < fst p"
    using "4.prems" by auto
  consider "nk < xk" | "\<not> nk < xk" "xk < nk" | "xk = nk" by fastforce
  then show ?case
  proof cases
    case 1
    with "4.IH"(1,2) "4.prems" obtain e df where "diff_new nv = Inr e"
      "diff_impl ((xk, xv) # old) new = Inr df" "diff_replays ((xk, xv) # old) new df"
      "apply_value None e (Some nv) = Inr (Some nv)"
      by (fastforce simp: other_kind_def split: prod.splits)
    moreover have "\<forall>p \<in> set ((xk, xv) # old). nk < fst p"
      using 1 less(1) order.strict_trans [OF 1] by auto
    ultimately show ?thesis
      using 1 less(2) by (auto intro!: diff_replays_Cons_new)
  next
    case 2
    with "4.IH"(3,4) "4.prems" obtain e df where "diff_removed xv = Inr e"
      "diff_impl old ((nk, nv) # new) = Inr df" "diff_replays old ((nk, nv) # new) df"
      by fastforce
    moreover have "\<forall>p \<in> set ((nk, nv) # new). xk < fst p"
      using 2 less(2) order.strict_trans [OF 2(2)] by auto
    ultimately show ?thesis
      using 2 less(1) by (auto intro!: diff_replays_Cons_removed)
  next
    case 3
    with "4.IH"(5,6) "4.prems" obtain eo df where "diff_same xv nv = Inr eo"
      "diff_impl old new = Inr df" "diff_replays old new df" "entry_replays (Some xv) eo (Some nv)"
      by fastforce
    with 3 less diff_replays_Cons_same show ?thesis by simp
  qed
next
  case (5 d)
  then obtain df where df: "diff_impl [] d = Inr df" "diff_replays [] d df"
    by (auto simp: pruned_def)
  then have "apply_diff [] df d = Inr d"
    using 5 by (intro diff_replays_apply) auto
  moreover have "df \<noteq> []"
    using df(2) "5.prems"(2) diff_replays_one_sided(1) by simp
  ultimately show ?case
    using df(1) by (auto simp: deref_dict_def other_kind_def split: option.splits dict_value.splits)
next
  case (6 s)
  then have "diff_set [] s \<noteq> ([], [])" by (auto simp: diff_set_empty_iff)
  moreover have "\<exists>l. bt_set_diff (diff_set [] s) = BtList l" by (simp add: bt_set_diff_def)
  ultimately show ?case
    using apply_set_diff_bt [of "[]" s] 6
    by (auto simp: deref_set_def other_kind_def split: option.splits dict_value.splits)
next
  case (7 x)
  then show ?case by simp
next
  case (8 d)
  then obtain df where df: "diff_impl d [] = Inr df" "diff_replays d [] df"
    by (auto simp: pruned_def)
  have "df \<noteq> []"
    using df(2) "8.prems"(2) diff_replays_one_sided(2) by simp
  with df(1) show ?case by (simp add: deref_dict_def)
next
  case (9 s)
  then have "diff_set s [] \<noteq> ([], [])" by (auto simp: diff_set_empty_iff)
  then show ?case by (simp add: deref_set_def)
next
  case (10 x)
  then show ?case by simp
next
  case (11 x y)
  then show ?case by (simp add: entry_replays_def)
next
  case (12 x y)
  then obtain df where df: "diff_impl x y = Inr df" "diff_replays x y df"
    by (auto simp: pruned_def)
  then have "apply_diff x df y = Inr y"
    using 12 by (intro diff_replays_apply) auto
  then show ?case using df(1) by (auto simp: entry_replays_def)
next
  case (13 x y)
  have "\<exists>l. bt_set_diff (diff_set x y) = BtList l" by (simp add: bt_set_diff_def)
  then show ?case
    using 13 apply_set_diff_bt [of x y] by (auto simp: entry_replays_def diff_set_empty_iff Let_def)
qed (fastforce simp: entry_replays_def other_kind_def)+

end
