(* ===== verification/Config_Wire.thy ===== *)
theory Config_Wire
  imports Config_Diff
begin

text \<open>
  The wire form of a config message: validating and loading diffs (\<open>check_scalar_order\<close>,
  \<open>load_diff\<close>), writing and reading the data dict (\<open>serialize_data\<close>, \<open>parse_data\<close>), reading the
  lagged diffs (\<open>parse_lagged_diffs\<close>) of \<open>src/src/config.cpp\<close>, and the handling of unknown
  top-level keys (\<open>append_unknown\<close>, \<open>load_unknowns\<close>) of \<open>src/src/config/internal.cpp\<close>.

  A \<open>bt_dict_consumer\<close> is the list of pairs it has not consumed yet. The loops that fill a
  \<open>std::map\<close> through \<open>emplace_hint(end(), ...)\<close> carry the map built so far and test its last key,
  as the source does.
\<close>

section \<open>Definitions\<close>

definition check_scalar_order :: "bt_value \<Rightarrow> bt_value \<Rightarrow> unit res" where
  "check_scalar_order a b =
     res_bind (get_bt_int a) (\<lambda>a_int.
     res_bind (get_bt_int b) (\<lambda>b_int.
       let a_str = get_bt_str a; b_str = get_bt_str b in
       if (a_int = None \<and> a_str = None) \<or> (b_int = None \<and> b_str = None)
       then Inl Config_parse_error
       else case (a_int, b_int, a_str, b_str) of
           (Some i, None, _, _) \<Rightarrow> Inr ()
         | (None, Some j, _, _) \<Rightarrow> Inl Config_parse_error
         | (Some i, Some j, _, _) \<Rightarrow> guard (i < j) Config_parse_error
         | (None, None, Some s, Some t) \<Rightarrow> guard (s < t) Config_parse_error
         | _ \<Rightarrow> Inr ()))"

text \<open>The loop over adjacent elements of an \<open>[added]\<close> or \<open>[removed]\<close> sublist.\<close>

fun check_elems :: "bt_list \<Rightarrow> unit res" where
  "check_elems (i # j # elems) = res_bind (check_scalar_order i j) (\<lambda>_. check_elems (j # elems))"
| "check_elems _ = Inr ()"

definition check_sublist :: "bt_value \<Rightarrow> unit res" where
  "check_sublist sublist =
     (case sublist of BtList elems \<Rightarrow> check_elems elems | _ \<Rightarrow> Inl Config_parse_error)"

definition after_last :: "(string \<times> 'v) list \<Rightarrow> string \<Rightarrow> bool" where
  "after_last acc k \<longleftrightarrow> acc = [] \<or> fst (last acc) < k"

text \<open>
  \<open>load_diff\<close>. \<open>load_diff_val\<close> is the chain of type tests on the value at the cursor; it has no
  branch for an integer, which is then not consumed, so the loop meets the same pair again and
  again: \<open>None\<close> there, and \<open>Nontermination\<close> for the loop. \<open>load_diff_iter\<close> below is one iteration.
\<close>

fun load_diff_loop :: "bt_dict \<Rightarrow> bt_dict \<Rightarrow> bt_dict res"
  and load_diff_val :: "bt_value \<Rightarrow> bt_value option res" where
  "load_diff_loop [] result = Inr result"
| "load_diff_loop ((key, v) # dict) result =
     res_bind (guard (after_last result key) Bt_deserialize_invalid) (\<lambda>_.
     res_bind (load_diff_val v) (\<lambda>e.
       case e of
         None \<Rightarrow> Inl Nontermination
       | Some e \<Rightarrow> load_diff_loop dict (result @ [(key, e)])))"
| "load_diff_val (BtStr mode) =
     (if mode = '''' \<or> mode = ''-'' then Inr (Some (BtStr mode)) else Inl Config_parse_error)"
| "load_diff_val (BtList changed) =
     res_bind (guard (length changed = 2) Config_parse_error) (\<lambda>_.
     res_bind (res_map check_sublist changed) (\<lambda>_. Inr (Some (BtList changed))))"
| "load_diff_val (BtDict d) = res_bind (load_diff_loop d []) (\<lambda>d. Inr (Some (BtDict d)))"
| "load_diff_val (BtInt i) = Inr None"

definition load_diff :: "bt_dict \<Rightarrow> bt_dict res" where
  "load_diff d = load_diff_loop d []"

definition load_diff_iter :: "bt_dict \<times> bt_dict \<Rightarrow> (bt_dict \<times> bt_dict) res" where
  "load_diff_iter st =
     (case st of
        ([], result) \<Rightarrow> Inr ([], result)
      | ((key, v) # dict, result) \<Rightarrow>
          res_bind (guard (after_last result key) Bt_deserialize_invalid) (\<lambda>_.
          res_bind (load_diff_val v) (\<lambda>e.
            case e of
              None \<Rightarrow> Inr ((key, v) # dict, result)
            | Some e \<Rightarrow> Inr (dict, result @ [(key, e)]))))"

text \<open>\<open>serialize_data\<close>: the data dict as the pairs appended to the producer.\<close>

fun serialize_value :: "dict_value \<Rightarrow> bt_value"
  and serialize_data :: "dict \<Rightarrow> bt_dict" where
  "serialize_value (VDict d) = BtDict (serialize_data d)"
| "serialize_value (VSet s) = BtList (map bt_scalar s)"
| "serialize_value (VScalar x) = bt_scalar x"
| "serialize_data [] = []"
| "serialize_data ((k, v) # d) = (k, serialize_value v) # serialize_data d"

text \<open>\<open>parse_data\<close>. \<open>consume_integer<int64_t>\<close> throws \<open>bt_deserialize_invalid\<close> when the integer does
  not fit.\<close>

definition consume_integer :: "bt_value \<Rightarrow> int res" where
  "consume_integer v =
     (case v of BtInt i \<Rightarrow> (if in_i64 i then Inr i else Inl Bt_deserialize_invalid)
      | _ \<Rightarrow> Inl Bt_deserialize_invalid)"

definition parse_scalar :: "bt_value \<Rightarrow> scalar res" where
  "parse_scalar v =
     (case v of
        BtInt i \<Rightarrow> res_bind (consume_integer v) (\<lambda>i. Inr (SInt i))
      | BtStr t \<Rightarrow> Inr (SStr t)
      | _ \<Rightarrow> Inl Config_parse_error)"

fun parse_set_loop :: "bt_list \<Rightarrow> scalar list \<Rightarrow> scalar list res" where
  "parse_set_loop [] s = Inr s"
| "parse_set_loop (v # vs) s =
     res_bind (parse_scalar v) (\<lambda>val.
          if s \<noteq> [] \<and> val = last s then Inl Config_parse_error
          else if s \<noteq> [] \<and> val < last s then Inl Config_parse_error
          else parse_set_loop vs (s @ [val]))"

definition parse_set :: "bt_list \<Rightarrow> scalar list res" where
  "parse_set l = (if l = [] then Inl Bt_deserialize_invalid else parse_set_loop l [])"

fun parse_data_loop :: "bt_dict \<Rightarrow> dict \<Rightarrow> dict res"
  and parse_value :: "bt_value \<Rightarrow> dict_value res" where
  "parse_data_loop [] d = Inr d"
| "parse_data_loop ((key, v) # rest) d =
     res_bind (guard (after_last d key) Bt_deserialize_invalid) (\<lambda>_.
     res_bind (parse_value v) (\<lambda>x. parse_data_loop rest (d @ [(key, x)])))"
| "parse_value (BtStr s) = Inr (VScalar (SStr s))"
| "parse_value (BtInt i) = res_bind (consume_integer (BtInt i)) (\<lambda>i. Inr (VScalar (SInt i)))"
| "parse_value (BtDict d) =
     (if d = [] then Inl Bt_deserialize_invalid
      else res_bind (parse_data_loop d []) (\<lambda>d. Inr (VDict d)))"
| "parse_value (BtList l) = res_bind (parse_set l) (\<lambda>s. Inr (VSet s))"

definition parse_data :: "bt_dict \<Rightarrow> bool \<Rightarrow> dict res" where
  "parse_data d top_level =
     (if \<not> top_level \<and> d = [] then Inl Bt_deserialize_invalid else parse_data_loop d [])"

type_synonym seqno_hash = "int \<times> bytes"
type_synonym lagged_diffs = "(seqno_hash \<times> bt_dict) list"

text \<open>A row \<open>[seqno, hash, diff]\<close>; \<open>parse_lagged_tail\<close> is what follows the tests on the seqno.\<close>

definition parse_lagged_tail :: "int \<Rightarrow> bt_list \<Rightarrow> lagged_diffs \<Rightarrow> lagged_diffs res" where
  "parse_lagged_tail seqno sublist acc =
     (case sublist of
        BtStr hash # rest \<Rightarrow>
          if length hash \<noteq> 32 then Inl Config_parse_error
          else if acc \<noteq> [] \<and> (seqno, hash) \<le> fst (last acc) then Inl Config_parse_error
          else (case rest of
              BtDict d # rest' \<Rightarrow>
                res_bind (load_diff d) (\<lambda>diff.
                  if rest' \<noteq> [] then Inl Config_parse_error
                  else Inr (acc @ [((seqno, hash), diff)]))
            | _ \<Rightarrow> Inl Bt_deserialize_invalid)
      | _ \<Rightarrow> Inl Bt_deserialize_invalid)"

definition parse_lagged_row ::
  "int \<Rightarrow> int \<Rightarrow> bt_value \<Rightarrow> lagged_diffs \<Rightarrow> lagged_diffs res" where
  "parse_lagged_row curr_seqno lag row acc =
     (case row of
        BtList (v # sublist) \<Rightarrow>
          res_bind (consume_integer v) (\<lambda>seqno.
            if curr_seqno \<le> seqno then Inl Config_parse_error
            else res_bind (i64_arith (curr_seqno - lag)) (\<lambda>oldest.
              if seqno \<le> oldest then Inr acc
              else parse_lagged_tail seqno sublist acc))
      | _ \<Rightarrow> Inl Bt_deserialize_invalid)"

definition parse_lagged_diffs :: "bt_list \<Rightarrow> int \<Rightarrow> int \<Rightarrow> lagged_diffs res" where
  "parse_lagged_diffs l curr_seqno lag = res_fold (parse_lagged_row curr_seqno lag) l []"

text \<open>\<open>append_unknown\<close> returns what it wrote and the rest; its assertion rules out the key \<open>until\<close>.\<close>

fun append_unknown :: "bt_dict \<Rightarrow> string \<Rightarrow> (bt_dict \<times> bt_dict) res" where
  "append_unknown [] until = Inr ([], [])"
| "append_unknown ((k, v) # it) until =
     (if k < until then res_bind (append_unknown it until) (\<lambda>(out, rest). Inr ((k, v) # out, rest))
      else if k = until then Inl Assertion_failed
      else Inr ([], (k, v) # it))"

fun load_unknowns :: "bt_dict \<Rightarrow> bt_dict \<Rightarrow> string \<Rightarrow> string \<Rightarrow> (bt_dict \<times> bt_dict) res" where
  "load_unknowns unknown [] previous until = Inr (unknown, [])"
| "load_unknowns unknown ((key, v) # rest) previous until =
     (if key < until then
        if key \<le> previous \<or> (unknown \<noteq> [] \<and> key \<le> fst (last unknown))
        then Inl Bt_deserialize_invalid
        else load_unknowns (unknown @ [(key, v)]) rest previous until
      else Inr (unknown, (key, v) # rest))"

section \<open>Reading back what was written\<close>

lemma consume_integer_simps [simp]: "in_i64 i \<Longrightarrow> consume_integer (BtInt i) = Inr i"
  by (simp add: consume_integer_def)

lemma parse_set_loop_serialized:
  "ssorted (acc @ s) \<Longrightarrow> list_all wf_scalar s \<Longrightarrow>
   parse_set_loop (map bt_scalar s) acc = Inr (acc @ s)"
proof (induction s arbitrary: acc)
  case (Cons x s)
  have "acc \<noteq> [] \<Longrightarrow> last acc < x"
    using Cons.prems(1) last_in_set by (auto simp: sorted_wrt_append)
  moreover have "parse_scalar (bt_scalar x) = Inr x"
    using Cons.prems(2) by (cases x) (auto simp: parse_scalar_def)
  ultimately show ?case
    using Cons.IH [of "acc @ [x]"] Cons.prems by auto
qed simp

lemma after_last_sorted: "smap_ok (acc @ (k, v) # d) \<Longrightarrow> after_last acc k"
  by (cases acc rule: rev_cases) (auto simp: after_last_def sorted_wrt_append)

lemma smap_ok_snoc: "smap_ok acc \<Longrightarrow> after_last acc k \<Longrightarrow> smap_ok (acc @ [(k, v)])"
  by (rule smap_ok_above) (auto simp: after_last_def)

lemma parse_serialized:
  "wf_val v \<Longrightarrow> pruned_val v \<Longrightarrow> parse_value (serialize_value v) = Inr v"
  "(\<forall>(k, v) \<in> set m. wf_val v \<and> pruned_val v) \<Longrightarrow> smap_ok (acc @ m) \<Longrightarrow>
     parse_data_loop (serialize_data m) acc = Inr (acc @ m)"
proof (induction v and m arbitrary: and acc rule: dict_tree_induct)
  case (VDict d)
  then have "serialize_data d \<noteq> []" by (cases d) auto
  then show ?case using VDict.IH [of "[]"] VDict.prems by (auto split: prod.splits)
next
  case (VSet s)
  then show ?case using parse_set_loop_serialized [of "[]" s] by (simp add: parse_set_def)
next
  case (VScalar x)
  then show ?case by (cases x) auto
next
  case (Cons k v m)
  then show ?case
    using Cons.IH(2) [of "acc @ [(k, v)]"] after_last_sorted [of acc k v m] by auto
qed simp

lemma parse_data_serialize:
  assumes "wf_dict d" and "pruned d"
  shows "parse_data (serialize_data d) True = Inr d"
  using parse_serialized(2) [of d "[]"] assms
  by (auto simp: parse_data_def pruned_def split: prod.splits)

section \<open>What the parser accepts\<close>

lemma parse_set_loop_sound:
  "parse_set_loop l acc = Inr s \<Longrightarrow> ssorted acc \<Longrightarrow> list_all wf_scalar acc \<Longrightarrow>
   ssorted s \<and> list_all wf_scalar s \<and> (l \<noteq> [] \<longrightarrow> s \<noteq> []) \<and> (acc \<noteq> [] \<longrightarrow> s \<noteq> [])"
proof (induction l arbitrary: acc)
  case (Cons v vs)
  then obtain x where ps: "parse_scalar v = Inr x" and x2: "\<not> (acc \<noteq> [] \<and> x \<le> last acc)"
    and rest: "parse_set_loop vs (acc @ [x]) = Inr s"
    by (auto simp: res_bind_eq_Inr order.order_iff_strict split: if_splits)
  have x1: "wf_scalar x"
    using ps by (auto simp: parse_scalar_def consume_integer_def split: bt_value.splits if_splits)
  have "ssorted (acc @ [x])"
    using Cons.prems(2) x2 by (cases acc rule: rev_cases) (fastforce simp: sorted_wrt_append)+
  then show ?case using Cons.IH [OF rest] Cons.prems(3) x1 by auto
qed simp

lemma parse_sound:
  "parse_value b = Inr v \<Longrightarrow> wf_val v \<and> pruned_val v"
  "parse_data_loop m acc = Inr r \<Longrightarrow> wf_dict acc \<Longrightarrow> pruned acc \<Longrightarrow>
     wf_dict r \<and> pruned r \<and> (acc \<noteq> [] \<or> m \<noteq> [] \<longrightarrow> r \<noteq> [])"
proof (induction b and m arbitrary: v and acc r rule: bt_tree_induct)
  case (BtInt i)
  then show ?case by (auto simp: res_bind_eq_Inr consume_integer_def split: if_splits)
next
  case (BtList l)
  then show ?case
    using parse_set_loop_sound [of l "[]"]
    by (auto simp: res_bind_eq_Inr parse_set_def split: if_splits)
next
  case (BtDict d)
  then obtain x where "d \<noteq> []" "parse_data_loop d [] = Inr x" "v = VDict x"
    by (auto simp: res_bind_eq_Inr split: if_splits)
  then show ?case using BtDict.IH [of "[]" x] by (auto simp: pruned_def)
next
  case (Cons k v m)
  then obtain x where x: "after_last acc k" "parse_value v = Inr x"
    and rest: "parse_data_loop m (acc @ [(k, x)]) = Inr r"
    by (auto simp: res_bind_eq_Inr)
  have "wf_dict (acc @ [(k, x)])" "pruned (acc @ [(k, x)])"
    using Cons.IH(1) [OF x(2)] Cons.prems smap_ok_snoc [OF _ x(1)] by (auto simp: pruned_def)
  then show ?case using Cons.IH(2) [OF rest] by auto
qed auto

text \<open>Diffs that \<open>load_diff\<close> accepts, and that \<open>diff_impl\<close> produces.\<close>

fun valid_diff_val :: "bt_value \<Rightarrow> bool" where
  "valid_diff_val (BtStr m) = (m = '''' \<or> m = ''-'')"
| "valid_diff_val (BtList l) = (length l = 2 \<and> (\<forall>x \<in> set l. check_sublist x = Inr ()))"
| "valid_diff_val (BtDict d) = (smap_ok d \<and> (\<forall>(k, v) \<in> set d. valid_diff_val v))"
| "valid_diff_val (BtInt i) = False"

abbreviation valid_diff :: "bt_dict \<Rightarrow> bool" where
  "valid_diff d \<equiv> valid_diff_val (BtDict d)"

lemma res_map_check: "(\<exists>us. res_map check_sublist l = Inr us) \<longleftrightarrow> (\<forall>x \<in> set l. check_sublist x = Inr ())"
  by (induction l) (auto simp: res_bind_eq_Inr)

lemma load_diff_accepts:
  "load_diff_val v = Inr (Some e) \<longleftrightarrow> valid_diff_val v \<and> e = v"
  "smap_ok acc \<Longrightarrow> load_diff_loop m acc = Inr r \<longleftrightarrow>
     smap_ok (acc @ m) \<and> (\<forall>(k, v) \<in> set m. valid_diff_val v) \<and> r = acc @ m"
proof (induction v and m arbitrary: e and acc r rule: bt_tree_induct)
  case (BtList l)
  then show ?case using res_map_check [of l] by (auto simp: res_bind_eq_Inr)
next
  case (BtDict d)
  then show ?case using BtDict.IH [of "[]"] by (auto simp: res_bind_eq_Inr)
next
  case (Cons k v m)
  have "load_diff_loop ((k, v) # m) acc = Inr r \<longleftrightarrow>
     after_last acc k \<and> valid_diff_val v \<and> load_diff_loop m (acc @ [(k, v)]) = Inr r"
    using Cons.IH(1) by (auto simp: res_bind_eq_Inr split: option.splits)
  also have "\<dots> \<longleftrightarrow> after_last acc k \<and> valid_diff_val v \<and> smap_ok (acc @ (k, v) # m) \<and>
      (\<forall>(k, v) \<in> set m. valid_diff_val v) \<and> r = acc @ (k, v) # m"
    using Cons.IH(2) [of "acc @ [(k, v)]"] smap_ok_snoc [OF Cons.prems] by auto
  finally show ?case using after_last_sorted by auto
qed auto

lemma load_diff_iff: "load_diff d = Inr r \<longleftrightarrow> valid_diff d \<and> r = d"
  using load_diff_accepts(2) [of "[]" d r] by (auto simp: load_diff_def)

lemma check_scalar_order_bt:
  "wf_scalar x \<Longrightarrow> wf_scalar y \<Longrightarrow> x < y \<Longrightarrow> check_scalar_order (bt_scalar x) (bt_scalar y) = Inr ()"
  by (cases x; cases y) (auto simp: check_scalar_order_def get_bt_int_def get_bt_str_def)

lemma check_elems_bt: "ssorted s \<Longrightarrow> list_all wf_scalar s \<Longrightarrow> check_elems (map bt_scalar s) = Inr ()"
proof (induction s)
  case (Cons x s)
  then show ?case by (cases s) (auto simp: check_scalar_order_bt)
qed simp

lemma valid_bt_set_diff:
  "ssorted old \<Longrightarrow> ssorted new \<Longrightarrow> list_all wf_scalar old \<Longrightarrow> list_all wf_scalar new \<Longrightarrow>
   valid_diff_val (bt_set_diff (diff_set old new))"
  using diff_set_sorted [of old new] list_all_diff_set [of old new wf_scalar]
  by (auto simp: bt_set_diff_def check_sublist_def check_elems_bt)

lemma valid_diff_Cons:
  "valid_diff_val e \<Longrightarrow> valid_diff d \<Longrightarrow> fst ` set d \<subseteq> K \<Longrightarrow> \<forall>x \<in> K. k < x \<Longrightarrow> valid_diff ((k, e) # d)"
  by auto

lemma diff_impl_valid:
  "wf_dict old \<Longrightarrow> wf_dict new \<Longrightarrow> diff_impl old new = Inr df \<Longrightarrow> valid_diff df \<and>
     fst ` set df \<subseteq> fst ` set old \<union> fst ` set new"
  "wf_val n \<Longrightarrow> diff_new n = Inr e \<Longrightarrow> valid_diff_val e"
  "wf_val x \<Longrightarrow> diff_removed x = Inr e' \<Longrightarrow> valid_diff_val e'"
  "wf_val xv \<Longrightarrow> wf_val nv \<Longrightarrow> diff_same xv nv = Inr (Some e'') \<Longrightarrow> valid_diff_val e''"
proof (induction old new and n and x and xv nv arbitrary: df and e and e' and e''
    rule: diff_impl_diff_new_diff_removed_diff_same.induct)
  case (2 nk nv new)
  then obtain e d where "diff_new nv = Inr e" and d: "diff_impl [] new = Inr d" and df: "df = (nk, e) # d"
    by (auto simp: res_bind_eq_Inr)
  then have "valid_diff_val e" "valid_diff d" "fst ` set d \<subseteq> fst ` set new"
    using "2.IH" "2.prems" by auto
  moreover have "\<forall>x \<in> fst ` set new. nk < x" using "2.prems" by auto
  ultimately show ?case using df valid_diff_Cons by auto
next
  case (3 xk xv old)
  then obtain e d where "diff_removed xv = Inr e" and d: "diff_impl old [] = Inr d" and df: "df = (xk, e) # d"
    by (auto simp: res_bind_eq_Inr)
  then have "valid_diff_val e" "valid_diff d" "fst ` set d \<subseteq> fst ` set old"
    using "3.IH" "3.prems" by auto
  moreover have "\<forall>x \<in> fst ` set old. xk < x" using "3.prems" by auto
  ultimately show ?case using df valid_diff_Cons by auto
next
  case (4 xk xv old nk nv new)
  have less: "\<forall>p \<in> set old. xk < fst p" "\<forall>p \<in> set new. nk < fst p"
    using "4.prems" by auto
  consider "nk < xk" | "\<not> nk < xk" "xk < nk" | "xk = nk" by fastforce
  then show ?case
  proof cases
    case 1
    with "4.prems" obtain e d where "diff_new nv = Inr e"
      "diff_impl ((xk, xv) # old) new = Inr d" and df: "df = (nk, e) # d"
      by (auto simp: res_bind_eq_Inr)
    then have "valid_diff_val e" "valid_diff d"
      "fst ` set d \<subseteq> fst ` set ((xk, xv) # old) \<union> fst ` set new"
      using "4.IH"(1,2) "4.prems" 1 by auto
    moreover from this(3) have "\<forall>p \<in> set d. nk < fst p"
      using less 1 order.strict_trans [OF 1] by fastforce
    ultimately show ?thesis using df by auto
  next
    case 2
    with "4.prems" obtain e d where "diff_removed xv = Inr e"
      "diff_impl old ((nk, nv) # new) = Inr d" and df: "df = (xk, e) # d"
      by (auto simp: res_bind_eq_Inr)
    then have "valid_diff_val e" "valid_diff d"
      "fst ` set d \<subseteq> fst ` set old \<union> fst ` set ((nk, nv) # new)"
      using "4.IH"(3,4) "4.prems" 2 by auto
    moreover from this(3) have "\<forall>p \<in> set d. xk < fst p"
      using less 2 order.strict_trans [OF 2(2)] by fastforce
    ultimately show ?thesis using df by auto
  next
    case 3
    with "4.prems" obtain eo d where eo: "diff_same xv nv = Inr eo" and "diff_impl old new = Inr d"
      and df: "df = (case eo of None \<Rightarrow> d | Some e \<Rightarrow> (nk, e) # d)"
      by (auto simp: res_bind_eq_Inr)
    then have "valid_diff d" "fst ` set d \<subseteq> fst ` set old \<union> fst ` set new"
      using "4.IH"(6) "4.prems" 3 by auto
    moreover from this(2) have "\<forall>p \<in> set d. nk < fst p"
      using less 3 by fastforce
    moreover have "eo = Some e \<Longrightarrow> valid_diff_val e" for e
      using "4.IH"(5) "4.prems" 3 eo by auto
    ultimately show ?thesis using df 3 by (cases eo) auto
  qed
next
  case (6 s)
  then show ?case using valid_bt_set_diff [of "[]" s] by (auto simp: deref_set_def split: if_splits)
next
  case (9 s)
  then show ?case using valid_bt_set_diff [of s "[]"] by (auto simp: deref_set_def split: if_splits)
next
  case (13 x y)
  then show ?case using valid_bt_set_diff [of x y] by (auto simp: Let_def split: if_splits)
qed (auto simp: res_bind_eq_Inr deref_dict_def split: if_splits)

end
