(* ===== verification/Config_Message.thy ===== *)
theory Config_Message
  imports Config_Wire
begin

text \<open>
  \<open>ConfigMessage\<close> and \<open>MutableConfigMessage\<close> (\<open>src/include/session/config.hpp\<close>, \<open>src/src/config.cpp\<close>):
  loading one message, serializing one, incrementing, and the constructor that loads several
  messages and merges them.

  The libraries the code calls are the fields of \<open>libs\<close>: the \<open>oxenc\<close> bencode producer and consumer
  and libsodium's hash. A message is one record for both classes: \<open>cm_orig_data\<close> is the
  \<open>orig_data_\<close> member of a \<open>MutableConfigMessage\<close> and \<open>None\<close> for a plain \<open>ConfigMessage\<close>, so it plays
  the role of the dynamic type that the code's \<open>dynamic_cast\<close> asks for. Verifier and signer are
  \<open>std::function\<close>s that may be empty.
\<close>

section \<open>Definitions\<close>

text \<open>
  \<open>bt_to_verify raw\<close>: the bytes of \<open>raw\<close> before its \<open>"~"\<close> key, which \<open>consume_signature\<close> passes to
  its callback. \<open>bt_to_sign pairs\<close>: the open dict written so far, which \<open>append_signature\<close> passes to
  its callback.
\<close>

record libs =
  bt_encode :: "bt_value \<Rightarrow> bytes"
  bt_decode :: "bytes \<Rightarrow> bt_value option"
  bt_to_verify :: "bytes \<Rightarrow> bytes"
  bt_to_sign :: "bt_dict \<Rightarrow> bytes"
  blake2b :: "bytes \<Rightarrow> bytes"

type_synonym verify_callable = "(bytes \<Rightarrow> bytes \<Rightarrow> bool) option"
type_synonym sign_callable = "(bytes \<Rightarrow> bytes) option"

record config_message =
  cm_data :: dict
  cm_diff :: bt_dict
  cm_lagged_diffs :: lagged_diffs
  cm_unknown :: bt_dict
  cm_seqno_hash :: seqno_hash
  cm_verified_signature :: "bytes option"
  cm_unmerged :: "nat option"
  cm_verifier :: verify_callable
  cm_signer :: sign_callable
  cm_lag :: int
  cm_orig_data :: "dict option"

abbreviation cm_seqno :: "config_message \<Rightarrow> int" where
  "cm_seqno m \<equiv> fst (cm_seqno_hash m)"

definition merged :: "config_message \<Rightarrow> bool" where
  "merged m \<longleftrightarrow> cm_unmerged m = None"

definition default_diff_lags :: int where
  "default_diff_lags = 5"

definition zero_hash :: bytes where
  "zero_hash = replicate 32 (CHR 0x00)"

definition empty_message :: config_message where
  "empty_message =
     \<lparr> cm_data = [], cm_diff = [], cm_lagged_diffs = [], cm_unknown = [],
       cm_seqno_hash = (0, zero_hash), cm_verified_signature = None, cm_unmerged = None,
       cm_verifier = None, cm_signer = None, cm_lag = default_diff_lags, cm_orig_data = None \<rparr>"

subsection \<open>Serializing\<close>

definition lag_row :: "seqno_hash \<times> bt_dict \<Rightarrow> bt_value" where
  "lag_row r = BtList [BtInt (fst (fst r)), BtStr (snd (fst r)), BtDict (snd r)]"

definition sign_pairs ::
  "libs \<Rightarrow> config_message \<Rightarrow> bool \<Rightarrow> bt_dict \<Rightarrow> bt_dict res" where
  "sign_pairs x m enable_signing outer =
     (case cm_verified_signature m of
        Some sig \<Rightarrow> Inr (outer @ [(''~'', BtStr sig)])
      | None \<Rightarrow>
          (case cm_signer m of
             Some signer \<Rightarrow>
               if enable_signing then
                 let sig = signer (bt_to_sign x outer) in
                 if length sig \<noteq> 64 then Inl Logic_error else Inr (outer @ [(''~'', BtStr sig)])
               else Inr outer
           | None \<Rightarrow> Inr outer))"

definition serialize_pairs :: "config_message \<Rightarrow> bt_dict \<Rightarrow> bt_dict res" where
  "serialize_pairs m curr_diff =
     res_bind (i64_arith (cm_seqno m - cm_lag m)) (\<lambda>oldest.
     res_bind (append_unknown (cm_unknown m) ''&'') (\<lambda>(unk1, it1).
     res_bind (append_unknown it1 ''<'') (\<lambda>(unk2, it2).
     res_bind (append_unknown it2 ''='') (\<lambda>(unk3, it3).
     res_bind (append_unknown it3 ''~'') (\<lambda>(unk4, it4).
     res_bind (guard (it4 = []) Assertion_failed) (\<lambda>_.
       Inr ((''#'', BtInt (cm_seqno m)) # unk1
            @ (''&'', BtDict (serialize_data (cm_data m))) # unk2
            @ (''<'', BtList (map lag_row (filter
                  (\<lambda>r. \<not> (fst (fst r) \<le> oldest \<or> cm_seqno m \<le> fst (fst r))) (cm_lagged_diffs m)))) # unk3
            @ (''='', BtDict curr_diff) # unk4)))))))"

definition serialize_impl :: "libs \<Rightarrow> config_message \<Rightarrow> bt_dict \<Rightarrow> bool \<Rightarrow> bytes res" where
  "serialize_impl x m curr_diff enable_signing =
     res_bind (serialize_pairs m curr_diff) (\<lambda>outer.
     res_bind (sign_pairs x m enable_signing outer) (\<lambda>outer.
       Inr (bt_encode x (BtDict outer))))"

text \<open>
  \<open>diff()\<close>: the base class returns the stored diff; a mutable message drops its verified signature,
  prunes its data and computes the diff against the original data.
\<close>

definition msg_diff :: "config_message \<Rightarrow> config_message res" where
  "msg_diff m =
     (case cm_orig_data m of
        None \<Rightarrow> Inr m
      | Some orig \<Rightarrow>
          let d = fst (prune_dict (cm_data m)) in
          res_bind (diff_impl orig d) (\<lambda>df.
            Inr (m\<lparr> cm_verified_signature := None, cm_data := d, cm_diff := df \<rparr>)))"

definition serialize :: "libs \<Rightarrow> config_message \<Rightarrow> bool \<Rightarrow> (bytes \<times> config_message) res" where
  "serialize x m enable_signing =
     res_bind (msg_diff m) (\<lambda>m.
     res_bind (serialize_impl x m (cm_diff m) enable_signing) (\<lambda>b. Inr (b, m)))"

definition set_hash :: "libs \<Rightarrow> bytes \<Rightarrow> config_message \<Rightarrow> config_message" where
  "set_hash x serialized m = m\<lparr> cm_seqno_hash := (cm_seqno m, blake2b x serialized) \<rparr>"

text \<open>\<open>hash()\<close>: stored for a plain message, recomputed from the serialization for a mutable one.\<close>

definition msg_hash :: "libs \<Rightarrow> config_message \<Rightarrow> config_message res" where
  "msg_hash x m =
     (case cm_orig_data m of
        None \<Rightarrow> Inr m
      | Some _ \<Rightarrow> res_bind (serialize x m True) (\<lambda>(b, m). Inr (set_hash x b m)))"

text \<open>\<open>ConfigMessage::ConfigMessage()\<close>\<close>

definition default_message :: "libs \<Rightarrow> config_message res" where
  "default_message x =
     res_bind (serialize x empty_message True) (\<lambda>(b, m). Inr (set_hash x b m))"

subsection \<open>Loading one message\<close>

definition skip_until :: "string \<Rightarrow> bt_dict \<Rightarrow> bt_dict" where
  "skip_until k d = dropWhile (\<lambda>p. fst p < k) d"

definition verify_config_sig ::
  "libs \<Rightarrow> bytes \<Rightarrow> bt_dict \<Rightarrow> verify_callable \<Rightarrow> bytes option \<Rightarrow> bool \<Rightarrow> bytes option res" where
  "verify_config_sig x raw dict verifier verified_signature trust_signature =
     (let rem = skip_until ''~'' dict in
      if rem \<noteq> [] \<and> fst (hd rem) = ''~'' then
        (case snd (hd rem) of
           BtStr sig \<Rightarrow>
             if length sig \<noteq> 64 then Inl Signature_error
             else if (case verifier of Some f \<Rightarrow> \<not> f (bt_to_verify x raw) sig | None \<Rightarrow> False)
               then Inl Signature_error
             else if tl rem \<noteq> [] then Inl Config_parse_error
             else Inr (if verifier \<noteq> None \<or> trust_signature then Some sig else verified_signature)
         | _ \<Rightarrow> Inl Bt_deserialize_invalid)
      else if verifier \<noteq> None then Inl Missing_signature
      else if rem \<noteq> [] then Inl Config_parse_error
      else Inr verified_signature)"

definition next_integer :: "bt_dict \<Rightarrow> ((string \<times> int) \<times> bt_dict) res" where
  "next_integer d =
     (case d of [] \<Rightarrow> Inl Bt_deserialize_invalid
      | (k, v) # rest \<Rightarrow> res_bind (consume_integer v) (\<lambda>i. Inr ((k, i), rest)))"

definition next_dict :: "bt_dict \<Rightarrow> ((string \<times> bt_dict) \<times> bt_dict) res" where
  "next_dict d = (case d of (k, BtDict v) # rest \<Rightarrow> Inr ((k, v), rest) | _ \<Rightarrow> Inl Bt_deserialize_invalid)"

text \<open>\<open>if (dict.key() == "<") ... dict.consume_list_consumer()\<close> and its counterpart for \<open>"="\<close>;
  \<open>key()\<close> throws at the end of the dict.\<close>

definition load_lags :: "bt_dict \<Rightarrow> int \<Rightarrow> int \<Rightarrow> (lagged_diffs \<times> bt_dict) res" where
  "load_lags d seqno lag =
     (case d of
        [] \<Rightarrow> Inl Bt_deserialize_invalid
      | (k, v) # rest \<Rightarrow>
          if k = ''<'' then
            (case v of
               BtList l \<Rightarrow> res_bind (parse_lagged_diffs l seqno lag) (\<lambda>lags. Inr (lags, rest))
             | _ \<Rightarrow> Inl Bt_deserialize_invalid)
          else Inr ([], d))"

definition load_curr_diff :: "bt_dict \<Rightarrow> (bt_dict \<times> bt_dict) res" where
  "load_curr_diff d =
     (case d of
        [] \<Rightarrow> Inl Bt_deserialize_invalid
      | (k, v) # rest \<Rightarrow>
          if k = ''='' then
            (case v of
               BtDict df \<Rightarrow> res_bind (load_diff df) (\<lambda>df. Inr (df, rest))
             | _ \<Rightarrow> Inl Bt_deserialize_invalid)
          else Inr ([], d))"

definition load_pairs ::
  "libs \<Rightarrow> bytes \<Rightarrow> bt_dict \<Rightarrow> verify_callable \<Rightarrow> sign_callable \<Rightarrow> int \<Rightarrow> bool \<Rightarrow> config_message res" where
  "load_pairs x raw dict verifier signer lag trust_signature =
     res_bind (next_integer dict) (\<lambda>((k1, seqno), d1).
     res_bind (guard (k1 = ''#'') Config_parse_error) (\<lambda>_.
     res_bind (load_unknowns [] d1 ''#'' ''&'') (\<lambda>(u1, d2).
     res_bind (next_dict d2) (\<lambda>((k2, data), d3).
     res_bind (guard (k2 = ''&'') Config_parse_error) (\<lambda>_.
     res_bind (parse_data data True) (\<lambda>data.
     res_bind (load_unknowns u1 d3 ''&'' ''<'') (\<lambda>(u2, d4).
     res_bind (load_lags d4 seqno lag) (\<lambda>(lags, d5).
     res_bind (load_unknowns u2 d5 ''<'' ''='') (\<lambda>(u3, d6).
     res_bind (load_curr_diff d6) (\<lambda>(diff, d7).
     res_bind (load_unknowns u3 d7 ''='' ''~'') (\<lambda>(u4, d8).
     res_bind (verify_config_sig x raw d8 verifier None trust_signature) (\<lambda>sig.
       Inr \<lparr> cm_data = data, cm_diff = diff, cm_lagged_diffs = lags, cm_unknown = u4,
             cm_seqno_hash = (seqno, blake2b x raw), cm_verified_signature = sig, cm_unmerged = None,
             cm_verifier = verifier, cm_signer = signer, cm_lag = lag, cm_orig_data = None \<rparr>))))))))))))"

definition as_parse_error :: "'a res \<Rightarrow> 'a res" where
  "as_parse_error r = (case r of Inl Bt_deserialize_invalid \<Rightarrow> Inl Config_parse_error | _ \<Rightarrow> r)"

text \<open>The consumer's constructor rejects what is not a dict before the \<open>try\<close> block is entered.\<close>

definition load_message ::
  "libs \<Rightarrow> bytes \<Rightarrow> verify_callable \<Rightarrow> sign_callable \<Rightarrow> int \<Rightarrow> bool \<Rightarrow> config_message res" where
  "load_message x raw verifier signer lag trust_signature =
     (if raw = [] \<or> hd raw \<noteq> CHR ''d'' then Inl Bt_deserialize_invalid
      else as_parse_error
        (case bt_decode x raw of
           Some (BtDict dict) \<Rightarrow> load_pairs x raw dict verifier signer lag trust_signature
         | _ \<Rightarrow> Inl Bt_deserialize_invalid))"

subsection \<open>Incrementing\<close>

text \<open>\<open>increment_impl\<close>: the two erase loops over the lagged diffs, from the front and from the back.\<close>

definition increment_impl :: "config_message \<Rightarrow> config_message res" where
  "increment_impl m =
     res_bind (i64_arith (cm_seqno m - cm_lag m)) (\<lambda>oldest.
     res_bind (i64_arith (cm_seqno m + 1)) (\<lambda>next_seqno.
       let lags1 = dropWhile (\<lambda>r. fst (fst r) \<le> oldest) (cm_lagged_diffs m);
           lags2 = rev (dropWhile (\<lambda>r. cm_seqno m \<le> fst (fst r)) (rev lags1))
       in Inr (m\<lparr> cm_orig_data := Some (cm_data m),
                  cm_lagged_diffs := smap_emplace (cm_seqno_hash m) (cm_diff m) lags2,
                  cm_seqno_hash := (next_seqno, zero_hash),
                  cm_diff := [] \<rparr>)))"

text \<open>\<open>MutableConfigMessage(m, increment_seqno)\<close>, which \<open>increment()\<close> calls.\<close>

definition increment :: "libs \<Rightarrow> config_message \<Rightarrow> config_message res" where
  "increment x m = res_bind (msg_hash x m) increment_impl"

text \<open>
  \<open>MutableConfigMessage(std::move(m), retain_seqno)\<close>: for a plain message only the base part is
  assigned; \<open>orig_data_\<close> keeps the value its initializer \<open>orig_data_{data_}\<close> gave it while \<open>data_\<close> was
  still the empty dict of the default-constructed base.
\<close>

definition retain :: "config_message \<Rightarrow> config_message" where
  "retain m = (case cm_orig_data m of Some _ \<Rightarrow> m | None \<Rightarrow> m\<lparr> cm_orig_data := Some [] \<rparr>)"

subsection \<open>Loading and merging several messages\<close>

definition is_config_error :: "exn \<Rightarrow> bool" where
  "is_config_error e = (e \<in> {Config_error, Signature_error, Missing_signature, Config_parse_error})"

text \<open>
  The load loop: the messages that parse, in order, and the indices handed to \<open>error_handler\<close>, which
  either returns (\<open>None\<close>: the message is skipped) or throws.
\<close>

fun load_configs ::
  "libs \<Rightarrow> verify_callable \<Rightarrow> sign_callable \<Rightarrow> int \<Rightarrow> (nat \<Rightarrow> exn \<Rightarrow> exn option) \<Rightarrow>
   nat \<Rightarrow> bytes list \<Rightarrow> (config_message list \<times> nat list) res" where
  "load_configs x verifier signer lag handler i [] = Inr ([], [])"
| "load_configs x verifier signer lag handler i (data # confs) =
     (case load_message x data verifier signer lag False of
        Inr m \<Rightarrow>
          res_bind (load_configs x verifier signer lag handler (Suc i) confs)
            (\<lambda>(ms, bad). Inr (m # ms, bad))
      | Inl e \<Rightarrow>
          if is_config_error e then
            (case handler i e of
               Some e' \<Rightarrow> Inl e'
             | None \<Rightarrow>
                 res_bind (load_configs x verifier signer lag handler (Suc i) confs)
                   (\<lambda>(ms, bad). Inr (ms, i # bad)))
          else Inl e)"

definition max_seqno :: "config_message list \<Rightarrow> int" where
  "max_seqno ms = fold (\<lambda>m s. if s < cm_seqno m then cm_seqno m else s) ms (- (2 ^ 63))"

text \<open>\<open>conf[j]\<close> makes \<open>conf[i]\<close> redundant: it lists it among its lagged diffs, or is an earlier
  duplicate.\<close>

definition makes_redundant :: "config_message list \<Rightarrow> nat \<Rightarrow> nat \<Rightarrow> bool" where
  "makes_redundant ms i j \<longleftrightarrow> i \<noteq> j \<and>
     (cm_seqno_hash (ms ! i) \<in> fst ` set (cm_lagged_diffs (ms ! j)) \<or>
      (j < i \<and> cm_seqno_hash (ms ! j) = cm_seqno_hash (ms ! i)))"

definition redundant_flags :: "config_message list \<Rightarrow> int \<Rightarrow> bool list res" where
  "redundant_flags ms lag =
     res_map (\<lambda>i.
       res_bind (i64_arith (cm_seqno (ms ! i) + lag)) (\<lambda>s.
         Inr (list_ex (makes_redundant ms i) [0..<length ms] \<or> s \<le> max_seqno ms)))
       [0..<length ms]"

fun find_index :: "('a \<Rightarrow> bool) \<Rightarrow> 'a list \<Rightarrow> nat option" where
  "find_index P [] = None"
| "find_index P (x # xs) = (if P x then Some 0 else map_option Suc (find_index P xs))"

text \<open>\<open>std::max_element\<close>: the first element that no later one exceeds.\<close>

fun max_element :: "('a \<Rightarrow> 'a \<Rightarrow> bool) \<Rightarrow> 'a \<Rightarrow> 'a list \<Rightarrow> 'a" where
  "max_element lt best [] = best"
| "max_element lt best (x # xs) = max_element lt (if lt best x then x else best) xs"

definition best_less :: "config_message list \<Rightarrow> bool list \<Rightarrow> nat \<Rightarrow> nat \<Rightarrow> bool" where
  "best_less ms flags a b =
     (if flags ! a \<noteq> flags ! b then flags ! a else cm_seqno_hash (ms ! a) < cm_seqno_hash (ms ! b))"

text \<open>The replay map: for every kept message, highest first, its own diff and its lagged diffs,
  each with the data they refer to; \<open>emplace\<close> keeps the first entry of a key.\<close>

type_synonym replay = "(seqno_hash \<times> (dict \<times> bt_dict)) list"

definition replay_of :: "config_message \<Rightarrow> replay \<Rightarrow> replay" where
  "replay_of m r =
     fold (\<lambda>(sh, diff). smap_emplace sh (cm_data m, diff)) (cm_lagged_diffs m)
       (smap_emplace (cm_seqno_hash m) (cm_data m, cm_diff m) r)"

definition build_replay :: "config_message list \<Rightarrow> replay" where
  "build_replay confs = fold replay_of confs []"

definition apply_replay :: "replay \<Rightarrow> dict \<Rightarrow> dict res" where
  "apply_replay r d = res_fold (\<lambda>(sh, (src, diff)) d. apply_diff d diff src) r d"

definition sort_configs :: "config_message list \<Rightarrow> config_message list" where
  "sort_configs confs = rev (sort_key cm_seqno_hash confs)"

definition kept :: "config_message list \<Rightarrow> bool list \<Rightarrow> config_message list" where
  "kept ms flags = map fst (filter (\<lambda>(m, redundant). \<not> redundant) (zip ms flags))"

definition merge_kept ::
  "libs \<Rightarrow> verify_callable \<Rightarrow> sign_callable \<Rightarrow> int \<Rightarrow> int \<Rightarrow> config_message list \<Rightarrow> config_message res" where
  "merge_kept x verifier signer lag highest confs =
     (let sorted_confs = sort_configs confs; replay = build_replay sorted_confs in
      case sorted_confs of
        [] \<Rightarrow> Inl Undefined_behaviour
      | front # _ \<Rightarrow>
          res_bind (i64_arith (highest + 1)) (\<lambda>seqno.
          res_bind (apply_replay replay (cm_data front)) (\<lambda>d.
            let m = empty_message\<lparr> cm_data := fst (prune_dict d),
                      cm_lagged_diffs := map (\<lambda>(sh, (src, diff)). (sh, diff)) replay,
                      cm_seqno_hash := (seqno, zero_hash),
                      cm_verifier := verifier, cm_signer := signer, cm_lag := lag \<rparr>
            in res_bind (serialize_impl x m [] True) (\<lambda>b. Inr (set_hash x b m)))))"

text \<open>\<open>ConfigMessage(serialized_confs, ...)\<close> after the load loop.\<close>

definition merge_messages ::
  "libs \<Rightarrow> verify_callable \<Rightarrow> sign_callable \<Rightarrow> int \<Rightarrow> config_message list \<Rightarrow> config_message res" where
  "merge_messages x verifier signer lag ms =
     (if ms = [] then Inl Config_error
      else res_bind (redundant_flags ms lag) (\<lambda>flags.
        let curr_confs = length (filter Not flags) in
        if curr_confs = 0 then Inl Assertion_failed
        else if curr_confs = 1 then
          (case find_index Not flags of
             Some i \<Rightarrow> Inr ((ms ! i)\<lparr> cm_unmerged := Some i \<rparr>)
           | None \<Rightarrow> Inl Assertion_failed)
        else if verifier \<noteq> None \<and> signer = None then
          (let best = max_element (best_less ms flags) 0 [1..<length ms]
           in Inr ((ms ! best)\<lparr> cm_unmerged := Some best \<rparr>))
        else merge_kept x verifier signer lag (max_seqno ms) (kept ms flags)))"

definition merge_configs ::
  "libs \<Rightarrow> verify_callable \<Rightarrow> sign_callable \<Rightarrow> int \<Rightarrow> (nat \<Rightarrow> exn \<Rightarrow> exn option) \<Rightarrow>
   bytes list \<Rightarrow> (config_message \<times> nat list) res" where
  "merge_configs x verifier signer lag handler confs =
     res_bind (load_configs x verifier signer lag handler 0 confs) (\<lambda>(ms, bad).
     res_bind (merge_messages x verifier signer lag ms) (\<lambda>m. Inr (m, bad)))"

text \<open>
  \<open>MutableConfigMessage(serialized_confs, ...)\<close>: here \<open>orig_data_{data_}\<close> is initialized after the
  base constructor has loaded the data.
\<close>

definition mutable_merge_configs ::
  "libs \<Rightarrow> verify_callable \<Rightarrow> sign_callable \<Rightarrow> int \<Rightarrow> (nat \<Rightarrow> exn \<Rightarrow> exn option) \<Rightarrow>
   bytes list \<Rightarrow> (config_message \<times> nat list) res" where
  "mutable_merge_configs x verifier signer lag handler confs =
     res_bind (merge_configs x verifier signer lag handler confs) (\<lambda>(m, bad).
       if merged m then Inr (m\<lparr> cm_orig_data := Some (cm_data m) \<rparr>, bad)
       else res_bind (increment_impl m) (\<lambda>m. Inr (m, bad)))"

text \<open>\<open>MutableConfigMessage(config, verifier, signer, lag)\<close>: one message, every error is rethrown.\<close>

definition mutable_load_message ::
  "libs \<Rightarrow> bytes \<Rightarrow> verify_callable \<Rightarrow> sign_callable \<Rightarrow> int \<Rightarrow> config_message res" where
  "mutable_load_message x config verifier signer lag =
     res_bind (mutable_merge_configs x verifier signer lag (\<lambda>i e. Some e) [config])
       (\<lambda>(m, bad). Inr m)"

end
