(* ===== verification/Config_Roundtrip.thy ===== *)
theory Config_Roundtrip
  imports Config_Message
begin

text \<open>
  What loading a message establishes, and that loading what \<open>serialize\<close> wrote gives the message
  back. The bencode library is assumed to read back what it wrote (\<open>codec_ok\<close>), nothing more.
\<close>

section \<open>Invariants\<close>

definition unknown_ok :: "bt_dict \<Rightarrow> bool" where
  "unknown_ok u \<longleftrightarrow> smap_ok u \<and>
     (\<forall>k \<in> fst ` set u. ''#'' < k \<and> k < ''~'' \<and> k \<noteq> ''&'' \<and> k \<noteq> ''<'' \<and> k \<noteq> ''='')"

definition lags_ok :: "int \<Rightarrow> int \<Rightarrow> lagged_diffs \<Rightarrow> bool" where
  "lags_ok seqno lag lags \<longleftrightarrow> smap_ok lags \<and>
     (\<forall>((s, h), d) \<in> set lags. in_i64 s \<and> seqno - lag < s \<and> s < seqno \<and> length h = 32 \<and> valid_diff d)"

definition msg_ok :: "config_message \<Rightarrow> bool" where
  "msg_ok m \<longleftrightarrow> wf_dict (cm_data m) \<and> pruned (cm_data m) \<and> valid_diff (cm_diff m) \<and>
     unknown_ok (cm_unknown m) \<and> in_i64 (cm_seqno m) \<and>
     lags_ok (cm_seqno m) (cm_lag m) (cm_lagged_diffs m)"

text \<open>The raw bencoded values a message carries are ones the producer can write.\<close>

definition storable :: "config_message \<Rightarrow> bool" where
  "storable m \<longleftrightarrow> bt_ok (BtDict (cm_diff m)) \<and> bt_ok (BtDict (cm_unknown m)) \<and>
     (\<forall>(sh, d) \<in> set (cm_lagged_diffs m). bt_ok (BtDict d))"

text \<open>
  What the code relies on of the bencode library: a dict that was written is read back, the encoding
  of a dict starts with \<open>d\<close>, and the bytes to verify are the bytes that were signed.
\<close>

definition codec_ok :: "libs \<Rightarrow> bool" where
  "codec_ok x \<longleftrightarrow> (\<forall>d. bt_ok (BtDict d) \<longrightarrow>
     bt_decode x (bt_encode x (BtDict d)) = Some (BtDict d) \<and>
     (\<exists>rest. bt_encode x (BtDict d) = CHR ''d'' # rest) \<and>
     (\<forall>sig d'. d = d' @ [(''~'', BtStr sig)] \<longrightarrow>
        bt_to_verify x (bt_encode x (BtDict d)) = bt_to_sign x d'))"

section \<open>Unknown keys\<close>

lemma append_unknown_spec:
  "append_unknown u until = Inr (out, rest) \<Longrightarrow> smap_ok u \<Longrightarrow>
   u = out @ rest \<and> (\<forall>k \<in> fst ` set out. k < until) \<and> (\<forall>k \<in> fst ` set rest. until < k)"
proof (induction u until arbitrary: out rest rule: append_unknown.induct)
  case (2 k v it until)
  consider (lt) "k < until" | (gt) "until < k" | (eq) "k = until" by fastforce
  then show ?case
  proof cases
    case lt
    with 2 show ?thesis by (fastforce simp: res_bind_eq_Inr)
  next
    case gt
    then have "\<not> k < until" "k \<noteq> until" by auto
    with "2.prems"(1) have "out = []" "rest = (k, v) # it" by simp_all
    with gt 2(3) show ?thesis by (auto intro: order.strict_trans)
  qed (use 2 in auto)
qed auto

lemma append_unknown_ok:
  "smap_ok u \<Longrightarrow> until \<notin> fst ` set u \<Longrightarrow> \<exists>out rest. append_unknown u until = Inr (out, rest)"
  by (induction u until rule: append_unknown.induct) auto

lemma append_unknown_split:
  assumes "smap_ok u" "until \<notin> fst ` set u" "\<forall>k \<in> fst ` set u. lo < k"
  shows "\<exists>out rest. append_unknown u until = Inr (out, rest) \<and> u = out @ rest \<and>
     (\<forall>k \<in> fst ` set out. lo < k \<and> k < until) \<and> smap_ok rest \<and> (\<forall>k \<in> fst ` set rest. until < k)"
proof -
  obtain out rest where a: "append_unknown u until = Inr (out, rest)"
    using append_unknown_ok [OF assms(1,2)] by blast
  have "u = out @ rest" "\<forall>k \<in> fst ` set out. k < until" "\<forall>k \<in> fst ` set rest. until < k"
    using append_unknown_spec [OF a assms(1)] by simp_all
  moreover from this have "smap_ok rest" "\<forall>k \<in> fst ` set out. lo < k"
    using assms(1,3) by (simp_all add: sorted_wrt_append)
  ultimately show ?thesis using a by blast
qed

lemma load_unknowns_reads:
  "smap_ok (acc @ out) \<Longrightarrow> \<forall>k \<in> fst ` set out. prev < k \<and> k < until \<Longrightarrow>
   (rest \<noteq> [] \<longrightarrow> until \<le> fst (hd rest)) \<Longrightarrow>
   load_unknowns acc (out @ rest) prev until = Inr (acc @ out, rest)"
proof (induction out arbitrary: acc)
  case Nil
  then show ?case by (cases rest) auto
next
  case (Cons p out)
  obtain k v where p: "p = (k, v)" by fastforce
  have "after_last acc k" using Cons.prems(1) p after_last_sorted [of acc k v out] by simp
  then show ?case
    using Cons.IH [of "acc @ [(k, v)]"] Cons.prems p by (auto simp: after_last_def)
qed

lemma load_unknowns_sound:
  "load_unknowns acc d prev until = Inr (u, rest) \<Longrightarrow> smap_ok acc \<Longrightarrow>
   \<exists>out. u = acc @ out \<and> d = out @ rest \<and> smap_ok u \<and>
     (\<forall>k \<in> fst ` set out. prev < k \<and> k < until)"
proof (induction acc d prev until rule: load_unknowns.induct)
  case (2 unknown key v dict prev until)
  show ?case
  proof (cases "key < until")
    case True
    with 2 have key: "prev < key" "after_last unknown key"
      by (auto simp: after_last_def split: if_splits)
    with True 2 show ?thesis
      using smap_ok_snoc [of unknown key v] by (fastforce simp: after_last_def split: if_splits)
  qed (use 2 in auto)
qed auto

section \<open>Lagged diffs\<close>

lemma lags_ok_Nil [simp]: "lags_ok seqno lag []"
  by (simp add: lags_ok_def)

lemma parse_lagged_row_reads:
  assumes "in_i64 seqno" "in_i64 (seqno - lag)" "lags_ok seqno lag (acc @ [r])"
  shows "parse_lagged_row seqno lag (lag_row r) acc = Inr (acc @ [r])"
proof -
  obtain s h d where r: "r = ((s, h), d)" by (metis prod.exhaust)
  have "acc \<noteq> [] \<Longrightarrow> fst (last acc) < (s, h)"
    using assms(3) r last_in_set [of acc] by (auto simp: lags_ok_def sorted_wrt_append)
  then show ?thesis
    using assms r load_diff_iff [of d d]
    by (auto simp: parse_lagged_row_def parse_lagged_tail_def lag_row_def lags_ok_def not_le
        simp del: valid_diff_val.simps(3))
qed

lemma parse_lagged_diffs_reads:
  assumes "in_i64 seqno" "in_i64 (seqno - lag)" "lags_ok seqno lag lags"
  shows "parse_lagged_diffs (map lag_row lags) seqno lag = Inr lags"
  using assms(3)
proof (induction lags rule: rev_induct)
  case (snoc r lags)
  then have "lags_ok seqno lag lags"
    by (auto simp: lags_ok_def sorted_wrt_append)
  with snoc show ?case
    using parse_lagged_row_reads [OF assms(1,2) snoc.prems]
    by (simp add: parse_lagged_diffs_def res_fold_append)
qed (simp add: parse_lagged_diffs_def)

lemma parse_lagged_tail_sound:
  assumes "parse_lagged_tail s sublist acc = Inr acc'"
  obtains h d where "acc' = acc @ [((s, h), d)]" "length h = 32" "valid_diff d"
    "acc \<noteq> [] \<longrightarrow> fst (last acc) < (s, h)"
  using assms
  by (auto simp: parse_lagged_tail_def res_bind_eq_Inr load_diff_iff not_le
      simp del: valid_diff_val.simps(3) split: bt_value.splits list.splits if_splits)

lemma parse_lagged_row_sound:
  assumes "parse_lagged_row seqno lag row acc = Inr acc'" "lags_ok seqno lag acc"
  shows "lags_ok seqno lag acc'"
proof -
  from assms(1) consider "acc' = acc"
    | s sublist where "in_i64 s" "seqno - lag < s" "s < seqno" "parse_lagged_tail s sublist acc = Inr acc'"
    by (auto simp: parse_lagged_row_def res_bind_eq_Inr consume_integer_def i64_arith_eq_Inr
        not_le split: bt_value.splits list.splits if_splits)
  then show ?thesis
  proof cases
    case 2
    from 2(4) obtain h d where hd: "acc' = acc @ [((s, h), d)]" "length h = 32" "valid_diff d"
      "acc \<noteq> [] \<longrightarrow> fst (last acc) < (s, h)"
      by (rule parse_lagged_tail_sound)
    then have "smap_ok acc'"
      using assms(2) smap_ok_above [of acc "(s, h)" d] by (simp add: lags_ok_def)
    with 2 hd assms(2) show ?thesis
      by (auto simp: lags_ok_def simp del: valid_diff_val.simps(3))
  qed (use assms(2) in simp)
qed

lemma parse_lagged_diffs_sound:
  "parse_lagged_diffs l seqno lag = Inr lags \<Longrightarrow> lags_ok seqno lag lags"
proof -
  have "res_fold (parse_lagged_row seqno lag) l acc = Inr lags \<Longrightarrow> lags_ok seqno lag acc \<Longrightarrow>
      lags_ok seqno lag lags" for acc
    by (induction l arbitrary: acc) (auto simp: res_bind_eq_Inr dest: parse_lagged_row_sound)
  moreover have "lags_ok seqno lag []" by simp
  ultimately show "parse_lagged_diffs l seqno lag = Inr lags \<Longrightarrow> lags_ok seqno lag lags"
    by (simp add: parse_lagged_diffs_def)
qed

section \<open>Writing and reading back the outer dict\<close>

lemma load_unknowns_stop:
  "\<not> key < until \<Longrightarrow> load_unknowns u ((key, v) # d) prev until = Inr (u, (key, v) # d)"
  by simp

lemma serialize_pairs_shape:
  assumes "unknown_ok (cm_unknown m)" "in_i64 (cm_seqno m - cm_lag m)"
    "lags_ok (cm_seqno m) (cm_lag m) (cm_lagged_diffs m)"
  obtains u1 u2 u3 u4 where "cm_unknown m = u1 @ u2 @ u3 @ u4"
    "\<forall>k \<in> fst ` set u1. ''#'' < k \<and> k < ''&''" "\<forall>k \<in> fst ` set u2. ''&'' < k \<and> k < ''<''"
    "\<forall>k \<in> fst ` set u3. ''<'' < k \<and> k < ''=''" "\<forall>k \<in> fst ` set u4. ''='' < k \<and> k < ''~''"
    "serialize_pairs m df = Inr ((''#'', BtInt (cm_seqno m)) # u1
        @ (''&'', BtDict (serialize_data (cm_data m))) # u2
        @ (''<'', BtList (map lag_row (cm_lagged_diffs m))) # u3 @ (''='', BtDict df) # u4)"
proof -
  define u where "u = cm_unknown m"
  have u: "smap_ok u" "\<forall>k \<in> fst ` set u. ''#'' < k" "\<forall>k \<in> fst ` set u. k < ''~''"
    and no: "''&'' \<notin> fst ` set u" "''<'' \<notin> fst ` set u" "''='' \<notin> fst ` set u" "''~'' \<notin> fst ` set u"
    using assms(1) unfolding unknown_ok_def u_def by blast+
  obtain u1 r1 where a1: "append_unknown u ''&'' = Inr (u1, r1)" "u = u1 @ r1"
    and k1: "\<forall>k \<in> fst ` set u1. ''#'' < k \<and> k < ''&''"
    and r1: "smap_ok r1" "\<forall>k \<in> fst ` set r1. ''&'' < k"
    using append_unknown_split [OF u(1) no(1) u(2)] by blast
  have n1: "''<'' \<notin> fst ` set r1" "''='' \<notin> fst ` set r1" "''~'' \<notin> fst ` set r1"
    using no a1(2) by auto
  obtain u2 r2 where a2: "append_unknown r1 ''<'' = Inr (u2, r2)" "r1 = u2 @ r2"
    and k2: "\<forall>k \<in> fst ` set u2. ''&'' < k \<and> k < ''<''"
    and r2: "smap_ok r2" "\<forall>k \<in> fst ` set r2. ''<'' < k"
    using append_unknown_split [OF r1(1) n1(1) r1(2)] by blast
  have n2: "''='' \<notin> fst ` set r2" "''~'' \<notin> fst ` set r2"
    using n1 a2(2) by auto
  obtain u3 r3 where a3: "append_unknown r2 ''='' = Inr (u3, r3)" "r2 = u3 @ r3"
    and k3: "\<forall>k \<in> fst ` set u3. ''<'' < k \<and> k < ''=''"
    and r3: "smap_ok r3" "\<forall>k \<in> fst ` set r3. ''='' < k"
    using append_unknown_split [OF r2(1) n2(1) r2(2)] by blast
  have n3: "''~'' \<notin> fst ` set r3"
    using n2 a3(2) by auto
  obtain u4 r4 where a4: "append_unknown r3 ''~'' = Inr (u4, r4)" "r3 = u4 @ r4"
    and k4: "\<forall>k \<in> fst ` set u4. ''='' < k \<and> k < ''~''"
    and r4: "\<forall>k \<in> fst ` set r4. ''~'' < k"
    using append_unknown_split [OF r3(1) n3 r3(2)] by blast
  have "set r4 \<subseteq> set u" using a1(2) a2(2) a3(2) a4(2) by auto
  then have "r4 = []" using r4 u(3) by (cases r4) (auto dest: order.strict_trans)
  moreover have "filter (\<lambda>r. \<not> (fst (fst r) \<le> cm_seqno m - cm_lag m \<or> cm_seqno m \<le> fst (fst r)))
      (cm_lagged_diffs m) = cm_lagged_diffs m"
    using assms(3) by (intro filter_True) (auto simp: lags_ok_def)
  ultimately have "serialize_pairs m df = Inr ((''#'', BtInt (cm_seqno m)) # u1
        @ (''&'', BtDict (serialize_data (cm_data m))) # u2
        @ (''<'', BtList (map lag_row (cm_lagged_diffs m))) # u3 @ (''='', BtDict df) # u4)"
    using a1(1) a2(1) a3(1) a4(1) assms(2) by (simp add: serialize_pairs_def u_def)
  moreover have "cm_unknown m = u1 @ u2 @ u3 @ u4"
    using a1(2) a2(2) a3(2) a4(2) \<open>r4 = []\<close> by (simp add: u_def)
  ultimately show ?thesis using that k1 k2 k3 k4 by blast
qed

lemma load_pairs_reads:
  assumes "in_i64 seqno" "in_i64 (seqno - lag)" "lags_ok seqno lag lags"
    and "wf_dict data" "pruned data" "valid_diff df" "smap_ok (u1 @ u2 @ u3 @ u4)"
    and "\<forall>k \<in> fst ` set u1. ''#'' < k \<and> k < ''&''" "\<forall>k \<in> fst ` set u2. ''&'' < k \<and> k < ''<''"
    and "\<forall>k \<in> fst ` set u3. ''<'' < k \<and> k < ''=''" "\<forall>k \<in> fst ` set u4. ''='' < k \<and> k < ''~''"
    and "sigpart \<noteq> [] \<longrightarrow> fst (hd sigpart) = ''~''"
  shows "load_pairs x raw ((''#'', BtInt seqno) # u1 @ (''&'', BtDict (serialize_data data)) # u2
        @ (''<'', BtList (map lag_row lags)) # u3 @ (''='', BtDict df) # u4 @ sigpart) vf sg lag trust =
     res_bind (verify_config_sig x raw sigpart vf None trust) (\<lambda>sig.
       Inr \<lparr> cm_data = data, cm_diff = df, cm_lagged_diffs = lags, cm_unknown = u1 @ u2 @ u3 @ u4,
             cm_seqno_hash = (seqno, blake2b x raw), cm_verified_signature = sig, cm_unmerged = None,
             cm_verifier = vf, cm_signer = sg, cm_lag = lag, cm_orig_data = None \<rparr>)"
proof -
  have ok: "smap_ok (u1 @ u2)" "smap_ok (u1 @ u2 @ u3)" "smap_ok u1"
    using assms(7) by (simp_all add: sorted_wrt_append ball_Un)
  have l1: "load_unknowns [] (u1 @ (''&'', v) # d) ''#'' ''&'' = Inr (u1, (''&'', v) # d)" for v d
    using load_unknowns_reads [of "[]" u1] ok assms(8) by simp
  have l2: "load_unknowns u1 (u2 @ (''<'', v) # d) ''&'' ''<'' = Inr (u1 @ u2, (''<'', v) # d)" for v d
    using load_unknowns_reads [of u1 u2] ok assms(9) by simp
  have l3: "load_unknowns (u1 @ u2) (u3 @ (''='', v) # d) ''<'' ''='' =
      Inr (u1 @ u2 @ u3, (''='', v) # d)" for v d
    using load_unknowns_reads [of "u1 @ u2" u3] ok assms(10) by simp
  have l4: "load_unknowns (u1 @ u2 @ u3) (u4 @ sigpart) ''='' ''~'' = Inr (u1 @ u2 @ u3 @ u4, sigpart)"
    using load_unknowns_reads [of "u1 @ u2 @ u3" u4] assms(7,11,12) by simp
  have "load_diff df = Inr df" using assms(6) load_diff_iff by blast
  then show ?thesis
    using assms(1) parse_lagged_diffs_reads [OF assms(1,2,3)] parse_data_serialize [OF assms(4,5)] l4
    by (simp add: load_pairs_def next_integer_def next_dict_def load_lags_def load_curr_diff_def
        l1 l2 l3 del: valid_diff_val.simps)
qed

lemma bt_ok_scalar: "wf_scalar s \<Longrightarrow> bt_ok (bt_scalar s)"
  by (cases s) auto

lemma serialize_data_map: "serialize_data d = map (\<lambda>(k, v). (k, serialize_value v)) d"
  by (induction d) auto

lemma bt_ok_serialized:
  "wf_val v \<Longrightarrow> bt_ok (serialize_value v)"
  "(\<forall>(k, v) \<in> set m. wf_val v) \<Longrightarrow> smap_ok m \<Longrightarrow> bt_ok (BtDict (serialize_data m))"
proof (induction v and m rule: dict_tree_induct)
  case (Cons k v m)
  then show ?case by (auto simp: list_all_iff serialize_data_map)
qed (auto simp: list_all_iff bt_ok_scalar)

lemma bt_ok_outer:
  assumes "in_i64 seqno" "lags_ok seqno lag lags" "wf_dict data" "bt_ok (BtDict df)"
    and "bt_ok (BtDict (u1 @ u2 @ u3 @ u4))" "\<forall>(sh, d) \<in> set lags. bt_ok (BtDict d)"
    and "\<forall>k \<in> fst ` set u1. ''#'' < k \<and> k < ''&''" "\<forall>k \<in> fst ` set u2. ''&'' < k \<and> k < ''<''"
    and "\<forall>k \<in> fst ` set u3. ''<'' < k \<and> k < ''=''" "\<forall>k \<in> fst ` set u4. ''='' < k \<and> k < ''~''"
    and "sigpart = [] \<or> sigpart = [(''~'', BtStr sig)]"
  shows "bt_ok (BtDict ((''#'', BtInt seqno) # u1 @ (''&'', BtDict (serialize_data data)) # u2
        @ (''<'', BtList (map lag_row lags)) # u3 @ (''='', BtDict df) # u4 @ sigpart))"
    (is "bt_ok (BtDict ?outer)")
proof -
  have rows: "list_all bt_ok (map lag_row lags)"
    using assms(2,6)
    by (auto simp: list_all_iff lags_ok_def lag_row_def simp del: bt_ok.simps(4) valid_diff_val.simps)
  have bounds: "\<forall>k \<in> fst ` set u1. ''#'' < k \<and> k < ''&'' \<and> k < ''<'' \<and> k < ''='' \<and> k < ''~''"
    "\<forall>k \<in> fst ` set u2. ''#'' < k \<and> ''&'' < k \<and> k < ''<'' \<and> k < ''='' \<and> k < ''~''"
    "\<forall>k \<in> fst ` set u3. ''#'' < k \<and> ''&'' < k \<and> ''<'' < k \<and> k < ''='' \<and> k < ''~''"
    "\<forall>k \<in> fst ` set u4. ''#'' < k \<and> ''&'' < k \<and> ''<'' < k \<and> ''='' < k \<and> k < ''~''"
    using assms(7-10) order.strict_trans [of "''&''" "''<''"] order.strict_trans [of _ "''&''" "''<''"]
      order.strict_trans [of _ "''&''" "''=''"] order.strict_trans [of _ "''&''" "''~''"]
      order.strict_trans [of _ "''<''" "''=''"] order.strict_trans [of _ "''<''" "''~''"]
      order.strict_trans [of _ "''=''" "''~''"] order.strict_trans [of "''#''" "''&''"]
      order.strict_trans [of "''#''" "''<''"] order.strict_trans [of "''#''" "''=''"]
      order.strict_trans [of "''&''" "''=''"] order.strict_trans [of "''<''" "''=''"]
    by auto
  have "smap_ok ?outer"
    using assms(5,11) bounds by (auto simp: sorted_wrt_append ball_Un)
  moreover have "list_all (\<lambda>(k, v). bt_ok v) ?outer"
    using assms(1,3,4,5,11) rows bt_ok_serialized(2) [of data] by auto
  ultimately show ?thesis by simp
qed

section \<open>Loading what was serialized\<close>

definition signature_of :: "libs \<Rightarrow> config_message \<Rightarrow> bool \<Rightarrow> bt_dict \<Rightarrow> bytes option" where
  "signature_of x m enable_signing outer =
     (case cm_verified_signature m of
        Some sig \<Rightarrow> Some sig
      | None \<Rightarrow> (if enable_signing then map_option (\<lambda>f. f (bt_to_sign x outer)) (cm_signer m) else None))"

definition signatures_ok :: "config_message \<Rightarrow> bool" where
  "signatures_ok m \<longleftrightarrow> (\<forall>sig. cm_verified_signature m = Some sig \<longrightarrow> length sig = 64) \<and>
     (\<forall>f b. cm_signer m = Some f \<longrightarrow> length (f b) = 64)"

definition sig_pair :: "bytes option \<Rightarrow> bt_dict" where
  "sig_pair s = (case s of None \<Rightarrow> [] | Some sig \<Rightarrow> [(''~'', BtStr sig)])"

lemma sign_pairs_signature:
  "signatures_ok m \<Longrightarrow>
   sign_pairs x m en outer = Inr (outer @ sig_pair (signature_of x m en outer))"
  by (auto simp: sign_pairs_def signature_of_def sig_pair_def signatures_ok_def Let_def split: option.splits)

definition reloaded ::
  "config_message \<Rightarrow> bytes \<Rightarrow> bytes option \<Rightarrow> verify_callable \<Rightarrow> sign_callable \<Rightarrow> config_message" where
  "reloaded m h sig vf sg =
     m\<lparr> cm_seqno_hash := (cm_seqno m, h), cm_verified_signature := sig, cm_unmerged := None,
        cm_verifier := vf, cm_signer := sg, cm_orig_data := None \<rparr>"

lemma reloaded_record:
  "reloaded m h sig vf sg =
     \<lparr> cm_data = cm_data m, cm_diff = cm_diff m, cm_lagged_diffs = cm_lagged_diffs m,
       cm_unknown = cm_unknown m, cm_seqno_hash = (cm_seqno m, h), cm_verified_signature = sig,
       cm_unmerged = None, cm_verifier = vf, cm_signer = sg, cm_lag = cm_lag m, cm_orig_data = None \<rparr>"
  by (simp add: reloaded_def)

lemma serialize_impl_loads:
  assumes "codec_ok x" "msg_ok m" "storable m" "in_i64 (cm_seqno m - cm_lag m)" "signatures_ok m"
  obtains outer b where "serialize_pairs m (cm_diff m) = Inr outer"
    "serialize_impl x m (cm_diff m) en = Inr b"
    "b = bt_encode x (BtDict (outer @ sig_pair (signature_of x m en outer)))"
    "\<And>sig. signature_of x m en outer = Some sig \<Longrightarrow> bt_to_verify x b = bt_to_sign x outer"
    "\<And>vf sg trust. load_message x b vf sg (cm_lag m) trust = as_parse_error
       (res_bind (verify_config_sig x b (sig_pair (signature_of x m en outer)) vf None trust)
         (\<lambda>sig. Inr (reloaded m (blake2b x b) sig vf sg)))"
proof -
  have m: "wf_dict (cm_data m)" "pruned (cm_data m)" "valid_diff (cm_diff m)"
    "unknown_ok (cm_unknown m)" "in_i64 (cm_seqno m)" "smap_ok (cm_unknown m)"
    "lags_ok (cm_seqno m) (cm_lag m) (cm_lagged_diffs m)"
    using assms(2) by (auto simp: msg_ok_def unknown_ok_def simp del: valid_diff_val.simps wf_val.simps)
  obtain u1 u2 u3 u4 where u: "cm_unknown m = u1 @ u2 @ u3 @ u4"
    and keys: "\<forall>k \<in> fst ` set u1. ''#'' < k \<and> k < ''&''" "\<forall>k \<in> fst ` set u2. ''&'' < k \<and> k < ''<''"
      "\<forall>k \<in> fst ` set u3. ''<'' < k \<and> k < ''=''" "\<forall>k \<in> fst ` set u4. ''='' < k \<and> k < ''~''"
    and pairs: "serialize_pairs m (cm_diff m) = Inr ((''#'', BtInt (cm_seqno m)) # u1
        @ (''&'', BtDict (serialize_data (cm_data m))) # u2
        @ (''<'', BtList (map lag_row (cm_lagged_diffs m))) # u3 @ (''='', BtDict (cm_diff m)) # u4)"
    using serialize_pairs_shape [OF m(4) assms(4) m(7)] by metis
  define outer where "outer = (''#'', BtInt (cm_seqno m)) # u1
        @ (''&'', BtDict (serialize_data (cm_data m))) # u2
        @ (''<'', BtList (map lag_row (cm_lagged_diffs m))) # u3 @ (''='', BtDict (cm_diff m)) # u4"
  define s where "s = sig_pair (signature_of x m en outer)"
  define b where "b = bt_encode x (BtDict (outer @ s))"
  have s: "s = [] \<or> s = [(''~'', BtStr (the (signature_of x m en outer)))]"
    by (auto simp: s_def sig_pair_def split: option.split)
  have "bt_ok (BtDict (outer @ s))"
    using bt_ok_outer [OF m(5,7,1) _ _ _ keys s, of "cm_diff m"] assms(3) u
    by (simp add: storable_def outer_def del: bt_ok.simps)
  note codec = assms(1) [unfolded codec_ok_def, rule_format, OF this, folded b_def]
  have "serialize_impl x m (cm_diff m) en = Inr b"
    using pairs by (simp add: serialize_impl_def sign_pairs_signature [OF assms(5)] outer_def s_def b_def)
  moreover have "load_message x b vf sg (cm_lag m) trust = as_parse_error
       (res_bind (verify_config_sig x b s vf None trust)
         (\<lambda>sig. Inr (reloaded m (blake2b x b) sig vf sg)))" for vf sg trust
  proof -
    have "s \<noteq> [] \<longrightarrow> fst (hd s) = ''~''" using s by auto
    then show ?thesis
      using load_pairs_reads [OF m(5) assms(4) m(7,1,2,3) _ keys, of s x b vf sg trust] codec m(6) u
      by (auto simp: load_message_def outer_def reloaded_record)
  qed
  moreover have "bt_to_verify x b = bt_to_sign x outer" if "signature_of x m en outer = Some sig" for sig
    using codec that by (auto simp: s_def sig_pair_def)
  ultimately show ?thesis
    using that [of outer b] pairs by (simp add: outer_def s_def b_def)
qed

text \<open>A diff that \<open>diff_impl\<close> produced is one the producer can write.\<close>

fun bt_leaves :: "bt_value \<Rightarrow> bool" where
  "bt_leaves (BtDict d) = (\<forall>(k, v) \<in> set d. bt_leaves v)"
| "bt_leaves v = bt_ok v"

lemma valid_diff_bt_ok: "valid_diff_val v \<Longrightarrow> bt_leaves v \<Longrightarrow> bt_ok v"
proof (induction v rule: bt_leaves.induct)
  case (1 d)
  have "bt_ok e" if "(k, e) \<in> set d" for k e
    using 1 that by fastforce
  with 1 show ?case by (auto simp: list_all_iff)
qed auto

lemma bt_leaves_set_diff:
  assumes "ssorted old" "ssorted new" "list_all wf_scalar old" "list_all wf_scalar new"
  shows "bt_leaves (bt_set_diff (diff_set old new))"
  using list_all_diff_set [OF assms]
  by (auto simp: bt_set_diff_def list_all_iff bt_ok_scalar)

lemma diff_impl_leaves:
  "wf_dict old \<Longrightarrow> wf_dict new \<Longrightarrow> diff_impl old new = Inr df \<Longrightarrow> bt_leaves (BtDict df)"
  "wf_val n \<Longrightarrow> diff_new n = Inr e \<Longrightarrow> bt_leaves e"
  "wf_val x \<Longrightarrow> diff_removed x = Inr e' \<Longrightarrow> bt_leaves e'"
  "wf_val xv \<Longrightarrow> wf_val nv \<Longrightarrow> diff_same xv nv = Inr (Some e'') \<Longrightarrow> bt_leaves e''"
proof (induction old new and n and x and xv nv arbitrary: df and e and e' and e''
    rule: diff_impl_diff_new_diff_removed_diff_same.induct)
  case (2 nk nv new)
  then obtain e d where "diff_new nv = Inr e" "diff_impl [] new = Inr d" and df: "df = (nk, e) # d"
    by (auto simp: res_bind_eq_Inr)
  then have "bt_leaves e" "bt_leaves (BtDict d)" using "2.IH" "2.prems" by auto
  then show ?case using df by simp
next
  case (3 xk xv old)
  then obtain e d where "diff_removed xv = Inr e" "diff_impl old [] = Inr d" and df: "df = (xk, e) # d"
    by (auto simp: res_bind_eq_Inr)
  then have "bt_leaves e" "bt_leaves (BtDict d)" using "3.IH" "3.prems" by auto
  then show ?case using df by simp
next
  case (4 xk xv old nk nv new)
  consider (new) "nk < xk" | (old) "\<not> nk < xk" "xk < nk" | (both) "\<not> nk < xk" "\<not> xk < nk" by blast
  then show ?case
  proof cases
    case new
    with "4.prems" obtain e d where "diff_new nv = Inr e" "diff_impl ((xk, xv) # old) new = Inr d"
      and df: "df = (nk, e) # d" by (auto simp: res_bind_eq_Inr)
    then have "bt_leaves e" "bt_leaves (BtDict d)" using "4.IH"(1,2) "4.prems" new by auto
    then show ?thesis using df by simp
  next
    case old
    with "4.prems" obtain e d where "diff_removed xv = Inr e" "diff_impl old ((nk, nv) # new) = Inr d"
      and df: "df = (xk, e) # d" by (auto simp: res_bind_eq_Inr)
    then have "bt_leaves e" "bt_leaves (BtDict d)" using "4.IH"(3,4) "4.prems" old by auto
    then show ?thesis using df by simp
  next
    case both
    with "4.prems" obtain eo d where eo: "diff_same xv nv = Inr eo" and "diff_impl old new = Inr d"
      and df: "df = (case eo of None \<Rightarrow> d | Some e \<Rightarrow> (nk, e) # d)"
      by (auto simp: res_bind_eq_Inr)
    then have "bt_leaves (BtDict d)" using "4.IH"(6) "4.prems" both by auto
    moreover have "eo = Some e \<Longrightarrow> bt_leaves e" for e using "4.IH"(5) "4.prems" both eo by auto
    ultimately show ?thesis using df by (cases eo) auto
  qed
next
  case (6 s)
  then show ?case using bt_leaves_set_diff [of "[]" s] by (auto simp: deref_set_def split: if_splits)
next
  case (9 s)
  then show ?case using bt_leaves_set_diff [of s "[]"] by (auto simp: deref_set_def split: if_splits)
next
  case (13 x y)
  then show ?case using bt_leaves_set_diff [of x y] by (auto simp: Let_def split: if_splits)
qed (auto simp: res_bind_eq_Inr deref_dict_def split: if_splits)

section \<open>What loading establishes\<close>

lemma load_lags_sound: "load_lags d seqno lag = Inr (lags, d') \<Longrightarrow> lags_ok seqno lag lags"
  by (auto simp: load_lags_def res_bind_eq_Inr split: list.splits bt_value.splits if_splits
      dest: parse_lagged_diffs_sound)

lemma load_curr_diff_sound: "load_curr_diff d = Inr (df, d') \<Longrightarrow> valid_diff df"
  by (auto simp: load_curr_diff_def res_bind_eq_Inr load_diff_iff
      split: list.splits bt_value.splits if_splits)

lemma parse_data_sound: "parse_data d prune = Inr r \<Longrightarrow> prune \<Longrightarrow> wf_dict r \<and> pruned r"
  using parse_sound(2) [of d "[]" r]
  by (auto simp: parse_data_def res_bind_eq_Inr pruned_def)

lemma unknown_ok_sections:
  assumes "smap_ok (u1 @ u2 @ u3 @ u4)"
    and "\<forall>k \<in> fst ` set u1. ''#'' < k \<and> k < ''&''" "\<forall>k \<in> fst ` set u2. ''&'' < k \<and> k < ''<''"
    and "\<forall>k \<in> fst ` set u3. ''<'' < k \<and> k < ''=''" "\<forall>k \<in> fst ` set u4. ''='' < k \<and> k < ''~''"
  shows "unknown_ok (u1 @ u2 @ u3 @ u4)"
proof -
  have "''#'' < k \<and> k < ''~'' \<and> k \<noteq> ''&'' \<and> k \<noteq> ''<'' \<and> k \<noteq> ''=''"
    if "lo < k \<and> k < hi" "(lo, hi) \<in> {(''#'', ''&''), (''&'', ''<''), (''<'', ''=''), (''='', ''~'')}"
    for k lo hi :: string
    using that order.strict_trans [of "''#''" lo k] order.strict_trans [of k hi "''~''"] by auto
  with assms show ?thesis by (force simp: unknown_ok_def)
qed

lemma load_pairs_sound:
  assumes "load_pairs x raw dict vf sg lag trust = Inr m"
  shows "msg_ok m \<and> cm_lag m = lag \<and> snd (cm_seqno_hash m) = blake2b x raw \<and> cm_orig_data m = None"
proof -
  from assms obtain k1 seqno d1 u1 d2 k2 data0 d3 data u2 d4 lags d5 u3 d6 df d7 u4 d8 sig where
    l: "next_integer dict = Inr ((k1, seqno), d1)" "load_unknowns [] d1 ''#'' ''&'' = Inr (u1, d2)"
      "parse_data data0 True = Inr data" "load_unknowns u1 d3 ''&'' ''<'' = Inr (u2, d4)"
      "load_lags d4 seqno lag = Inr (lags, d5)" "load_unknowns u2 d5 ''<'' ''='' = Inr (u3, d6)"
      "load_curr_diff d6 = Inr (df, d7)" "load_unknowns u3 d7 ''='' ''~'' = Inr (u4, d8)"
    and m: "m = \<lparr> cm_data = data, cm_diff = df, cm_lagged_diffs = lags, cm_unknown = u4,
             cm_seqno_hash = (seqno, blake2b x raw), cm_verified_signature = sig, cm_unmerged = None,
             cm_verifier = vf, cm_signer = sg, cm_lag = lag, cm_orig_data = None \<rparr>"
    unfolding load_pairs_def by (auto simp: res_bind_eq_Inr split: prod.splits)
  obtain o1 where o1: "u1 = o1" "\<forall>k \<in> fst ` set o1. ''#'' < k \<and> k < ''&''" "smap_ok u1"
    using load_unknowns_sound [OF l(2)] by auto
  obtain o2 where o2: "u2 = u1 @ o2" "\<forall>k \<in> fst ` set o2. ''&'' < k \<and> k < ''<''" "smap_ok u2"
    using load_unknowns_sound [OF l(4) o1(3)] by blast
  obtain o3 where o3: "u3 = u2 @ o3" "\<forall>k \<in> fst ` set o3. ''<'' < k \<and> k < ''=''" "smap_ok u3"
    using load_unknowns_sound [OF l(6) o2(3)] by blast
  obtain o4 where o4: "u4 = u3 @ o4" "\<forall>k \<in> fst ` set o4. ''='' < k \<and> k < ''~''" "smap_ok u4"
    using load_unknowns_sound [OF l(8) o3(3)] by blast
  have "unknown_ok u4"
    using unknown_ok_sections [of o1 o2 o3 o4] o1 o2 o3 o4 by simp
  moreover have "in_i64 seqno"
    using l(1) by (auto simp: next_integer_def res_bind_eq_Inr consume_integer_def
        split: list.splits bt_value.splits if_splits)
  moreover have "wf_dict data" "pruned data" using parse_data_sound [OF l(3)] by simp_all
  moreover have "valid_diff df" using load_curr_diff_sound [OF l(7)] .
  ultimately show ?thesis
    using load_lags_sound [OF l(5)] m
    by (simp add: msg_ok_def del: wf_val.simps valid_diff_val.simps)
qed

lemma as_parse_error_Inr [simp]: "as_parse_error r = Inr m \<longleftrightarrow> r = Inr m"
  by (auto simp: as_parse_error_def split: sum.splits exn.splits)

lemma load_message_sound:
  "load_message x raw vf sg lag trust = Inr m \<Longrightarrow>
   msg_ok m \<and> cm_lag m = lag \<and> snd (cm_seqno_hash m) = blake2b x raw \<and> cm_orig_data m = None"
  by (auto simp: load_message_def split: if_splits option.splits bt_value.splits dest: load_pairs_sound)

text \<open>
  C12: whatever bytes arrive, a config message that loads is well typed: its data are sorted dicts of 64-bit integers, strings,
  sorted sets of one order and non-empty dicts; its diff has the shape the replay expects; its unknown top-level
  keys do not clash with the known ones; its earlier diffs are sorted, below its seqno and within the lag; and its hash is
  that of the bytes.
\<close>

theorem loaded_message_typed:
  assumes "load_message x raw verifier signer lag trust = Inr m"
  shows "wf_dict (cm_data m) \<and> pruned (cm_data m) \<and> valid_diff (cm_diff m) \<and> unknown_ok (cm_unknown m) \<and>
    in_i64 (cm_seqno m) \<and> lags_ok (cm_seqno m) lag (cm_lagged_diffs m) \<and>
    snd (cm_seqno_hash m) = blake2b x raw \<and> cm_orig_data m = None"
  using load_message_sound [OF assms] unfolding msg_ok_def by auto

section \<open>Round trips\<close>

lemma verify_sig_none:
  assumes "\<And>s. sig = Some s \<Longrightarrow> length s = 64"
  shows "verify_config_sig x b (sig_pair sig) None None trust = Inr (if trust then sig else None)"
  using assms by (auto simp: verify_config_sig_def sig_pair_def skip_until_def split: option.split)

lemma verify_sig_some:
  assumes "length sig = 64"
  shows "verify_config_sig x b (sig_pair (Some sig)) (Some g) None trust =
     (if g (bt_to_verify x b) sig then Inr (Some sig) else Inl Signature_error)"
  using assms by (auto simp: verify_config_sig_def sig_pair_def skip_until_def)

lemma signature_of_length: "signatures_ok m \<Longrightarrow> signature_of x m en outer = Some s \<Longrightarrow> length s = 64"
  by (auto simp: signatures_ok_def signature_of_def split: option.splits if_splits)

lemma as_parse_error_simps [simp]:
  "as_parse_error (Inr r) = Inr r" "as_parse_error (Inl Signature_error) = Inl Signature_error"
  "as_parse_error (Inl Missing_signature) = Inl Missing_signature"
  by (simp_all add: as_parse_error_def)

lemma serialize_impl_load_unverified:
  assumes "codec_ok x" "msg_ok m" "storable m" "in_i64 (cm_seqno m - cm_lag m)" "signatures_ok m"
  shows "\<exists>b sig. serialize_impl x m (cm_diff m) en = Inr b \<and>
    load_message x b None sg (cm_lag m) trust = Inr (reloaded m (blake2b x b) sig None sg) \<and>
    (\<not> trust \<longrightarrow> sig = None)"
proof -
  obtain outer b where o: "serialize_impl x m (cm_diff m) en = Inr b"
    "\<And>vf sg trust. load_message x b vf sg (cm_lag m) trust = as_parse_error
       (res_bind (verify_config_sig x b (sig_pair (signature_of x m en outer)) vf None trust)
         (\<lambda>sig. Inr (reloaded m (blake2b x b) sig vf sg)))"
    using serialize_impl_loads [OF assms] by metis
  have "verify_config_sig x b (sig_pair (signature_of x m en outer)) None None trust =
      Inr (if trust then signature_of x m en outer else None)"
    using signature_of_length [OF assms(5)] by (rule verify_sig_none)
  then show ?thesis
    using o by auto
qed

text \<open>
  C2: a config message that satisfies the message invariant serializes, and loading the bytes again,
  without a verifier, gives back its data, diff, lagged diffs, unknown keys and seqno, with the hash of
  the bytes.
\<close>

theorem serialize_then_load:
  assumes "codec_ok x" "msg_ok m" "storable m" "cm_orig_data m = None"
    and "in_i64 (cm_seqno m - cm_lag m)" "signatures_ok m"
  shows "\<exists>b sig. serialize x m en = Inr (b, m) \<and>
     load_message x b None sg (cm_lag m) trust = Inr (reloaded m (blake2b x b) sig None sg) \<and>
     (\<not> trust \<longrightarrow> sig = None)"
proof -
  obtain b sig where "serialize_impl x m (cm_diff m) en = Inr b"
    "load_message x b None sg (cm_lag m) trust = Inr (reloaded m (blake2b x b) sig None sg)"
    "\<not> trust \<longrightarrow> sig = None"
    using serialize_impl_load_unverified [OF assms(1-3,5,6), of en sg trust] by blast
  with assms(4) show ?thesis by (auto simp: serialize_def msg_diff_def)
qed

text \<open>
  C23: loading a message that was signed on serialization, with a verifier, succeeds exactly when the
  verifier accepts the signer's signature over the signed part, keeps that signature as the verified
  one, and is a \<open>signature_error\<close> otherwise.
\<close>

theorem signed_then_verified:
  assumes "codec_ok x" "msg_ok m" "storable m" "cm_orig_data m = None"
    and "in_i64 (cm_seqno m - cm_lag m)" "signatures_ok m"
    and "cm_verified_signature m = None" "cm_signer m = Some f"
  shows "\<exists>b outer. serialize x m True = Inr (b, m) \<and> serialize_pairs m (cm_diff m) = Inr outer \<and>
     load_message x b (Some g) sg (cm_lag m) trust =
       (let sig = f (bt_to_sign x outer)
        in if g (bt_to_sign x outer) sig then Inr (reloaded m (blake2b x b) (Some sig) (Some g) sg)
           else Inl Signature_error)"
proof -
  obtain outer b where o: "serialize_pairs m (cm_diff m) = Inr outer"
    "serialize_impl x m (cm_diff m) True = Inr b"
    "\<And>sig. signature_of x m True outer = Some sig \<Longrightarrow> bt_to_verify x b = bt_to_sign x outer"
    "\<And>vf sg trust. load_message x b vf sg (cm_lag m) trust = as_parse_error
       (res_bind (verify_config_sig x b (sig_pair (signature_of x m True outer)) vf None trust)
         (\<lambda>sig. Inr (reloaded m (blake2b x b) sig vf sg)))"
    using serialize_impl_loads [OF assms(1-3,5,6)] by metis
  have sig: "signature_of x m True outer = Some (f (bt_to_sign x outer))"
    using assms(7,8) by (simp add: signature_of_def)
  have "length (f (bt_to_sign x outer)) = 64" using assms(6,8) by (simp add: signatures_ok_def)
  then have "load_message x b (Some g) sg (cm_lag m) trust =
       (let sig = f (bt_to_sign x outer)
        in if g (bt_to_sign x outer) sig then Inr (reloaded m (blake2b x b) (Some sig) (Some g) sg)
           else Inl Signature_error)"
    using o(4) [of "Some g" sg trust] o(3) [OF sig] sig by (simp add: verify_sig_some Let_def)
  with o assms(4) show ?thesis by (auto simp: serialize_def msg_diff_def)
qed

text \<open>
  A mutable message: what holds while its data is being edited. Its lagged diffs may reach one seqno
  further back than the window, because \<open>increment_impl\<close> erases by the seqno before the increment;
  serializing leaves such an entry out (\<open>window\<close>).
\<close>

definition window :: "config_message \<Rightarrow> lagged_diffs" where
  "window m = filter (\<lambda>r. \<not> (fst (fst r) \<le> cm_seqno m - cm_lag m \<or> cm_seqno m \<le> fst (fst r)))
     (cm_lagged_diffs m)"

lemma serialize_impl_window:
  "serialize_impl x (m\<lparr> cm_lagged_diffs := window m \<rparr>) df en = serialize_impl x m df en"
  by (simp add: serialize_impl_def serialize_pairs_def sign_pairs_def window_def i64_arith_def
      conj_ac cong: option.case_cong)

lemma lags_ok_window:
  "lags_ok (cm_seqno m) n (cm_lagged_diffs m) \<Longrightarrow> lags_ok (cm_seqno m) (cm_lag m) (window m)"
  by (auto simp: lags_ok_def window_def sorted_wrt_map sorted_wrt_filter simp del: valid_diff_val.simps)

definition mutable_ok :: "config_message \<Rightarrow> bool" where
  "mutable_ok m \<longleftrightarrow>
     (case cm_orig_data m of None \<Rightarrow> False | Some orig \<Rightarrow> wf_dict orig \<and> pruned orig) \<and>
     wf_dict (cm_data m) \<and> unknown_ok (cm_unknown m) \<and> bt_ok (BtDict (cm_unknown m)) \<and>
     in_i64 (cm_seqno m) \<and> lags_ok (cm_seqno m) (cm_lag m + 1) (cm_lagged_diffs m) \<and>
     (\<forall>(sh, d) \<in> set (cm_lagged_diffs m). bt_ok (BtDict d))"

lemma msg_diff_mutable:
  assumes "mutable_ok m" "cm_orig_data m = Some orig"
  obtains df where "msg_diff m = Inr (m\<lparr> cm_verified_signature := None,
       cm_data := fst (prune_dict (cm_data m)), cm_diff := df \<rparr>)"
    "apply_diff orig df (fst (prune_dict (cm_data m))) = Inr (fst (prune_dict (cm_data m)))"
    "valid_diff df" "bt_ok (BtDict df)"
proof -
  let ?d = "fst (prune_dict (cm_data m))"
  have d: "wf_dict ?d" "pruned ?d" and orig: "wf_dict orig" "pruned orig"
    using assms wf_prune_dict [of "cm_data m"] pruned_prune_dict [of "cm_data m"]
    by (auto simp: mutable_ok_def simp del: wf_val.simps)
  obtain df where df: "diff_impl orig ?d = Inr df" "diff_replays orig ?d df"
    using diff_replay_all(1) [OF orig(1) d(1) orig(2) d(2)] by blast
  have "valid_diff df" using diff_impl_valid(1) [OF orig(1) d(1) df(1)] by blast
  moreover from this have "bt_ok (BtDict df)"
    using diff_impl_leaves(1) [OF orig(1) d(1) df(1)] valid_diff_bt_ok by blast
  moreover have "apply_diff orig df ?d = Inr ?d"
    using diff_replays_apply [OF _ _ df(2)] orig(1) d(1) by simp
  ultimately show ?thesis
    using that df(1) assms(2) by (simp add: msg_diff_def Let_def)
qed

lemma edited_loads:
  assumes "codec_ok x" "mutable_ok m" "cm_orig_data m = Some orig"
    and "in_i64 (cm_seqno m - cm_lag m)" "\<forall>f b. cm_signer m = Some f \<longrightarrow> length (f b) = 64"
  shows "\<exists>b m' r. serialize x m en = Inr (b, m') \<and>
     load_message x b None sg (cm_lag m) trust = Inr r \<and>
     cm_data r = fst (prune_dict (cm_data m)) \<and>
     apply_diff orig (cm_diff r) (cm_data r) = Inr (cm_data r) \<and>
     cm_lagged_diffs r = window m \<and> cm_unknown r = cm_unknown m \<and>
     cm_seqno_hash r = (cm_seqno m, blake2b x b) \<and>
     msg_ok r \<and> cm_signer m' = cm_signer m \<and> cm_verifier m' = cm_verifier m"
proof -
  obtain df where df: "msg_diff m = Inr (m\<lparr> cm_verified_signature := None,
       cm_data := fst (prune_dict (cm_data m)), cm_diff := df \<rparr>)" (is "_ = Inr ?m'")
    "apply_diff orig df (fst (prune_dict (cm_data m))) = Inr (fst (prune_dict (cm_data m)))"
    "valid_diff df" "bt_ok (BtDict df)"
    using msg_diff_mutable [OF assms(2,3)] .
  let ?w = "?m'\<lparr> cm_lagged_diffs := window ?m' \<rparr>"
  have lags: "lags_ok (cm_seqno m) (cm_lag m) (window ?m')"
    using lags_ok_window [of ?m' "cm_lag m + 1"] assms(2)
    by (simp add: mutable_ok_def del: valid_diff_val.simps)
  have "msg_ok ?w" "storable ?w" "signatures_ok ?w"
    using assms(2,5) df(3,4) lags wf_prune_dict [of "cm_data m"] pruned_prune_dict [of "cm_data m"]
    by (simp_all add: msg_ok_def storable_def signatures_ok_def mutable_ok_def window_def
        del: wf_val.simps valid_diff_val.simps bt_ok.simps)
  moreover have "in_i64 (cm_seqno ?w - cm_lag ?w)" using assms(4) by simp
  ultimately obtain b sig where b: "serialize_impl x ?w df en = Inr b"
    "load_message x b None sg (cm_lag m) trust = Inr (reloaded ?w (blake2b x b) sig None sg)"
    using serialize_impl_load_unverified [OF assms(1), of ?w en sg trust] by auto
  have "serialize x m en = Inr (b, ?m')"
    using b(1) df(1) by (simp add: serialize_def serialize_impl_window)
  moreover have "window ?m' = window m" by (simp add: window_def)
  moreover have "msg_ok (reloaded ?w (blake2b x b) sig None sg)"
    using \<open>msg_ok ?w\<close> unfolding msg_ok_def reloaded_def by (simp del: wf_val.simps valid_diff_val.simps)
  ultimately show ?thesis using b(2) df(2) by (simp add: reloaded_def)
qed

text \<open>
  C17: an edited message always serializes, whatever the edits did to its data; the loaded message
  has the pruned data, replaying its diff on the data before the edits gives the data after them, and
  the lagged diffs inside the window, the unknown keys and the seqno are the edited message's.
\<close>

theorem edited_then_loaded:
  assumes "codec_ok x" "mutable_ok m" "cm_orig_data m = Some orig"
    and "in_i64 (cm_seqno m - cm_lag m)" "\<forall>f b. cm_signer m = Some f \<longrightarrow> length (f b) = 64"
  shows "\<exists>b m' r. serialize x m en = Inr (b, m') \<and>
     load_message x b None sg (cm_lag m) trust = Inr r \<and>
     cm_data r = fst (prune_dict (cm_data m)) \<and>
     apply_diff orig (cm_diff r) (cm_data r) = Inr (cm_data r) \<and>
     cm_lagged_diffs r = window m \<and> cm_unknown r = cm_unknown m \<and>
     cm_seqno_hash r = (cm_seqno m, blake2b x b)"
  using edited_loads [OF assms, of en sg trust] by blast

section \<open>Incrementing\<close>

lemma smap_ok_dropWhile: "smap_ok m \<Longrightarrow> smap_ok (dropWhile P m)"
  by (induction m) auto

lemma smap_ok_rev_dropWhile: "smap_ok m \<Longrightarrow> smap_ok (rev (dropWhile P (rev m)))"
proof (induction m rule: rev_induct)
  case (snoc p m)
  then show ?case by (auto simp: sorted_wrt_append)
qed simp

lemma increment_impl_lags:
  assumes "lags_ok (cm_seqno m) (cm_lag m) (cm_lagged_diffs m)"
  shows "rev (dropWhile (\<lambda>r. cm_seqno m \<le> fst (fst r)) (rev
      (dropWhile (\<lambda>r. fst (fst r) \<le> cm_seqno m - cm_lag m) (cm_lagged_diffs m)))) = cm_lagged_diffs m"
proof -
  have keep: "seqno - lag < fst (fst r) \<and> fst (fst r) < seqno"
    if "lags_ok seqno lag lags" "r \<in> set lags" for seqno lag lags r
    using that by (auto simp: lags_ok_def)
  then have "dropWhile (\<lambda>r. fst (fst r) \<le> cm_seqno m - cm_lag m) (cm_lagged_diffs m) = cm_lagged_diffs m"
    using assms by (cases "cm_lagged_diffs m") fastforce+
  moreover have "dropWhile (\<lambda>r. cm_seqno m \<le> fst (fst r)) (rev (cm_lagged_diffs m)) = rev (cm_lagged_diffs m)"
    using keep [OF assms] by (cases "rev (cm_lagged_diffs m)") (auto, metis list.set_intros(1) not_le set_rev)
  ultimately show ?thesis by simp
qed

lemma lags_ok_put:
  "lags_ok seqno lag lags \<Longrightarrow> in_i64 seqno \<Longrightarrow> length h = 32 \<Longrightarrow> valid_diff d \<Longrightarrow> 0 < lag \<Longrightarrow>
   lags_ok (seqno + 1) (lag + 1) (smap_put (seqno, h) d lags)"
  by (force simp: lags_ok_def simp del: valid_diff_val.simps dest: smap_put_values)

text \<open>
  Incrementing a loaded message gives an editable message with the next seqno, whose
  original data is the message's data and whose lagged diffs are the message's with its own diff added
  under its seqno and hash. All of them are kept: the one entry that falls out of the new window is
  only left out on serialization.
\<close>

theorem increment_makes_editable:
  assumes "msg_ok m" "storable m" "cm_orig_data m = None" "length (snd (cm_seqno_hash m)) = 32"
    and "0 < cm_lag m" "in_i64 (cm_seqno m - cm_lag m)" "in_i64 (cm_seqno m + 1)"
  shows "\<exists>m'. increment x m = Inr m' \<and> mutable_ok m' \<and> cm_orig_data m' = Some (cm_data m) \<and>
     cm_data m' = cm_data m \<and> cm_seqno m' = cm_seqno m + 1 \<and>
     map_of (cm_lagged_diffs m') = (map_of (cm_lagged_diffs m))(cm_seqno_hash m \<mapsto> cm_diff m)"
proof -
  let ?lags = "smap_emplace (cm_seqno_hash m) (cm_diff m) (cm_lagged_diffs m)"
  have m: "wf_dict (cm_data m)" "pruned (cm_data m)" "valid_diff (cm_diff m)"
    "unknown_ok (cm_unknown m)" "in_i64 (cm_seqno m)"
    "lags_ok (cm_seqno m) (cm_lag m) (cm_lagged_diffs m)"
    using assms(1) by (auto simp: msg_ok_def simp del: valid_diff_val.simps wf_val.simps)
  have new: "map_of (cm_lagged_diffs m) (cm_seqno_hash m) = None"
    using m(6) by (force simp: lags_ok_def map_of_eq_None_iff)
  then have lags: "?lags = smap_put (cm_seqno_hash m) (cm_diff m) (cm_lagged_diffs m)"
    by (simp add: smap_emplace_def)
  have inc: "increment x m = Inr (m\<lparr> cm_orig_data := Some (cm_data m), cm_lagged_diffs := ?lags,
      cm_seqno_hash := (cm_seqno m + 1, zero_hash), cm_diff := [] \<rparr>)" (is "_ = Inr ?m'")
    using assms(3,6,7) increment_impl_lags [OF m(6)]
    by (simp add: increment_def msg_hash_def increment_impl_def Let_def)
  have "lags_ok (cm_seqno m + 1) (cm_lag m + 1) ?lags"
    using lags_ok_put [OF m(6,5) assms(4) m(3) assms(5)] unfolding lags by simp
  moreover have "\<forall>(sh, d) \<in> set ?lags. bt_ok (BtDict d)"
    using assms(2) unfolding lags storable_def by (auto simp del: bt_ok.simps dest!: smap_put_values)
  ultimately have "mutable_ok ?m'"
    using m assms(2,7) by (simp add: mutable_ok_def storable_def del: bt_ok.simps valid_diff_val.simps wf_val.simps)
  moreover have "map_of ?lags = (map_of (cm_lagged_diffs m))(cm_seqno_hash m \<mapsto> cm_diff m)"
    using m(6) unfolding lags lags_ok_def by (simp add: smap_simps)
  ultimately show ?thesis using inc by simp
qed

end
