(* ===== verification/Bencode.thy ===== *)
theory Bencode
  imports Config_Roundtrip
begin

text \<open>
  A reference implementation of the bencode format, used to instantiate the library parameters
  (\<^const>\<open>codec_ok\<close>) at concrete messages: integers \<open>i...e\<close>, strings \<open>length:bytes\<close>, lists \<open>l...e\<close>
  and dicts \<open>d...e\<close>. The reader takes as fuel the length of its input, which is enough because every
  value is at least two bytes long (\<open>read_write\<close>).
\<close>

section \<open>Decimal numbers\<close>

fun digits :: "nat \<Rightarrow> string" where
  "digits n = (if n < 10 then [char_of (48 + n)] else digits (n div 10) @ [char_of (48 + n mod 10)])"

declare digits.simps [simp del]

definition is_digit :: "char \<Rightarrow> bool" where
  "is_digit c \<longleftrightarrow> 48 \<le> (of_char c :: nat) \<and> (of_char c :: nat) \<le> 57"

fun read_nat :: "nat \<Rightarrow> string \<Rightarrow> nat \<times> string" where
  "read_nat acc [] = (acc, [])"
| "read_nat acc (c # cs) =
     (if is_digit c then read_nat (acc * 10 + (of_char c - 48)) cs else (acc, c # cs))"

lemma is_digit_char_of: "(n::nat) < 10 \<Longrightarrow> is_digit (char_of (48 + n))"
  by (simp add: is_digit_def)

lemma digits_not_Nil [simp]: "digits n \<noteq> []"
  by (subst digits.simps) simp

lemma digits_hd: "is_digit (hd (digits n))"
proof (induction n rule: digits.induct)
  case (1 n)
  show ?case
    by (subst digits.simps) (use 1 in \<open>auto simp: is_digit_char_of\<close>)
qed

lemma read_nat_digits:
  "\<exists>k. \<forall>a rest. read_nat a (digits n @ rest) = read_nat (a * 10 ^ k + n) rest"
proof (induction n rule: digits.induct)
  case (1 n)
  show ?case
  proof (cases "n < 10")
    case True
    then have "read_nat a (digits n @ rest) = read_nat (a * 10 ^ 1 + n) rest" for a rest
      by (subst digits.simps) (simp add: is_digit_def)
    then show ?thesis by blast
  next
    case False
    then obtain k where k: "\<And>a rest. read_nat a (digits (n div 10) @ rest) = read_nat (a * 10 ^ k + n div 10) rest"
      using 1 by blast
    have "read_nat a (digits n @ rest) = read_nat (a * 10 ^ Suc k + n) rest" for a rest
    proof -
      have n: "n div 10 * 10 + n mod 10 = n" "n mod 10 < 10" by simp_all
      have "read_nat a (digits n @ rest) = read_nat ((a * 10 ^ k + n div 10) * 10 + n mod 10) rest"
        using False n(2) by (subst digits.simps) (simp add: k is_digit_char_of)
      also have "(a * 10 ^ k + n div 10) * 10 + n mod 10 = a * 10 ^ Suc k + n"
        using n(1) by (simp add: algebra_simps)
      finally show ?thesis .
    qed
    then show ?thesis by blast
  qed
qed

lemma read_nat_number: "\<not> is_digit c \<Longrightarrow> read_nat 0 (digits n @ c # rest) = (n, c # rest)"
  using read_nat_digits [of n] by (metis add_0 mult_zero_left read_nat.simps(2))

section \<open>Values\<close>

fun bt_write :: "bt_value \<Rightarrow> bytes" where
  "bt_write (BtInt i) =
     ''i'' @ (if i < 0 then CHR ''-'' # digits (nat (- i)) else digits (nat i)) @ ''e''"
| "bt_write (BtStr s) = digits (length s) @ '':'' @ s"
| "bt_write (BtList l) = ''l'' @ concat (map bt_write l) @ ''e''"
| "bt_write (BtDict d) =
     ''d'' @ concat (map (\<lambda>(k, v). digits (length k) @ '':'' @ k @ bt_write v) d) @ ''e''"

definition read_str :: "bytes \<Rightarrow> (string \<times> bytes) option" where
  "read_str b =
     (case read_nat 0 b of
        (n, CHR '':'' # rest) \<Rightarrow>
          if b \<noteq> [] \<and> is_digit (hd b) \<and> n \<le> length rest then Some (take n rest, drop n rest) else None
      | _ \<Rightarrow> None)"

definition read_int :: "bytes \<Rightarrow> (int \<times> bytes) option" where
  "read_int b =
     (case b of
        [] \<Rightarrow> None
      | c # cs \<Rightarrow>
          let neg = (c = CHR ''-''); ds = (if neg then cs else b) in
          case read_nat 0 ds of
            (n, CHR ''e'' # rest) \<Rightarrow>
              if ds \<noteq> [] \<and> is_digit (hd ds) then Some (if neg then - int n else int n, rest) else None
          | _ \<Rightarrow> None)"

fun read_val :: "nat \<Rightarrow> bytes \<Rightarrow> (bt_value \<times> bytes) option"
  and read_list :: "nat \<Rightarrow> bytes \<Rightarrow> (bt_list \<times> bytes) option"
  and read_dict :: "nat \<Rightarrow> bytes \<Rightarrow> (bt_dict \<times> bytes) option" where
  "read_val 0 b = None"
| "read_val (Suc f) b =
     (case b of
        [] \<Rightarrow> None
      | c # cs \<Rightarrow>
          if c = CHR ''i'' then map_option (\<lambda>(i, r). (BtInt i, r)) (read_int cs)
          else if c = CHR ''l'' then map_option (\<lambda>(l, r). (BtList l, r)) (read_list f cs)
          else if c = CHR ''d'' then map_option (\<lambda>(d, r). (BtDict d, r)) (read_dict f cs)
          else map_option (\<lambda>(s, r). (BtStr s, r)) (read_str b))"
| "read_list 0 b = None"
| "read_list (Suc f) b =
     (case b of
        [] \<Rightarrow> None
      | c # cs \<Rightarrow>
          if c = CHR ''e'' then Some ([], cs)
          else case read_val f b of
              None \<Rightarrow> None
            | Some (v, r) \<Rightarrow> map_option (\<lambda>(l, r). (v # l, r)) (read_list f r))"
| "read_dict 0 b = None"
| "read_dict (Suc f) b =
     (case b of
        [] \<Rightarrow> None
      | c # cs \<Rightarrow>
          if c = CHR ''e'' then Some ([], cs)
          else case read_str b of
              None \<Rightarrow> None
            | Some (k, r) \<Rightarrow>
                (case read_val f r of
                   None \<Rightarrow> None
                 | Some (v, r) \<Rightarrow> map_option (\<lambda>(d, r). ((k, v) # d, r)) (read_dict f r)))"

text \<open>As with the consumers of the oxenc library, what follows the value is not looked at.\<close>

definition bt_read :: "bytes \<Rightarrow> bt_value option" where
  "bt_read b = map_option fst (read_val (length b) b)"

section \<open>Reading back what was written\<close>

lemma not_digit [simp]:
  "\<not> is_digit CHR '':''" "\<not> is_digit CHR ''e''" "\<not> is_digit CHR ''-''" "\<not> is_digit CHR ''i''"
  "\<not> is_digit CHR ''l''" "\<not> is_digit CHR ''d''"
  by (simp_all add: is_digit_def)

lemma hd_digits_append [simp]: "hd (digits n @ r) = hd (digits n)"
  by simp

lemma read_str_write: "read_str (digits (length s) @ CHR '':'' # s @ rest) = Some (s, rest)"
  using digits_hd [of "length s"] by (simp add: read_str_def read_nat_number)

lemma digits_Cons: "\<exists>c cs. digits n = c # cs \<and> is_digit c"
  using digits_hd [of n] by (cases "digits n") auto

lemma read_int_write:
  "read_int ((if i < 0 then CHR ''-'' # digits (nat (- i)) else digits (nat i)) @ CHR ''e'' # rest) =
   Some (i, rest)"
proof (cases "i < 0")
  case True
  then show ?thesis
    using digits_hd [of "nat (- i)"] by (simp add: read_int_def read_nat_number)
next
  case False
  obtain c cs where c: "digits (nat i) = c # cs" "is_digit c" using digits_Cons by blast
  then have "c \<noteq> CHR ''-''" by auto
  then show ?thesis
    using False c read_nat_number [of "CHR ''e''" "nat i" rest] by (simp add: read_int_def)
qed

lemma bt_write_length: "2 \<le> length (bt_write v)"
  by (cases v) (auto simp: Suc_le_eq)

lemma bt_write_Cons: "\<exists>c cs. bt_write v = c # cs \<and> c \<noteq> CHR ''e''"
proof (cases v)
  case (BtStr s)
  obtain c cs where "digits (length s) = c # cs" "is_digit c" using digits_Cons by blast
  moreover from this have "c \<noteq> CHR ''e''" by auto
  ultimately show ?thesis using BtStr by simp
qed simp_all

lemma read_list_write:
  assumes "\<And>v f rest. v \<in> set l \<Longrightarrow> length (bt_write v) \<le> f \<Longrightarrow>
      read_val f (bt_write v @ rest) = Some (v, rest)"
  shows "length (concat (map bt_write l)) < f \<Longrightarrow>
     read_list f (concat (map bt_write l) @ CHR ''e'' # rest) = Some (l, rest)"
  using assms
proof (induction l arbitrary: f)
  case Nil
  then show ?case by (cases f) auto
next
  case (Cons v l)
  then obtain f' where f: "f = Suc f'" by (cases f) auto
  obtain c cs where c: "bt_write v = c # cs" "c \<noteq> CHR ''e''" using bt_write_Cons by blast
  have "read_val f' (bt_write v @ r) = Some (v, r)" for r
    using Cons.prems f by auto
  moreover have "read_list f' (concat (map bt_write l) @ CHR ''e'' # rest) = Some (l, rest)"
    using Cons.prems f bt_write_length [of v] by (intro Cons.IH) auto
  ultimately show ?case using c f by (auto split: option.split)
qed

lemma read_write:
  "length (bt_write v) \<le> f \<Longrightarrow> read_val f (bt_write v @ rest) = Some (v, rest)"
  "length (concat (map (\<lambda>(k, v). digits (length k) @ '':'' @ k @ bt_write v) d)) < f \<Longrightarrow>
   read_dict f (concat (map (\<lambda>(k, v). digits (length k) @ '':'' @ k @ bt_write v) d) @ CHR ''e'' # rest) =
     Some (d, rest)"
proof (induction v and d arbitrary: f rest and f rest rule: bt_tree_induct)
  case (BtInt i)
  then show ?case using read_int_write [of i rest] by (cases f) auto
next
  case (BtStr s)
  obtain c cs where c: "digits (length s) = c # cs" "is_digit c" using digits_Cons by blast
  then have "c \<noteq> CHR ''i''" "c \<noteq> CHR ''l''" "c \<noteq> CHR ''d''" by auto
  then show ?case using BtStr c read_str_write [of s rest] by (cases f) auto
next
  case (BtList l)
  then show ?case using read_list_write [of l "f - 1" rest] by (cases f) auto
next
  case (BtDict d)
  then show ?case by (cases f) auto
next
  case Nil
  then show ?case by (cases f) auto
next
  case (Cons k v d)
  let ?w = "concat (map (\<lambda>(k, v). digits (length k) @ '':'' @ k @ bt_write v) d)"
  obtain f' where f: "f = Suc f'" using Cons.prems by (cases f) auto
  obtain c cs where c: "digits (length k) = c # cs" "is_digit c" using digits_Cons by blast
  then have "c \<noteq> CHR ''e''" by auto
  moreover have "read_str (c # cs @ CHR '':'' # k @ r) = Some (k, r)" for r
    using c read_str_write [of k r] by simp
  moreover have "read_val f' (bt_write v @ r) = Some (v, r)" for r
    using Cons.IH(1) [of f' r] Cons.prems f by simp
  moreover have "read_dict f' (?w @ CHR ''e'' # rest) = Some (d, rest)"
    using Cons.IH(2) [of f' rest] Cons.prems f by simp
  ultimately show ?case using c f by simp
qed

lemma bt_read_prefix: "bt_read (bt_write v @ rest) = Some v"
  using read_write(1) [of v "length (bt_write v @ rest)" rest] by (simp add: bt_read_def)

lemma bt_read_write: "bt_read (bt_write v) = Some v"
  using bt_read_prefix [of v "[]"] by simp

section \<open>The instance\<close>

definition open_dict :: "bt_dict \<Rightarrow> bytes" where
  "open_dict d = butlast (bt_write (BtDict d))"

definition signed_part :: "bytes \<Rightarrow> bytes" where
  "signed_part raw =
     (case bt_read raw of
        Some (BtDict d) \<Rightarrow> open_dict (takeWhile (\<lambda>p. fst p \<noteq> ''~'') d)
      | _ \<Rightarrow> [])"

definition ref_libs :: "(bytes \<Rightarrow> bytes) \<Rightarrow> libs" where
  "ref_libs h = \<lparr> bt_encode = bt_write, bt_decode = bt_read, bt_to_verify = signed_part,
                  bt_to_sign = open_dict, blake2b = h \<rparr>"

lemma ref_libs_simps [simp]:
  "bt_encode (ref_libs h) = bt_write" "bt_decode (ref_libs h) = bt_read"
  "bt_to_verify (ref_libs h) = signed_part" "bt_to_sign (ref_libs h) = open_dict"
  "blake2b (ref_libs h) = h"
  by (simp_all add: ref_libs_def)

theorem codec_ok_ref: "codec_ok (ref_libs h)"
proof -
  have "signed_part (bt_write (BtDict (d @ [(''~'', BtStr sig)]))) = open_dict d"
    if "smap_ok (d @ [(''~'', BtStr sig)])" for d sig
  proof -
    have "takeWhile (\<lambda>p. fst p \<noteq> ''~'') (d @ [(''~'', BtStr sig)]) = d"
      using that by (subst takeWhile_append2) (auto simp: sorted_wrt_append)
    then show ?thesis by (simp add: signed_part_def bt_read_write del: bt_write.simps)
  qed
  moreover have "\<exists>rest. bt_write (BtDict d) = CHR ''d'' # rest" for d by simp
  ultimately show ?thesis
    unfolding codec_ok_def ref_libs_simps bt_read_write by (auto simp del: bt_write.simps)
qed

end
