(* ===== verification/Config_Merge.thy ===== *)
theory Config_Merge
  imports Bencode
begin

text \<open>
  The merge of several config messages (\<open>ConfigMessage(serialized_confs, ...)\<close>): which messages are
  redundant, and that the choice and the result do not depend on the order or the number of copies of the
  messages. What the replay of the diffs does to the data is shown in \<open>Config_Replay\<close>.
\<close>

section \<open>Redundant messages\<close>

lemma max_seqno_fold:
  fixes ms a
  defines "r \<equiv> fold (\<lambda>m s. if s < cm_seqno m then cm_seqno m else s) ms a"
  shows "r \<in> insert a (cm_seqno ` set ms) \<and> (\<forall>x \<in> insert a (cm_seqno ` set ms). x \<le> r)"
  unfolding r_def by (induction ms arbitrary: a) (fastforce split: if_splits)+

lemma max_seqno_set: "max_seqno ms = Max (insert (- (2 ^ 63)) (cm_seqno ` set ms))"
  unfolding max_seqno_def using max_seqno_fold by (intro Max_eqI [symmetric]) auto

lemma max_seqno_ge: "m \<in> set ms \<Longrightarrow> cm_seqno m \<le> max_seqno ms"
  by (simp add: max_seqno_set)

lemma max_seqno_attained:
  assumes "ms \<noteq> []" "\<forall>m \<in> set ms. in_i64 (cm_seqno m)"
  shows "\<exists>m \<in> set ms. cm_seqno m = max_seqno ms"
proof -
  obtain m where m: "m \<in> set ms" using assms(1) by (cases ms) auto
  then have "cm_seqno m \<le> Max (cm_seqno ` set ms)" by simp
  moreover have "- (2 ^ 63) \<le> cm_seqno m" using m assms(2) by (simp add: in_i64_def)
  ultimately have "- (2 ^ 63) \<le> Max (cm_seqno ` set ms)" by (rule order.trans [rotated])
  then have "max_seqno ms = Max (cm_seqno ` set ms)"
    using assms(1) by (simp add: max_seqno_set max.absorb2)
  moreover have "Max (cm_seqno ` set ms) \<in> cm_seqno ` set ms" using assms(1) by (intro Max_in) auto
  ultimately show ?thesis by force
qed

definition redundant :: "config_message list \<Rightarrow> int \<Rightarrow> nat \<Rightarrow> bool" where
  "redundant ms lag i \<longleftrightarrow>
     list_ex (makes_redundant ms i) [0..<length ms] \<or> cm_seqno (ms ! i) + lag \<le> max_seqno ms"

lemma redundant_flags_ok:
  assumes "\<forall>m \<in> set ms. in_i64 (cm_seqno m + lag)"
  shows "redundant_flags ms lag = Inr (map (redundant ms lag) [0..<length ms])"
  unfolding redundant_flags_def by (rule res_map_ok) (use assms in \<open>auto simp: redundant_def\<close>)

text \<open>The messages that a merge keeps, as a set: no other message has them among its lagged diffs,
  and they are within the lag of the highest seqno.\<close>

definition live :: "config_message list \<Rightarrow> int \<Rightarrow> config_message set" where
  "live ms lag = {m \<in> set ms. (\<forall>m' \<in> set ms. cm_seqno_hash m \<notin> fst ` set (cm_lagged_diffs m')) \<and>
     max_seqno ms < cm_seqno m + lag}"

definition lags_below :: "config_message \<Rightarrow> bool" where
  "lags_below m \<longleftrightarrow> (\<forall>((s, h), d) \<in> set (cm_lagged_diffs m). s < cm_seqno m)"

lemma msg_ok_lags_below: "msg_ok m \<Longrightarrow> lags_below m"
  by (auto simp: msg_ok_def lags_ok_def lags_below_def)

lemma lags_below_self: "lags_below m \<Longrightarrow> cm_seqno_hash m \<notin> fst ` set (cm_lagged_diffs m)"
  by (force simp: lags_below_def)

definition kept_indices :: "config_message list \<Rightarrow> int \<Rightarrow> nat list" where
  "kept_indices ms lag = filter (\<lambda>i. \<not> redundant ms lag i) [0..<length ms]"

lemma kept_nth: "kept ms (map (redundant ms lag) [0..<length ms]) = map ((!) ms) (kept_indices ms lag)"
proof -
  have zip: "zip ms (map f [0..<length ms]) = map (\<lambda>i. (ms ! i, f i)) [0..<length ms]"
    for f :: "nat \<Rightarrow> bool"
    by (rule nth_equalityI) auto
  show ?thesis
    unfolding kept_def zip filter_map kept_indices_def by (simp add: comp_def)
qed

lemma redundant_iff:
  assumes "\<forall>m \<in> set ms. lags_below m" "i < length ms"
  shows "\<not> redundant ms lag i \<longleftrightarrow> ms ! i \<in> live ms lag \<and>
     (\<forall>j < i. cm_seqno_hash (ms ! j) \<noteq> cm_seqno_hash (ms ! i))"
proof -
  have self: "cm_seqno_hash (ms ! i) \<notin> fst ` set (cm_lagged_diffs (ms ! i))"
    using assms by (simp add: lags_below_self)
  have "(\<exists>j < length ms. j \<noteq> i \<and> cm_seqno_hash (ms ! i) \<in> fst ` set (cm_lagged_diffs (ms ! j))) \<longleftrightarrow>
      (\<exists>m \<in> set ms. cm_seqno_hash (ms ! i) \<in> fst ` set (cm_lagged_diffs m))"
    using self by (metis in_set_conv_nth)
  moreover have "list_ex (makes_redundant ms i) [0..<length ms] \<longleftrightarrow>
      (\<exists>j < length ms. j \<noteq> i \<and> cm_seqno_hash (ms ! i) \<in> fst ` set (cm_lagged_diffs (ms ! j))) \<or>
      (\<exists>j < i. cm_seqno_hash (ms ! j) = cm_seqno_hash (ms ! i))"
    using assms(2) by (auto simp: list_ex_iff makes_redundant_def Bex_def) (metis less_irrefl less_trans)
  ultimately show ?thesis
    using assms(2) by (auto simp: redundant_def live_def)
qed

lemma first_index:
  assumes "m \<in> set ms"
  shows "\<exists>i < length ms. f (ms ! i) = f m \<and> (\<forall>j < i. f (ms ! j) \<noteq> f m)"
proof -
  define P where "P i \<longleftrightarrow> i < length ms \<and> f (ms ! i) = f m" for i
  obtain i where "P i" using assms by (auto simp: P_def in_set_conv_nth)
  then have "P (LEAST i. P i)" by (rule LeastI)
  moreover have "j < (LEAST i. P i) \<Longrightarrow> \<not> P j" for j by (rule not_less_Least)
  ultimately show ?thesis unfolding P_def by (metis order.strict_trans)
qed

lemma kept_set:
  assumes "\<forall>m \<in> set ms. lags_below m" "inj_on cm_seqno_hash (set ms)"
  shows "set (map ((!) ms) (kept_indices ms lag)) = live ms lag"
proof (intro equalityI subsetI)
  fix m assume "m \<in> set (map ((!) ms) (kept_indices ms lag))"
  then obtain i where "i < length ms" "\<not> redundant ms lag i" "m = ms ! i"
    by (auto simp: kept_indices_def)
  then show "m \<in> live ms lag" using redundant_iff [OF assms(1)] by simp
next
  fix m assume m: "m \<in> live ms lag"
  then have "m \<in> set ms" by (simp add: live_def)
  then obtain i where i: "i < length ms" "cm_seqno_hash (ms ! i) = cm_seqno_hash m"
    "\<forall>j < i. cm_seqno_hash (ms ! j) \<noteq> cm_seqno_hash m"
    using first_index [of m ms cm_seqno_hash] by blast
  then have "ms ! i = m" using assms(2) \<open>m \<in> set ms\<close> by (meson inj_onD nth_mem)
  then show "m \<in> set (map ((!) ms) (kept_indices ms lag))"
    using i m redundant_iff [OF assms(1) i(1), of lag] by (auto simp: kept_indices_def)
qed

lemma kept_distinct:
  assumes "\<forall>m \<in> set ms. lags_below m"
  shows "distinct (map (cm_seqno_hash \<circ> (!) ms) (kept_indices ms lag))"
proof -
  have "inj_on (cm_seqno_hash \<circ> (!) ms) (set (kept_indices ms lag))"
  proof (rule inj_onI)
    fix i j
    assume "i \<in> set (kept_indices ms lag)" "j \<in> set (kept_indices ms lag)"
      "(cm_seqno_hash \<circ> (!) ms) i = (cm_seqno_hash \<circ> (!) ms) j"
    then show "i = j"
      using redundant_iff [OF assms, of i lag] redundant_iff [OF assms, of j lag]
      by (cases i j rule: linorder_cases) (auto simp: kept_indices_def)
  qed
  then show ?thesis by (simp add: distinct_map kept_indices_def)
qed

section \<open>Order independence\<close>

lemma sort_configs_unique:
  assumes "set xs = set ys" "distinct (map cm_seqno_hash xs)" "distinct (map cm_seqno_hash ys)"
  shows "sort_configs xs = sort_configs ys"
proof -
  have "sort_key cm_seqno_hash xs = sort_key cm_seqno_hash ys"
    by (rule map_sorted_distinct_set_unique [of cm_seqno_hash])
      (use assms in \<open>auto simp: distinct_map\<close>)
  then show ?thesis by (simp add: sort_configs_def)
qed

lemma merge_kept_unique:
  "set xs = set ys \<Longrightarrow> distinct (map cm_seqno_hash xs) \<Longrightarrow> distinct (map cm_seqno_hash ys) \<Longrightarrow>
   merge_kept x vf sg lag highest xs = merge_kept x vf sg lag highest ys"
  using sort_configs_unique [of xs ys] by (simp add: merge_kept_def)

lemma find_index_first: "find_index P xs = Some i \<Longrightarrow> i < length xs \<and> P (xs ! i)"
  by (induction xs arbitrary: i) (auto split: if_splits)

lemma find_index_None: "find_index P xs = None \<longleftrightarrow> (\<forall>x \<in> set xs. \<not> P x)"
  by (induction xs) auto

lemma max_element_max:
  assumes "\<And>a b. lt a b \<longleftrightarrow> (key a :: 'k :: linorder) < key b"
  shows "max_element lt best xs \<in> insert best (set xs) \<and>
     (\<forall>y \<in> insert best (set xs). key y \<le> key (max_element lt best xs))"
proof (induction xs arbitrary: best)
  case (Cons x xs)
  show ?case
  proof (cases "lt best x")
    case True
    then show ?thesis using Cons.IH [of x] assms by auto
  next
    case False
    then show ?thesis using Cons.IH [of best] assms by auto
  qed
qed simp

lemma best_is_max:
  fixes ms lag
  defines "flags \<equiv> map (redundant ms lag) [0..<length ms]"
  defines "best \<equiv> max_element (best_less ms flags) 0 [1..<length ms]"
  assumes "\<forall>m \<in> set ms. lags_below m" "inj_on cm_seqno_hash (set ms)" "live ms lag \<noteq> {}"
  shows "ms ! best \<in> live ms lag \<and> (\<forall>m \<in> live ms lag. cm_seqno_hash m \<le> cm_seqno_hash (ms ! best))"
proof -
  define key where "key i = (\<not> flags ! i, cm_seqno_hash (ms ! i))" for i
  have "best_less ms flags a b \<longleftrightarrow> key a < key b" for a b
    by (auto simp: best_less_def key_def less_bool_def)
  then have max: "best \<in> insert 0 (set [1..<length ms])" "\<forall>i \<in> insert 0 (set [1..<length ms]). key i \<le> key best"
    using max_element_max [of "best_less ms flags" key 0 "[1..<length ms]"] by (simp_all add: best_def)
  obtain m where m: "m \<in> live ms lag" using assms(5) by blast
  then have pos: "0 < length ms" by (auto simp: live_def)
  have key_max: "key i \<le> key best" if "i < length ms" for i
    using max(2) that by (cases i) auto
  have best: "best < length ms" using max(1) pos by auto
  have above: "\<not> flags ! best \<and> cm_seqno_hash m \<le> cm_seqno_hash (ms ! best)" if m: "m \<in> live ms lag" for m
  proof -
    obtain i where i: "i < length ms" "\<not> redundant ms lag i" "ms ! i = m"
      using m kept_set [OF assms(3,4), of lag, symmetric] by (auto simp: kept_indices_def)
    then have "key i \<le> key best" "\<not> flags ! i" using key_max by (simp_all add: flags_def)
    then show ?thesis using i(3) by (auto simp: key_def less_bool_def le_bool_def)
  qed
  then have "ms ! best \<in> live ms lag"
    using m best redundant_iff [OF assms(3) best, of lag] by (auto simp: flags_def)
  with above show ?thesis by blast
qed

text \<open>A message up to the position it was found at.\<close>

definition forget_index :: "config_message res \<Rightarrow> config_message res" where
  "forget_index r = map_sum id (\<lambda>m. m\<lparr> cm_unmerged := map_option (\<lambda>_. 0) (cm_unmerged m) \<rparr>) r"

text \<open>What a merge does, as a function of the set of kept messages.\<close>

definition merge_live ::
  "libs \<Rightarrow> verify_callable \<Rightarrow> sign_callable \<Rightarrow> int \<Rightarrow> int \<Rightarrow> config_message set \<Rightarrow> config_message res \<Rightarrow> bool" where
  "merge_live x vf sg lag highest L r \<longleftrightarrow>
     (if card L = 0 then r = Inl Assertion_failed
      else if card L = 1 \<or> (vf \<noteq> None \<and> sg = None) then
        \<exists>m \<in> L. (\<forall>m' \<in> L. cm_seqno_hash m' \<le> cm_seqno_hash m) \<and> r = Inr (m\<lparr> cm_unmerged := Some 0 \<rparr>)
      else \<exists>confs. set confs = L \<and> distinct (map cm_seqno_hash confs) \<and>
        r = forget_index (merge_kept x vf sg lag highest confs))"

lemma merge_messages_live:
  assumes "ms \<noteq> []" "\<forall>m \<in> set ms. lags_below m" "inj_on cm_seqno_hash (set ms)"
    and "\<forall>m \<in> set ms. in_i64 (cm_seqno m + lag)"
  shows "merge_live x vf sg lag (max_seqno ms) (live ms lag) (forget_index (merge_messages x vf sg lag ms))"
proof -
  define flags where "flags = map (redundant ms lag) [0..<length ms]"
  let ?k = "map ((!) ms) (kept_indices ms lag)"
  have flags: "redundant_flags ms lag = Inr flags" unfolding flags_def by (rule redundant_flags_ok) (fact assms(4))
  have dist: "distinct (map cm_seqno_hash ?k)" using kept_distinct [OF assms(2)] by simp
  have set: "set ?k = live ms lag" by (rule kept_set) (use assms in auto)
  have "card (live ms lag) = length ?k"
    using dist set distinct_card [of ?k] distinct_map by metis
  then have len: "length (filter Not flags) = card (live ms lag)"
    by (simp add: flags_def kept_indices_def filter_map comp_def)
  consider "card (live ms lag) = 0" | "card (live ms lag) = 1"
    | "1 < card (live ms lag)" "vf \<noteq> None \<and> sg = None" | "1 < card (live ms lag)" "\<not> (vf \<noteq> None \<and> sg = None)"
    by linarith
  then show ?thesis
  proof cases
    case 1
    then show ?thesis using assms(1) flags len by (simp add: merge_messages_def merge_live_def forget_index_def)
  next
    case 2
    then obtain m where m: "live ms lag = {m}" using card_1_singletonE by blast
    have "find_index Not flags \<noteq> None"
      using len 2 by (metis find_index_None filter_False length_0_conv zero_neq_one)
    then obtain i where i: "find_index Not flags = Some i" by blast
    then have "i < length ms" "\<not> redundant ms lag i" using find_index_first [OF i] by (auto simp: flags_def)
    then have "ms ! i = m" using redundant_iff [OF assms(2), of i lag] m by simp
    then show ?thesis
      using assms(1) flags len 2 i m by (auto simp: merge_messages_def merge_live_def forget_index_def)
  next
    case 3
    then have "live ms lag \<noteq> {}" by auto
    with 3 show ?thesis
      using assms(1) flags len best_is_max [OF assms(2,3), of lag, folded flags_def]
      by (auto simp: merge_messages_def merge_live_def forget_index_def Let_def)
  next
    case 4
    then show ?thesis
      using assms(1) flags len dist set kept_nth [of ms lag, folded flags_def]
      by (auto simp: merge_messages_def merge_live_def Let_def simp del: set_map)
  qed
qed

lemma merge_live_unique:
  assumes "merge_live x vf sg lag h L r" "merge_live x vf sg lag h L r'" "inj_on cm_seqno_hash L"
  shows "r = r'"
proof (cases "card L = 1 \<or> (vf \<noteq> None \<and> sg = None)")
  case True
  show ?thesis
  proof (cases "card L = 0")
    case False
    with True assms(1,2) obtain m m' where m: "m \<in> L" "\<forall>n \<in> L. cm_seqno_hash n \<le> cm_seqno_hash m"
      "r = Inr (m\<lparr> cm_unmerged := Some 0 \<rparr>)" and m': "m' \<in> L"
      "\<forall>n \<in> L. cm_seqno_hash n \<le> cm_seqno_hash m'" "r' = Inr (m'\<lparr> cm_unmerged := Some 0 \<rparr>)"
      unfolding merge_live_def by auto
    then have "cm_seqno_hash m = cm_seqno_hash m'" by (simp add: order.antisym)
    then have "m = m'" using assms(3) m(1) m'(1) by (simp add: inj_on_eq_iff)
    with m(3) m'(3) show ?thesis by simp
  qed (use assms(1,2) in \<open>simp add: merge_live_def\<close>)
next
  case False
  with assms(1,2) consider "r = Inl Assertion_failed" "r' = Inl Assertion_failed"
    | xs ys where "set xs = L" "set ys = L" "distinct (map cm_seqno_hash xs)" "distinct (map cm_seqno_hash ys)"
      "r = forget_index (merge_kept x vf sg lag h xs)" "r' = forget_index (merge_kept x vf sg lag h ys)"
    unfolding merge_live_def by (cases "card L = 0") auto
  then show ?thesis using merge_kept_unique by cases metis+
qed

lemma live_cong: "set ms = set ms' \<Longrightarrow> live ms lag = live ms' lag \<and> max_seqno ms = max_seqno ms'"
  by (simp add: live_def max_seqno_set)

lemma live_nonempty:
  assumes "ms \<noteq> []" "\<forall>m \<in> set ms. lags_below m" "\<forall>m \<in> set ms. in_i64 (cm_seqno m)" "0 < lag"
  shows "live ms lag \<noteq> {}"
proof -
  obtain m where m: "m \<in> set ms" "cm_seqno m = max_seqno ms"
    using max_seqno_attained [OF assms(1,3)] by blast
  have "cm_seqno_hash m \<notin> fst ` set (cm_lagged_diffs m')" if "m' \<in> set ms" for m'
    using assms(2) that max_seqno_ge [OF that] m(2) by (force simp: lags_below_def)
  then have "m \<in> live ms lag" using m assms(4) by (simp add: live_def)
  then show ?thesis by blast
qed

text \<open>
  C1: merging does not depend on the order in which the config messages arrive, nor on how many
  copies of a message there are: two lists with the same messages merge to the same result (the
  position at which a single surviving message was found apart). Two messages are the same when their
  seqno and hash are, and a message only lists diffs of lower seqnos, as loading ensures.
\<close>

theorem merge_order_independent:
  assumes "set ms = set ms'" "inj_on cm_seqno_hash (set ms)" "\<forall>m \<in> set ms. lags_below m"
    and "\<forall>m \<in> set ms. in_i64 (cm_seqno m + lag)"
  shows "forget_index (merge_messages x vf sg lag ms) = forget_index (merge_messages x vf sg lag ms')"
proof (cases "ms = []")
  case False
  then have "ms' \<noteq> []" using assms(1) by auto
  show ?thesis
  proof (rule merge_live_unique)
    show "merge_live x vf sg lag (max_seqno ms) (live ms lag) (forget_index (merge_messages x vf sg lag ms))"
      by (rule merge_messages_live) (use False assms in auto)
    show "merge_live x vf sg lag (max_seqno ms) (live ms lag) (forget_index (merge_messages x vf sg lag ms'))"
      using merge_messages_live [of ms' lag x vf sg] \<open>ms' \<noteq> []\<close> assms live_cong [OF assms(1), of lag] by simp
    show "inj_on cm_seqno_hash (live ms lag)"
      by (rule inj_on_subset [OF assms(2)]) (auto simp: live_def)
  qed
qed (use assms(1) in simp)

text \<open>
  With a lag of at least one, the assertion that at least one message survives the
  redundancy checks holds for every non-empty list of loaded messages.
\<close>

theorem merge_keeps_a_message:
  assumes "ms \<noteq> []" "\<forall>m \<in> set ms. lags_below m" "inj_on cm_seqno_hash (set ms)"
    and "\<forall>m \<in> set ms. in_i64 (cm_seqno m)" "\<forall>m \<in> set ms. in_i64 (cm_seqno m + lag)" "0 < lag"
  shows "\<exists>flags. redundant_flags ms lag = Inr flags \<and> 0 < length (filter Not flags)"
proof -
  let ?flags = "map (redundant ms lag) [0..<length ms]"
  obtain m where "m \<in> live ms lag" using live_nonempty [OF assms(1,2,4,6)] by blast
  then obtain i where "i < length ms" "\<not> redundant ms lag i"
    using kept_set [OF assms(2,3), of lag, symmetric] by (auto simp: kept_indices_def)
  then have "filter Not ?flags \<noteq> []" by (auto simp: filter_empty_conv)
  then show ?thesis using redundant_flags_ok [OF assms(5)] by simp
qed

text \<open>
  With a lag of zero, which the constructor's documentation allows (no lagged diffs), every
  message of every list counts as too old, and the assertion that one survives fails.
\<close>

theorem zero_lag_asserts:
  assumes "ms \<noteq> []" "\<forall>m \<in> set ms. in_i64 (cm_seqno m)"
  shows "merge_messages x vf sg 0 ms = Inl Assertion_failed"
proof -
  have "redundant ms 0 i" if "i < length ms" for i
    using that max_seqno_ge [of "ms ! i" ms] by (simp add: redundant_def)
  then have "filter Not (map (redundant ms 0) [0..<length ms]) = []" by (auto simp: filter_empty_conv)
  moreover have "redundant_flags ms 0 = Inr (map (redundant ms 0) [0..<length ms])"
    by (rule redundant_flags_ok) (use assms(2) in simp)
  ultimately show ?thesis using assms(1) by (simp add: merge_messages_def)
qed

section \<open>Replaying\<close>

lemma apply_replay_Cons:
  "apply_replay ((sh, (src, df)) # r) d = res_bind (apply_diff d df src) (apply_replay r)"
  by (simp add: apply_replay_def [abs_def])

end
