(* ===== verification/Channel.thy ===== *)
theory Channel
  imports Prelude
begin

text \<open>
  The contract that every encryption of the library has: what is sealed under parameters that fit together can be
  unsealed, and the receiver sees the message, in some cases with its sender. Config encryption, messages to a session
  id, plain XChaCha20-Poly1305 and the protobuf wrapping interpret it.
\<close>

locale channel =
  fixes seal :: "'p \<Rightarrow> 'm \<Rightarrow> 'c res" and unseal :: "'p \<Rightarrow> 'c \<Rightarrow> 'r res"
    and usable :: "'p \<Rightarrow> 'm \<Rightarrow> bool" and seen :: "'p \<Rightarrow> 'm \<Rightarrow> 'r"
  assumes arrives: "usable p m \<Longrightarrow> \<exists>c. seal p m = Inr c \<and> unseal p c = Inr (seen p m)"
begin

lemma sent:
  assumes "usable p m"
  obtains c where "seal p m = Inr c" "unseal p c = Inr (seen p m)"
  using arrives [OF assms] by blast

lemma seal_then_unseal: "usable p m \<Longrightarrow> res_bind (seal p m) (unseal p) = Inr (seen p m)"
  using arrives [of p m] by auto

text \<open>Messages that are seen differently are sealed differently.\<close>

lemma seal_separates: "usable p m \<Longrightarrow> usable p m' \<Longrightarrow> seen p m \<noteq> seen p m' \<Longrightarrow> seal p m \<noteq> seal p m'"
  using arrives [of p m] arrives [of p m'] by auto

lemma all_arrive:
  "\<forall>m \<in> set ms. usable p m \<Longrightarrow> \<exists>cs. res_map (seal p) ms = Inr cs \<and> res_map (unseal p) cs = Inr (map (seen p) ms)"
proof (induction ms)
  case (Cons m ms)
  then obtain c cs where "seal p m = Inr c" "unseal p c = Inr (seen p m)"
    "res_map (seal p) ms = Inr cs" "res_map (unseal p) cs = Inr (map (seen p) ms)" using arrives [of p m] by auto
  then show ?case by auto
qed simp

end

text \<open>A channel whose sealed messages can be sealed again, and where the receiver sees just the message.\<close>

locale nested_channel = channel seal unseal usable "\<lambda>p m. m"
  for seal :: "'p \<Rightarrow> 'm \<Rightarrow> 'm res" and unseal :: "'p \<Rightarrow> 'm \<Rightarrow> 'm res" and usable :: "'p \<Rightarrow> 'm \<Rightarrow> bool" +
  assumes again: "usable p m \<Longrightarrow> seal p m = Inr c \<Longrightarrow> usable q m' \<Longrightarrow> usable q c"
begin

lemma twice:
  assumes "usable p m" "usable q m"
  obtains c d where "seal p m = Inr c" "unseal p c = Inr m" "seal q c = Inr d" "unseal q d = Inr c"
proof -
  obtain c where c: "seal p m = Inr c" "unseal p c = Inr m" using sent [OF assms(1)] by blast
  then have "usable q c" using again assms by blast
  then show thesis using sent [of q c] that c by blast
qed

end

end
