(* ===== verification/Encrypt.thy ===== *)
theory Encrypt
  imports Channel "HOL-Library.Word"
begin

text \<open>
  \<open>src/src/config/encrypt.cpp\<close> and \<open>src/include/session/config/encrypt.hpp\<close>: the encryption of a
  config message with a deterministic nonce, and its null-byte padding. libsodium's keyed BLAKE2b and
  XChaCha20-Poly1305 are the fields of \<open>crypto\<close>. Sizes are 64-bit words where the code relies on
  wrap-around (\<open>size_t\<close>): the test for a short ciphertext, and \<open>padded_size\<close>.
\<close>

section \<open>Definitions\<close>

type_synonym size_t = "64 word"

text \<open>\<open>generichash n key data\<close>: an n-byte hash; the decryption has no value when the tag is wrong.\<close>

record crypto =
  generichash :: "nat \<Rightarrow> bytes \<Rightarrow> bytes \<Rightarrow> bytes"
  aead_encrypt :: "bytes \<Rightarrow> bytes \<Rightarrow> bytes \<Rightarrow> bytes"
  aead_decrypt :: "bytes \<Rightarrow> bytes \<Rightarrow> bytes \<Rightarrow> bytes option"

definition ENCRYPT_DATA_OVERHEAD :: nat where "ENCRYPT_DATA_OVERHEAD = 40"
definition DOMAIN_MAX_SIZE :: nat where "DOMAIN_MAX_SIZE = 24"
definition NPUBBYTES :: nat where "NPUBBYTES = 24"
definition NONCE_KEY_PREFIX :: string where "NONCE_KEY_PREFIX = ''libsessionutil-config-encrypted-''"

definition host_to_big :: "size_t \<Rightarrow> bytes" where
  "host_to_big n = map (\<lambda>i. char_of (unat (drop_bit (8 * (7 - i)) n) mod 256)) [0..<8]"

definition make_encrypt_key :: "crypto \<Rightarrow> bytes \<Rightarrow> size_t \<Rightarrow> string \<Rightarrow> bytes res" where
  "make_encrypt_key c key_base message_size domain =
     (if length key_base \<noteq> 32 then Inl Invalid_argument
      else if length domain < 1 \<or> length domain > DOMAIN_MAX_SIZE then Inl Invalid_argument
      else Inr (generichash c 32 [] (key_base @ host_to_big message_size @ domain)))"

definition encrypt :: "crypto \<Rightarrow> bytes \<Rightarrow> bytes \<Rightarrow> string \<Rightarrow> bytes res" where
  "encrypt c message key_base domain =
     res_bind (make_encrypt_key c key_base (of_nat (length message)) domain) (\<lambda>key.
       let nonce = generichash c NPUBBYTES (NONCE_KEY_PREFIX @ domain) message;
           out = aead_encrypt c message nonce key in
       res_bind (guard (length out + NPUBBYTES = length message + ENCRYPT_DATA_OVERHEAD) Assertion_failed)
         (\<lambda>_. Inr (out @ nonce)))"

definition decrypt :: "crypto \<Rightarrow> bytes \<Rightarrow> bytes \<Rightarrow> string \<Rightarrow> bytes res" where
  "decrypt c ciphertext key_base domain =
     (let message_len = (of_nat (length ciphertext) - of_nat ENCRYPT_DATA_OVERHEAD :: size_t) in
      if message_len > of_nat (length ciphertext) then Inl Decrypt_error
      else
        let nonce = drop (length ciphertext - NPUBBYTES) ciphertext in
        res_bind (make_encrypt_key c key_base message_len domain) (\<lambda>key.
          case aead_decrypt c (take (length ciphertext - NPUBBYTES) ciphertext) nonce key of
            None \<Rightarrow> Inl Decrypt_error
          | Some m \<Rightarrow>
              res_bind (guard (of_nat (length m) = message_len) Assertion_failed) (\<lambda>_. Inr m)))"

definition padded_size :: "size_t \<Rightarrow> size_t \<Rightarrow> size_t" where
  "padded_size s overhead =
     (let s2 = s + overhead;
          chunk = (if s2 < 5120 then 256 else if s2 < 20480 then 1024 else if s2 < 40960 then 2048 else 5120)
      in (s2 + chunk - 1) div chunk * chunk - overhead)"

definition pad_message :: "bytes \<Rightarrow> bytes" where
  "pad_message data =
     (let target_size = padded_size (of_nat (length data)) (of_nat ENCRYPT_DATA_OVERHEAD) in
      if of_nat (length data) < target_size
      then replicate (unat (target_size - of_nat (length data))) (CHR 0x00) @ data
      else data)"

text \<open>The inverse, as \<open>ConfigBase::_merge\<close> and \<open>_handle_multipart\<close> (\<open>src/src/config/base.cpp\<close>) write
  it out: leading nulls are removed unless the data is all nulls.\<close>

definition strip_padding :: "bytes \<Rightarrow> bytes" where
  "strip_padding plain =
     (let rest = dropWhile (\<lambda>c. c = CHR 0x00) plain in if rest = [] then plain else rest)"

text \<open>What the code relies on of libsodium.\<close>

definition crypto_ok :: "crypto \<Rightarrow> bool" where
  "crypto_ok c \<longleftrightarrow> (\<forall>n k d. length (generichash c n k d) = n) \<and>
     (\<forall>m n k. length (aead_encrypt c m n k) = length m + 16 \<and>
        aead_decrypt c (aead_encrypt c m n k) n k = Some m)"

section \<open>Encrypting and decrypting\<close>

lemma make_encrypt_key_ok:
  "make_encrypt_key c key s domain = Inr k \<longleftrightarrow> length key = 32 \<and> 1 \<le> length domain \<and> length domain \<le> 24 \<and>
     k = generichash c 32 [] (key @ host_to_big s @ domain)"
  by (auto simp: make_encrypt_key_def DOMAIN_MAX_SIZE_def Suc_le_eq)

lemma unat_size_t [simp]: "n < 2 ^ 64 \<Longrightarrow> unat (of_nat n :: size_t) = n"
  by (simp add: unat_of_nat)

lemma decrypt_encrypt:
  assumes "crypto_ok c" "length key = 32" "1 \<le> length domain" "length domain \<le> 24"
    and "length message + 40 < 2 ^ 64"
  shows "\<exists>ct. encrypt c message key domain = Inr ct \<and> length ct = length message + 40 \<and>
     decrypt c ct key domain = Inr message"
proof -
  define nonce where "nonce = generichash c NPUBBYTES (NONCE_KEY_PREFIX @ domain) message"
  define k where "k = generichash c 32 [] (key @ host_to_big (of_nat (length message)) @ domain)"
  define ct where "ct = aead_encrypt c message nonce k @ nonce"
  have key: "make_encrypt_key c key (of_nat (length message)) domain = Inr k"
    using assms by (simp add: make_encrypt_key_ok k_def)
  have len: "length nonce = 24" "length (aead_encrypt c message nonce k) = length message + 16"
    and dec: "aead_decrypt c (aead_encrypt c message nonce k) nonce k = Some message"
    using assms(1) by (simp_all add: crypto_ok_def nonce_def NPUBBYTES_def)
  have enc: "encrypt c message key domain = Inr ct"
    using key len unfolding encrypt_def nonce_def [symmetric] ct_def
    by (simp add: Let_def guard_def ENCRYPT_DATA_OVERHEAD_def NPUBBYTES_def)
  have "(of_nat (length ct) - 40 :: size_t) = of_nat (length message)"
    using len by (simp add: ct_def)
  moreover have "\<not> (of_nat (length message) :: size_t) > of_nat (length ct)"
  proof -
    have "length ct = length message + 40" using len by (simp add: ct_def)
    then show ?thesis using assms(5) unat_size_t [of "length ct"] by (simp add: word_less_nat_alt del: of_nat_add)
  qed
  ultimately have "decrypt c ct key domain = Inr message"
    using key len dec
    by (simp add: decrypt_def Let_def ENCRYPT_DATA_OVERHEAD_def NPUBBYTES_def ct_def guard_def)
  with enc len show ?thesis by (simp add: ct_def)
qed

interpretation config_cipher: channel "\<lambda>(c, key, domain). (\<lambda>m. encrypt c m key domain)" "\<lambda>(c, key, domain). (\<lambda>ct. decrypt c ct key domain)"
  "\<lambda>(c, key, domain) m. crypto_ok c \<and> length key = 32 \<and> 1 \<le> length domain \<and> length domain \<le> 24 \<and> length m + 40 < 2 ^ 64" "\<lambda>p m. m"
  by unfold_locales (use decrypt_encrypt in fastforce)

lemma decrypt_short:
  assumes "length ct < 40"
  shows "decrypt c ct key domain = Inl Decrypt_error"
proof -
  have "unat (of_nat (length ct) - 40 :: size_t) = length ct + 2 ^ 64 - 40"
    using assms by (simp add: unat_sub_if')
  then have "(of_nat (length ct) :: size_t) < of_nat (length ct) - 40"
    using assms by (simp add: word_less_nat_alt)
  then show ?thesis by (simp add: decrypt_def ENCRYPT_DATA_OVERHEAD_def)
qed

section \<open>Padding\<close>

text \<open>\<open>padded_size\<close> over the natural numbers, for sizes that do not wrap around.\<close>

definition chunk_of :: "nat \<Rightarrow> nat" where
  "chunk_of s2 = (if s2 < 5120 then 256 else if s2 < 20480 then 1024 else if s2 < 40960 then 2048 else 5120)"

definition round_up :: "nat \<Rightarrow> nat" where
  "round_up s2 = (s2 + chunk_of s2 - 1) div chunk_of s2 * chunk_of s2"

lemma round_up_bounds: "s2 \<le> round_up s2 \<and> round_up s2 < s2 + chunk_of s2 \<and> chunk_of s2 dvd round_up s2"
proof -
  have pos: "0 < chunk_of s2" by (simp add: chunk_of_def)
  define q where "q = (s2 + chunk_of s2 - 1) div chunk_of s2"
  have "q * chunk_of s2 \<le> s2 + chunk_of s2 - 1" "s2 + chunk_of s2 - 1 < q * chunk_of s2 + chunk_of s2"
    using pos div_mult_mod_eq [of "s2 + chunk_of s2 - 1" "chunk_of s2"]
      mod_less_divisor [OF pos, of "s2 + chunk_of s2 - 1"] unfolding q_def by linarith+
  moreover have "round_up s2 = q * chunk_of s2" by (simp add: round_up_def q_def)
  ultimately show ?thesis using pos by auto
qed

lemma round_up_idem: "round_up (round_up s2) = round_up s2"
proof -
  define r where "r = round_up s2"
  have r: "s2 \<le> r" "r < s2 + chunk_of s2" "chunk_of s2 dvd r" using round_up_bounds by (auto simp: r_def)
  have "chunk_of r dvd r"
  proof (cases "chunk_of r = chunk_of s2")
    case False
    have "r \<in> {5120, 20480, 40960}"
      using r False by (auto simp: chunk_of_def dvd_def split: if_splits)
    then show ?thesis by (auto simp: chunk_of_def)
  qed (use r(3) in simp)
  then obtain q where q: "r = chunk_of r * q" by blast
  have pos: "0 < chunk_of r" by (simp add: chunk_of_def)
  have "(c * q + c - 1) div c = q" if "0 < c" for c :: nat
    using that by (intro div_nat_eqI) (simp_all add: algebra_simps)
  with pos q have "(r + chunk_of r - 1) div chunk_of r = q" by metis
  then have "round_up r = r" using q by (simp only: round_up_def) (simp only: mult.commute)
  then show ?thesis by (simp only: r_def)
qed

lemma padded_size_nat:
  assumes "s + ov + 5120 < 2 ^ 64"
  shows "unat (padded_size (of_nat s) (of_nat ov)) = round_up (s + ov) - ov"
proof -
  define s2 where "s2 = s + ov"
  define c where "c = chunk_of s2"
  have s2: "(of_nat s + of_nat ov :: size_t) = of_nat s2" by (simp add: s2_def)
  have c: "(if (of_nat s2 :: size_t) < 5120 then 256 else if (of_nat s2 :: size_t) < 20480 then 1024
      else if (of_nat s2 :: size_t) < 40960 then 2048 else 5120) = (of_nat c :: size_t)"
    using assms unat_size_t [of s2]
    by (simp add: c_def chunk_of_def word_less_nat_alt s2_def [symmetric])
  have bounds: "s2 \<le> round_up s2" "round_up s2 < s2 + c" "0 < c" "c \<le> 5120"
    using round_up_bounds [of s2] by (auto simp: c_def chunk_of_def)
  have "(of_nat s2 + of_nat c - 1 :: size_t) = of_nat (s2 + c - 1)"
    using bounds by (simp add: of_nat_diff)
  moreover have "(of_nat (s2 + c - 1) div of_nat c * of_nat c :: size_t) = of_nat (round_up s2)"
  proof (rule word_unat_eq_iff [THEN iffD2])
    have "s2 + c - 1 < 2 ^ 64" "c < 2 ^ 64" "(s2 + c - 1) div c * c < 2 ^ 64"
      using assms bounds by (simp_all add: s2_def round_up_def c_def)
    moreover have "(s2 + c - 1) div c < 2 ^ 64"
      using calculation(1) by (rule le_less_trans [OF div_le_dividend])
    ultimately
    show "unat (of_nat (s2 + c - 1) div of_nat c * of_nat c :: size_t) = unat (of_nat (round_up s2) :: size_t)"
      by (simp add: unat_div unat_word_ariths(2) round_up_def c_def)
  qed
  ultimately have "padded_size (of_nat s) (of_nat ov) = of_nat (round_up s2) - of_nat ov"
    by (simp only: padded_size_def Let_def s2 c)
  moreover have "ov \<le> round_up s2" using bounds by (simp add: s2_def)
  ultimately have "padded_size (of_nat s) (of_nat ov) = of_nat (round_up s2 - ov)"
    by (simp only: of_nat_diff)
  moreover have "round_up s2 - ov < 2 ^ 64" using assms bounds by (simp add: s2_def)
  ultimately show ?thesis by (simp only: unat_size_t s2_def)
qed

lemma pad_shape:
  assumes "length data + 40 + 5120 < 2 ^ 64"
  shows "\<exists>n. pad_message data = replicate n (CHR 0x00) @ data \<and> n + length data + 40 = round_up (length data + 40)"
proof -
  let ?t = "padded_size (of_nat (length data)) (of_nat ENCRYPT_DATA_OVERHEAD)"
  define n where "n = round_up (length data + 40) - 40 - length data"
  have bounds: "length data + 40 \<le> round_up (length data + 40)" using round_up_bounds by blast
  have t: "unat ?t = length data + n"
    using padded_size_nat [OF assms] bounds by (simp add: n_def ENCRYPT_DATA_OVERHEAD_def)
  have len: "unat (of_nat (length data) :: size_t) = length data" using assms by simp
  have "unat (?t - of_nat (length data)) = n"
    using t len by (simp add: unat_sub_if')
  then have "pad_message data = replicate n (CHR 0x00) @ data"
    using t len by (auto simp: pad_message_def Let_def word_less_nat_alt)
  then show ?thesis using bounds by (intro exI [of _ n]) (simp add: n_def)
qed

lemma strip_padded:
  assumes "data \<noteq> []" "hd data \<noteq> CHR 0x00"
  shows "strip_padding (replicate n (CHR 0x00) @ data) = data"
proof -
  have "dropWhile (\<lambda>c. c = CHR 0x00) (replicate n (CHR 0x00) @ data) = data"
    using assms by (induction n) (cases data, simp_all)
  then show ?thesis using assms by (simp add: strip_padding_def)
qed

text \<open>
  C33: padding only adds null bytes in front, to a size that together with the
  encryption overhead is a multiple of the chunk size; it adds less than one chunk, padding a padded
  message again adds nothing, and stripping restores a message that does not start with a null byte.
\<close>

theorem pad_message_correct:
  assumes "length data + 40 + 5120 + 5120 < 2 ^ 64"
  shows "\<exists>n. pad_message data = replicate n (CHR 0x00) @ data \<and>
     length (pad_message data) + 40 = round_up (length data + 40) \<and>
     n < chunk_of (length data + 40) \<and> chunk_of (length data + 40) dvd length (pad_message data) + 40 \<and>
     pad_message (pad_message data) = pad_message data \<and>
     (data \<noteq> [] \<and> hd data \<noteq> CHR 0x00 \<longrightarrow> strip_padding (pad_message data) = data)"
proof -
  have bounds: "round_up (length data + 40) < length data + 40 + chunk_of (length data + 40)"
    "chunk_of (length data + 40) dvd round_up (length data + 40)" "chunk_of (length data + 40) \<le> 5120"
    using round_up_bounds by (blast, blast) (simp add: chunk_of_def)
  have small: "length data + 40 + 5120 < 2 ^ 64" using assms by simp
  obtain n where n: "pad_message data = replicate n (CHR 0x00) @ data"
    "n + length data + 40 = round_up (length data + 40)"
    using pad_shape [OF small] by blast
  have "length (pad_message data) + 40 + 5120 < 2 ^ 64" using assms n bounds by simp
  then obtain k where k: "pad_message (pad_message data) = replicate k (CHR 0x00) @ pad_message data"
    "k + length (pad_message data) + 40 = round_up (length (pad_message data) + 40)"
    using pad_shape by blast
  have "length (pad_message data) + 40 = round_up (length data + 40)" using n by simp
  then have "k = 0" using k(2) round_up_idem [of "length data + 40"] by simp
  then show ?thesis using n k(1) bounds strip_padded by (intro exI [of _ n]) simp
qed

text \<open>
  Decrypting an encrypted message gives it back, for every message that a 64-bit
  size can describe, a 32-byte key and a domain of 1 to 24 bytes; the ciphertext is 40 bytes longer.
  Other keys and domains are an \<open>invalid_argument\<close>, and a ciphertext shorter than the overhead is
  a \<open>decrypt_error\<close> although the subtraction of the overhead wraps around.
\<close>

theorem encrypt_round_trip:
  assumes "crypto_ok c" "length key = 32" "1 \<le> length domain" "length domain \<le> 24"
    and "length message + 40 < 2 ^ 64"
  shows "\<exists>ct. encrypt c message key domain = Inr ct \<and> length ct = length message + 40 \<and>
     decrypt c ct key domain = Inr message \<and>
     (\<forall>k d. length k \<noteq> 32 \<or> d = [] \<or> 24 < length d \<longrightarrow> encrypt c message k d = Inl Invalid_argument) \<and>
     (\<forall>s k d. length s < 40 \<longrightarrow> decrypt c s k d = Inl Decrypt_error)"
proof -
  have "encrypt c message k d = Inl Invalid_argument" if "length k \<noteq> 32 \<or> d = [] \<or> 24 < length d" for k d
    using that by (auto simp: encrypt_def make_encrypt_key_def DOMAIN_MAX_SIZE_def)
  then show ?thesis using decrypt_encrypt [OF assms] decrypt_short by blast
qed

end
