(* ===== verification/Config_Base.thy ===== *)
theory Config_Base
  imports Config_Merge Encrypt
begin

text \<open>
  \<open>ConfigBase\<close> and \<open>ConfigSig\<close> (\<open>src/src/config/base.cpp\<close>, \<open>src/include/session/config/base.hpp\<close>): the
  clean/dirty/waiting life cycle of a config object, multipart messages, merging what was fetched,
  producing what is to be pushed, dumping and restoring, the encryption keys and the signing keys.

  \<open>env\<close> holds what a config object calls: the bencode and crypto libraries, zstd, Ed25519, the protobuf
  wrapping of \<open>protos.cpp\<close> (see \<open>Protos\<close>), and the virtual methods a derived class overrides. The
  current time is an argument (milliseconds). \<open>std::unordered_set\<close>s of message hashes are sorted lists:
  the code only depends on their elements, except for the order in which \<open>push\<close>, \<open>old_hashes\<close> and
  \<open>dump\<close> list them, which C++ leaves unspecified. An exception ends an operation; the state
  it leaves behind is modelled where the code itself catches the exception.
\<close>

section \<open>State\<close>

datatype config_state = Clean | Dirty | Waiting

record env =
  e_libs :: libs
  e_crypto :: crypto
  e_domain :: string
  e_compression_level :: "int option"
  e_lags :: int
  e_accepts_protobuf :: bool
  e_unwrap :: "bytes \<Rightarrow> bytes \<Rightarrow> bytes option"
  e_wrap :: "bytes \<Rightarrow> bytes \<Rightarrow> int \<Rightarrow> bytes res"
  e_zstd_compress :: "bytes \<Rightarrow> int \<Rightarrow> bytes \<Rightarrow> bytes"
  e_zstd_decompress :: "bytes \<Rightarrow> bytes option"
  e_sk_to_pk :: "bytes \<Rightarrow> bytes"
  e_verify :: "bytes \<Rightarrow> bytes \<Rightarrow> bytes \<Rightarrow> bool"
  e_sign :: "bytes \<Rightarrow> bytes \<Rightarrow> bytes"
  e_extra_data :: bt_dict
  e_ndebug :: bool

record partial_message =
  pm_index :: int
  pm_id :: string
  pm_data :: bytes

record partial_messages =
  ps_done :: bool
  ps_size :: int
  ps_parts :: "partial_message list"
  ps_expiry :: int

record config_base =
  cb_config :: config_message
  cb_state :: config_state
  cb_keys :: "bytes list"
  cb_curr_hashes :: "string list"
  cb_old_hashes :: "string list"
  cb_multiparts :: "(bytes \<times> partial_messages) list"
  cb_needs_dump :: bool
  cb_sign_pk :: "bytes option"
  cb_sign_sk :: "bytes option"

definition MAX_MESSAGE_SIZE :: nat where "MAX_MESSAGE_SIZE = 76800"
definition MAX_MULTIPART_SIZE :: nat where "MAX_MULTIPART_SIZE = 5000000"
definition ENCODE_OVERHEAD :: nat where "ENCODE_OVERHEAD = 1 + 2 + 3 + 32 + 2 + 1 + 2 + 1 + 6"
definition MAX_CHUNK_SIZE :: nat where
  "MAX_CHUNK_SIZE = MAX_MESSAGE_SIZE - ENCODE_OVERHEAD - ENCRYPT_DATA_OVERHEAD"
definition KEY_SIZE :: nat where "KEY_SIZE = 32"
definition MULTIPART_MAX_WAIT :: int where "MULTIPART_MAX_WAIT = 7 * 24 * 3600 * 1000"
definition MULTIPART_MAX_REMEMBER :: int where "MULTIPART_MAX_REMEMBER = 14 * 24 * 3600 * 1000"

definition empty_partial :: partial_messages where
  "empty_partial = \<lparr> ps_done = False, ps_size = 0, ps_parts = [], ps_expiry = 0 \<rparr>"

definition set_insert_all :: "string list \<Rightarrow> string list \<Rightarrow> string list" where
  "set_insert_all hs s = fold set_insert hs s"

definition is_readonly :: "config_base \<Rightarrow> bool" where
  "is_readonly b \<longleftrightarrow> cm_verifier (cb_config b) \<noteq> None \<and> cm_signer (cb_config b) = None"

definition is_dirty :: "config_base \<Rightarrow> bool" where "is_dirty b \<longleftrightarrow> cb_state b = Dirty"
definition is_clean :: "config_base \<Rightarrow> bool" where "is_clean b \<longleftrightarrow> cb_state b = Clean"
definition needs_push :: "config_base \<Rightarrow> bool" where "needs_push b \<longleftrightarrow> \<not> is_clean b"

definition set_state :: "config_state \<Rightarrow> config_base \<Rightarrow> config_base res" where
  "set_state s b =
     (if s = Dirty \<and> is_readonly b then Inl Runtime_error
      else
        let b1 = (if cb_state b = Clean \<and> cb_curr_hashes b \<noteq> []
                  then b\<lparr> cb_old_hashes := set_insert_all (cb_curr_hashes b) (cb_old_hashes b),
                          cb_curr_hashes := [] \<rparr>
                  else b)
        in Inr (b1\<lparr> cb_state := s, cb_needs_dump := True \<rparr>))"

text \<open>\<open>dirty()\<close>: the object with a mutable message as its current config.\<close>

definition dirty :: "env \<Rightarrow> config_base \<Rightarrow> config_base res" where
  "dirty e b =
     res_bind
       (if cb_state b \<noteq> Dirty then
          res_bind (set_state Dirty b) (\<lambda>b.
          res_bind (increment (e_libs e) (cb_config b)) (\<lambda>m. Inr (b\<lparr> cb_config := m \<rparr>)))
        else Inr (b\<lparr> cb_needs_dump := True \<rparr>))
       (\<lambda>b. if cm_orig_data (cb_config b) = None then Inl Runtime_error else Inr b)"

definition assertion :: "env \<Rightarrow> bool \<Rightarrow> unit res" where
  "assertion e c = guard (c \<or> e_ndebug e) Assertion_failed"

section \<open>Multipart messages\<close>

definition finish :: "int \<Rightarrow> int \<Rightarrow> partial_messages \<Rightarrow> partial_messages" where
  "finish now lifetime p = p\<lparr> ps_done := True, ps_size := 0, ps_parts := [], ps_expiry := now + lifetime \<rparr>"

definition the_parts :: "bytes \<Rightarrow> config_base \<Rightarrow> partial_messages" where
  "the_parts h b = (case map_of (cb_multiparts b) h of Some p \<Rightarrow> p | None \<Rightarrow> empty_partial)"

definition set_parts :: "bytes \<Rightarrow> partial_messages \<Rightarrow> config_base \<Rightarrow> config_base" where
  "set_parts h p b = b\<lparr> cb_multiparts := smap_put h p (cb_multiparts b) \<rparr>"

text \<open>The elements of a part after its \<open>m\<close> prefix: hash, index byte, size byte, data.\<close>

definition parse_part :: "env \<Rightarrow> bytes \<Rightarrow> (bytes \<times> int \<times> int \<times> bytes) option" where
  "parse_part e message =
     (if length message > MAX_MESSAGE_SIZE then None
      else case bt_decode (e_libs e) (tl message) of
          Some (BtList [BtStr h, BtStr index_bytes, BtStr size_bytes, BtStr data]) \<Rightarrow>
            if length h \<noteq> 32 \<or> length index_bytes \<noteq> 1 \<or> length size_bytes \<noteq> 1 then None
            else
              let index = of_char (hd index_bytes); num_parts = of_char (hd size_bytes) in
              if num_parts \<le> 1 \<or> num_parts \<le> index \<or> data = [] then None
              else Some (h, index, num_parts, data)
        | _ \<Rightarrow> None)"

text \<open>\<open>parts.parts.emplace(it, ...)\<close> at the first part whose index is not below the new one; no value
  when that part is already there.\<close>

fun insert_part :: "partial_message \<Rightarrow> partial_message list \<Rightarrow> partial_message list option" where
  "insert_part p [] = Some [p]"
| "insert_part p (q # qs) =
     (if pm_index q < pm_index p then map_option (Cons q) (insert_part p qs)
      else if pm_index q = pm_index p then None
      else Some (p # q # qs))"

text \<open>What becomes of the recombined bytes: no value where the code throws.\<close>

definition unpack_recombined :: "env \<Rightarrow> bytes \<Rightarrow> bytes option" where
  "unpack_recombined e recombined =
     (let r = strip_padding recombined in
      case (if hd r = CHR ''z'' then
              (case e_zstd_decompress e (tl r) of
                 Some d \<Rightarrow> if d = [] then None else Some d
               | None \<Rightarrow> None)
            else Some r) of
        None \<Rightarrow> None
      | Some r \<Rightarrow> if r = [] \<or> hd r \<noteq> CHR ''d'' then None else Some r)"

definition handle_multipart ::
  "env \<Rightarrow> int \<Rightarrow> string \<Rightarrow> bytes \<Rightarrow> config_base \<Rightarrow> config_base \<times> bool \<times> (string list \<times> bytes) option" where
  "handle_multipart e now msg_id message b =
     (case parse_part e message of
        None \<Rightarrow> (b, False, None)
      | Some (final_hash, index, num_parts, data) \<Rightarrow>
          let p0 = the_parts final_hash b; b0 = set_parts final_hash p0 b in
          if ps_done p0 then (b0, True, None)
          else if ps_parts p0 \<noteq> [] \<and> num_parts \<noteq> ps_size p0 then (b0, False, None)
          else
            let p1 = (if ps_parts p0 = [] then p0\<lparr> ps_size := num_parts \<rparr> else p0) in
            case insert_part \<lparr> pm_index = index, pm_id = msg_id, pm_data = data \<rparr> (ps_parts p1) of
              None \<Rightarrow> (set_parts final_hash p1 b, True, None)
            | Some ps \<Rightarrow>
                let p2 = p1\<lparr> ps_parts := ps \<rparr>; b2 = b\<lparr> cb_needs_dump := True \<rparr> in
                if int (length ps) = ps_size p2 then
                  let recombined = concat (map pm_data ps); msgids = map pm_id ps in
                  if blake2b (e_libs e) recombined \<noteq> final_hash then (set_parts final_hash p2 b2, False, None)
                  else
                    let b3 = set_parts final_hash (finish now MULTIPART_MAX_REMEMBER p2) b2 in
                    (case unpack_recombined e recombined of
                       None \<Rightarrow> (b3, False, None)
                     | Some r \<Rightarrow> (b3, True, Some (msgids, r)))
                else (set_parts final_hash (p2\<lparr> ps_expiry := now + MULTIPART_MAX_WAIT \<rparr>) b2, True, None))"

definition expire_multiparts :: "int \<Rightarrow> config_base \<Rightarrow> config_base" where
  "expire_multiparts now b =
     b\<lparr> cb_multiparts := filter (\<lambda>(h, p). \<not> ps_expiry p < now) (cb_multiparts b) \<rparr>"

definition dump_part :: "partial_message \<Rightarrow> bt_value" where
  "dump_part p = BtDict [(''#'', BtInt (pm_index p)), (''M'', BtStr (pm_id p)), (''d'', BtStr (pm_data p))]"

definition dump_multiparts :: "int \<Rightarrow> config_base \<Rightarrow> bt_dict" where
  "dump_multiparts now b =
     map (\<lambda>(h, p). (h, BtDict
         ([(''#'', BtInt (if ps_done p then 0 else ps_size p)), (''T'', BtInt (ps_expiry p))]
          @ (if ps_done p then [] else [(''p'', BtList (map dump_part (ps_parts p)))]))))
       (filter (\<lambda>(h, p). \<not> ps_expiry p < now) (cb_multiparts b))"

definition in_i32 :: "int \<Rightarrow> bool" where "in_i32 i \<longleftrightarrow> - (2 ^ 31) \<le> i \<and> i < 2 ^ 31"

definition consume_int32 :: "bt_value \<Rightarrow> int res" where
  "consume_int32 v = (case v of BtInt i \<Rightarrow> if in_i32 i then Inr i else Inl Bt_deserialize_invalid
     | _ \<Rightarrow> Inl Bt_deserialize_invalid)"

text \<open>\<open>require(key)\<close>: skip to the key and take its value.\<close>

definition require :: "string \<Rightarrow> bt_dict \<Rightarrow> (bt_value \<times> bt_dict) res" where
  "require k d = (case skip_until k d of
      (k', v) # rest \<Rightarrow> if k' = k then Inr (v, rest) else Inl Out_of_range
    | [] \<Rightarrow> Inl Out_of_range)"

definition load_part :: "bt_value \<Rightarrow> partial_message res" where
  "load_part v =
     (case v of
        BtDict ((k1, i) # (k2, BtStr m) # (k3, BtStr d) # rest) \<Rightarrow>
          res_bind (consume_int32 i) (\<lambda>i. Inr \<lparr> pm_index = i, pm_id = m, pm_data = d \<rparr>)
      | _ \<Rightarrow> Inl Bt_deserialize_invalid)"

definition load_multipart :: "int \<Rightarrow> string \<times> bt_value \<Rightarrow> config_base \<Rightarrow> config_base res" where
  "load_multipart now kv b =
     (case kv of
        (k, BtDict pdata) \<Rightarrow>
          if length k \<noteq> 32 then Inr b
          else
            res_bind (require ''#'' pdata) (\<lambda>(v, pdata).
            res_bind (consume_int32 v) (\<lambda>size.
            res_bind (require ''T'' pdata) (\<lambda>(v, pdata).
            res_bind (consume_integer v) (\<lambda>exp.
              if exp < now then Inr b
              else
                res_bind (if 0 < size then
                    res_bind (require ''p'' pdata) (\<lambda>(v, _).
                      case v of BtList l \<Rightarrow> res_map load_part l | _ \<Rightarrow> Inl Bt_deserialize_invalid)
                  else Inr [])
                (\<lambda>ps. Inr (set_parts k
                   \<lparr> ps_done = False, ps_size = size, ps_parts = ps, ps_expiry = exp \<rparr> b))))))
      | _ \<Rightarrow> Inl Bt_deserialize_invalid)"

definition load_multiparts :: "int \<Rightarrow> bt_dict \<Rightarrow> config_base \<Rightarrow> config_base res" where
  "load_multiparts now multi b = res_fold (load_multipart now) multi b"

section \<open>Merging\<close>

text \<open>\<open>merge\<close>: the protobuf envelope is removed, twice where a client wrapped twice.\<close>

definition unwrap_incoming :: "env \<Rightarrow> config_base \<Rightarrow> (string \<times> bytes) list \<Rightarrow> (string \<times> bytes) list" where
  "unwrap_incoming e b configs =
     (if e_accepts_protobuf e \<and> cb_keys b \<noteq> [] then
        map (\<lambda>(h, c).
          case e_unwrap e (hd (cb_keys b)) c of
            None \<Rightarrow> (h, c)
          | Some unwrapped \<Rightarrow>
              (case e_unwrap e (hd (cb_keys b)) unwrapped of
                 None \<Rightarrow> (h, unwrapped)
               | Some unwrapped2 \<Rightarrow> (h, unwrapped2))) configs
      else configs)"

text \<open>The keys are tried in order; only a \<open>decrypt_error\<close> is caught.\<close>

fun decrypt_any :: "env \<Rightarrow> bytes list \<Rightarrow> bytes \<Rightarrow> bytes option res" where
  "decrypt_any e [] conf = Inr None"
| "decrypt_any e (k # ks) conf =
     (case decrypt (e_crypto e) conf k (e_domain e) of
        Inr plain \<Rightarrow> Inr (Some plain)
      | Inl Decrypt_error \<Rightarrow> decrypt_any e ks conf
      | Inl err \<Rightarrow> Inl err)"

fun decrypt_all :: "env \<Rightarrow> bytes list \<Rightarrow> (string \<times> bytes) list \<Rightarrow> (string \<times> bytes) list res" where
  "decrypt_all e ks [] = Inr []"
| "decrypt_all e ks ((h, c) # configs) =
     res_bind (decrypt_any e ks c) (\<lambda>p.
     res_bind (decrypt_all e ks configs) (\<lambda>rest.
       Inr (case p of None \<Rightarrow> rest | Some plain \<Rightarrow> (h, plain) # rest)))"

text \<open>One plaintext: the object, the accepted hashes and the confs with their hashes so far.\<close>

type_synonym incoming = "config_base \<times> string list \<times> (string list \<times> bytes) list"

definition process_plain :: "env \<Rightarrow> int \<Rightarrow> string \<times> bytes \<Rightarrow> incoming \<Rightarrow> incoming" where
  "process_plain e now hp s =
     (case (hp, s) of ((h, plain0), (b, good, confs)) \<Rightarrow>
        let plain = strip_padding plain0 in
        if plain = [] then s
        else if hd plain = CHR ''m'' then
          (case handle_multipart e now h plain b of
             (b', accepted, completed) \<Rightarrow>
               (b', if accepted then set_insert h good else good,
                case completed of None \<Rightarrow> confs | Some (ids, body) \<Rightarrow> confs @ [(ids, body)]))
        else
          (case (if hd plain = CHR ''z'' then
                   (case e_zstd_decompress e (tl plain) of
                      Some d \<Rightarrow> if d = [] then None else Some d
                    | None \<Rightarrow> None)
                 else Some plain) of
             None \<Rightarrow> s
           | Some plain \<Rightarrow>
               if hd plain \<noteq> CHR ''d'' then s
               else (b, set_insert h good, confs @ [([h], plain)])))"

text \<open>Serializing the current config; a mutable message is pruned and re-diffed by it.\<close>

definition serialize_config :: "env \<Rightarrow> bool \<Rightarrow> config_base \<Rightarrow> (bytes \<times> config_base) res" where
  "serialize_config e sign b =
     res_bind (serialize (e_libs e) (cb_config b) sign) (\<lambda>(d, m). Inr (d, b\<lparr> cb_config := m \<rparr>))"

definition obsolete_hashes ::
  "(string list \<times> bytes) list \<Rightarrow> nat option \<Rightarrow> nat list \<Rightarrow> string list \<Rightarrow> string list" where
  "obsolete_hashes confs superconf bad old =
     (let super = (case superconf of
                     Some s \<Rightarrow> if s < length confs then set (fst (confs ! s)) else {}
                   | None \<Rightarrow> {}) in
      fold (\<lambda>i old.
          if superconf \<noteq> Some i \<and> i \<notin> set bad \<and> fst (confs ! i) \<noteq> [] \<and> set (fst (confs ! i)) \<noteq> super
          then set_insert_all (fst (confs ! i)) old else old)
        [0..<length confs] old)"

text \<open>What the merged message does to the state: adopted as the new clean config, kept as a dirty
  merge, or ignored.\<close>

definition adopt ::
  "env \<Rightarrow> int \<Rightarrow> bool \<Rightarrow> bool \<Rightarrow> (string list \<times> bytes) list \<Rightarrow> config_message \<Rightarrow> config_base \<Rightarrow> config_base res" where
  "adopt e old_seqno have_mine mine_last confs new_conf b =
     (let superconf = cm_unmerged new_conf;
          superconf_is_mine = (superconf = Some (if mine_last then length confs - 1 else 0))
      in
      if cm_seqno new_conf \<noteq> old_seqno then
        if merged new_conf then
          set_state Dirty (b\<lparr> cb_config := (if cb_state b \<noteq> Dirty then retain new_conf else new_conf) \<rparr>)
        else if cb_state b = Dirty \<and> superconf_is_mine \<and> cm_seqno new_conf = old_seqno + 1 then Inr b
        else
          res_bind (assertion e (((old_seqno = 0 \<and> \<not> have_mine) \<or> \<not> superconf_is_mine) \<and>
              the superconf < length confs)) (\<lambda>_.
          res_bind (set_state Clean (b\<lparr> cb_config := new_conf \<rparr>)) (\<lambda>b.
            Inr (b\<lparr> cb_curr_hashes := set_insert_all (fst (confs ! the superconf)) [] \<rparr>)))
      else Inr b)"

text \<open>\<open>make_config_message\<close> with the error handler of \<open>_merge\<close>, whose assertion takes index 0 for the
  object's own serialization.\<close>

definition make_config_message ::
  "env \<Rightarrow> bool \<Rightarrow> config_message \<Rightarrow> bytes list \<Rightarrow> (config_message \<times> nat list) res" where
  "make_config_message e from_dirty m confs =
     (if from_dirty then mutable_merge_configs else merge_configs)
       (e_libs e) (cm_verifier m) (cm_signer m) (e_lags e)
       (\<lambda>i err. if i = 0 \<and> \<not> e_ndebug e then Some Assertion_failed else None) confs"

definition erase_all :: "string list \<Rightarrow> string list \<Rightarrow> string list" where
  "erase_all hs s = fold set_erase hs s"

text \<open>\<open>_merge\<close> from the end of its parsing loop on: \<open>mine\<close> is the object's own serialization, empty when
  it takes no part, and is put last when its message hashes are not known.\<close>

definition merge_collected ::
  "env \<Rightarrow> int \<Rightarrow> int \<Rightarrow> bytes \<Rightarrow> bool \<Rightarrow> incoming \<Rightarrow> (string list \<times> config_base) res" where
  "merge_collected e now old_seqno mine mine_last s =
     (case s of (b, good, confs0) \<Rightarrow>
        let confs = (if mine_last then confs0 @ [(cb_curr_hashes b, mine)] else confs0);
            b = expire_multiparts now b in
        if confs = [] then Inr (good, b)
        else
          res_bind (make_config_message e (cb_state b = Dirty) (cb_config b) (map snd confs))
            (\<lambda>(new_conf, bad).
               let b = b\<lparr> cb_old_hashes :=
                     obsolete_hashes confs (cm_unmerged new_conf) bad (cb_old_hashes b) \<rparr> in
               res_bind (adopt e old_seqno (mine \<noteq> []) mine_last confs new_conf b) (\<lambda>b.
                 let skip = (\<lambda>i. mine \<noteq> [] \<and> i = (if mine_last then length confs - 1 else 0));
                     good' = fold (\<lambda>i g. if \<not> skip i \<and> i \<in> set bad
                                         then erase_all (fst (confs ! i)) g else g)
                               [0..<length confs] good
                 in Inr (good', b))))"

definition merge_impl ::
  "env \<Rightarrow> int \<Rightarrow> (string \<times> bytes) list \<Rightarrow> config_base \<Rightarrow> (string list \<times> config_base) res" where
  "merge_impl e now configs b =
     (if cb_keys b = [] then Inl Logic_error
      else
        let old_seqno = cm_seqno (cb_config b); have_mine = (old_seqno \<noteq> 0 \<or> is_dirty b);
            mine_last = (have_mine \<and> cb_curr_hashes b = []) in
        res_bind (if have_mine then serialize_config e True b else Inr ([], b)) (\<lambda>(mine, b).
        res_bind (decrypt_all e (cb_keys b) configs) (\<lambda>plaintexts.
          merge_collected e now old_seqno mine mine_last
            (fold (process_plain e now) plaintexts
               (b, [], if have_mine \<and> \<not> mine_last then [(cb_curr_hashes b, mine)] else [])))))"

definition merge_base ::
  "env \<Rightarrow> int \<Rightarrow> (string \<times> bytes) list \<Rightarrow> config_base \<Rightarrow> (string list \<times> config_base) res" where
  "merge_base e now configs b = merge_impl e now (unwrap_incoming e b configs) b"

definition active_hashes :: "int \<Rightarrow> config_base \<Rightarrow> string list" where
  "active_hashes now b =
     fold (\<lambda>(h, p) hs. if \<not> ps_done p \<and> ps_expiry p > now then set_insert_all (map pm_id (ps_parts p)) hs else hs)
       (cb_multiparts b) (cb_curr_hashes b)"

definition old_hashes :: "config_base \<Rightarrow> string list \<times> config_base" where
  "old_hashes b = (if \<not> is_dirty b then (cb_old_hashes b, b\<lparr> cb_old_hashes := [] \<rparr>) else ([], b))"

section \<open>Pushing\<close>

definition compress_message :: "env \<Rightarrow> bytes \<Rightarrow> int \<Rightarrow> bytes" where
  "compress_message e msg level =
     (if level = 0 then msg
      else let compressed = e_zstd_compress e msg level ''z'' in
        if length compressed < length msg then compressed else msg)"

text \<open>One part: the list is written into a buffer of fixed size, which the last part may not fill.\<close>

definition encode_part :: "env \<Rightarrow> bytes \<Rightarrow> nat \<Rightarrow> nat \<Rightarrow> bytes \<Rightarrow> bool \<Rightarrow> bytes res" where
  "encode_part e final_hash index num_parts chunk last_part =
     (let l = bt_encode (e_libs e) (BtList [BtStr final_hash, BtStr [char_of index],
                 BtStr [char_of num_parts], BtStr chunk]);
          room = length chunk + ENCODE_OVERHEAD - 1 in
      if length l > room then Inl Length_error
      else res_bind (assertion e (room - length l \<le> (if last_part then 4 else 0))) (\<lambda>_.
        Inr (CHR ''m'' # l @ replicate (room - length l) (CHR 0x00))))"

fun split_parts :: "nat \<Rightarrow> bytes \<Rightarrow> bytes list" where
  "split_parts n [] = []"
| "split_parts n msg = (if n = 0 then [] else take n msg # split_parts n (drop n msg))"

definition num_parts_of :: "nat \<Rightarrow> nat" where
  "num_parts_of n = ((n + MAX_CHUNK_SIZE - 1) div MAX_CHUNK_SIZE) mod 256"

definition make_parts :: "env \<Rightarrow> bytes \<Rightarrow> bytes list res" where
  "make_parts e msg =
     (let final_hash = blake2b (e_libs e) msg; n = num_parts_of (length msg);
          chunks = split_parts MAX_CHUNK_SIZE msg in
      res_map (\<lambda>(i, chunk). encode_part e final_hash (i mod 256) n chunk (i = length chunks - 1))
        (zip [0..<length chunks] chunks))"

text \<open>The encrypted messages of a padded config: several parts when it is too long for one.\<close>

definition push_messages ::
  "env \<Rightarrow> int \<Rightarrow> int \<Rightarrow> bytes \<Rightarrow> bytes \<Rightarrow> config_base \<Rightarrow> (bytes list \<times> config_base) res" where
  "push_messages e now s key msg b =
     (if length msg + ENCRYPT_DATA_OVERHEAD > MAX_MESSAGE_SIZE then
        let h = blake2b (e_libs e) msg in
        res_bind (make_parts e msg) (\<lambda>parts.
        res_bind (res_map (\<lambda>p. encrypt (e_crypto e) p key (e_domain e)) parts) (\<lambda>out.
        res_bind (assertion e (1 < length out \<and> length out \<le> 255)) (\<lambda>_.
          Inr (out, set_parts h (finish now MULTIPART_MAX_REMEMBER (the_parts h b)) b))))
      else
        res_bind (encrypt (e_crypto e) msg key (e_domain e)) (\<lambda>ct.
        res_bind (if e_accepts_protobuf e then
            res_bind (e_wrap e key ct s) (\<lambda>w. Inr (if length w \<le> MAX_MESSAGE_SIZE then w else ct))
          else Inr ct) (\<lambda>ct.
        res_bind (assertion e (length ct \<le> MAX_MESSAGE_SIZE)) (\<lambda>_.
          Inr ([ct], b)))))"

definition push ::
  "env \<Rightarrow> int \<Rightarrow> config_base \<Rightarrow> ((int \<times> bytes list \<times> string list) \<times> config_base) res" where
  "push e now b =
     (if cb_keys b = [] then Inl Logic_error
      else
        let s = cm_seqno (cb_config b); key = hd (cb_keys b) in
        res_bind (serialize_config e True b) (\<lambda>(msg, b).
          let msg = (case e_compression_level e of None \<Rightarrow> msg | Some l \<Rightarrow> compress_message e msg l);
              msg = pad_message msg in
          res_bind (guard (length msg \<le> MAX_MULTIPART_SIZE) Length_error) (\<lambda>_.
          res_bind (push_messages e now s key msg b) (\<lambda>(msgs, b).
          res_bind (if is_dirty b then set_state Waiting b else Inr b) (\<lambda>b.
            Inr ((s, msgs, if is_readonly b then [] else cb_old_hashes b),
                 b\<lparr> cb_old_hashes := [] \<rparr>))))))"

definition confirm_pushed :: "int \<Rightarrow> string list \<Rightarrow> config_base \<Rightarrow> config_base res" where
  "confirm_pushed seqno msg_hashes b =
     (if cb_state b = Waiting \<and> seqno = cm_seqno (cb_config b) then
        res_bind (set_state Clean b) (\<lambda>b.
          Inr (b\<lparr> cb_curr_hashes := set_insert_all msg_hashes [], cb_needs_dump := True \<rparr>))
      else Inr b)"

section \<open>Dumping and restoring\<close>

definition state_code :: "config_state \<Rightarrow> int" where
  "state_code s = (case s of Clean \<Rightarrow> 0 | Dirty \<Rightarrow> 1 | Waiting \<Rightarrow> 2)"

definition dump_pairs :: "env \<Rightarrow> int \<Rightarrow> bytes \<Rightarrow> config_base \<Rightarrow> bt_dict" where
  "dump_pairs e now data b =
     [(''!'', BtInt (state_code (cb_state b))), (''$'', BtStr data),
      (''('', BtList (map BtStr (cb_curr_hashes b))), ('')'', BtList (map BtStr (cb_old_hashes b))),
      (''*'', BtDict (dump_multiparts now b)), (''+'', BtDict (e_extra_data e))]"

definition make_dump :: "env \<Rightarrow> int \<Rightarrow> config_base \<Rightarrow> (bytes \<times> config_base) res" where
  "make_dump e now b =
     res_bind (serialize_config e False b) (\<lambda>(data, b).
       Inr (bt_encode (e_libs e) (BtDict (dump_pairs e now data b)), b))"

definition dump :: "env \<Rightarrow> int \<Rightarrow> config_base \<Rightarrow> (bytes \<times> config_base) res" where
  "dump e now b =
     (let b = (if is_readonly b then b\<lparr> cb_old_hashes := [] \<rparr> else b); b = expire_multiparts now b in
      res_bind (make_dump e now b) (\<lambda>(d, b). Inr (d, b\<lparr> cb_needs_dump := False \<rparr>)))"

text \<open>\<open>ConfigSig\<close>. The closures read the keys of the object, which change only together with them.\<close>

definition clear_sig_keys :: "config_base \<Rightarrow> config_base" where
  "clear_sig_keys b =
     b\<lparr> cb_sign_pk := None, cb_sign_sk := None,
        cb_config := (cb_config b)\<lparr> cm_signer := None, cm_verifier := None \<rparr> \<rparr>"

definition set_sig_keys :: "env \<Rightarrow> bytes \<Rightarrow> config_base \<Rightarrow> config_base res" where
  "set_sig_keys e secret b =
     (if length secret \<noteq> 64 then Inl Invalid_argument
      else
        let b = clear_sig_keys b; pk = e_sk_to_pk e secret in
        Inr (b\<lparr> cb_sign_sk := Some secret, cb_sign_pk := Some pk,
                cb_config := (cb_config b)\<lparr> cm_verifier := Some (e_verify e pk),
                                            cm_signer := Some (e_sign e secret) \<rparr> \<rparr>))"

definition set_sig_pubkey :: "env \<Rightarrow> bytes \<Rightarrow> config_base \<Rightarrow> config_base res" where
  "set_sig_pubkey e pubkey b =
     (if length pubkey \<noteq> 32 then Inl Invalid_argument
      else Inr (b\<lparr> cb_sign_pk := Some pubkey,
                   cb_config := (cb_config b)\<lparr> cm_verifier := Some (e_verify e pubkey) \<rparr> \<rparr>))"

definition init_sig_keys :: "env \<Rightarrow> bytes option \<Rightarrow> bytes option \<Rightarrow> config_base \<Rightarrow> config_base res" where
  "init_sig_keys e pk sk b =
     (case sk of
        Some s \<Rightarrow>
          (case pk of
             None \<Rightarrow> set_sig_keys e s b
           | Some p \<Rightarrow>
               if length s < 32 then Inl Undefined_behaviour
               else if p \<noteq> drop 32 s then Inl Invalid_argument
               else set_sig_keys e s b)
      | None \<Rightarrow> (case pk of Some p \<Rightarrow> set_sig_pubkey e p b | None \<Rightarrow> Inr (clear_sig_keys b)))"

definition seed_hash :: "env \<Rightarrow> string \<Rightarrow> config_base \<Rightarrow> bytes res" where
  "seed_hash e key b =
     (case cb_sign_sk b of
        None \<Rightarrow> Inl Runtime_error
      | Some sk \<Rightarrow> Inr (generichash (e_crypto e) 32 (take 64 key) (take 32 sk)))"

definition fresh_base :: "config_message \<Rightarrow> config_base" where
  "fresh_base m = \<lparr> cb_config = m, cb_state = Clean, cb_keys = [], cb_curr_hashes = [], cb_old_hashes = [],
     cb_multiparts = [], cb_needs_dump = False, cb_sign_pk = None, cb_sign_sk = None \<rparr>"

definition state_of_code :: "int \<Rightarrow> config_state option" where
  "state_of_code i = (if i = 0 then Some Clean else if i = 1 then Some Dirty else if i = 2 then Some Waiting else None)"

fun strings_of :: "bt_list \<Rightarrow> string list res" where
  "strings_of [] = Inr []"
| "strings_of (BtStr s # l) = res_bind (strings_of l) (\<lambda>ss. Inr (s # ss))"
| "strings_of (v # l) = Inl Bt_deserialize_invalid"

text \<open>The hash lists: \<open>"("\<close> with a list or, in old dumps, a single string, then \<open>")"\<close>.\<close>

definition load_hashes :: "bt_dict \<Rightarrow> config_base \<Rightarrow> (bt_dict \<times> config_base) res" where
  "load_hashes d b =
     (case skip_until ''('' d of
        (k, v) # rest \<Rightarrow>
          if k \<noteq> ''('' then Inr ((k, v) # rest, b)
          else
            res_bind (case v of
                BtList l \<Rightarrow> strings_of l
              | BtStr s \<Rightarrow> Inr (if s = [] then [] else [s])
              | _ \<Rightarrow> Inl Runtime_error) (\<lambda>curr.
              case skip_until '')'' rest of
                (k2, v2) # rest2 \<Rightarrow>
                  if k2 \<noteq> '')'' then Inl Runtime_error
                  else (case v2 of
                      BtList l \<Rightarrow> res_bind (strings_of l) (\<lambda>old.
                        Inr (rest2, b\<lparr> cb_curr_hashes := set_insert_all curr [],
                                       cb_old_hashes := set_insert_all old [] \<rparr>))
                    | _ \<Rightarrow> Inl Bt_deserialize_invalid)
              | [] \<Rightarrow> Inl Runtime_error)
      | [] \<Rightarrow> Inr ([], b))"

text \<open>\<open>init\<close> from a dump. A state value outside the enumeration is modelled as undefined
  behaviour; \<open>load_extra_data\<close> belongs to the derived classes.\<close>

definition init_dump :: "env \<Rightarrow> int \<Rightarrow> bytes \<Rightarrow> config_base res" where
  "init_dump e now raw =
     (case bt_decode (e_libs e) raw of
        Some (BtDict d) \<Rightarrow>
          (case skip_until ''!'' d of
             (k, v) # d \<Rightarrow>
               if k \<noteq> ''!'' then Inl Runtime_error
               else res_bind (consume_int32 v) (\<lambda>code.
                 case skip_until ''$'' d of
                   (k, v) # d \<Rightarrow>
                     if k \<noteq> ''$'' then Inl Runtime_error
                     else (case v of
                         BtStr data \<Rightarrow>
                           (case state_of_code code of
                              None \<Rightarrow> Inl Undefined_behaviour
                            | Some st \<Rightarrow>
                                res_bind (if st = Dirty
                                          then mutable_load_message (e_libs e) data None None (e_lags e)
                                          else load_message (e_libs e) data None None (e_lags e) True) (\<lambda>m.
                                res_bind (load_hashes d ((fresh_base m)\<lparr> cb_state := st \<rparr>)) (\<lambda>(d, b).
                                  case skip_until ''*'' d of
                                    (k, v) # d' \<Rightarrow>
                                      if k = ''*'' then
                                        (case v of
                                           BtDict multi \<Rightarrow> load_multiparts now multi b
                                         | _ \<Rightarrow> Inl Bt_deserialize_invalid)
                                      else Inr b
                                  | [] \<Rightarrow> Inr b)))
                       | _ \<Rightarrow> Inl Bt_deserialize_invalid)
                 | [] \<Rightarrow> Inl Runtime_error)
           | [] \<Rightarrow> Inl Runtime_error)
      | _ \<Rightarrow> Inl Bt_deserialize_invalid)"

definition init ::
  "env \<Rightarrow> int \<Rightarrow> bytes option \<Rightarrow> bytes option \<Rightarrow> bytes option \<Rightarrow> config_base res" where
  "init e now dump_data pk sk =
     res_bind (case dump_data of
         None \<Rightarrow> res_bind (default_message (e_libs e)) (\<lambda>m. Inr (fresh_base m))
       | Some raw \<Rightarrow> init_dump e now raw)
     (init_sig_keys e pk sk)"

section \<open>Keys\<close>

definition has_key :: "bytes \<Rightarrow> config_base \<Rightarrow> bool res" where
  "has_key key b = (if length key \<noteq> 32 then Inl Invalid_argument else Inr (key \<in> set (cb_keys b)))"

text \<open>\<open>sodium_memcmp\<close> compares the first \<open>KEY_SIZE\<close> bytes.\<close>

definition remove_key :: "env \<Rightarrow> bytes \<Rightarrow> nat \<Rightarrow> bool \<Rightarrow> config_base \<Rightarrow> (bool \<times> config_base) res" where
  "remove_key e key from dirty_config b =
     (let ks = cb_keys b in
      if length ks \<le> from then Inr (False, b)
      else
        let dirty_config = (dirty_config \<and> \<not> is_readonly b \<and> take KEY_SIZE key = hd ks);
            ks' = take from ks @ filter (\<lambda>k. k \<noteq> take KEY_SIZE key) (drop from ks);
            b1 = b\<lparr> cb_keys := ks' \<rparr> in
        res_bind (if dirty_config then dirty e b1 else Inr b1) (\<lambda>b2.
          Inr (length ks' < length ks, b2)))"

definition add_key :: "env \<Rightarrow> bytes \<Rightarrow> bool \<Rightarrow> bool \<Rightarrow> config_base \<Rightarrow> config_base res" where
  "add_key e key high_priority dirty_config b =
     (if length key \<noteq> KEY_SIZE then Inl Invalid_argument
      else if cb_keys b \<noteq> [] \<and> hd (cb_keys b) = key then Inr b
      else
        res_bind (has_key key b) (\<lambda>has.
          if \<not> high_priority \<and> has then Inr b
          else
            res_bind (if high_priority then res_bind (remove_key e key 1 False b) (\<lambda>(_, b). Inr b) else Inr b)
              (\<lambda>b.
                 let b = b\<lparr> cb_keys := (if high_priority then key # cb_keys b else cb_keys b @ [key]) \<rparr> in
                 if dirty_config \<and> \<not> is_readonly b \<and> (length (cb_keys b) = 1 \<or> high_priority)
                 then dirty e b else Inr b)))"

definition clear_keys :: "env \<Rightarrow> bool \<Rightarrow> config_base \<Rightarrow> (nat \<times> config_base) res" where
  "clear_keys e dirty_config b =
     (let n = length (cb_keys b); b = b\<lparr> cb_keys := [] \<rparr> in
      res_bind (if dirty_config \<and> \<not> is_readonly b \<and> 0 < n then dirty e b else Inr b) (\<lambda>b. Inr (n, b)))"

definition replace_keys :: "env \<Rightarrow> bytes list \<Rightarrow> bool \<Rightarrow> config_base \<Rightarrow> config_base res" where
  "replace_keys e new_keys dirty_config b =
     (if new_keys = [] then
        (if cb_keys b = [] then Inr b else res_bind (clear_keys e dirty_config b) (\<lambda>(_, b). Inr b))
      else if \<exists>k \<in> set new_keys. length k \<noteq> KEY_SIZE then Inl Invalid_argument
      else
        let dirty_config = (dirty_config \<and> \<not> is_readonly b \<and>
              (cb_keys b = [] \<or> hd (cb_keys b) \<noteq> hd new_keys)) in
        res_bind (res_fold (\<lambda>k b. add_key e k False False b) new_keys (b\<lparr> cb_keys := [] \<rparr>)) (\<lambda>b.
          if dirty_config then dirty e b else Inr b))"

definition load_key :: "env \<Rightarrow> bytes \<Rightarrow> config_base \<Rightarrow> config_base res" where
  "load_key e sk b =
     (if length sk \<noteq> 64 \<and> length sk \<noteq> 32 then Inl Invalid_argument
      else add_key e (take 32 sk) True False b)"

end
