(* ===== verification/Config_Lifecycle.thy ===== *)
theory Config_Lifecycle
  imports Config_Base
begin

text \<open>
  The life cycle of a config object: the invariant that every operation of
  \<^theory_text>\<open>Config_Base\<close> preserves, the step relation over sequences of operations, and what pushing,
  confirming and editing do to the state.
\<close>

section \<open>The invariant\<close>

definition partial_ok :: "partial_messages \<Rightarrow> bool" where
  "partial_ok p \<longleftrightarrow> (ps_done p \<longrightarrow> ps_parts p = [] \<and> ps_size p = 0) \<and>
     sorted_wrt (<) (map pm_index (ps_parts p)) \<and>
     (\<forall>q \<in> set (ps_parts p). 0 \<le> pm_index q \<and> pm_index q < ps_size p \<and> pm_data q \<noteq> [])"

definition base_inv :: "config_base \<Rightarrow> bool" where
  "base_inv b \<longleftrightarrow>
     (cb_state b = Dirty \<longrightarrow> cm_orig_data (cb_config b) \<noteq> None) \<and>
     (cb_state b \<noteq> Clean \<longrightarrow> cb_curr_hashes b = []) \<and>
     ssorted (cb_curr_hashes b) \<and> ssorted (cb_old_hashes b) \<and>
     smap_ok (cb_multiparts b) \<and> (\<forall>(h, p) \<in> set (cb_multiparts b). partial_ok p) \<and>
     (\<forall>k \<in> set (cb_keys b). length k = 32) \<and> distinct (cb_keys b)"

lemma ssorted_insert_all [simp]: "ssorted s \<Longrightarrow> ssorted (set_insert_all hs s)"
  by (simp add: set_insert_all_def ssorted_fold_insert)

lemma set_insert_all_set [simp]: "set (set_insert_all hs s) = set hs \<union> set s"
  by (simp add: set_insert_all_def set_fold_insert)

section \<open>State changes\<close>

lemma set_state_inv:
  assumes "base_inv b" "set_state s b = Inr b'" "s = Dirty \<longrightarrow> cm_orig_data (cb_config b) \<noteq> None"
  shows "base_inv b' \<and> cb_state b' = s \<and> cb_config b' = cb_config b \<and> cb_keys b' = cb_keys b \<and>
     cb_curr_hashes b' = []"
  using assms by (auto simp: set_state_def base_inv_def Let_def split: if_splits)

lemma set_state_orig:
  "base_inv b \<Longrightarrow> base_inv (b\<lparr> cb_config := m \<rparr>) \<longleftrightarrow> (cb_state b = Dirty \<longrightarrow> cm_orig_data m \<noteq> None)"
  by (auto simp: base_inv_def)

lemma msg_diff_orig: "msg_diff m = Inr m' \<Longrightarrow> (cm_orig_data m' = None) = (cm_orig_data m = None) \<and>
    cm_seqno_hash m' = cm_seqno_hash m \<and> cm_verifier m' = cm_verifier m \<and> cm_signer m' = cm_signer m"
  by (auto simp: msg_diff_def Let_def res_bind_eq_Inr split: option.splits)

lemma serialize_orig:
  "serialize x m en = Inr (b, m') \<Longrightarrow> (cm_orig_data m' = None) = (cm_orig_data m = None) \<and>
     cm_seqno_hash m' = cm_seqno_hash m \<and> cm_verifier m' = cm_verifier m \<and> cm_signer m' = cm_signer m"
  by (auto simp: serialize_def res_bind_eq_Inr dest!: msg_diff_orig)

lemma msg_hash_seqno: "msg_hash x m = Inr m' \<Longrightarrow> cm_seqno m' = cm_seqno m"
  by (auto simp: msg_hash_def res_bind_eq_Inr set_hash_def split: option.splits dest!: serialize_orig)

lemma increment_impl_orig:
  "increment_impl m = Inr m' \<Longrightarrow> cm_orig_data m' = Some (cm_data m) \<and> cm_data m' = cm_data m \<and>
     cm_seqno m' = cm_seqno m + 1 \<and> cm_unmerged m' = cm_unmerged m"
  by (auto simp: increment_impl_def res_bind_eq_Inr i64_arith_eq_Inr Let_def)

lemma increment_orig: "increment x m = Inr m' \<Longrightarrow> cm_orig_data m' \<noteq> None \<and> cm_seqno m' = cm_seqno m + 1"
  by (auto simp: increment_def res_bind_eq_Inr msg_hash_seqno dest!: increment_impl_orig)

lemma dirty_step:
  assumes "base_inv b" "dirty e b = Inr b'"
  shows "base_inv b' \<and> cb_state b' = Dirty \<and> cb_keys b' = cb_keys b \<and>
     (cb_state b \<noteq> Dirty \<longrightarrow> cm_seqno (cb_config b') = cm_seqno (cb_config b) + 1 \<and> \<not> is_readonly b) \<and>
     (cb_state b = Dirty \<longrightarrow> b' = b\<lparr> cb_needs_dump := True \<rparr>)"
proof (cases "cb_state b = Dirty")
  case True
  with assms show ?thesis by (auto simp: dirty_def base_inv_def split: if_splits)
next
  case False
  with assms(2) obtain b1 m where b1: "set_state Dirty b = Inr b1" "increment (e_libs e) (cb_config b1) = Inr m"
    "b' = b1\<lparr> cb_config := m \<rparr>"
    by (auto simp: dirty_def res_bind_eq_Inr split: if_splits)
  have "cm_orig_data m \<noteq> None" "cm_seqno m = cm_seqno (cb_config b1) + 1"
    using increment_orig [OF b1(2)] by auto
  moreover have "\<not> is_readonly b" "cb_state b1 = Dirty" "cb_config b1 = cb_config b" "cb_keys b1 = cb_keys b"
    "base_inv (b1\<lparr> cb_config := m \<rparr>)"
    using b1(1) assms(1) \<open>cm_orig_data m \<noteq> None\<close>
    by (auto simp: set_state_def base_inv_def Let_def split: if_splits)
  ultimately show ?thesis using b1(3) False by simp
qed

section \<open>Multipart messages\<close>

lemma insert_part_sorted:
  "insert_part p ps = Some qs \<Longrightarrow> sorted_wrt (<) (map pm_index ps) \<Longrightarrow>
   sorted_wrt (<) (map pm_index qs) \<and> set qs = insert p (set ps)"
proof (induction ps arbitrary: qs)
  case (Cons q ps)
  show ?case
  proof (cases "pm_index q < pm_index p")
    case True
    with Cons.prems(1) obtain rs where rs: "insert_part p ps = Some rs" "qs = q # rs" by auto
    with True Cons show ?thesis by auto
  next
    case False
    with Cons.prems show ?thesis by (fastforce split: if_splits)
  qed
qed auto

lemma of_char_int_nonneg [simp]: "0 \<le> (of_char c :: int)"
  by (metis of_nat_0_le_iff of_nat_of_char)

lemma parse_part_range:
  "parse_part e msg = Some (h, i, n, d) \<Longrightarrow> 0 \<le> i \<and> i < n \<and> 1 < n \<and> d \<noteq> [] \<and> length h = 32"
  by (auto simp: parse_part_def Let_def split: if_splits option.splits bt_value.splits list.splits)

lemma set_parts_inv:
  assumes "base_inv b" "partial_ok p"
  shows "base_inv (set_parts h p b)"
  using assms by (auto simp: base_inv_def set_parts_def dest: smap_put_values)

lemma the_parts_ok: "base_inv b \<Longrightarrow> partial_ok (the_parts h b)"
  by (auto simp: the_parts_def base_inv_def partial_ok_def empty_partial_def split: option.split dest!: map_of_SomeD)

lemma finish_ok [simp]: "partial_ok (finish now t p)"
  by (simp add: finish_def partial_ok_def)

lemma needs_dump_inv [simp]: "base_inv (b\<lparr> cb_needs_dump := d \<rparr>) = base_inv b"
  by (simp add: base_inv_def)

lemma set_parts_frame [simp]:
  "cb_config (set_parts h p b) = cb_config b" "cb_state (set_parts h p b) = cb_state b"
  "cb_keys (set_parts h p b) = cb_keys b" "cb_curr_hashes (set_parts h p b) = cb_curr_hashes b"
  "cb_old_hashes (set_parts h p b) = cb_old_hashes b"
  by (simp_all add: set_parts_def)

lemma handle_multipart_inv:
  assumes "base_inv b" "handle_multipart e now mid msg b = (b', acc, done)"
  shows "base_inv b' \<and> cb_config b' = cb_config b \<and> cb_state b' = cb_state b \<and> cb_keys b' = cb_keys b \<and>
     cb_curr_hashes b' = cb_curr_hashes b \<and> cb_old_hashes b' = cb_old_hashes b"
proof (cases "parse_part e msg")
  case None
  with assms show ?thesis by (simp add: handle_multipart_def)
next
  case (Some t)
  obtain h i n d where t: "parse_part e msg = Some (h, i, n, d)" using Some by (cases t) auto
  note range = parse_part_range [OF t]
  define p0 where "p0 = the_parts h b"
  have p0: "partial_ok p0" using the_parts_ok [OF assms(1)] by (simp add: p0_def)
  define p1 where "p1 = (if ps_parts p0 = [] then p0\<lparr> ps_size := n \<rparr> else p0)"
  have new: "partial_ok (p1\<lparr> ps_parts := ps \<rparr>)" and new_exp: "partial_ok (p1\<lparr> ps_parts := ps, ps_expiry := t \<rparr>)"
    if ins: "insert_part \<lparr> pm_index = i, pm_id = mid, pm_data = d \<rparr> (ps_parts p1) = Some ps" "\<not> ps_done p0"
      "\<not> (ps_parts p0 \<noteq> [] \<and> n \<noteq> ps_size p0)" for ps t
  proof -
    have "sorted_wrt (<) (map pm_index (ps_parts p1))" using p0 by (simp add: partial_ok_def p1_def)
    from insert_part_sorted [OF ins(1) this] p0 ins(2,3) range
    show "partial_ok (p1\<lparr> ps_parts := ps \<rparr>)" "partial_ok (p1\<lparr> ps_parts := ps, ps_expiry := t \<rparr>)"
      by (auto simp: partial_ok_def p1_def split: if_splits)
  qed
  have p1: "partial_ok p1" if "\<not> ps_done p0" using p0 that by (auto simp: partial_ok_def p1_def)
  show ?thesis
    using assms(2) unfolding handle_multipart_def t option.case prod.case Let_def p0_def [symmetric] p1_def [symmetric]
    by (auto split: if_splits option.splits intro!: set_parts_inv assms(1) p0 p1 new new_exp)
qed

lemma process_plain_inv:
  assumes "base_inv b" "process_plain e now hp (b, good, confs) = (b', good', confs')"
  shows "base_inv b' \<and> cb_config b' = cb_config b \<and> cb_state b' = cb_state b \<and> cb_keys b' = cb_keys b \<and>
     cb_curr_hashes b' = cb_curr_hashes b \<and> cb_old_hashes b' = cb_old_hashes b"
proof -
  obtain h plain where hp: "hp = (h, plain)" by fastforce
  show ?thesis
    using assms handle_multipart_inv [OF assms(1), of e now h "strip_padding plain"] unfolding hp process_plain_def
    by (auto simp: Let_def split: if_splits option.splits prod.splits)
qed

lemma process_plains_inv:
  "base_inv b \<Longrightarrow> fold (process_plain e now) ps (b, good, confs) = (b', good', confs') \<Longrightarrow>
   base_inv b' \<and> cb_config b' = cb_config b \<and> cb_state b' = cb_state b \<and> cb_keys b' = cb_keys b \<and>
     cb_curr_hashes b' = cb_curr_hashes b \<and> cb_old_hashes b' = cb_old_hashes b"
proof (induction ps arbitrary: b good confs)
  case (Cons p ps)
  obtain b1 g1 c1 where 1: "process_plain e now p (b, good, confs) = (b1, g1, c1)" by (metis prod.exhaust)
  with Cons.prems have "fold (process_plain e now) ps (b1, g1, c1) = (b', good', confs')" by simp
  from Cons.IH [OF _ this] process_plain_inv [OF Cons.prems(1) 1] show ?case by auto
qed auto

section \<open>Merging\<close>

lemma serialize_config_frame:
  "serialize_config e en b = Inr (d, b') \<Longrightarrow>
   \<exists>m. b' = b\<lparr> cb_config := m \<rparr> \<and> (cm_orig_data m = None) = (cm_orig_data (cb_config b) = None) \<and>
     cm_seqno_hash m = cm_seqno_hash (cb_config b) \<and> cm_verifier m = cm_verifier (cb_config b) \<and>
     cm_signer m = cm_signer (cb_config b)"
  by (auto simp: serialize_config_def res_bind_eq_Inr dest!: serialize_orig)

lemma serialize_config_inv: "base_inv b \<Longrightarrow> serialize_config e en b = Inr (d, b') \<Longrightarrow> base_inv b'"
  by (auto simp: set_state_orig base_inv_def dest!: serialize_config_frame)

lemma mutable_merge_orig: "mutable_merge_configs x vf sg lag h cs = Inr (m, bad) \<Longrightarrow> cm_orig_data m \<noteq> None"
  by (auto simp: mutable_merge_configs_def res_bind_eq_Inr split: if_splits dest!: increment_impl_orig)

lemma expire_inv: "base_inv b \<Longrightarrow> base_inv (expire_multiparts now b)"
  by (auto simp: base_inv_def expire_multiparts_def sorted_wrt_map sorted_wrt_filter)

lemma expire_frame [simp]:
  "cb_config (expire_multiparts now b) = cb_config b" "cb_state (expire_multiparts now b) = cb_state b"
  "cb_keys (expire_multiparts now b) = cb_keys b" "cb_curr_hashes (expire_multiparts now b) = cb_curr_hashes b"
  "cb_old_hashes (expire_multiparts now b) = cb_old_hashes b"
  by (simp_all add: expire_multiparts_def)

lemma ssorted_obsolete: "ssorted old \<Longrightarrow> ssorted (obsolete_hashes confs super bad old)"
proof -
  have "ssorted old \<Longrightarrow> ssorted (fold (\<lambda>i old. if P i then set_insert_all (f i) old else old) is old)"
    for P f "is" old by (induction "is" arbitrary: old) auto
  then show "ssorted old \<Longrightarrow> ssorted (obsolete_hashes confs super bad old)"
    by (simp add: obsolete_hashes_def Let_def)
qed

lemma adopt_cases:
  assumes "adopt e old_seqno mine mlast confs m b = Inr b'"
  obtains "b' = b"
  | "set_state Dirty (b\<lparr> cb_config := (if cb_state b \<noteq> Dirty then retain m else m) \<rparr>) = Inr b'"
  | b1 hs where "set_state Clean (b\<lparr> cb_config := m \<rparr>) = Inr b1"
      "b' = b1\<lparr> cb_curr_hashes := set_insert_all hs [] \<rparr>"
proof -
  let ?c = "cm_unmerged m = Some (if mlast then length confs - 1 else 0)"
  consider (same) "cm_seqno m = old_seqno" | (merge) "cm_seqno m \<noteq> old_seqno" "merged m"
    | (keep) "cm_seqno m \<noteq> old_seqno" "\<not> merged m" "cb_state b = Dirty \<and> ?c \<and> cm_seqno m = old_seqno + 1"
    | (new) "cm_seqno m \<noteq> old_seqno" "\<not> merged m" "\<not> (cb_state b = Dirty \<and> ?c \<and> cm_seqno m = old_seqno + 1)"
    by blast
  then show ?thesis
  proof cases
    case new
    then have "res_bind (set_state Clean (b\<lparr> cb_config := m \<rparr>)) (\<lambda>b.
        Inr (b\<lparr> cb_curr_hashes := set_insert_all (fst (confs ! the (cm_unmerged m))) [] \<rparr>)) = Inr b'"
      using assms unfolding adopt_def Let_def if_not_P [OF new(3)]
      by (simp add: res_bind_eq_Inr split del: if_split)
    then show ?thesis using that(3) unfolding res_bind_eq_Inr by blast
  qed (use that assms in \<open>simp_all add: adopt_def split del: if_split\<close>)
qed

lemma set_state_config_inv:
  assumes "base_inv b" "set_state s (b\<lparr> cb_config := m \<rparr>) = Inr b1" "s = Dirty \<longrightarrow> cm_orig_data m \<noteq> None"
  shows "base_inv b1 \<and> cb_state b1 = s"
  using assms by (auto simp: set_state_def base_inv_def Let_def split: if_splits)

lemma adopt_inv:
  assumes "base_inv b" "adopt e old_seqno mine mlast confs m b = Inr b'"
    "cb_state b = Dirty \<longrightarrow> cm_orig_data m \<noteq> None"
  shows "base_inv b'"
  using assms(2)
proof (cases rule: adopt_cases)
  case 2
  have "cm_orig_data (if cb_state b \<noteq> Dirty then retain m else m) \<noteq> None"
    using assms(3) by (auto simp: retain_def split: option.split)
  then show ?thesis using set_state_config_inv [OF assms(1) 2] by simp
next
  case (3 b1 hs)
  then show ?thesis using set_state_config_inv [OF assms(1) 3(1)] by (simp add: base_inv_def)
qed (use assms(1) in simp)

lemma merge_collected_cases:
  assumes "merge_collected e now old_seqno mine mine_last (b, good, confs) = Inr (good', b')"
  obtains "b' = expire_multiparts now b"
  | m bad cs confs' where "make_config_message e (cb_state b = Dirty) (cb_config b) cs = Inr (m, bad)"
      "adopt e old_seqno (mine \<noteq> []) mine_last confs' m ((expire_multiparts now b)\<lparr> cb_old_hashes :=
         obsolete_hashes confs' (cm_unmerged m) bad (cb_old_hashes b) \<rparr>) = Inr b'"
proof (cases "(if mine_last then confs @ [(cb_curr_hashes b, mine)] else confs) = []")
  case True
  then show ?thesis using assms that(1) by (simp add: merge_collected_def split: if_splits)
next
  case False
  then show ?thesis
    using assms that(2) by (auto simp: merge_collected_def Let_def res_bind_eq_Inr split del: if_split)
qed

lemma merge_collected_inv:
  assumes "base_inv b" "merge_collected e now old_seqno mine mine_last (b, good, confs) = Inr (good', b')"
  shows "base_inv b'"
  using assms(2)
proof (cases rule: merge_collected_cases)
  case (2 m bad cs confs')
  show ?thesis
  proof (rule adopt_inv [OF _ 2(2)])
    show "base_inv ((expire_multiparts now b)\<lparr> cb_old_hashes :=
        obsolete_hashes confs' (cm_unmerged m) bad (cb_old_hashes b) \<rparr>)"
      using expire_inv [OF assms(1)] assms(1) ssorted_obsolete by (simp add: base_inv_def)
  qed (use 2(1) in \<open>auto simp: make_config_message_def dest: mutable_merge_orig\<close>)
qed (use expire_inv [OF assms(1)] in simp)

lemma merge_impl_stages:
  assumes "merge_impl e now configs b = Inr (good, b')"
  obtains mine b1 ps s ml where "b1 = b \<or> (\<exists>d. serialize_config e True b = Inr (d, b1))"
    "merge_collected e now (cm_seqno (cb_config b)) mine ml (fold (process_plain e now) ps (b1, [], s)) = Inr (good, b')"
proof -
  let ?have = "cm_seqno (cb_config b) \<noteq> 0 \<or> is_dirty b"
  from assms obtain mine b1 where b1: "(if ?have then serialize_config e True b else Inr ([], b)) = Inr (mine, b1)"
    "\<exists>ps. decrypt_all e (cb_keys b1) configs = Inr ps \<and>
       merge_collected e now (cm_seqno (cb_config b)) mine (?have \<and> cb_curr_hashes b = [])
         (fold (process_plain e now) ps
           (b1, [], if ?have \<and> \<not> (?have \<and> cb_curr_hashes b = []) then [(cb_curr_hashes b1, mine)] else [])) = Inr (good, b')"
    unfolding merge_impl_def Let_def
    by (cases "cb_keys b = []") (auto simp: res_bind_eq_Inr split del: if_split)
  have "b1 = b \<or> (\<exists>d. serialize_config e True b = Inr (d, b1))"
    using b1(1) by (auto split: if_splits)
  with b1(2) that show ?thesis by blast
qed

lemma merge_impl_inv:
  assumes "base_inv b" "merge_impl e now configs b = Inr (good, b')"
  shows "base_inv b'"
  using assms(2)
proof (cases rule: merge_impl_stages)
  case (1 mine b1 ps s ml)
  obtain b2 g c where f: "fold (process_plain e now) ps (b1, [], s) = (b2, g, c)" by (metis prod.exhaust)
  have "base_inv b1" using 1(1) assms(1) serialize_config_inv by blast
  then have "base_inv b2" using process_plains_inv [OF _ f] by simp
  then show ?thesis using 1(2) merge_collected_inv unfolding f by blast
qed

section \<open>Pushing, keys and signing keys\<close>

lemma push_messages_frame:
  "push_messages e now s key msg b = Inr (msgs, b') \<Longrightarrow>
   b' = b \<or> (\<exists>h p. b' = set_parts h (finish now MULTIPART_MAX_REMEMBER p) b)"
  unfolding push_messages_def Let_def by (auto simp: res_bind_eq_Inr split: if_splits)

lemma push_step:
  assumes "base_inv b" "push e now b = Inr ((s, msgs, obs), b')"
  shows "base_inv b' \<and> s = cm_seqno (cb_config b) \<and> cm_seqno (cb_config b') = s \<and> cb_old_hashes b' = [] \<and>
     cb_keys b' = cb_keys b \<and> cb_state b' = (if cb_state b = Dirty then Waiting else cb_state b) \<and>
     obs = (if is_readonly b then [] else cb_old_hashes b)"
proof -
  from assms(2) obtain d b1 msg b2 b3 where s: "s = cm_seqno (cb_config b)"
    and b1: "serialize_config e True b = Inr (d, b1)"
    and msgs: "push_messages e now s (hd (cb_keys b)) msg b1 = Inr (msgs, b2)"
    and b3: "(if is_dirty b2 then set_state Waiting b2 else Inr b2) = Inr b3"
    and b': "b' = b3\<lparr> cb_old_hashes := [] \<rparr>" "obs = (if is_readonly b3 then [] else cb_old_hashes b3)"
    by (cases "cb_keys b = []") (auto simp: push_def Let_def res_bind_eq_Inr split del: if_split)
  note b2 = push_messages_frame [OF msgs]
  obtain m where m: "b1 = b\<lparr> cb_config := m \<rparr>" "cm_seqno_hash m = cm_seqno_hash (cb_config b)"
    "cm_verifier m = cm_verifier (cb_config b)" "cm_signer m = cm_signer (cb_config b)"
    using serialize_config_frame [OF b1] by blast
  have b2_inv: "base_inv b2" using b2 serialize_config_inv [OF assms(1) b1] by (auto intro: set_parts_inv)
  have b2_eq: "cb_config b2 = m" "cb_state b2 = cb_state b" "cb_keys b2 = cb_keys b" "cb_old_hashes b2 = cb_old_hashes b"
    using b2 m(1) by auto
  have "base_inv b3 \<and> cb_config b3 = m \<and> cb_keys b3 = cb_keys b \<and> cb_old_hashes b3 = cb_old_hashes b \<and>
      cb_state b3 = (if cb_state b = Dirty then Waiting else cb_state b)"
    using b3 b2_inv b2_eq by (auto simp: is_dirty_def set_state_def base_inv_def Let_def split: if_splits)
  then show ?thesis
    using s b' m by (auto simp: base_inv_def is_readonly_def)
qed

lemma confirm_step:
  assumes "base_inv b" "confirm_pushed s hs b = Inr b'"
  shows "base_inv b' \<and> cb_keys b' = cb_keys b \<and> cb_config b' = cb_config b \<and>
     (if cb_state b = Waiting \<and> s = cm_seqno (cb_config b)
      then cb_state b' = Clean \<and> set (cb_curr_hashes b') = set hs \<and> cb_old_hashes b' = cb_old_hashes b
      else b' = b)"
  using assms by (auto simp: confirm_pushed_def res_bind_eq_Inr set_state_def base_inv_def Let_def split: if_splits)

lemma dump_inv:
  assumes "base_inv b" "dump e now b = Inr (d, b')"
  shows "base_inv b'"
proof -
  define b1 where "b1 = expire_multiparts now (if is_readonly b then b\<lparr> cb_old_hashes := [] \<rparr> else b)"
  have "base_inv b1" unfolding b1_def by (rule expire_inv) (use assms(1) in \<open>simp add: base_inv_def\<close>)
  moreover obtain x b2 where "serialize_config e False b1 = Inr (x, b2)" "b' = b2\<lparr> cb_needs_dump := False \<rparr>"
    using assms(2) unfolding dump_def Let_def b1_def [symmetric] make_dump_def
    by (auto simp: res_bind_eq_Inr)
  ultimately show ?thesis using serialize_config_inv by auto
qed

lemma keys_inv:
  assumes "base_inv b" "\<forall>k \<in> set ks. length k = 32" "distinct ks"
  shows "base_inv (b\<lparr> cb_keys := ks \<rparr>)"
  using assms by (simp add: base_inv_def)

lemma remove_key_inv:
  assumes "base_inv b" "remove_key e key from d b = Inr (r, b')"
  shows "base_inv b' \<and> set (cb_keys b') = set (take from (cb_keys b)) \<union> (set (drop from (cb_keys b)) - {take 32 key})"
proof (cases "length (cb_keys b) \<le> from")
  case True
  then show ?thesis using assms by (auto simp: remove_key_def)
next
  case False
  define ks where "ks = take from (cb_keys b) @ filter (\<lambda>k. k \<noteq> take KEY_SIZE key) (drop from (cb_keys b))"
  have "distinct ks"
    using assms(1) set_take_disj_set_drop_if_distinct [of "cb_keys b" "from" "from"]
    by (auto simp: ks_def base_inv_def)
  then have ks: "base_inv (b\<lparr> cb_keys := ks \<rparr>)"
    using assms(1) by (intro keys_inv) (auto simp: ks_def base_inv_def dest: in_set_takeD in_set_dropD)
  from False assms(2) have "dirty e (b\<lparr> cb_keys := ks \<rparr>) = Inr b' \<or> b' = b\<lparr> cb_keys := ks \<rparr>"
    unfolding remove_key_def Let_def ks_def [symmetric] by (auto simp: res_bind_eq_Inr split: if_splits)
  then have "base_inv b' \<and> cb_keys b' = ks"
    using ks dirty_step [OF ks, of e b'] by auto
  then show ?thesis by (auto simp: ks_def KEY_SIZE_def)
qed

lemma add_key_inv:
  assumes "base_inv b" "add_key e key high d b = Inr b'"
  shows "base_inv b' \<and> set (cb_keys b') = insert key (set (cb_keys b)) \<and> (high \<longrightarrow> hd (cb_keys b') = key)"
proof -
  have len: "length key = 32" using assms(2) by (auto simp: add_key_def KEY_SIZE_def split: if_splits)
  consider (front) "cb_keys b \<noteq> []" "hd (cb_keys b) = key" "b' = b"
    | (known) "\<not> high" "key \<in> set (cb_keys b)" "b' = b"
    | (new) b1 where "if high then \<exists>r. remove_key e key 1 False b = Inr (r, b1) else b1 = b \<and> key \<notin> set (cb_keys b)"
        "\<not> (cb_keys b \<noteq> [] \<and> hd (cb_keys b) = key)"
        "dirty e (b1\<lparr> cb_keys := (if high then key # cb_keys b1 else cb_keys b1 @ [key]) \<rparr>) = Inr b' \<or>
         b' = b1\<lparr> cb_keys := (if high then key # cb_keys b1 else cb_keys b1 @ [key]) \<rparr>"
    using assms(2) len unfolding add_key_def has_key_def Let_def
    by (auto simp: res_bind_eq_Inr KEY_SIZE_def split: if_splits)
  then show ?thesis
  proof cases
    case front
    then show ?thesis using assms(1) by (cases "cb_keys b") auto
  next
    case known
    then show ?thesis using assms(1) by auto
  next
    case (new b1)
    let ?ks = "if high then key # cb_keys b1 else cb_keys b1 @ [key]"
    have take1: "set (take 1 (cb_keys b)) \<union> (set (drop 1 (cb_keys b)) - {key}) = set (cb_keys b) - {key}"
      using new(2) assms(1) by (cases "cb_keys b") (auto simp: base_inv_def)
    have b1: "base_inv b1" "key \<notin> set (cb_keys b1)" "insert key (set (cb_keys b1)) = insert key (set (cb_keys b))"
      using new(1) assms(1) len remove_key_inv [OF assms(1), of e key 1 False _ b1] take1 by (auto split: if_splits)
    have ks: "base_inv (b1\<lparr> cb_keys := ?ks \<rparr>)"
      by (rule keys_inv) (use b1 len in \<open>auto simp: base_inv_def\<close>)
    then have "base_inv b' \<and> cb_keys b' = ?ks"
      using new(3) dirty_step [OF ks, of e b'] by auto
    then show ?thesis using b1(3) by auto
  qed
qed

lemma clear_keys_inv:
  assumes "base_inv b" "clear_keys e d b = Inr (n, b')"
  shows "base_inv b' \<and> cb_keys b' = []"
proof -
  have b0: "base_inv (b\<lparr> cb_keys := [] \<rparr>)" using keys_inv [OF assms(1)] by simp
  have "dirty e (b\<lparr> cb_keys := [] \<rparr>) = Inr b' \<or> b' = b\<lparr> cb_keys := [] \<rparr>"
    using assms(2) by (auto simp: clear_keys_def Let_def res_bind_eq_Inr split: if_splits)
  then show ?thesis using b0 dirty_step [OF b0, of e b'] by auto
qed

lemma add_keys_inv:
  "base_inv b \<Longrightarrow> res_fold (\<lambda>k b. add_key e k False False b) ks b = Inr b' \<Longrightarrow>
   base_inv b' \<and> set (cb_keys b') = set ks \<union> set (cb_keys b)"
proof (induction ks arbitrary: b)
  case (Cons k ks)
  then obtain b1 where "add_key e k False False b = Inr b1"
    "res_fold (\<lambda>k b. add_key e k False False b) ks b1 = Inr b'"
    by (auto simp: res_bind_eq_Inr)
  with Cons.IH [of b1] add_key_inv [OF Cons.prems(1)] show ?case by auto
qed simp

lemma replace_keys_inv:
  assumes "base_inv b" "replace_keys e ks d b = Inr b'"
  shows "base_inv b' \<and> set (cb_keys b') = set ks"
proof (cases "ks = []")
  case True
  then show ?thesis using assms clear_keys_inv [OF assms(1), of e d]
    by (auto simp: replace_keys_def res_bind_eq_Inr split: if_splits)
next
  case False
  with assms(2) obtain b1 where b1: "res_fold (\<lambda>k b. add_key e k False False b) ks (b\<lparr> cb_keys := [] \<rparr>) = Inr b1"
    "dirty e b1 = Inr b' \<or> b' = b1"
    unfolding replace_keys_def Let_def by (auto simp: res_bind_eq_Inr split: if_splits)
  have "base_inv b1 \<and> set (cb_keys b1) = set ks"
    using add_keys_inv [OF keys_inv [OF assms(1), of "[]"] b1(1)] by simp
  then show ?thesis using b1(2) dirty_step [of b1 e b'] by auto
qed

lemma config_fields_inv:
  "base_inv b \<Longrightarrow> cm_orig_data m = cm_orig_data (cb_config b) \<Longrightarrow> base_inv (b\<lparr> cb_config := m \<rparr>)"
  by (simp add: base_inv_def)

lemma sig_field_inv [simp]:
  "base_inv (b\<lparr> cb_sign_pk := p \<rparr>) = base_inv b" "base_inv (b\<lparr> cb_sign_sk := p \<rparr>) = base_inv b"
  by (simp_all add: base_inv_def)

lemma init_sig_keys_inv: "base_inv b \<Longrightarrow> init_sig_keys e pk sk b = Inr b' \<Longrightarrow> base_inv b'"
  by (auto simp: init_sig_keys_def set_sig_keys_def set_sig_pubkey_def clear_sig_keys_def base_inv_def Let_def
      split: option.splits if_splits)

lemma fresh_inv: "base_inv (fresh_base m)"
  by (simp add: base_inv_def fresh_base_def)

section \<open>Sequences of operations\<close>

text \<open>
  One operation on a config object. Between the call of \<open>dirty()\<close> and the next operation a setter may
  leave any data in the mutable message.
\<close>

inductive base_step :: "env \<Rightarrow> config_base \<Rightarrow> config_base \<Rightarrow> bool" for e where
  edit: "dirty e b = Inr b' \<Longrightarrow> base_step e b (b'\<lparr> cb_config := (cb_config b')\<lparr> cm_data := d \<rparr> \<rparr>)"
| merge: "merge_base e now configs b = Inr (good, b') \<Longrightarrow> base_step e b b'"
| push: "push e now b = Inr (r, b') \<Longrightarrow> base_step e b b'"
| confirm: "confirm_pushed s hs b = Inr b' \<Longrightarrow> base_step e b b'"
| take_old: "old_hashes b = (hs, b') \<Longrightarrow> base_step e b b'"
| dump: "dump e now b = Inr (d, b') \<Longrightarrow> base_step e b b'"
| add_key: "add_key e k high d b = Inr b' \<Longrightarrow> base_step e b b'"
| remove_key: "remove_key e k from d b = Inr (r, b') \<Longrightarrow> base_step e b b'"
| clear_keys: "clear_keys e d b = Inr (n, b') \<Longrightarrow> base_step e b b'"
| replace_keys: "replace_keys e ks d b = Inr b' \<Longrightarrow> base_step e b b'"
| set_sig_keys: "set_sig_keys e sk b = Inr b' \<Longrightarrow> base_step e b b'"
| set_sig_pubkey: "set_sig_pubkey e pk b = Inr b' \<Longrightarrow> base_step e b b'"

inductive_cases base_stepE [elim]: "base_step e b b'"

inductive base_reachable :: "env \<Rightarrow> config_base \<Rightarrow> bool" for e where
  start: "init e now None pk sk = Inr b \<Longrightarrow> base_reachable e b"
| step: "base_reachable e b \<Longrightarrow> base_step e b b' \<Longrightarrow> base_reachable e b'"

lemma base_step_inv: "base_step e b b' \<Longrightarrow> base_inv b \<Longrightarrow> base_inv b'"
proof (induction rule: base_step.induct)
  case (edit b b' d)
  then show ?case using dirty_step [of b e b'] by (simp add: base_inv_def)
next
  case (merge now configs b good b')
  then show ?case using merge_impl_inv by (auto simp: merge_base_def)
next
  case (push now b r b')
  then show ?case using push_step by (metis prod.exhaust)
next
  case (set_sig_keys sk b b')
  then show ?case by (auto simp: set_sig_keys_def clear_sig_keys_def base_inv_def Let_def split: if_splits)
next
  case (set_sig_pubkey pk b b')
  then show ?case by (auto simp: set_sig_pubkey_def base_inv_def split: if_splits)
next
  case (take_old b hs b')
  then show ?case by (auto simp: old_hashes_def base_inv_def split: if_splits)
qed (auto dest: confirm_step dump_inv add_key_inv remove_key_inv clear_keys_inv replace_keys_inv)

lemma init_None_inv: "init e now None pk sk = Inr b \<Longrightarrow> base_inv b"
  by (auto simp: init_def res_bind_eq_Inr intro: init_sig_keys_inv [OF fresh_inv])

text \<open>
  C18: in every state that a new config object reaches by any sequence of edits, merges, pushes,
  confirmations, dumps, key and signing-key changes, a dirty object holds a mutable message (so the
  internal error of \<open>dirty()\<close> cannot happen), an object that is not clean has no current message hash
  (they have moved to the obsolete ones), the encryption keys are distinct and 32 bytes long, and the
  stored message parts are in order, within their count and empty once a set is done.
\<close>

theorem reachable_inv: "base_reachable e b \<Longrightarrow> base_inv b"
  by (induction rule: base_reachable.induct) (blast intro: init_None_inv base_step_inv)+

section \<open>What the cycle guarantees\<close>

text \<open>
  C6: pushing a dirty object and confirming the push makes it clean, with the confirmed hashes as its
  current ones and all obsolete hashes handed out. An edit made between the push and its confirmation
  is never lost: the late confirmation changes nothing, neither before nor after the edit is pushed
  under its own, higher seqno.
\<close>

theorem push_confirm_cycle:
  assumes "base_inv b" "cb_state b = Dirty" "push e now b = Inr ((s, msgs, obs), b1)"
  shows "cb_state b1 = Waiting \<and> needs_push b1 \<and> cb_old_hashes b1 = [] \<and>
     (\<exists>b2. confirm_pushed s hs b1 = Inr b2 \<and> \<not> needs_push b2 \<and> set (cb_curr_hashes b2) = set hs) \<and>
     (\<forall>b2. dirty e b1 = Inr b2 \<longrightarrow> confirm_pushed s hs b2 = Inr b2 \<and> needs_push b2 \<and>
        (\<forall>now' s2 msgs2 obs2 b3. push e now' b2 = Inr ((s2, msgs2, obs2), b3) \<longrightarrow>
           s2 = s + 1 \<and> confirm_pushed s hs b3 = Inr b3 \<and> needs_push b3))"
proof -
  have b1: "base_inv b1" "cm_seqno (cb_config b1) = s" "cb_state b1 = Waiting" "cb_old_hashes b1 = []"
    using push_step [OF assms(1,3)] assms(2) by auto
  obtain b2 where b2: "confirm_pushed s hs b1 = Inr b2"
    using b1 by (auto simp: confirm_pushed_def set_state_def Let_def)
  have late: "confirm_pushed s hs b2 = Inr b2 \<and> needs_push b2 \<and> base_inv b2 \<and> cb_state b2 = Dirty \<and>
      cm_seqno (cb_config b2) = s + 1" if "dirty e b1 = Inr b2" for b2
    using dirty_step [OF b1(1) that] b1 by (simp add: confirm_pushed_def needs_push_def is_clean_def)
  have again: "s2 = s + 1 \<and> confirm_pushed s hs b3 = Inr b3 \<and> needs_push b3"
    if "dirty e b1 = Inr b2" "push e now' b2 = Inr ((s2, msgs2, obs2), b3)" for b2 now' s2 msgs2 obs2 b3
  proof -
    have "base_inv b2" "cb_state b2 = Dirty" "cm_seqno (cb_config b2) = s + 1" using late [OF that(1)] by simp_all
    with push_step [OF _ that(2)] show ?thesis by (simp add: confirm_pushed_def needs_push_def is_clean_def)
  qed
  have "\<not> needs_push b2 \<and> set (cb_curr_hashes b2) = set hs"
    using confirm_step [OF b1(1) b2] b1 by (simp add: needs_push_def is_clean_def)
  with b1 b2 late again show ?thesis by (simp add: needs_push_def is_clean_def)
qed

lemma merge_messages_readonly:
  "merge_messages x vf sg lag ms = Inr m \<Longrightarrow> vf \<noteq> None \<Longrightarrow> sg = None \<Longrightarrow> \<not> merged m"
  by (auto simp: merge_messages_def merged_def res_bind_eq_Inr Let_def split: if_splits option.splits)

lemma set_state_Clean: "set_state Clean b = Inr b' \<Longrightarrow> cb_state b' = Clean"
  by (auto simp: set_state_def Let_def split: if_splits)

lemma adopt_not_dirty:
  assumes "\<not> merged m" "cb_state b \<noteq> Dirty" "adopt e old_seqno mine mlast confs m b = Inr b'"
  shows "cb_state b' \<noteq> Dirty"
  using assms by (auto simp: adopt_def Let_def res_bind_eq_Inr dest: set_state_Clean split: if_splits)

text \<open>
  C24: a read-only object (a verification key but no signing key) never becomes dirty: an edit is
  refused with an error, and whatever messages it is given to merge, it ends clean or unchanged,
  never with a merge of its own.
\<close>

theorem readonly_never_dirty:
  assumes "is_readonly b" "cb_state b \<noteq> Dirty" "base_inv b"
  shows "dirty e b = Inl Runtime_error \<and>
     (\<forall>now configs good b'. merge_base e now configs b = Inr (good, b') \<longrightarrow> cb_state b' \<noteq> Dirty)"
proof (intro conjI allI impI)
  show "dirty e b = Inl Runtime_error" using assms by (simp add: dirty_def set_state_def)
  fix now configs good b'
  assume "merge_base e now configs b = Inr (good, b')"
  then have "merge_impl e now (unwrap_incoming e b configs) b = Inr (good, b')" by (simp add: merge_base_def)
  then obtain mine b1 ps s ml where b1: "b1 = b \<or> (\<exists>d. serialize_config e True b = Inr (d, b1))"
    and c: "merge_collected e now (cm_seqno (cb_config b)) mine ml (fold (process_plain e now) ps (b1, [], s)) = Inr (good, b')"
    by (rule merge_impl_stages)
  have "base_inv b1" using b1 assms(3) serialize_config_inv by blast
  moreover have "cb_state b1 \<noteq> Dirty" "is_readonly b1"
    using b1 assms(1,2) by (auto simp: is_readonly_def dest!: serialize_config_frame)
  moreover obtain b2 g confs where f: "fold (process_plain e now) ps (b1, [], s) = (b2, g, confs)"
    by (metis prod.exhaust)
  ultimately have b2: "cb_state b2 \<noteq> Dirty" "is_readonly b2"
    using process_plains_inv [of b1] by (simp_all add: is_readonly_def)
  have unmerged: "\<not> merged m" if "make_config_message e False (cb_config b2) cs = Inr (m, bad)" for m bad cs
    using that b2(2) merge_messages_readonly
    by (auto simp: make_config_message_def merge_configs_def res_bind_eq_Inr is_readonly_def)
  show "cb_state b' \<noteq> Dirty" using c unfolding f
  proof (cases rule: merge_collected_cases)
    case (2 m bad cs confs')
    have "\<not> merged m" using unmerged 2(1) b2(1) by simp
    then show ?thesis using adopt_not_dirty [OF _ _ 2(2)] b2(1) by simp
  qed (use b2(1) in simp)
qed

end
