(* ===== verification/Field_Proxy.thy ===== *)
theory Field_Proxy
  imports Config_Lifecycle
begin

text \<open>
  \<open>ConfigBase::DictFieldProxy\<close> (\<open>src/include/session/config/base.hpp\<close>) and the field helpers of
  \<open>src/src/config/internal.cpp\<close>: reading and writing one field of a config object through a path of
  dict keys, and the interface that the config types use it through.

  A proxy is the list of its intermediate keys and its last key. Writing vivifies the dicts on the way;
  all writes go through \<open>dirty()\<close>, and are skipped when the object is not dirty and the value would not
  change.
\<close>

section \<open>Paths\<close>

fun follow :: "string list \<Rightarrow> dict \<Rightarrow> dict option" where
  "follow [] d = Some d"
| "follow (k # ks) d = (case map_of d k of Some (VDict d') \<Rightarrow> follow ks d' | _ \<Rightarrow> None)"

definition get_path :: "string list \<Rightarrow> string \<Rightarrow> dict \<Rightarrow> dict_value option" where
  "get_path path k d = (case follow path d of None \<Rightarrow> None | Some d' \<Rightarrow> map_of d' k)"

text \<open>\<open>get_dirty\<close> with the function applied to the reference it returns: on the value that is there, or
  on no value when the last key is new.\<close>

definition subdict :: "dict \<Rightarrow> string \<Rightarrow> dict" where
  "subdict d k = (case map_of d k of Some (VDict d') \<Rightarrow> d' | _ \<Rightarrow> [])"

fun update_path :: "string list \<Rightarrow> (dict \<Rightarrow> dict) \<Rightarrow> dict \<Rightarrow> dict" where
  "update_path [] f d = f d"
| "update_path (k # ks) f d = smap_put k (VDict (update_path ks f (subdict d k))) d"

definition put_path :: "string list \<Rightarrow> string \<Rightarrow> dict_value \<Rightarrow> dict \<Rightarrow> dict" where
  "put_path path k v d = update_path path (smap_put k v) d"

text \<open>The walk of \<open>erase\<close> and \<open>set_erase_impl\<close>, which does not vivify.\<close>

fun modify_path :: "string list \<Rightarrow> (dict \<Rightarrow> dict) \<Rightarrow> dict \<Rightarrow> dict" where
  "modify_path [] f d = f d"
| "modify_path (k # ks) f d =
     (case map_of d k of Some (VDict d') \<Rightarrow> smap_put k (VDict (modify_path ks f d')) d | _ \<Rightarrow> d)"

definition erase_path :: "string list \<Rightarrow> string \<Rightarrow> dict \<Rightarrow> dict" where
  "erase_path path k d = modify_path path (smap_del k) d"

definition set_insert_path :: "string list \<Rightarrow> string \<Rightarrow> scalar \<Rightarrow> dict \<Rightarrow> dict" where
  "set_insert_path path k x d =
     update_path path (\<lambda>d'. smap_put k (VSet (set_insert x
       (case map_of d' k of Some (VSet s) \<Rightarrow> s | _ \<Rightarrow> []))) d') d"

definition set_erase_path :: "string list \<Rightarrow> string \<Rightarrow> scalar \<Rightarrow> dict \<Rightarrow> dict" where
  "set_erase_path path k x d =
     modify_path path (\<lambda>d'. case map_of d' k of
         None \<Rightarrow> d'
       | Some (VSet s) \<Rightarrow> smap_put k (VSet (set_erase x s)) d'
       | Some _ \<Rightarrow> smap_put k (VSet []) d') d"

section \<open>The proxy\<close>

abbreviation data_of :: "config_base \<Rightarrow> dict" where
  "data_of b \<equiv> cm_data (cb_config b)"

definition set_data :: "dict \<Rightarrow> config_base \<Rightarrow> config_base" where
  "set_data d b = b\<lparr> cb_config := (cb_config b)\<lparr> cm_data := d \<rparr> \<rparr>"

definition get_clean :: "string list \<Rightarrow> string \<Rightarrow> config_base \<Rightarrow> dict_value option" where
  "get_clean path k b = get_path path k (data_of b)"

definition get_string :: "string list \<Rightarrow> string \<Rightarrow> config_base \<Rightarrow> string option" where
  "get_string path k b = (case get_clean path k b of Some (VScalar (SStr s)) \<Rightarrow> Some s | _ \<Rightarrow> None)"

definition get_integer :: "string list \<Rightarrow> string \<Rightarrow> config_base \<Rightarrow> int option" where
  "get_integer path k b = (case get_clean path k b of Some (VScalar (SInt i)) \<Rightarrow> Some i | _ \<Rightarrow> None)"

definition get_set :: "string list \<Rightarrow> string \<Rightarrow> config_base \<Rightarrow> scalar list option" where
  "get_set path k b = (case get_clean path k b of Some (VSet s) \<Rightarrow> Some s | _ \<Rightarrow> None)"

definition get_dict :: "string list \<Rightarrow> string \<Rightarrow> config_base \<Rightarrow> dict option" where
  "get_dict path k b = (case get_clean path k b of Some (VDict d) \<Rightarrow> Some d | _ \<Rightarrow> None)"

definition integer_or :: "int \<Rightarrow> int option \<Rightarrow> int" where
  "integer_or fallback i = (case i of Some i \<Rightarrow> i | None \<Rightarrow> fallback)"

definition string_or :: "string \<Rightarrow> string option \<Rightarrow> string" where
  "string_or fallback s = (case s of Some s \<Rightarrow> s | None \<Rightarrow> fallback)"

definition modify_data :: "env \<Rightarrow> (dict \<Rightarrow> dict) \<Rightarrow> config_base \<Rightarrow> config_base res" where
  "modify_data e f b = res_bind (dirty e b) (\<lambda>b. Inr (set_data (f (data_of b)) b))"

definition erase_field :: "env \<Rightarrow> string list \<Rightarrow> string \<Rightarrow> config_base \<Rightarrow> config_base res" where
  "erase_field e path k b =
     (if \<not> is_dirty b \<and> get_clean path k b = None then Inr b
      else modify_data e (erase_path path k) b)"

definition assign_if_changed ::
  "env \<Rightarrow> string list \<Rightarrow> string \<Rightarrow> dict_value \<Rightarrow> config_base \<Rightarrow> config_base res" where
  "assign_if_changed e path k v b =
     (if v = VSet [] \<or> v = VDict [] then erase_field e path k b
      else if \<not> is_dirty b \<and> get_clean path k b = Some v then Inr b
      else modify_data e (put_path path k v) b)"

definition set_insert_field ::
  "env \<Rightarrow> string list \<Rightarrow> string \<Rightarrow> scalar \<Rightarrow> config_base \<Rightarrow> config_base res" where
  "set_insert_field e path k x b =
     (if \<not> is_dirty b \<and> (case get_set path k b of Some s \<Rightarrow> x \<in> set s | None \<Rightarrow> False) then Inr b
      else modify_data e (set_insert_path path k x) b)"

definition set_erase_field ::
  "env \<Rightarrow> string list \<Rightarrow> string \<Rightarrow> scalar \<Rightarrow> config_base \<Rightarrow> config_base res" where
  "set_erase_field e path k x b =
     (if \<not> is_dirty b \<and> (case get_set path k b of Some s \<Rightarrow> x \<notin> set s | None \<Rightarrow> False) then Inr b
      else modify_data e (set_erase_path path k x) b)"

section \<open>Field helpers\<close>

definition set_flag :: "env \<Rightarrow> string list \<Rightarrow> string \<Rightarrow> bool \<Rightarrow> config_base \<Rightarrow> config_base res" where
  "set_flag e path k v b =
     (if v then assign_if_changed e path k (VScalar (SInt 1)) b else erase_field e path k b)"

definition set_positive_int :: "env \<Rightarrow> string list \<Rightarrow> string \<Rightarrow> int \<Rightarrow> config_base \<Rightarrow> config_base res" where
  "set_positive_int e path k v b =
     (if v > 0 then assign_if_changed e path k (VScalar (SInt v)) b else erase_field e path k b)"

definition set_nonzero_int :: "env \<Rightarrow> string list \<Rightarrow> string \<Rightarrow> int \<Rightarrow> config_base \<Rightarrow> config_base res" where
  "set_nonzero_int e path k v b =
     (if v \<noteq> 0 then assign_if_changed e path k (VScalar (SInt v)) b else erase_field e path k b)"

definition set_nonempty_str :: "env \<Rightarrow> string list \<Rightarrow> string \<Rightarrow> string \<Rightarrow> config_base \<Rightarrow> config_base res" where
  "set_nonempty_str e path k v b =
     (if v \<noteq> [] then assign_if_changed e path k (VScalar (SStr v)) b else erase_field e path k b)"

definition set_pair_if ::
  "env \<Rightarrow> bool \<Rightarrow> string list \<times> string \<times> dict_value \<Rightarrow> string list \<times> string \<times> dict_value \<Rightarrow>
   config_base \<Rightarrow> config_base res" where
  "set_pair_if e c f1 f2 b =
     (case (f1, f2) of ((i1, k1, v1), (i2, k2, v2)) \<Rightarrow>
        if c then res_bind (assign_if_changed e i1 k1 v1 b) (assign_if_changed e i2 k2 v2)
        else res_bind (erase_field e i1 k1 b) (erase_field e i2 k2))"

definition maybe_int :: "dict \<Rightarrow> string \<Rightarrow> int option" where
  "maybe_int d k = (case map_of d k of Some (VScalar (SInt i)) \<Rightarrow> Some i | _ \<Rightarrow> None)"

definition maybe_string :: "dict \<Rightarrow> string \<Rightarrow> string option" where
  "maybe_string d k = (case map_of d k of Some (VScalar (SStr s)) \<Rightarrow> Some s | _ \<Rightarrow> None)"

definition maybe_set :: "dict \<Rightarrow> string \<Rightarrow> scalar list option" where
  "maybe_set d k = (case map_of d k of Some (VSet s) \<Rightarrow> Some s | _ \<Rightarrow> None)"

definition make_lc :: "string \<Rightarrow> string" where
  "make_lc s = map (\<lambda>c. if CHR ''A'' \<le> c \<and> c \<le> CHR ''Z'' then char_of (of_char c + 32 :: nat) else c) s"

text \<open>The text encodings of the \<open>oxenc\<close> library.\<close>

record encodings =
  is_hex :: "string \<Rightarrow> bool"
  from_hex :: "string \<Rightarrow> bytes"
  to_hex :: "bytes \<Rightarrow> string"
  is_base64 :: "string \<Rightarrow> bool"
  from_base64 :: "string \<Rightarrow> bytes"
  is_base32z :: "string \<Rightarrow> bool"
  from_base32z :: "string \<Rightarrow> bytes"

definition check_session_id :: "encodings \<Rightarrow> string \<Rightarrow> string \<Rightarrow> unit res" where
  "check_session_id enc session_id prefix =
     guard (length session_id = 64 + length prefix \<and> is_hex enc session_id \<and>
            take (length prefix) session_id = prefix) Invalid_argument"

definition session_id_to_bytes :: "encodings \<Rightarrow> string \<Rightarrow> string \<Rightarrow> bytes res" where
  "session_id_to_bytes enc session_id prefix =
     res_bind (check_session_id enc session_id prefix) (\<lambda>_. Inr (from_hex enc session_id))"

definition session_id_pk :: "encodings \<Rightarrow> string \<Rightarrow> string \<Rightarrow> bytes res" where
  "session_id_pk enc session_id prefix =
     res_bind (check_session_id enc session_id prefix) (\<lambda>_. Inr (from_hex enc (drop 2 session_id)))"

definition pubkey_is_base64 :: "encodings \<Rightarrow> string \<Rightarrow> bool" where
  "pubkey_is_base64 enc pk \<longleftrightarrow> (length pk = 43 \<or> (length pk = 44 \<and> last pk = CHR ''='')) \<and> is_base64 enc pk"

definition check_encoded_pubkey :: "encodings \<Rightarrow> string \<Rightarrow> unit res" where
  "check_encoded_pubkey enc pk =
     guard ((length pk = 64 \<and> is_hex enc pk) \<or> pubkey_is_base64 enc pk \<or> (length pk = 52 \<and> is_base32z enc pk))
       Invalid_argument"

definition decode_pubkey :: "encodings \<Rightarrow> string \<Rightarrow> bytes res" where
  "decode_pubkey enc pk =
     (if length pk = 64 \<and> is_hex enc pk then Inr (from_hex enc pk)
      else if pubkey_is_base64 enc pk then Inr (from_base64 enc pk)
      else if length pk = 52 \<and> is_base32z enc pk then Inr (from_base32z enc pk)
      else Inl Invalid_argument)"

section \<open>The field store interface\<close>

text \<open>
  What the config types rely on: the fields below one path behave like independent variables. The
  operations are those of one path; a client writes several fields and reads each of them back.
\<close>

locale field_store =
  fixes valid :: "'s \<Rightarrow> bool" and allowed :: "'v \<Rightarrow> bool"
    and get :: "'k \<Rightarrow> 's \<Rightarrow> 'v option" and put :: "'k \<Rightarrow> 'v \<Rightarrow> 's \<Rightarrow> 's" and del :: "'k \<Rightarrow> 's \<Rightarrow> 's"
  assumes valid_put: "valid s \<Longrightarrow> allowed v \<Longrightarrow> valid (put k v s)"
    and valid_del: "valid s \<Longrightarrow> valid (del k s)"
    and get_put: "valid s \<Longrightarrow> allowed v \<Longrightarrow> get j (put k v s) = (if j = k then Some v else get j s)"
    and get_del: "valid s \<Longrightarrow> get j (del k s) = (if j = k then None else get j s)"
begin

lemma valid_write: "valid s \<Longrightarrow> pred_option allowed vo \<Longrightarrow> valid (case vo of None \<Rightarrow> del k s | Some v \<Rightarrow> put k v s)"
  by (cases vo) (simp_all add: valid_put valid_del)

lemma get_write:
  "valid s \<Longrightarrow> pred_option allowed vo \<Longrightarrow>
   get j (case vo of None \<Rightarrow> del k s | Some v \<Rightarrow> put k v s) = (if j = k then vo else get j s)"
  by (cases vo) (simp_all add: get_put get_del)

lemma valid_writes:
  "valid s \<Longrightarrow> \<forall>(k, vo) \<in> set fs. pred_option allowed vo \<Longrightarrow>
   valid (fold (\<lambda>(k, vo) s. case vo of None \<Rightarrow> del k s | Some v \<Rightarrow> put k v s) fs s)"
  by (induction fs arbitrary: s) (auto simp: valid_write)

lemma get_writes:
  "valid s \<Longrightarrow> distinct (map fst fs) \<Longrightarrow> \<forall>(k, vo) \<in> set fs. pred_option allowed vo \<Longrightarrow>
   get j (fold (\<lambda>(k, vo) s. case vo of None \<Rightarrow> del k s | Some v \<Rightarrow> put k v s) fs s) =
     (case map_of fs j of None \<Rightarrow> get j s | Some vo \<Rightarrow> vo)"
proof (induction fs arbitrary: s)
  case (Cons f fs)
  obtain k vo where f: "f = (k, vo)" by fastforce
  have "k \<notin> fst ` set fs" using Cons.prems(2) f by auto
  then have none: "map_of fs k = None" by (simp add: map_of_eq_None_iff)
  define s' where "s' = (case vo of None \<Rightarrow> del k s | Some v \<Rightarrow> put k v s)"
  have s': "valid s'" "get j s' = (if j = k then vo else get j s)"
    using Cons.prems f valid_write [of s vo k] get_write [of s vo j k] by (simp_all add: s'_def)
  then show ?case
    using Cons.IH [of s'] Cons.prems f none
    by (cases "j = k") (simp_all add: s'_def [symmetric] split: option.split)
qed simp

end

lemma wf_dict_put: "wf_dict d \<Longrightarrow> wf_val v \<Longrightarrow> wf_dict (smap_put k v d)"
  by (auto dest: smap_put_values)

lemma wf_dict_del: "wf_dict d \<Longrightarrow> wf_dict (smap_del k d)"
  by (auto dest: smap_del_values)

lemma wf_dict_sub: "wf_dict d \<Longrightarrow> map_of d k = Some (VDict d') \<Longrightarrow> wf_dict d'"
  using wf_dict_lookup by blast

lemma wf_subdict: "wf_dict d \<Longrightarrow> wf_dict (subdict d k)"
proof (cases "\<exists>d'. map_of d k = Some (VDict d')")
  case True
  assume "wf_dict d"
  with True show ?thesis using wf_dict_sub by (auto simp: subdict_def simp del: wf_val.simps)
next
  case False
  then have "subdict d k = []" by (auto simp: subdict_def split: option.split dict_value.split)
  then show ?thesis by simp
qed

lemma wf_update_path: "wf_dict d \<Longrightarrow> (\<And>d. wf_dict d \<Longrightarrow> wf_dict (f d)) \<Longrightarrow> wf_dict (update_path path f d)"
  by (induction path arbitrary: d) (simp_all add: wf_dict_put wf_subdict del: wf_val.simps)

lemma wf_modify_path: "wf_dict d \<Longrightarrow> (\<And>d. wf_dict d \<Longrightarrow> wf_dict (f d)) \<Longrightarrow> wf_dict (modify_path path f d)"
  by (induction path arbitrary: d)
    (auto split: option.split dict_value.split intro!: wf_dict_put dest: wf_dict_sub simp del: wf_val.simps)

lemma follow_Nil_dict: "follow path [] = (if path = [] then Some [] else None)"
  by (cases path) auto

lemma follow_subdict:
  "(case follow path (subdict d p) of Some d' \<Rightarrow> d' | None \<Rightarrow> []) =
   (case follow (p # path) d of Some d' \<Rightarrow> d' | None \<Rightarrow> [])"
  by (auto simp: subdict_def follow_Nil_dict split: option.split dict_value.split)

lemma follow_update_path:
  "wf_dict d \<Longrightarrow> follow path (update_path path f d) = Some (f (case follow path d of Some d' \<Rightarrow> d' | None \<Rightarrow> []))"
proof (induction path arbitrary: d)
  case (Cons p path)
  have "smap_ok d" using Cons.prems by simp
  then have "follow (p # path) (update_path (p # path) f d) = follow path (update_path path f (subdict d p))"
    by (simp add: smap_simps)
  also have "\<dots> = Some (f (case follow path (subdict d p) of Some d' \<Rightarrow> d' | None \<Rightarrow> []))"
    by (rule Cons.IH [OF wf_subdict [OF Cons.prems]])
  finally show ?case by (simp only: follow_subdict)
qed simp

lemma follow_modify_path:
  "wf_dict d \<Longrightarrow> follow path (modify_path path f d) = map_option f (follow path d)"
proof (induction path arbitrary: d)
  case (Cons p path)
  have "smap_ok d" using Cons.prems by simp
  then show ?case
    using Cons.IH wf_dict_sub [OF Cons.prems, of p]
    by (auto simp: smap_simps split: option.splits dict_value.splits)
qed simp

lemma wf_follow: "wf_dict d \<Longrightarrow> follow path d = Some d' \<Longrightarrow> wf_dict d'"
  by (induction path arbitrary: d) (auto split: option.splits dict_value.splits dest: wf_dict_sub simp del: wf_val.simps(1))

interpretation fields: field_store wf_dict wf_val "get_path path" "put_path path" "erase_path path" for path
proof
  fix s v k j
  assume s: "wf_dict s"
  show "wf_dict (put_path path k v s)" if "wf_val v"
    unfolding put_path_def by (rule wf_update_path [OF s]) (rule wf_dict_put [OF _ that])
  show "wf_dict (erase_path path k s)"
    unfolding erase_path_def by (rule wf_modify_path [OF s wf_dict_del])
  show "get_path path j (put_path path k v s) = (if j = k then Some v else get_path path j s)"
  proof -
    have "smap_ok (case follow path s of Some d' \<Rightarrow> d' | None \<Rightarrow> [])"
      using wf_follow [OF s] by (auto split: option.split)
    then show ?thesis
      by (auto simp: get_path_def put_path_def follow_update_path [OF s] smap_simps split: option.split)
  qed
  show "get_path path j (erase_path path k s) = (if j = k then None else get_path path j s)"
    by (auto simp: get_path_def erase_path_def follow_modify_path [OF s] smap_simps split: option.split)
qed

section \<open>Writing fields of a config object\<close>

text \<open>An object that can be edited: \<open>dirty()\<close> succeeds and leaves the data alone.\<close>

definition editable :: "env \<Rightarrow> config_base \<Rightarrow> bool" where
  "editable e b \<longleftrightarrow> wf_dict (data_of b) \<and>
     (case dirty e b of Inr b' \<Rightarrow> data_of b' = data_of b | Inl _ \<Rightarrow> False)"

text \<open>The uniform field write: every helper is one of these.\<close>

definition write_field ::
  "env \<Rightarrow> string list \<Rightarrow> string \<times> dict_value option \<Rightarrow> config_base \<Rightarrow> config_base res" where
  "write_field e path kv b =
     (case snd kv of
        Some v \<Rightarrow> assign_if_changed e path (fst kv) v b
      | None \<Rightarrow> erase_field e path (fst kv) b)"

definition write_pure :: "string list \<Rightarrow> string \<times> dict_value option \<Rightarrow> dict \<Rightarrow> dict" where
  "write_pure path kv d =
     (case kv of (k, vo) \<Rightarrow> case vo of None \<Rightarrow> erase_path path k d | Some v \<Rightarrow> put_path path k v d)"

lemma helper_writes:
  "set_flag e path k v = write_field e path (k, if v then Some (VScalar (SInt 1)) else None)"
  "set_positive_int e path k i = write_field e path (k, if i > 0 then Some (VScalar (SInt i)) else None)"
  "set_nonzero_int e path k i = write_field e path (k, if i \<noteq> 0 then Some (VScalar (SInt i)) else None)"
  "set_nonempty_str e path k s = write_field e path (k, if s \<noteq> [] then Some (VScalar (SStr s)) else None)"
  by (auto simp: fun_eq_iff write_field_def set_flag_def set_positive_int_def set_nonzero_int_def set_nonempty_str_def)

definition field_value_ok :: "dict_value \<Rightarrow> bool" where
  "field_value_ok v \<longleftrightarrow> wf_val v \<and> v \<noteq> VSet [] \<and> v \<noteq> VDict []"

lemma put_path_same: "wf_dict d \<Longrightarrow> get_path path k d = Some v \<Longrightarrow> put_path path k v d = d"
proof (induction path arbitrary: d)
  case Nil
  then show ?case by (simp add: put_path_def get_path_def smap.put_same)
next
  case (Cons p path)
  then obtain d' where d': "map_of d p = Some (VDict d')" "get_path path k d' = Some v"
    by (auto simp: get_path_def split: option.splits dict_value.splits)
  then have "put_path path k v d' = d'" using Cons wf_dict_sub by blast
  then show ?case
    using d' Cons.prems(1) by (simp add: put_path_def subdict_def smap.put_same)
qed

lemma erase_path_missing: "wf_dict d \<Longrightarrow> get_path path k d = None \<Longrightarrow> erase_path path k d = d"
proof (induction path arbitrary: d)
  case Nil
  then show ?case by (simp add: erase_path_def get_path_def smap.del_missing)
next
  case (Cons p path)
  show ?case
  proof (cases "\<exists>d'. map_of d p = Some (VDict d')")
    case True
    then obtain d' where d': "map_of d p = Some (VDict d')" by blast
    then have "wf_dict d'" "get_path path k d' = None"
      using Cons.prems wf_dict_sub by (simp_all add: get_path_def del: wf_val.simps)
    then have "erase_path path k d' = d'" by (rule Cons.IH)
    then show ?thesis using d' Cons.prems(1) by (simp add: erase_path_def smap.put_same)
  qed (auto simp: erase_path_def split: option.split dict_value.split)
qed



lemma modify_data_ok:
  assumes "editable e b" "wf_dict (f (data_of b))" "base_inv b"
  shows "\<exists>b'. modify_data e f b = Inr b' \<and> data_of b' = f (data_of b) \<and> editable e b' \<and> base_inv b' \<and> is_dirty b' \<and>
     cb_keys b' = cb_keys b"
proof -
  obtain b1 where b1: "dirty e b = Inr b1" "data_of b1 = data_of b"
    using assms(1) by (auto simp: editable_def split: sum.splits)
  have s: "base_inv b1" "cb_state b1 = Dirty" "cb_keys b1 = cb_keys b" using dirty_step [OF assms(3) b1(1)] by simp_all
  let ?b' = "set_data (f (data_of b)) b1"
  have inv: "base_inv ?b'" using s(1) by (simp add: base_inv_def set_data_def)
  moreover have "dirty e ?b' = Inr (?b'\<lparr> cb_needs_dump := True \<rparr>)"
    using s(2) inv by (auto simp: dirty_def set_data_def base_inv_def)
  ultimately show ?thesis
    using b1 s assms(2) by (simp add: modify_data_def editable_def is_dirty_def set_data_def)
qed

lemma write_field_ok:
  assumes "editable e b" "base_inv b" "pred_option field_value_ok (snd kv)"
  shows "\<exists>b'. write_field e path kv b = Inr b' \<and> data_of b' = write_pure path kv (data_of b) \<and>
     editable e b' \<and> base_inv b' \<and> cb_keys b' = cb_keys b"
proof -
  obtain k vo where kv: "kv = (k, vo)" by fastforce
  have wf: "wf_dict (data_of b)" using assms(1) by (simp add: editable_def)
  show ?thesis
  proof (cases vo)
    case None
    have "wf_dict (erase_path path k (data_of b))" by (rule fields.valid_del [OF wf])
    from modify_data_ok [of e b "erase_path path k", OF assms(1) this assms(2)] show ?thesis
      using assms(1,2) None kv erase_path_missing [OF wf, of path k]
      by (auto simp: write_field_def write_pure_def erase_field_def get_clean_def)
  next
    case (Some v)
    have v: "wf_val v" "v \<noteq> VSet []" "v \<noteq> VDict []" using assms(3) Some kv by (auto simp: field_value_ok_def)
    have "wf_dict (put_path path k v (data_of b))" by (rule fields.valid_put [OF wf v(1)])
    from modify_data_ok [of e b "put_path path k v", OF assms(1) this assms(2)] show ?thesis
      using assms(1,2) Some kv v put_path_same [OF wf, of path k v]
      by (auto simp: write_field_def write_pure_def assign_if_changed_def get_clean_def)
  qed
qed

lemma write_fields_ok:
  assumes "editable e b" "base_inv b" "\<forall>kv \<in> set fs. pred_option field_value_ok (snd kv)"
  shows "\<exists>b'. res_fold (write_field e path) fs b = Inr b' \<and> data_of b' = fold (write_pure path) fs (data_of b) \<and>
     editable e b' \<and> base_inv b' \<and> cb_keys b' = cb_keys b"
  using assms
proof (induction fs arbitrary: b)
  case (Cons kv fs)
  then obtain b1 where b1: "write_field e path kv b = Inr b1" "data_of b1 = write_pure path kv (data_of b)"
    "editable e b1" "base_inv b1" "cb_keys b1 = cb_keys b"
    using write_field_ok [of e b kv path] by auto
  then show ?case using Cons.IH [of b1] Cons.prems by auto
qed auto

lemma pred_field_wf: "pred_option field_value_ok vo \<Longrightarrow> pred_option wf_val vo"
  by (cases vo) (auto simp: field_value_ok_def)

text \<open>Reading back what was written below one path.\<close>

lemma read_written:
  assumes "editable e b" "base_inv b" "\<forall>kv \<in> set fs. pred_option field_value_ok (snd kv)" "distinct (map fst fs)"
  shows "\<exists>b'. res_fold (write_field e path) fs b = Inr b' \<and> editable e b' \<and> base_inv b' \<and>
     cb_keys b' = cb_keys b \<and>
     (\<forall>k. get_clean path k b' = (case map_of fs k of None \<Rightarrow> get_clean path k b | Some vo \<Rightarrow> vo))"
proof -
  have wf: "wf_dict (data_of b)" using assms(1) by (simp add: editable_def)
  have "\<forall>(k, vo) \<in> set fs. pred_option wf_val vo" using assms(3) pred_field_wf by fastforce
  note get = fields.get_writes [OF wf assms(4) this, of path]
  have "write_pure path = (\<lambda>(k, vo) s. case vo of None \<Rightarrow> erase_path path k s | Some v \<Rightarrow> put_path path k v s)"
    by (auto simp: fun_eq_iff write_pure_def)
  then have "get_path path k (fold (write_pure path) fs (data_of b)) =
      (case map_of fs k of None \<Rightarrow> get_clean path k b | Some vo \<Rightarrow> vo)" for k
    using get by (simp add: get_clean_def cong: option.case_cong)
  moreover obtain b' where "res_fold (write_field e path) fs b = Inr b'"
    "data_of b' = fold (write_pure path) fs (data_of b)" "editable e b'" "base_inv b'" "cb_keys b' = cb_keys b"
    using write_fields_ok [OF assms(1-3), of path] by blast
  ultimately show ?thesis by (simp add: get_clean_def)
qed

section \<open>Neighbouring paths\<close>

lemma get_path_Cons: "get_path (p # path) k d = (case map_of d p of Some (VDict d') \<Rightarrow> get_path path k d' | _ \<Rightarrow> None)"
  by (auto simp: get_path_def split: option.split dict_value.split)

lemma get_path_Nil: "get_path [] k d = map_of d k"
  by (simp add: get_path_def)

lemma get_path_empty: "get_path path k [] = None"
  by (cases path) (simp_all add: get_path_def)

lemma get_subdict: "get_path path k (subdict d p) = get_path (p # path) k d"
  by (auto simp: subdict_def get_path_Cons get_path_empty split: option.split dict_value.split)

lemma update_path_frame:
  "wf_dict d \<Longrightarrow> j \<noteq> k \<Longrightarrow> get_path p j (update_path (p @ k # q) f d) = get_path p j d"
proof (induction p arbitrary: d)
  case Nil
  then show ?case by (simp add: get_path_Nil smap_simps)
next
  case (Cons a p)
  have "smap_ok d" using Cons.prems(1) by simp
  then have "get_path (a # p) j (update_path ((a # p) @ k # q) f d) = get_path p j (update_path (p @ k # q) f (subdict d a))"
    by (simp add: get_path_Cons smap_simps)
  also have "\<dots> = get_path p j (subdict d a)" by (rule Cons.IH [OF wf_subdict [OF Cons.prems(1)] Cons.prems(2)])
  finally show ?case by (simp only: get_subdict)
qed

lemma modify_path_frame:
  "wf_dict d \<Longrightarrow> j \<noteq> k \<Longrightarrow> get_path p j (modify_path (p @ k # q) f d) = get_path p j d"
proof (induction p arbitrary: d)
  case Nil
  then show ?case by (auto simp: get_path_Nil smap_simps split: option.split dict_value.split)
next
  case (Cons a p)
  have ok: "smap_ok d" using Cons.prems(1) by simp
  show ?case
  proof (cases "\<exists>d'. map_of d a = Some (VDict d')")
    case True
    then obtain d' where d': "map_of d a = Some (VDict d')" by blast
    have "get_path p j (modify_path (p @ k # q) f d') = get_path p j d'"
      using Cons.IH [OF wf_dict_sub [OF Cons.prems(1) d'] Cons.prems(2)] .
    then show ?thesis using d' ok by (simp add: get_path_Cons smap_simps)
  qed (auto split: option.split dict_value.split)
qed

lemma write_pure_frame:
  "wf_dict d \<Longrightarrow> j \<noteq> k \<Longrightarrow> get_path p j (write_pure (p @ k # q) kv d) = get_path p j d"
  by (auto simp: write_pure_def put_path_def erase_path_def update_path_frame modify_path_frame
      split: prod.split option.split)

lemma wf_write_pure: "wf_dict d \<Longrightarrow> pred_option wf_val (snd kv) \<Longrightarrow> wf_dict (write_pure path kv d)"
  by (auto simp: write_pure_def fields.valid_put fields.valid_del simp del: wf_val.simps split: prod.split option.split)

lemma writes_frame:
  "wf_dict d \<Longrightarrow> \<forall>kv \<in> set fs. pred_option wf_val (snd kv) \<Longrightarrow> j \<noteq> k \<Longrightarrow>
   get_path p j (fold (write_pure (p @ k # q)) fs d) = get_path p j d"
  by (induction fs arbitrary: d) (simp_all add: write_pure_frame wf_write_pure del: wf_val.simps)

lemma follow_append: "follow (p @ q) d = (case follow p d of None \<Rightarrow> None | Some d' \<Rightarrow> follow q d')"
  by (induction p arbitrary: d) (auto split: option.split dict_value.split)

text \<open>A dict that holds a field: its fields are the fields below the longer path.\<close>

lemma get_dict_fields:
  assumes "get_clean (p @ [k]) j b = Some v"
  shows "\<exists>d. get_dict p k b = Some d \<and> (\<forall>i. map_of d i = get_clean (p @ [k]) i b)"
  using assms
  by (auto simp: get_dict_def get_clean_def get_path_def follow_append split: option.splits dict_value.splits)

lemma set_pair_writes:
  "set_pair_if e c (path, k1, v1) (path, k2, v2) b =
   res_bind (write_field e path (k1, if c then Some v1 else None) b)
     (write_field e path (k2, if c then Some v2 else None))"
  by (simp add: set_pair_if_def write_field_def [abs_def])

lemma assign_writes: "assign_if_changed e path k v b = write_field e path (k, Some v) b"
  by (simp add: write_field_def)

lemma res_fold_steps:
  "res_fold f [] = Inr" "res_fold f (x # xs) = (\<lambda>s. res_bind (f x s) (res_fold f xs))"
  by (simp_all add: fun_eq_iff)

lemmas field_writes = helper_writes set_pair_writes assign_writes res_fold_steps

lemma res_bind_assoc [simp]: "res_bind (res_bind r f) g = res_bind r (\<lambda>x. res_bind (f x) g)"
  by (auto simp: res_bind_def split: sum.split)

lemma res_bind_Inr [simp]: "res_bind r Inr = r"
  by (auto simp: res_bind_def split: sum.split)

text \<open>The result of writing all fields of an entry: it can be read as a dict with these fields, and
  its neighbours are untouched.\<close>

lemma entry_written:
  assumes "editable e b" "base_inv b" "\<forall>kv \<in> set fs. pred_option field_value_ok (snd kv)"
    and "distinct (map fst fs)" "map_of fs j = Some (Some v)"
  shows "\<exists>b' d. res_fold (write_field e (p @ [k])) fs b = Inr b' \<and> editable e b' \<and> base_inv b' \<and>
     cb_keys b' = cb_keys b \<and> get_dict p k b' = Some d \<and>
     (\<forall>i vo. map_of fs i = Some vo \<longrightarrow> map_of d i = vo) \<and>
     (\<forall>i. i \<noteq> k \<longrightarrow> get_clean p i b' = get_clean p i b)"
proof -
  obtain b' where b': "res_fold (write_field e (p @ [k])) fs b = Inr b'" "editable e b'" "base_inv b'"
    "cb_keys b' = cb_keys b"
    and get: "\<And>i. get_clean (p @ [k]) i b' = (case map_of fs i of None \<Rightarrow> get_clean (p @ [k]) i b | Some vo \<Rightarrow> vo)"
    using read_written [OF assms(1-4)] by blast
  have data: "data_of b' = fold (write_pure (p @ [k])) fs (data_of b)"
    using write_fields_ok [OF assms(1-3), of "p @ [k]"] b'(1) by auto
  have "get_clean (p @ [k]) j b' = Some v" using get [of j] assms(5) by simp
  then obtain d where d: "get_dict p k b' = Some d" "\<forall>i. map_of d i = get_clean (p @ [k]) i b'"
    using get_dict_fields by blast
  have wf: "wf_dict (data_of b)" "\<forall>kv \<in> set fs. pred_option wf_val (snd kv)"
    using assms(1,3) pred_field_wf by (auto simp: editable_def simp del: wf_val.simps)
  have frame: "get_clean p i b' = get_clean p i b" if "i \<noteq> k" for i
    using writes_frame [OF wf that, of p "[]"] data by (simp add: get_clean_def)
  have "map_of d i = vo" if "map_of fs i = Some vo" for i vo
    using d(2) get [of i] that by simp
  with b' d(1) frame show ?thesis by blast
qed

lemma read_written_frame:
  assumes "editable e b" "base_inv b" "\<forall>kv \<in> set fs. pred_option field_value_ok (snd kv)" "distinct (map fst fs)"
  shows "\<exists>b'. res_fold (write_field e (p @ k # q)) fs b = Inr b' \<and> editable e b' \<and> base_inv b' \<and>
     (\<forall>i. get_clean (p @ k # q) i b' = (case map_of fs i of None \<Rightarrow> get_clean (p @ k # q) i b | Some vo \<Rightarrow> vo)) \<and>
     (\<forall>i. i \<noteq> k \<longrightarrow> get_clean p i b' = get_clean p i b)"
proof -
  obtain b' where b': "res_fold (write_field e (p @ k # q)) fs b = Inr b'" "editable e b'" "base_inv b'"
    and get: "\<And>i. get_clean (p @ k # q) i b' = (case map_of fs i of None \<Rightarrow> get_clean (p @ k # q) i b | Some vo \<Rightarrow> vo)"
    using read_written [OF assms] by blast
  have data: "data_of b' = fold (write_pure (p @ k # q)) fs (data_of b)"
    using write_fields_ok [OF assms(1-3), of "p @ k # q"] b'(1) by auto
  have wf: "wf_dict (data_of b)" "\<forall>kv \<in> set fs. pred_option wf_val (snd kv)"
    using assms(1,3) pred_field_wf by (auto simp: editable_def simp del: wf_val.simps)
  have "get_clean p i b' = get_clean p i b" if "i \<noteq> k" for i
    using writes_frame [OF wf that] data by (simp add: get_clean_def)
  with b' get show ?thesis by blast
qed

lemma erase_writes: "erase_field e path k b = write_field e path (k, None) b"
  by (simp add: write_field_def)

text \<open>Erasing several fields below one path.\<close>

lemma erased_fields:
  assumes "editable e b" "base_inv b"
  shows "\<exists>b'. res_fold (erase_field e (p @ k # q)) ks b = Inr b' \<and> editable e b' \<and> base_inv b' \<and>
     (\<forall>i. get_clean (p @ k # q) i b' = (if i \<in> set ks then None else get_clean (p @ k # q) i b)) \<and>
     (\<forall>i. i \<noteq> k \<longrightarrow> get_clean p i b' = get_clean p i b)"
  using assms
proof (induction ks arbitrary: b)
  case (Cons x ks)
  have "\<forall>kv \<in> set [(x, None)]. pred_option field_value_ok (snd kv)" by simp
  from read_written_frame [OF Cons.prems this, of p k q]
  obtain b1 where b1': "res_fold (write_field e (p @ k # q)) [(x, None)] b = Inr b1" "editable e b1" "base_inv b1"
    "\<forall>i. get_clean (p @ k # q) i b1 = (case map_of [(x, None)] i of None \<Rightarrow> get_clean (p @ k # q) i b | Some vo \<Rightarrow> vo)"
    "\<forall>i. i \<noteq> k \<longrightarrow> get_clean p i b1 = get_clean p i b"
    by auto
  have b1: "erase_field e (p @ k # q) x b = Inr b1" "editable e b1" "base_inv b1"
    "\<And>i. get_clean (p @ k # q) i b1 = (if i = x then None else get_clean (p @ k # q) i b)"
    "\<And>i. i \<noteq> k \<Longrightarrow> get_clean p i b1 = get_clean p i b"
    using b1' by (simp_all add: erase_writes res_fold_steps)
  from Cons.IH [OF b1(2,3)] obtain b2 where "res_fold (erase_field e (p @ k # q)) ks b1 = Inr b2" "editable e b2" "base_inv b2"
    "\<And>i. get_clean (p @ k # q) i b2 = (if i \<in> set ks then None else get_clean (p @ k # q) i b1)"
    "\<And>i. i \<noteq> k \<Longrightarrow> get_clean p i b2 = get_clean p i b1" by blast
  with b1 show ?case by auto
qed simp

text \<open>What the code relies on of the hex encoding.\<close>

definition hex_ok :: "encodings \<Rightarrow> bool" where
  "hex_ok enc \<longleftrightarrow> (\<forall>k. from_hex enc (to_hex enc k) = k \<and> is_hex enc (to_hex enc k) \<and>
     length (to_hex enc k) = 2 * length k) \<and>
     (\<forall>k. take 2 (to_hex enc (CHR 0x05 # k)) = ''05'' \<and> take 2 (to_hex enc (CHR 0x03 # k)) = ''03'')"

lemma hex_session_id:
  assumes "hex_ok enc" "length k = 33"
  shows "hd k = CHR 0x05 \<Longrightarrow> check_session_id enc (to_hex enc k) ''05'' = Inr ()"
    "hd k = CHR 0x03 \<Longrightarrow> check_session_id enc (to_hex enc k) ''03'' = Inr ()"
proof -
  obtain c k' where k: "k = c # k'" using assms(2) by (cases k) auto
  have h: "is_hex enc (to_hex enc k)" "length (to_hex enc k) = 66"
    using assms unfolding hex_ok_def by simp_all
  show "check_session_id enc (to_hex enc k) ''05'' = Inr ()" if "hd k = CHR 0x05"
    using h assms(1) that k unfolding hex_ok_def check_session_id_def guard_def by (simp add: numeral_2_eq_2)
  show "check_session_id enc (to_hex enc k) ''03'' = Inr ()" if "hd k = CHR 0x03"
    using h assms(1) that k unfolding hex_ok_def check_session_id_def guard_def by (simp add: numeral_2_eq_2)
qed

end
