(* ===== verification/Ref_Env.thy ===== *)
theory Ref_Env
  imports Bencode Config_Lifecycle Field_Proxy
begin

text \<open>
  One concrete instance of the libraries a config object calls: the reference bencode codec of
  \<open>Bencode\<close>, and the simplest functions that satisfy the documented laws of the others (a hash that
  cuts or fills its input, an authenticated encryption that appends a fixed tag, a stored-block
  compression, a fixed 64-byte signature). Concrete inputs for the theorems that have hypotheses on
  the libraries are evaluated with it.
\<close>

definition ref_hash :: "bytes \<Rightarrow> bytes" where
  "ref_hash b = take 32 (b @ replicate 32 (CHR 0x00))"

definition ref_tag :: bytes where "ref_tag = replicate 16 (CHR ''T'')"

definition ref_crypto :: crypto where
  "ref_crypto =
     \<lparr> generichash = (\<lambda>n k d. take n (d @ replicate n (CHR 0x00))),
       aead_encrypt = (\<lambda>m n k. m @ ref_tag),
       aead_decrypt = (\<lambda>c n k. if drop (length c - 16) c = ref_tag then Some (take (length c - 16) c) else None) \<rparr>"

lemma ref_crypto_ok: "crypto_ok ref_crypto"
  by (auto simp: crypto_ok_def ref_crypto_def ref_tag_def)

definition ref_env :: env where
  "ref_env =
     \<lparr> e_libs = ref_libs ref_hash, e_crypto = ref_crypto, e_domain = ''UserProfile'',
       e_compression_level = Some 1, e_lags = 5, e_accepts_protobuf = False,
       e_unwrap = (\<lambda>k c. None), e_wrap = (\<lambda>k c s. Inr c),
       e_zstd_compress = (\<lambda>d l p. p @ d), e_zstd_decompress = Some,
       e_sk_to_pk = drop 32, e_verify = (\<lambda>pk m sig. sig = replicate 64 (CHR ''S'')),
       e_sign = (\<lambda>sk m. replicate 64 (CHR ''S'')), e_extra_data = [], e_ndebug = False \<rparr>"

lemma ref_env_simps [simp]:
  "e_libs ref_env = ref_libs ref_hash" "e_crypto ref_env = ref_crypto" "e_domain ref_env = ''UserProfile''"
  "e_lags ref_env = 5" "e_compression_level ref_env = Some 1" "e_accepts_protobuf ref_env = False"
  "e_ndebug ref_env = False" "e_zstd_decompress ref_env = Some"
  by (simp_all add: ref_env_def)

section \<open>Text encodings\<close>

definition hex_digits :: string where "hex_digits = ''0123456789abcdef''"

definition hex_value :: "char \<Rightarrow> nat" where
  "hex_value c = length (takeWhile (\<lambda>d. d \<noteq> c) hex_digits)"

fun hex_decode :: "string \<Rightarrow> bytes" where
  "hex_decode (a # b # s) = char_of (16 * hex_value a + hex_value b) # hex_decode s"
| "hex_decode _ = []"

definition hex_byte :: "char \<Rightarrow> string" where
  "hex_byte c = [hex_digits ! (of_char c div 16), hex_digits ! (of_char c mod 16)]"

text \<open>Lower-case hex, and the other encodings as the identity.\<close>

definition ref_encodings :: encodings where
  "ref_encodings = \<lparr> is_hex = (\<lambda>s. even (length s) \<and> set s \<subseteq> set hex_digits), from_hex = hex_decode,
     to_hex = (\<lambda>s. concat (map hex_byte s)), is_base64 = (\<lambda>s. True),
     from_base64 = (\<lambda>s. s), is_base32z = (\<lambda>s. True), from_base32z = (\<lambda>s. s) \<rparr>"

lemma hex_table: "list_all (\<lambda>n. hex_value (hex_digits ! n) = n) [0..<16]"
  by code_simp

lemma hex_value_digit: "n < 16 \<Longrightarrow> hex_value (hex_digits ! n) = n"
  using hex_table unfolding list_all_iff by simp

lemma hex_digit_in: "n < 16 \<Longrightarrow> hex_digits ! n \<in> set hex_digits"
  by (rule nth_mem) (simp add: hex_digits_def)

lemma char_nibbles: "(of_char c :: nat) div 16 < 16" "(of_char c :: nat) mod 16 < 16"
proof -
  have "(of_char c :: nat) < 256" using range_nat_of_char by auto
  then show "(of_char c :: nat) div 16 < 16" by (simp add: div_less_iff_less_mult)
qed simp

lemma hex_decode_encode: "hex_decode (concat (map hex_byte k)) = k"
proof (induction k)
  case (Cons c k)
  have "16 * ((of_char c :: nat) div 16) + of_char c mod 16 = of_char c" by simp
  then show ?case using Cons by (simp add: hex_byte_def hex_value_digit [OF char_nibbles(1)] hex_value_digit [OF char_nibbles(2)])
qed simp

lemma hex_byte_digits: "length (hex_byte c) = 2" "set (hex_byte c) \<subseteq> set hex_digits"
  using char_nibbles [of c] by (simp_all add: hex_byte_def hex_digit_in)

lemma hex_encode_text: "length (concat (map hex_byte k)) = 2 * length k" "set (concat (map hex_byte k)) \<subseteq> set hex_digits"
  using hex_byte_digits by (induction k) auto

lemma ref_hex_ok: "hex_ok ref_encodings"
  unfolding hex_ok_def
proof (intro conjI allI)
  fix k
  show "from_hex ref_encodings (to_hex ref_encodings k) = k" by (simp add: ref_encodings_def hex_decode_encode)
  show "is_hex ref_encodings (to_hex ref_encodings k)" using hex_encode_text [of k] by (simp add: ref_encodings_def)
  show "length (to_hex ref_encodings k) = 2 * length k" using hex_encode_text [of k] by (simp add: ref_encodings_def)
  show "take 2 (to_hex ref_encodings (CHR 0x05 # k)) = ''05''" "take 2 (to_hex ref_encodings (CHR 0x03 # k)) = ''03''"
    by (simp_all add: ref_encodings_def hex_byte_def hex_digits_def)
qed

section \<open>A config message and a config object\<close>

definition demo_message :: config_message where
  "demo_message = empty_message\<lparr> cm_data := [(''n'', VScalar (SStr ''Kallie''))],
     cm_diff := [(''n'', BtStr '''')], cm_seqno_hash := (1, zero_hash) \<rparr>"

definition demo_signed :: config_message where
  "demo_signed = demo_message\<lparr> cm_signer := Some (\<lambda>m. replicate 64 (CHR ''S'')) \<rparr>"

lemma demo_message_fields [simp]:
  "cm_data demo_message = [(''n'', VScalar (SStr ''Kallie''))]" "cm_diff demo_message = [(''n'', BtStr '''')]"
  "cm_lagged_diffs demo_message = []" "cm_unknown demo_message = []" "cm_seqno_hash demo_message = (1, zero_hash)"
  "cm_verified_signature demo_message = None" "cm_signer demo_message = None" "cm_lag demo_message = 5"
  "cm_orig_data demo_message = None" "cm_verifier demo_message = None"
  by (simp_all add: demo_message_def empty_message_def default_diff_lags_def)

lemma demo_message_ok: "msg_ok demo_message" "storable demo_message" "signatures_ok demo_message"
  by (simp_all add: msg_ok_def storable_def signatures_ok_def unknown_ok_def lags_ok_def in_i64_def pruned_def)

definition demo_base :: config_base where
  "demo_base = (fresh_base demo_message)\<lparr> cb_keys := [replicate 32 (CHR ''k'')], cb_curr_hashes := [''hash1''] \<rparr>"

lemma demo_base_inv: "base_inv demo_base"
  by (simp add: base_inv_def demo_base_def fresh_base_def)

lemma demo_base_fields [simp]:
  "cb_config demo_base = demo_message" "cb_state demo_base = Clean" "cb_keys demo_base = [replicate 32 (CHR ''k'')]"
  "cb_curr_hashes demo_base = [''hash1'']" "cb_old_hashes demo_base = []" "cb_multiparts demo_base = []"
  by (simp_all add: demo_base_def fresh_base_def)

end
