(* ===== verification/Config_Replay.thy ===== *)
theory Config_Replay
  imports Config_Merge
begin

text \<open>
  What the replay of the diffs does to the data, at every path: a scalar, or the membership of an element in a set, is
  as the last diff that writes it left it. The contract is the same for both kinds of observation (locale
  \<open>observation\<close>).
\<close>

section \<open>Paths\<close>

fun look :: "dict_value option \<Rightarrow> string list \<Rightarrow> dict_value option" where
  "look v [] = v"
| "look (Some (VDict d)) (k # p) = look (map_of d k) p"
| "look v (k # p) = None"

lemma look_None [simp]: "look None p = None"
  by (cases p) auto

text \<open>
  What a diff entry does to an observation at a path, given the data the diff refers to: nothing (\<open>None\<close>), or the value it
  has afterwards. \<open>chg\<close> says this for an entry at the end of the path. Entries on the way erase what is below
  them, unless they are dicts in the diff and in the data.
\<close>

fun change_at :: "(bt_value \<Rightarrow> dict_value \<Rightarrow> 'a option) \<Rightarrow> 'a \<Rightarrow> bt_value option \<Rightarrow> dict_value option \<Rightarrow> string list \<Rightarrow> 'a option" where
  "change_at chg none None src p = None"
| "change_at chg none (Some e) None p = Some none"
| "change_at chg none (Some e) (Some v) [] = chg e v"
| "change_at chg none (Some (BtDict d)) (Some (VDict s)) (k # p) = change_at chg none (map_of d k) (map_of s k) p"
| "change_at chg none (Some e) (Some v) (k # p) = Some none"

definition updated :: "'a option \<Rightarrow> 'a \<Rightarrow> 'a" where
  "updated c old = (case c of None \<Rightarrow> old | Some y \<Rightarrow> y)"

lemma updated_simps [simp]: "updated None old = old" "updated (Some y) old = y"
  by (simp_all add: updated_def)

text \<open>The last of several changes that is one.\<close>

definition last_write :: "'a option list \<Rightarrow> 'a \<Rightarrow> 'a" where
  "last_write cs old = (case filter (\<lambda>c. c \<noteq> None) cs of [] \<Rightarrow> old | ds \<Rightarrow> the (last ds))"

lemma last_write_simps [simp]: "last_write [] old = old" "last_write (c # cs) old = last_write cs (updated c old)"
  by (auto simp: last_write_def split: list.split)

text \<open>Sorted keys at every level; what \<open>wf_val\<close> says without the ranges.\<close>

fun sorted_tree :: "dict_value \<Rightarrow> bool" where
  "sorted_tree (VDict d) = (smap_ok d \<and> (\<forall>(k, v) \<in> set d. sorted_tree v))"
| "sorted_tree v = True"

lemma wf_sorted_tree: "wf_val v \<Longrightarrow> sorted_tree v"
  by (induction v rule: sorted_tree.induct) auto

lemma sorted_tree_lookup: "sorted_tree (VDict d) \<Longrightarrow> map_of d k = Some v \<Longrightarrow> sorted_tree v"
  by (auto dest: map_of_SomeD)

section \<open>Observations\<close>

locale observation =
  fixes obs :: "dict_value option \<Rightarrow> 'a" and none :: 'a and chg :: "bt_value \<Rightarrow> dict_value \<Rightarrow> 'a option"
  assumes obs_empty: "obs None = none" "obs (Some (VDict d)) = none" "obs (Some (VSet [])) = none"
    and obs_applied: "valid_diff_val e \<Longrightarrow> apply_value cur e (Some v) = Inr r \<Longrightarrow> obs r = updated (chg e v) (obs cur)"
begin

lemma applied:
  "valid_diff_val e \<Longrightarrow> apply_value cur e src = Inr r \<Longrightarrow> pred_option sorted_tree cur \<Longrightarrow>
   pred_option sorted_tree r \<and> (\<forall>p. obs (look r p) = updated (change_at chg none (Some e) src p) (obs (look cur p)))"
proof (induction e arbitrary: cur src r rule: valid_diff_val.induct)
  case (3 df)
  show ?case
  proof (cases "\<exists>s. src = Some (VDict s)")
    case False
    then have "r = None" using 3(3) by (cases src rule: option.exhaust; cases "the src") auto
    moreover have "obs (look None p) = updated (change_at chg none (Some (BtDict df)) src p) (obs (look cur p))" for p
      using False 3(2,3) obs_applied [of "BtDict df" cur _ r] \<open>r = None\<close>
      by (cases src; cases p; cases "the src") (auto simp: obs_empty)
    ultimately show ?thesis by simp
  next
    case True
    then obtain s where s: "src = Some (VDict s)" by blast
    define data where "data = (case cur of Some (VDict d) \<Rightarrow> d | _ \<Rightarrow> [])"
    obtain d where d: "apply_diff data df s = Inr d" "r = Some (VDict d)"
      using 3(3) s by (auto simp: res_bind_eq_Inr data_def)
    have data: "sorted_tree (VDict data)" using 3(4) by (auto simp: data_def split: option.split dict_value.split)
    have dist: "distinct (map fst df)" "smap_ok df" using 3(2) by (auto simp: smap_ok_distinct)
    note dec = apply_diff_decompose [OF _ dist(1) d(1)]
    have key: "pred_option sorted_tree (map_of d k) \<and>
        (\<forall>p. obs (look (map_of d k) p) = updated (change_at chg none (map_of df k) (map_of s k) p) (obs (look (map_of data k) p)))" for k
    proof (cases "map_of df k")
      case None
      then have "map_of d k = map_of data k" using dec data by (auto dest!: spec [of _ k])
      then show ?thesis using None sorted_tree_lookup [OF data, of k] by (auto simp: pred_option_def)
    next
      case (Some e)
      then have e: "(k, e) \<in> set df" by (rule map_of_SomeD)
      then have "valid_diff_val e" using 3(2) by auto
      moreover have "apply_value (map_of data k) e (map_of s k) = Inr (map_of d k)" using dec data Some by (auto split: option.splits)
      moreover have "pred_option sorted_tree (map_of data k)" using sorted_tree_lookup [OF data, of k] by (auto simp: pred_option_def)
      ultimately show ?thesis using 3(1) [OF e refl, of "map_of data k" "map_of s k" "map_of d k"] Some by simp
    qed
    have "smap_ok d" using dec data by auto
    then have "sorted_tree (VDict d)"
      using key by (auto simp: pred_option_def dest: map_of_is_SomeI [OF smap_ok_distinct])
    moreover have "obs (look r p) = updated (change_at chg none (Some (BtDict df)) src p) (obs (look cur p))" for p
    proof (cases p)
      case Nil
      then show ?thesis using obs_applied [OF 3(2)] 3(3) s by simp
    next
      case (Cons k q)
      have "look cur (k # q) = look (map_of data k) q" by (auto simp: data_def split: option.split dict_value.split)
      then show ?thesis using Cons key [of k] d(2) s by simp
    qed
    ultimately show ?thesis using d(2) by simp
  qed
next
  case (1 m)
  have "sorted_tree v" if "r = Some v" for v using 1 that by (cases src; cases "the src") (auto split: if_splits)
  moreover have "obs (look r p) = updated (change_at chg none (Some (BtStr m)) src p) (obs (look cur p))" for p
    using 1 obs_applied [OF 1(1), of cur _ r] by (cases src; cases p; cases "the src") (auto simp: obs_empty split: if_splits)
  ultimately show ?case by (auto simp: pred_option_def)
next
  case (2 l)
  have "sorted_tree v" if "r = Some v" for v using 2 that by (cases src; cases "the src") (auto simp: res_bind_eq_Inr)
  moreover have "obs (look r p) = updated (change_at chg none (Some (BtList l)) src p) (obs (look cur p))" for p
    using 2 obs_applied [OF 2(1), of cur _ r] by (cases src; cases p; cases "the src") (auto simp: obs_empty res_bind_eq_Inr)
  ultimately show ?case by (auto simp: pred_option_def)
qed simp

lemma applied_dict:
  assumes "apply_diff d df src = Inr d'" "valid_diff df" "sorted_tree (VDict d)"
  shows "sorted_tree (VDict d')"
    and "obs (look (Some (VDict d')) p) = updated (change_at chg none (Some (BtDict df)) (Some (VDict src)) p) (obs (look (Some (VDict d)) p))"
  using applied [OF assms(2), of "Some (VDict d)" "Some (VDict src)" "Some (VDict d')"] assms(1,3) by simp_all

abbreviation changes :: "replay \<Rightarrow> string list \<Rightarrow> 'a option list" where
  "changes r p \<equiv> map (\<lambda>(sh, (src, df)). change_at chg none (Some (BtDict df)) (Some (VDict src)) p) r"

lemma replayed:
  "apply_replay r d = Inr d' \<Longrightarrow> \<forall>(sh, (src, df)) \<in> set r. valid_diff df \<Longrightarrow> sorted_tree (VDict d) \<Longrightarrow>
   sorted_tree (VDict d') \<and> obs (look (Some (VDict d')) p) = last_write (changes r p) (obs (look (Some (VDict d)) p))"
proof (induction r arbitrary: d)
  case (Cons x r)
  obtain sh src df where x: "x = (sh, (src, df))" by (metis prod.exhaust)
  with Cons.prems obtain d1 where d1: "apply_diff d df src = Inr d1" "apply_replay r d1 = Inr d'"
    by (auto simp: apply_replay_Cons res_bind_eq_Inr)
  have "valid_diff df" using Cons.prems(2) x by simp
  note step = applied_dict [OF d1(1) this Cons.prems(3)]
  show ?case using Cons.IH [OF d1(2) _ step(1)] Cons.prems(2) step(2) [of p] x by simp
qed (simp add: apply_replay_def)

lemma pruned_same:
  "sorted_tree v \<Longrightarrow> obs (look (if fst (snd (prune_val v)) then None else Some (fst (prune_val v))) p) = obs (look (Some v) p)"
  "sorted_tree (VDict m) \<Longrightarrow> obs (look (map_of (fst (prune_entries m)) k) p) = obs (look (map_of m k) p)"
proof (induction v and m arbitrary: p and p k rule: dict_tree_induct)
  case (VDict d)
  then show ?case by (cases p) (auto simp: Let_def obs_empty)
next
  case (VSet s)
  then show ?case by (cases p) (auto simp: obs_empty)
next
  case (Cons j v m)
  have "map_of (fst (prune_entries m)) j = None"
    using Cons.prems keys_prune_entries [of _ m] by (fastforce simp: map_of_eq_None_iff)
  then show ?case using Cons by (auto simp: Let_def)
qed auto

lemma pruned_dict_same:
  assumes "sorted_tree (VDict d)"
  shows "obs (look (Some (VDict (fst (prune_dict d)))) p) = obs (look (Some (VDict d)) p)"
  using pruned_same(2) [OF assms] by (cases p) (simp_all add: prune_dict_def Let_def obs_empty)

end

definition scalar_obs :: "dict_value option \<Rightarrow> scalar option" where
  "scalar_obs v = (case v of Some (VScalar c) \<Rightarrow> Some c | _ \<Rightarrow> None)"

fun scalar_change :: "bt_value \<Rightarrow> dict_value \<Rightarrow> scalar option option" where
  "scalar_change (BtStr m) (VScalar c) = Some (if m = ''-'' then None else Some c)"
| "scalar_change e v = Some None"

definition member_obs :: "scalar \<Rightarrow> dict_value option \<Rightarrow> bool" where
  "member_obs x v = (case v of Some (VSet s) \<Rightarrow> x \<in> set s | _ \<Rightarrow> False)"

text \<open>A set diff holds the added and the removed elements; the removed ones are erased last.\<close>

fun member_change :: "scalar \<Rightarrow> bt_value \<Rightarrow> dict_value \<Rightarrow> bool option" where
  "member_change x (BtList (BtList added # BtList removed # _)) (VSet s) =
     (if bt_scalar x \<in> set removed then Some False else if bt_scalar x \<in> set added then Some True else None)"
| "member_change x e v = Some False"

interpretation scalars: observation scalar_obs None scalar_change
proof unfold_locales
  fix e cur v r
  assume "valid_diff_val e" "apply_value cur e (Some v) = Inr r"
  then show "scalar_obs r = updated (scalar_change e v) (scalar_obs cur)"
    by (cases e; cases v) (auto simp: scalar_obs_def res_bind_eq_Inr split: if_splits)
qed (simp_all add: scalar_obs_def)

lemma scalar_or_error_inverse: "scalar_or_error v = Inr y \<Longrightarrow> v = bt_scalar y"
  by (cases v) (auto simp: scalar_or_error_def get_bt_scalar_def get_bt_int_def get_bt_str_def res_bind_eq_Inr split: if_splits)

lemma bt_scalar_inj [simp]: "bt_scalar x = bt_scalar y \<longleftrightarrow> x = y"
  by (cases x; cases y) auto

lemma inserted_members: "res_fold insert_step vs s = Inr s' \<Longrightarrow> x \<in> set s' \<longleftrightarrow> x \<in> set s \<or> bt_scalar x \<in> set vs"
proof (induction vs arbitrary: s)
  case (Cons v vs)
  then obtain z where "v = bt_scalar z" "res_fold insert_step vs (set_insert z s) = Inr s'"
    by (auto simp: insert_step_def [of v] res_bind_eq_Inr dest!: scalar_or_error_inverse)
  with Cons.IH show ?case by auto
qed simp

lemma erased_members: "res_fold erase_step vs s = Inr s' \<Longrightarrow> x \<in> set s' \<longleftrightarrow> x \<in> set s \<and> bt_scalar x \<notin> set vs"
proof (induction vs arbitrary: s)
  case (Cons v vs)
  then obtain z where "v = bt_scalar z" "res_fold erase_step vs (set_erase z s) = Inr s'"
    by (auto simp: erase_step_def [of v] res_bind_eq_Inr dest!: scalar_or_error_inverse)
  with Cons.IH show ?case by auto
qed simp

lemma set_diff_members:
  assumes "apply_set_diff l s = Inr s'"
  obtains added removed rest where "l = BtList added # BtList removed # rest"
    "\<And>x. x \<in> set s' \<longleftrightarrow> (x \<in> set s \<or> bt_scalar x \<in> set added) \<and> bt_scalar x \<notin> set removed"
proof -
  obtain a l1 where l1: "l = a # l1" using assms by (cases l) (auto simp: apply_set_diff_def)
  obtain r l2 where l2: "l1 = r # l2" using assms l1 by (cases l1) (auto simp: apply_set_diff_def res_bind_eq_Inr)
  obtain added removed s1 where "a = BtList added" "r = BtList removed"
    "res_fold insert_step added s = Inr s1" "res_fold erase_step removed s1 = Inr s'"
    using assms l1 l2 by (auto simp: apply_set_diff_def get_bt_list_def res_bind_eq_Inr split: bt_value.splits)
  then show thesis using that [of added removed l2] l1 l2 by (simp add: inserted_members erased_members)
qed

interpretation members: observation "member_obs x" False "member_change x" for x
proof unfold_locales
  fix e cur v r
  assume a: "valid_diff_val e" "apply_value cur e (Some v) = Inr r"
  show "member_obs x r = updated (member_change x e v) (member_obs x cur)"
  proof (cases "\<exists>l s. e = BtList l \<and> v = VSet s")
    case True
    then obtain l s where e: "e = BtList l" "v = VSet s" by blast
    then obtain s' where s': "apply_set_diff l (case cur of Some (VSet s) \<Rightarrow> s | _ \<Rightarrow> []) = Inr s'" "r = Some (VSet s')"
      using a(2) by (auto simp: res_bind_eq_Inr)
    from s'(1) show ?thesis
      by (rule set_diff_members) (auto simp: e s'(2) member_obs_def split: option.split dict_value.split)
  next
    case False
    then show ?thesis using a by (cases e; cases v) (auto simp: member_obs_def res_bind_eq_Inr split: if_splits)
  qed
qed (simp_all add: member_obs_def)

section \<open>The replay of a merge\<close>

lemma emplace_values: "p \<in> set (smap_emplace k v m) \<Longrightarrow> p = (k, v) \<or> p \<in> set m"
  by (auto simp: smap_emplace_def dest: smap_put_values split: option.splits)

lemma replay_of_ok:
  assumes "smap_ok r" "\<forall>(sh, (src, df)) \<in> set r. valid_diff df" "msg_ok m"
  shows "smap_ok (replay_of m r) \<and> (\<forall>(sh, (src, df)) \<in> set (replay_of m r). valid_diff df)"
proof -
  let ?ok = "\<lambda>r. smap_ok r \<and> (\<forall>(sh, (src, df)) \<in> set r. valid_diff df)"
  have own: "valid_diff (cm_diff m)" and lags: "\<forall>(sh, df) \<in> set (cm_lagged_diffs m). valid_diff df"
    using assms(3) by (auto simp: msg_ok_def lags_ok_def simp del: valid_diff_val.simps)
  have emplace: "?ok (smap_emplace sh (cm_data m, df) r)" if "?ok r" "valid_diff df" for sh df r
    using that by (auto dest!: emplace_values simp del: valid_diff_val.simps)
  have "?ok (fold (\<lambda>(sh, diff). smap_emplace sh (cm_data m, diff)) ls r)"
    if "?ok r" "\<forall>(sh, df) \<in> set ls. valid_diff df" for ls r
    using that
  proof (induction ls arbitrary: r)
    case (Cons l ls)
    obtain sh df where l: "l = (sh, df)" by fastforce
    have "?ok (smap_emplace sh (cm_data m, df) r)" by (rule emplace) (use Cons.prems l in auto)
    from Cons.IH [OF this] Cons.prems(2) l show ?case by simp
  qed simp
  from this [OF emplace [OF _ own] lags] assms(1,2) show ?thesis unfolding replay_of_def by blast
qed

lemma build_replay_ok:
  assumes "\<forall>m \<in> set confs. msg_ok m"
  shows "smap_ok (build_replay confs) \<and> (\<forall>(sh, (src, df)) \<in> set (build_replay confs). valid_diff df)"
proof -
  have "smap_ok (fold replay_of confs r) \<and> (\<forall>(sh, (src, df)) \<in> set (fold replay_of confs r). valid_diff df)"
    if "smap_ok r" "\<forall>(sh, (src, df)) \<in> set r. valid_diff df" for r
    using that assms
  proof (induction confs arbitrary: r)
    case (Cons m confs)
    have "msg_ok m" "\<forall>c \<in> set confs. msg_ok c" using Cons.prems(3) by simp_all
    note step = replay_of_ok [OF Cons.prems(1,2) this(1)] and rest = this(2)
    show ?case using Cons.IH [OF conjunct1 [OF step] conjunct2 [OF step] rest] by (simp del: valid_diff_val.simps)
  qed simp
  from this [of "[]"] show ?thesis unfolding build_replay_def by simp
qed

text \<open>
  C22: last writer wins, at every path. In the data of the merged message each scalar, and for each set each element, is as the
  last diff that writes it left it, in the order of the replay: ascending by seqno and hash of the messages the
  diffs belong to. What no diff writes is as in the newest message. A diff writes a scalar when it sets or removes it, or
  replaces or removes something on the way to it; it writes an element when it adds or removes it, or replaces or
  removes the set or something on the way to it. Adding and removing other elements, or changing other keys of the dicts on the
  way, leaves it alone.
\<close>

theorem last_writer_wins:
  assumes "merge_kept x vf sg lag highest confs = Inr m" "\<forall>c \<in> set confs. msg_ok c"
  shows "sorted_wrt (<) (map fst (build_replay (sort_configs confs))) \<and>
    scalar_obs (look (Some (VDict (cm_data m))) p) =
      last_write (map (\<lambda>(sh, (src, df)). change_at scalar_change None (Some (BtDict df)) (Some (VDict src)) p) (build_replay (sort_configs confs)))
        (scalar_obs (look (Some (VDict (cm_data (hd (sort_configs confs))))) p)) \<and>
    member_obs y (look (Some (VDict (cm_data m))) p) =
      last_write (map (\<lambda>(sh, (src, df)). change_at (member_change y) False (Some (BtDict df)) (Some (VDict src)) p) (build_replay (sort_configs confs)))
        (member_obs y (look (Some (VDict (cm_data (hd (sort_configs confs))))) p))"
proof -
  let ?r = "build_replay (sort_configs confs)"
  obtain front rest d where front: "sort_configs confs = front # rest" and d: "apply_replay ?r (cm_data front) = Inr d"
    "cm_data m = fst (prune_dict d)"
    using assms(1) by (auto simp: merge_kept_def Let_def res_bind_eq_Inr set_hash_def split: list.splits)
  have set: "set (sort_configs confs) = set confs" by (simp add: sort_configs_def)
  then have "\<forall>c \<in> set (sort_configs confs). msg_ok c" using assms(2) by simp
  note ok = build_replay_ok [OF this]
  have "front \<in> set confs" using front set by auto
  then have tree: "sorted_tree (VDict (cm_data front))" using assms(2) wf_sorted_tree by (auto simp: msg_ok_def simp del: wf_val.simps sorted_tree.simps)
  note s = scalars.replayed [OF d(1) _ tree, of p] and e = members.replayed [OF d(1) _ tree, of y p]
  show ?thesis
    using ok s e scalars.pruned_dict_same [of d p] members.pruned_dict_same [of d y p] front d(2) by (simp del: sorted_tree.simps valid_diff_val.simps)
qed

end
