(* ===== verification/Diff_Loader.thy ===== *)
theory Diff_Loader
  imports Config_Wire
begin

text \<open>
  Termination of the loop in \<open>load_diff\<close> (\<open>src/src/config.cpp\<close>), one iteration at a time.
\<close>

text \<open>No integer as the value of a dict pair, at any depth.\<close>

fun no_ints :: "bt_value \<Rightarrow> bool" where
  "no_ints (BtInt i) = False"
| "no_ints (BtStr s) = True"
| "no_ints (BtList l) = True"
| "no_ints (BtDict d) = list_all (\<lambda>p. no_ints (snd p)) d"

fun load_diff_iters :: "nat \<Rightarrow> bt_dict \<times> bt_dict \<Rightarrow> (bt_dict \<times> bt_dict) res" where
  "load_diff_iters 0 st = Inr st"
| "load_diff_iters (Suc n) st = res_bind (load_diff_iter st) (load_diff_iters n)"

lemma check_scalar_order_error: "check_scalar_order a b = Inl err \<Longrightarrow> err \<noteq> Nontermination"
  by (cases a; cases b) (auto simp: check_scalar_order_def get_bt_int_def get_bt_str_def guard_def split: if_splits)

lemma check_elems_error: "check_elems l = Inl err \<Longrightarrow> err \<noteq> Nontermination"
  by (induction l rule: check_elems.induct) (auto simp: res_bind_def check_scalar_order_error split: sum.splits)

lemma res_map_error: "res_map f xs = Inl err \<Longrightarrow> \<exists>x \<in> set xs. f x = Inl err"
  by (induction xs) (auto simp: res_bind_def split: sum.splits)

lemma check_sublist_error: "check_sublist v = Inl err \<Longrightarrow> err \<noteq> Nontermination"
  by (auto simp: check_sublist_def check_elems_error split: bt_value.splits)

lemma load_diff_ends:
  "list_all (\<lambda>p. no_ints (snd p)) d \<Longrightarrow> load_diff_loop d acc \<noteq> Inl Nontermination"
  "no_ints v \<Longrightarrow> load_diff_val v \<noteq> Inl Nontermination \<and> load_diff_val v \<noteq> Inr None"
proof (induction d acc and v rule: load_diff_loop_load_diff_val.induct)
  case (2 key v dict result)
  then show ?case by (auto simp: res_bind_def guard_def split: sum.splits option.splits)
next
  case (4 changed)
  have "res_map check_sublist changed \<noteq> Inl Nontermination"
    using res_map_error [of check_sublist changed] check_sublist_error by blast
  then show ?case by (auto simp: res_bind_def guard_def split: sum.splits)
next
  case (5 d)
  then show ?case by (auto simp: res_bind_def split: sum.splits)
qed simp_all

lemma load_diff_iters_loop:
  "list_all (\<lambda>p. no_ints (snd p)) d \<Longrightarrow>
   load_diff_iters (length d) (d, acc) = res_bind (load_diff_loop d acc) (\<lambda>r. Inr ([], r))"
proof (induction d arbitrary: acc)
  case (Cons p d)
  obtain k v where p: "p = (k, v)" by fastforce
  have "load_diff_val v \<noteq> Inr None" using Cons.prems load_diff_ends(2) [of v] by (simp add: p)
  then show ?case
    using Cons by (auto simp: p load_diff_iter_def res_bind_def guard_def split: sum.splits option.splits)
qed simp

text \<open>
  C34 (code bug): the loop of \<open>load_diff\<close> ends after one iteration per pair for every diff without integer
  values. At an integer value no branch consumes anything: the loop stays where it is for ever, although
  the message is malformed and should be refused.
\<close>

theorem load_diff_termination:
  "(after_last result key \<longrightarrow>
      load_diff_iters n ((key, BtInt i) # dict, result) = Inr ((key, BtInt i) # dict, result)) \<and>
   (no_ints (BtDict d) \<longrightarrow> load_diff d \<noteq> Inl Nontermination \<and>
      load_diff_iters (length d) (d, []) = (case load_diff d of Inr r \<Rightarrow> Inr ([], r) | Inl err \<Rightarrow> Inl err))"
proof (intro conjI impI)
  assume a: "after_last result key"
  show "load_diff_iters n ((key, BtInt i) # dict, result) = Inr ((key, BtInt i) # dict, result)"
    using a by (induction n) (simp_all add: load_diff_iter_def guard_def)
next
  assume "no_ints (BtDict d)"
  then have d: "list_all (\<lambda>p. no_ints (snd p)) d" by simp
  show "load_diff d \<noteq> Inl Nontermination" using load_diff_ends(1) [OF d] by (simp add: load_diff_def)
  show "load_diff_iters (length d) (d, []) = (case load_diff d of Inr r \<Rightarrow> Inr ([], r) | Inl err \<Rightarrow> Inl err)"
    using load_diff_iters_loop [OF d, of "[]"] by (simp add: load_diff_def res_bind_def split: sum.split)
qed

end
