(* ===== verification/Multipart.thy ===== *)
theory Multipart
  imports Config_Lifecycle Bencode
begin

text \<open>
  Configs that are too long for one message: \<open>push\<close> splits the padded bytes (\<open>make_parts\<close>) and
  \<open>_handle_multipart\<close> collects the parts. Whatever the order in which the parts come, the object remembers exactly
  the ones it has seen (\<open>collected\<close>), and the last one to come gives the original bytes back.
\<close>

section \<open>Splitting\<close>

lemma split_parts_concat: "0 < n \<Longrightarrow> concat (split_parts n msg) = msg"
  by (induction n msg rule: split_parts.induct) auto

lemma split_parts_length: "0 < n \<Longrightarrow> length (split_parts n msg) = (length msg + n - 1) div n"
proof (induction n msg rule: split_parts.induct)
  case (2 n c cs)
  let ?m = "c # cs"
  have "length (split_parts n ?m) = Suc ((length ?m - n + n - 1) div n)" using 2 by simp
  also have "\<dots> = (length ?m + n - 1) div n"
  proof (cases "n \<le> length ?m")
    case True
    then have "length ?m + n - 1 = (length ?m - n + n - 1) + n" using 2(2) by simp
    then show ?thesis using 2(2) by (metis Suc_eq_plus1 div_add_self2 not_less_zero)
  next
    case False
    then have "length ?m + n - 1 = n + (length ?m - 1)" "length ?m - 1 < n" by simp_all
    then show ?thesis using False 2(2) by (simp only: div_add_self1) simp
  qed
  finally show ?case .
qed simp

text \<open>All parts but the last are full, and none is empty.\<close>

lemma split_parts_nth:
  assumes "0 < n" "i < length (split_parts n msg)"
  shows "split_parts n msg ! i \<noteq> [] \<and> length (split_parts n msg ! i) \<le> n \<and>
     (i < length (split_parts n msg) - 1 \<longrightarrow> length (split_parts n msg ! i) = n)"
  using assms
proof (induction n msg arbitrary: i rule: split_parts.induct)
  case (2 n c cs)
  show ?case
  proof (cases i)
    case 0
    have "n \<le> length (c # cs)" if "0 < length (split_parts n (drop n (c # cs)))"
    proof (rule ccontr)
      assume "\<not> n \<le> length (c # cs)"
      then have "drop n (c # cs) = []" by simp
      with that show False by simp
    qed
    then show ?thesis using 0 2(2) by auto
  next
    case (Suc j)
    then show ?thesis using 2 by (auto split: nat.split)
  qed
qed simp

section \<open>One part on the wire\<close>

text \<open>
  What the code relies on of the bencode library: the format of a list of strings, a reader that stops at the end of
  the list it reads; and that the hash has 32 bytes.
\<close>

definition part_codec_ok :: "libs \<Rightarrow> bool" where
  "part_codec_ok x \<longleftrightarrow> (\<forall>m. length (blake2b x m) = 32) \<and>
     (\<forall>ss rest. bt_encode x (BtList (map BtStr ss)) = ''l'' @ concat (map (\<lambda>s. digits (length s) @ '':'' @ s) ss) @ ''e'' \<and>
        bt_decode x (bt_encode x (BtList (map BtStr ss)) @ rest) = Some (BtList (map BtStr ss)))"

lemma part_codec_simps:
  assumes "part_codec_ok x"
  shows "length (blake2b x m) = 32"
    and "bt_encode x (BtList (map BtStr ss)) = ''l'' @ concat (map (\<lambda>s. digits (length s) @ '':'' @ s) ss) @ ''e''"
    and "bt_decode x (bt_encode x (BtList (map BtStr ss)) @ rest) = Some (BtList (map BtStr ss))"
  using assms unfolding part_codec_ok_def by blast+

lemma digits_length: "n < 10 ^ Suc k \<Longrightarrow> length (digits n) \<le> Suc k"
proof (induction k arbitrary: n)
  case (Suc k)
  then have "n div 10 < 10 ^ Suc k" by (simp add: less_mult_imp_div_less)
  then show ?case using Suc.IH [of "n div 10"] by (subst digits.simps) auto
qed (subst digits.simps, simp)

lemma digits_length_ge: "10 ^ k \<le> n \<Longrightarrow> Suc k \<le> length (digits n)"
proof (induction k arbitrary: n)
  case 0
  show ?case using digits_not_Nil [of n] by (cases "digits n") auto
next
  case (Suc k)
  have "10 ^ Suc k div 10 \<le> n div 10" using Suc.prems by (rule div_le_mono)
  then have "10 ^ k \<le> n div 10" by simp
  moreover have "\<not> n < 10"
  proof -
    have "(1::nat) \<le> 10 ^ k" by simp
    with Suc.prems show ?thesis unfolding power_Suc by linarith
  qed
  ultimately show ?case using Suc.IH [of "n div 10"] by (subst digits.simps) simp
qed

lemma of_char_of_byte: "m < 256 \<Longrightarrow> (of_char (char_of m) :: int) = int m"
proof -
  assume "m < 256"
  then have "(of_char (char_of m) :: nat) = m" by simp
  then show ?thesis using of_nat_of_char [where 'a = int, of "char_of m"] by simp
qed

lemma encode_part_ok:
  assumes "part_codec_ok (e_libs e)" "length h = 32" "i < n" "1 < n" "n < 256" "chunk \<noteq> []"
    and "length chunk \<le> MAX_CHUNK_SIZE" "\<not> last_part \<Longrightarrow> length chunk = MAX_CHUNK_SIZE"
  shows "\<exists>p. encode_part e h i n chunk last_part = Inr p \<and> length p = length chunk + 50 \<and> hd p = CHR ''m'' \<and>
     parse_part e p = Some (h, int i, int n, chunk)"
proof -
  let ?ss = "[h, [char_of i], [char_of n], chunk]"
  let ?l = "bt_encode (e_libs e) (BtList (map BtStr ?ss))" and ?d = "length (digits (length chunk))"
  have one: "length (digits (Suc 0)) = 1" and two: "length (digits 32) = 2"
    by (simp_all add: digits.simps)
  have l: "length ?l = 44 + ?d + length chunk"
    using one two assms(2) unfolding part_codec_simps(2) [OF assms(1)] by simp
  have size: "length chunk \<le> 76710" using assms(7)
    by (simp add: MAX_CHUNK_SIZE_def MAX_MESSAGE_SIZE_def ENCODE_OVERHEAD_def ENCRYPT_DATA_OVERHEAD_def)
  have d: "?d \<le> 5" "1 \<le> ?d" using digits_length [of "length chunk" 4] digits_length_ge [of 0 "length chunk"] size assms(6)
    by (auto simp: Suc_le_eq)
  have full: "5 \<le> ?d" if "\<not> last_part" using digits_length_ge [of 4 "length chunk"] assms(8) [OF that]
    by (simp add: MAX_CHUNK_SIZE_def MAX_MESSAGE_SIZE_def ENCODE_OVERHEAD_def ENCRYPT_DATA_OVERHEAD_def)
  define pad where "pad = replicate (5 - ?d) (CHR 0x00)"
  let ?p = "CHR ''m'' # ?l @ pad"
  have "encode_part e h i n chunk last_part = Inr ?p"
    using l d full by (auto simp: encode_part_def Let_def ENCODE_OVERHEAD_def assertion_def guard_def pad_def)
  moreover have len: "length ?p = length chunk + 50" using l d by (simp add: pad_def)
  moreover have "parse_part e ?p = Some (h, int i, int n, chunk)"
  proof -
    have "bt_decode (e_libs e) (?l @ pad) = Some (BtList (map BtStr ?ss))"
      by (rule part_codec_simps(3) [OF assms(1)])
    then show ?thesis using assms(2-6) size len by (simp add: parse_part_def MAX_MESSAGE_SIZE_def of_char_of_byte)
  qed
  ultimately show ?thesis by auto
qed

lemma make_parts_ok:
  assumes "part_codec_ok (e_libs e)" "MAX_CHUNK_SIZE < length msg" "length msg \<le> MAX_MULTIPART_SIZE"
  defines "chunks \<equiv> split_parts MAX_CHUNK_SIZE msg"
  shows "\<exists>parts. make_parts e msg = Inr parts \<and> length parts = length chunks \<and> 1 < length chunks \<and> length chunks < 256 \<and>
     (\<forall>i < length chunks. length (parts ! i) \<le> MAX_CHUNK_SIZE + 50 \<and> hd (parts ! i) = CHR ''m'' \<and> parts ! i \<noteq> [] \<and>
        parse_part e (parts ! i) = Some (blake2b (e_libs e) msg, int i, int (length chunks), chunks ! i))"
proof -
  note sizes = MAX_CHUNK_SIZE_def MAX_MESSAGE_SIZE_def ENCODE_OVERHEAD_def ENCRYPT_DATA_OVERHEAD_def MAX_MULTIPART_SIZE_def
  let ?h = "blake2b (e_libs e) msg" and ?n = "length chunks"
  have pos: "0 < MAX_CHUNK_SIZE" by (simp add: sizes)
  have n: "?n = (length msg + MAX_CHUNK_SIZE - 1) div MAX_CHUNK_SIZE"
    unfolding chunks_def by (rule split_parts_length [OF pos])
  then have bounds: "1 < ?n" "?n < 256"
    using assms(2,3) by (simp_all add: sizes less_eq_div_iff_mult_less_eq div_less_iff_less_mult flip: Suc_le_eq)
  then have n': "num_parts_of (length msg) = ?n" using n by (simp add: num_parts_of_def)
  have "\<exists>p. encode_part e ?h i ?n (chunks ! i) (i = ?n - 1) = Inr p \<and> length p = length (chunks ! i) + 50 \<and> hd p = CHR ''m'' \<and>
     parse_part e p = Some (?h, int i, int ?n, chunks ! i)" if i: "i < ?n" for i
    using split_parts_nth [OF pos, of i msg] i bounds assms(1) unfolding chunks_def
    by (intro encode_part_ok) (simp_all add: part_codec_simps(1))
  then obtain p where p: "\<And>i. i < ?n \<Longrightarrow> encode_part e ?h i ?n (chunks ! i) (i = ?n - 1) = Inr (p i) \<and>
      length (p i) = length (chunks ! i) + 50 \<and> hd (p i) = CHR ''m'' \<and> parse_part e (p i) = Some (?h, int i, int ?n, chunks ! i)"
    by metis
  have "make_parts e msg = res_map (\<lambda>(i, chunk). encode_part e ?h (i mod 256) ?n chunk (i = ?n - 1)) (zip [0..<?n] chunks)"
    using n' by (simp add: make_parts_def Let_def chunks_def)
  also have "\<dots> = Inr (map (p \<circ> fst) (zip [0..<?n] chunks))"
    using p bounds by (intro res_map_ok) (auto simp: set_zip)
  also have "map (p \<circ> fst) (zip [0..<?n] chunks) = map p [0..<?n]" by (simp flip: map_map)
  finally have "make_parts e msg = Inr (map p [0..<?n])" .
  moreover have "length (chunks ! i) \<le> MAX_CHUNK_SIZE" if "i < ?n" for i
    using split_parts_nth [OF pos, of i msg] that unfolding chunks_def by blast
  ultimately show ?thesis using p bounds by fastforce
qed

section \<open>Collecting the parts\<close>

text \<open>The parts of a message with indices in \<open>seen\<close>: their entries in the order of the indices.\<close>

definition entry :: "string list \<Rightarrow> bytes list \<Rightarrow> nat \<Rightarrow> partial_message" where
  "entry ids chunks i = \<lparr> pm_index = int i, pm_id = ids ! i, pm_data = chunks ! i \<rparr>"

definition collected :: "string list \<Rightarrow> bytes list \<Rightarrow> nat set \<Rightarrow> partial_message list" where
  "collected ids chunks seen = map (entry ids chunks) (filter (\<lambda>i. i \<in> seen) [0..<length chunks])"

lemma entry_simps [simp]:
  "pm_index (entry ids chunks i) = int i" "pm_id (entry ids chunks i) = ids ! i" "pm_data (entry ids chunks i) = chunks ! i"
  by (simp_all add: entry_def)

lemma collected_sorted: "sorted_wrt (<) (map pm_index (collected ids chunks seen))"
  by (simp add: collected_def sorted_wrt_map sorted_wrt_filter o_def)

lemma collected_empty_iff: "collected ids chunks seen = [] \<longleftrightarrow> seen \<inter> {..<length chunks} = {}"
  by (auto simp: collected_def filter_empty_conv)

lemma collected_all:
  assumes "{..<length chunks} \<subseteq> seen" "length ids = length chunks"
  shows "map pm_data (collected ids chunks seen) = chunks" "map pm_id (collected ids chunks seen) = ids"
proof -
  have "filter (\<lambda>i. i \<in> seen) [0..<length chunks] = [0..<length chunks]" using assms(1) by (auto simp: filter_id_conv)
  then show "map pm_data (collected ids chunks seen) = chunks" "map pm_id (collected ids chunks seen) = ids"
    using assms(2) by (simp_all add: collected_def o_def map_nth) (metis map_nth)
qed

lemma collected_length:
  assumes "seen \<subseteq> {..<length chunks}"
  shows "length (collected ids chunks seen) = length chunks \<longleftrightarrow> seen = {..<length chunks}"
proof -
  have "length (collected ids chunks seen) = card (seen \<inter> {..<length chunks})"
    by (simp add: collected_def length_filter_conv_card lessThan_def Int_def conj_commute cong: conj_cong)
  also have "\<dots> = length chunks \<longleftrightarrow> seen = {..<length chunks}"
    using assms by (metis card_lessThan card_subset_eq finite_lessThan inf.absorb1)
  finally show ?thesis .
qed

lemma insert_collected:
  assumes "i < length chunks"
  shows "insert_part (entry ids chunks i) (collected ids chunks seen) =
     (if i \<in> seen then None else Some (collected ids chunks (insert i seen)))"
proof -
  have "insert_part (entry ids chunks i) (map (entry ids chunks) js) =
      (if i \<in> set js then None else Some (map (entry ids chunks) (insort i js)))" if "sorted_wrt (<) js" for js
    using that by (induction js) auto
  moreover have "insort i (filter (\<lambda>i. i \<in> seen) [0..<n]) = filter (\<lambda>j. j \<in> insert i seen) [0..<n]"
    if "i \<notin> seen" "i < n" for n
    by (rule sorted_distinct_set_unique)
      (use that sorted_wrt_filter [of "(\<le>)" "[0..<n]"] in \<open>auto simp: sorted_insort distinct_insort set_insort_key\<close>)
  ultimately show ?thesis using assms by (simp add: collected_def sorted_wrt_filter)
qed

text \<open>
  What an object knows of a message after the parts in \<open>seen\<close>: nothing, some parts, or that it is done.
\<close>

definition knows :: "env \<Rightarrow> bytes \<Rightarrow> string list \<Rightarrow> nat set \<Rightarrow> config_base \<Rightarrow> bool" where
  "knows e msg ids seen b \<longleftrightarrow>
     (let chunks = split_parts MAX_CHUNK_SIZE msg; p = the_parts (blake2b (e_libs e) msg) b in
      if seen = {..<length chunks} then ps_done p
      else \<not> ps_done p \<and> ps_parts p = collected ids chunks seen \<and> (seen \<noteq> {} \<longrightarrow> ps_size p = int (length chunks)))"

lemma the_parts_set [simp]: "the_parts h (set_parts h p b) = p"
proof -
  have "map_of (smap_put h p m) h = Some p" for m by (induction m) auto
  then show ?thesis by (simp add: the_parts_def set_parts_def)
qed

text \<open>Collecting parts changes nothing else of the object.\<close>

definition same_but_parts :: "config_base \<Rightarrow> config_base \<Rightarrow> bool" where
  "same_but_parts b b' \<longleftrightarrow> cb_config b' = cb_config b \<and> cb_state b' = cb_state b \<and> cb_keys b' = cb_keys b \<and>
     cb_curr_hashes b' = cb_curr_hashes b \<and> cb_old_hashes b' = cb_old_hashes b"

lemma same_but_parts_intros [simp]:
  "same_but_parts b b" "same_but_parts b (set_parts h p b)" "same_but_parts b (set_parts h p (b\<lparr> cb_needs_dump := d \<rparr>))"
  by (simp_all add: same_but_parts_def)

lemma same_but_parts_trans: "same_but_parts a b \<Longrightarrow> same_but_parts b c \<Longrightarrow> same_but_parts a c"
  by (simp add: same_but_parts_def)

lemma handle_known_part:
  assumes part: "parse_part e p = Some (blake2b (e_libs e) msg, int i, int (length chunks), chunks ! i)"
    and "chunks = split_parts MAX_CHUNK_SIZE msg" "i < length chunks" "length ids = length chunks"
    and "seen \<subseteq> {..<length chunks}" "knows e msg ids seen b" "unpack_recombined e msg = Some body"
  shows "\<exists>b'. handle_multipart e now (ids ! i) p b =
       (b', True, if insert i seen = {..<length chunks} \<and> seen \<noteq> {..<length chunks} then Some (ids, body) else None) \<and>
     knows e msg ids (insert i seen) b' \<and> same_but_parts b b'"
proof -
  define h p0 where "h = blake2b (e_libs e) msg" and "p0 = the_parts h b"
  define p1 where "p1 = (if ps_parts p0 = [] then p0\<lparr> ps_size := int (length chunks) \<rparr> else p0)"
  note defs = knows_def Let_def assms(2) [symmetric] h_def [symmetric] p0_def [symmetric]
  note handle = handle_multipart_def part option.case prod.case Let_def h_def [symmetric] p0_def [symmetric] p1_def [symmetric]
    entry_def [of ids chunks i, symmetric]
  show ?thesis
  proof (cases "seen = {..<length chunks}")
    case True
    then have "ps_done p0" "insert i seen = seen" using assms(3,6) by (auto simp: defs)
    then show ?thesis using True unfolding handle by (simp add: defs)
  next
    case False
    then have p0: "\<not> ps_done p0" "ps_parts p0 = collected ids chunks seen" "seen \<noteq> {} \<Longrightarrow> ps_size p0 = int (length chunks)"
      using assms(6) by (auto simp: defs)
    have size: "\<not> (ps_parts p0 \<noteq> [] \<and> int (length chunks) \<noteq> ps_size p0)"
      by (cases "seen = {}") (simp_all add: p0(2,3) collected_empty_iff)
    then have p1: "\<not> ps_done p1" "ps_parts p1 = collected ids chunks seen" "ps_size p1 = int (length chunks)"
      using p0 by (auto simp: p1_def)
    note step = insert_collected [OF assms(3), of ids seen]
    show ?thesis
    proof (cases "i \<in> seen")
      case True
      then have "insert i seen = seen" by blast
      then show ?thesis using True False p0(1) p1 size step unfolding handle by (simp add: defs)
    next
      case new: False
      then have seen: "insert i seen \<subseteq> {..<length chunks}" "insert i seen \<noteq> {}" using assms(3,5) by auto
      have pos: "0 < MAX_CHUNK_SIZE"
        by (simp add: MAX_CHUNK_SIZE_def MAX_MESSAGE_SIZE_def ENCODE_OVERHEAD_def ENCRYPT_DATA_OVERHEAD_def)
      show ?thesis
      proof (cases "insert i seen = {..<length chunks}")
        case True
        then have "map pm_data (collected ids chunks (insert i seen)) = chunks" "map pm_id (collected ids chunks (insert i seen)) = ids"
          using collected_all [OF _ assms(4)] by simp_all
        then show ?thesis
          using True False new p0(1) p1 size step assms(7) collected_length [OF seen(1), of ids] split_parts_concat [OF pos, of msg]
          unfolding handle by (simp add: defs finish_def)
      next
        case False
        then show ?thesis
          using \<open>seen \<noteq> _\<close> new p0(1) p1 size step seen(2) collected_length [OF seen(1), of ids]
          unfolding handle by (simp add: defs)
      qed
    qed
  qed
qed

text \<open>The parts of a message as \<open>make_parts\<close> gives them.\<close>

definition parts_of :: "env \<Rightarrow> bytes \<Rightarrow> bytes list \<Rightarrow> bool" where
  "parts_of e msg parts \<longleftrightarrow>
     (let chunks = split_parts MAX_CHUNK_SIZE msg in
      length parts = length chunks \<and> 1 < length chunks \<and>
      (\<forall>i < length chunks. hd (parts ! i) = CHR ''m'' \<and> parts ! i \<noteq> [] \<and>
         parse_part e (parts ! i) = Some (blake2b (e_libs e) msg, int i, int (length chunks), chunks ! i)))"

lemma strip_padding_m: "hd p = CHR ''m'' \<Longrightarrow> p \<noteq> [] \<Longrightarrow> strip_padding p = p"
  by (cases p) (simp_all add: strip_padding_def)

lemma process_part:
  assumes "parts_of e msg parts" "i < length parts" "length ids = length parts" "seen \<subseteq> {..<length parts}"
    and "knows e msg ids seen b" "unpack_recombined e msg = Some body"
  shows "\<exists>b'. process_plain e now (ids ! i, parts ! i) (b, good, confs) = (b', set_insert (ids ! i) good,
       confs @ (if insert i seen = {..<length parts} \<and> seen \<noteq> {..<length parts} then [(ids, body)] else [])) \<and>
     knows e msg ids (insert i seen) b' \<and> same_but_parts b b'"
proof -
  let ?chunks = "split_parts MAX_CHUNK_SIZE msg"
  have part: "parse_part e (parts ! i) = Some (blake2b (e_libs e) msg, int i, int (length ?chunks), ?chunks ! i)"
    "hd (parts ! i) = CHR ''m''" "parts ! i \<noteq> []" "length parts = length ?chunks"
    using assms(1,2) by (auto simp: parts_of_def Let_def)
  from handle_known_part [OF part(1) refl _ _ _ assms(5,6), of now] assms(2-4) part(4)
  obtain b' where b': "handle_multipart e now (ids ! i) (parts ! i) b = (b', True,
        if insert i seen = {..<length ?chunks} \<and> seen \<noteq> {..<length ?chunks} then Some (ids, body) else None)"
      "knows e msg ids (insert i seen) b'" "same_but_parts b b'" by auto
  show ?thesis
    using b' part by (intro exI [of _ b']) (simp add: process_plain_def strip_padding_m)
qed

text \<open>
  The parts with the indices \<open>is\<close>, in this order and as often as they come: all are accepted, and the message is there
  as soon as no part is missing.
\<close>

lemma process_parts:
  assumes "parts_of e msg parts" "length ids = length parts" "unpack_recombined e msg = Some body"
  shows "set is \<subseteq> {..<length parts} \<Longrightarrow> seen \<subseteq> {..<length parts} \<Longrightarrow> knows e msg ids seen b \<Longrightarrow>
    \<exists>b'. fold (process_plain e now) (map (\<lambda>i. (ids ! i, parts ! i)) is) (b, good, confs) =
       (b', set_insert_all (map ((!) ids) is) good,
        confs @ (if seen \<union> set is = {..<length parts} \<and> seen \<noteq> {..<length parts} then [(ids, body)] else [])) \<and>
     knows e msg ids (seen \<union> set is) b' \<and> same_but_parts b b'"
proof (induction "is" arbitrary: seen b good confs)
  case Nil
  then show ?case by (intro exI [of _ b]) (auto simp: set_insert_all_def)
next
  case (Cons i "is")
  let ?all = "{..<length parts}"
  from Cons.prems process_part [OF assms(1) _ assms(2) _ _ assms(3), of i seen b now good confs]
  obtain b1 where b1: "process_plain e now (ids ! i, parts ! i) (b, good, confs) = (b1, set_insert (ids ! i) good,
       confs @ (if insert i seen = ?all \<and> seen \<noteq> ?all then [(ids, body)] else []))"
     "knows e msg ids (insert i seen) b1" "same_but_parts b b1" by auto
  from Cons.prems Cons.IH [OF _ _ b1(2), of "set_insert (ids ! i) good"
      "confs @ (if insert i seen = ?all \<and> seen \<noteq> ?all then [(ids, body)] else [])"]
  obtain b2 where b2: "fold (process_plain e now) (map (\<lambda>i. (ids ! i, parts ! i)) is)
       (b1, set_insert (ids ! i) good, confs @ (if insert i seen = ?all \<and> seen \<noteq> ?all then [(ids, body)] else [])) =
     (b2, set_insert_all (map ((!) ids) is) (set_insert (ids ! i) good),
      (confs @ (if insert i seen = ?all \<and> seen \<noteq> ?all then [(ids, body)] else [])) @
        (if insert i seen \<union> set is = ?all \<and> insert i seen \<noteq> ?all then [(ids, body)] else []))"
     "knows e msg ids (insert i seen \<union> set is) b2" "same_but_parts b1 b2" by auto
  have "insert i seen \<union> set is = ?all" "insert i seen \<noteq> ?all \<or> seen \<noteq> ?all \<or> seen = ?all"
    if "insert i seen = ?all" using that Cons.prems by auto
  moreover have "insert i seen = ?all" if "seen = ?all" using that Cons.prems by auto
  moreover have "seen \<union> set (i # is) = insert i seen \<union> set is" by auto
  ultimately show ?case
    using b1(1) b2 same_but_parts_trans [OF b1(3) b2(3)]
    by (intro exI [of _ b2]) (auto simp: set_insert_all_def)
qed

end
