(* ===== verification/Config_Transfer.thy ===== *)
theory Config_Transfer
  imports Multipart "HOL-Library.Multiset"
begin

text \<open>
  Two config objects: what one pushes, the other merges. The receiver may be a new object or one with
  a history; the libraries are only assumed to invert themselves (\<open>codec_ok\<close>, \<open>crypto_ok\<close>, \<open>zstd_ok\<close>).
\<close>

section \<open>Compression and padding on the way\<close>

text \<open>What the code relies on of zstd: the prefix is kept in front, and the rest decompresses.\<close>

definition zstd_ok :: "env \<Rightarrow> bool" where
  "zstd_ok e \<longleftrightarrow> (\<forall>m l p. \<exists>c. e_zstd_compress e m l p = p @ c \<and> e_zstd_decompress e c = Some m)"

definition packed :: "env \<Rightarrow> bytes \<Rightarrow> bytes" where
  "packed e msg = (case e_compression_level e of None \<Rightarrow> msg | Some l \<Rightarrow> compress_message e msg l)"

lemma packed_cases:
  assumes "zstd_ok e"
  obtains "packed e msg = msg"
  | c where "packed e msg = CHR ''z'' # c" "e_zstd_decompress e c = Some msg"
proof (cases "packed e msg = msg")
  case False
  then obtain l where "e_compression_level e = Some l" "packed e msg = e_zstd_compress e msg l ''z''"
    by (auto simp: packed_def compress_message_def Let_def split: option.splits if_splits)
  moreover obtain c where "e_zstd_compress e msg l ''z'' = ''z'' @ c" "e_zstd_decompress e c = Some msg"
    using assms unfolding zstd_ok_def by blast
  ultimately show thesis using that(2) by simp
qed (rule that(1))

lemma process_packed:
  assumes "zstd_ok e" "msg = CHR ''d'' # rest" "length (packed e msg) + 40 + 5120 < 2 ^ 64"
  shows "process_plain e now (h, pad_message (packed e msg)) (b, good, confs) =
     (b, set_insert h good, confs @ [([h], msg)])"
proof -
  obtain n where pad: "pad_message (packed e msg) = replicate n (CHR 0x00) @ packed e msg"
    using pad_shape [OF assms(3)] by blast
  from assms(1) show ?thesis
  proof (cases rule: packed_cases [of e msg])
    case 1
    then show ?thesis using assms(2) pad strip_padded [of msg n] by (simp add: process_plain_def)
  next
    case (2 c)
    then show ?thesis using assms(2) pad strip_padded [of "CHR ''z'' # c" n] by (simp add: process_plain_def)
  qed
qed

lemma unpack_packed:
  assumes "zstd_ok e" "msg = CHR ''d'' # rest" "length (packed e msg) + 40 + 5120 < 2 ^ 64"
  shows "unpack_recombined e (pad_message (packed e msg)) = Some msg"
proof -
  obtain n where pad: "pad_message (packed e msg) = replicate n (CHR 0x00) @ packed e msg"
    using pad_shape [OF assms(3)] by blast
  from assms(1) show ?thesis
  proof (cases rule: packed_cases [of e msg])
    case 1
    then show ?thesis using assms(2) pad strip_padded [of msg n] by (simp add: unpack_recombined_def)
  next
    case (2 c)
    then show ?thesis using assms(2) pad strip_padded [of "CHR ''z'' # c" n] by (simp add: unpack_recombined_def)
  qed
qed

lemma packed_fits:
  assumes "length p + 40 + 5120 \<le> n" "n < 2 ^ 64"
  shows "length (pad_message p) + 40 \<le> n"
proof -
  have "length (pad_message p) + 40 = round_up (length p + 40)"
    using pad_shape [of p] assms by auto
  moreover have "chunk_of (length p + 40) \<le> 5120" by (simp add: chunk_of_def)
  ultimately show ?thesis using round_up_bounds [of "length p + 40"] assms by simp
qed

section \<open>Pushing\<close>

lemma push_packed:
  assumes "serialize (e_libs e) (cb_config b) True = Inr (msg, m')" "cb_keys b = k # ks" "cb_state b1 = Dirty" "cb_config b1 = m'"
    and "length (pad_message (packed e msg)) \<le> MAX_MULTIPART_SIZE"
    and "push_messages e now (cm_seqno (cb_config b)) k (pad_message (packed e msg)) (b\<lparr> cb_config := m' \<rparr>) = Inr (cts, b1)"
  shows "\<exists>obs b'. push e now b = Inr ((cm_seqno (cb_config b), cts, obs), b') \<and> cb_state b' = Waiting \<and> cb_config b' = m'"
proof -
  have ser: "serialize_config e True b = Inr (msg, b\<lparr> cb_config := m' \<rparr>)" using assms(1) by (simp add: serialize_config_def)
  have packed: "(case e_compression_level e of None \<Rightarrow> msg | Some l \<Rightarrow> compress_message e msg l) = packed e msg"
    by (simp add: packed_def)
  obtain b' where b': "set_state Waiting b1 = Inr b'" "cb_state b' = Waiting" "cb_config b' = m'"
    using assms(4) by (simp add: set_state_def Let_def split: if_splits)
  have "push e now b = Inr ((cm_seqno (cb_config b), cts, if is_readonly b' then [] else cb_old_hashes b'),
      b'\<lparr> cb_old_hashes := [] \<rparr>)"
    using assms(2,3,5,6) ser b'(1) by (simp add: push_def Let_def packed guard_def is_dirty_def)
  then show ?thesis using b' by fastforce
qed

lemma push_single:
  assumes "serialize (e_libs e) (cb_config b) True = Inr (msg, m')" "cb_keys b = k # ks" "length k = 32"
    and "crypto_ok (e_crypto e)" "1 \<le> length (e_domain e)" "length (e_domain e) \<le> 24" "\<not> e_accepts_protobuf e"
    and "length (pad_message (packed e msg)) + 40 \<le> MAX_MESSAGE_SIZE"
    and "cb_state b = Dirty"
  shows "\<exists>ct obs b'. push e now b = Inr ((cm_seqno (cb_config b), [ct], obs), b') \<and>
     decrypt (e_crypto e) ct k (e_domain e) = Inr (pad_message (packed e msg)) \<and> length ct \<le> MAX_MESSAGE_SIZE \<and>
     cb_state b' = Waiting \<and> cb_config b' = m'"
proof -
  let ?p = "pad_message (packed e msg)" and ?b = "b\<lparr> cb_config := m' \<rparr>"
  have len: "length ?p + 40 \<le> 76800" using assms(8) by (simp add: MAX_MESSAGE_SIZE_def)
  then have "length ?p + 40 < 2 ^ 64" by simp
  from decrypt_encrypt [OF assms(4,3,5,6) this]
  obtain ct where ct: "encrypt (e_crypto e) ?p k (e_domain e) = Inr ct" "length ct = length ?p + 40"
    "decrypt (e_crypto e) ct k (e_domain e) = Inr ?p" by blast
  have msgs: "push_messages e now (cm_seqno (cb_config b)) k ?p ?b = Inr ([ct], ?b)"
    using assms(7) ct len
    by (simp add: push_messages_def ENCRYPT_DATA_OVERHEAD_def MAX_MESSAGE_SIZE_def assertion_def guard_def)
  have "length ?p \<le> MAX_MULTIPART_SIZE" using len by (simp add: MAX_MULTIPART_SIZE_def)
  from push_packed [OF assms(1,2) _ _ this msgs] assms(9) ct(2,3) len show ?thesis
    by (auto simp: MAX_MESSAGE_SIZE_def)
qed

lemma push_several:
  assumes "serialize (e_libs e) (cb_config b) True = Inr (msg, m')" "cb_keys b = k # ks" "length k = 32"
    and "crypto_ok (e_crypto e)" "1 \<le> length (e_domain e)" "length (e_domain e) \<le> 24" "part_codec_ok (e_libs e)"
    and "MAX_MESSAGE_SIZE < length (pad_message (packed e msg)) + 40"
    and "length (pad_message (packed e msg)) \<le> MAX_MULTIPART_SIZE" "cb_state b = Dirty"
  shows "\<exists>cts parts obs b'. push e now b = Inr ((cm_seqno (cb_config b), cts, obs), b') \<and>
     parts_of e (pad_message (packed e msg)) parts \<and> length cts = length parts \<and>
     (\<forall>i < length parts. decrypt (e_crypto e) (cts ! i) k (e_domain e) = Inr (parts ! i)) \<and>
     (\<forall>ct \<in> set cts. length ct \<le> MAX_MESSAGE_SIZE) \<and> cb_state b' = Waiting \<and> cb_config b' = m'"
proof -
  let ?p = "pad_message (packed e msg)" and ?b = "b\<lparr> cb_config := m' \<rparr>"
  let ?h = "blake2b (e_libs e) ?p"
  note sizes = MAX_CHUNK_SIZE_def MAX_MESSAGE_SIZE_def ENCODE_OVERHEAD_def ENCRYPT_DATA_OVERHEAD_def
  have long: "MAX_CHUNK_SIZE < length ?p" using assms(8) by (simp add: sizes)
  from make_parts_ok [OF assms(7) this assms(9)]
  obtain parts where parts: "make_parts e ?p = Inr parts" "parts_of e ?p parts" "length parts < 256" "1 < length parts"
      "\<forall>p \<in> set parts. length p \<le> MAX_CHUNK_SIZE + 50"
    by (auto simp: parts_of_def Let_def all_set_conv_all_nth)
  have "\<exists>ct. encrypt (e_crypto e) p k (e_domain e) = Inr ct \<and> length ct = length p + 40 \<and>
      decrypt (e_crypto e) ct k (e_domain e) = Inr p" if "p \<in> set parts" for p
    using decrypt_encrypt [OF assms(4,3,5,6), of p] parts(5) that by (force simp: sizes)
  then obtain f where f: "\<And>p. p \<in> set parts \<Longrightarrow> encrypt (e_crypto e) p k (e_domain e) = Inr (f p) \<and>
      length (f p) = length p + 40 \<and> decrypt (e_crypto e) (f p) k (e_domain e) = Inr p" by metis
  have enc: "res_map (\<lambda>p. encrypt (e_crypto e) p k (e_domain e)) parts = Inr (map f parts)"
    using f by (intro res_map_ok) blast
  have msgs: "push_messages e now (cm_seqno (cb_config b)) k ?p ?b =
      Inr (map f parts, set_parts ?h (finish now MULTIPART_MAX_REMEMBER (the_parts ?h ?b)) ?b)"
    using assms(8) parts(1,3,4) enc
    by (simp add: push_messages_def Let_def ENCRYPT_DATA_OVERHEAD_def assertion_def guard_def)
  have "\<forall>ct \<in> set (map f parts). length ct \<le> MAX_MESSAGE_SIZE" using f parts(5) by (force simp: sizes)
  moreover have "\<forall>i < length parts. decrypt (e_crypto e) (map f parts ! i) k (e_domain e) = Inr (parts ! i)" using f by simp
  moreover obtain obs b' where "push e now b = Inr ((cm_seqno (cb_config b), map f parts, obs), b')" "cb_state b' = Waiting"
      "cb_config b' = m'"
    using push_packed [OF assms(1,2) _ _ assms(9) msgs] assms(10) by auto
  ultimately show ?thesis
    using parts(2) by (intro exI [of _ "map f parts"] exI [of _ parts] exI [of _ obs] exI [of _ b']) simp
qed

section \<open>Merging one message\<close>

lemma merge_single:
  assumes "load_message x msg vf sg lag False = Inr r" "in_i64 (cm_seqno r)" "in_i64 (cm_seqno r + lag)" "0 < lag"
  shows "merge_configs x vf sg lag handler [msg] = Inr (r\<lparr> cm_unmerged := Some 0 \<rparr>, [])"
proof -
  have "redundant_flags [r] lag = Inr [False]"
    using assms(2-4) by (simp add: redundant_flags_def makes_redundant_def max_seqno_def in_i64_def i64_arith_def)
  then show ?thesis using assms(1) by (simp add: merge_configs_def merge_messages_def)
qed

lemma decrypt_any_found:
  assumes "k \<in> set ks" "decrypt (e_crypto e) ct k (e_domain e) = Inr plain"
    and "\<forall>k' \<in> set ks. decrypt (e_crypto e) ct k' (e_domain e) \<in> {Inr plain, Inl Decrypt_error}"
  shows "decrypt_any e ks ct = Inr (Some plain)"
  using assms by (induction ks) (auto split: sum.splits exn.splits)

text \<open>A new object that has collected one message it can read adopts it as its clean config.\<close>

lemma adopt_collected:
  assumes "cm_seqno (cb_config b) = 0" "cb_state b = Clean"
    and "load_message (e_libs e) msg (cm_verifier (cb_config b)) (cm_signer (cb_config b)) (e_lags e) False = Inr r"
    and "in_i64 (cm_seqno r)" "in_i64 (cm_seqno r + e_lags e)" "0 < e_lags e" "cm_seqno r \<noteq> 0"
  shows "\<exists>b'. merge_collected e now 0 [] False (b, good, [(hs, msg)]) = Inr (good, b') \<and> cb_state b' = Clean \<and>
     cb_curr_hashes b' = set_insert_all hs [] \<and> cb_config b' = r\<lparr> cm_unmerged := Some 0 \<rparr>"
proof -
  let ?r = "r\<lparr> cm_unmerged := Some 0 \<rparr>" and ?b = "expire_multiparts now b"
  have conf: "make_config_message e False (cb_config b) [msg] = Inr (?r, [])"
    using merge_single [OF assms(3-6)] by (simp add: make_config_message_def)
  have b: "cb_state ?b = Clean" "cb_config ?b = cb_config b" using assms(2) by (simp_all add: expire_multiparts_def)
  have obs: "obsolete_hashes [(hs, msg)] (Some 0) [] (cb_old_hashes ?b) = cb_old_hashes ?b"
    by (simp add: obsolete_hashes_def)
  have same: "?b\<lparr> cb_old_hashes := cb_old_hashes b \<rparr> = ?b" "cb_old_hashes ?b = cb_old_hashes b"
    by (simp_all add: expire_multiparts_def)
  obtain b' where b': "set_state Clean (?b\<lparr> cb_config := ?r \<rparr>) = Inr b'" "cb_state b' = Clean" "cb_config b' = ?r"
    by (simp add: set_state_def Let_def)
  have adopt: "adopt e 0 False False [(hs, msg)] ?r ?b = Inr (b'\<lparr> cb_curr_hashes := set_insert_all hs [] \<rparr>)"
    using b b'(1) assms(7) by (simp add: adopt_def Let_def merged_def assertion_def guard_def)
  have "merge_collected e now 0 [] False (b, good, [(hs, msg)]) = Inr (good, b'\<lparr> cb_curr_hashes := set_insert_all hs [] \<rparr>)"
    using conf b obs adopt by (simp add: merge_collected_def Let_def same)
  then show ?thesis using b' by auto
qed

lemma merge_into_fresh:
  assumes "cm_seqno (cb_config b) = 0" "cb_state b = Clean" "cb_keys b \<noteq> []" "\<not> e_accepts_protobuf e"
    and "decrypt_all e (cb_keys b) configs = Inr plains"
  shows "merge_base e now configs b = merge_collected e now 0 [] False (fold (process_plain e now) plains (b, [], []))"
  using assms by (simp add: merge_base_def unwrap_incoming_def merge_impl_def Let_def is_dirty_def)

lemma load_message_d: "load_message x msg vf sg lag trust = Inr r \<Longrightarrow> \<exists>rest. msg = CHR ''d'' # rest"
  by (cases msg) (auto simp: load_message_def split: if_splits)

section \<open>Parts on their way\<close>

text \<open>Configs that are among the pushed messages, by their indices.\<close>

abbreviation picked :: "string list \<Rightarrow> bytes list \<Rightarrow> nat list \<Rightarrow> (string \<times> bytes) list" where
  "picked hs cts is \<equiv> map (\<lambda>i. (hs ! i, cts ! i)) is"

lemma picked_indices:
  "set configs \<subseteq> set (zip hs cts) \<Longrightarrow> length hs = length cts \<Longrightarrow>
   \<exists>is. configs = picked hs cts is \<and> set is \<subseteq> {..<length cts}"
proof (induction configs)
  case (Cons c configs)
  then obtain "is" i where "configs = picked hs cts is" "set is \<subseteq> {..<length cts}" "i < length cts" "c = (hs ! i, cts ! i)"
    by (auto simp: set_zip)
  then show ?case by (intro exI [of _ "i # is"]) simp
qed (auto intro: exI [of _ "[]"])

lemma decrypt_picked:
  assumes "\<forall>i < length parts. decrypt (e_crypto e) (cts ! i) k (e_domain e) = Inr (parts ! i)" "set is \<subseteq> {..<length parts}"
  shows "decrypt_all e [k] (picked hs cts is) = Inr (picked hs parts is)"
  using assms(2)
proof (induction "is")
  case (Cons i "is")
  then have "decrypt_any e [k] (cts ! i) = Inr (Some (parts ! i))" using assms(1) by (intro decrypt_any_found) auto
  with Cons show ?case by simp
qed simp

text \<open>The parts are all different: each has its own index.\<close>

lemma picked_complete:
  assumes "parts_of e p parts" "\<forall>i < length parts. decrypt (e_crypto e) (cts ! i) k (e_domain e) = Inr (parts ! i)"
    and "length cts = length parts" "length hs = length parts" "set is \<subseteq> {..<length parts}"
  shows "set (picked hs cts is) = set (zip hs cts) \<longleftrightarrow> set is = {..<length parts}"
proof
  assume eq: "set (picked hs cts is) = set (zip hs cts)"
  have "i \<in> set is" if i: "i < length parts" for i
  proof -
    have "(hs ! i, cts ! i) \<in> set (zip hs cts)" using i assms(3,4) by (auto simp: set_zip)
    then obtain j where j: "j \<in> set is" "cts ! j = cts ! i" unfolding eq [symmetric] by auto
    then have "parts ! j = parts ! i" "j < length parts" using assms(2,5) i by (metis Inr_inject lessThan_iff subsetD, blast)
    moreover have "parse_part e (parts ! l) = Some (blake2b (e_libs e) p, int l, int (length parts), split_parts MAX_CHUNK_SIZE p ! l)"
      if "l < length parts" for l using assms(1) that by (simp add: parts_of_def Let_def)
    ultimately show ?thesis using i j(1) by (metis Pair_inject of_nat_eq_iff option.inject)
  qed
  with assms(5) show "set is = {..<length parts}" by auto
next
  assume "set is = {..<length parts}"
  then show "set (picked hs cts is) = set (zip hs cts)" using assms(3,4) by (auto simp: set_zip)
qed

text \<open>
  What a new object makes of the messages \<open>cts\<close> of a config \<open>r\<close>: all of them, in any order, are adopted as its clean
  config; while some are missing, the others are accepted and the config stays as it is.
\<close>

definition delivers :: "env \<Rightarrow> int \<Rightarrow> config_message \<Rightarrow> bytes list \<Rightarrow> config_base \<Rightarrow> bool" where
  "delivers e now r cts c \<longleftrightarrow> (\<forall>hs configs. length hs = length cts \<longrightarrow>
     (mset configs = mset (zip hs cts) \<longrightarrow>
        (\<exists>good c'. merge_base e now configs c = Inr (good, c') \<and> set good = set hs \<and> cb_state c' = Clean \<and>
           set (cb_curr_hashes c') = set hs \<and> cm_data (cb_config c') = cm_data r \<and> cm_seqno (cb_config c') = cm_seqno r)) \<and>
     (set configs \<subset> set (zip hs cts) \<longrightarrow>
        (\<exists>good c'. merge_base e now configs c = Inr (good, c') \<and> set good = fst ` set configs \<and> cb_state c' = Clean \<and>
           cb_config c' = cb_config c)))"

definition fresh_receiver :: "bytes \<Rightarrow> config_base \<Rightarrow> bool" where
  "fresh_receiver k c \<longleftrightarrow> cb_state c = Clean \<and> cm_seqno (cb_config c) = 0 \<and> cb_keys c = [k] \<and> cb_multiparts c = []"

lemma nothing_collected: "merge_collected e now 0 [] False (b, good, []) = Inr (good, expire_multiparts now b)"
  by (simp add: merge_collected_def)

lemma single_delivers:
  assumes "fresh_receiver k c" "\<not> e_accepts_protobuf e" "zstd_ok e" "msg = CHR ''d'' # rest"
    and "length (packed e msg) + 40 + 5120 < 2 ^ 64"
    and "decrypt (e_crypto e) ct k (e_domain e) = Inr (pad_message (packed e msg))"
    and "load_message (e_libs e) msg (cm_verifier (cb_config c)) (cm_signer (cb_config c)) (e_lags e) False = Inr r"
    and "in_i64 (cm_seqno r)" "in_i64 (cm_seqno r + e_lags e)" "0 < e_lags e" "cm_seqno r \<noteq> 0"
  shows "delivers e now r [ct] c"
proof -
  have c: "cb_state c = Clean" "cm_seqno (cb_config c) = 0" "cb_keys c = [k]" using assms(1) by (simp_all add: fresh_receiver_def)
  have "\<exists>c'. merge_base e now [(h, ct)] c = Inr ([h], c') \<and> cb_state c' = Clean \<and> cb_curr_hashes c' = set_insert_all [h] [] \<and>
      cb_config c' = r\<lparr> cm_unmerged := Some 0 \<rparr>" for h
  proof -
    have "decrypt_all e [k] [(h, ct)] = Inr [(h, pad_message (packed e msg))]"
      using assms(6) by (simp add: decrypt_any_found)
    then have "merge_base e now [(h, ct)] c = merge_collected e now 0 [] False (c, [h], [([h], msg)])"
      using merge_into_fresh [OF c(2,1) _ assms(2), of "[(h, ct)]"] c(3) process_packed [OF assms(3-5)] by simp
    with adopt_collected [OF c(2,1) assms(7-11)] show ?thesis by simp
  qed
  moreover have "merge_base e now [] c = Inr ([], expire_multiparts now c)"
    using merge_into_fresh [OF c(2,1) _ assms(2), of "[]" "[]" now] c(3) by (simp add: nothing_collected)
  moreover have "cb_config (expire_multiparts now c) = cb_config c" "cb_state (expire_multiparts now c) = Clean"
    using c(1) by (simp_all add: expire_multiparts_def)
  ultimately show ?thesis
    unfolding delivers_def by (fastforce simp: length_Suc_conv psubset_eq subset_singleton_iff)
qed

lemma several_deliver:
  assumes "fresh_receiver k c" "\<not> e_accepts_protobuf e" "parts_of e p parts" "unpack_recombined e p = Some msg"
    and dec: "\<forall>i < length parts. decrypt (e_crypto e) (cts ! i) k (e_domain e) = Inr (parts ! i)" "length cts = length parts"
    and load: "load_message (e_libs e) msg (cm_verifier (cb_config c)) (cm_signer (cb_config c)) (e_lags e) False = Inr r"
      "in_i64 (cm_seqno r)" "in_i64 (cm_seqno r + e_lags e)" "0 < e_lags e" "cm_seqno r \<noteq> 0"
  shows "delivers e now r cts c"
  unfolding delivers_def
proof (intro allI impI)
  fix hs :: "string list" and configs :: "(string \<times> bytes) list"
  assume hs: "length hs = length cts"
  let ?all = "{..<length parts}"
  have c: "cb_state c = Clean" "cm_seqno (cb_config c) = 0" "cb_keys c = [k]" using assms(1) by (simp_all add: fresh_receiver_def)
  have "?all \<noteq> {}" using assms(3) by (auto simp: parts_of_def Let_def)
  moreover have "knows e p hs {} c" using assms(1,3)
    by (auto simp: knows_def Let_def fresh_receiver_def the_parts_def empty_partial_def collected_def parts_of_def lessThan_empty_iff)
  ultimately have merge: "\<exists>c1. merge_base e now configs c = merge_collected e now 0 [] False (c1, set_insert_all (map ((!) hs) is) [],
        if set is = ?all then [(hs, msg)] else []) \<and> same_but_parts c c1"
    if "configs = picked hs cts is" "set is \<subseteq> ?all" for "is"
    using that merge_into_fresh [OF c(2,1) _ assms(2), of "picked hs cts is" "picked hs parts is" now]
      decrypt_picked [OF dec(1) that(2), of hs] c(3) process_parts [OF assms(3) _ assms(4), of hs "is" "{}" c now "[]" "[]"] hs dec(2)
    by fastforce
  show "(mset configs = mset (zip hs cts) \<longrightarrow>
        (\<exists>good c'. merge_base e now configs c = Inr (good, c') \<and> set good = set hs \<and> cb_state c' = Clean \<and>
           set (cb_curr_hashes c') = set hs \<and> cm_data (cb_config c') = cm_data r \<and> cm_seqno (cb_config c') = cm_seqno r)) \<and>
     (set configs \<subset> set (zip hs cts) \<longrightarrow>
        (\<exists>good c'. merge_base e now configs c = Inr (good, c') \<and> set good = fst ` set configs \<and> cb_state c' = Clean \<and>
           cb_config c' = cb_config c))"
  proof (intro conjI impI)
    assume "mset configs = mset (zip hs cts)"
    then have eq: "set configs = set (zip hs cts)" by (metis set_mset_mset)
    then obtain "is" where "is": "configs = picked hs cts is" "set is \<subseteq> ?all" using picked_indices [of configs hs cts] hs dec(2) by auto
    then have all: "set is = ?all" using picked_complete [OF assms(3) dec, of hs "is"] eq hs dec(2) by simp
    obtain c1 where c1: "merge_base e now configs c = merge_collected e now 0 [] False (c1, set_insert_all (map ((!) hs) is) [], [(hs, msg)])"
        "same_but_parts c c1" using merge [OF "is"] all by auto
    have "(!) hs ` ?all = set hs" using hs dec(2) by (auto simp: set_conv_nth)
    then have good: "set (set_insert_all (map ((!) hs) is) []) = set hs" using all by simp
    from c1(2) c load(1) adopt_collected [of c1 e msg r now "set_insert_all (map ((!) hs) is) []" hs] load(2-5)
    obtain c' where "merge_collected e now 0 [] False (c1, set_insert_all (map ((!) hs) is) [], [(hs, msg)]) =
        Inr (set_insert_all (map ((!) hs) is) [], c')" "cb_state c' = Clean" "cb_curr_hashes c' = set_insert_all hs []"
        "cb_config c' = r\<lparr> cm_unmerged := Some 0 \<rparr>" by (auto simp: same_but_parts_def)
    then show "\<exists>good c'. merge_base e now configs c = Inr (good, c') \<and> set good = set hs \<and> cb_state c' = Clean \<and>
           set (cb_curr_hashes c') = set hs \<and> cm_data (cb_config c') = cm_data r \<and> cm_seqno (cb_config c') = cm_seqno r"
      using c1(1) good by auto
  next
    assume less: "set configs \<subset> set (zip hs cts)"
    then obtain "is" where "is": "configs = picked hs cts is" "set is \<subseteq> ?all" using picked_indices [of configs hs cts] hs dec(2) by auto
    then have "set is \<noteq> ?all" using picked_complete [OF assms(3) dec, of hs "is"] less hs dec(2) by auto
    then obtain c1 where "merge_base e now configs c = Inr (set_insert_all (map ((!) hs) is) [], expire_multiparts now c1)" "same_but_parts c c1"
      using merge [OF "is"] by (auto simp: nothing_collected)
    then show "\<exists>good c'. merge_base e now configs c = Inr (good, c') \<and> set good = fst ` set configs \<and> cb_state c' = Clean \<and>
           cb_config c' = cb_config c"
      using c(1) "is"(1) by (auto simp: same_but_parts_def expire_multiparts_def image_image)
  qed
qed


end
