(* ===== verification/Util.thy ===== *)
theory Util
  imports Prelude "HOL-Library.Sublist"
begin

text \<open>
  \<open>src/src/util.cpp\<close> and \<open>src/include/session/util.hpp\<close>: splitting, URL parsing, UTF-8 truncation and
  timestamp normalization; \<open>copy_c_str\<close> of \<open>src/include/session/config/base.hpp\<close>.
\<close>

section \<open>Splitting\<close>

fun find_sub :: "string \<Rightarrow> string \<Rightarrow> nat option" where
  "find_sub delim [] = (if delim = [] then Some 0 else None)"
| "find_sub delim (c # s) = (if prefix delim (c # s) then Some 0 else map_option Suc (find_sub delim s))"

lemma find_sub_bound: "find_sub delim s = Some pos \<Longrightarrow> pos + length delim \<le> length s"
  by (induction s arbitrary: pos) (auto split: if_splits dest: prefix_length_le)

lemma find_sub_shrinks:
  "delim \<noteq> [] \<Longrightarrow> find_sub delim s = Some pos \<Longrightarrow> length (drop (pos + length delim) s) < length s"
  using find_sub_bound [of delim s pos] by (cases delim) auto

text \<open>The loop of \<open>split\<close>: the rest of the string and the results so far; then the last piece, and the
  trailing empty pieces removed when trimming.\<close>

function split_loop :: "string \<Rightarrow> bool \<Rightarrow> string \<Rightarrow> string list \<Rightarrow> string list \<times> string" where
  "split_loop delim trim str results =
     (if delim = [] then (results, str)
      else case find_sub delim str of
          None \<Rightarrow> (results, str)
        | Some pos \<Rightarrow>
            split_loop delim trim (drop (pos + length delim) str)
              (if \<not> trim \<or> results \<noteq> [] \<or> pos > 0 then results @ [take pos str] else results))"
  by auto
termination
  by (relation "measure (\<lambda>(d, t, s, r). length s)") (auto dest: find_sub_shrinks simp del: length_drop)

declare split_loop.simps [simp del]

definition split :: "string \<Rightarrow> string \<Rightarrow> bool \<Rightarrow> string list" where
  "split str delim trim =
     (if delim = [] then map (\<lambda>c. [c]) str
      else case split_loop delim trim str [] of
          (results, rest) \<Rightarrow>
            if \<not> trim \<or> rest \<noteq> [] then results @ [rest]
            else rev (dropWhile (\<lambda>s. s = []) (rev results)))"

section \<open>URLs\<close>

definition lower :: "char \<Rightarrow> char" where
  "lower c = (if CHR ''A'' \<le> c \<and> c \<le> CHR ''Z'' then char_of (of_char c + 32 :: nat) else c)"

definition string_iequal :: "string \<Rightarrow> string \<Rightarrow> bool" where
  "string_iequal s t \<longleftrightarrow> map lower s = map lower t"

definition is_dec :: "char \<Rightarrow> bool" where "is_dec c \<longleftrightarrow> CHR ''0'' \<le> c \<and> c \<le> CHR ''9''"

definition host_char :: "char \<Rightarrow> bool" where
  "host_char c \<longleftrightarrow> is_dec c \<or> (CHR ''a'' \<le> c \<and> c \<le> CHR ''z'') \<or> c = CHR ''-''"

fun parse_host :: "string \<Rightarrow> string \<Rightarrow> bool \<Rightarrow> bool \<Rightarrow> string \<times> bool \<times> string" where
  "parse_host [] host has_dot next_allow_dot = (host, has_dot, [])"
| "parse_host (c # url) host has_dot next_allow_dot =
     (if host_char c then parse_host url (host @ [c]) has_dot True
      else if CHR ''A'' \<le> c \<and> c \<le> CHR ''Z'' then parse_host url (host @ [lower c]) has_dot True
      else if next_allow_dot \<and> c = CHR ''.'' then parse_host url (host @ [c]) True False
      else (host, has_dot, c # url))"

text \<open>\<open>std::from_chars\<close> into a \<open>uint16_t\<close>: all leading digits; an error when there are none or the value
  does not fit.\<close>

fun read_digits :: "nat \<Rightarrow> string \<Rightarrow> nat \<times> string" where
  "read_digits acc [] = (acc, [])"
| "read_digits acc (c # s) =
     (if is_dec c then read_digits (acc * 10 + (of_char c - 48)) s else (acc, c # s))"

definition from_chars_u16 :: "string \<Rightarrow> (nat \<times> string) option" where
  "from_chars_u16 s =
     (if s = [] \<or> \<not> is_dec (hd s) then None
      else case read_digits 0 s of (n, rest) \<Rightarrow> if n < 65536 then Some (n, rest) else None)"

definition parse_proto :: "string \<Rightarrow> (string \<times> string) res" where
  "parse_proto url =
     (case find_sub ''://'' url of
        None \<Rightarrow> Inl Invalid_argument
      | Some pos \<Rightarrow>
          let name = take pos url; rest = drop (pos + 3) url in
          if string_iequal name ''http'' then Inr (''http://'', rest)
          else if string_iequal name ''https'' then Inr (''https://'', rest)
          else Inl Invalid_argument)"

definition parse_url :: "string \<Rightarrow> (string \<times> string \<times> nat option \<times> string option) res" where
  "parse_url url =
     res_bind (parse_proto url) (\<lambda>(proto, url).
       case parse_host url [] False False of
         (host, has_dot, url) \<Rightarrow>
           if length host < 4 \<or> \<not> has_dot \<or> last host = CHR ''.'' then Inl Invalid_argument
           else
             res_bind
               (if url \<noteq> [] \<and> hd url = CHR '':'' then
                  (case from_chars_u16 (tl url) of
                     None \<Rightarrow> Inl Invalid_argument
                   | Some (p, rest) \<Rightarrow>
                       Inr (if \<not> (p = 80 \<and> proto = ''http://'') \<and> \<not> (p = 443 \<and> proto = ''https://'')
                            then Some p else None, rest))
                else Inr (None, url))
               (\<lambda>(port, url).
                  Inr (proto, host, port,
                       if length url > 1 \<and> hd url = CHR ''/'' then Some url else None)))"

section \<open>Text and time\<close>

text \<open>\<open>(val[n] & 0xc0) == 0x80\<close>\<close>

definition is_cont :: "char \<Rightarrow> bool" where
  "is_cont c \<longleftrightarrow> (of_char c :: nat) div 64 = 2"

fun back_up :: "string \<Rightarrow> nat \<Rightarrow> nat" where
  "back_up val 0 = 0"
| "back_up val (Suc n) = (if is_cont (val ! Suc n) then back_up val n else Suc n)"

definition utf8_truncate :: "string \<Rightarrow> nat \<Rightarrow> string" where
  "utf8_truncate val n = (if length val \<le> n then val else take (back_up val n) val)"

definition to_epoch_seconds :: "int \<Rightarrow> int" where
  "to_epoch_seconds timestamp =
     (if timestamp > 9000000000000 then timestamp div 1000000
      else if timestamp > 9000000000 then timestamp div 1000
      else timestamp)"

text \<open>
  \<open>copy_c_str\<close> into a buffer of \<open>n\<close> bytes: the bytes written (the string and its terminator), or
  undefined behaviour when they do not fit. \<open>remove_suffix\<close> is given \<open>size - n - 1\<close>, a \<open>size_t\<close> that
  wraps around when \<open>size = n\<close>; removing more than the size is undefined as well.
\<close>

definition copy_c_str :: "nat \<Rightarrow> string \<Rightarrow> string res" where
  "copy_c_str n src =
     (let removed = (if length src \<ge> n then int (length src) - int n - 1 else 0) in
      if removed < 0 then Inl Undefined_behaviour
      else
        let src' = take (length src - nat removed) src in
        if length src' + 1 > n then Inl Undefined_behaviour else Inr (src' @ [CHR 0x00]))"

section \<open>Lemmas\<close>

lemma find_sub_prefix: "find_sub delim s = Some pos \<Longrightarrow> prefix delim (drop pos s)"
  by (induction s arbitrary: pos) (auto split: if_splits)

fun join :: "string \<Rightarrow> string list \<Rightarrow> string" where
  "join delim [] = []"
| "join delim [x] = x"
| "join delim (x # y # zs) = x @ delim @ join delim (y # zs)"

lemma join_snoc: "xs \<noteq> [] \<Longrightarrow> join delim (xs @ [y]) = join delim xs @ delim @ y"
proof (induction delim xs rule: join.induct)
  case (3 delim x y zs)
  then show ?case by (cases zs) auto
qed auto

lemma join_append2: "xs \<noteq> [] \<Longrightarrow> join delim (xs @ [y, z]) = join delim (xs @ [y @ delim @ z])"
  using join_snoc [of "xs @ [y]" delim z] by (simp add: join_snoc)

lemma find_sub_split: "find_sub delim s = Some pos \<Longrightarrow> s = take pos s @ delim @ drop (pos + length delim) s"
proof -
  assume a: "find_sub delim s = Some pos"
  obtain t where "drop pos s = delim @ t" using find_sub_prefix [OF a] by (auto elim: prefixE)
  moreover from this have "drop (pos + length delim) s = t"
    by (metis add.commute append_eq_conv_conj drop_drop)
  ultimately show ?thesis by (metis append_take_drop_id)
qed

lemma split_loop_join:
  "delim \<noteq> [] \<Longrightarrow> split_loop delim False str results = (rs, rest) \<Longrightarrow>
   join delim (rs @ [rest]) = join delim (results @ [str])"
proof (induction "length str" arbitrary: str results rule: less_induct)
  case less
  show ?case
  proof (cases "find_sub delim str")
    case None
    with less.prems show ?thesis by (simp add: split_loop.simps)
  next
    case (Some pos)
    have "length (drop (pos + length delim) str) < length str"
      using find_sub_shrinks [OF less.prems(1) Some] .
    moreover have "split_loop delim False (drop (pos + length delim) str) (results @ [take pos str]) = (rs, rest)"
      using less.prems Some by (subst (asm) split_loop.simps) simp
    ultimately have "join delim (rs @ [rest]) = join delim (results @ [take pos str, drop (pos + length delim) str])"
      using less.hyps less.prems(1) by fastforce
    also have "\<dots> = join delim (results @ [str])"
      using find_sub_split [OF Some] join_append2 [of results delim] by (cases "results = []") auto
    finally show ?thesis .
  qed
qed

lemma split_loop_rest:
  "delim \<noteq> [] \<Longrightarrow> split_loop delim trim str results = (rs, rest) \<Longrightarrow> find_sub delim rest = None"
proof (induction "length str" arbitrary: str results rule: less_induct)
  case less
  show ?case
  proof (cases "find_sub delim str")
    case None
    with less.prems show ?thesis by (simp add: split_loop.simps)
  next
    case (Some pos)
    have "length (drop (pos + length delim) str) < length str"
      using find_sub_shrinks [OF less.prems(1) Some] .
    moreover obtain results' where "split_loop delim trim (drop (pos + length delim) str) results' = (rs, rest)"
      using less.prems Some by (subst (asm) split_loop.simps) auto
    ultimately show ?thesis using less.hyps less.prems(1) by blast
  qed
qed

section \<open>Properties\<close>

text \<open>
  Splitting without trimming loses nothing: joining the pieces with the delimiter gives the string
  back, and the delimiter does not occur in the last piece.
\<close>

theorem split_join:
  assumes "delim \<noteq> []"
  shows "join delim (split str delim False) = str \<and> find_sub delim (last (split str delim False)) = None"
proof -
  obtain rs rest where s: "split_loop delim False str [] = (rs, rest)" by fastforce
  then have "split str delim False = rs @ [rest]" using assms by (simp add: split_def)
  with split_loop_join [OF assms s] split_loop_rest [OF assms s] show ?thesis by simp
qed

text \<open>A UTF-8 text as its sequence of encoded code points: a byte that is not a continuation byte,
  then continuation bytes.\<close>

definition code_point :: "string \<Rightarrow> bool" where
  "code_point u \<longleftrightarrow> u \<noteq> [] \<and> \<not> is_cont (hd u) \<and> list_all is_cont (tl u)"

lemma back_up_le: "back_up val n \<le> n"
  by (induction n) auto

lemma back_up_stop: "back_up val n = 0 \<or> \<not> is_cont (val ! back_up val n)"
  by (induction n) auto

lemma back_up_cont: "back_up val n < i \<Longrightarrow> i \<le> n \<Longrightarrow> is_cont (val ! i)"
  by (induction n) (auto simp: le_Suc_eq split: if_splits)

lemma boundary_is_prefix:
  "list_all code_point us \<Longrightarrow> i < length (concat us) \<Longrightarrow> \<not> is_cont (concat us ! i) \<Longrightarrow>
   \<exists>k < length us. take i (concat us) = concat (take k us)"
proof (induction us arbitrary: i)
  case (Cons u us)
  show ?case
  proof (cases "i < length u")
    case True
    have "i = 0"
    proof (rule ccontr)
      assume "i \<noteq> 0"
      then have "concat (u # us) ! i = tl u ! (i - 1)" "i - 1 < length (tl u)"
        using True by (simp_all add: nth_append nth_tl)
      then have "is_cont (concat (u # us) ! i)"
        using Cons.prems(1) by (auto simp: code_point_def list_all_length)
      with Cons.prems(3) show False by simp
    qed
    then show ?thesis by (intro exI [of _ 0]) simp
  next
    case False
    then have "\<exists>k < length us. take (i - length u) (concat us) = concat (take k us)"
      using Cons.prems by (intro Cons.IH) (auto simp: nth_append)
    then obtain k where k: "k < length us" "take (i - length u) (concat us) = concat (take k us)" by blast
    with False show ?thesis by (intro exI [of _ "Suc k"]) simp
  qed
qed simp

text \<open>
  \<open>utf8_truncate\<close> of a UTF-8 text is a whole number of its code points, at most n bytes long, and
  no longer prefix of whole code points fits into n bytes.
\<close>

theorem utf8_truncate_whole:
  assumes "list_all code_point us"
  shows "\<exists>k \<le> length us. utf8_truncate (concat us) n = concat (take k us) \<and>
     length (concat (take k us)) \<le> n \<and>
     (k < length us \<longrightarrow> n < length (concat (take (Suc k) us)))"
proof (cases "length (concat us) \<le> n")
  case True
  then show ?thesis by (intro exI [of _ "length us"]) (simp add: utf8_truncate_def)
next
  case False
  let ?val = "concat us" and ?i = "back_up (concat us) n"
  have lt: "?i < length ?val" using False back_up_le [of ?val n] by simp
  have "us \<noteq> []" using False by auto
  then have "\<not> is_cont (?val ! 0)"
    using assms by (cases us) (auto simp: code_point_def hd_conv_nth nth_append)
  then have "\<not> is_cont (?val ! ?i)" using back_up_stop [of ?val n] by auto
  then obtain k where k: "k < length us" "take ?i ?val = concat (take k us)"
    using boundary_is_prefix [OF assms lt] by blast
  then have len: "length (concat (take k us)) = ?i" using lt by (metis length_take min.absorb4)
  have "n < length (concat (take (Suc k) us))"
  proof (rule ccontr)
    assume a: "\<not> n < length (concat (take (Suc k) us))"
    let ?j = "length (concat (take (Suc k) us))"
    have code: "code_point (us ! k)" using assms k(1) by (simp add: list_all_length)
    have take: "take (Suc k) us = take k us @ [us ! k]" using k(1) by (rule take_Suc_conv_app_nth)
    have j: "?i < ?j" "?j \<le> n" using a len code by (auto simp: take code_point_def)
    then have cont: "is_cont (?val ! ?j)" by (intro back_up_cont) auto
    have split: "?val = concat (take (Suc k) us) @ concat (drop (Suc k) us)"
      by (metis append_take_drop_id concat_append)
    have "concat (drop (Suc k) us) \<noteq> []" using split j False by (metis append_Nil2 not_le)
    then have "drop (Suc k) us \<noteq> []" by auto
    then have "Suc k < length us" by simp
    then have "drop (Suc k) us = us ! Suc k # drop (Suc (Suc k)) us" "code_point (us ! Suc k)"
      using assms by (simp_all add: Cons_nth_drop_Suc list_all_length)
    then have "\<not> is_cont (concat (drop (Suc k) us) ! 0)"
      by (auto simp: code_point_def hd_conv_nth nth_append)
    moreover have "?val ! ?j = concat (drop (Suc k) us) ! 0"
      by (subst split) (simp only: nth_append_length_plus [of _ _ 0, simplified])
    ultimately show False using cont by simp
  qed
  with k len False back_up_le [of ?val n] show ?thesis
    by (intro exI [of _ k]) (simp add: utf8_truncate_def)
qed

text \<open>
  \<open>copy_c_str\<close> is only defined on strings that fit: for every string that does not (of
  the buffer's size or longer, the case the truncation is meant for) it removes two characters too
  few, or a negative number of them, and leaves the buffer.
\<close>

theorem copy_c_str_fits: "copy_c_str n src = (if length src < n then Inr (src @ [CHR 0x00]) else Inl Undefined_behaviour)"
  by (auto simp: copy_c_str_def Let_def)

end
