(* ===== verification/Contacts.thy ===== *)
theory Contacts
  imports Field_Proxy Util
begin

text \<open>
  The contact list (\<open>src/src/config/contacts.cpp\<close>, \<open>src/include/session/config/contacts.hpp\<close>) and the
  types it shares with the other config types (\<open>profile_pic.hpp\<close>, \<open>notify.hpp\<close>, \<open>expiring.hpp\<close>). A
  contact is stored in the dict \<open>data["c"][id]\<close>, one key per field, with default values left out.
\<close>

section \<open>Shared types\<close>

record profile_pic =
  pic_url :: string
  pic_key :: bytes

definition pic_empty :: "profile_pic \<Rightarrow> bool" where
  "pic_empty p \<longleftrightarrow> pic_url p = [] \<or> length (pic_key p) \<noteq> 32"

definition no_pic :: profile_pic where "no_pic = \<lparr> pic_url = [], pic_key = [] \<rparr>"

definition check_key :: "bytes \<Rightarrow> unit res" where
  "check_key key = guard (key = [] \<or> length key = 32) Invalid_argument"

definition make_profile_pic :: "string \<Rightarrow> bytes \<Rightarrow> profile_pic res" where
  "make_profile_pic url key = res_bind (check_key key) (\<lambda>_. Inr \<lparr> pic_url = url, pic_key = key \<rparr>)"

datatype notify_mode = Notify_defaulted | Notify_all | Notify_disabled | Notify_mentions_only

definition notify_code :: "notify_mode \<Rightarrow> int" where
  "notify_code n = (case n of Notify_defaulted \<Rightarrow> 0 | Notify_all \<Rightarrow> 1 | Notify_disabled \<Rightarrow> 2 | Notify_mentions_only \<Rightarrow> 3)"

definition notify_of :: "int \<Rightarrow> notify_mode" where
  "notify_of i = (if i = 1 then Notify_all else if i = 2 then Notify_disabled
     else if i = 3 then Notify_mentions_only else Notify_defaulted)"

datatype expiration_mode = Exp_none | After_send | After_read

definition exp_code :: "expiration_mode \<Rightarrow> int" where
  "exp_code m = (case m of Exp_none \<Rightarrow> 0 | After_send \<Rightarrow> 1 | After_read \<Rightarrow> 2)"

definition exp_of :: "int \<Rightarrow> expiration_mode" where
  "exp_of i = (if i = 1 then After_send else if i = 2 then After_read else Exp_none)"

definition MAX_NAME_LENGTH :: nat where "MAX_NAME_LENGTH = 100"
definition MAX_URL_LENGTH :: nat where "MAX_URL_LENGTH = 223"

section \<open>Contacts\<close>

record contact_info =
  ci_session_id :: string
  ci_name :: string
  ci_nickname :: string
  ci_pic :: profile_pic
  ci_approved :: bool
  ci_approved_me :: bool
  ci_blocked :: bool
  ci_priority :: int
  ci_notifications :: notify_mode
  ci_mute_until :: int
  ci_exp_mode :: expiration_mode
  ci_exp_timer :: int
  ci_created :: int

definition new_contact :: "encodings \<Rightarrow> string \<Rightarrow> contact_info res" where
  "new_contact enc sid =
     res_bind (check_session_id enc sid ''05'') (\<lambda>_.
       Inr \<lparr> ci_session_id = sid, ci_name = [], ci_nickname = [], ci_pic = no_pic, ci_approved = False,
             ci_approved_me = False, ci_blocked = False, ci_priority = 0, ci_notifications = Notify_defaulted,
             ci_mute_until = 0, ci_exp_mode = Exp_none, ci_exp_timer = 0, ci_created = 0 \<rparr>)"

definition contact_set_name :: "string \<Rightarrow> contact_info \<Rightarrow> contact_info" where
  "contact_set_name n c =
     c\<lparr> ci_name := (if length n > MAX_NAME_LENGTH then utf8_truncate n MAX_NAME_LENGTH else n) \<rparr>"

definition contact_set_nickname :: "string \<Rightarrow> contact_info \<Rightarrow> contact_info res" where
  "contact_set_nickname n c =
     (if length n > MAX_NAME_LENGTH then Inl Invalid_argument else Inr (c\<lparr> ci_nickname := n \<rparr>))"

definition contact_set_nickname_truncated :: "string \<Rightarrow> contact_info \<Rightarrow> contact_info res" where
  "contact_set_nickname_truncated n c = contact_set_nickname (utf8_truncate n MAX_NAME_LENGTH) c"

text \<open>Loading the pair of profile picture fields and the pair of expiry fields. The 64-bit integers
  of the dict are narrowed to \<open>int\<close>.\<close>

definition load_pic :: "dict \<Rightarrow> profile_pic" where
  "load_pic d =
     (case (maybe_string d ''p'', maybe_string d ''q'') of
        (Some url, Some key) \<Rightarrow> if url \<noteq> [] \<and> length key = 32 then \<lparr> pic_url = url, pic_key = key \<rparr> else no_pic
      | _ \<Rightarrow> no_pic)"

definition load_expiry :: "int \<Rightarrow> int \<Rightarrow> expiration_mode \<times> int" where
  "load_expiry mode secs =
     (let m = (if 0 \<le> mode \<and> mode \<le> 2 then exp_of mode else Exp_none) in
      if m = Exp_none then (Exp_none, 0) else if secs \<le> 0 then (Exp_none, 0) else (m, secs))"

definition int_field :: "dict \<Rightarrow> string \<Rightarrow> int" where
  "int_field d k = integer_or 0 (maybe_int d k)"

definition str_field :: "dict \<Rightarrow> string \<Rightarrow> string" where
  "str_field d k = string_or [] (maybe_string d k)"

definition contact_load :: "dict \<Rightarrow> contact_info \<Rightarrow> contact_info" where
  "contact_load d c =
     (let notify = to_int32 (int_field d ''@'');
          n = (if 0 \<le> notify \<and> notify \<le> 3
               then if notify_of notify = Notify_mentions_only then Notify_all else notify_of notify
               else Notify_defaulted);
          ex = load_expiry (to_int32 (int_field d ''e'')) (to_int32 (int_field d ''E''))
      in c\<lparr> ci_name := str_field d ''n'', ci_nickname := str_field d ''N'', ci_pic := load_pic d,
            ci_approved := (int_field d ''a'' \<noteq> 0), ci_approved_me := (int_field d ''A'' \<noteq> 0),
            ci_blocked := (int_field d ''b'' \<noteq> 0), ci_priority := to_int32 (int_field d ''+''),
            ci_notifications := n, ci_mute_until := to_epoch_seconds (int_field d ''!''),
            ci_exp_mode := fst ex, ci_exp_timer := snd ex,
            ci_created := to_epoch_seconds (int_field d ''j'') \<rparr>)"

definition contacts_get :: "encodings \<Rightarrow> string \<Rightarrow> config_base \<Rightarrow> contact_info option res" where
  "contacts_get enc pubkey_hex b =
     res_bind (session_id_to_bytes enc pubkey_hex ''05'') (\<lambda>pubkey.
       case get_dict [''c''] pubkey b of
         None \<Rightarrow> Inr None
       | Some d \<Rightarrow> res_bind (new_contact enc pubkey_hex) (\<lambda>c. Inr (Some (contact_load d c))))"

definition contacts_get_or_construct :: "encodings \<Rightarrow> string \<Rightarrow> config_base \<Rightarrow> contact_info res" where
  "contacts_get_or_construct enc pubkey_hex b =
     res_bind (contacts_get enc pubkey_hex b) (\<lambda>m.
       case m of Some c \<Rightarrow> Inr c | None \<Rightarrow> new_contact enc pubkey_hex)"

definition contacts_set :: "env \<Rightarrow> encodings \<Rightarrow> contact_info \<Rightarrow> config_base \<Rightarrow> config_base res" where
  "contacts_set e enc c b =
     res_bind (session_id_to_bytes enc (ci_session_id c) ''05'') (\<lambda>pk.
       let info = [''c'', pk];
           notify = (if ci_notifications c = Notify_mentions_only then Notify_all else ci_notifications c) in
       res_bind (assign_if_changed e info ''n'' (VScalar (SStr (take MAX_NAME_LENGTH (ci_name c)))) b) (\<lambda>b.
       res_bind (set_nonempty_str e info ''N'' (take MAX_NAME_LENGTH (ci_nickname c)) b) (\<lambda>b.
       res_bind (set_pair_if e (\<not> pic_empty (ci_pic c))
                   (info, ''p'', VScalar (SStr (pic_url (ci_pic c))))
                   (info, ''q'', VScalar (SStr (pic_key (ci_pic c)))) b) (\<lambda>b.
       res_bind (set_flag e info ''a'' (ci_approved c) b) (\<lambda>b.
       res_bind (set_flag e info ''A'' (ci_approved_me c) b) (\<lambda>b.
       res_bind (set_flag e info ''b'' (ci_blocked c) b) (\<lambda>b.
       res_bind (set_nonzero_int e info ''+'' (ci_priority c) b) (\<lambda>b.
       res_bind (set_positive_int e info ''@'' (notify_code notify) b) (\<lambda>b.
       res_bind (set_positive_int e info ''!'' (to_epoch_seconds (ci_mute_until c)) b) (\<lambda>b.
       res_bind (set_pair_if e (ci_exp_mode c \<noteq> Exp_none \<and> ci_exp_timer c > 0)
                   (info, ''e'', VScalar (SInt (exp_code (ci_exp_mode c))))
                   (info, ''E'', VScalar (SInt (ci_exp_timer c))) b) (\<lambda>b.
       set_positive_int e info ''j'' (to_epoch_seconds (ci_created c)) b)))))))))))"

text \<open>The single-field setters: fetch or construct, change, store.\<close>

definition contacts_update ::
  "env \<Rightarrow> encodings \<Rightarrow> string \<Rightarrow> (contact_info \<Rightarrow> contact_info res) \<Rightarrow> config_base \<Rightarrow> config_base res" where
  "contacts_update e enc sid f b =
     res_bind (contacts_get_or_construct enc sid b) (\<lambda>c.
     res_bind (f c) (\<lambda>c. contacts_set e enc c b))"

definition contacts_set_name :: "env \<Rightarrow> encodings \<Rightarrow> string \<Rightarrow> string \<Rightarrow> config_base \<Rightarrow> config_base res" where
  "contacts_set_name e enc sid n = contacts_update e enc sid (\<lambda>c. Inr (contact_set_name n c))"

definition contacts_set_nickname :: "env \<Rightarrow> encodings \<Rightarrow> string \<Rightarrow> string \<Rightarrow> config_base \<Rightarrow> config_base res" where
  "contacts_set_nickname e enc sid n = contacts_update e enc sid (contact_set_nickname n)"

definition contacts_set_nickname_truncated ::
  "env \<Rightarrow> encodings \<Rightarrow> string \<Rightarrow> string \<Rightarrow> config_base \<Rightarrow> config_base res" where
  "contacts_set_nickname_truncated e enc sid n = contacts_update e enc sid (contact_set_nickname_truncated n)"

definition contacts_set_profile_pic ::
  "env \<Rightarrow> encodings \<Rightarrow> string \<Rightarrow> profile_pic \<Rightarrow> config_base \<Rightarrow> config_base res" where
  "contacts_set_profile_pic e enc sid p = contacts_update e enc sid (\<lambda>c. Inr (c\<lparr> ci_pic := p \<rparr>))"

definition contacts_set_approved :: "env \<Rightarrow> encodings \<Rightarrow> string \<Rightarrow> bool \<Rightarrow> config_base \<Rightarrow> config_base res" where
  "contacts_set_approved e enc sid v = contacts_update e enc sid (\<lambda>c. Inr (c\<lparr> ci_approved := v \<rparr>))"

definition contacts_set_approved_me :: "env \<Rightarrow> encodings \<Rightarrow> string \<Rightarrow> bool \<Rightarrow> config_base \<Rightarrow> config_base res" where
  "contacts_set_approved_me e enc sid v = contacts_update e enc sid (\<lambda>c. Inr (c\<lparr> ci_approved_me := v \<rparr>))"

definition contacts_set_blocked :: "env \<Rightarrow> encodings \<Rightarrow> string \<Rightarrow> bool \<Rightarrow> config_base \<Rightarrow> config_base res" where
  "contacts_set_blocked e enc sid v = contacts_update e enc sid (\<lambda>c. Inr (c\<lparr> ci_blocked := v \<rparr>))"

definition contacts_set_priority :: "env \<Rightarrow> encodings \<Rightarrow> string \<Rightarrow> int \<Rightarrow> config_base \<Rightarrow> config_base res" where
  "contacts_set_priority e enc sid v = contacts_update e enc sid (\<lambda>c. Inr (c\<lparr> ci_priority := v \<rparr>))"

definition contacts_set_notifications ::
  "env \<Rightarrow> encodings \<Rightarrow> string \<Rightarrow> notify_mode \<Rightarrow> config_base \<Rightarrow> config_base res" where
  "contacts_set_notifications e enc sid v = contacts_update e enc sid (\<lambda>c. Inr (c\<lparr> ci_notifications := v \<rparr>))"

definition contacts_set_expiry ::
  "env \<Rightarrow> encodings \<Rightarrow> string \<Rightarrow> expiration_mode \<Rightarrow> int \<Rightarrow> config_base \<Rightarrow> config_base res" where
  "contacts_set_expiry e enc sid m t =
     contacts_update e enc sid (\<lambda>c. Inr (c\<lparr> ci_exp_mode := m, ci_exp_timer := (if m = Exp_none then 0 else t) \<rparr>))"

definition contacts_set_created :: "env \<Rightarrow> encodings \<Rightarrow> string \<Rightarrow> int \<Rightarrow> config_base \<Rightarrow> config_base res" where
  "contacts_set_created e enc sid t =
     contacts_update e enc sid (\<lambda>c. Inr (c\<lparr> ci_created := to_epoch_seconds t \<rparr>))"

definition contacts_erase :: "env \<Rightarrow> encodings \<Rightarrow> string \<Rightarrow> config_base \<Rightarrow> (bool \<times> config_base) res" where
  "contacts_erase e enc sid b =
     res_bind (session_id_to_bytes enc sid ''05'') (\<lambda>pk.
       let ret = (get_clean [''c''] pk b \<noteq> None) in
       res_bind (erase_field e [''c''] pk b) (\<lambda>b. Inr (ret, b)))"

definition contacts_size :: "config_base \<Rightarrow> nat" where
  "contacts_size b = (case get_dict [] ''c'' b of Some d \<Rightarrow> length d | None \<Rightarrow> 0)"

text \<open>Iteration: the entries from a position on that are 33-byte keys with a dict; everything else is
  skipped.\<close>

fun contacts_iter :: "encodings \<Rightarrow> dict \<Rightarrow> contact_info list res" where
  "contacts_iter enc [] = Inr []"
| "contacts_iter enc ((k, v) # it) =
     (case (length k = 33, v) of
        (True, VDict d) \<Rightarrow>
          res_bind (new_contact enc (to_hex enc k)) (\<lambda>c.
          res_bind (contacts_iter enc it) (\<lambda>cs. Inr (contact_load d c # cs)))
      | _ \<Rightarrow> contacts_iter enc it)"

definition contacts_all :: "encodings \<Rightarrow> config_base \<Rightarrow> contact_info list res" where
  "contacts_all enc b = (case get_dict [] ''c'' b of Some d \<Rightarrow> contacts_iter enc d | None \<Rightarrow> Inr [])"

section \<open>Storing and fetching a contact\<close>

definition contact_fields :: "contact_info \<Rightarrow> (string \<times> dict_value option) list" where
  "contact_fields c =
     [(''n'', Some (VScalar (SStr (take MAX_NAME_LENGTH (ci_name c))))),
      (''N'', if take MAX_NAME_LENGTH (ci_nickname c) \<noteq> []
              then Some (VScalar (SStr (take MAX_NAME_LENGTH (ci_nickname c)))) else None),
      (''p'', if \<not> pic_empty (ci_pic c) then Some (VScalar (SStr (pic_url (ci_pic c)))) else None),
      (''q'', if \<not> pic_empty (ci_pic c) then Some (VScalar (SStr (pic_key (ci_pic c)))) else None),
      (''a'', if ci_approved c then Some (VScalar (SInt 1)) else None),
      (''A'', if ci_approved_me c then Some (VScalar (SInt 1)) else None),
      (''b'', if ci_blocked c then Some (VScalar (SInt 1)) else None),
      (''+'', if ci_priority c \<noteq> 0 then Some (VScalar (SInt (ci_priority c))) else None),
      (''@'', let n = notify_code (if ci_notifications c = Notify_mentions_only then Notify_all else ci_notifications c)
              in if n > 0 then Some (VScalar (SInt n)) else None),
      (''!'', if to_epoch_seconds (ci_mute_until c) > 0
              then Some (VScalar (SInt (to_epoch_seconds (ci_mute_until c)))) else None),
      (''e'', if ci_exp_mode c \<noteq> Exp_none \<and> ci_exp_timer c > 0
              then Some (VScalar (SInt (exp_code (ci_exp_mode c)))) else None),
      (''E'', if ci_exp_mode c \<noteq> Exp_none \<and> ci_exp_timer c > 0 then Some (VScalar (SInt (ci_exp_timer c))) else None),
      (''j'', if to_epoch_seconds (ci_created c) > 0
              then Some (VScalar (SInt (to_epoch_seconds (ci_created c)))) else None)]"

lemma contacts_set_fields:
  "session_id_to_bytes enc (ci_session_id c) ''05'' = Inr pk \<Longrightarrow>
   contacts_set e enc c b = res_fold (write_field e [''c'', pk]) (contact_fields c) b"
  by (simp add: contacts_set_def contact_fields_def field_writes Let_def split del: if_split)

text \<open>A contact whose values are in the form the list stores: names within the limit, timestamps in
  seconds, no expiry timer without a mode, and a notification mode that contacts have.\<close>

definition seconds_ok :: "int \<Rightarrow> bool" where
  "seconds_ok t \<longleftrightarrow> 0 \<le> t \<and> t \<le> 9000000000"

definition contact_ok :: "encodings \<Rightarrow> contact_info \<Rightarrow> bool" where
  "contact_ok enc c \<longleftrightarrow> check_session_id enc (ci_session_id c) ''05'' = Inr () \<and>
     length (ci_name c) \<le> 100 \<and> length (ci_nickname c) \<le> 100 \<and>
     (pic_empty (ci_pic c) \<longrightarrow> ci_pic c = no_pic) \<and> in_i32 (ci_priority c) \<and>
     ci_notifications c \<noteq> Notify_mentions_only \<and> seconds_ok (ci_mute_until c) \<and> seconds_ok (ci_created c) \<and>
     (if ci_exp_mode c = Exp_none then ci_exp_timer c = 0 else 0 < ci_exp_timer c \<and> in_i32 (ci_exp_timer c))"

lemma seconds_ok_id [simp]: "seconds_ok t \<Longrightarrow> to_epoch_seconds t = t"
  by (simp add: seconds_ok_def to_epoch_seconds_def)

lemma in_i32_id [simp]: "in_i32 i \<Longrightarrow> to_int32 i = i"
  by (simp add: in_i32_def to_int32_id)

lemma i32_i64: "in_i32 i \<Longrightarrow> in_i64 i"
  by (simp add: in_i32_def in_i64_def)

lemma pred_option_if [simp]: "pred_option P (if c then Some v else None) \<longleftrightarrow> (c \<longrightarrow> P v)"
  by simp

lemma field_value_ok_scalar [simp]:
  "field_value_ok (VScalar (SStr s))" "field_value_ok (VScalar (SInt i)) \<longleftrightarrow> in_i64 i"
  by (simp_all add: field_value_ok_def)

lemma code_bounds [simp]: "in_i64 (notify_code n)" "in_i64 (exp_code m)" "in_i64 1"
  by (cases n; simp add: notify_code_def in_i64_def) (cases m; simp add: exp_code_def in_i64_def)+

lemma seconds_i64 [simp]: "seconds_ok t \<Longrightarrow> in_i64 t"
  by (simp add: seconds_ok_def in_i64_def)

lemma contact_fields_ok: "contact_ok enc c \<Longrightarrow> \<forall>kv \<in> set (contact_fields c). pred_option field_value_ok (snd kv)"
  by (simp add: contact_fields_def contact_ok_def Let_def i32_i64 split: if_split_asm)

lemma contact_load_fields:
  assumes "contact_ok enc c" "\<forall>i vo. map_of (contact_fields c) i = Some vo \<longrightarrow> map_of d i = vo"
    and "ci_session_id c0 = ci_session_id c"
  shows "contact_load d c0 = c"
proof -
  have f: "(k, vo) \<in> set (contact_fields c) \<Longrightarrow> map_of d k = vo" for k vo
    using assms(2) map_of_is_SomeI [of "contact_fields c" k vo] by (simp add: contact_fields_def Let_def)
  have fields: "map_of d ''n'' = Some (VScalar (SStr (ci_name c)))"
    "map_of d ''N'' = (if ci_nickname c \<noteq> [] then Some (VScalar (SStr (ci_nickname c))) else None)"
    "map_of d ''p'' = (if \<not> pic_empty (ci_pic c) then Some (VScalar (SStr (pic_url (ci_pic c)))) else None)"
    "map_of d ''q'' = (if \<not> pic_empty (ci_pic c) then Some (VScalar (SStr (pic_key (ci_pic c)))) else None)"
    "map_of d ''a'' = (if ci_approved c then Some (VScalar (SInt 1)) else None)"
    "map_of d ''A'' = (if ci_approved_me c then Some (VScalar (SInt 1)) else None)"
    "map_of d ''b'' = (if ci_blocked c then Some (VScalar (SInt 1)) else None)"
    "map_of d ''+'' = (if ci_priority c \<noteq> 0 then Some (VScalar (SInt (ci_priority c))) else None)"
    "map_of d ''@'' = (if notify_code (ci_notifications c) > 0 then Some (VScalar (SInt (notify_code (ci_notifications c)))) else None)"
    "map_of d ''!'' = (if ci_mute_until c > 0 then Some (VScalar (SInt (ci_mute_until c))) else None)"
    "map_of d ''e'' = (if ci_exp_mode c \<noteq> Exp_none then Some (VScalar (SInt (exp_code (ci_exp_mode c)))) else None)"
    "map_of d ''E'' = (if ci_exp_mode c \<noteq> Exp_none then Some (VScalar (SInt (ci_exp_timer c))) else None)"
    "map_of d ''j'' = (if ci_created c > 0 then Some (VScalar (SInt (ci_created c))) else None)"
    using assms(1) by (subst f; simp add: contact_fields_def contact_ok_def MAX_NAME_LENGTH_def Let_def)+
  have fl: "str_field d ''n'' = ci_name c" "str_field d ''N'' = ci_nickname c" "load_pic d = ci_pic c"
    "int_field d ''a'' \<noteq> 0 \<longleftrightarrow> ci_approved c" "int_field d ''A'' \<noteq> 0 \<longleftrightarrow> ci_approved_me c"
    "int_field d ''b'' \<noteq> 0 \<longleftrightarrow> ci_blocked c" "int_field d ''+'' = ci_priority c"
    "int_field d ''@'' = notify_code (ci_notifications c)" "int_field d ''!'' = ci_mute_until c"
    "int_field d ''e'' = exp_code (ci_exp_mode c)" "int_field d ''E'' = (if ci_exp_mode c = Exp_none then 0 else ci_exp_timer c)"
    "int_field d ''j'' = ci_created c"
    using assms(1) fields
    by (auto simp: str_field_def int_field_def load_pic_def maybe_string_def maybe_int_def string_or_def integer_or_def
        contact_ok_def pic_empty_def no_pic_def seconds_ok_def notify_code_def exp_code_def
        split: notify_mode.splits expiration_mode.splits)
  have codes: "to_int32 (notify_code (ci_notifications c)) = notify_code (ci_notifications c)"
    "to_int32 (exp_code (ci_exp_mode c)) = exp_code (ci_exp_mode c)"
    by (cases "ci_notifications c"; simp add: notify_code_def to_int32_def)
       (cases "ci_exp_mode c"; simp add: exp_code_def to_int32_def)
  have notif: "(if 0 \<le> notify_code (ci_notifications c) \<and> notify_code (ci_notifications c) \<le> 3
      then if notify_of (notify_code (ci_notifications c)) = Notify_mentions_only then Notify_all
           else notify_of (notify_code (ci_notifications c)) else Notify_defaulted) = ci_notifications c"
    using assms(1) by (cases "ci_notifications c") (simp_all add: contact_ok_def notify_code_def notify_of_def)
  have expiry: "load_expiry (exp_code (ci_exp_mode c)) (to_int32 (if ci_exp_mode c = Exp_none then 0 else ci_exp_timer c)) =
      (ci_exp_mode c, ci_exp_timer c)"
    using assms(1) by (cases "ci_exp_mode c") (simp_all add: contact_ok_def load_expiry_def exp_code_def exp_of_def)
  have "in_i32 (ci_priority c)" "seconds_ok (ci_mute_until c)" "seconds_ok (ci_created c)"
    using assms(1) by (simp_all add: contact_ok_def)
  then show ?thesis
    using assms(3) by (simp add: contact_load_def Let_def fl codes notif expiry)
qed

lemma contact_fields_distinct: "distinct (map fst (contact_fields c))"
  by (simp add: contact_fields_def Let_def)

lemma session_id_bytes: "check_session_id enc sid p = Inr () \<Longrightarrow> session_id_to_bytes enc sid p = Inr (from_hex enc sid)"
  by (simp add: session_id_to_bytes_def)

lemma contacts_get_other:
  "get_clean [''c''] (from_hex enc sid) b' = get_clean [''c''] (from_hex enc sid) b \<Longrightarrow>
   contacts_get enc sid b' = contacts_get enc sid b"
  by (simp add: contacts_get_def get_dict_def session_id_to_bytes_def)

text \<open>C19. Storing a contact and fetching it gives the contact back, field by field, and every contact
  whose id has other bytes reads as before.\<close>

theorem contacts_set_get:
  assumes "editable e b" "base_inv b" "contact_ok enc c"
  shows "\<exists>b'. contacts_set e enc c b = Inr b' \<and> editable e b' \<and> base_inv b' \<and>
     contacts_get enc (ci_session_id c) b' = Inr (Some c) \<and>
     (\<forall>sid. from_hex enc sid \<noteq> from_hex enc (ci_session_id c) \<longrightarrow>
        contacts_get enc sid b' = contacts_get enc sid b)"
proof -
  let ?pk = "from_hex enc (ci_session_id c)"
  have sid: "check_session_id enc (ci_session_id c) ''05'' = Inr ()"
    using assms(3) by (simp add: contact_ok_def)
  have name: "map_of (contact_fields c) ''n'' = Some (Some (VScalar (SStr (take MAX_NAME_LENGTH (ci_name c)))))"
    by (simp add: contact_fields_def)
  obtain b' d where b': "res_fold (write_field e ([''c''] @ [?pk])) (contact_fields c) b = Inr b'" "editable e b'"
      "base_inv b'" "get_dict [''c''] ?pk b' = Some d"
      "\<forall>i vo. map_of (contact_fields c) i = Some vo \<longrightarrow> map_of d i = vo"
      "\<forall>i. i \<noteq> ?pk \<longrightarrow> get_clean [''c''] i b' = get_clean [''c''] i b"
    using entry_written [OF assms(1,2) contact_fields_ok [OF assms(3)] contact_fields_distinct name]
    by blast
  have "contacts_set e enc c b = Inr b'"
    using contacts_set_fields [OF session_id_bytes [OF sid]] b'(1) by simp
  moreover have "contacts_get enc (ci_session_id c) b' = Inr (Some c)"
    using b'(4) contact_load_fields [OF assms(3) b'(5)] sid
    by (simp add: contacts_get_def session_id_bytes new_contact_def)
  ultimately show ?thesis using b'(2,3,6) contacts_get_other by blast
qed

end
