(* ===== verification/User_Profile.thy ===== *)
theory User_Profile
  imports Contacts
begin

text \<open>
  The user's own profile (\<open>src/src/config/user_profile.cpp\<close>) and the settings of one device
  (\<open>src/src/config/local.cpp\<close>): single fields directly below the root of the data.
\<close>

section \<open>Profile\<close>

definition profile_get_name :: "config_base \<Rightarrow> string option" where
  "profile_get_name b =
     (case get_string [] ''n'' b of Some s \<Rightarrow> if s = [] then None else Some s | None \<Rightarrow> None)"

definition profile_set_name :: "env \<Rightarrow> string \<Rightarrow> config_base \<Rightarrow> config_base res" where
  "profile_set_name e new_name b =
     (if length new_name > MAX_NAME_LENGTH then Inl Invalid_argument else set_nonempty_str e [] ''n'' new_name b)"

definition profile_set_name_truncated :: "env \<Rightarrow> string \<Rightarrow> config_base \<Rightarrow> config_base res" where
  "profile_set_name_truncated e new_name b = profile_set_name e (utf8_truncate new_name MAX_NAME_LENGTH) b"

definition profile_get_pic :: "config_base \<Rightarrow> profile_pic" where
  "profile_get_pic b =
     \<lparr> pic_url = (case get_string [] ''p'' b of Some url \<Rightarrow> url | None \<Rightarrow> []),
       pic_key = (case get_string [] ''q'' b of Some key \<Rightarrow> if length key = 32 then key else [] | None \<Rightarrow> []) \<rparr>"

definition profile_set_pic :: "env \<Rightarrow> string \<Rightarrow> bytes \<Rightarrow> config_base \<Rightarrow> config_base res" where
  "profile_set_pic e url key b =
     set_pair_if e (url \<noteq> [] \<and> length key = 32)
       ([], ''p'', VScalar (SStr url)) ([], ''q'', VScalar (SStr key)) b"

definition set_nts_priority :: "env \<Rightarrow> int \<Rightarrow> config_base \<Rightarrow> config_base res" where
  "set_nts_priority e priority b = set_nonzero_int e [] ''+'' priority b"

definition get_nts_priority :: "config_base \<Rightarrow> int" where
  "get_nts_priority b = to_int32 (integer_or 0 (get_integer [] ''+'' b))"

definition set_nts_expiry :: "env \<Rightarrow> int \<Rightarrow> config_base \<Rightarrow> config_base res" where
  "set_nts_expiry e expiry b = set_positive_int e [] ''e'' expiry b"

definition get_nts_expiry :: "config_base \<Rightarrow> int option" where
  "get_nts_expiry b =
     (case get_integer [] ''e'' b of Some i \<Rightarrow> if i > 0 then Some i else None | None \<Rightarrow> None)"

definition set_blinded_msgreqs :: "env \<Rightarrow> bool option \<Rightarrow> config_base \<Rightarrow> config_base res" where
  "set_blinded_msgreqs e v b =
     (case v of
        None \<Rightarrow> erase_field e [] ''M'' b
      | Some v \<Rightarrow> assign_if_changed e [] ''M'' (VScalar (SInt (if v then 1 else 0))) b)"

definition get_blinded_msgreqs :: "config_base \<Rightarrow> bool option" where
  "get_blinded_msgreqs b = map_option (\<lambda>i. i \<noteq> 0) (get_integer [] ''M'' b)"

section \<open>Local settings\<close>

datatype notify_content = Content_defaulted | Name_and_preview | Name_no_preview | No_name_no_preview

definition content_code :: "notify_content \<Rightarrow> int" where
  "content_code c = (case c of Content_defaulted \<Rightarrow> 0 | Name_and_preview \<Rightarrow> 1 | Name_no_preview \<Rightarrow> 2 | No_name_no_preview \<Rightarrow> 3)"

definition content_of :: "int \<Rightarrow> notify_content" where
  "content_of i = (if i = 1 then Name_and_preview else if i = 2 then Name_no_preview
     else if i = 3 then No_name_no_preview else Content_defaulted)"

datatype theme = Theme_defaulted | Classic_dark | Classic_light | Ocean_dark | Ocean_light

definition theme_code :: "theme \<Rightarrow> int" where
  "theme_code t = (case t of Theme_defaulted \<Rightarrow> 0 | Classic_dark \<Rightarrow> 1 | Classic_light \<Rightarrow> 2 | Ocean_dark \<Rightarrow> 3 | Ocean_light \<Rightarrow> 4)"

definition theme_of :: "int \<Rightarrow> theme" where
  "theme_of i = (if i = 1 then Classic_dark else if i = 2 then Classic_light
     else if i = 3 then Ocean_dark else if i = 4 then Ocean_light else Theme_defaulted)"

datatype theme_primary_color =
  Color_defaulted | Color_green | Color_blue | Color_yellow | Color_pink | Color_purple | Color_orange | Color_red

definition color_code :: "theme_primary_color \<Rightarrow> int" where
  "color_code c = (case c of Color_defaulted \<Rightarrow> 0 | Color_green \<Rightarrow> 1 | Color_blue \<Rightarrow> 2 | Color_yellow \<Rightarrow> 3
     | Color_pink \<Rightarrow> 4 | Color_purple \<Rightarrow> 5 | Color_orange \<Rightarrow> 6 | Color_red \<Rightarrow> 7)"

definition color_of :: "int \<Rightarrow> theme_primary_color" where
  "color_of i = (if i = 1 then Color_green else if i = 2 then Color_blue else if i = 3 then Color_yellow
     else if i = 4 then Color_pink else if i = 5 then Color_purple else if i = 6 then Color_orange
     else if i = 7 then Color_red else Color_defaulted)"

definition get_notification_content :: "config_base \<Rightarrow> notify_content" where
  "get_notification_content b =
     (let i = to_int32 (integer_or 0 (get_integer [] ''notify_content'' b)) in
      if 0 \<le> i \<and> i \<le> 3 then content_of i else Content_defaulted)"

definition set_notification_content :: "env \<Rightarrow> notify_content \<Rightarrow> config_base \<Rightarrow> config_base res" where
  "set_notification_content e v b = set_positive_int e [] ''notify_content'' (content_code v) b"

definition get_ios_notification_sound :: "config_base \<Rightarrow> int" where
  "get_ios_notification_sound b = integer_or 0 (get_integer [] ''notify_sound'' b)"

definition set_ios_notification_sound :: "env \<Rightarrow> int \<Rightarrow> config_base \<Rightarrow> config_base res" where
  "set_ios_notification_sound e v b = set_positive_int e [] ''notify_sound'' v b"

definition get_theme :: "config_base \<Rightarrow> theme" where
  "get_theme b =
     (let i = to_int32 (integer_or 0 (get_integer [] ''theme'' b)) in
      if 0 \<le> i \<and> i \<le> 4 then theme_of i else Theme_defaulted)"

definition set_theme :: "env \<Rightarrow> theme \<Rightarrow> config_base \<Rightarrow> config_base res" where
  "set_theme e v b = set_positive_int e [] ''theme'' (theme_code v) b"

definition get_theme_primary_color :: "config_base \<Rightarrow> theme_primary_color" where
  "get_theme_primary_color b =
     (let i = to_int32 (integer_or 0 (get_integer [] ''theme_primary_color'' b)) in
      if 0 \<le> i \<and> i \<le> 7 then color_of i else Color_defaulted)"

definition set_theme_primary_color :: "env \<Rightarrow> theme_primary_color \<Rightarrow> config_base \<Rightarrow> config_base res" where
  "set_theme_primary_color e v b = set_positive_int e [] ''theme_primary_color'' (color_code v) b"

text \<open>\<open>get_setting\<close> looks the key up as a C string, up to its first null byte.\<close>

definition get_setting :: "string \<Rightarrow> config_base \<Rightarrow> bool option" where
  "get_setting key b =
     (case get_dict [] ''settings'' b of
        None \<Rightarrow> None
      | Some d \<Rightarrow> map_option (\<lambda>i. i \<noteq> 0) (maybe_int d (takeWhile (\<lambda>c. c \<noteq> CHR 0x00) key)))"

definition set_setting :: "env \<Rightarrow> string \<Rightarrow> bool option \<Rightarrow> config_base \<Rightarrow> config_base res" where
  "set_setting e key enabled b =
     (case enabled of
        Some v \<Rightarrow> set_flag e [''settings''] key v b
      | None \<Rightarrow> erase_field e [''settings''] key b)"

definition size_settings :: "config_base \<Rightarrow> nat" where
  "size_settings b = (case get_dict [] ''settings'' b of Some d \<Rightarrow> length d | None \<Rightarrow> 0)"

text \<open>The overrides of the life cycle: a local config has nothing to push.\<close>

definition local_needs_push :: "config_base \<Rightarrow> bool" where "local_needs_push b = False"

definition local_push :: "config_base \<Rightarrow> int \<times> bytes list \<times> string list" where "local_push b = (0, [], [])"

section \<open>Reading back\<close>

definition profile_fields ::
  "string \<Rightarrow> profile_pic \<Rightarrow> int \<Rightarrow> int \<Rightarrow> bool option \<Rightarrow> (string \<times> dict_value option) list" where
  "profile_fields name pic priority expiry msgreqs =
     [(''n'', if name \<noteq> [] then Some (VScalar (SStr name)) else None),
      (''p'', if pic_url pic \<noteq> [] \<and> length (pic_key pic) = 32 then Some (VScalar (SStr (pic_url pic))) else None),
      (''q'', if pic_url pic \<noteq> [] \<and> length (pic_key pic) = 32 then Some (VScalar (SStr (pic_key pic))) else None),
      (''+'', if priority \<noteq> 0 then Some (VScalar (SInt priority)) else None),
      (''e'', if expiry > 0 then Some (VScalar (SInt expiry)) else None),
      (''M'', map_option (\<lambda>v. VScalar (SInt (if v then 1 else 0))) msgreqs)]"

text \<open>All setters of the profile one after the other.\<close>

definition profile_set_all ::
  "env \<Rightarrow> string \<Rightarrow> profile_pic \<Rightarrow> int \<Rightarrow> int \<Rightarrow> bool option \<Rightarrow> config_base \<Rightarrow> config_base res" where
  "profile_set_all e name pic priority expiry msgreqs b =
     res_bind (profile_set_name e name b) (\<lambda>b.
     res_bind (profile_set_pic e (pic_url pic) (pic_key pic) b) (\<lambda>b.
     res_bind (set_nts_priority e priority b) (\<lambda>b.
     res_bind (set_nts_expiry e expiry b) (\<lambda>b.
     set_blinded_msgreqs e msgreqs b))))"

lemma blinded_writes:
  "set_blinded_msgreqs e v b = write_field e [] (''M'', map_option (\<lambda>v. VScalar (SInt (if v then 1 else 0))) v) b"
  by (cases v) (simp_all add: set_blinded_msgreqs_def write_field_def)

lemma profile_set_all_fields:
  "length name \<le> 100 \<Longrightarrow> profile_set_all e name pic priority expiry msgreqs b =
   res_fold (write_field e []) (profile_fields name pic priority expiry msgreqs) b"
  by (simp add: profile_set_all_def profile_set_name_def profile_set_pic_def set_nts_priority_def set_nts_expiry_def
      blinded_writes profile_fields_def field_writes MAX_NAME_LENGTH_def split del: if_split)

lemma profile_fields_ok:
  "in_i32 priority \<Longrightarrow> in_i64 expiry \<Longrightarrow>
   \<forall>kv \<in> set (profile_fields name pic priority expiry msgreqs). pred_option field_value_ok (snd kv)"
  by (cases msgreqs) (simp_all add: profile_fields_def i32_i64, simp_all add: in_i64_def)

text \<open>
  The fields of the profile are independent: after all of them have been set, in a row, each getter
  returns what its setter was given (an empty name and a picture without a 32-byte key as no value, and
  an expiry that is not positive as none). A name above the limit is refused.
\<close>

theorem profile_round_trip:
  assumes "editable e b" "base_inv b" "length name \<le> 100" "in_i32 priority" "in_i64 expiry"
    and "pic_empty pic \<longrightarrow> pic = no_pic"
  shows "\<exists>b'. profile_set_all e name pic priority expiry msgreqs b = Inr b' \<and>
     profile_get_name b' = (if name = [] then None else Some name) \<and> profile_get_pic b' = pic \<and>
     get_nts_priority b' = priority \<and> get_nts_expiry b' = (if expiry > 0 then Some expiry else None) \<and>
     get_blinded_msgreqs b' = msgreqs \<and>
     (\<forall>long. length long > 100 \<longrightarrow> profile_set_name e long b = Inl Invalid_argument)"
proof -
  let ?fs = "profile_fields name pic priority expiry msgreqs"
  have "distinct (map fst ?fs)" by (simp add: profile_fields_def)
  from read_written [OF assms(1,2) profile_fields_ok [OF assms(4,5)] this, of "[]"]
  obtain b' where b': "res_fold (write_field e []) ?fs b = Inr b'"
    and get: "\<And>k. get_clean [] k b' = (case map_of ?fs k of None \<Rightarrow> get_clean [] k b | Some vo \<Rightarrow> vo)"
    by blast
  have get': "get_clean [] k b' = vo" if "(k, vo) \<in> set ?fs" for k vo
    using get [of k] that \<open>distinct (map fst ?fs)\<close> by (simp add: map_of_is_SomeI)
  have vals: "get_clean [] ''n'' b' = (if name \<noteq> [] then Some (VScalar (SStr name)) else None)"
    "get_clean [] ''p'' b' = (if \<not> pic_empty pic then Some (VScalar (SStr (pic_url pic))) else None)"
    "get_clean [] ''q'' b' = (if \<not> pic_empty pic then Some (VScalar (SStr (pic_key pic))) else None)"
    "get_clean [] ''+'' b' = (if priority \<noteq> 0 then Some (VScalar (SInt priority)) else None)"
    "get_clean [] ''e'' b' = (if expiry > 0 then Some (VScalar (SInt expiry)) else None)"
    "get_clean [] ''M'' b' = map_option (\<lambda>v. VScalar (SInt (if v then 1 else 0))) msgreqs"
    by (subst get'; simp add: profile_fields_def pic_empty_def)+
  have "profile_set_all e name pic priority expiry msgreqs b = Inr b'"
    using profile_set_all_fields [OF assms(3)] b' by simp
  moreover have "profile_get_name b' = (if name = [] then None else Some name)"
    using vals(1) by (simp add: profile_get_name_def get_string_def)
  moreover have "profile_get_pic b' = pic"
    using vals(2,3) assms(6) by (auto simp: profile_get_pic_def get_string_def pic_empty_def no_pic_def)
  moreover have "get_nts_priority b' = priority"
    using vals(4) assms(4) in_i32_id [of 0]
    by (simp add: get_nts_priority_def get_integer_def integer_or_def) (simp add: in_i32_def)
  moreover have "get_nts_expiry b' = (if expiry > 0 then Some expiry else None)"
    using vals(5) by (simp add: get_nts_expiry_def get_integer_def)
  moreover have "get_blinded_msgreqs b' = msgreqs"
    using vals(6) by (cases msgreqs) (simp_all add: get_blinded_msgreqs_def get_integer_def)
  ultimately show ?thesis by (auto simp: profile_set_name_def MAX_NAME_LENGTH_def)
qed

text \<open>
  A local setting can only be true or absent. Storing \<open>false\<close>, which the interface
  documents as a third value next to "not set", erases the setting, and reading it gives no value.
\<close>

theorem set_setting_false_is_lost:
  assumes "editable e b" "base_inv b" "CHR 0x00 \<notin> set key"
  shows "\<exists>b1 b2. set_setting e key (Some True) b = Inr b1 \<and> get_setting key b1 = Some True \<and>
     set_setting e key (Some False) b1 = Inr b2 \<and> get_setting key b2 = None"
proof -
  have key: "takeWhile (\<lambda>c. c \<noteq> CHR 0x00) key = key" using assms(3) by (auto simp: takeWhile_eq_all_conv)
  have set: "get_setting key b' = Some (i \<noteq> 0)" if "get_clean [''settings''] key b' = Some (VScalar (SInt i))" for b' i
    using get_dict_fields [of "[]" "''settings''" key b'] that by (auto simp: get_setting_def maybe_int_def key)
  have unset: "get_setting key b' = None" if "get_clean [''settings''] key b' = None" for b'
    using that by (auto simp: get_setting_def maybe_int_def key get_dict_def get_clean_def get_path_def
        split: option.split dict_value.split)
  have one: "\<forall>kv \<in> set [(key, Some (VScalar (SInt 1)))]. pred_option field_value_ok (snd kv)"
    "\<forall>kv \<in> set [(key, None)]. pred_option field_value_ok (snd kv)" by simp_all
  obtain b1 where b1: "res_fold (write_field e [''settings'']) [(key, Some (VScalar (SInt 1)))] b = Inr b1" "editable e b1" "base_inv b1"
    "get_clean [''settings''] key b1 = Some (VScalar (SInt 1))"
    using read_written [OF assms(1,2) one(1), of "[''settings'']"] by auto
  obtain b2 where b2: "res_fold (write_field e [''settings'']) [(key, None)] b1 = Inr b2"
    "get_clean [''settings''] key b2 = None"
    using read_written [OF b1(2,3) one(2), of "[''settings'']"] by auto
  show ?thesis using b1(1) b2(1) set [OF b1(4)] unset [OF b2(2)] by (simp add: set_setting_def field_writes)
qed

end
