(* ===== verification/Community.thy ===== *)
theory Community
  imports Contacts
begin

text \<open>
  Communities (\<open>src/src/config/community.cpp\<close>, \<open>src/include/session/config/community.hpp\<close>): a server
  URL in canonical form, a room token with its preferred spelling, and the server's pubkey; the full
  URLs that carry all three; and the walk over the nested dicts in which the conversation and group
  configs store them.
\<close>

section \<open>Definitions\<close>

definition BASE_URL_MAX_LENGTH :: nat where "BASE_URL_MAX_LENGTH = 267"
definition ROOM_MAX_LENGTH :: nat where "ROOM_MAX_LENGTH = 64"
definition qs_pubkey :: string where "qs_pubkey = ''?public_key=''"

record community =
  co_base_url :: string
  co_room_norm :: string
  co_localized_room :: "string option"
  co_pubkey :: bytes

definition no_community :: community where
  "no_community = \<lparr> co_base_url = [], co_room_norm = [], co_localized_room = None, co_pubkey = [] \<rparr>"

definition co_room :: "community \<Rightarrow> string" where
  "co_room c = (case co_localized_room c of Some r \<Rightarrow> r | None \<Rightarrow> co_room_norm c)"

text \<open>\<open>std::to_string\<close> of a port.\<close>

fun decimal :: "nat \<Rightarrow> string" where
  "decimal n = (if n < 10 then [char_of (48 + n)] else decimal (n div 10) @ [char_of (48 + n mod 10)])"

declare decimal.simps [simp del]

definition canonical_url :: "string \<Rightarrow> string res" where
  "canonical_url url =
     res_bind (parse_url url) (\<lambda>(proto, host, port, path).
       let result = proto @ host @ (case port of Some p \<Rightarrow> CHR '':'' # decimal p | None \<Rightarrow> []) in
       if path \<noteq> None then Inl Invalid_argument
       else if length result > BASE_URL_MAX_LENGTH then Inl Invalid_argument
       else Inr result)"

definition room_chars :: string where "room_chars = ''-0123456789_abcdefghijklmnopqrstuvwxyz''"

definition canonical_room :: "string \<Rightarrow> string res" where
  "canonical_room room =
     (let r = make_lc room in
      if length r > ROOM_MAX_LENGTH then Inl Invalid_argument
      else if r = [] then Inl Invalid_argument
      else if \<not> set r \<subseteq> set room_chars then Inl Invalid_argument
      else Inr r)"

definition set_base_url :: "string \<Rightarrow> community \<Rightarrow> community res" where
  "set_base_url url c = res_bind (canonical_url url) (\<lambda>u. Inr (c\<lparr> co_base_url := u \<rparr>))"

definition set_room :: "string \<Rightarrow> community \<Rightarrow> community res" where
  "set_room room c =
     res_bind (canonical_room room) (\<lambda>r. Inr (c\<lparr> co_room_norm := r, co_localized_room := Some room \<rparr>))"

definition set_pubkey :: "bytes \<Rightarrow> community \<Rightarrow> community res" where
  "set_pubkey pk c = (if length pk \<noteq> 32 then Inl Invalid_argument else Inr (c\<lparr> co_pubkey := pk \<rparr>))"

definition set_pubkey_encoded :: "encodings \<Rightarrow> string \<Rightarrow> community \<Rightarrow> community res" where
  "set_pubkey_encoded enc pk c = res_bind (decode_pubkey enc pk) (\<lambda>p. Inr (c\<lparr> co_pubkey := p \<rparr>))"

definition new_community :: "string \<Rightarrow> string \<Rightarrow> community res" where
  "new_community url room = res_bind (set_base_url url no_community) (set_room room)"

definition new_community_pk :: "string \<Rightarrow> string \<Rightarrow> bytes \<Rightarrow> community res" where
  "new_community_pk url room pk = res_bind (new_community url room) (set_pubkey pk)"

definition new_community_encoded :: "encodings \<Rightarrow> string \<Rightarrow> string \<Rightarrow> string \<Rightarrow> community res" where
  "new_community_encoded enc url room pk = res_bind (new_community url room) (set_pubkey_encoded enc pk)"

definition full_url :: "encodings \<Rightarrow> string \<Rightarrow> string \<Rightarrow> bytes \<Rightarrow> string" where
  "full_url enc base_url room pk = base_url @ ''/'' @ room @ qs_pubkey @ to_hex enc pk"

text \<open>\<open>std::string_view::rfind\<close>: the position of the last occurrence.\<close>

fun rfind_sub :: "string \<Rightarrow> string \<Rightarrow> nat option" where
  "rfind_sub d [] = (if d = [] then Some 0 else None)"
| "rfind_sub d (c # s) =
     (case rfind_sub d s of
        Some i \<Rightarrow> Some (Suc i)
      | None \<Rightarrow> if take (length d) (c # s) = d then Some 0 else None)"

definition parse_partial_url :: "encodings \<Rightarrow> string \<Rightarrow> (string \<times> string \<times> bytes option) res" where
  "parse_partial_url enc url =
     res_bind
       (case rfind_sub qs_pubkey url of
          Some pos \<Rightarrow>
            res_bind (decode_pubkey enc (drop (pos + length qs_pubkey) url)) (\<lambda>pk. Inr (Some pk, take pos url))
        | None \<Rightarrow> Inr (None, url))
       (\<lambda>(maybe_pubkey, url).
          let (room_token, url) =
                (case rfind_sub ''/r/'' url of
                   Some pos \<Rightarrow> (drop (pos + 3) url, take pos url)
                 | None \<Rightarrow>
                     (case rfind_sub ''/'' url of
                        Some pos \<Rightarrow> (drop (pos + 1) url, take pos url)
                      | None \<Rightarrow> ([], url)))
          in res_bind (canonical_url url) (\<lambda>base_url. Inr (base_url, room_token, maybe_pubkey)))"

definition parse_full_url :: "encodings \<Rightarrow> string \<Rightarrow> (string \<times> string \<times> bytes) res" where
  "parse_full_url enc url =
     res_bind (parse_partial_url enc url) (\<lambda>(base, rm, maybe_pk).
       case maybe_pk of None \<Rightarrow> Inl Invalid_argument | Some pk \<Rightarrow> Inr (base, rm, pk))"

definition set_full_url :: "encodings \<Rightarrow> string \<Rightarrow> community \<Rightarrow> community res" where
  "set_full_url enc url c =
     res_bind (parse_full_url enc url) (\<lambda>(b_url, r_token, pk).
     res_bind (set_room r_token (c\<lparr> co_base_url := b_url \<rparr>)) (\<lambda>c.
       Inr (c\<lparr> co_pubkey := pk \<rparr>)))"

text \<open>
  \<open>comm_iterator_helper\<close>: all entries that \<open>load\<close> visits, in order. \<open>build\<close> constructs the entry from the
  community and its dict. Entries that do not have the right shape, or whose URL, room or pubkey is not
  valid, are skipped.
\<close>

definition room_entry :: "(community \<Rightarrow> dict \<Rightarrow> 'a res) \<Rightarrow> string \<Rightarrow> bytes \<Rightarrow> string \<times> dict_value \<Rightarrow> 'a list" where
  "room_entry build base_url pubkey kv =
     (case kv of
        (room, VDict d) \<Rightarrow>
          (case res_bind (set_base_url base_url no_community) (\<lambda>c.
                res_bind (set_room room c) (\<lambda>c. res_bind (set_pubkey pubkey c) (\<lambda>c. build c d))) of
             Inr x \<Rightarrow> [x]
           | Inl _ \<Rightarrow> [])
      | _ \<Rightarrow> [])"

definition server_entries :: "(community \<Rightarrow> dict \<Rightarrow> 'a res) \<Rightarrow> string \<times> dict_value \<Rightarrow> 'a list" where
  "server_entries build kv =
     (case kv of
        (base_url, VDict info) \<Rightarrow>
          (case (maybe_string info ''#'', map_of info ''R'') of
             (Some pubkey, Some (VDict rooms)) \<Rightarrow> concat (map (room_entry build base_url pubkey) rooms)
           | _ \<Rightarrow> [])
      | _ \<Rightarrow> [])"

definition community_entries :: "(community \<Rightarrow> dict \<Rightarrow> 'a res) \<Rightarrow> dict \<Rightarrow> 'a list" where
  "community_entries build servers = concat (map (server_entries build) servers)"

section \<open>Canonical URLs\<close>

lemma host_char_lower: "CHR ''A'' \<le> c \<Longrightarrow> c \<le> CHR ''Z'' \<Longrightarrow> host_char (lower c)"
  by (simp add: host_char_def lower_def is_dec_def less_eq_char_def)

definition stops :: "string \<Rightarrow> bool" where
  "stops rest \<longleftrightarrow> rest = [] \<or> hd rest = CHR '':''"

lemma parse_host_again:
  "parse_host url h d a = (host, has_dot, rest) \<Longrightarrow> stops rest' \<Longrightarrow>
   \<exists>added. host = h @ added \<and> parse_host (added @ rest') h d a = (host, has_dot, rest') \<and>
     (\<forall>c \<in> set added. host_char c \<or> c = CHR ''.'')"
proof (induction url h d a rule: parse_host.induct)
  case (1 h d a)
  then show ?case
    by (cases rest') (auto simp: stops_def host_char_def is_dec_def)
next
  case (2 c url h d a)
  have stop: "parse_host rest' h d a = (h, d, rest')"
    using 2(5) by (cases rest') (auto simp: stops_def host_char_def is_dec_def)
  consider (low) "host_char c" | (up) "\<not> host_char c" "CHR ''A'' \<le> c" "c \<le> CHR ''Z''"
    | (dot) "\<not> host_char c" "\<not> (CHR ''A'' \<le> c \<and> c \<le> CHR ''Z'')" "a \<and> c = CHR ''.''"
    | (other) "\<not> host_char c" "\<not> (CHR ''A'' \<le> c \<and> c \<le> CHR ''Z'')" "\<not> (a \<and> c = CHR ''.'')"
    by blast
  then show ?case
  proof cases
    case low
    then obtain added where "host = (h @ [c]) @ added" "parse_host (added @ rest') (h @ [c]) d True = (host, has_dot, rest')"
      "\<forall>c \<in> set added. host_char c \<or> c = CHR ''.''"
      using 2(1,4,5) by auto
    with low show ?thesis by (intro exI [of _ "c # added"]) auto
  next
    case up
    then obtain added where "host = (h @ [lower c]) @ added"
      "parse_host (added @ rest') (h @ [lower c]) d True = (host, has_dot, rest')"
      "\<forall>c \<in> set added. host_char c \<or> c = CHR ''.''"
      using 2(2,4,5) by auto
    with host_char_lower [OF up(2,3)] show ?thesis by (intro exI [of _ "lower c # added"]) auto
  next
    case dot
    then obtain added where "host = (h @ [c]) @ added" "parse_host (added @ rest') (h @ [c]) True False = (host, has_dot, rest')"
      "\<forall>c \<in> set added. host_char c \<or> c = CHR ''.''"
      using 2(3,4,5) by auto
    with dot show ?thesis by (intro exI [of _ "c # added"]) (auto simp: host_char_def is_dec_def)
  next
    case other
    then have "host = h" "has_dot = d" using 2(4) by auto
    with stop show ?thesis by (intro exI [of _ "[]"]) simp
  qed
qed

lemma decimal_digit:
  fixes n :: nat
  shows "n < 10 \<Longrightarrow> is_dec (char_of (48 + n)) \<and> of_char (char_of (48 + n) :: char) = 48 + n"
  by (simp add: is_dec_def less_eq_char_def)

lemma decimal_all_dec: "c \<in> set (decimal n) \<Longrightarrow> is_dec c"
proof (induction n rule: decimal.induct)
  case (1 n)
  then show ?case
    by (subst (asm) (2) decimal.simps) (auto split: if_splits simp: decimal_digit)
qed

lemma decimal_plain: "c \<in> set (decimal n) \<Longrightarrow> c \<noteq> CHR ''/'' \<and> c \<noteq> CHR ''?'' \<and> c \<noteq> CHR 0x00"
  using decimal_all_dec [of c n] by (auto simp: is_dec_def less_eq_char_def)

lemma decimal_not_Nil [simp]: "decimal n \<noteq> []"
  by (subst decimal.simps) simp

lemma read_digits_append:
  "\<forall>c \<in> set s. is_dec c \<Longrightarrow> read_digits a (s @ t) = (case read_digits a s of (n, _) \<Rightarrow> read_digits n t)"
  by (induction s arbitrary: a) auto

lemma read_digits_decimal: "read_digits 0 (decimal n) = (n, [])"
proof (induction n rule: decimal.induct)
  case (1 n)
  show ?case
  proof (cases "n < 10")
    case True
    then show ?thesis using decimal_digit [of n] by (subst decimal.simps) simp
  next
    case False
    have "read_digits 0 (decimal n) = read_digits 0 (decimal (n div 10) @ [char_of (48 + n mod 10)])"
      using False by (subst decimal.simps) simp
    also have "\<dots> = read_digits (n div 10) [char_of (48 + n mod 10)]"
      using read_digits_append [of "decimal (n div 10)"] decimal_all_dec 1 False by simp
    also have "\<dots> = (n, [])" using decimal_digit [of "n mod 10"] by simp
    finally show ?thesis .
  qed
qed

lemma from_chars_decimal: "n < 65536 \<Longrightarrow> from_chars_u16 (decimal n) = Some (n, [])"
  using decimal_all_dec [of "hd (decimal n)" n] by (simp add: from_chars_u16_def read_digits_decimal)

lemma parse_proto_canonical:
  "proto \<in> {''http://'', ''https://''} \<Longrightarrow> parse_proto (proto @ s) = Inr (proto, s)"
  by (auto simp: parse_proto_def string_iequal_def lower_def)

text \<open>The text that a canonical URL ends with.\<close>

definition port_text :: "nat option \<Rightarrow> string" where
  "port_text port = (case port of Some p \<Rightarrow> CHR '':'' # decimal p | None \<Rightarrow> [])"

definition port_ok :: "string \<Rightarrow> nat option \<Rightarrow> bool" where
  "port_ok proto port \<longleftrightarrow> (\<forall>p. port = Some p \<longrightarrow> p < 65536 \<and>
     \<not> (p = 80 \<and> proto = ''http://'') \<and> \<not> (p = 443 \<and> proto = ''https://''))"

lemma stops_port [simp]: "stops (port_text port)"
  by (simp add: stops_def port_text_def split: option.split)

lemma parse_url_shape:
  assumes "parse_url url = Inr (proto, host, port, path)"
  shows "proto \<in> {''http://'', ''https://''} \<and> port_ok proto port \<and> 4 \<le> length host \<and>
     last host \<noteq> CHR ''.'' \<and> (\<forall>c \<in> set host. host_char c \<or> c = CHR ''.'') \<and>
     (\<forall>rest'. stops rest' \<longrightarrow> parse_host (host @ rest') [] False False = (host, True, rest'))"
proof -
  obtain pr u where pu: "parse_proto url = Inr (pr, u)"
    using assms by (cases "parse_proto url") (auto simp: parse_url_def)
  obtain host' has_dot rest where h: "parse_host u [] False False = (host', has_dot, rest)" using prod_cases3 by blast
  have u: "parse_proto url = Inr (proto, u)"
    using assms pu h by (auto simp: parse_url_def res_bind_eq_Inr split: if_splits option.splits)
  have proto: "proto \<in> {''http://'', ''https://''}"
    using u by (auto simp: parse_proto_def Let_def split: option.splits if_splits)
  have r: "host' = host" "has_dot" "4 \<le> length host" "last host \<noteq> CHR ''.''" "port_ok proto port"
    using assms u h
    by (auto simp: parse_url_def res_bind_eq_Inr from_chars_u16_def port_ok_def split: if_splits option.splits prod.splits)
  have again: "\<exists>added. host = [] @ added \<and> parse_host (added @ rest') [] False False = (host, has_dot, rest') \<and>
      (\<forall>c \<in> set added. host_char c \<or> c = CHR ''.'')" if "stops rest'" for rest'
    using parse_host_again [OF h [unfolded r(1)] that] .
  have "\<forall>c \<in> set host. host_char c \<or> c = CHR ''.''" using again [of "[]"] by (auto simp: stops_def)
  moreover have "parse_host (host @ rest') [] False False = (host, True, rest')" if "stops rest'" for rest'
    using again [OF that] r(2) by auto
  ultimately show ?thesis using proto r by blast
qed

lemma parse_url_canonical:
  assumes "parse_url url = Inr (proto, host, port, path)"
  shows "parse_url (proto @ host @ port_text port) = Inr (proto, host, port, None)"
proof -
  note shape = parse_url_shape [OF assms]
  have "parse_proto (proto @ host @ port_text port) = Inr (proto, host @ port_text port)"
    using parse_proto_canonical shape by blast
  moreover have "parse_host (host @ port_text port) [] False False = (host, True, port_text port)"
    using shape stops_port by blast
  ultimately show ?thesis
    using shape by (cases port) (auto simp: parse_url_def port_text_def from_chars_decimal port_ok_def)
qed

lemma canonical_url_shape:
  assumes "canonical_url url = Inr v"
  shows "\<exists>proto h. v = proto @ h \<and> proto \<in> {''http://'', ''https://''} \<and> CHR ''/'' \<notin> set h \<and>
     CHR ''?'' \<notin> set h \<and> 4 \<le> length h \<and> canonical_url v = Inr v \<and> CHR 0x00 \<notin> set v \<and> length v \<le> BASE_URL_MAX_LENGTH"
proof -
  obtain proto host port path where p: "parse_url url = Inr (proto, host, port, path)"
    and v: "v = proto @ host @ port_text port" "length v \<le> BASE_URL_MAX_LENGTH"
    using assms by (auto simp: canonical_url_def res_bind_eq_Inr Let_def port_text_def split: if_splits)
  note shape = parse_url_shape [OF p]
  have "canonical_url v = Inr v"
    using parse_url_canonical [OF p] v by (simp add: canonical_url_def port_text_def)
  moreover have "c \<noteq> CHR ''/'' \<and> c \<noteq> CHR ''?'' \<and> c \<noteq> CHR 0x00" if "c \<in> set (host @ port_text port)" for c
    using that shape
    by (auto simp: port_text_def host_char_def is_dec_def less_eq_char_def split: option.splits dest: decimal_plain)
  moreover have "CHR 0x00 \<notin> set proto" using shape by auto
  ultimately show ?thesis
    using v shape by (intro exI [of _ proto] exI [of _ "host @ port_text port"]) fastforce
qed

section \<open>Full URLs\<close>

lemma rfind_absent: "d \<noteq> [] \<Longrightarrow> hd d \<notin> set s \<Longrightarrow> rfind_sub d s = None"
  by (induction s) (cases d; auto)+

lemma rfind_skip: "rfind_sub d s = Some i \<Longrightarrow> rfind_sub d (x @ s) = Some (length x + i)"
  by (induction x) auto

lemma rfind_last:
  assumes "d \<noteq> []" "hd d \<notin> set (tl d @ t)"
  shows "rfind_sub d (x @ d @ t) = Some (length x)"
proof -
  have "rfind_sub d (d @ t) = Some 0"
    using assms rfind_absent [of d "tl d @ t"] by (cases d) auto
  then show ?thesis using rfind_skip by fastforce
qed

lemma rfind_no_separator:
  assumes "CHR ''/'' \<notin> set h" "2 \<le> length h" "CHR ''/'' \<notin> set room" "proto \<in> {''http://'', ''https://''}"
  shows "rfind_sub ''/r/'' (proto @ h @ CHR ''/'' # room) = None"
proof -
  have room: "rfind_sub ''/r/'' room = None" using assms(3) by (intro rfind_absent) auto
  have "take 2 room \<noteq> ''r/''"
  proof
    assume "take 2 room = ''r/''"
    then have "CHR ''/'' \<in> set (take 2 room)" by simp
    then show False using assms(3) in_set_takeD by fast
  qed
  then have slash: "rfind_sub ''/r/'' (CHR ''/'' # room) = None"
    using room by (simp add: numeral_3_eq_3 numeral_2_eq_2)
  have h: "rfind_sub ''/r/'' (h @ CHR ''/'' # room) = None"
    using assms(1) slash by (induction h) auto
  obtain c1 c2 h' where "h = c1 # c2 # h'" using assms(2) by (cases h; cases "tl h") auto
  then have "rfind_sub ''/r/'' (CHR ''/'' # h @ CHR ''/'' # room) = None" using h assms(1) by auto
  then show ?thesis using assms(4) by auto
qed

lemma make_lc_char: "CHR ''A'' \<le> c \<Longrightarrow> c \<le> CHR ''Z'' \<Longrightarrow> c \<noteq> CHR ''/'' \<and> c \<noteq> CHR ''?'' \<and> c \<noteq> CHR 0x00"
  by (auto simp: less_eq_char_def)

lemma canonical_room_plain:
  assumes "canonical_room room = Inr r"
  shows "CHR ''/'' \<notin> set room" "CHR ''?'' \<notin> set room" "CHR 0x00 \<notin> set room" "length room \<le> ROOM_MAX_LENGTH"
proof -
  have sub: "set (make_lc room) \<subseteq> set room_chars"
    using assms by (auto simp: canonical_room_def Let_def split: if_splits)
  have "c \<in> set room \<Longrightarrow> c \<in> set room_chars \<or> (CHR ''A'' \<le> c \<and> c \<le> CHR ''Z'')" for c
    using sub by (auto simp: make_lc_def split: if_splits)
  then show "CHR ''/'' \<notin> set room" "CHR ''?'' \<notin> set room" "CHR 0x00 \<notin> set room"
    using make_lc_char by (auto simp: room_chars_def)
  show "length room \<le> ROOM_MAX_LENGTH"
    using assms by (auto simp: canonical_room_def Let_def make_lc_def split: if_splits)
qed

lemma parse_pieces:
  assumes "canonical_url base = Inr base" "CHR ''/'' \<notin> set room"
    and "decode_pubkey enc (to_hex enc pk) = Inr pk" "CHR ''?'' \<notin> set (to_hex enc pk)"
  shows "parse_full_url enc (full_url enc base room pk) = Inr (base, room, pk)"
proof -
  obtain proto h where base: "base = proto @ h" "proto \<in> {''http://'', ''https://''}" "CHR ''/'' \<notin> set h"
    "4 \<le> length h"
    using canonical_url_shape [OF assms(1)] by blast
  have url: "full_url enc base room pk = (base @ CHR ''/'' # room) @ qs_pubkey @ to_hex enc pk"
    by (simp add: full_url_def)
  have pos: "rfind_sub qs_pubkey (full_url enc base room pk) = Some (length (base @ CHR ''/'' # room))"
    unfolding url using assms(4) by (intro rfind_last) (auto simp: qs_pubkey_def)
  have parts: "drop (length (base @ CHR ''/'' # room) + length qs_pubkey) (full_url enc base room pk) = to_hex enc pk"
    "take (length (base @ CHR ''/'' # room)) (full_url enc base room pk) = base @ CHR ''/'' # room"
    unfolding url by simp_all
  have r1: "rfind_sub ''/r/'' (base @ CHR ''/'' # room) = None"
    using rfind_no_separator [OF base(3) _ assms(2) base(2)] base(1,4) by simp
  have r2: "rfind_sub ''/'' (base @ CHR ''/'' # room) = Some (length base)"
    using rfind_last [of "''/''" room base] assms(2) by simp
  have "parse_partial_url enc (full_url enc base room pk) = Inr (base, room, Some pk)"
    using assms(1,3) by (simp add: parse_partial_url_def pos parts r1 r2 del: length_append)
  then show ?thesis by (simp add: parse_full_url_def)
qed

text \<open>
  Canonicalizing a server URL is idempotent, and a full URL built from a canonical server URL, a valid
  room token in any spelling and a pubkey parses back into exactly these three.
\<close>

theorem full_url_round_trip:
  assumes "canonical_url url = Inr base" "canonical_room room = Inr r"
    and "decode_pubkey enc (to_hex enc pk) = Inr pk" "CHR ''?'' \<notin> set (to_hex enc pk)"
  shows "canonical_url base = Inr base \<and> parse_full_url enc (full_url enc base room pk) = Inr (base, room, pk)"
  using canonical_url_shape [OF assms(1)] parse_pieces [OF _ canonical_room_plain(1) [OF assms(2)] assms(3,4)] by blast

text \<open>
  \<open>parse_full_url\<close> does not check the room token, so a URL with a token longer than
  \<open>ROOM_MAX_LENGTH\<close> parses. The C function that copies the token into a buffer of \<open>ROOM_MAX_LENGTH + 1\<close>
  bytes relies on an assertion that is absent from release builds.
\<close>

theorem parse_full_url_long_room:
  assumes "decode_pubkey enc (to_hex enc pk) = Inr pk" "CHR ''?'' \<notin> set (to_hex enc pk)"
  shows "parse_full_url enc (full_url enc ''http://example.com'' (replicate n (CHR ''x'')) pk) =
     Inr (''http://example.com'', replicate n (CHR ''x''), pk)"
proof (rule parse_pieces [OF _ _ assms])
  show "canonical_url ''http://example.com'' = Inr ''http://example.com''" by code_simp
qed simp

end
