(* ===== verification/Convo_Volatile.thy ===== *)
theory Convo_Volatile
  imports Community
begin

text \<open>
  The volatile conversation info (\<open>src/src/config/convo_info_volatile.cpp\<close>): the last-read time and
  unread flag of one-to-one conversations (\<open>data["1"]\<close>), communities (\<open>data["o"]\<close>), groups (\<open>data["g"]\<close>)
  and legacy groups (\<open>data["C"]\<close>). Old values are not stored, and stale conversations are pruned on
  every push. Times are milliseconds; the current time is an argument.
\<close>

section \<open>Conversations\<close>

record convo_base =
  last_read :: int
  unread :: bool

record one_to_one = convo_base +
  session_id :: string

record convo_community = convo_base +
  convo_comm :: community

record convo_group = convo_base +
  group_id :: string

record convo_legacy_group = convo_base +
  legacy_id :: string

definition PRUNE_LOW :: int where "PRUNE_LOW = 30 * 24 * 3600 * 1000"
definition PRUNE_HIGH :: int where "PRUNE_HIGH = 45 * 24 * 3600 * 1000"

definition new_1to1 :: "encodings \<Rightarrow> string \<Rightarrow> one_to_one res" where
  "new_1to1 enc sid =
     res_bind (check_session_id enc sid ''05'') (\<lambda>_. Inr \<lparr> last_read = 0, unread = False, session_id = sid \<rparr>)"

definition new_group :: "encodings \<Rightarrow> string \<Rightarrow> convo_group res" where
  "new_group enc cgid =
     res_bind (check_session_id enc cgid ''03'') (\<lambda>_. Inr \<lparr> last_read = 0, unread = False, group_id = cgid \<rparr>)"

definition new_legacy_group :: "encodings \<Rightarrow> string \<Rightarrow> convo_legacy_group res" where
  "new_legacy_group enc cgid =
     res_bind (check_session_id enc cgid ''05'') (\<lambda>_. Inr \<lparr> last_read = 0, unread = False, legacy_id = cgid \<rparr>)"

definition convo_of :: "community \<Rightarrow> convo_community" where
  "convo_of c = \<lparr> last_read = 0, unread = False, convo_comm = c \<rparr>"

definition load_base :: "dict \<Rightarrow> 'a convo_base_scheme \<Rightarrow> 'a convo_base_scheme" where
  "load_base d c = c\<lparr> last_read := int_field d ''r'', unread := (int_field d ''u'' \<noteq> 0) \<rparr>"

section \<open>Fetching\<close>

definition get_1to1 :: "encodings \<Rightarrow> string \<Rightarrow> config_base \<Rightarrow> one_to_one option res" where
  "get_1to1 enc sid b =
     res_bind (session_id_to_bytes enc sid ''05'') (\<lambda>pk.
       case get_dict [''1''] pk b of
         None \<Rightarrow> Inr None
       | Some d \<Rightarrow> res_bind (new_1to1 enc sid) (\<lambda>c. Inr (Some (load_base d c))))"

definition get_or_construct_1to1 :: "encodings \<Rightarrow> string \<Rightarrow> config_base \<Rightarrow> one_to_one res" where
  "get_or_construct_1to1 enc sid b =
     res_bind (get_1to1 enc sid b) (\<lambda>m. case m of Some c \<Rightarrow> Inr c | None \<Rightarrow> new_1to1 enc sid)"

text \<open>\<open>community_field\<close>: the path of the room's dict, and the server's pubkey when it has 32 bytes.\<close>

definition community_path :: "community \<Rightarrow> string list" where
  "community_path c = [''o'', co_base_url c, ''R'']"

definition stored_pubkey :: "community \<Rightarrow> config_base \<Rightarrow> bytes" where
  "stored_pubkey c b =
     (let pk = string_or [] (get_string [''o'', co_base_url c] ''#'' b) in if length pk = 32 then pk else [])"

definition get_community :: "string \<Rightarrow> string \<Rightarrow> config_base \<Rightarrow> convo_community option res" where
  "get_community url room b =
     res_bind (canonical_room room) (\<lambda>room.
     res_bind (new_community url room) (\<lambda>og.
       case get_dict (community_path og) (co_room_norm og) b of
         None \<Rightarrow> Inr None
       | Some d \<Rightarrow>
           let c = load_base d (convo_of og); pk = stored_pubkey og b in
           if pk = [] then Inr (Some c)
           else res_bind (set_pubkey pk og) (\<lambda>og. Inr (Some (c\<lparr> convo_comm := og \<rparr>)))))"

definition get_community_url :: "encodings \<Rightarrow> string \<Rightarrow> config_base \<Rightarrow> convo_community option res" where
  "get_community_url enc partial_url b =
     res_bind (parse_partial_url enc partial_url) (\<lambda>(base, room, _). get_community base room b)"

definition load_community :: "community \<Rightarrow> config_base \<Rightarrow> convo_community" where
  "load_community c b =
     (case get_dict (community_path c) (co_room_norm c) b of
        Some d \<Rightarrow> load_base d (convo_of c)
      | None \<Rightarrow> convo_of c)"

definition get_or_construct_community :: "string \<Rightarrow> string \<Rightarrow> bytes \<Rightarrow> config_base \<Rightarrow> convo_community res" where
  "get_or_construct_community url room pk b =
     res_bind (canonical_room room) (\<lambda>room.
     res_bind (new_community_pk url room pk) (\<lambda>c. Inr (load_community c b)))"

definition get_or_construct_community_url :: "encodings \<Rightarrow> string \<Rightarrow> config_base \<Rightarrow> convo_community res" where
  "get_or_construct_community_url enc url b =
     res_bind (parse_full_url enc url) (\<lambda>(base, room, pk). get_or_construct_community base room pk b)"

definition get_or_construct_community_encoded ::
  "encodings \<Rightarrow> string \<Rightarrow> string \<Rightarrow> string \<Rightarrow> config_base \<Rightarrow> convo_community res" where
  "get_or_construct_community_encoded enc url room pk b =
     res_bind (new_community_encoded enc url room pk) (\<lambda>c. Inr (load_community c b))"

definition get_group :: "encodings \<Rightarrow> string \<Rightarrow> config_base \<Rightarrow> convo_group option res" where
  "get_group enc cgid b =
     res_bind (session_id_to_bytes enc cgid ''03'') (\<lambda>pk.
       case get_dict [''g''] pk b of
         None \<Rightarrow> Inr None
       | Some d \<Rightarrow> res_bind (new_group enc cgid) (\<lambda>c. Inr (Some (load_base d c))))"

definition get_or_construct_group :: "encodings \<Rightarrow> string \<Rightarrow> config_base \<Rightarrow> convo_group res" where
  "get_or_construct_group enc cgid b =
     res_bind (get_group enc cgid b) (\<lambda>m. case m of Some c \<Rightarrow> Inr c | None \<Rightarrow> new_group enc cgid)"

definition get_legacy_group :: "encodings \<Rightarrow> string \<Rightarrow> config_base \<Rightarrow> convo_legacy_group option res" where
  "get_legacy_group enc cgid b =
     res_bind (session_id_to_bytes enc cgid ''05'') (\<lambda>pk.
       case get_dict [''C''] pk b of
         None \<Rightarrow> Inr None
       | Some d \<Rightarrow> res_bind (new_legacy_group enc cgid) (\<lambda>c. Inr (Some (load_base d c))))"

definition get_or_construct_legacy_group :: "encodings \<Rightarrow> string \<Rightarrow> config_base \<Rightarrow> convo_legacy_group res" where
  "get_or_construct_legacy_group enc cgid b =
     res_bind (get_legacy_group enc cgid b) (\<lambda>m. case m of Some c \<Rightarrow> Inr c | None \<Rightarrow> new_legacy_group enc cgid)"

section \<open>Storing\<close>

text \<open>\<open>set_base\<close> below the path of the conversation: a value that is older than the stored one is always
  written, a newer one only when it is recent.\<close>

definition set_base :: "env \<Rightarrow> int \<Rightarrow> string list \<Rightarrow> int \<Rightarrow> bool \<Rightarrow> config_base \<Rightarrow> config_base res" where
  "set_base e now info lr unr b =
     res_bind
       (if (case get_integer info ''r'' b of Some v \<Rightarrow> lr < v | None \<Rightarrow> False) \<or> lr > now - PRUNE_LOW
        then assign_if_changed e info ''r'' (VScalar (SInt lr)) b
        else Inr b)
       (set_flag e info ''u'' unr)"

definition set_1to1 :: "env \<Rightarrow> encodings \<Rightarrow> int \<Rightarrow> one_to_one \<Rightarrow> config_base \<Rightarrow> config_base res" where
  "set_1to1 e enc now c b =
     res_bind (session_id_to_bytes enc (session_id c) ''05'') (\<lambda>pk.
       set_base e now [''1'', pk] (last_read c) (unread c) b)"

definition set_community :: "env \<Rightarrow> int \<Rightarrow> convo_community \<Rightarrow> config_base \<Rightarrow> config_base res" where
  "set_community e now c b =
     (let co = convo_comm c in
      res_bind (assign_if_changed e [''o'', co_base_url co] ''#'' (VScalar (SStr (co_pubkey co))) b)
        (set_base e now (community_path co @ [co_room_norm co]) (last_read c) (unread c)))"

definition set_group :: "env \<Rightarrow> encodings \<Rightarrow> int \<Rightarrow> convo_group \<Rightarrow> config_base \<Rightarrow> config_base res" where
  "set_group e enc now c b =
     res_bind (session_id_to_bytes enc (group_id c) ''03'') (\<lambda>pk.
       set_base e now [''g'', pk] (last_read c) (unread c) b)"

definition set_legacy_group :: "env \<Rightarrow> encodings \<Rightarrow> int \<Rightarrow> convo_legacy_group \<Rightarrow> config_base \<Rightarrow> config_base res" where
  "set_legacy_group e enc now c b =
     res_bind (session_id_to_bytes enc (legacy_id c) ''05'') (\<lambda>pk.
       set_base e now [''C'', pk] (last_read c) (unread c) b)"

section \<open>Erasing\<close>

definition erase_impl :: "env \<Rightarrow> string list \<Rightarrow> string \<Rightarrow> config_base \<Rightarrow> (bool \<times> config_base) res" where
  "erase_impl e path k b =
     (let ret = (get_clean path k b \<noteq> None) in
      res_bind (erase_field e path k b) (\<lambda>b. Inr (ret, b)))"

definition erase_1to1 :: "env \<Rightarrow> encodings \<Rightarrow> string \<Rightarrow> config_base \<Rightarrow> (bool \<times> config_base) res" where
  "erase_1to1 e enc sid b =
     res_bind (session_id_to_bytes enc sid ''05'') (\<lambda>pk. erase_impl e [''1''] pk b)"

definition erase_community_entry :: "env \<Rightarrow> community \<Rightarrow> config_base \<Rightarrow> (bool \<times> config_base) res" where
  "erase_community_entry e c b =
     res_bind (erase_impl e (community_path c) (co_room_norm c) b) (\<lambda>(gone, b).
       if gone \<and> (case get_dict [''o'', co_base_url c] ''R'' b of None \<Rightarrow> True | Some rd \<Rightarrow> rd = []) then
         res_bind (erase_field e [''o'', co_base_url c] ''R'' b) (\<lambda>b.
         res_bind (erase_field e [''o''] (co_base_url c) b) (\<lambda>b. Inr (gone, b)))
       else Inr (gone, b))"

definition erase_community :: "env \<Rightarrow> string \<Rightarrow> string \<Rightarrow> config_base \<Rightarrow> (bool \<times> config_base) res" where
  "erase_community e url room b = res_bind (new_community url room) (\<lambda>c. erase_community_entry e c b)"

definition erase_group :: "env \<Rightarrow> encodings \<Rightarrow> string \<Rightarrow> config_base \<Rightarrow> (bool \<times> config_base) res" where
  "erase_group e enc cgid b =
     res_bind (session_id_to_bytes enc cgid ''03'') (\<lambda>pk. erase_impl e [''g''] pk b)"

definition erase_legacy_group :: "env \<Rightarrow> encodings \<Rightarrow> string \<Rightarrow> config_base \<Rightarrow> (bool \<times> config_base) res" where
  "erase_legacy_group e enc cgid b =
     res_bind (session_id_to_bytes enc cgid ''05'') (\<lambda>pk. erase_impl e [''C''] pk b)"

section \<open>Sizes and iteration\<close>

definition dict_count :: "string \<Rightarrow> config_base \<Rightarrow> nat" where
  "dict_count k b = (case get_dict [] k b of Some d \<Rightarrow> length d | None \<Rightarrow> 0)"

definition size_communities :: "config_base \<Rightarrow> nat" where
  "size_communities b =
     (case get_dict [] ''o'' b of
        None \<Rightarrow> 0
      | Some servers \<Rightarrow> sum_list (map (\<lambda>(url, info).
          if get_string [''o'', url] ''#'' b = None then 0
          else (case get_dict [''o'', url] ''R'' b of Some rd \<Rightarrow> length rd | None \<Rightarrow> 0)) servers))"

definition convo_size :: "config_base \<Rightarrow> nat" where
  "convo_size b = dict_count ''1'' b + size_communities b + dict_count ''C'' b + dict_count ''g'' b"

text \<open>\<open>val_loader\<close>: the entries with a 33-byte key of the right prefix and a dict.\<close>

fun val_entries :: "(string \<Rightarrow> 'a convo_base_scheme res) \<Rightarrow> encodings \<Rightarrow> char \<Rightarrow> dict \<Rightarrow> 'a convo_base_scheme list res" where
  "val_entries mk enc pre [] = Inr []"
| "val_entries mk enc pre ((k, v) # it) =
     (case v of
        VDict d \<Rightarrow>
          if length k = 33 \<and> hd k = pre then
            res_bind (mk (to_hex enc k)) (\<lambda>c.
            res_bind (val_entries mk enc pre it) (\<lambda>cs. Inr (load_base d c # cs)))
          else val_entries mk enc pre it
      | _ \<Rightarrow> val_entries mk enc pre it)"

definition dict_or_empty :: "string \<Rightarrow> config_base \<Rightarrow> dict" where
  "dict_or_empty k b = (case get_dict [] k b of Some d \<Rightarrow> d | None \<Rightarrow> [])"

definition all_1to1 :: "encodings \<Rightarrow> config_base \<Rightarrow> one_to_one list res" where
  "all_1to1 enc b = val_entries (new_1to1 enc) enc (CHR 0x05) (dict_or_empty ''1'' b)"

definition all_groups :: "encodings \<Rightarrow> config_base \<Rightarrow> convo_group list res" where
  "all_groups enc b = val_entries (new_group enc) enc (CHR 0x03) (dict_or_empty ''g'' b)"

definition all_legacy_groups :: "encodings \<Rightarrow> config_base \<Rightarrow> convo_legacy_group list res" where
  "all_legacy_groups enc b = val_entries (new_legacy_group enc) enc (CHR 0x05) (dict_or_empty ''C'' b)"

definition all_communities :: "config_base \<Rightarrow> convo_community list" where
  "all_communities b = community_entries (\<lambda>c d. Inr (load_base d (convo_of c))) (dict_or_empty ''o'' b)"

datatype convo_any = Any_1to1 one_to_one | Any_group convo_group | Any_community convo_community | Any_legacy convo_legacy_group

definition all_convos :: "encodings \<Rightarrow> config_base \<Rightarrow> convo_any list res" where
  "all_convos enc b =
     res_bind (all_1to1 enc b) (\<lambda>os.
     res_bind (all_groups enc b) (\<lambda>gs.
     res_bind (all_legacy_groups enc b) (\<lambda>ls.
       Inr (map Any_1to1 os @ map Any_group gs @ map Any_community (all_communities b) @ map Any_legacy ls))))"

section \<open>Pruning and pushing\<close>

definition stale :: "int \<Rightarrow> 'a convo_base_scheme \<Rightarrow> bool" where
  "stale cutoff c \<longleftrightarrow> \<not> unread c \<and> last_read c < cutoff"

definition drop_flag :: "(bool \<times> config_base) res \<Rightarrow> config_base res" where
  "drop_flag r = res_bind r (\<lambda>(_, b). Inr b)"

definition prune_stale :: "env \<Rightarrow> encodings \<Rightarrow> int \<Rightarrow> int \<Rightarrow> config_base \<Rightarrow> config_base res" where
  "prune_stale e enc now prune b =
     (let cutoff = now - prune in
      res_bind (all_1to1 enc b) (\<lambda>os.
      res_bind (res_fold (\<lambda>c b. drop_flag (erase_1to1 e enc (session_id c) b)) (filter (stale cutoff) os) b) (\<lambda>b.
      res_bind (all_legacy_groups enc b) (\<lambda>ls.
      res_bind (res_fold (\<lambda>c b. drop_flag (erase_legacy_group e enc (legacy_id c) b)) (filter (stale cutoff) ls) b) (\<lambda>b.
        res_fold (\<lambda>c b. drop_flag (erase_community e (co_base_url (convo_comm c)) (co_room (convo_comm c)) b))
          (filter (stale cutoff) (all_communities b)) b)))))"

definition convo_push ::
  "env \<Rightarrow> encodings \<Rightarrow> int \<Rightarrow> config_base \<Rightarrow> ((int \<times> bytes list \<times> string list) \<times> config_base) res" where
  "convo_push e enc now b = res_bind (prune_stale e enc now PRUNE_HIGH b) (push e now)"

section \<open>Storing and fetching a conversation\<close>

definition convo_fields :: "int \<Rightarrow> bool \<Rightarrow> (string \<times> dict_value option) list" where
  "convo_fields lr unr = [(''r'', Some (VScalar (SInt lr))), (''u'', if unr then Some (VScalar (SInt 1)) else None)]"

lemma set_base_recent:
  "now - PRUNE_LOW < lr \<Longrightarrow> set_base e now info lr unr b = res_fold (write_field e info) (convo_fields lr unr) b"
  by (simp add: set_base_def convo_fields_def field_writes split del: if_split)

lemma load_base_fields:
  assumes "\<forall>i vo. map_of (convo_fields (last_read c) (unread c)) i = Some vo \<longrightarrow> map_of d i = vo"
  shows "load_base d c0 = c0\<lparr> last_read := last_read c, unread := unread c \<rparr>"
proof -
  have "map_of d ''r'' = Some (VScalar (SInt (last_read c)))"
    "map_of d ''u'' = (if unread c then Some (VScalar (SInt 1)) else None)"
    using assms by (simp_all add: convo_fields_def)
  then show ?thesis by (simp add: load_base_def int_field_def maybe_int_def integer_or_def)
qed

text \<open>
  A one-to-one conversation that was read recently is stored and fetched unchanged, and every
  conversation whose id has other bytes reads as before. One that was not read within \<open>PRUNE_LOW\<close> and is
  not marked unread is not added at all.
\<close>

theorem set_get_1to1:
  assumes "editable e b" "base_inv b" "check_session_id enc (session_id c) ''05'' = Inr ()" "in_i64 (last_read c)"
  shows "(now - PRUNE_LOW < last_read c \<longrightarrow>
       (\<exists>b'. set_1to1 e enc now c b = Inr b' \<and> get_1to1 enc (session_id c) b' = Inr (Some c) \<and>
         (\<forall>sid. from_hex enc sid \<noteq> from_hex enc (session_id c) \<longrightarrow> get_1to1 enc sid b' = get_1to1 enc sid b))) \<and>
     (last_read c \<le> now - PRUNE_LOW \<and> \<not> unread c \<and> get_clean [''1''] (from_hex enc (session_id c)) b = None \<and>
        \<not> is_dirty b \<longrightarrow> set_1to1 e enc now c b = Inr b)"
proof (intro conjI impI)
  let ?pk = "from_hex enc (session_id c)" and ?fs = "convo_fields (last_read c) (unread c)"
  have pk: "session_id_to_bytes enc (session_id c) ''05'' = Inr ?pk" using assms(3) by (rule session_id_bytes)
  have fs: "\<forall>kv \<in> set ?fs. pred_option field_value_ok (snd kv)" "distinct (map fst ?fs)"
    "map_of ?fs ''r'' = Some (Some (VScalar (SInt (last_read c))))"
    using assms(4) by (simp_all add: convo_fields_def)
  {
    assume recent: "now - PRUNE_LOW < last_read c"
    obtain b' d where b': "res_fold (write_field e ([''1''] @ [?pk])) ?fs b = Inr b'"
      "get_dict [''1''] ?pk b' = Some d" "\<forall>i vo. map_of ?fs i = Some vo \<longrightarrow> map_of d i = vo"
      "\<forall>i. i \<noteq> ?pk \<longrightarrow> get_clean [''1''] i b' = get_clean [''1''] i b"
      using entry_written [OF assms(1,2) fs] by blast
    have "set_1to1 e enc now c b = Inr b'"
      using b'(1) set_base_recent [OF recent] pk by (simp add: set_1to1_def)
    moreover have "get_1to1 enc (session_id c) b' = Inr (Some c)"
      using b'(2) pk assms(3) load_base_fields [OF b'(3), of "\<lparr> last_read = 0, unread = False, session_id = session_id c \<rparr>"]
      by (simp add: get_1to1_def new_1to1_def)
    moreover have "get_1to1 enc sid b' = get_1to1 enc sid b" if "from_hex enc sid \<noteq> ?pk" for sid
      using b'(4) that by (simp add: get_1to1_def get_dict_def session_id_to_bytes_def)
    ultimately show "\<exists>b'. set_1to1 e enc now c b = Inr b' \<and> get_1to1 enc (session_id c) b' = Inr (Some c) \<and>
        (\<forall>sid. from_hex enc sid \<noteq> ?pk \<longrightarrow> get_1to1 enc sid b' = get_1to1 enc sid b)" by blast
  }
  assume old: "last_read c \<le> now - PRUNE_LOW \<and> \<not> unread c \<and> get_clean [''1''] ?pk b = None \<and> \<not> is_dirty b"
  have none: "get_clean [''1'', ?pk] i b = None" for i
    using old by (auto simp: get_clean_def get_path_def split: option.splits dict_value.splits)
  then have "get_integer [''1'', ?pk] ''r'' b = None" by (simp add: get_integer_def)
  then show "set_1to1 e enc now c b = Inr b"
    using old none pk by (simp add: set_1to1_def set_base_def set_flag_def erase_field_def)
qed

section \<open>Pruning\<close>

definition entry_of :: "char \<Rightarrow> string \<times> dict_value \<Rightarrow> bool" where
  "entry_of pre kv \<longleftrightarrow> length (fst kv) = 33 \<and> hd (fst kv) = pre \<and> (\<exists>d. snd kv = VDict d)"

definition dict_of :: "dict_value \<Rightarrow> dict" where
  "dict_of v = (case v of VDict d \<Rightarrow> d | _ \<Rightarrow> [])"

lemma val_entries_ok:
  assumes "\<And>k. length k = 33 \<Longrightarrow> hd k = pre \<Longrightarrow> mk (to_hex enc k) = Inr (c0 k)"
  shows "val_entries mk enc pre d = Inr (map (\<lambda>(k, v). load_base (dict_of v) (c0 k)) (filter (entry_of pre) d))"
proof (induction d)
  case (Cons kv d)
  obtain k v where kv: "kv = (k, v)" by fastforce
  show ?case
    using Cons assms [of k] by (cases v) (simp_all add: kv entry_of_def dict_of_def)
qed simp

text \<open>Whether an entry of a dict is a stale conversation.\<close>

definition stale_value :: "int \<Rightarrow> dict_value \<Rightarrow> bool" where
  "stale_value cutoff v \<longleftrightarrow> int_field (dict_of v) ''u'' = 0 \<and> int_field (dict_of v) ''r'' < cutoff"

lemma stale_load: "stale cutoff (load_base d c) \<longleftrightarrow> stale_value cutoff (VDict d)"
  by (simp add: stale_def load_base_def stale_value_def dict_of_def)

definition stale_keys :: "char \<Rightarrow> int \<Rightarrow> dict \<Rightarrow> string list" where
  "stale_keys pre cutoff d = map fst (filter (\<lambda>kv. entry_of pre kv \<and> stale_value cutoff (snd kv)) d)"

lemma stale_loaded:
  assumes "\<And>k. length k = 33 \<Longrightarrow> hd k = pre \<Longrightarrow> key (c0 k) = to_hex enc k"
    and "\<And>d c. key (load_base d c) = key c" "hex_ok enc"
  shows "map (\<lambda>c. from_hex enc (key c))
      (filter (stale cutoff) (map (\<lambda>(k, v). load_base (dict_of v) (c0 k)) (filter (entry_of pre) d))) =
    stale_keys pre cutoff d"
proof (induction d)
  case (Cons kv d)
  obtain k v where kv: "kv = (k, v)" by fastforce
  show ?case
  proof (cases "entry_of pre kv")
    case True
    then obtain d' where v: "v = VDict d'" "length k = 33" "hd k = pre" by (auto simp: entry_of_def kv)
    have "from_hex enc (key (load_base d' (c0 k))) = k"
      using assms(1) [OF v(2,3)] assms(2,3) by (simp add: hex_ok_def)
    then show ?thesis using Cons True v(1) by (simp add: kv stale_keys_def dict_of_def stale_load)
  qed (use Cons in \<open>simp add: stale_keys_def kv\<close>)
qed (simp add: stale_keys_def)

text \<open>One stage of the pruning: the stale entries below one key are erased.\<close>

lemma erase_stage:
  assumes "editable e b" "base_inv b" "\<And>c b. c \<in> set cs \<Longrightarrow> er c b = drop_flag (erase_impl e [k] (pk c) b)"
  shows "\<exists>b'. res_fold er cs b = Inr b' \<and> editable e b' \<and> base_inv b' \<and>
     (\<forall>i. get_clean [k] i b' = (if i \<in> pk ` set cs then None else get_clean [k] i b)) \<and>
     (\<forall>i. i \<noteq> k \<longrightarrow> get_clean [] i b' = get_clean [] i b)"
proof -
  have drop: "drop_flag (erase_impl e [k] i b) = erase_field e [k] i b" for i b
    by (simp add: drop_flag_def erase_impl_def)
  have "res_fold er cs b = res_fold (erase_field e [k]) (map pk cs) b" for b
    using assms(3) by (induction cs arbitrary: b) (simp_all add: drop res_bind_def split: sum.split)
  then show ?thesis
    using erased_fields [OF assms(1,2), of "[]" k "[]" "map pk cs"] by (simp only: append_Nil set_map)
qed

lemma stage_value:
  assumes "wf_dict (data_of b)" "\<And>i. get_clean [k] i b' =
      (if i \<in> set (stale_keys pre cutoff (dict_or_empty k b)) then None else get_clean [k] i b)"
  shows "get_clean [k] i b' = (case get_clean [k] i b of
      None \<Rightarrow> None | Some v \<Rightarrow> if entry_of pre (i, v) \<and> stale_value cutoff v then None else Some v)"
proof (cases "get_dict [] k b")
  case None
  then have "get_clean [k] i b = None"
    by (auto simp: get_dict_def get_clean_def get_path_def split: option.splits dict_value.splits)
  then show ?thesis using assms(2) [of i] by simp
next
  case (Some d)
  then have d: "map_of (data_of b) k = Some (VDict d)"
    by (auto simp: get_dict_def get_clean_def get_path_def split: option.splits dict_value.splits)
  then have "wf_dict d" using wf_dict_sub [OF assms(1)] by blast
  then have dist: "distinct (map fst d)" by (simp add: strict_sorted_iff)
  have g: "get_clean [k] i b = map_of d i" using d by (simp add: get_clean_def get_path_def)
  have "i \<in> set (stale_keys pre cutoff d) \<longleftrightarrow> (\<exists>v. map_of d i = Some v \<and> entry_of pre (i, v) \<and> stale_value cutoff v)"
    using dist by (force simp: stale_keys_def)
  then show ?thesis using assms(2) [of i] g Some by (auto simp: dict_or_empty_def split: option.split)
qed

lemma frame_below: "get_clean [] k b' = get_clean [] k b \<Longrightarrow> get_clean [k] i b' = get_clean [k] i b"
  by (simp add: get_clean_def get_path_Cons get_path_Nil)

definition same_but :: "env \<Rightarrow> string \<Rightarrow> config_base \<Rightarrow> config_base \<Rightarrow> bool" where
  "same_but e k b b' \<longleftrightarrow> editable e b' \<and> base_inv b' \<and> (\<forall>i. i \<noteq> k \<longrightarrow> get_clean [] i b' = get_clean [] i b)"

lemma same_but_trans: "same_but e k b b1 \<Longrightarrow> same_but e k b1 b2 \<Longrightarrow> same_but e k b b2"
  by (simp add: same_but_def)

lemma erase_one:
  assumes "editable e b" "base_inv b"
  obtains b' where "erase_field e (k # q) x b = Inr b'" "same_but e k b b'"
  using erased_fields [OF assms, of "[]" k q "[x]"] by (auto simp: res_fold_steps same_but_def)

lemma prune_stage:
  assumes b: "editable e b" "base_inv b" and enc: "hex_ok enc"
    and new: "\<And>j. length j = 33 \<Longrightarrow> hd j = pre \<Longrightarrow> mk (to_hex enc j) = Inr (blank j)"
    and key: "\<And>j. key (blank j) = to_hex enc j" "\<And>d c. key (load_base d c) = key c"
    and er: "\<And>j b. length j = 33 \<Longrightarrow> hd j = pre \<Longrightarrow> er (to_hex enc j) b = drop_flag (erase_impl e [k] j b)"
  shows "\<exists>b'. res_bind (val_entries mk enc pre (dict_or_empty k b))
       (\<lambda>cs. res_fold (\<lambda>c. er (key c)) (filter (stale cutoff) cs) b) = Inr b' \<and> same_but e k b b' \<and>
     (\<forall>i. get_clean [k] i b' = (case get_clean [k] i b of None \<Rightarrow> None
        | Some v \<Rightarrow> if entry_of pre (i, v) \<and> stale_value cutoff v then None else Some v))"
proof -
  let ?cs = "map (\<lambda>(k, v). load_base (dict_of v) (blank k)) (filter (entry_of pre) (dict_or_empty k b))"
  let ?pk = "\<lambda>c. from_hex enc (key c)"
  have cs: "val_entries mk enc pre (dict_or_empty k b) = Inr ?cs" using new by (rule val_entries_ok)
  have "er (key c) b = drop_flag (erase_impl e [k] (?pk c) b)" if "c \<in> set (filter (stale cutoff) ?cs)" for c b
    using that er key enc by (auto simp: entry_of_def hex_ok_def)
  from erase_stage [OF b, where cs = "filter (stale cutoff) ?cs" and er = "\<lambda>c. er (key c)" and k = k and pk = ?pk, OF this]
  obtain b' where b': "res_fold (\<lambda>c. er (key c)) (filter (stale cutoff) ?cs) b = Inr b'" "same_but e k b b'"
    "\<And>i. get_clean [k] i b' = (if i \<in> ?pk ` set (filter (stale cutoff) ?cs) then None else get_clean [k] i b)"
    unfolding same_but_def by blast
  have "?pk ` set (filter (stale cutoff) ?cs) = set (stale_keys pre cutoff (dict_or_empty k b))"
    using arg_cong [where f = set, OF stale_loaded [of pre key blank enc cutoff "dict_or_empty k b", OF key(1,2) enc]]
    by (simp only: set_map)
  then have "\<And>i. get_clean [k] i b' =
      (if i \<in> set (stale_keys pre cutoff (dict_or_empty k b)) then None else get_clean [k] i b)"
    using b'(3) by simp
  moreover have "wf_dict (data_of b)" using b(1) by (simp add: editable_def)
  ultimately have "\<forall>i. get_clean [k] i b' = (case get_clean [k] i b of None \<Rightarrow> None
        | Some v \<Rightarrow> if entry_of pre (i, v) \<and> stale_value cutoff v then None else Some v)"
    using stage_value [of b k b' pre cutoff] by blast
  then show ?thesis using b'(1,2) cs by (simp only: res_bind_simps) blast
qed

lemma erase_community_frame:
  assumes "editable e b" "base_inv b"
  shows "\<exists>b'. drop_flag (erase_community_entry e c b) = Inr b' \<and> same_but e ''o'' b b'"
proof -
  obtain b1 where b1: "erase_field e (community_path c) (co_room_norm c) b = Inr b1" "same_but e ''o'' b b1"
    unfolding community_path_def by (rule erase_one [OF assms])
  then have e1: "editable e b1" "base_inv b1" by (simp_all add: same_but_def)
  obtain b2 where b2: "erase_field e [''o'', co_base_url c] ''R'' b1 = Inr b2" "same_but e ''o'' b1 b2"
    by (rule erase_one [OF e1])
  then have e2: "editable e b2" "base_inv b2" by (simp_all add: same_but_def)
  obtain b3 where b3: "erase_field e [''o''] (co_base_url c) b2 = Inr b3" "same_but e ''o'' b2 b3"
    by (rule erase_one [OF e2])
  have "same_but e ''o'' b b3" using b1(2) b2(2) b3(2) by (blast intro: same_but_trans)
  then show ?thesis
    using b1 b2(1) b3(1) unfolding erase_community_entry_def erase_impl_def drop_flag_def Let_def
    by (simp only: res_bind_simps if_distrib split: if_split) simp
qed

lemma communities_frame:
  assumes "editable e b" "base_inv b" "\<And>c. c \<in> set cs \<Longrightarrow> \<exists>co. new_community (url c) (room c) = Inr co"
  shows "\<exists>b'. res_fold (\<lambda>c b. drop_flag (erase_community e (url c) (room c) b)) cs b = Inr b' \<and> same_but e ''o'' b b'"
  using assms
proof (induction cs arbitrary: b)
  case (Cons c cs)
  obtain co where co: "new_community (url c) (room c) = Inr co" using Cons.prems(3) by auto
  obtain b1 where b1: "drop_flag (erase_community_entry e co b) = Inr b1" "same_but e ''o'' b b1"
    using erase_community_frame [OF Cons.prems(1,2)] by blast
  then have "editable e b1" "base_inv b1" by (simp_all add: same_but_def)
  from Cons.IH [OF this] obtain b2 where
    "res_fold (\<lambda>c b. drop_flag (erase_community e (url c) (room c) b)) cs b1 = Inr b2" "same_but e ''o'' b1 b2"
    using Cons.prems(3) by auto
  then show ?case using co b1 same_but_trans [OF b1(2)] by (auto simp: erase_community_def)
qed (simp add: same_but_def)

text \<open>The communities of the iteration can always be constructed again from their URL and room.\<close>

lemma room_entry_community:
  assumes "x \<in> set (room_entry (\<lambda>c d. Inr (load_base d (convo_of c))) u pk kv)"
  shows "\<exists>co. new_community (co_base_url (convo_comm x)) (co_room (convo_comm x)) = Inr co"
proof -
  obtain room d where kv: "kv = (room, VDict d)" and x:
    "res_bind (set_base_url u no_community) (\<lambda>c. res_bind (set_room room c) (\<lambda>c. res_bind (set_pubkey pk c)
       (\<lambda>c. Inr (load_base d (convo_of c))))) = Inr x"
    using assms by (auto simp: room_entry_def split: prod.splits dict_value.splits sum.splits)
  then obtain c u' r where x: "x = load_base d (convo_of c)" and c: "canonical_url u = Inr u'" "canonical_room room = Inr r"
    "co_base_url c = u'" "co_room c = room"
    by (auto simp: set_base_url_def set_room_def set_pubkey_def co_room_def res_bind_eq_Inr split: if_splits)
  have "canonical_url u' = Inr u'" using canonical_url_shape [OF c(1)] by blast
  then show ?thesis
    using c by (simp add: x load_base_def convo_of_def new_community_def set_base_url_def set_room_def)
qed

lemma all_communities_ok:
  assumes "x \<in> set (all_communities b)"
  shows "\<exists>co. new_community (co_base_url (convo_comm x)) (co_room (convo_comm x)) = Inr co"
  using assms by (auto simp: all_communities_def community_entries_def server_entries_def
      split: prod.splits dict_value.splits option.splits intro: room_entry_community)

text \<open>
  Pruning always succeeds on an editable object. Of the one-to-one conversations and of the legacy
  groups exactly those that are not marked unread and were last read before the cutoff are gone, and the
  others keep their stored value. The groups are left alone: unlike the three other kinds of conversation
  a stale group is never pruned.
\<close>

theorem prune_stale_effect:
  assumes "editable e b" "base_inv b" "hex_ok enc"
  shows "\<exists>b'. prune_stale e enc now prune b = Inr b' \<and>
     (\<forall>i. get_clean [''1''] i b' = (case get_clean [''1''] i b of None \<Rightarrow> None
        | Some v \<Rightarrow> if entry_of (CHR 0x05) (i, v) \<and> stale_value (now - prune) v then None else Some v)) \<and>
     (\<forall>i. get_clean [''C''] i b' = (case get_clean [''C''] i b of None \<Rightarrow> None
        | Some v \<Rightarrow> if entry_of (CHR 0x05) (i, v) \<and> stale_value (now - prune) v then None else Some v)) \<and>
     get_clean [] ''g'' b' = get_clean [] ''g'' b"
proof -
  let ?cut = "now - prune"
  note hex = hex_session_id [OF assms(3)]
  have bytes: "length j = 33 \<Longrightarrow> hd j = CHR 0x05 \<Longrightarrow> session_id_to_bytes enc (to_hex enc j) ''05'' = Inr j" for j
    using session_id_bytes [OF hex(1)] assms(3) by (simp add: hex_ok_def)
  obtain b1 where b1: "res_bind (all_1to1 enc b) (\<lambda>os.
      res_fold (\<lambda>c b. drop_flag (erase_1to1 e enc (session_id c) b)) (filter (stale ?cut) os) b) = Inr b1" "same_but e ''1'' b b1"
    "\<forall>i. get_clean [''1''] i b1 = (case get_clean [''1''] i b of None \<Rightarrow> None
        | Some v \<Rightarrow> if entry_of (CHR 0x05) (i, v) \<and> stale_value ?cut v then None else Some v)"
    using prune_stage [OF assms, where mk = "new_1to1 enc" and pre = "CHR 0x05" and key = session_id and k = "''1''" and cutoff = ?cut
        and blank = "\<lambda>j. \<lparr> last_read = 0, unread = False, session_id = to_hex enc j \<rparr>"
        and er = "\<lambda>sid b. drop_flag (erase_1to1 e enc sid b)"] hex(1) bytes
    unfolding all_1to1_def new_1to1_def erase_1to1_def by (auto simp: load_base_def)
  have e1: "editable e b1" "base_inv b1" using b1(2) by (simp_all add: same_but_def)
  obtain b2 where b2: "res_bind (all_legacy_groups enc b1) (\<lambda>ls.
      res_fold (\<lambda>c b. drop_flag (erase_legacy_group e enc (legacy_id c) b)) (filter (stale ?cut) ls) b1) = Inr b2" "same_but e ''C'' b1 b2"
    "\<forall>i. get_clean [''C''] i b2 = (case get_clean [''C''] i b1 of None \<Rightarrow> None
        | Some v \<Rightarrow> if entry_of (CHR 0x05) (i, v) \<and> stale_value ?cut v then None else Some v)"
    using prune_stage [OF e1 assms(3), where mk = "new_legacy_group enc" and pre = "CHR 0x05" and key = legacy_id and k = "''C''" and cutoff = ?cut
        and blank = "\<lambda>j. \<lparr> last_read = 0, unread = False, legacy_id = to_hex enc j \<rparr>"
        and er = "\<lambda>sid b. drop_flag (erase_legacy_group e enc sid b)"] hex(1) bytes
    unfolding all_legacy_groups_def new_legacy_group_def erase_legacy_group_def by (auto simp: load_base_def)
  have e2: "editable e b2" "base_inv b2" using b2(2) by (simp_all add: same_but_def)
  obtain b3 where b3: "res_fold (\<lambda>c b. drop_flag (erase_community e (co_base_url (convo_comm c)) (co_room (convo_comm c)) b))
      (filter (stale ?cut) (all_communities b2)) b2 = Inr b3" "same_but e ''o'' b2 b3"
    using communities_frame [OF e2, of "filter (stale ?cut) (all_communities b2)" "\<lambda>c. co_base_url (convo_comm c)"
        "\<lambda>c. co_room (convo_comm c)"] all_communities_ok by auto
  have "prune_stale e enc now prune b = Inr b3"
    using b1(1) b2(1) b3(1) unfolding prune_stale_def Let_def by (auto simp only: res_bind_eq_Inr)
  moreover have fr: "get_clean [] i b1 = get_clean [] i b" if "i \<noteq> ''1''" for i using b1(2) that by (simp add: same_but_def)
  moreover have "get_clean [] i b3 = get_clean [] i b1" if "i \<noteq> ''C''" "i \<noteq> ''o''" for i
    using b2(2) b3(2) that by (simp add: same_but_def)
  moreover have "get_clean [] ''C'' b3 = get_clean [] ''C'' b2" using b3(2) by (simp add: same_but_def)
  ultimately show ?thesis
    using b1(3) b2(3) frame_below [of "''1''" b3 b1] frame_below [of "''C''" b3 b2] frame_below [of "''C''" b1 b] by simp
qed

end
