(* ===== verification/User_Groups.thy ===== *)
theory User_Groups
  imports Convo_Volatile
begin

text \<open>
  The user's groups (\<open>src/src/config/user_groups.cpp\<close>): new-style groups (\<open>data["g"]\<close>), communities
  (\<open>data["o"]\<close>, in the same layout as the volatile conversation info) and legacy groups (\<open>data["C"]\<close>),
  with the structs of the C interface. The Ed25519 key generation of libsodium is an argument
  \<open>keypair\<close> from a seed to a public and a 64-byte secret key.
\<close>

section \<open>Groups\<close>

record base_group_info =
  bg_priority :: int
  bg_joined_at :: int
  bg_notifications :: notify_mode
  bg_mute_until :: int
  bg_name :: string
  bg_invited :: bool

record legacy_group_info = base_group_info +
  lg_session_id :: string
  enc_pubkey :: bytes
  enc_seckey :: bytes
  disappearing_timer :: int
  lg_members :: "(string, bool) smap"

record group_info = base_group_info +
  gi_id :: string
  secretkey :: bytes
  auth_data :: bytes
  removed_status :: int

record community_info = base_group_info +
  info_comm :: community

definition NOT_REMOVED :: int where "NOT_REMOVED = 0"
definition KICKED_FROM_GROUP :: int where "KICKED_FROM_GROUP = 1"
definition GROUP_DESTROYED :: int where "GROUP_DESTROYED = 2"
definition NAME_MAX_LENGTH :: nat where "NAME_MAX_LENGTH = 100"

definition new_legacy_group_info :: "encodings \<Rightarrow> string \<Rightarrow> legacy_group_info res" where
  "new_legacy_group_info enc sid =
     res_bind (check_session_id enc sid ''05'') (\<lambda>_. Inr
       \<lparr> bg_priority = 0, bg_joined_at = 0, bg_notifications = Notify_defaulted, bg_mute_until = 0, bg_name = [],
         bg_invited = False, lg_session_id = sid, enc_pubkey = [], enc_seckey = [], disappearing_timer = 0,
         lg_members = [] \<rparr>)"

definition new_group_info :: "encodings \<Rightarrow> string \<Rightarrow> group_info res" where
  "new_group_info enc gid =
     res_bind (check_session_id enc gid ''03'') (\<lambda>_. Inr
       \<lparr> bg_priority = 0, bg_joined_at = 0, bg_notifications = Notify_defaulted, bg_mute_until = 0, bg_name = [],
         bg_invited = False, gi_id = gid, secretkey = [], auth_data = [], removed_status = NOT_REMOVED \<rparr>)"

definition info_of :: "community \<Rightarrow> community_info" where
  "info_of c = \<lparr> bg_priority = 0, bg_joined_at = 0, bg_notifications = Notify_defaulted, bg_mute_until = 0,
     bg_name = [], bg_invited = False, info_comm = c \<rparr>"

section \<open>Loading\<close>

definition base_load :: "dict \<Rightarrow> 'a base_group_info_scheme \<Rightarrow> 'a base_group_info_scheme" where
  "base_load d g =
     (let notify = to_int32 (int_field d ''@'') in
      g\<lparr> bg_priority := to_int32 (int_field d ''+''),
         bg_joined_at := to_epoch_seconds (max 0 (int_field d ''j'')),
         bg_notifications := (if 0 \<le> notify \<and> notify \<le> 3 then notify_of notify else Notify_defaulted),
         bg_mute_until := to_epoch_seconds (int_field d ''!''),
         bg_invited := (int_field d ''i'' \<noteq> 0) \<rparr>)"

definition load_member :: "encodings \<Rightarrow> bool \<Rightarrow> scalar \<Rightarrow> (string, bool) smap \<Rightarrow> (string, bool) smap" where
  "load_member enc admin field ms =
     (case field of
        SStr s \<Rightarrow> if length s = 33 \<and> hd s = CHR 0x05 then smap_emplace (to_hex enc s) admin ms else ms
      | SInt _ \<Rightarrow> ms)"

definition load_members :: "encodings \<Rightarrow> dict \<Rightarrow> (string, bool) smap" where
  "load_members enc d =
     (let fields = (\<lambda>k. case maybe_set d k of Some s \<Rightarrow> s | None \<Rightarrow> []) in
      fold (load_member enc True) (fields ''a'') (fold (load_member enc False) (fields ''m'') []))"

definition legacy_load :: "encodings \<Rightarrow> dict \<Rightarrow> legacy_group_info \<Rightarrow> legacy_group_info" where
  "legacy_load enc d g =
     (let enc_keys = (case (maybe_string d ''k'', maybe_string d ''K'') of
            (Some p, Some s) \<Rightarrow> if length p = 32 \<and> length s = 32 then (p, s) else ([], [])
          | _ \<Rightarrow> ([], []));
          secs = int_field d ''E'' in
      (base_load d g)\<lparr> bg_name := str_field d ''n'', enc_pubkey := fst enc_keys, enc_seckey := snd enc_keys,
         disappearing_timer := (if secs > 0 then secs else 0), lg_members := load_members enc d \<rparr>)"

definition group_load :: "(bytes \<Rightarrow> bytes \<times> bytes) \<Rightarrow> encodings \<Rightarrow> dict \<Rightarrow> group_info \<Rightarrow> group_info" where
  "group_load keypair enc d g =
     (let g = (base_load d g)\<lparr> bg_name := str_field d ''n'' \<rparr>;
          g = (case maybe_string d ''K'' of
                 Some seed \<Rightarrow>
                   if length seed = 32 then
                     (case keypair seed of (pk, sk) \<Rightarrow>
                        g\<lparr> secretkey := (if gi_id g \<noteq> to_hex enc (CHR 0x03 # pk) then [] else sk) \<rparr>)
                   else g
               | None \<Rightarrow> g);
          g = (case maybe_string d ''s'' of
                 Some sig \<Rightarrow> if length sig = 100 then g\<lparr> auth_data := sig \<rparr> else g
               | None \<Rightarrow> g)
      in g\<lparr> removed_status := to_int32 (int_field d ''r'') \<rparr>)"

definition community_info_load :: "dict \<Rightarrow> community_info \<Rightarrow> community_info res" where
  "community_info_load d g =
     (let g = base_load d g in
      case maybe_string d ''n'' of
        Some n \<Rightarrow> res_bind (set_room n (info_comm g)) (\<lambda>c. Inr (g\<lparr> info_comm := c \<rparr>))
      | None \<Rightarrow> Inr g)"

section \<open>Members and membership status\<close>

definition member_counts :: "legacy_group_info \<Rightarrow> nat \<times> nat" where
  "member_counts g =
     (length (filter snd (lg_members g)), length (filter (\<lambda>m. \<not> snd m) (lg_members g)))"

definition insert_member :: "encodings \<Rightarrow> string \<Rightarrow> bool \<Rightarrow> legacy_group_info \<Rightarrow> (bool \<times> legacy_group_info) res" where
  "insert_member enc sid admin g =
     res_bind (check_session_id enc sid ''05'') (\<lambda>_. Inr
       (case map_of (lg_members g) sid of
          None \<Rightarrow> (True, g\<lparr> lg_members := smap_put sid admin (lg_members g) \<rparr>)
        | Some a \<Rightarrow> if a \<noteq> admin then (True, g\<lparr> lg_members := smap_put sid admin (lg_members g) \<rparr>) else (False, g)))"

definition erase_member :: "string \<Rightarrow> legacy_group_info \<Rightarrow> bool \<times> legacy_group_info" where
  "erase_member sid g =
     (map_of (lg_members g) sid \<noteq> None, g\<lparr> lg_members := smap_del sid (lg_members g) \<rparr>)"

definition mark_kicked :: "group_info \<Rightarrow> group_info" where
  "mark_kicked g =
     (let g = g\<lparr> secretkey := [], auth_data := [] \<rparr> in
      if removed_status g \<noteq> GROUP_DESTROYED then g\<lparr> removed_status := KICKED_FROM_GROUP \<rparr> else g)"

definition mark_invited :: "group_info \<Rightarrow> group_info" where
  "mark_invited g =
     (if removed_status g = KICKED_FROM_GROUP then g\<lparr> removed_status := NOT_REMOVED \<rparr> else g)"

definition kicked :: "group_info \<Rightarrow> bool" where
  "kicked g \<longleftrightarrow> removed_status g = KICKED_FROM_GROUP"

definition mark_destroyed :: "group_info \<Rightarrow> group_info" where
  "mark_destroyed g = g\<lparr> secretkey := [], auth_data := [], removed_status := GROUP_DESTROYED \<rparr>"

definition is_destroyed :: "group_info \<Rightarrow> bool" where
  "is_destroyed g \<longleftrightarrow> removed_status g = GROUP_DESTROYED"

section \<open>Fetching\<close>

definition ug_get_community :: "string \<Rightarrow> string \<Rightarrow> config_base \<Rightarrow> community_info option res" where
  "ug_get_community url room b =
     res_bind (new_community url room) (\<lambda>og.
       case get_dict (community_path og) (co_room_norm og) b of
         None \<Rightarrow> Inr None
       | Some d \<Rightarrow>
           res_bind (community_info_load d (info_of og)) (\<lambda>c.
             let pk = stored_pubkey og b in
             if pk = [] then Inr (Some c)
             else res_bind (set_pubkey pk (info_comm c)) (\<lambda>og. Inr (Some (c\<lparr> info_comm := og \<rparr>)))))"

definition ug_get_community_url :: "encodings \<Rightarrow> string \<Rightarrow> config_base \<Rightarrow> community_info option res" where
  "ug_get_community_url enc partial_url b =
     res_bind (parse_partial_url enc partial_url) (\<lambda>(base, room, _). ug_get_community base room b)"

definition ug_load_community :: "community \<Rightarrow> config_base \<Rightarrow> community_info res" where
  "ug_load_community c b =
     (case get_dict (community_path c) (co_room_norm c) b of
        Some d \<Rightarrow> community_info_load d (info_of c)
      | None \<Rightarrow> Inr (info_of c))"

definition ug_get_or_construct_community :: "string \<Rightarrow> string \<Rightarrow> bytes \<Rightarrow> config_base \<Rightarrow> community_info res" where
  "ug_get_or_construct_community url room pk b =
     res_bind (new_community_pk url room pk) (\<lambda>c. ug_load_community c b)"

definition ug_get_or_construct_community_encoded ::
  "encodings \<Rightarrow> string \<Rightarrow> string \<Rightarrow> string \<Rightarrow> config_base \<Rightarrow> community_info res" where
  "ug_get_or_construct_community_encoded enc url room pk b =
     res_bind (new_community_encoded enc url room pk) (\<lambda>c. ug_load_community c b)"

definition ug_get_or_construct_community_url :: "encodings \<Rightarrow> string \<Rightarrow> config_base \<Rightarrow> community_info res" where
  "ug_get_or_construct_community_url enc url b =
     res_bind (parse_full_url enc url) (\<lambda>(base, room, pk). ug_get_or_construct_community base room pk b)"

definition ug_get_legacy_group :: "encodings \<Rightarrow> string \<Rightarrow> config_base \<Rightarrow> legacy_group_info option res" where
  "ug_get_legacy_group enc sid b =
     res_bind (session_id_to_bytes enc sid ''05'') (\<lambda>pk.
       case get_dict [''C''] pk b of
         None \<Rightarrow> Inr None
       | Some d \<Rightarrow> res_bind (new_legacy_group_info enc sid) (\<lambda>g. Inr (Some (legacy_load enc d g))))"

definition ug_get_or_construct_legacy_group :: "encodings \<Rightarrow> string \<Rightarrow> config_base \<Rightarrow> legacy_group_info res" where
  "ug_get_or_construct_legacy_group enc sid b =
     res_bind (ug_get_legacy_group enc sid b) (\<lambda>m. case m of Some g \<Rightarrow> Inr g | None \<Rightarrow> new_legacy_group_info enc sid)"

definition ug_get_group ::
  "(bytes \<Rightarrow> bytes \<times> bytes) \<Rightarrow> encodings \<Rightarrow> string \<Rightarrow> config_base \<Rightarrow> group_info option res" where
  "ug_get_group keypair enc gid b =
     res_bind (session_id_to_bytes enc gid ''03'') (\<lambda>pk.
       case get_dict [''g''] pk b of
         None \<Rightarrow> Inr None
       | Some d \<Rightarrow> res_bind (new_group_info enc gid) (\<lambda>g. Inr (Some (group_load keypair enc d g))))"

definition ug_get_or_construct_group ::
  "(bytes \<Rightarrow> bytes \<times> bytes) \<Rightarrow> encodings \<Rightarrow> string \<Rightarrow> config_base \<Rightarrow> group_info res" where
  "ug_get_or_construct_group keypair enc gid b =
     res_bind (ug_get_group keypair enc gid b) (\<lambda>m. case m of Some g \<Rightarrow> Inr g | None \<Rightarrow> new_group_info enc gid)"

text \<open>\<open>create_group\<close>, with the random key pair it generates as an argument.\<close>

definition create_group :: "encodings \<Rightarrow> bytes \<times> bytes \<Rightarrow> group_info res" where
  "create_group enc keys =
     (case keys of (pk, sk) \<Rightarrow>
        res_bind (new_group_info enc (''03'' @ to_hex enc pk)) (\<lambda>g. Inr (g\<lparr> secretkey := sk \<rparr>)))"

section \<open>Storing\<close>

definition ug_set_base :: "env \<Rightarrow> string list \<Rightarrow> 'a base_group_info_scheme \<Rightarrow> config_base \<Rightarrow> config_base res" where
  "ug_set_base e info g b =
     res_bind (set_nonzero_int e info ''+'' (bg_priority g) b) (\<lambda>b.
     res_bind (set_positive_int e info ''j'' (to_epoch_seconds (bg_joined_at g)) b) (\<lambda>b.
     res_bind (set_positive_int e info ''@'' (notify_code (bg_notifications g)) b) (\<lambda>b.
     res_bind (set_positive_int e info ''!'' (to_epoch_seconds (bg_mute_until g)) b) (\<lambda>b.
     set_flag e info ''i'' (bg_invited g) b))))"

definition ug_set_community :: "env \<Rightarrow> community_info \<Rightarrow> config_base \<Rightarrow> config_base res" where
  "ug_set_community e c b =
     (let co = info_comm c; info = community_path co @ [co_room_norm co] in
      res_bind (assign_if_changed e [''o'', co_base_url co] ''#'' (VScalar (SStr (co_pubkey co))) b) (\<lambda>b.
      res_bind (ug_set_base e info c b) (\<lambda>b.
      assign_if_changed e info ''n'' (VScalar (SStr (co_room co))) b)))"

definition member_set :: "encodings \<Rightarrow> bool \<Rightarrow> (string, bool) smap \<Rightarrow> scalar list" where
  "member_set enc admins ms =
     fold (\<lambda>(member, admin) s. if admin = admins then set_insert (SStr (from_hex enc member)) s else s) ms []"

definition ug_set_legacy_group :: "env \<Rightarrow> encodings \<Rightarrow> legacy_group_info \<Rightarrow> config_base \<Rightarrow> config_base res" where
  "ug_set_legacy_group e enc g b =
     res_bind (session_id_to_bytes enc (lg_session_id g) ''05'') (\<lambda>pk.
     let info = [''C'', pk] in
     res_bind (ug_set_base e info g b) (\<lambda>b.
     res_bind (assign_if_changed e info ''n'' (VScalar (SStr (take NAME_MAX_LENGTH (bg_name g)))) b) (\<lambda>b.
     res_bind (set_pair_if e (length (enc_pubkey g) = 32 \<and> length (enc_seckey g) = 32)
                 (info, ''k'', VScalar (SStr (enc_pubkey g))) (info, ''K'', VScalar (SStr (enc_seckey g))) b) (\<lambda>b.
     res_bind (guard (e_ndebug e \<or> list_all (\<lambda>(member, _). is_hex enc member) (lg_members g)) Assertion_failed) (\<lambda>_.
     res_bind (assign_if_changed e info ''m'' (VSet (member_set enc False (lg_members g))) b) (\<lambda>b.
     res_bind (assign_if_changed e info ''a'' (VSet (member_set enc True (lg_members g))) b) (\<lambda>b.
     set_positive_int e info ''E'' (disappearing_timer g) b)))))))"

definition ug_set_group :: "env \<Rightarrow> encodings \<Rightarrow> group_info \<Rightarrow> config_base \<Rightarrow> config_base res" where
  "ug_set_group e enc g b =
     res_bind (session_id_to_bytes enc (gi_id g) ''03'') (\<lambda>pk.
     let info = [''g'', pk] in
     res_bind (ug_set_base e info g b) (\<lambda>b.
     res_bind (set_nonempty_str e info ''n'' (take NAME_MAX_LENGTH (bg_name g)) b) (\<lambda>b.
     res_bind (set_positive_int e info ''r'' (removed_status g) b) (\<lambda>b.
     if length (secretkey g) = 64 \<and> take 32 (drop 32 (secretkey g)) = drop 1 pk then
       assign_if_changed e info ''K'' (VScalar (SStr (take 32 (secretkey g)))) b
     else
       res_bind (assign_if_changed e info ''K'' (VScalar (SStr [])) b) (\<lambda>b.
         if length (auth_data g) = 100 then assign_if_changed e info ''s'' (VScalar (SStr (auth_data g))) b
         else erase_field e info ''s'' b)))))"

section \<open>Erasing, sizes and iteration\<close>

definition ug_erase_community :: "env \<Rightarrow> string \<Rightarrow> string \<Rightarrow> config_base \<Rightarrow> (bool \<times> config_base) res" where
  "ug_erase_community e url room b =
     res_bind (new_community url room) (\<lambda>c.
     res_bind (erase_impl e (community_path c) (co_room_norm c) b) (\<lambda>(gone, b).
       if gone \<and> (case get_dict [''o'', co_base_url c] ''R'' b of None \<Rightarrow> True | Some rd \<Rightarrow> rd = []) then
         res_bind (erase_field e [''o'', co_base_url c] ''R'' b) (\<lambda>b.
         res_bind (erase_field e [''o''] (co_base_url c) b) (\<lambda>b. Inr (gone, b)))
       else Inr (gone, b)))"

definition ug_erase_group :: "env \<Rightarrow> encodings \<Rightarrow> string \<Rightarrow> config_base \<Rightarrow> (bool \<times> config_base) res" where
  "ug_erase_group e enc gid b =
     res_bind (session_id_to_bytes enc gid ''03'') (\<lambda>pk. erase_impl e [''g''] pk b)"

definition ug_erase_legacy_group :: "env \<Rightarrow> encodings \<Rightarrow> string \<Rightarrow> config_base \<Rightarrow> (bool \<times> config_base) res" where
  "ug_erase_legacy_group e enc sid b =
     res_bind (session_id_to_bytes enc sid ''05'') (\<lambda>pk. erase_impl e [''C''] pk b)"

definition ug_size_communities :: "config_base \<Rightarrow> nat" where
  "ug_size_communities b =
     (case get_dict [] ''o'' b of
        None \<Rightarrow> 0
      | Some servers \<Rightarrow> sum_list (map (\<lambda>(url, info).
          if get_string [''o'', url] ''#'' b = None then 0
          else (case get_dict [''o'', url] ''R'' b of Some rd \<Rightarrow> length rd | None \<Rightarrow> 0)) servers))"

definition ug_size :: "config_base \<Rightarrow> nat" where
  "ug_size b = ug_size_communities b + dict_count ''C'' b + dict_count ''g'' b"

text \<open>\<open>iterator::check_it\<close>: the entries with a 33-byte key of the right prefix and a dict.\<close>

fun ug_entries ::
  "(string \<Rightarrow> 'g res) \<Rightarrow> (dict \<Rightarrow> 'g \<Rightarrow> 'g) \<Rightarrow> encodings \<Rightarrow> char \<Rightarrow> dict \<Rightarrow> 'g list res" where
  "ug_entries mk ld enc pre [] = Inr []"
| "ug_entries mk ld enc pre ((k, v) # it) =
     (case v of
        VDict d \<Rightarrow>
          if length k = 33 \<and> hd k = pre then
            res_bind (mk (to_hex enc k)) (\<lambda>g.
            res_bind (ug_entries mk ld enc pre it) (\<lambda>gs. Inr (ld d g # gs)))
          else ug_entries mk ld enc pre it
      | _ \<Rightarrow> ug_entries mk ld enc pre it)"

definition all_group_infos :: "(bytes \<Rightarrow> bytes \<times> bytes) \<Rightarrow> encodings \<Rightarrow> config_base \<Rightarrow> group_info list res" where
  "all_group_infos keypair enc b =
     ug_entries (new_group_info enc) (group_load keypair enc) enc (CHR 0x03) (dict_or_empty ''g'' b)"

definition all_legacy_infos :: "encodings \<Rightarrow> config_base \<Rightarrow> legacy_group_info list res" where
  "all_legacy_infos enc b =
     ug_entries (new_legacy_group_info enc) (legacy_load enc) enc (CHR 0x05) (dict_or_empty ''C'' b)"

definition all_community_infos :: "config_base \<Rightarrow> community_info list" where
  "all_community_infos b = community_entries (\<lambda>c d. community_info_load d (info_of c)) (dict_or_empty ''o'' b)"

datatype any_group_info = Any_group_info group_info | Any_community_info community_info | Any_legacy_info legacy_group_info

definition all_user_groups :: "(bytes \<Rightarrow> bytes \<times> bytes) \<Rightarrow> encodings \<Rightarrow> config_base \<Rightarrow> any_group_info list res" where
  "all_user_groups keypair enc b =
     res_bind (all_group_infos keypair enc b) (\<lambda>gs.
     res_bind (all_legacy_infos enc b) (\<lambda>ls.
       Inr (map Any_group_info gs @ map Any_community_info (all_community_infos b) @ map Any_legacy_info ls)))"

section \<open>The structs of the C interface\<close>

text \<open>Character arrays are the bytes written to them; \<open>_internal\<close> is the member map it points to.\<close>

record ugroups_base =
  c_priority :: int
  c_joined_at :: int
  c_notifications :: notify_mode
  c_mute_until :: int
  c_invited :: bool

record ugroups_group_info = ugroups_base +
  c_id :: string
  c_name :: string
  c_removed_status :: int
  c_have_secretkey :: bool
  c_secretkey :: bytes
  c_have_auth_data :: bool
  c_auth_data :: bytes

record ugroups_legacy_group_info = ugroups_base +
  c_session_id :: string
  c_legacy_name :: string
  c_have_enc_keys :: bool
  c_enc_pubkey :: bytes
  c_enc_seckey :: bytes
  c_disappearing_timer :: int
  c_internal :: "(string, bool) smap option"

record ugroups_community_info = ugroups_base +
  c_base_url :: string
  c_room :: string
  c_pubkey :: bytes

definition base_into :: "'a base_group_info_scheme \<Rightarrow> 'b ugroups_base_scheme \<Rightarrow> 'b ugroups_base_scheme" where
  "base_into g c = c\<lparr> c_priority := bg_priority g, c_joined_at := to_epoch_seconds (bg_joined_at g),
     c_notifications := bg_notifications g, c_mute_until := to_epoch_seconds (bg_mute_until g), c_invited := bg_invited g \<rparr>"

definition base_from :: "'b ugroups_base_scheme \<Rightarrow> 'a base_group_info_scheme \<Rightarrow> 'a base_group_info_scheme" where
  "base_from c g = g\<lparr> bg_priority := c_priority c, bg_joined_at := to_epoch_seconds (c_joined_at c),
     bg_notifications := c_notifications c, bg_mute_until := to_epoch_seconds (c_mute_until c), bg_invited := c_invited c \<rparr>"

text \<open>A C string read back from its array.\<close>

definition c_string :: "string \<Rightarrow> string" where
  "c_string buf = takeWhile (\<lambda>c. c \<noteq> CHR 0x00) buf"

definition group_into :: "env \<Rightarrow> group_info \<Rightarrow> ugroups_group_info \<Rightarrow> ugroups_group_info res" where
  "group_into e g c =
     res_bind (guard (e_ndebug e \<or> length (gi_id g) = 66) Assertion_failed) (\<lambda>_.
     res_bind (copy_c_str 67 (gi_id g)) (\<lambda>cid.
     res_bind (copy_c_str 101 (bg_name g)) (\<lambda>cname.
       let c = (base_into g c)\<lparr> c_id := cid, c_name := cname, c_removed_status := removed_status g,
                 c_have_secretkey := (length (secretkey g) = 64), c_have_auth_data := (length (auth_data g) = 100) \<rparr>;
           c = (if c_have_secretkey c then c\<lparr> c_secretkey := secretkey g \<rparr> else c)
       in Inr (if c_have_auth_data c then c\<lparr> c_auth_data := auth_data g \<rparr> else c))))"

definition group_from :: "env \<Rightarrow> ugroups_group_info \<Rightarrow> group_info res" where
  "group_from e c =
     (let g = base_from c
            \<lparr> bg_priority = 0, bg_joined_at = 0, bg_notifications = Notify_defaulted, bg_mute_until = 0,
              bg_name = c_string (c_name c), bg_invited = False, gi_id = take 66 (c_id c), secretkey = [], auth_data = [],
              removed_status = c_removed_status c \<rparr> in
      res_bind (guard (e_ndebug e \<or> length (bg_name g) \<le> NAME_MAX_LENGTH) Assertion_failed) (\<lambda>_.
        let g = (if c_have_secretkey c then g\<lparr> secretkey := c_secretkey c \<rparr> else g)
        in Inr (if c_have_auth_data c then g\<lparr> auth_data := c_auth_data c \<rparr> else g)))"

definition legacy_into :: "env \<Rightarrow> legacy_group_info \<Rightarrow> ugroups_legacy_group_info \<Rightarrow> ugroups_legacy_group_info res" where
  "legacy_into e g c =
     res_bind (guard (e_ndebug e \<or> length (lg_session_id g) = 66) Assertion_failed) (\<lambda>_.
     res_bind (copy_c_str 67 (lg_session_id g)) (\<lambda>cid.
     res_bind (copy_c_str 101 (bg_name g)) (\<lambda>cname.
       let c = (base_into g c)\<lparr> c_session_id := cid, c_legacy_name := cname,
                 c_have_enc_keys := (length (enc_pubkey g) = 32 \<and> length (enc_seckey g) = 32) \<rparr>;
           c = (if c_have_enc_keys c then c\<lparr> c_enc_pubkey := enc_pubkey g, c_enc_seckey := enc_seckey g \<rparr> else c)
       in Inr (c\<lparr> c_disappearing_timer := disappearing_timer g, c_internal := Some (lg_members g) \<rparr>))))"

definition legacy_from_impl :: "env \<Rightarrow> ugroups_legacy_group_info \<Rightarrow> legacy_group_info res" where
  "legacy_from_impl e c =
     (let g = \<lparr> bg_priority = 0, bg_joined_at = 0, bg_notifications = Notify_defaulted, bg_mute_until = 0,
                bg_name = c_string (c_legacy_name c), bg_invited = False, lg_session_id = take 66 (c_session_id c),
                enc_pubkey = [], enc_seckey = [], disappearing_timer = c_disappearing_timer c, lg_members = [] \<rparr> in
      res_bind (guard (e_ndebug e \<or> length (bg_name g) \<le> NAME_MAX_LENGTH) Assertion_failed) (\<lambda>_.
        let g = base_from c g
        in Inr (if c_have_enc_keys c then g\<lparr> enc_pubkey := c_enc_pubkey c, enc_seckey := c_enc_seckey c \<rparr> else g)))"

definition legacy_from :: "env \<Rightarrow> ugroups_legacy_group_info \<Rightarrow> legacy_group_info res" where
  "legacy_from e c =
     res_bind (legacy_from_impl e c) (\<lambda>g.
       Inr (case c_internal c of Some ms \<Rightarrow> g\<lparr> lg_members := ms \<rparr> | None \<Rightarrow> g))"

text \<open>The constructor from an rvalue takes the member map out of the struct.\<close>

definition legacy_from_move :: "env \<Rightarrow> ugroups_legacy_group_info \<Rightarrow> (legacy_group_info \<times> ugroups_legacy_group_info) res" where
  "legacy_from_move e c =
     res_bind (legacy_from_impl e c) (\<lambda>g.
       Inr (case c_internal c of Some ms \<Rightarrow> (g\<lparr> lg_members := ms \<rparr>, c\<lparr> c_internal := None \<rparr>) | None \<Rightarrow> (g, c)))"

definition community_into :: "community_info \<Rightarrow> ugroups_community_info \<Rightarrow> ugroups_community_info res" where
  "community_into g c =
     res_bind (copy_c_str (BASE_URL_MAX_LENGTH + 1) (co_base_url (info_comm g))) (\<lambda>url.
     res_bind (copy_c_str (ROOM_MAX_LENGTH + 1) (co_room (info_comm g))) (\<lambda>room.
     res_bind (guard (length (co_pubkey (info_comm g)) \<ge> 32) Undefined_behaviour) (\<lambda>_.
       Inr ((base_into g c)\<lparr> c_base_url := url, c_room := room, c_pubkey := take 32 (co_pubkey (info_comm g)) \<rparr>))))"

definition community_from :: "ugroups_community_info \<Rightarrow> community_info res" where
  "community_from c =
     res_bind (new_community_pk (c_string (c_base_url c)) (c_string (c_room c)) (c_pubkey c)) (\<lambda>co.
       Inr (base_from c (info_of co)))"

section \<open>Fields of the three kinds\<close>

definition base_fields :: "'a base_group_info_scheme \<Rightarrow> (string \<times> dict_value option) list" where
  "base_fields g =
     [(''+'', if bg_priority g \<noteq> 0 then Some (VScalar (SInt (bg_priority g))) else None),
      (''j'', if to_epoch_seconds (bg_joined_at g) > 0 then Some (VScalar (SInt (to_epoch_seconds (bg_joined_at g)))) else None),
      (''@'', if notify_code (bg_notifications g) > 0 then Some (VScalar (SInt (notify_code (bg_notifications g)))) else None),
      (''!'', if to_epoch_seconds (bg_mute_until g) > 0 then Some (VScalar (SInt (to_epoch_seconds (bg_mute_until g)))) else None),
      (''i'', if bg_invited g then Some (VScalar (SInt 1)) else None)]"

definition base_ok :: "'a base_group_info_scheme \<Rightarrow> bool" where
  "base_ok g \<longleftrightarrow> in_i32 (bg_priority g) \<and> seconds_ok (bg_joined_at g) \<and> seconds_ok (bg_mute_until g)"

lemma ug_set_base_fields: "ug_set_base e info g b = res_fold (write_field e info) (base_fields g) b"
  by (simp add: ug_set_base_def base_fields_def field_writes split del: if_split)

lemma base_fields_ok: "base_ok g \<Longrightarrow> \<forall>kv \<in> set (base_fields g). pred_option field_value_ok (snd kv)"
  by (simp add: base_fields_def base_ok_def i32_i64)

lemma base_fields_keys [simp]: "map fst (base_fields g) = [''+'', ''j'', ''@'', ''!'', ''i'']"
  by (simp add: base_fields_def)

lemma base_load_fields:
  assumes "base_ok g" "\<And>k vo. (k, vo) \<in> set (base_fields g) \<Longrightarrow> map_of d k = vo"
  shows "base_load d g0 = g0\<lparr> bg_priority := bg_priority g, bg_joined_at := bg_joined_at g,
      bg_notifications := bg_notifications g, bg_mute_until := bg_mute_until g, bg_invited := bg_invited g \<rparr>"
proof -
  have ok: "in_i32 (bg_priority g)" "seconds_ok (bg_joined_at g)" "seconds_ok (bg_mute_until g)"
    using assms(1) by (simp_all add: base_ok_def)
  have fields: "map_of d ''+'' = (if bg_priority g \<noteq> 0 then Some (VScalar (SInt (bg_priority g))) else None)"
    "map_of d ''j'' = (if bg_joined_at g > 0 then Some (VScalar (SInt (bg_joined_at g))) else None)"
    "map_of d ''@'' = (if notify_code (bg_notifications g) > 0 then Some (VScalar (SInt (notify_code (bg_notifications g)))) else None)"
    "map_of d ''!'' = (if bg_mute_until g > 0 then Some (VScalar (SInt (bg_mute_until g))) else None)"
    "map_of d ''i'' = (if bg_invited g then Some (VScalar (SInt 1)) else None)"
    using ok by (subst assms(2); simp add: base_fields_def)+
  have vals: "int_field d ''+'' = bg_priority g" "int_field d ''j'' = bg_joined_at g"
    "int_field d ''@'' = notify_code (bg_notifications g)" "int_field d ''!'' = bg_mute_until g"
    "int_field d ''i'' \<noteq> 0 \<longleftrightarrow> bg_invited g"
    using fields ok by (auto simp: int_field_def maybe_int_def integer_or_def seconds_ok_def notify_code_def split: notify_mode.splits)
  have "to_int32 (notify_code (bg_notifications g)) = notify_code (bg_notifications g)"
    "0 \<le> notify_code (bg_notifications g)" "notify_code (bg_notifications g) \<le> 3"
    "notify_of (notify_code (bg_notifications g)) = bg_notifications g"
    by (cases "bg_notifications g"; simp add: notify_code_def notify_of_def to_int32_def)+
  then show ?thesis using vals ok by (simp add: base_load_def seconds_ok_def)
qed

lemma write_set: "write_field e path (k, Some (VSet s)) = write_field e path (k, if s = [] then None else Some (VSet s))"
  by (simp add: fun_eq_iff write_field_def assign_if_changed_def)

section \<open>Legacy groups\<close>

definition legacy_fields :: "encodings \<Rightarrow> legacy_group_info \<Rightarrow> (string \<times> dict_value option) list" where
  "legacy_fields enc g =
     (let keys = (length (enc_pubkey g) = 32 \<and> length (enc_seckey g) = 32);
          m = member_set enc False (lg_members g); a = member_set enc True (lg_members g) in
      base_fields g @
      [(''n'', Some (VScalar (SStr (take NAME_MAX_LENGTH (bg_name g))))),
       (''k'', if keys then Some (VScalar (SStr (enc_pubkey g))) else None),
       (''K'', if keys then Some (VScalar (SStr (enc_seckey g))) else None),
       (''m'', if m = [] then None else Some (VSet m)), (''a'', if a = [] then None else Some (VSet a)),
       (''E'', if disappearing_timer g > 0 then Some (VScalar (SInt (disappearing_timer g))) else None)])"

text \<open>Member ids in the lower-case form, a group in the form it is stored in.\<close>

definition member_ids_ok :: "encodings \<Rightarrow> (string, bool) smap \<Rightarrow> bool" where
  "member_ids_ok enc ms \<longleftrightarrow> smap_ok ms \<and>
     (\<forall>m \<in> fst ` set ms. length (from_hex enc m) = 33 \<and> hd (from_hex enc m) = CHR 0x05 \<and> to_hex enc (from_hex enc m) = m)"

definition legacy_ok :: "encodings \<Rightarrow> legacy_group_info \<Rightarrow> bool" where
  "legacy_ok enc g \<longleftrightarrow> base_ok g \<and> check_session_id enc (lg_session_id g) ''05'' = Inr () \<and> length (bg_name g) \<le> 100 \<and>
     (if enc_pubkey g = [] then enc_seckey g = [] else length (enc_pubkey g) = 32 \<and> length (enc_seckey g) = 32) \<and>
     0 \<le> disappearing_timer g \<and> in_i64 (disappearing_timer g) \<and> member_ids_ok enc (lg_members g)"

lemma member_set_props:
  "set (fold (\<lambda>(m, a) s. if a = admins then set_insert (SStr (from_hex enc m)) s else s) ms s0) =
     {SStr (from_hex enc m) |m. (m, admins) \<in> set ms} \<union> set s0"
  "ssorted s0 \<Longrightarrow> ssorted (fold (\<lambda>(m, a) s. if a = admins then set_insert (SStr (from_hex enc m)) s else s) ms s0)"
  by (induction ms arbitrary: s0) (auto split: if_splits)

lemma member_set_set: "set (member_set enc admins ms) = {SStr (from_hex enc m) |m. (m, admins) \<in> set ms}"
  using member_set_props(1) [of admins enc ms "[]"] by (simp add: member_set_def)

lemma load_member_fold:
  assumes "smap_ok ms" "\<And>f. f \<in> set fs \<Longrightarrow> \<exists>s. f = SStr s \<and> length s = 33 \<and> hd s = CHR 0x05"
  shows "smap_ok (fold (load_member enc admin) fs ms) \<and>
     map_of (fold (load_member enc admin) fs ms) k =
       (case map_of ms k of Some a \<Rightarrow> Some a | None \<Rightarrow> if \<exists>s. SStr s \<in> set fs \<and> k = to_hex enc s then Some admin else None)"
  using assms
proof (induction fs arbitrary: ms)
  case (Cons f fs)
  obtain s where f: "f = SStr s" "length s = 33" "hd s = CHR 0x05" using Cons.prems(2) by auto
  have "load_member enc admin f ms = smap_emplace (to_hex enc s) admin ms" using f by (simp add: load_member_def)
  moreover have "smap_ok (smap_emplace (to_hex enc s) admin ms)" using Cons.prems(1) by simp
  ultimately show ?case
    using Cons.IH [of "smap_emplace (to_hex enc s) admin ms"] Cons.prems f(1)
    by (auto simp: map_of_smap_emplace split: option.splits)
qed (auto split: option.split)

lemma load_stored_members:
  assumes "member_ids_ok enc ms"
    and "(case maybe_set d ''m'' of Some s \<Rightarrow> s | None \<Rightarrow> []) = member_set enc False ms"
    and "(case maybe_set d ''a'' of Some s \<Rightarrow> s | None \<Rightarrow> []) = member_set enc True ms"
  shows "load_members enc d = ms"
proof -
  have ok: "smap_ok ms" "\<And>m a. (m, a) \<in> set ms \<Longrightarrow>
      length (from_hex enc m) = 33 \<and> hd (from_hex enc m) = CHR 0x05 \<and> to_hex enc (from_hex enc m) = m"
    using assms(1) by (force simp: member_ids_ok_def)+
  let ?m = "fold (load_member enc False) (member_set enc False ms) []"
  have shape: "\<And>f. f \<in> set (member_set enc a ms) \<Longrightarrow> \<exists>s. f = SStr s \<and> length s = 33 \<and> hd s = CHR 0x05" for a
    using ok(2) by (auto simp: member_set_set)
  have has: "(\<exists>s. SStr s \<in> set (member_set enc a ms) \<and> k = to_hex enc s) \<longleftrightarrow> map_of ms k = Some a" for a k
    using ok by (auto simp: member_set_set map_of_Some_smap)
  have m: "smap_ok ?m" "map_of ?m k = (if map_of ms k = Some False then Some False else None)" for k
    using load_member_fold [of "[]" "member_set enc False ms" enc False k] shape by (simp_all add: has)
  let ?a = "fold (load_member enc True) (member_set enc True ms) ?m"
  have a: "smap_ok ?a \<and> map_of ?a k = (case map_of ?m k of Some a \<Rightarrow> Some a
      | None \<Rightarrow> if \<exists>s. SStr s \<in> set (member_set enc True ms) \<and> k = to_hex enc s then Some True else None)" for k
    by (rule load_member_fold [OF m(1) shape])
  have "map_of ?a k = map_of ms k" for k
    using a [of k] unfolding has m(2) by (cases "map_of ms k"; cases "the (map_of ms k)") simp_all
  then have "map_of ?a = map_of ms" by blast
  then have "?a = ms" using a ok(1) by (intro smap_ext) auto
  then show ?thesis using assms(2,3) by (simp add: load_members_def Let_def)
qed

lemma legacy_fields_ok:
  assumes "legacy_ok enc g"
  shows "\<forall>kv \<in> set (legacy_fields enc g). pred_option field_value_ok (snd kv)" "distinct (map fst (legacy_fields enc g))"
    "map_of (legacy_fields enc g) ''n'' = Some (Some (VScalar (SStr (bg_name g))))"
proof -
  have sets: "s \<noteq> [] \<Longrightarrow> s = member_set enc a ms \<Longrightarrow> field_value_ok (VSet s)" for s a ms
    using member_set_props(2) [of "[]" a enc ms] member_set_set [of enc a ms]
    by (auto simp: field_value_ok_def member_set_def list_all_iff)
  show "\<forall>kv \<in> set (legacy_fields enc g). pred_option field_value_ok (snd kv)"
    using assms base_fields_ok [of g] sets by (auto simp: legacy_fields_def legacy_ok_def Let_def)
  show "distinct (map fst (legacy_fields enc g))" by (simp add: legacy_fields_def Let_def)
  have "map_of (base_fields g) ''n'' = None" by (simp add: base_fields_def)
  then show "map_of (legacy_fields enc g) ''n'' = Some (Some (VScalar (SStr (bg_name g))))"
    using assms by (simp add: legacy_fields_def Let_def map_add_def legacy_ok_def NAME_MAX_LENGTH_def)
qed

lemma legacy_load_fields:
  assumes "legacy_ok enc g" "\<And>k vo. (k, vo) \<in> set (legacy_fields enc g) \<Longrightarrow> map_of d k = vo"
    and "lg_session_id g0 = lg_session_id g"
  shows "legacy_load enc d g0 = g"
proof -
  have ok: "base_ok g" "length (bg_name g) \<le> 100" "member_ids_ok enc (lg_members g)" "0 \<le> disappearing_timer g"
    "if enc_pubkey g = [] then enc_seckey g = [] else length (enc_pubkey g) = 32 \<and> length (enc_seckey g) = 32"
    using assms(1) by (simp_all add: legacy_ok_def)
  let ?keys = "length (enc_pubkey g) = 32 \<and> length (enc_seckey g) = 32"
  let ?m = "member_set enc False (lg_members g)" and ?a = "member_set enc True (lg_members g)"
  have fields: "map_of d ''n'' = Some (VScalar (SStr (bg_name g)))"
    "map_of d ''k'' = (if ?keys then Some (VScalar (SStr (enc_pubkey g))) else None)"
    "map_of d ''K'' = (if ?keys then Some (VScalar (SStr (enc_seckey g))) else None)"
    "map_of d ''m'' = (if ?m = [] then None else Some (VSet ?m))"
    "map_of d ''a'' = (if ?a = [] then None else Some (VSet ?a))"
    "map_of d ''E'' = (if disappearing_timer g > 0 then Some (VScalar (SInt (disappearing_timer g))) else None)"
    using ok(2) by (subst assms(2); simp add: legacy_fields_def Let_def NAME_MAX_LENGTH_def)+
  have base: "map_of d k = vo" if "(k, vo) \<in> set (base_fields g)" for k vo
    by (rule assms(2)) (use that in \<open>simp add: legacy_fields_def Let_def\<close>)
  have mem: "load_members enc d = lg_members g"
    by (rule load_stored_members [OF ok(3)]) (simp_all add: maybe_set_def fields(4,5))
  have strs: "str_field d ''n'' = bg_name g" "int_field d ''E'' = disappearing_timer g"
    using fields(1,6) ok(4) by (simp_all add: str_field_def string_or_def maybe_string_def int_field_def maybe_int_def integer_or_def)
  have keys: "(case (maybe_string d ''k'', maybe_string d ''K'') of
      (Some p, Some s) \<Rightarrow> if length p = 32 \<and> length s = 32 then (p, s) else ([], []) | _ \<Rightarrow> ([], [])) = (enc_pubkey g, enc_seckey g)"
    using fields(2,3) ok(5) by (cases "enc_pubkey g = []") (simp_all add: maybe_string_def)
  show ?thesis
    using ok(4) assms(3) base_load_fields [OF ok(1) base, of g0] unfolding legacy_load_def Let_def keys strs mem by simp
qed

lemma ug_set_legacy_fields:
  assumes "session_id_to_bytes enc (lg_session_id g) ''05'' = Inr pk"
    and "e_ndebug e \<or> list_all (\<lambda>(member, _). is_hex enc member) (lg_members g)"
  shows "ug_set_legacy_group e enc g b = res_fold (write_field e ([''C''] @ [pk])) (legacy_fields enc g) b"
  using assms
  by (simp add: ug_set_legacy_group_def legacy_fields_def Let_def ug_set_base_fields res_fold_append write_set
      field_writes guard_def split del: if_split)

text \<open>
  A legacy group is stored and fetched unchanged, its member and admin lists included, and the other
  legacy groups read as before.
\<close>

theorem legacy_group_set_get:
  assumes "editable e b" "base_inv b" "legacy_ok enc g" "list_all (\<lambda>(member, _). is_hex enc member) (lg_members g)"
  shows "\<exists>b'. ug_set_legacy_group e enc g b = Inr b' \<and> ug_get_legacy_group enc (lg_session_id g) b' = Inr (Some g) \<and>
     (\<forall>sid. from_hex enc sid \<noteq> from_hex enc (lg_session_id g) \<longrightarrow>
        ug_get_legacy_group enc sid b' = ug_get_legacy_group enc sid b)"
proof -
  let ?pk = "from_hex enc (lg_session_id g)"
  have sid: "check_session_id enc (lg_session_id g) ''05'' = Inr ()" using assms(3) by (simp add: legacy_ok_def)
  then have pk: "session_id_to_bytes enc (lg_session_id g) ''05'' = Inr ?pk" by (rule session_id_bytes)
  obtain b' d where b': "res_fold (write_field e ([''C''] @ [?pk])) (legacy_fields enc g) b = Inr b'"
    "get_dict [''C''] ?pk b' = Some d" "\<forall>i vo. map_of (legacy_fields enc g) i = Some vo \<longrightarrow> map_of d i = vo"
    "\<forall>i. i \<noteq> ?pk \<longrightarrow> get_clean [''C''] i b' = get_clean [''C''] i b"
    using entry_written [OF assms(1,2) legacy_fields_ok [OF assms(3)]] by blast
  have "map_of d k = vo" if "(k, vo) \<in> set (legacy_fields enc g)" for k vo
    using b'(3) that legacy_fields_ok(2) [OF assms(3)] by (simp add: map_of_is_SomeI)
  then have "legacy_load enc d g0 = g" if "lg_session_id g0 = lg_session_id g" for g0
    using legacy_load_fields [OF assms(3)] that by blast
  then have "ug_get_legacy_group enc (lg_session_id g) b' = Inr (Some g)"
    using b'(2) pk sid by (simp add: ug_get_legacy_group_def new_legacy_group_info_def)
  moreover have "ug_set_legacy_group e enc g b = Inr b'"
    using ug_set_legacy_fields [OF pk] assms(4) b'(1) by simp
  moreover have "ug_get_legacy_group enc sid b' = ug_get_legacy_group enc sid b" if "from_hex enc sid \<noteq> ?pk" for sid
    using b'(4) that by (simp add: ug_get_legacy_group_def get_dict_def session_id_to_bytes_def)
  ultimately show ?thesis by blast
qed

section \<open>New-style groups\<close>

definition group_fields :: "bool \<Rightarrow> group_info \<Rightarrow> (string \<times> dict_value option) list" where
  "group_fields admin g =
     base_fields g @
     [(''n'', if take NAME_MAX_LENGTH (bg_name g) \<noteq> [] then Some (VScalar (SStr (take NAME_MAX_LENGTH (bg_name g)))) else None),
      (''r'', if removed_status g > 0 then Some (VScalar (SInt (removed_status g))) else None),
      (''K'', Some (VScalar (SStr (if admin then take 32 (secretkey g) else []))))] @
     (if admin then [] else [(''s'', if length (auth_data g) = 100 then Some (VScalar (SStr (auth_data g))) else None)])"

text \<open>The secret key of an admin belongs to the group's id.\<close>

definition admin_key :: "(bytes \<Rightarrow> bytes \<times> bytes) \<Rightarrow> encodings \<Rightarrow> group_info \<Rightarrow> bool" where
  "admin_key keypair enc g \<longleftrightarrow>
     (let seed = take 32 (secretkey g) in
      length (secretkey g) = 64 \<and> keypair seed = (drop 32 (secretkey g), secretkey g) \<and>
      gi_id g = to_hex enc (CHR 0x03 # drop 32 (secretkey g)))"

definition group_ok :: "(bytes \<Rightarrow> bytes \<times> bytes) \<Rightarrow> encodings \<Rightarrow> group_info \<Rightarrow> bool" where
  "group_ok keypair enc g \<longleftrightarrow> base_ok g \<and> check_session_id enc (gi_id g) ''03'' = Inr () \<and> length (bg_name g) \<le> 100 \<and>
     (secretkey g = [] \<or> admin_key keypair enc g) \<and> length (auth_data g) \<in> {0, 100} \<and>
     0 \<le> removed_status g \<and> in_i32 (removed_status g)"

lemma group_fields_ok:
  assumes "group_ok keypair enc g"
  shows "\<forall>kv \<in> set (group_fields admin g). pred_option field_value_ok (snd kv)" "distinct (map fst (group_fields admin g))"
  using assms base_fields_ok [of g] by (auto simp: group_fields_def group_ok_def i32_i64)

lemma ug_set_group_fields:
  assumes "session_id_to_bytes enc (gi_id g) ''03'' = Inr pk"
    and "admin \<longleftrightarrow> length (secretkey g) = 64 \<and> take 32 (drop 32 (secretkey g)) = drop 1 pk"
  shows "ug_set_group e enc g b = res_fold (write_field e [''g'', pk]) (group_fields admin g) b"
proof -
  have last: "(if length (auth_data g) = 100 then assign_if_changed e p ''s'' (VScalar (SStr (auth_data g))) b
      else erase_field e p ''s'' b) =
    write_field e p (''s'', if length (auth_data g) = 100 then Some (VScalar (SStr (auth_data g))) else None) b" for p b
    by (simp add: assign_writes erase_writes)
  have cond: "(length (secretkey g) = 64 \<and> take 32 (drop 32 (secretkey g)) = drop (Suc 0) pk) = admin"
    using assms(2) by simp
  show ?thesis
    using assms(1) unfolding ug_set_group_def Let_def last
    by (cases admin) (simp_all only: assms(1) res_bind_simps One_nat_def cond if_True if_False,
        simp_all add: group_fields_def ug_set_base_fields res_fold_append field_writes split del: if_split)
qed

definition sig_field :: "dict_value option \<Rightarrow> bytes" where
  "sig_field v = (case v of Some (VScalar (SStr sig)) \<Rightarrow> if length sig = 100 then sig else [] | _ \<Rightarrow> [])"

lemma group_load_fields:
  assumes "group_ok keypair enc g" "admin \<longleftrightarrow> secretkey g \<noteq> []"
    and "\<And>k vo. (k, vo) \<in> set (group_fields admin g) \<Longrightarrow> map_of d k = vo"
    and "gi_id g0 = gi_id g" "secretkey g0 = []" "auth_data g0 = []"
  shows "group_load keypair enc d g0 = (if admin then g\<lparr> auth_data := sig_field (map_of d ''s'') \<rparr> else g)"
proof -
  have ok: "base_ok g" "length (bg_name g) \<le> 100" "0 \<le> removed_status g" "in_i32 (removed_status g)"
    "admin \<Longrightarrow> admin_key keypair enc g" "length (auth_data g) = 0 \<or> length (auth_data g) = 100"
    using assms(1,2) by (auto simp: group_ok_def)
  have fields: "map_of d ''n'' = (if bg_name g \<noteq> [] then Some (VScalar (SStr (bg_name g))) else None)"
    "map_of d ''r'' = (if removed_status g > 0 then Some (VScalar (SInt (removed_status g))) else None)"
    "map_of d ''K'' = Some (VScalar (SStr (if admin then take 32 (secretkey g) else [])))"
    using ok(2) by (subst assms(3); simp add: group_fields_def NAME_MAX_LENGTH_def)+
  have sig: "map_of d ''s'' = (if length (auth_data g) = 100 then Some (VScalar (SStr (auth_data g))) else None)" if "\<not> admin"
    using that by (subst assms(3)) (simp_all add: group_fields_def)
  have base: "map_of d k = vo" if "(k, vo) \<in> set (base_fields g)" for k vo
    by (rule assms(3)) (use that in \<open>simp add: group_fields_def\<close>)
  have strs: "str_field d ''n'' = bg_name g" "to_int32 (int_field d ''r'') = removed_status g"
    using fields(1,2) ok(3,4) by (auto simp: str_field_def string_or_def maybe_string_def int_field_def maybe_int_def integer_or_def)
  note load = base_load_fields [OF ok(1) base, of g0]
  show ?thesis
  proof (cases admin)
    case True
    then have "keypair (take 32 (secretkey g)) = (drop 32 (secretkey g), secretkey g)" "length (secretkey g) = 64"
      "gi_id g = to_hex enc (CHR 0x03 # drop 32 (secretkey g))"
      using ok(5) by (simp_all add: admin_key_def Let_def)
    with True show ?thesis
      using fields(3) load assms(4-6)
      by (simp add: group_load_def Let_def strs maybe_string_def sig_field_def split: option.split dict_value.split scalar.split)
  next
    case False
    then show ?thesis
      using fields(3) sig load assms(2,4-6) ok(6) by (auto simp: group_load_def Let_def strs maybe_string_def)
  qed
qed

text \<open>
  C35: a group is stored and fetched unchanged, the admin's secret key reconstructed from its seed, and the
  other groups read as before. For a group with a secret key one field is not what was stored: its
  authentication data is what an earlier entry held, because storing the secret key leaves that field
  alone (the documentation says it is dropped).
\<close>

theorem group_set_get:
  assumes "editable e b" "base_inv b" "hex_ok enc" "group_ok keypair enc g"
  shows "\<exists>b'. ug_set_group e enc g b = Inr b' \<and>
     ug_get_group keypair enc (gi_id g) b' = Inr (Some (if secretkey g = [] then g
       else g\<lparr> auth_data := sig_field (get_clean [''g'', from_hex enc (gi_id g)] ''s'' b) \<rparr>)) \<and>
     (\<forall>gid. from_hex enc gid \<noteq> from_hex enc (gi_id g) \<longrightarrow> ug_get_group keypair enc gid b' = ug_get_group keypair enc gid b)"
proof -
  let ?pk = "from_hex enc (gi_id g)" and ?admin = "secretkey g \<noteq> []" and ?p = "[''g''] @ [from_hex enc (gi_id g)]"
  let ?fs = "group_fields ?admin g"
  note fs = group_fields_ok [OF assms(4), of ?admin]
  have gid: "check_session_id enc (gi_id g) ''03'' = Inr ()" using assms(4) by (simp add: group_ok_def)
  then have pk: "session_id_to_bytes enc (gi_id g) ''03'' = Inr ?pk" by (rule session_id_bytes)
  have "length (secretkey g) = 64 \<and> ?pk = CHR 0x03 # drop 32 (secretkey g)" if ?admin
    using that assms(3,4) by (auto simp: group_ok_def admin_key_def Let_def hex_ok_def)
  then have admin: "?admin \<longleftrightarrow> length (secretkey g) = 64 \<and> take 32 (drop 32 (secretkey g)) = drop 1 ?pk" by auto
  have K: "map_of ?fs ''K'' = Some (Some (VScalar (SStr (if ?admin then take 32 (secretkey g) else []))))"
    using fs(2) by (intro map_of_is_SomeI) (simp_all add: group_fields_def)
  obtain b' where b': "res_fold (write_field e ?p) ?fs b = Inr b'"
    "\<forall>k. get_clean ?p k b' = (case map_of ?fs k of None \<Rightarrow> get_clean ?p k b | Some vo \<Rightarrow> vo)"
    "\<forall>i. i \<noteq> ?pk \<longrightarrow> get_clean [''g''] i b' = get_clean [''g''] i b"
    using read_written_frame [OF assms(1,2) fs, of "[''g'']" ?pk "[]"] by auto
  obtain d where d: "get_dict [''g''] ?pk b' = Some d" "\<forall>i. map_of d i = get_clean ?p i b'"
    using get_dict_fields [of "[''g'']" ?pk "''K''" b'] b'(2) K by auto
  have fields: "map_of d k = vo" if "(k, vo) \<in> set ?fs" for k vo
    using d(2) b'(2) map_of_is_SomeI [OF fs(2) that] by simp
  have s: "map_of d ''s'' = get_clean ?p ''s'' b" if ?admin
    using d(2) b'(2) that by (simp add: group_fields_def base_fields_def)
  have "group_load keypair enc d g0 = (if ?admin then g\<lparr> auth_data := sig_field (get_clean ?p ''s'' b) \<rparr> else g)"
    if "gi_id g0 = gi_id g" "secretkey g0 = []" "auth_data g0 = []" for g0
    using group_load_fields [OF assms(4) refl fields that] s by auto
  then have "ug_get_group keypair enc (gi_id g) b' =
      Inr (Some (if ?admin then g\<lparr> auth_data := sig_field (get_clean ?p ''s'' b) \<rparr> else g))"
    using d(1) pk gid by (simp add: ug_get_group_def new_group_info_def)
  moreover have "ug_set_group e enc g b = Inr b'" using ug_set_group_fields [OF pk admin] b'(1) by simp
  moreover have "ug_get_group keypair enc i b' = ug_get_group keypair enc i b" if "from_hex enc i \<noteq> ?pk" for i
    using b'(3) that by (simp add: ug_get_group_def get_dict_def session_id_to_bytes_def)
  ultimately show ?thesis by auto
qed

section \<open>Membership status\<close>

inductive status_step :: "group_info \<Rightarrow> group_info \<Rightarrow> bool" where
  kick: "status_step g (mark_kicked g)"
| invite: "status_step g (mark_invited g)"
| destroy: "status_step g (mark_destroyed g)"

inductive_cases status_stepE: "status_step g g'"

lemma destroyed_step:
  "status_step g g' \<Longrightarrow> is_destroyed g \<and> secretkey g = [] \<and> auth_data g = [] \<Longrightarrow>
   is_destroyed g' \<and> secretkey g' = [] \<and> auth_data g' = []"
  by (auto elim!: status_stepE simp: mark_kicked_def mark_invited_def mark_destroyed_def is_destroyed_def
      GROUP_DESTROYED_def KICKED_FROM_GROUP_def Let_def)

text \<open>
  A destroyed group stays destroyed and without credentials whatever is marked afterwards, and the
  invitation of a kicked member undoes the kick except for the credentials, which are gone.
\<close>

theorem destroyed_is_final:
  assumes "status_step\<^sup>*\<^sup>* (mark_destroyed g) g'"
  shows "is_destroyed g' \<and> \<not> kicked g' \<and> secretkey g' = [] \<and> auth_data g' = [] \<and>
     (\<not> is_destroyed h \<longrightarrow> kicked (mark_kicked h) \<and>
        mark_invited (mark_kicked h) = h\<lparr> removed_status := NOT_REMOVED, secretkey := [], auth_data := [] \<rparr>)"
proof -
  have "is_destroyed g' \<and> secretkey g' = [] \<and> auth_data g' = []"
    using assms
  proof (induction rule: rtranclp_induct)
    case base
    then show ?case by (simp add: mark_destroyed_def is_destroyed_def)
  next
    case (step y z)
    then show ?case using destroyed_step by blast
  qed
  then show ?thesis
    by (auto simp: kicked_def is_destroyed_def mark_kicked_def mark_invited_def GROUP_DESTROYED_def KICKED_FROM_GROUP_def Let_def)
qed

section \<open>Communities\<close>

lemma get_clean_snoc: "get_clean (p @ [k]) i b = (case get_dict p k b of Some d \<Rightarrow> map_of d i | None \<Rightarrow> None)"
  by (auto simp: get_dict_def get_clean_def get_path_def follow_append split: option.split dict_value.split)

lemma no_entries: "(case get_dict p k b of None \<Rightarrow> True | Some d \<Rightarrow> d = []) \<longleftrightarrow> (\<forall>i. get_clean (p @ [k]) i b = None)"
proof -
  have "d = []" if "\<forall>i. map_of d i = None" for d :: dict
    using that by (metis list.exhaust map_of_eq_None_iff fst_conv image_eqI list.set_intros(1))
  then show ?thesis by (auto simp: get_clean_snoc split: option.split)
qed

text \<open>
  Erasing a community removes its room and nothing else, unless it was the last room of its server:
  then the server's entry goes with it. The returned flag says whether the room was there.
\<close>

theorem erase_community_effect:
  assumes "editable e b" "base_inv b" "canonical_url url = Inr u" "canonical_room room = Inr r"
  shows "\<exists>b'. ug_erase_community e url room b = Inr (get_clean [''o'', u, ''R''] r b \<noteq> None, b') \<and>
     get_clean [''o'', u, ''R''] r b' = None \<and>
     (if get_clean [''o'', u, ''R''] r b \<noteq> None \<and> (\<forall>i. i \<noteq> r \<longrightarrow> get_clean [''o'', u, ''R''] i b = None)
      then get_clean [''o''] u b' = None
      else \<forall>i. i \<noteq> r \<longrightarrow> get_clean [''o'', u, ''R''] i b' = get_clean [''o'', u, ''R''] i b) \<and>
     (\<forall>i. i \<noteq> u \<longrightarrow> get_clean [''o''] i b' = get_clean [''o''] i b)"
proof -
  let ?c = "\<lparr> co_base_url = u, co_room_norm = r, co_localized_room = Some room, co_pubkey = [] \<rparr>"
  have c: "new_community url room = Inr ?c"
    using assms(3,4) by (simp add: new_community_def set_base_url_def set_room_def no_community_def)
  obtain b1 where b1: "erase_field e [''o'', u, ''R''] r b = Inr b1" "editable e b1" "base_inv b1"
    "\<forall>i. get_clean [''o'', u, ''R''] i b1 = (if i = r then None else get_clean [''o'', u, ''R''] i b)"
    "\<forall>i. i \<noteq> u \<longrightarrow> get_clean [''o''] i b1 = get_clean [''o''] i b"
    using erased_fields [OF assms(1,2), of "[''o'']" u "[''R'']" "[r]"] by (auto simp: res_fold_steps)
  have last: "(case get_dict [''o'', u] ''R'' b1 of None \<Rightarrow> True | Some d \<Rightarrow> d = []) \<longleftrightarrow>
      (\<forall>i. i \<noteq> r \<longrightarrow> get_clean [''o'', u, ''R''] i b = None)"
    using no_entries [of "[''o'', u]" "''R''" b1] b1(4) by auto
  obtain b2 where b2: "erase_field e [''o'', u] ''R'' b1 = Inr b2" "editable e b2" "base_inv b2"
    "\<forall>i. i \<noteq> u \<longrightarrow> get_clean [''o''] i b2 = get_clean [''o''] i b1"
    using erased_fields [OF b1(2,3), of "[''o'']" u "[]" "[''R'']"] by (auto simp: res_fold_steps)
  obtain b3 where b3: "erase_field e [''o''] u b2 = Inr b3"
    "\<forall>i. get_clean [''o''] i b3 = (if i = u then None else get_clean [''o''] i b2)"
    using erased_fields [OF b2(2,3), of "[]" "''o''" "[]" "[u]"] by (auto simp: res_fold_steps)
  have gone: "get_clean [''o'', u, ''R''] r b3 = None"
    using b3(2) get_clean_snoc [of "[''o'']" u "''R''" b3]
    by (auto simp: get_clean_def get_path_Cons get_path_Nil split: option.splits dict_value.splits)
  show ?thesis
    using c b1 b2 b3 gone last
    by (cases "get_clean [''o'', u, ''R''] r b \<noteq> None \<and> (\<forall>i. i \<noteq> r \<longrightarrow> get_clean [''o'', u, ''R''] i b = None)")
       (auto simp: ug_erase_community_def erase_impl_def community_path_def Let_def)
qed

definition community_info_ok :: "community_info \<Rightarrow> bool" where
  "community_info_ok c \<longleftrightarrow> base_ok c \<and> bg_name c = [] \<and> canonical_url (co_base_url (info_comm c)) = Inr (co_base_url (info_comm c)) \<and>
     co_localized_room (info_comm c) \<noteq> None \<and> canonical_room (co_room (info_comm c)) = Inr (co_room_norm (info_comm c)) \<and>
     length (co_pubkey (info_comm c)) = 32"

definition community_fields :: "community_info \<Rightarrow> (string \<times> dict_value option) list" where
  "community_fields c = base_fields c @ [(''n'', Some (VScalar (SStr (co_room (info_comm c)))))]"

lemma community_load_fields:
  assumes "community_info_ok c" "\<And>k vo. (k, vo) \<in> set (community_fields c) \<Longrightarrow> map_of d k = vo"
    and "bg_name g0 = []" "co_base_url (info_comm g0) = co_base_url (info_comm c)"
  shows "\<exists>g. community_info_load d g0 = Inr g \<and>
    g\<lparr> info_comm := (info_comm g)\<lparr> co_pubkey := co_pubkey (info_comm c) \<rparr> \<rparr> = c"
proof -
  have ok: "base_ok c" "canonical_room (co_room (info_comm c)) = Inr (co_room_norm (info_comm c))"
    "co_localized_room (info_comm c) = Some (co_room (info_comm c))" "bg_name c = []"
    using assms(1) by (auto simp: community_info_ok_def co_room_def)
  have "map_of d k = vo" if "(k, vo) \<in> set (base_fields c)" for k vo
    by (rule assms(2)) (use that in \<open>simp add: community_fields_def\<close>)
  note load = base_load_fields [OF ok(1) this, of g0]
  have "map_of d ''n'' = Some (VScalar (SStr (co_room (info_comm c))))"
    by (rule assms(2)) (simp add: community_fields_def)
  then show ?thesis
    using load ok assms(3,4) by (simp add: community_info_load_def Let_def maybe_string_def set_room_def)
qed

text \<open>
  A community is stored and fetched unchanged: its room is found under every spelling, with the
  spelling and the pubkey it was stored with, and the communities of other servers read as before.
\<close>

theorem community_set_get:
  assumes "editable e b" "base_inv b" "community_info_ok c" "canonical_url url = Inr (co_base_url (info_comm c))"
    and "canonical_room room = Inr (co_room_norm (info_comm c))"
  shows "\<exists>b'. ug_set_community e c b = Inr b' \<and> ug_get_community url room b' = Inr (Some c) \<and>
     (\<forall>url' room' u'. canonical_url url' = Inr u' \<and> u' \<noteq> co_base_url (info_comm c) \<longrightarrow>
        ug_get_community url' room' b' = ug_get_community url' room' b)"
proof -
  let ?u = "co_base_url (info_comm c)" and ?r = "co_room_norm (info_comm c)" and ?pk = "co_pubkey (info_comm c)"
  let ?fs = "community_fields c" and ?pf = "[(''#'', Some (VScalar (SStr (co_pubkey (info_comm c)))))]"
  have pf: "\<forall>kv \<in> set ?pf. pred_option field_value_ok (snd kv)" "distinct (map fst ?pf)" by simp_all
  have fs: "\<forall>kv \<in> set ?fs. pred_option field_value_ok (snd kv)" "distinct (map fst ?fs)"
    "map_of ?fs ''n'' = Some (Some (VScalar (SStr (co_room (info_comm c)))))"
    using assms(3) base_fields_ok [of c] by (auto simp: community_fields_def community_info_ok_def base_fields_def)
  obtain b1 where b1: "res_fold (write_field e [''o'', ?u]) ?pf b = Inr b1" "editable e b1" "base_inv b1"
    "get_clean [''o'', ?u] ''#'' b1 = Some (VScalar (SStr ?pk))" "\<forall>i. i \<noteq> ?u \<longrightarrow> get_clean [''o''] i b1 = get_clean [''o''] i b"
    using read_written_frame [OF assms(1,2) pf, of "[''o'']" ?u "[]"] by auto
  obtain b2 d where b2: "res_fold (write_field e [''o'', ?u, ''R'', ?r]) ?fs b1 = Inr b2"
    "get_dict [''o'', ?u, ''R''] ?r b2 = Some d" "\<forall>i vo. map_of ?fs i = Some vo \<longrightarrow> map_of d i = vo"
    using entry_written [OF b1(2,3) fs, of "[''o'', ?u, ''R'']" ?r] by auto
  have keep: "get_clean [''o'', ?u] ''#'' b2 = get_clean [''o'', ?u] ''#'' b1"
    using read_written_frame [OF b1(2,3) fs(1,2), of "[''o'', ?u]" "''R''" "[?r]"] b2(1) by auto
  have frame: "get_clean [''o''] i b2 = get_clean [''o''] i b" if "i \<noteq> ?u" for i
    using read_written_frame [OF b1(2,3) fs(1,2), of "[''o'']" ?u "[''R'', ?r]"] b2(1) b1(5) that by auto
  have "map_of d k = vo" if "(k, vo) \<in> set ?fs" for k vo
    using b2(3) that fs(2) by (simp add: map_of_is_SomeI)
  note load = community_load_fields [OF assms(3) this]
  let ?og = "\<lparr> co_base_url = ?u, co_room_norm = ?r, co_localized_room = Some room, co_pubkey = [] \<rparr>"
  obtain g where g: "community_info_load d (info_of ?og) = Inr g"
    "g\<lparr> info_comm := (info_comm g)\<lparr> co_pubkey := ?pk \<rparr> \<rparr> = c"
    using load [of "info_of ?og"] by (auto simp: info_of_def)
  have og: "new_community url room = Inr ?og"
    using assms(4,5) by (simp add: new_community_def set_base_url_def set_room_def no_community_def)
  have "length ?pk = 32" using assms(3) by (simp add: community_info_ok_def)
  then have "stored_pubkey ?og b2 = ?pk" "set_pubkey ?pk (info_comm g) = Inr ((info_comm g)\<lparr> co_pubkey := ?pk \<rparr>)" "?pk \<noteq> []"
    using keep b1(4) by (auto simp: stored_pubkey_def get_string_def string_or_def set_pubkey_def)
  then have "ug_get_community url room b2 = Inr (Some c)"
    using og g b2(2) by (simp add: ug_get_community_def community_path_def)
  moreover have "ug_set_community e c b = Inr b2"
    using b1(1) b2(1) by (simp add: ug_set_community_def Let_def community_path_def ug_set_base_fields assign_writes
        community_fields_def res_fold_append res_fold_steps)
  moreover have "ug_get_community url' room' b2 = ug_get_community url' room' b"
    if "canonical_url url' = Inr u'" "u' \<noteq> ?u" for url' room' u'
  proof -
    have "get_clean [''o''] u' b2 = get_clean [''o''] u' b" using frame that(2) by blast
    then have "get_clean (''o'' # u' # q) k b2 = get_clean (''o'' # u' # q) k b" for q k
      by (auto simp: get_clean_def get_path_Cons get_path_Nil split: option.splits dict_value.splits)
    then have "get_dict (''o'' # u' # q) k b2 = get_dict (''o'' # u' # q) k b" "co_base_url og = u' \<Longrightarrow> stored_pubkey og b2 = stored_pubkey og b"
      for q k og by (simp_all add: get_dict_def stored_pubkey_def get_string_def)
    then show ?thesis
      using that(1) by (cases "canonical_room room'") (simp_all add: ug_get_community_def new_community_def set_base_url_def
          set_room_def no_community_def community_path_def split: option.split)
  qed
  ultimately show ?thesis by blast
qed

section \<open>Passing groups through the C interface\<close>

lemma copy_fits: "length s < n \<Longrightarrow> copy_c_str n s = Inr (s @ [CHR 0x00])"
  by (simp add: copy_c_str_def Let_def)

lemma c_string_copied: "CHR 0x00 \<notin> set s \<Longrightarrow> c_string (s @ [CHR 0x00]) = s"
  by (auto simp: c_string_def takeWhile_append)

lemma group_through_c:
  assumes "base_ok g" "length (gi_id g) = 66" "length (bg_name g) \<le> 100" "CHR 0x00 \<notin> set (bg_name g)"
    "secretkey g = [] \<or> length (secretkey g) = 64" "auth_data g = [] \<or> length (auth_data g) = 100"
  shows "\<exists>c'. group_into e g c = Inr c' \<and> group_from e c' = Inr g"
proof -
  have ok: "in_i32 (bg_priority g)" "seconds_ok (bg_joined_at g)" "seconds_ok (bg_mute_until g)"
    using assms(1) by (simp_all add: base_ok_def)
  show ?thesis
    using assms(5,6) ok assms(2-4)
    by (elim disjE) (simp_all add: group_into_def group_from_def copy_fits guard_def Let_def c_string_copied base_from_def
        base_into_def NAME_MAX_LENGTH_def)
qed

lemma legacy_through_c:
  assumes "base_ok g" "length (lg_session_id g) = 66" "length (bg_name g) \<le> 100" "CHR 0x00 \<notin> set (bg_name g)"
    "enc_pubkey g = [] \<and> enc_seckey g = [] \<or> length (enc_pubkey g) = 32 \<and> length (enc_seckey g) = 32"
  shows "\<exists>c'. legacy_into e g c = Inr c' \<and> legacy_from e c' = Inr g"
proof -
  have ok: "in_i32 (bg_priority g)" "seconds_ok (bg_joined_at g)" "seconds_ok (bg_mute_until g)"
    using assms(1) by (simp_all add: base_ok_def)
  show ?thesis
    using assms(5) ok assms(2-4)
    by (elim disjE) (simp_all add: legacy_into_def legacy_from_def legacy_from_impl_def copy_fits guard_def Let_def c_string_copied
        base_from_def base_into_def NAME_MAX_LENGTH_def)
qed

lemma community_through_c:
  assumes "community_info_ok co"
  shows "\<exists>o'. community_into co oc = Inr o' \<and> community_from o' = Inr co"
proof -
  let ?c = "info_comm co"
  have c: "base_ok co" "bg_name co = []" "canonical_url (co_base_url ?c) = Inr (co_base_url ?c)"
    "co_localized_room ?c = Some (co_room ?c)" "canonical_room (co_room ?c) = Inr (co_room_norm ?c)" "length (co_pubkey ?c) = 32"
    using assms by (auto simp: community_info_ok_def co_room_def)
  have url: "CHR 0x00 \<notin> set (co_base_url ?c)" "length (co_base_url ?c) \<le> BASE_URL_MAX_LENGTH"
    using canonical_url_shape [OF c(3)] by auto
  note room = canonical_room_plain(3,4) [OF c(5)]
  have "new_community_pk (co_base_url ?c) (co_room ?c) (co_pubkey ?c) = Inr ?c"
    using c(3-6) by (simp add: new_community_pk_def set_base_url_def set_room_def set_pubkey_def new_community_def no_community_def)
  then show ?thesis
    using c(1,2,6) url room
    by (simp add: community_into_def community_from_def copy_fits guard_def c_string_copied base_from_def base_into_def
        base_ok_def info_of_def)
qed

text \<open>
  A group, a legacy group (with its members) and a community survive the conversion to their C
  structs and back, when the name has no null byte; without \<open>NDEBUG\<close> no assertion fails on the way.
\<close>

theorem c_struct_round_trip:
  assumes "group_ok keypair enc g" "CHR 0x00 \<notin> set (bg_name g)" "legacy_ok enc lg" "CHR 0x00 \<notin> set (bg_name lg)"
    and "community_info_ok co"
  shows "(\<exists>c'. group_into e g c = Inr c' \<and> group_from e c' = Inr g) \<and>
     (\<exists>l'. legacy_into e lg l = Inr l' \<and> legacy_from e l' = Inr lg) \<and>
     (\<exists>o'. community_into co oc = Inr o' \<and> community_from o' = Inr co)"
proof (intro conjI)
  show "\<exists>c'. group_into e g c = Inr c' \<and> group_from e c' = Inr g"
    using assms(1,2) by (intro group_through_c) (auto simp: group_ok_def check_session_id_def guard_def admin_key_def Let_def split: if_splits)
  show "\<exists>l'. legacy_into e lg l = Inr l' \<and> legacy_from e l' = Inr lg"
    using assms(3,4) by (intro legacy_through_c) (auto simp: legacy_ok_def check_session_id_def guard_def split: if_splits)
  show "\<exists>o'. community_into co oc = Inr o' \<and> community_from o' = Inr co"
    by (rule community_through_c [OF assms(5)])
qed

end
