(* ===== verification/Group_Members.thy ===== *)
theory Group_Members
  imports User_Groups
begin

text \<open>
  The two replicated configs of a new-style group: its info (\<open>src/src/config/groups/info.cpp\<close>) and its
  member list (\<open>src/src/config/groups/members.cpp\<close>, \<open>src/include/session/config/groups/members.hpp\<close>),
  with the invitation and promotion statuses of a member and the ids whose invitations this device is
  still sending.
\<close>

section \<open>Group info\<close>

definition INFO_NAME_MAX_LENGTH :: nat where "INFO_NAME_MAX_LENGTH = 100"
definition DESCRIPTION_MAX_LENGTH :: nat where "DESCRIPTION_MAX_LENGTH = 600"

definition info_get_name :: "config_base \<Rightarrow> string option" where
  "info_get_name b =
     (case get_string [] ''n'' b of Some s \<Rightarrow> if s = [] then None else Some s | None \<Rightarrow> None)"

definition info_set_name :: "env \<Rightarrow> string \<Rightarrow> config_base \<Rightarrow> config_base res" where
  "info_set_name e new_name b =
     (if length new_name > INFO_NAME_MAX_LENGTH then Inl Invalid_argument else set_nonempty_str e [] ''n'' new_name b)"

definition info_set_name_truncated :: "env \<Rightarrow> string \<Rightarrow> config_base \<Rightarrow> config_base res" where
  "info_set_name_truncated e new_name b = info_set_name e (utf8_truncate new_name INFO_NAME_MAX_LENGTH) b"

definition info_get_description :: "config_base \<Rightarrow> string option" where
  "info_get_description b =
     (case get_string [] ''o'' b of Some s \<Rightarrow> if s = [] then None else Some s | None \<Rightarrow> None)"

definition info_set_description :: "env \<Rightarrow> string \<Rightarrow> config_base \<Rightarrow> config_base res" where
  "info_set_description e new_desc b =
     (if length new_desc > DESCRIPTION_MAX_LENGTH then Inl Invalid_argument else set_nonempty_str e [] ''o'' new_desc b)"

definition info_set_description_truncated :: "env \<Rightarrow> string \<Rightarrow> config_base \<Rightarrow> config_base res" where
  "info_set_description_truncated e new_desc b =
     info_set_description e (utf8_truncate new_desc DESCRIPTION_MAX_LENGTH) b"

definition info_get_pic :: "config_base \<Rightarrow> profile_pic" where
  "info_get_pic b =
     \<lparr> pic_url = (case get_string [] ''p'' b of Some url \<Rightarrow> url | None \<Rightarrow> []),
       pic_key = (case get_string [] ''q'' b of Some key \<Rightarrow> if length key = 32 then key else [] | None \<Rightarrow> []) \<rparr>"

definition info_set_pic :: "env \<Rightarrow> string \<Rightarrow> bytes \<Rightarrow> config_base \<Rightarrow> config_base res" where
  "info_set_pic e url key b =
     set_pair_if e (url \<noteq> [] \<and> length key = 32)
       ([], ''p'', VScalar (SStr url)) ([], ''q'', VScalar (SStr key)) b"

definition get_expiry_timer :: "config_base \<Rightarrow> int option" where
  "get_expiry_timer b = get_integer [] ''E'' b"

definition set_expiry_timer :: "env \<Rightarrow> int \<Rightarrow> config_base \<Rightarrow> config_base res" where
  "set_expiry_timer e t b = set_positive_int e [] ''E'' t b"

definition set_created :: "env \<Rightarrow> int \<Rightarrow> config_base \<Rightarrow> config_base res" where
  "set_created e ts b = set_positive_int e [] ''c'' (to_epoch_seconds ts) b"

definition get_created :: "config_base \<Rightarrow> int option" where
  "get_created b = map_option to_epoch_seconds (get_integer [] ''c'' b)"

definition set_delete_before :: "env \<Rightarrow> int \<Rightarrow> config_base \<Rightarrow> config_base res" where
  "set_delete_before e ts b = set_positive_int e [] ''d'' (to_epoch_seconds ts) b"

definition get_delete_before :: "config_base \<Rightarrow> int option" where
  "get_delete_before b = map_option to_epoch_seconds (get_integer [] ''d'' b)"

definition set_delete_attach_before :: "env \<Rightarrow> int \<Rightarrow> config_base \<Rightarrow> config_base res" where
  "set_delete_attach_before e ts b = set_positive_int e [] ''D'' (to_epoch_seconds ts) b"

definition get_delete_attach_before :: "config_base \<Rightarrow> int option" where
  "get_delete_attach_before b = map_option to_epoch_seconds (get_integer [] ''D'' b)"

definition destroy_group :: "env \<Rightarrow> config_base \<Rightarrow> config_base res" where
  "destroy_group e b = set_flag e [] ''!'' True b"

definition info_is_destroyed :: "config_base \<Rightarrow> bool" where
  "info_is_destroyed b \<longleftrightarrow> (case get_integer [] ''!'' b of Some ts \<Rightarrow> ts > 0 | None \<Rightarrow> False)"

section \<open>Members\<close>

definition STATUS_SENT :: int where "STATUS_SENT = 1"
definition STATUS_FAILED :: int where "STATUS_FAILED = 2"
definition STATUS_NOT_SENT :: int where "STATUS_NOT_SENT = 3"
definition REMOVED_MEMBER :: int where "REMOVED_MEMBER = 1"
definition REMOVED_MEMBER_AND_MESSAGES :: int where "REMOVED_MEMBER_AND_MESSAGES = 2"
definition MEMBER_NAME_LENGTH :: nat where "MEMBER_NAME_LENGTH = 100"

lemmas status_codes = STATUS_SENT_def STATUS_FAILED_def STATUS_NOT_SENT_def REMOVED_MEMBER_def REMOVED_MEMBER_AND_MESSAGES_def

datatype member_status =
  Invite_unknown | Invite_not_sent | Invite_sending | Invite_failed | Invite_sent | Invite_accepted |
  Promotion_unknown | Promotion_not_sent | Promotion_sending | Promotion_failed | Promotion_sent | Promotion_accepted |
  Removed_unknown | Removed | Removed_including_messages

record member =
  mb_session_id :: string
  mb_name :: string
  mb_pic :: profile_pic
  mb_admin :: bool
  mb_supplement :: bool
  mb_invite_status :: int
  mb_promotion_status :: int
  mb_removed_status :: int

definition new_member :: "encodings \<Rightarrow> string \<Rightarrow> member res" where
  "new_member enc sid =
     res_bind (check_session_id enc sid ''05'') (\<lambda>_. Inr
       \<lparr> mb_session_id = sid, mb_name = [], mb_pic = no_pic, mb_admin = False, mb_supplement = False,
         mb_invite_status = STATUS_NOT_SENT, mb_promotion_status = 0, mb_removed_status = 0 \<rparr>)"

definition set_invite_sent :: "member \<Rightarrow> member" where
  "set_invite_sent m = m\<lparr> mb_invite_status := STATUS_SENT \<rparr>"

definition set_invite_not_sent :: "member \<Rightarrow> member" where
  "set_invite_not_sent m = m\<lparr> mb_invite_status := STATUS_NOT_SENT \<rparr>"

definition set_invite_failed :: "member \<Rightarrow> member" where
  "set_invite_failed m = m\<lparr> mb_invite_status := STATUS_FAILED \<rparr>"

definition set_invite_accepted :: "member \<Rightarrow> member" where
  "set_invite_accepted m = m\<lparr> mb_invite_status := 0, mb_supplement := False \<rparr>"

definition set_promoted :: "member \<Rightarrow> member" where
  "set_promoted m = m\<lparr> mb_admin := True, mb_invite_status := 0, mb_promotion_status := STATUS_NOT_SENT \<rparr>"

definition set_promotion_sent :: "member \<Rightarrow> member" where
  "set_promotion_sent m = m\<lparr> mb_admin := True, mb_invite_status := 0, mb_promotion_status := STATUS_SENT \<rparr>"

definition set_promotion_failed :: "member \<Rightarrow> member" where
  "set_promotion_failed m = m\<lparr> mb_admin := True, mb_invite_status := 0, mb_promotion_status := STATUS_FAILED \<rparr>"

definition set_promotion_accepted :: "member \<Rightarrow> member" where
  "set_promotion_accepted m = m\<lparr> mb_admin := True, mb_invite_status := 0, mb_promotion_status := 0 \<rparr>"

definition set_removed :: "bool \<Rightarrow> member \<Rightarrow> member" where
  "set_removed messages m = m\<lparr> mb_invite_status := 0, mb_promotion_status := 0,
     mb_removed_status := (if messages then REMOVED_MEMBER_AND_MESSAGES else REMOVED_MEMBER) \<rparr>"

definition member_set_name :: "string \<Rightarrow> member \<Rightarrow> member res" where
  "member_set_name n m = (if length n > MEMBER_NAME_LENGTH then Inl Invalid_argument else Inr (m\<lparr> mb_name := n \<rparr>))"

definition member_set_name_truncated :: "string \<Rightarrow> member \<Rightarrow> member res" where
  "member_set_name_truncated n m = member_set_name (utf8_truncate n MEMBER_NAME_LENGTH) m"

definition member_load :: "dict \<Rightarrow> member \<Rightarrow> member" where
  "member_load d m =
     (let admin = (int_field d ''A'' \<noteq> 0);
          invite = (if admin then 0 else to_int32 (int_field d ''I''));
          promotion = to_int32 (int_field d ''P'') in
      m\<lparr> mb_name := str_field d ''n'', mb_pic := load_pic d, mb_admin := admin, mb_invite_status := invite,
         mb_promotion_status := promotion, mb_removed_status := to_int32 (int_field d ''R''),
         mb_supplement := (if invite > 0 \<and> \<not> (admin \<or> promotion > 0) then int_field d ''s'' \<noteq> 0 else False) \<rparr>)"

text \<open>The config object and its set of ids with an invitation under way.\<close>

record members =
  mbs_base :: config_base
  pending_send_ids :: "string list"

definition members_get :: "encodings \<Rightarrow> string \<Rightarrow> members \<Rightarrow> member option res" where
  "members_get enc sid s =
     res_bind (session_id_to_bytes enc sid ''05'') (\<lambda>pk.
       case get_dict [''m''] pk (mbs_base s) of
         None \<Rightarrow> Inr None
       | Some d \<Rightarrow> res_bind (new_member enc sid) (\<lambda>m. Inr (Some (member_load d m))))"

definition members_get_or_construct :: "encodings \<Rightarrow> string \<Rightarrow> members \<Rightarrow> member res" where
  "members_get_or_construct enc sid s =
     res_bind (members_get enc sid s) (\<lambda>m. case m of Some m \<Rightarrow> Inr m | None \<Rightarrow> new_member enc sid)"

definition has_pending_send :: "string \<Rightarrow> members \<Rightarrow> bool" where
  "has_pending_send sid s \<longleftrightarrow> sid \<in> set (pending_send_ids s)"

definition set_pending_send :: "string \<Rightarrow> bool \<Rightarrow> members \<Rightarrow> members" where
  "set_pending_send sid pending s =
     (let ids = (if pending then set_insert sid (pending_send_ids s) else set_erase sid (pending_send_ids s)) in
      if has_pending_send sid s \<noteq> pending
      then s\<lparr> pending_send_ids := ids, mbs_base := (mbs_base s)\<lparr> cb_needs_dump := True \<rparr> \<rparr>
      else s)"

definition members_set :: "env \<Rightarrow> encodings \<Rightarrow> member \<Rightarrow> members \<Rightarrow> members res" where
  "members_set e enc m s =
     res_bind (session_id_to_bytes enc (mb_session_id m) ''05'') (\<lambda>pk.
     let info = [''m'', pk]; b = mbs_base s in
     res_bind (assign_if_changed e info ''n'' (VScalar (SStr (take MEMBER_NAME_LENGTH (mb_name m)))) b) (\<lambda>b.
     res_bind (set_pair_if e (\<not> pic_empty (mb_pic m))
                 (info, ''p'', VScalar (SStr (pic_url (mb_pic m)))) (info, ''q'', VScalar (SStr (pic_key (mb_pic m)))) b) (\<lambda>b.
     res_bind (set_flag e info ''A'' (mb_admin m) b) (\<lambda>b.
     res_bind (set_positive_int e info ''P'' (mb_promotion_status m) b) (\<lambda>b.
     res_bind (set_positive_int e info ''I'' (if mb_admin m then 0 else mb_invite_status m) b) (\<lambda>b.
     res_bind (set_flag e info ''s'' (mb_supplement m) b) (\<lambda>b.
     res_bind (set_positive_int e info ''R'' (mb_removed_status m) b) (\<lambda>b.
       let s = s\<lparr> mbs_base := b \<rparr> in
       Inr (if \<not> mb_admin m \<and> mb_invite_status m = STATUS_NOT_SENT \<or> mb_admin m \<and> mb_promotion_status m = STATUS_NOT_SENT
            then set_pending_send (mb_session_id m) True s
            else set_pending_send (mb_session_id m) False s)))))))))"

definition members_erase :: "env \<Rightarrow> encodings \<Rightarrow> string \<Rightarrow> members \<Rightarrow> (bool \<times> members) res" where
  "members_erase e enc sid s =
     res_bind (session_id_to_bytes enc sid ''05'') (\<lambda>pk.
       let ret = (get_clean [''m''] pk (mbs_base s) \<noteq> None) in
       res_bind (erase_field e [''m''] pk (mbs_base s)) (\<lambda>b.
         Inr (ret, set_pending_send sid False (s\<lparr> mbs_base := b \<rparr>))))"

definition members_size :: "members \<Rightarrow> nat" where
  "members_size s = (case get_dict [] ''m'' (mbs_base s) of Some d \<Rightarrow> length d | None \<Rightarrow> 0)"

fun members_iter :: "encodings \<Rightarrow> dict \<Rightarrow> member list res" where
  "members_iter enc [] = Inr []"
| "members_iter enc ((k, v) # it) =
     (case (length k = 33, v) of
        (True, VDict d) \<Rightarrow>
          res_bind (new_member enc (to_hex enc k)) (\<lambda>m.
          res_bind (members_iter enc it) (\<lambda>ms. Inr (member_load d m # ms)))
      | _ \<Rightarrow> members_iter enc it)"

definition members_all :: "encodings \<Rightarrow> members \<Rightarrow> member list res" where
  "members_all enc s = (case get_dict [] ''m'' (mbs_base s) of Some d \<Rightarrow> members_iter enc d | None \<Rightarrow> Inr [])"

definition get_status :: "members \<Rightarrow> member \<Rightarrow> member_status" where
  "get_status s m =
     (if mb_removed_status m = REMOVED_MEMBER_AND_MESSAGES then Removed_including_messages
      else if mb_removed_status m = REMOVED_MEMBER then Removed
      else if mb_removed_status m > 0 then Removed_unknown
      else if mb_admin m then
        (if mb_promotion_status m = STATUS_NOT_SENT \<and> has_pending_send (mb_session_id m) s then Promotion_sending
         else if mb_promotion_status m = STATUS_NOT_SENT then Promotion_not_sent
         else if mb_promotion_status m = STATUS_FAILED then Promotion_failed
         else if mb_promotion_status m = STATUS_SENT then Promotion_sent
         else if mb_promotion_status m \<noteq> 0 then Promotion_unknown
         else Promotion_accepted)
      else if mb_invite_status m = STATUS_NOT_SENT \<and> has_pending_send (mb_session_id m) s then Invite_sending
      else if mb_invite_status m = STATUS_NOT_SENT then Invite_not_sent
      else if mb_invite_status m = STATUS_FAILED then Invite_failed
      else if mb_invite_status m = STATUS_SENT then Invite_sent
      else if mb_invite_status m \<noteq> 0 then Invite_unknown
      else Invite_accepted)"

section \<open>The pending ids in a dump\<close>

text \<open>The iteration order of the unordered set is not specified; the model lists it in order.\<close>

definition members_extra_data :: "members \<Rightarrow> bt_dict" where
  "members_extra_data s =
     (if pending_send_ids s = [] then []
      else [(''pending_send_ids'', BtList (map BtStr (pending_send_ids s)))])"

fun insert_ids :: "bt_value list \<Rightarrow> string list \<Rightarrow> string list res" where
  "insert_ids [] ids = Inr ids"
| "insert_ids (BtStr s # lst) ids = insert_ids lst (set_insert s ids)"
| "insert_ids (_ # lst) ids = Inl Bt_deserialize_invalid"

definition members_load_extra_data :: "bt_dict \<Rightarrow> members \<Rightarrow> members res" where
  "members_load_extra_data extra s =
     (case map_of extra ''pending_send_ids'' of
        None \<Rightarrow> Inr s
      | Some (BtList lst) \<Rightarrow> res_bind (insert_ids lst (pending_send_ids s)) (\<lambda>ids. Inr (s\<lparr> pending_send_ids := ids \<rparr>))
      | Some _ \<Rightarrow> Inl Bt_deserialize_invalid)"

section \<open>The C struct\<close>

record config_group_member =
  cm_session_id :: string
  cm_name :: string
  cm_pic_url :: string
  cm_pic_key :: bytes
  cm_admin :: bool
  cm_invited :: int
  cm_promoted :: int
  cm_removed :: int
  cm_supplement :: bool

definition member_from :: "env \<Rightarrow> config_group_member \<Rightarrow> member res" where
  "member_from e c =
     res_bind (guard (e_ndebug e \<or> length (c_string (cm_name c)) \<le> MEMBER_NAME_LENGTH) Assertion_failed) (\<lambda>_.
     res_bind (guard (e_ndebug e \<or> length (c_string (cm_pic_url c)) \<le> MAX_URL_LENGTH) Assertion_failed) (\<lambda>_.
       let sent = (\<lambda>i. if i = STATUS_SENT \<or> i = STATUS_FAILED \<or> i = STATUS_NOT_SENT then i else 0) in
       Inr \<lparr> mb_session_id = take 66 (cm_session_id c), mb_name = c_string (cm_name c),
             mb_pic = (if c_string (cm_pic_url c) \<noteq> []
                       then \<lparr> pic_url = c_string (cm_pic_url c), pic_key = take 32 (cm_pic_key c) \<rparr> else no_pic),
             mb_admin = cm_admin c, mb_supplement = cm_supplement c, mb_invite_status = sent (cm_invited c),
             mb_promotion_status = sent (cm_promoted c),
             mb_removed_status = (if cm_removed c = REMOVED_MEMBER \<or> cm_removed c = REMOVED_MEMBER_AND_MESSAGES
                                  then cm_removed c else 0) \<rparr>))"

definition member_into :: "member \<Rightarrow> config_group_member \<Rightarrow> config_group_member res" where
  "member_into m c =
     res_bind (guard (length (mb_session_id m) \<ge> 66) Undefined_behaviour) (\<lambda>_.
     res_bind (copy_c_str 101 (mb_name m)) (\<lambda>cname.
     res_bind (copy_c_str (MAX_URL_LENGTH + 1) (if pic_empty (mb_pic m) then [] else pic_url (mb_pic m))) (\<lambda>url.
       Inr (c\<lparr> cm_session_id := take 67 (mb_session_id m @ [CHR 0x00]), cm_name := cname, cm_pic_url := url,
               cm_pic_key := (if pic_empty (mb_pic m) then cm_pic_key c else pic_key (mb_pic m)),
               cm_admin := mb_admin m, cm_invited := mb_invite_status m, cm_promoted := mb_promotion_status m,
               cm_removed := mb_removed_status m, cm_supplement := mb_supplement m \<rparr>))))"

section \<open>Storing and fetching a member\<close>

definition member_fields :: "member \<Rightarrow> (string \<times> dict_value option) list" where
  "member_fields m =
     (let inv = (if mb_admin m then 0 else mb_invite_status m) in
      [(''n'', Some (VScalar (SStr (take MEMBER_NAME_LENGTH (mb_name m))))),
       (''p'', if \<not> pic_empty (mb_pic m) then Some (VScalar (SStr (pic_url (mb_pic m)))) else None),
       (''q'', if \<not> pic_empty (mb_pic m) then Some (VScalar (SStr (pic_key (mb_pic m)))) else None),
       (''A'', if mb_admin m then Some (VScalar (SInt 1)) else None),
       (''P'', if mb_promotion_status m > 0 then Some (VScalar (SInt (mb_promotion_status m))) else None),
       (''I'', if inv > 0 then Some (VScalar (SInt inv)) else None),
       (''s'', if mb_supplement m then Some (VScalar (SInt 1)) else None),
       (''R'', if mb_removed_status m > 0 then Some (VScalar (SInt (mb_removed_status m))) else None)])"

definition status_ok :: "int \<Rightarrow> bool" where
  "status_ok i \<longleftrightarrow> 0 \<le> i \<and> in_i32 i"

text \<open>A member as the setters leave it: an admin has no invitation status, and only an invited member
  that is not being promoted can be marked for a supplemental key.\<close>

definition member_ok :: "encodings \<Rightarrow> member \<Rightarrow> bool" where
  "member_ok enc m \<longleftrightarrow> check_session_id enc (mb_session_id m) ''05'' = Inr () \<and> length (mb_name m) \<le> 100 \<and>
     (pic_empty (mb_pic m) \<longrightarrow> mb_pic m = no_pic) \<and> status_ok (mb_invite_status m) \<and> status_ok (mb_promotion_status m) \<and>
     status_ok (mb_removed_status m) \<and> (mb_admin m \<longrightarrow> mb_invite_status m = 0) \<and>
     (mb_supplement m \<longrightarrow> mb_invite_status m > 0 \<and> \<not> mb_admin m \<and> mb_promotion_status m = 0)"

lemma member_fields_ok:
  "member_ok enc m \<Longrightarrow> \<forall>kv \<in> set (member_fields m). pred_option field_value_ok (snd kv)"
  "distinct (map fst (member_fields m))"
  "map_of (member_fields m) ''n'' = Some (Some (VScalar (SStr (take MEMBER_NAME_LENGTH (mb_name m)))))"
  by (simp_all add: member_fields_def member_ok_def status_ok_def i32_i64 Let_def)

lemma members_set_fields:
  assumes "session_id_to_bytes enc (mb_session_id m) ''05'' = Inr pk"
    and "res_fold (write_field e [''m'', pk]) (member_fields m) (mbs_base s) = Inr b"
  shows "members_set e enc m s = Inr (set_pending_send (mb_session_id m)
    ((if mb_admin m then mb_promotion_status m else mb_invite_status m) = STATUS_NOT_SENT) (s\<lparr> mbs_base := b \<rparr>))"
proof -
  have "members_set e enc m s = res_bind (res_fold (write_field e [''m'', pk]) (member_fields m) (mbs_base s)) (\<lambda>b.
      Inr (if \<not> mb_admin m \<and> mb_invite_status m = STATUS_NOT_SENT \<or> mb_admin m \<and> mb_promotion_status m = STATUS_NOT_SENT
           then set_pending_send (mb_session_id m) True (s\<lparr> mbs_base := b \<rparr>)
           else set_pending_send (mb_session_id m) False (s\<lparr> mbs_base := b \<rparr>)))"
    using assms(1) by (simp add: members_set_def member_fields_def field_writes Let_def split del: if_split)
  then show ?thesis using assms(2) by (cases "mb_admin m") simp_all
qed

lemma member_load_fields:
  assumes "member_ok enc m" "\<And>k vo. (k, vo) \<in> set (member_fields m) \<Longrightarrow> map_of d k = vo"
    and "mb_session_id m0 = mb_session_id m"
  shows "member_load d m0 = m"
proof -
  have ok: "length (mb_name m) \<le> 100" "pic_empty (mb_pic m) \<longrightarrow> mb_pic m = no_pic" "status_ok (mb_invite_status m)"
    "status_ok (mb_promotion_status m)" "status_ok (mb_removed_status m)" "mb_admin m \<longrightarrow> mb_invite_status m = 0"
    "mb_supplement m \<longrightarrow> mb_invite_status m > 0 \<and> \<not> mb_admin m \<and> mb_promotion_status m = 0"
    using assms(1) by (simp_all add: member_ok_def)
  have fields: "map_of d ''n'' = Some (VScalar (SStr (mb_name m)))"
    "map_of d ''p'' = (if \<not> pic_empty (mb_pic m) then Some (VScalar (SStr (pic_url (mb_pic m)))) else None)"
    "map_of d ''q'' = (if \<not> pic_empty (mb_pic m) then Some (VScalar (SStr (pic_key (mb_pic m)))) else None)"
    "map_of d ''A'' = (if mb_admin m then Some (VScalar (SInt 1)) else None)"
    "map_of d ''P'' = (if mb_promotion_status m > 0 then Some (VScalar (SInt (mb_promotion_status m))) else None)"
    "map_of d ''I'' = (if mb_invite_status m > 0 then Some (VScalar (SInt (mb_invite_status m))) else None)"
    "map_of d ''s'' = (if mb_supplement m then Some (VScalar (SInt 1)) else None)"
    "map_of d ''R'' = (if mb_removed_status m > 0 then Some (VScalar (SInt (mb_removed_status m))) else None)"
    using ok(1,6) by (subst assms(2); simp add: member_fields_def MEMBER_NAME_LENGTH_def Let_def)+
  have vals: "str_field d ''n'' = mb_name m" "load_pic d = mb_pic m" "int_field d ''A'' \<noteq> 0 \<longleftrightarrow> mb_admin m"
    "to_int32 (int_field d ''P'') = mb_promotion_status m" "to_int32 (int_field d ''I'') = mb_invite_status m"
    "int_field d ''s'' \<noteq> 0 \<longleftrightarrow> mb_supplement m" "to_int32 (int_field d ''R'') = mb_removed_status m"
    using fields ok(2-5)
    by (auto simp: str_field_def int_field_def load_pic_def maybe_string_def maybe_int_def string_or_def integer_or_def
        pic_empty_def no_pic_def status_ok_def)
  have sup: "(if mb_invite_status m > 0 \<and> \<not> (mb_admin m \<or> mb_promotion_status m > 0) then mb_supplement m else False) = mb_supplement m"
    using ok(7) by auto
  have inv: "(if mb_admin m then 0 else mb_invite_status m) = mb_invite_status m" using ok(6) by auto
  show ?thesis
    unfolding member_load_def Let_def vals inv sup using assms(3) by simp
qed

lemma pending_after [simp]:
  "has_pending_send i (set_pending_send sid p s) \<longleftrightarrow> (if i = sid then p else has_pending_send i s)"
  by (auto simp: set_pending_send_def has_pending_send_def Let_def set_erase_def)

lemma base_after_pending:
  "get_clean path k (mbs_base (set_pending_send sid p s)) = get_clean path k (mbs_base s)"
  "get_dict path k (mbs_base (set_pending_send sid p s)) = get_dict path k (mbs_base s)"
  by (simp_all add: set_pending_send_def get_clean_def get_dict_def Let_def)

text \<open>
  A member is stored and fetched unchanged and the other members read as before; the device that
  stores a member whose invitation or promotion has not been sent yet remembers its id as being sent,
  and forgets it with any other status.
\<close>

theorem members_set_get:
  assumes "editable e (mbs_base s)" "base_inv (mbs_base s)" "member_ok enc m"
  shows "\<exists>s'. members_set e enc m s = Inr s' \<and> members_get enc (mb_session_id m) s' = Inr (Some m) \<and>
     (\<forall>sid. from_hex enc sid \<noteq> from_hex enc (mb_session_id m) \<longrightarrow> members_get enc sid s' = members_get enc sid s) \<and>
     (\<forall>sid. has_pending_send sid s' = (if sid = mb_session_id m
        then (if mb_admin m then mb_promotion_status m else mb_invite_status m) = STATUS_NOT_SENT
        else has_pending_send sid s))"
proof -
  let ?pk = "from_hex enc (mb_session_id m)" and ?fs = "member_fields m"
  have sid: "check_session_id enc (mb_session_id m) ''05'' = Inr ()" using assms(3) by (simp add: member_ok_def)
  then have pk: "session_id_to_bytes enc (mb_session_id m) ''05'' = Inr ?pk" by (rule session_id_bytes)
  note fs = member_fields_ok(1) [OF assms(3)] member_fields_ok(2,3) [of m]
  obtain b' d where b': "res_fold (write_field e [''m'', ?pk]) ?fs (mbs_base s) = Inr b'" "get_dict [''m''] ?pk b' = Some d"
    "\<forall>i vo. map_of ?fs i = Some vo \<longrightarrow> map_of d i = vo"
    "\<forall>i. i \<noteq> ?pk \<longrightarrow> get_clean [''m''] i b' = get_clean [''m''] i (mbs_base s)"
    using entry_written [OF assms(1,2) fs, of "[''m'']" ?pk] by auto
  have "map_of d k = vo" if "(k, vo) \<in> set ?fs" for k vo
    using b'(3) that fs(2) by (simp add: map_of_is_SomeI)
  note load = member_load_fields [OF assms(3) this]
  note set = members_set_fields [OF pk b'(1)]
  let ?s' = "set_pending_send (mb_session_id m)
    ((if mb_admin m then mb_promotion_status m else mb_invite_status m) = STATUS_NOT_SENT) (s\<lparr> mbs_base := b' \<rparr>)"
  have "members_get enc (mb_session_id m) ?s' = Inr (Some m)"
    using b'(2) pk sid load by (simp add: members_get_def base_after_pending new_member_def)
  moreover have "members_get enc i ?s' = members_get enc i s" if "from_hex enc i \<noteq> ?pk" for i
    using b'(4) that by (simp add: members_get_def base_after_pending get_dict_def session_id_to_bytes_def)
  moreover have "has_pending_send i (s\<lparr> mbs_base := b' \<rparr>) = has_pending_send i s" for i
    by (simp add: has_pending_send_def)
  ultimately show ?thesis using set by simp
qed

text \<open>
  The status reported for a member after each of its setters. A removal shows whatever the status was
  before. A pending invitation or promotion shows as "sending" on the device that stored it and as "not
  sent" on every other device.
\<close>

theorem member_status_lifecycle:
  assumes "mb_removed_status m = 0"
  shows "get_status s (set_promotion_sent m) = Promotion_sent \<and> get_status s (set_promotion_failed m) = Promotion_failed \<and>
     get_status s (set_promotion_accepted m) = Promotion_accepted \<and>
     (\<not> mb_admin m \<longrightarrow> get_status s (set_invite_sent m) = Invite_sent \<and> get_status s (set_invite_failed m) = Invite_failed \<and>
        get_status s (set_invite_accepted m) = Invite_accepted) \<and>
     (\<forall>x. get_status s (set_removed x m) = (if x then Removed_including_messages else Removed)) \<and>
     (\<forall>e enc s'. members_set e enc (set_promoted m) s = Inr s' \<longrightarrow> get_status s' (set_promoted m) = Promotion_sending) \<and>
     (\<forall>e enc s'. \<not> mb_admin m \<and> members_set e enc (set_invite_not_sent m) s = Inr s' \<longrightarrow>
        get_status s' (set_invite_not_sent m) = Invite_sending) \<and>
     (\<not> has_pending_send (mb_session_id m) s \<longrightarrow> get_status s (set_promoted m) = Promotion_not_sent \<and>
        (\<not> mb_admin m \<longrightarrow> get_status s (set_invite_not_sent m) = Invite_not_sent))"
proof -
  have pending: "has_pending_send (mb_session_id m') s'"
    if "members_set e enc m' s = Inr s'" "(if mb_admin m' then mb_promotion_status m' else mb_invite_status m') = STATUS_NOT_SENT"
    for e enc m' s'
    using that by (auto simp: members_set_def res_bind_eq_Inr Let_def split: if_splits)
  have p: "has_pending_send (mb_session_id m) s'" if "members_set e enc (set_promoted m) s = Inr s'" for e enc s'
    using pending [OF that] by (simp add: set_promoted_def)
  have i: "has_pending_send (mb_session_id m) s'" if "\<not> mb_admin m" "members_set e enc (set_invite_not_sent m) s = Inr s'" for e enc s'
    using pending [OF that(2)] that(1) by (simp add: set_invite_not_sent_def)
  show ?thesis
    using assms p i
    by (simp add: get_status_def status_codes set_promotion_sent_def set_promotion_failed_def set_promotion_accepted_def
        set_invite_sent_def set_invite_failed_def set_invite_accepted_def set_removed_def set_promoted_def set_invite_not_sent_def)
       blast
qed

lemma insert_ids_strs: "insert_ids (map BtStr xs) ids = Inr (fold set_insert xs ids)"
  by (induction xs arbitrary: ids) simp_all

text \<open>
  The ids being sent survive a dump: loading the extra data of an object into a fresh one gives the
  same ids.
\<close>

theorem pending_ids_survive_dump:
  assumes "ssorted (pending_send_ids s)" "pending_send_ids t = []"
  shows "members_load_extra_data (members_extra_data s) t = Inr (t\<lparr> pending_send_ids := pending_send_ids s \<rparr>)"
proof (cases "pending_send_ids s = []")
  case False
  have "fold set_insert (pending_send_ids s) [] = pending_send_ids s"
    by (rule ssorted_ext) (simp_all add: assms(1) ssorted_fold_insert set_fold_insert)
  then show ?thesis using False assms(2) by (simp add: members_load_extra_data_def members_extra_data_def insert_ids_strs)
qed (use assms(2) in \<open>simp add: members_load_extra_data_def members_extra_data_def\<close>)

text \<open>
  A member survives the conversion to its C struct and back when its statuses are ones the interface
  defines; any other status comes back as none.
\<close>

theorem member_c_round_trip:
  assumes "length (mb_session_id m) = 66" "length (mb_name m) \<le> 100" "CHR 0x00 \<notin> set (mb_name m)"
    and "pic_empty (mb_pic m) \<longrightarrow> mb_pic m = no_pic" "length (pic_url (mb_pic m)) \<le> 223" "CHR 0x00 \<notin> set (pic_url (mb_pic m))"
  shows "\<exists>c'. member_into m c = Inr c' \<and> member_from e c' = Inr (m\<lparr>
     mb_invite_status := (if mb_invite_status m \<in> {1, 2, 3} then mb_invite_status m else 0),
     mb_promotion_status := (if mb_promotion_status m \<in> {1, 2, 3} then mb_promotion_status m else 0),
     mb_removed_status := (if mb_removed_status m \<in> {1, 2} then mb_removed_status m else 0) \<rparr>)"
proof -
  have url: "copy_c_str (MAX_URL_LENGTH + 1) (pic_url (mb_pic m)) = Inr (pic_url (mb_pic m) @ [CHR 0x00])"
    "copy_c_str (MAX_URL_LENGTH + 1) [] = Inr [CHR 0x00]"
    using assms(5) copy_fits [of "[]" 224] by (simp_all add: copy_fits MAX_URL_LENGTH_def)
  have name: "copy_c_str 101 (mb_name m) = Inr (mb_name m @ [CHR 0x00])" using assms(2) by (simp add: copy_fits)
  have nul: "c_string [CHR 0x00] = []" by (simp add: c_string_def)
  have bounds: "length (mb_name m) \<le> MEMBER_NAME_LENGTH" "length (pic_url (mb_pic m)) \<le> MAX_URL_LENGTH"
    using assms(2,5) by (simp_all add: MEMBER_NAME_LENGTH_def MAX_URL_LENGTH_def)
  show ?thesis
  proof (cases "pic_empty (mb_pic m)")
    case True
    then show ?thesis
      using assms(1,4) url name bounds nul
      by (simp add: member_into_def member_from_def guard_def c_string_copied [OF assms(3)] status_codes Let_def)
  next
    case False
    then have "length (pic_key (mb_pic m)) = 32" "pic_url (mb_pic m) \<noteq> []" by (auto simp: pic_empty_def)
    with False show ?thesis
      using assms(1,4) url name bounds
      by (simp add: member_into_def member_from_def guard_def c_string_copied [OF assms(3)] c_string_copied [OF assms(6)]
          status_codes Let_def)
  qed
qed

section \<open>Reading back the group info\<close>

definition info_fields ::
  "string \<Rightarrow> string \<Rightarrow> profile_pic \<Rightarrow> int \<Rightarrow> int \<Rightarrow> int \<Rightarrow> int \<Rightarrow> (string \<times> dict_value option) list" where
  "info_fields name desc pic expiry created del att =
     [(''n'', if name \<noteq> [] then Some (VScalar (SStr name)) else None),
      (''o'', if desc \<noteq> [] then Some (VScalar (SStr desc)) else None),
      (''p'', if pic_url pic \<noteq> [] \<and> length (pic_key pic) = 32 then Some (VScalar (SStr (pic_url pic))) else None),
      (''q'', if pic_url pic \<noteq> [] \<and> length (pic_key pic) = 32 then Some (VScalar (SStr (pic_key pic))) else None),
      (''E'', if expiry > 0 then Some (VScalar (SInt expiry)) else None),
      (''c'', if to_epoch_seconds created > 0 then Some (VScalar (SInt (to_epoch_seconds created))) else None),
      (''d'', if to_epoch_seconds del > 0 then Some (VScalar (SInt (to_epoch_seconds del))) else None),
      (''D'', if to_epoch_seconds att > 0 then Some (VScalar (SInt (to_epoch_seconds att))) else None),
      (''!'', Some (VScalar (SInt 1)))]"

text \<open>All setters of the group info one after the other, and the destruction of the group last.\<close>

definition info_set_all ::
  "env \<Rightarrow> string \<Rightarrow> string \<Rightarrow> profile_pic \<Rightarrow> int \<Rightarrow> int \<Rightarrow> int \<Rightarrow> int \<Rightarrow> config_base \<Rightarrow> config_base res" where
  "info_set_all e name desc pic expiry created del att b =
     res_bind (info_set_name e name b) (\<lambda>b.
     res_bind (info_set_description e desc b) (\<lambda>b.
     res_bind (info_set_pic e (pic_url pic) (pic_key pic) b) (\<lambda>b.
     res_bind (set_expiry_timer e expiry b) (\<lambda>b.
     res_bind (set_created e created b) (\<lambda>b.
     res_bind (set_delete_before e del b) (\<lambda>b.
     res_bind (set_delete_attach_before e att b) (\<lambda>b.
     destroy_group e b)))))))"

lemma info_set_all_fields:
  "length name \<le> 100 \<Longrightarrow> length desc \<le> 600 \<Longrightarrow> info_set_all e name desc pic expiry created del att b =
   res_fold (write_field e []) (info_fields name desc pic expiry created del att) b"
  by (simp add: info_set_all_def info_set_name_def info_set_description_def info_set_pic_def set_expiry_timer_def
      set_created_def set_delete_before_def set_delete_attach_before_def destroy_group_def info_fields_def field_writes
      INFO_NAME_MAX_LENGTH_def DESCRIPTION_MAX_LENGTH_def split del: if_split)

lemma epoch_i64: "in_i64 t \<Longrightarrow> in_i64 (to_epoch_seconds t)"
  by (auto simp: in_i64_def to_epoch_seconds_def)

text \<open>
  The fields of the group info are independent: after all of them have been set each getter returns
  what its setter was given, timestamps in seconds whatever unit they were given in, and an empty or
  non-positive value as none; names and descriptions above their limits are refused.
\<close>

theorem info_round_trip:
  assumes "editable e b" "base_inv b" "length name \<le> 100" "length desc \<le> 600" "pic_empty pic \<longrightarrow> pic = no_pic"
    and "in_i64 expiry" "seconds_ok created" "seconds_ok del" "seconds_ok att"
  shows "\<exists>b'. info_set_all e name desc pic expiry (1000 * created) del att b = Inr b' \<and>
     info_get_name b' = (if name = [] then None else Some name) \<and>
     info_get_description b' = (if desc = [] then None else Some desc) \<and> info_get_pic b' = pic \<and>
     get_expiry_timer b' = (if expiry > 0 then Some expiry else None) \<and>
     get_delete_before b' = (if del > 0 then Some del else None) \<and>
     get_delete_attach_before b' = (if att > 0 then Some att else None) \<and>
     (created > 9000000 \<longrightarrow> get_created b' = Some created) \<and> info_is_destroyed b' \<and>
     (\<forall>s. length s > 100 \<longrightarrow> info_set_name e s b = Inl Invalid_argument) \<and>
     (\<forall>s. length s > 600 \<longrightarrow> info_set_description e s b = Inl Invalid_argument)"
proof -
  let ?fs = "info_fields name desc pic expiry (1000 * created) del att"
  have "in_i64 (1000 * created)" using assms(7) by (simp add: seconds_ok_def in_i64_def)
  then have ok: "\<forall>kv \<in> set ?fs. pred_option field_value_ok (snd kv)" "distinct (map fst ?fs)"
    using assms(6-9) by (simp_all add: info_fields_def epoch_i64)
  obtain b' where b': "res_fold (write_field e []) ?fs b = Inr b'"
    and get: "\<And>k. get_clean [] k b' = (case map_of ?fs k of None \<Rightarrow> get_clean [] k b | Some vo \<Rightarrow> vo)"
    using read_written [OF assms(1,2) ok, of "[]"] by blast
  have get': "get_clean [] k b' = vo" if "(k, vo) \<in> set ?fs" for k vo
    using get [of k] that ok(2) by (simp add: map_of_is_SomeI)
  have vals: "get_clean [] ''n'' b' = (if name \<noteq> [] then Some (VScalar (SStr name)) else None)"
    "get_clean [] ''o'' b' = (if desc \<noteq> [] then Some (VScalar (SStr desc)) else None)"
    "get_clean [] ''p'' b' = (if \<not> pic_empty pic then Some (VScalar (SStr (pic_url pic))) else None)"
    "get_clean [] ''q'' b' = (if \<not> pic_empty pic then Some (VScalar (SStr (pic_key pic))) else None)"
    "get_clean [] ''E'' b' = (if expiry > 0 then Some (VScalar (SInt expiry)) else None)"
    "get_clean [] ''c'' b' = (if to_epoch_seconds (1000 * created) > 0
       then Some (VScalar (SInt (to_epoch_seconds (1000 * created)))) else None)"
    "get_clean [] ''d'' b' = (if del > 0 then Some (VScalar (SInt del)) else None)"
    "get_clean [] ''D'' b' = (if att > 0 then Some (VScalar (SInt att)) else None)"
    "get_clean [] ''!'' b' = Some (VScalar (SInt 1))"
    using assms(8,9) by (subst get'; simp add: info_fields_def pic_empty_def)+
  have "info_set_all e name desc pic expiry (1000 * created) del att b = Inr b'"
    using info_set_all_fields [OF assms(3,4)] b' by simp
  moreover have "info_get_name b' = (if name = [] then None else Some name)"
    "info_get_description b' = (if desc = [] then None else Some desc)"
    using vals(1,2) by (simp_all add: info_get_name_def info_get_description_def get_string_def)
  moreover have "info_get_pic b' = pic"
    using vals(3,4) assms(5) by (auto simp: info_get_pic_def get_string_def pic_empty_def no_pic_def)
  moreover have "get_expiry_timer b' = (if expiry > 0 then Some expiry else None)"
    "get_delete_before b' = (if del > 0 then Some del else None)"
    "get_delete_attach_before b' = (if att > 0 then Some att else None)"
    using vals(5,7,8) assms(8,9)
    by (simp_all add: get_expiry_timer_def get_delete_before_def get_delete_attach_before_def get_integer_def)
  moreover have "get_created b' = Some created" if "created > 9000000"
  proof -
    have "to_epoch_seconds (1000 * created) = created" using that assms(7) by (simp add: to_epoch_seconds_def seconds_ok_def)
    then show ?thesis using vals(6) that assms(7) by (simp add: get_created_def get_integer_def)
  qed
  moreover have "info_is_destroyed b'" using vals(9) by (simp add: info_is_destroyed_def get_integer_def)
  ultimately show ?thesis
    by (auto simp: info_set_name_def info_set_description_def INFO_NAME_MAX_LENGTH_def DESCRIPTION_MAX_LENGTH_def)
qed

end
