(* ===== verification/Witnesses.thy ===== *)
theory Witnesses
  imports Ref_Env Config_Replay Diff_Loader Config_Transfer User_Profile Group_Members
begin

text \<open>
  Concrete inputs at which the hypotheses of the theorems hold, evaluated with the reference
  libraries of \<open>Ref_Env\<close>.
\<close>

section \<open>Config messages\<close>

theorem serialize_then_load_witness:
  "\<exists>b sig. serialize (ref_libs ref_hash) demo_message False = Inr (b, demo_message) \<and>
     load_message (ref_libs ref_hash) b None None 5 False = Inr (reloaded demo_message (ref_hash b) sig None None) \<and>
     sig = None"
  using serialize_then_load [OF codec_ok_ref demo_message_ok(1,2) _ _ demo_message_ok(3), of ref_hash False None False]
  by (simp add: in_i64_def)

theorem signed_then_verified_witness:
  "\<exists>b outer. serialize (ref_libs ref_hash) demo_signed True = Inr (b, demo_signed) \<and>
     serialize_pairs demo_signed (cm_diff demo_signed) = Inr outer \<and>
     load_message (ref_libs ref_hash) b (Some (\<lambda>m s. s = replicate 64 (CHR ''S''))) None 5 False =
       (let sig = replicate 64 (CHR ''S'')
        in if sig = replicate 64 (CHR ''S'')
           then Inr (reloaded demo_signed (ref_hash b) (Some sig) (Some (\<lambda>m s. s = replicate 64 (CHR ''S''))) None)
           else Inl Signature_error)"
  using signed_then_verified [OF codec_ok_ref, of demo_signed "\<lambda>m. replicate 64 (CHR ''S'')" ref_hash
      "\<lambda>m s. s = replicate 64 (CHR ''S'')" None False]
  by (simp add: demo_signed_def msg_ok_def storable_def signatures_ok_def unknown_ok_def lags_ok_def in_i64_def pruned_def)

definition demo_edited :: config_message where
  "demo_edited = demo_message\<lparr> cm_data := [(''n'', VScalar (SStr ''Kallie'')), (''p'', VDict [])],
     cm_seqno_hash := (2, zero_hash), cm_lagged_diffs := [((1, zero_hash), [(''n'', BtStr '''')])],
     cm_orig_data := Some [(''n'', VScalar (SStr ''Kallie''))] \<rparr>"

lemma demo_edited_ok: "mutable_ok demo_edited"
  by (simp add: demo_edited_def mutable_ok_def unknown_ok_def lags_ok_def in_i64_def pruned_def zero_hash_def)

lemma demo_edited_fields [simp]:
  "cm_orig_data demo_edited = Some [(''n'', VScalar (SStr ''Kallie''))]" "cm_lag demo_edited = 5"
  "cm_seqno_hash demo_edited = (2, zero_hash)" "cm_signer demo_edited = None"
  by (simp_all add: demo_edited_def)

theorem edited_then_loaded_witness:
  "\<exists>b m' r. serialize (ref_libs ref_hash) demo_edited False = Inr (b, m') \<and>
     load_message (ref_libs ref_hash) b None None 5 False = Inr r \<and>
     cm_data r = fst (prune_dict (cm_data demo_edited)) \<and>
     apply_diff [(''n'', VScalar (SStr ''Kallie''))] (cm_diff r) (cm_data r) = Inr (cm_data r) \<and>
     cm_lagged_diffs r = window demo_edited \<and> cm_unknown r = cm_unknown demo_edited \<and>
     cm_seqno_hash r = (2, ref_hash b)"
  using edited_then_loaded [OF codec_ok_ref demo_edited_ok, of "[(''n'', VScalar (SStr ''Kallie''))]" ref_hash False None False]
  by (simp add: in_i64_def)

theorem load_diff_termination_witness:
  "load_diff_iters 100 ([(''n'', BtInt 1)], []) = Inr ([(''n'', BtInt 1)], []) \<and>
   load_diff_iters 1 ([(''n'', BtStr '''')], []) = Inr ([], [(''n'', BtStr '''')])"
proof -
  have "load_diff [(''n'', BtStr '''')] = Inr [(''n'', BtStr '''')]"
    by (simp add: load_diff_def guard_def after_last_def)
  then show ?thesis
    using load_diff_termination [of "[]" "''n''" 100 1 "[]" "[(''n'', BtStr '''')]"]
    by (simp add: after_last_def)
qed

section \<open>Merging\<close>

definition demo_second :: config_message where
  "demo_second = demo_message\<lparr> cm_data := [(''n'', VScalar (SStr ''Nibbler''))],
     cm_seqno_hash := (1, replicate 32 (CHR ''b'')) \<rparr>"

lemma demo_second_fields [simp]:
  "cm_seqno_hash demo_second = (1, replicate 32 (CHR ''b''))" "cm_lagged_diffs demo_second = []"
  by (simp_all add: demo_second_def)

theorem merge_order_independent_witness:
  "forget_index (merge_messages (ref_libs ref_hash) None None 5 [demo_message, demo_second]) =
   forget_index (merge_messages (ref_libs ref_hash) None None 5 [demo_second, demo_message, demo_second])"
  by (rule merge_order_independent) (auto simp: lags_below_def in_i64_def zero_hash_def)

text \<open>Two devices that both set a name inside a dict and add an element to a set, neither having seen the other.\<close>

definition demo_concurrent :: "string \<Rightarrow> int \<Rightarrow> char \<Rightarrow> config_message" where
  "demo_concurrent name i h = empty_message\<lparr>
     cm_data := [(''d'', VDict [(''n'', VScalar (SStr name))]), (''s'', VSet [SInt i])],
     cm_diff := [(''d'', BtDict [(''n'', BtStr '''')]), (''s'', BtList [BtList [BtInt i], BtList []])],
     cm_seqno_hash := (1, replicate 32 h) \<rparr>"

abbreviation demo_pair :: "config_message list" where
  "demo_pair \<equiv> [demo_concurrent ''Kallie'' 1 (CHR ''a''), demo_concurrent ''Nibbler'' 2 (CHR ''b'')]"

lemma demo_concurrent_ok: "\<forall>c \<in> set demo_pair. msg_ok c"
  by (simp add: demo_concurrent_def empty_message_def msg_ok_def unknown_ok_def lags_ok_def in_i64_def pruned_def check_sublist_def)

theorem last_writer_wins_witness:
  "\<exists>m. merge_kept (ref_libs ref_hash) None None 5 1 demo_pair = Inr m \<and>
     scalar_obs (look (Some (VDict (cm_data m))) [''d'', ''n'']) = Some (SStr ''Nibbler'') \<and>
     member_obs (SInt 1) (look (Some (VDict (cm_data m))) [''s''])"
proof -
  have "\<not> Option.is_none (case merge_kept (ref_libs ref_hash) None None 5 1 demo_pair of Inr m \<Rightarrow> Some (cm_data m) | Inl e \<Rightarrow> None)"
    by code_simp
  then obtain m where m: "merge_kept (ref_libs ref_hash) None None 5 1 demo_pair = Inr m"
    by (cases "merge_kept (ref_libs ref_hash) None None 5 1 demo_pair") auto
  have r: "last_write (map (\<lambda>(sh, (src, df)). change_at scalar_change None (Some (BtDict df)) (Some (VDict src)) [''d'', ''n''])
      (build_replay (sort_configs demo_pair))) (scalar_obs (look (Some (VDict (cm_data (hd (sort_configs demo_pair))))) [''d'', ''n''])) =
        Some (SStr ''Nibbler'')"
    "last_write (map (\<lambda>(sh, (src, df)). change_at (member_change (SInt 1)) False (Some (BtDict df)) (Some (VDict src)) [''s''])
      (build_replay (sort_configs demo_pair))) (member_obs (SInt 1) (look (Some (VDict (cm_data (hd (sort_configs demo_pair))))) [''s'']))"
    by code_simp+
  show ?thesis
    using m trans [OF conjunct1 [OF conjunct2 [OF last_writer_wins [OF m demo_concurrent_ok]]] r(1)]
      iffD2 [OF conjunct2 [OF conjunct2 [OF last_writer_wins [OF m demo_concurrent_ok]]] r(2)] by (intro exI [of _ m] conjI)
qed

section \<open>Encryption\<close>

theorem pad_message_correct_witness:
  "length (pad_message ''d1:#i0ee'') + 40 = round_up 48 \<and> pad_message (pad_message ''d1:#i0ee'') = pad_message ''d1:#i0ee'' \<and>
   strip_padding (pad_message ''d1:#i0ee'') = ''d1:#i0ee''"
  using pad_message_correct [of "''d1:#i0ee''"] by auto

section \<open>Config objects\<close>

definition demo_dirty :: config_base where
  "demo_dirty = demo_base\<lparr> cb_config := demo_edited, cb_state := Dirty, cb_curr_hashes := [], cb_old_hashes := [''hash1''] \<rparr>"

lemma demo_dirty_inv: "base_inv demo_dirty" "cb_state demo_dirty = Dirty"
  by (simp_all add: base_inv_def demo_dirty_def demo_base_def fresh_base_def demo_edited_def)

lemma demo_dirty_fields [simp]:
  "cb_config demo_dirty = demo_edited" "cb_keys demo_dirty = [replicate 32 (CHR ''k'')]"
  by (simp_all add: demo_dirty_def)

lemma ref_zstd_ok: "zstd_ok ref_env"
  by (simp add: zstd_ok_def ref_env_def)

lemma ref_part_codec_ok: "part_codec_ok (ref_libs ref_hash)"
  unfolding part_codec_ok_def ref_libs_simps bt_read_prefix by (auto simp: ref_hash_def o_def)

lemma demo_small:
  "serialize (ref_libs ref_hash) demo_edited True = Inr (msg, m) \<Longrightarrow> length (packed ref_env msg) + 40 + 5120 \<le> 76800"
proof -
  assume s: "serialize (ref_libs ref_hash) demo_edited True = Inr (msg, m)"
  have "case serialize (ref_libs ref_hash) demo_edited True of Inr (r, m) \<Rightarrow> length r < 200 | Inl err \<Rightarrow> False"
    by code_simp
  then have "length (packed ref_env msg) < 201"
    using s by (simp add: packed_def compress_message_def ref_env_def)
  then show ?thesis by simp
qed

definition demo_receiver :: config_base where
  "demo_receiver = (fresh_base empty_message)\<lparr> cb_keys := [replicate 32 (CHR ''k'')] \<rparr>"


lemma demo_dirty_push: "\<exists>r. push ref_env 0 demo_dirty = Inr r"
proof -
  obtain msg m where msg: "serialize (ref_libs ref_hash) demo_edited True = Inr (msg, m)"
    using edited_loads [OF codec_ok_ref demo_edited_ok, of _ ref_hash True None False] by (auto simp: in_i64_def)
  have "length (pad_message (packed ref_env msg)) + 40 \<le> MAX_MESSAGE_SIZE"
    using packed_fits [OF demo_small [OF msg]] by (simp add: MAX_MESSAGE_SIZE_def)
  with push_single [of ref_env demo_dirty msg m "replicate 32 (CHR ''k'')" "[]" 0] msg ref_crypto_ok demo_dirty_inv(2)
  show ?thesis by auto
qed

theorem push_confirm_cycle_witness:
  "\<exists>s msgs obs b1. push ref_env 0 demo_dirty = Inr ((s, msgs, obs), b1) \<and>
     cb_state b1 = Waiting \<and> (\<exists>b2. confirm_pushed s [''hash2''] b1 = Inr b2 \<and> \<not> needs_push b2)"
proof -
  obtain s msgs obs b1 where p: "push ref_env 0 demo_dirty = Inr ((s, msgs, obs), b1)"
    using demo_dirty_push by (metis prod.exhaust)
  from push_confirm_cycle [OF demo_dirty_inv this, of "[''hash2'']"] show ?thesis using p by blast
qed

theorem reachable_inv_witness:
  "\<exists>b b'. init ref_env 0 None None None = Inr b \<and> dirty ref_env b = Inr b' \<and>
     base_inv (b'\<lparr> cb_config := (cb_config b')\<lparr> cm_data := [(''n'', VScalar (SInt 1))] \<rparr> \<rparr>)"
proof -
  have "case res_bind (init ref_env 0 None None None) (dirty ref_env) of Inr r \<Rightarrow> True | Inl err \<Rightarrow> False" by code_simp
  then obtain b b' where b: "init ref_env 0 None None None = Inr b" "dirty ref_env b = Inr b'"
    by (auto simp: res_bind_def split: sum.splits)
  then show ?thesis
    using reachable_inv [OF base_reachable.step [OF base_reachable.start [OF b(1)] base_step.edit [OF b(2)]]] by blast
qed

definition demo_readonly :: config_base where
  "demo_readonly = demo_base\<lparr> cb_config := demo_message\<lparr> cm_verifier := Some (\<lambda>m s. True) \<rparr> \<rparr>"

theorem readonly_never_dirty_witness:
  "is_readonly demo_readonly \<and> dirty ref_env demo_readonly = Inl Runtime_error"
proof -
  have "is_readonly demo_readonly" "cb_state demo_readonly \<noteq> Dirty" "base_inv demo_readonly"
    by (simp_all add: demo_readonly_def is_readonly_def demo_base_def fresh_base_def base_inv_def)
  with readonly_never_dirty [OF this, of ref_env] show ?thesis by blast
qed

section \<open>Utilities and contacts\<close>

definition demo_code_points :: "string list" where
  "demo_code_points = [''a'', [CHR 0xC3, CHR 0xA9]]"

definition demo_contact :: contact_info where
  "demo_contact =
     \<lparr> ci_session_id = ''05'' @ replicate 64 (CHR ''0''), ci_name = ''Fry'', ci_nickname = [], ci_pic = no_pic, ci_approved = True,
       ci_approved_me = False, ci_blocked = False, ci_priority = -1, ci_notifications = Notify_all,
       ci_mute_until = 1700000000, ci_exp_mode = After_read, ci_exp_timer = 3600, ci_created = 1600000000 \<rparr>"

lemma demo_editable: "editable ref_env demo_base"
proof -
  have "case dirty ref_env demo_base of Inr b' \<Rightarrow> data_of b' = data_of demo_base | Inl err \<Rightarrow> False" by code_simp
  then show ?thesis by (simp add: editable_def)
qed

theorem contacts_set_get_witness:
  "\<exists>b'. contacts_set ref_env ref_encodings demo_contact demo_base = Inr b' \<and>
     contacts_get ref_encodings (ci_session_id demo_contact) b' = Inr (Some demo_contact)"
proof -
  have "contact_ok ref_encodings demo_contact"
    by (simp add: contact_ok_def demo_contact_def ref_encodings_def check_session_id_def guard_def in_i32_def
        hex_digits_def seconds_ok_def)
  from contacts_set_get [OF demo_editable demo_base_inv this] show ?thesis by blast
qed

section \<open>Profile, communities and conversations\<close>

definition demo_pic :: profile_pic where
  "demo_pic = \<lparr> pic_url = ''http://example.com/1'', pic_key = replicate 32 (CHR ''s'') \<rparr>"

lemma ref_pubkey:
  assumes "length pk = 32"
  shows "decode_pubkey ref_encodings (to_hex ref_encodings pk) = Inr pk" "CHR ''?'' \<notin> set (to_hex ref_encodings pk)"
proof -
  have hex: "is_hex ref_encodings (to_hex ref_encodings pk)" "length (to_hex ref_encodings pk) = 64"
      "from_hex ref_encodings (to_hex ref_encodings pk) = pk"
    using ref_hex_ok assms by (simp_all add: hex_ok_def)
  then show "decode_pubkey ref_encodings (to_hex ref_encodings pk) = Inr pk" by (simp add: decode_pubkey_def)
  have "set (to_hex ref_encodings pk) \<subseteq> set hex_digits" using hex(1) by (simp add: ref_encodings_def)
  moreover have "CHR ''?'' \<notin> set hex_digits" by (simp add: hex_digits_def)
  ultimately show "CHR ''?'' \<notin> set (to_hex ref_encodings pk)" by blast
qed

definition demo_convo :: one_to_one where
  "demo_convo = \<lparr> last_read = 1700000000000, unread = False, session_id = ''05'' @ replicate 64 (CHR ''0'') \<rparr>"

section \<open>User groups\<close>

definition demo_keypair :: "bytes \<Rightarrow> bytes \<times> bytes" where
  "demo_keypair seed = (replicate 32 (CHR ''p''), seed @ replicate 32 (CHR ''p''))"

definition demo_group :: group_info where
  "demo_group =
     \<lparr> bg_priority = 2, bg_joined_at = 1700000000, bg_notifications = Notify_mentions_only, bg_mute_until = 0,
       bg_name = ''Planet Express'', bg_invited = True, gi_id = to_hex ref_encodings (CHR 0x03 # replicate 32 (CHR ''p'')),
       secretkey = replicate 32 (CHR ''s'') @ replicate 32 (CHR ''p''), auth_data = [], removed_status = 0 \<rparr>"

lemma demo_group_ok: "group_ok demo_keypair ref_encodings demo_group"
proof -
  have "check_session_id ref_encodings (gi_id demo_group) ''03'' = Inr ()"
    using hex_session_id(2) [OF ref_hex_ok, of "CHR 0x03 # replicate 32 (CHR ''p'')"] by (simp add: demo_group_def)
  then show ?thesis
    by (simp add: group_ok_def base_ok_def admin_key_def demo_group_def demo_keypair_def in_i32_def seconds_ok_def)
qed

theorem group_set_get_witness:
  "\<exists>b'. ug_set_group ref_env ref_encodings demo_group demo_base = Inr b' \<and>
     ug_get_group demo_keypair ref_encodings (gi_id demo_group) b' = Inr (Some demo_group)"
proof -
  have "sig_field (get_clean [''g'', from_hex ref_encodings (gi_id demo_group)] ''s'' demo_base) = auth_data demo_group"
    by (simp add: get_clean_def get_path_def sig_field_def demo_group_def)
  then show ?thesis
    using group_set_get [OF demo_editable demo_base_inv ref_hex_ok demo_group_ok] by (auto simp: demo_group_def)
qed

definition demo_legacy :: legacy_group_info where
  "demo_legacy =
     \<lparr> bg_priority = 0, bg_joined_at = 0, bg_notifications = Notify_all, bg_mute_until = 0, bg_name = ''Friends'',
       bg_invited = False, lg_session_id = ''05'' @ replicate 64 (CHR ''0''), enc_pubkey = replicate 32 (CHR ''e''),
       enc_seckey = replicate 32 (CHR ''f''), disappearing_timer = 3600,
       lg_members = [(''05'' @ replicate 64 (CHR ''1''), False), (''05'' @ replicate 64 (CHR ''2''), True)] \<rparr>"

lemma demo_legacy_members:
  "member_ids_ok ref_encodings (lg_members demo_legacy)" "list_all (\<lambda>(member, _). is_hex ref_encodings member) (lg_members demo_legacy)"
proof -
  have "smap_ok (lg_members demo_legacy)" by code_simp
  moreover have "list_all (\<lambda>m. length (from_hex ref_encodings m) = 33 \<and> hd (from_hex ref_encodings m) = CHR 0x05 \<and>
      to_hex ref_encodings (from_hex ref_encodings m) = m) (map fst (lg_members demo_legacy))" by code_simp
  ultimately show "member_ids_ok ref_encodings (lg_members demo_legacy)"
    by (simp add: member_ids_ok_def list_all_iff)
  show "list_all (\<lambda>(member, _). is_hex ref_encodings member) (lg_members demo_legacy)" by code_simp
qed

lemma demo_legacy_ok: "legacy_ok ref_encodings demo_legacy"
  using demo_legacy_members(1)
  by (simp add: legacy_ok_def base_ok_def demo_legacy_def in_i32_def seconds_ok_def in_i64_def check_session_id_def guard_def
      ref_encodings_def hex_digits_def)

definition demo_community :: community_info where
  "demo_community = (info_of \<lparr> co_base_url = ''http://example.com:81'', co_room_norm = ''sudokuroom'',
     co_localized_room = Some ''SudokuRoom'', co_pubkey = replicate 32 (CHR 0xAB) \<rparr>)\<lparr> bg_priority := 1 \<rparr>"

lemma demo_urls:
  "canonical_url ''http://example.com:81'' = Inr ''http://example.com:81''" "canonical_room ''SudokuRoom'' = Inr ''sudokuroom''"
  "canonical_room ''SUDOKUroom'' = Inr ''sudokuroom''"
  by code_simp+

lemma demo_community_ok: "community_info_ok demo_community"
  using demo_urls
  by (simp add: community_info_ok_def demo_community_def info_of_def base_ok_def in_i32_def seconds_ok_def co_room_def)

definition blank_group :: ugroups_group_info where
  "blank_group = \<lparr> c_priority = 0, c_joined_at = 0, c_notifications = Notify_defaulted, c_mute_until = 0, c_invited = False,
     c_id = [], c_name = [], c_removed_status = 0, c_have_secretkey = False, c_secretkey = [], c_have_auth_data = False,
     c_auth_data = [] \<rparr>"

definition blank_legacy :: ugroups_legacy_group_info where
  "blank_legacy = \<lparr> c_priority = 0, c_joined_at = 0, c_notifications = Notify_defaulted, c_mute_until = 0, c_invited = False,
     c_session_id = [], c_legacy_name = [], c_have_enc_keys = False, c_enc_pubkey = [], c_enc_seckey = [],
     c_disappearing_timer = 0, c_internal = None \<rparr>"

definition blank_community :: ugroups_community_info where
  "blank_community = \<lparr> c_priority = 0, c_joined_at = 0, c_notifications = Notify_defaulted, c_mute_until = 0, c_invited = False,
     c_base_url = [], c_room = [], c_pubkey = [] \<rparr>"

section \<open>Group info and members\<close>

definition demo_members :: members where
  "demo_members = \<lparr> mbs_base = demo_base, pending_send_ids = [] \<rparr>"

definition demo_member :: member where
  "demo_member = \<lparr> mb_session_id = ''05'' @ replicate 64 (CHR ''0''), mb_name = ''Amy'', mb_pic = demo_pic, mb_admin = False,
     mb_supplement = True, mb_invite_status = STATUS_NOT_SENT, mb_promotion_status = 0, mb_removed_status = 0 \<rparr>"

lemma demo_member_ok: "member_ok ref_encodings demo_member"
  by (simp add: member_ok_def demo_member_def check_session_id_def guard_def ref_encodings_def hex_digits_def pic_empty_def
      demo_pic_def status_ok_def in_i32_def STATUS_NOT_SENT_def)

text \<open>A message as it is on the wire.\<close>

theorem loaded_message_typed_witness:
  "\<exists>m. load_message (ref_libs ref_hash) ''d1:#i1e1:&d1:n6:Kalliee1:<le1:=d1:n0:ee'' None None 5 False = Inr m \<and>
     wf_dict (cm_data m) \<and> in_i64 (cm_seqno m) \<and> lags_ok (cm_seqno m) 5 (cm_lagged_diffs m)"
proof -
  have "case load_message (ref_libs ref_hash) ''d1:#i1e1:&d1:n6:Kalliee1:<le1:=d1:n0:ee'' None None 5 False of
      Inr m \<Rightarrow> True | Inl _ \<Rightarrow> False"
    by code_simp
  then obtain m where "load_message (ref_libs ref_hash) ''d1:#i1e1:&d1:n6:Kalliee1:<le1:=d1:n0:ee'' None None 5 False = Inr m"
    by (auto split: sum.splits)
  with loaded_message_typed [OF this] show ?thesis by blast
qed

end
