(* ===== verification/Multi_Encrypt.thy ===== *)
theory Multi_Encrypt
  imports Config_Roundtrip Encrypt
begin

text \<open>
  Messages encrypted separately for several recipients (\<open>src/src/multi_encrypt.cpp\<close> and the templates
  of \<open>src/include/session/multi_encrypt.hpp\<close>). The sender derives one key per recipient from the shared
  X25519 secret; a recipient tries its key on every ciphertext. The curve operations of libsodium are
  the fields of \<open>curve\<close>; \<open>curve_ok\<close> says what the code relies on: both sides compute the same
  secret.
\<close>

section \<open>Definitions\<close>

text \<open>
  \<open>None\<close> is a non-zero return value. \<open>curve_mult\<close> is \<open>crypto_scalarmult_curve25519\<close>, \<open>sk_to_curve\<close> and
  \<open>pk_to_curve\<close> are the conversions of Ed25519 keys, \<open>curve_base\<close> is the public key of an X25519 secret,
  \<open>seed_keypair\<close> the Ed25519 keys of a seed and \<open>det_random\<close> is \<open>randombytes_buf_deterministic\<close>.
\<close>

record curve =
  curve_mult :: "bytes \<Rightarrow> bytes \<Rightarrow> bytes option"
  curve_base :: "bytes \<Rightarrow> bytes"
  sk_to_curve :: "bytes \<Rightarrow> bytes"
  pk_to_curve :: "bytes \<Rightarrow> bytes option"
  seed_keypair :: "bytes \<Rightarrow> bytes \<times> bytes"
  det_random :: "nat \<Rightarrow> bytes \<Rightarrow> bytes"

definition encrypt_multiple_message_overhead :: nat where "encrypt_multiple_message_overhead = 16"

definition encrypt_multi_key ::
  "crypto \<Rightarrow> curve \<Rightarrow> bytes \<Rightarrow> bytes \<Rightarrow> bytes \<Rightarrow> bool \<Rightarrow> string \<Rightarrow> bytes res" where
  "encrypt_multi_key c cv a A B encrypting domain =
     (case curve_mult cv a B of
        None \<Rightarrow> Inl Invalid_argument
      | Some buf \<Rightarrow>
          let S = (if encrypting then A else B); R = (if encrypting then B else A) in
          Inr (generichash c 32 (take 64 domain) (buf @ S @ R)))"

definition encrypt_multi_impl :: "crypto \<Rightarrow> bytes \<Rightarrow> bytes \<Rightarrow> bytes \<Rightarrow> bytes" where
  "encrypt_multi_impl c msg key nonce = aead_encrypt c msg (take 24 nonce) key"

definition decrypt_multi_impl :: "crypto \<Rightarrow> bytes \<Rightarrow> bytes \<Rightarrow> bytes \<Rightarrow> bytes option" where
  "decrypt_multi_impl c ciphertext key nonce =
     (if length ciphertext < 16 then None else aead_decrypt c ciphertext (take 24 nonce) key)"

definition x_keys :: "curve \<Rightarrow> bytes \<Rightarrow> (bytes \<times> bytes) res" where
  "x_keys cv ed25519_secret_key =
     (if length ed25519_secret_key \<noteq> 64 then Inl Invalid_argument
      else case pk_to_curve cv (drop 32 ed25519_secret_key) of
        None \<Rightarrow> Inl Runtime_error
      | Some x_pub \<Rightarrow> Inr (sk_to_curve cv ed25519_secret_key, x_pub))"

definition validate_multi_fields :: "bytes \<Rightarrow> bytes \<Rightarrow> bytes \<Rightarrow> unit res" where
  "validate_multi_fields nonce privkey pubkey =
     guard (24 \<le> length nonce \<and> length privkey = 32 \<and> length pubkey = 32) Logic_error"

text \<open>
  The loop over the recipients. \<open>ms\<close> is what is left of the messages at \<open>msg_it\<close>; with a single message
  (\<open>many\<close> is false) the iterator stays where it is. The result is the list of calls of \<open>call\<close>.
\<close>

fun encrypt_multi_loop ::
  "crypto \<Rightarrow> curve \<Rightarrow> bytes \<Rightarrow> bytes \<Rightarrow> bytes \<Rightarrow> string \<Rightarrow> bool \<Rightarrow> bool \<Rightarrow> bytes list \<Rightarrow> bytes list \<Rightarrow> bytes list res"
where
  "encrypt_multi_loop c cv nonce privkey pubkey domain ignore_invalid many ms [] = Inr []"
| "encrypt_multi_loop c cv nonce privkey pubkey domain ignore_invalid many ms (r # rs) =
     (let m = hd ms; ms = (if many then tl ms else ms);
          continue = encrypt_multi_loop c cv nonce privkey pubkey domain ignore_invalid many ms rs in
      case encrypt_multi_key c cv privkey pubkey r True domain of
        Inl err \<Rightarrow> if ignore_invalid then continue else Inl err
      | Inr key \<Rightarrow> res_bind continue (\<lambda>out. Inr (encrypt_multi_impl c m key nonce # out)))"

definition encrypt_for_multiple ::
  "crypto \<Rightarrow> curve \<Rightarrow> bytes list \<Rightarrow> bytes list \<Rightarrow> bytes \<Rightarrow> bytes \<Rightarrow> bytes \<Rightarrow> string \<Rightarrow> bool \<Rightarrow> bytes list res" where
  "encrypt_for_multiple c cv messages recipients nonce privkey pubkey domain ignore_invalid =
     res_bind (validate_multi_fields nonce privkey pubkey) (\<lambda>_.
       if \<exists>r \<in> set recipients. length r \<noteq> 32 then Inl Logic_error
       else if length messages \<noteq> 1 \<and> length messages \<noteq> length recipients then Inl Logic_error
       else encrypt_multi_loop c cv nonce privkey pubkey domain ignore_invalid (1 < length messages)
              messages recipients)"

text \<open>
  The loop of \<open>decrypt_for_multiple\<close>. The callback \<open>next_ciphertext\<close> takes items from a source until it has a
  ciphertext to return; \<open>item\<close> is what it does with one of them: throw, go on with the next
  (\<open>None\<close>) or return it. The loop also gives the items it has not consumed.
\<close>

fun decrypt_multi_loop ::
  "crypto \<Rightarrow> bytes \<Rightarrow> bytes \<Rightarrow> ('x \<Rightarrow> bytes option res) \<Rightarrow> 'x list \<Rightarrow> (bytes option \<times> 'x list) res" where
  "decrypt_multi_loop c key nonce item [] = Inr (None, [])"
| "decrypt_multi_loop c key nonce item (x # xs) =
     res_bind (item x) (\<lambda>ciphertext.
       case ciphertext of
         None \<Rightarrow> decrypt_multi_loop c key nonce item xs
       | Some ct \<Rightarrow>
           (case decrypt_multi_impl c ct key nonce of
              Some m \<Rightarrow> Inr (Some m, xs)
            | None \<Rightarrow> decrypt_multi_loop c key nonce item xs))"

definition decrypt_for_multiple_next ::
  "crypto \<Rightarrow> curve \<Rightarrow> ('x \<Rightarrow> bytes option res) \<Rightarrow> 'x list \<Rightarrow> bytes \<Rightarrow> bytes \<Rightarrow> bytes \<Rightarrow> bytes \<Rightarrow> string \<Rightarrow>
   (bytes option \<times> 'x list) res" where
  "decrypt_for_multiple_next c cv item items nonce privkey pubkey sender_pubkey domain =
     res_bind (validate_multi_fields nonce privkey pubkey) (\<lambda>_.
       if length sender_pubkey \<noteq> 32 then Inl Logic_error
       else res_bind (encrypt_multi_key c cv privkey pubkey sender_pubkey False domain) (\<lambda>key.
         decrypt_multi_loop c key nonce item items))"

definition decrypt_for_multiple ::
  "crypto \<Rightarrow> curve \<Rightarrow> bytes list \<Rightarrow> bytes \<Rightarrow> bytes \<Rightarrow> bytes \<Rightarrow> bytes \<Rightarrow> string \<Rightarrow> bytes option res" where
  "decrypt_for_multiple c cv ciphertexts nonce privkey pubkey sender_pubkey domain =
     res_bind (decrypt_for_multiple_next c cv (\<lambda>ct. Inr (Some ct)) ciphertexts nonce privkey pubkey
                 sender_pubkey domain) (\<lambda>(plain, _). Inr plain)"

text \<open>
  The self-contained encoding. \<open>rnd i n\<close> is what the \<open>i\<close>-th call of \<open>randombytes_buf\<close> writes into a buffer of
  \<open>n\<close> bytes. The junk loop runs until the count is a multiple of \<open>pad\<close>, which is greater than 1 there.
\<close>

function junk_loop :: "(nat \<Rightarrow> nat \<Rightarrow> bytes) \<Rightarrow> nat \<Rightarrow> nat \<Rightarrow> nat \<Rightarrow> nat \<Rightarrow> bytes list" where
  "junk_loop rnd i pad_size pad msg_count =
     (if pad = 0 \<or> msg_count mod pad = 0 then []
      else rnd i pad_size # junk_loop rnd (Suc i) pad_size pad (Suc msg_count))"
  by auto
termination
proof (relation "measure (\<lambda>(rnd, i, s, pad, n). (pad - n mod pad) mod pad)", goal_cases)
  case (2 rnd i s pad n)
  then have "0 < pad" "0 < n mod pad" by auto
  then have "(pad - n mod pad) mod pad = pad - n mod pad" by simp
  moreover have "n mod pad < pad" using \<open>0 < pad\<close> by simp
  ultimately show ?case
    using \<open>0 < n mod pad\<close> by (cases "Suc (n mod pad) = pad") (auto simp: mod_Suc)
qed simp

declare junk_loop.simps [simp del]

definition encrypt_for_multiple_simple ::
  "libs \<Rightarrow> crypto \<Rightarrow> curve \<Rightarrow> (nat \<Rightarrow> nat \<Rightarrow> bytes) \<Rightarrow> bytes list \<Rightarrow> bytes list \<Rightarrow> bytes \<Rightarrow> bytes \<Rightarrow> string \<Rightarrow>
   bytes option \<Rightarrow> int \<Rightarrow> bytes res" where
  "encrypt_for_multiple_simple x c cv rnd messages recipients privkey pubkey domain nonce pad =
     res_bind (case nonce of
         None \<Rightarrow> Inr (rnd 0 24)
       | Some n \<Rightarrow> if length n \<noteq> 24 then Inl Invalid_argument else Inr n) (\<lambda>nonce.
     res_bind (encrypt_for_multiple c cv messages recipients nonce privkey pubkey domain False) (\<lambda>encrypted.
       let pad_size = (if pad > 1 \<and> messages \<noteq> [] then to_int32 (int (length (hd messages))) else 0) in
       if pad_size < 0 then Inl Length_error
       else
         let junk = (if pad_size \<noteq> 0 then junk_loop rnd 1 (nat pad_size) (nat pad) (length encrypted) else []) in
         Inr (bt_encode x (BtDict [(''#'', BtStr nonce), (''e'', BtList (map BtStr (encrypted @ junk)))]))))"

text \<open>The overload for an Ed25519 secret key: \<open>nonce\<close> is a span there, empty by default.\<close>

definition encrypt_for_multiple_simple_ed ::
  "libs \<Rightarrow> crypto \<Rightarrow> curve \<Rightarrow> (nat \<Rightarrow> nat \<Rightarrow> bytes) \<Rightarrow> bytes list \<Rightarrow> bytes list \<Rightarrow> bytes \<Rightarrow> string \<Rightarrow>
   bytes \<Rightarrow> int \<Rightarrow> bytes res" where
  "encrypt_for_multiple_simple_ed x c cv rnd messages recipients ed25519_secret_key domain nonce pad =
     res_bind (x_keys cv ed25519_secret_key) (\<lambda>(x_privkey, x_pubkey).
       encrypt_for_multiple_simple x c cv rnd messages recipients x_privkey x_pubkey domain (Some nonce) pad)"

text \<open>Every exception of the parser and of the decryption is caught and gives \<open>nullopt\<close>.\<close>

definition decrypt_for_multiple_simple ::
  "libs \<Rightarrow> crypto \<Rightarrow> curve \<Rightarrow> bytes \<Rightarrow> bytes \<Rightarrow> bytes \<Rightarrow> bytes \<Rightarrow> string \<Rightarrow> bytes option" where
  "decrypt_for_multiple_simple x c cv encoded privkey pubkey sender_pubkey domain =
     (case bt_decode x encoded of
        Some (BtDict d) \<Rightarrow>
          (case skip_until ''#'' d of
             (k, BtStr nonce) # rest \<Rightarrow>
               if k \<noteq> ''#'' \<or> length nonce \<noteq> 24 then None
               else (case skip_until ''e'' rest of
                   (k2, BtList enc_list) # _ \<Rightarrow>
                     if k2 \<noteq> ''e'' then None
                     else (case decrypt_for_multiple_next c cv
                               (\<lambda>v. case v of BtStr ct \<Rightarrow> Inr (Some ct) | _ \<Rightarrow> Inl Bt_deserialize_invalid)
                               enc_list nonce privkey pubkey sender_pubkey domain of
                         Inr (plain, _) \<Rightarrow> plain
                       | Inl _ \<Rightarrow> None)
                 | _ \<Rightarrow> None)
           | _ \<Rightarrow> None)
      | _ \<Rightarrow> None)"

definition decrypt_for_multiple_simple_ed ::
  "libs \<Rightarrow> crypto \<Rightarrow> curve \<Rightarrow> bytes \<Rightarrow> bytes \<Rightarrow> bytes \<Rightarrow> string \<Rightarrow> bytes option res" where
  "decrypt_for_multiple_simple_ed x c cv encoded ed25519_secret_key sender_pubkey domain =
     res_bind (x_keys cv ed25519_secret_key) (\<lambda>(x_privkey, x_pubkey).
       Inr (decrypt_for_multiple_simple x c cv encoded x_privkey x_pubkey sender_pubkey domain))"

definition decrypt_for_multiple_simple_ed25519 ::
  "libs \<Rightarrow> crypto \<Rightarrow> curve \<Rightarrow> bytes \<Rightarrow> bytes \<Rightarrow> bytes \<Rightarrow> string \<Rightarrow> bytes option res" where
  "decrypt_for_multiple_simple_ed25519 x c cv encoded ed25519_secret_key sender_ed25519_pubkey domain =
     (if length sender_ed25519_pubkey \<noteq> 32 then Inl Invalid_argument
      else case pk_to_curve cv sender_ed25519_pubkey of
        None \<Rightarrow> Inl Runtime_error
      | Some sender_pub \<Rightarrow> decrypt_for_multiple_simple_ed x c cv encoded ed25519_secret_key sender_pub domain)"

text \<open>
  What the code relies on of libsodium: the two sides compute the same secret, public keys are 32 bytes,
  and, among the keys \<open>K\<close> in use, a ciphertext opens only under the one it was made with.
\<close>

definition curve_ok :: "curve \<Rightarrow> bool" where
  "curve_ok cv \<longleftrightarrow>
     (\<forall>a b. curve_mult cv a (curve_base cv b) = curve_mult cv b (curve_base cv a)) \<and>
     (\<forall>a. length (curve_base cv a) = 32)"

definition aead_authentic :: "crypto \<Rightarrow> bytes set \<Rightarrow> bool" where
  "aead_authentic c K \<longleftrightarrow>
     (\<forall>m n. \<forall>k \<in> K. \<forall>k' \<in> K. k \<noteq> k' \<longrightarrow> aead_decrypt c (aead_encrypt c m n k) n k' = None)"

section \<open>Every recipient reads its message\<close>

text \<open>The key the sender \<open>a\<close> uses for the recipient \<open>b\<close>.\<close>

definition pair_key :: "crypto \<Rightarrow> curve \<Rightarrow> bytes \<Rightarrow> string \<Rightarrow> bytes \<Rightarrow> bytes" where
  "pair_key c cv a domain b =
     generichash c 32 (take 64 domain)
       (the (curve_mult cv a (curve_base cv b)) @ curve_base cv a @ curve_base cv b)"

lemma sender_key:
  "curve_mult cv a (curve_base cv b) \<noteq> None \<Longrightarrow>
   encrypt_multi_key c cv a (curve_base cv a) (curve_base cv b) True domain = Inr (pair_key c cv a domain b)"
  by (auto simp: encrypt_multi_key_def pair_key_def)

lemma recipient_key:
  assumes "curve_ok cv" "curve_mult cv a (curve_base cv b) \<noteq> None"
  shows "encrypt_multi_key c cv b (curve_base cv b) (curve_base cv a) False domain = Inr (pair_key c cv a domain b)"
proof -
  have "curve_mult cv b (curve_base cv a) = curve_mult cv a (curve_base cv b)"
    using assms(1) by (auto simp: curve_ok_def)
  then show ?thesis using assms(2) by (auto simp: encrypt_multi_key_def pair_key_def)
qed

text \<open>The message the sender has for the \<open>i\<close>-th recipient.\<close>

definition message_for :: "bytes list \<Rightarrow> nat \<Rightarrow> bytes" where
  "message_for messages i = (if 1 < length messages then messages ! i else hd messages)"

lemma encrypt_multi_loop_many:
  assumes "length ms = length bs" "\<forall>b \<in> set bs. curve_mult cv a (curve_base cv b) \<noteq> None"
  shows "encrypt_multi_loop c cv nonce a (curve_base cv a) domain ign True ms (map (curve_base cv) bs) =
    Inr (map (\<lambda>i. encrypt_multi_impl c (ms ! i) (pair_key c cv a domain (bs ! i)) nonce) [0..<length bs])"
  using assms
proof (induction bs arbitrary: ms)
  case (Cons b bs)
  then obtain m ms' where ms: "ms = m # ms'" by (cases ms) auto
  show ?case using Cons ms sender_key [of cv a b c domain] by (simp add: map_upt_Suc del: upt_Suc)
qed simp

lemma encrypt_multi_loop_one:
  assumes "\<forall>b \<in> set bs. curve_mult cv a (curve_base cv b) \<noteq> None"
  shows "encrypt_multi_loop c cv nonce a (curve_base cv a) domain ign False ms (map (curve_base cv) bs) =
    Inr (map (\<lambda>i. encrypt_multi_impl c (hd ms) (pair_key c cv a domain (bs ! i)) nonce) [0..<length bs])"
  using assms
proof (induction bs)
  case (Cons b bs)
  show ?case using Cons sender_key [of cv a b c domain] by (simp add: map_upt_Suc del: upt_Suc)
qed simp

definition sealed ::
  "crypto \<Rightarrow> curve \<Rightarrow> bytes \<Rightarrow> string \<Rightarrow> bytes \<Rightarrow> bytes list \<Rightarrow> bytes list \<Rightarrow> bytes list" where
  "sealed c cv a domain nonce messages bs =
     map (\<lambda>i. encrypt_multi_impl c (message_for messages i) (pair_key c cv a domain (bs ! i)) nonce) [0..<length bs]"

lemma encrypt_for_multiple_sealed:
  assumes "curve_ok cv" "length a = 32" "24 \<le> length nonce"
    and "length messages = 1 \<or> length messages = length bs"
    and "\<forall>b \<in> set bs. curve_mult cv a (curve_base cv b) \<noteq> None"
  shows "encrypt_for_multiple c cv messages (map (curve_base cv) bs) nonce a (curve_base cv a) domain ign =
    Inr (sealed c cv a domain nonce messages bs)"
proof -
  have len: "length (curve_base cv b) = 32" for b using assms(1) by (simp add: curve_ok_def)
  show ?thesis
  proof (cases "1 < length messages")
    case True
    then show ?thesis using assms encrypt_multi_loop_many [of messages bs cv a]
      by (auto simp: encrypt_for_multiple_def validate_multi_fields_def len sealed_def message_for_def)
  next
    case False
    then show ?thesis using assms(2-5) encrypt_multi_loop_one [of bs cv a]
      by (auto simp: encrypt_for_multiple_def validate_multi_fields_def len sealed_def message_for_def)
  qed
qed

text \<open>
  The recipient skips the ciphertexts made for others and stops at its own, whatever follows it.
\<close>

lemma decrypt_multi_loop_finds:
  assumes "\<forall>y \<in> set before. \<exists>ct. item y = Inr (Some ct) \<and> decrypt_multi_impl c ct key nonce = None"
    and "item mine = Inr (Some ct)" "decrypt_multi_impl c ct key nonce = Some m"
  shows "decrypt_multi_loop c key nonce item (before @ mine # after) = Inr (Some m, after)"
  using assms(1)
proof (induction before)
  case (Cons y before)
  then obtain ct' where "item y = Inr (Some ct')" "decrypt_multi_impl c ct' key nonce = None" by auto
  with Cons show ?case by simp
qed (use assms in simp)

lemma open_own: "crypto_ok c \<Longrightarrow> decrypt_multi_impl c (encrypt_multi_impl c m k nonce) k nonce = Some m"
  by (simp add: decrypt_multi_impl_def encrypt_multi_impl_def crypto_ok_def)

lemma open_foreign:
  "aead_authentic c K \<Longrightarrow> k \<in> K \<Longrightarrow> k' \<in> K \<Longrightarrow> k \<noteq> k' \<Longrightarrow> decrypt_multi_impl c (encrypt_multi_impl c m k nonce) k' nonce = None"
  by (simp add: decrypt_multi_impl_def encrypt_multi_impl_def aead_authentic_def)

lemma split_at_index: "i < n \<Longrightarrow> map f [0..<n] = map f [0..<i] @ f i # map f [Suc i..<n]"
  by (metis less_imp_le_nat list.simps(9) map_append upt_add_eq_append upt_conv_Cons zero_le le_add_diff_inverse)

lemma decrypt_sealed:
  assumes "crypto_ok c" "aead_authentic c (pair_key c cv a domain ` set bs)" "curve_ok cv" "24 \<le> length nonce" "i < length bs"
    and "length (bs ! i) = 32" "curve_mult cv a (curve_base cv (bs ! i)) \<noteq> None"
    and "\<forall>j < i. pair_key c cv a domain (bs ! j) \<noteq> pair_key c cv a domain (bs ! i)"
    and "\<And>ct. ct \<in> set (sealed c cv a domain nonce messages bs) \<Longrightarrow> item (wrap ct) = Inr (Some ct)"
  shows "\<exists>rest. decrypt_for_multiple_next c cv item (map wrap (sealed c cv a domain nonce messages bs @ junk)) nonce (bs ! i)
     (curve_base cv (bs ! i)) (curve_base cv a) domain = Inr (Some (message_for messages i), rest) \<and>
     set rest \<subseteq> wrap ` set (sealed c cv a domain nonce messages bs @ junk)"
proof -
  let ?ct = "\<lambda>i. encrypt_multi_impl c (message_for messages i) (pair_key c cv a domain (bs ! i)) nonce"
  have len: "length (curve_base cv b) = 32" for b using assms(3) by (simp add: curve_ok_def)
  have split: "map wrap (sealed c cv a domain nonce messages bs @ junk) =
    map (\<lambda>i. wrap (?ct i)) [0..<i] @ wrap (?ct i) # (map (\<lambda>i. wrap (?ct i)) [Suc i..<length bs] @ map wrap junk)"
    using split_at_index [OF assms(5), of "\<lambda>i. wrap (?ct i)"] by (simp add: sealed_def comp_def)
  have "\<forall>y \<in> set (map (\<lambda>i. wrap (?ct i)) [0..<i]). \<exists>ct. item y = Inr (Some ct) \<and>
      decrypt_multi_impl c ct (pair_key c cv a domain (bs ! i)) nonce = None"
    using open_foreign [OF assms(2)] assms(5,8,9) by (auto simp: sealed_def)
  moreover have "item (wrap (?ct i)) = Inr (Some (?ct i))" using assms(5) by (intro assms(9)) (simp add: sealed_def)
  moreover have "set (map (\<lambda>i. wrap (?ct i)) [Suc i..<length bs] @ map wrap junk) \<subseteq> wrap ` set (sealed c cv a domain nonce messages bs @ junk)"
    by (auto simp: sealed_def)
  ultimately show ?thesis
    unfolding split decrypt_for_multiple_next_def
    using assms(4,6) recipient_key [OF assms(3,7)]
      decrypt_multi_loop_finds [of "map (\<lambda>i. wrap (?ct i)) [0..<i]" item c _ nonce "wrap (?ct i)" "?ct i", OF _ _ open_own [OF assms(1)]]
    by (simp add: validate_multi_fields_def len)
qed

section \<open>The self-contained encoding\<close>

lemma junk_loop_spec:
  "0 < pad \<Longrightarrow> (n + length (junk_loop rnd i pad_size pad n)) mod pad = 0 \<and>
     length (junk_loop rnd i pad_size pad n) < pad \<and>
     (\<forall>j < length (junk_loop rnd i pad_size pad n). junk_loop rnd i pad_size pad n ! j = rnd (i + j) pad_size)"
proof (induction rnd i pad_size pad n rule: junk_loop.induct)
  case (1 rnd i pad_size pad n)
  show ?case
  proof (cases "n mod pad = 0")
    case True
    then show ?thesis using 1 by (simp add: junk_loop.simps [of rnd i])
  next
    case False
    let ?l = "junk_loop rnd (Suc i) pad_size pad (Suc n)"
    have ih: "(Suc n + length ?l) mod pad = 0" "length ?l < pad" "\<forall>j < length ?l. ?l ! j = rnd (Suc i + j) pad_size"
      using 1 False by auto
    have "length ?l \<noteq> pad - 1"
    proof
      assume "length ?l = pad - 1"
      then have "(n + pad) mod pad = 0" using ih(1) 1(2) by simp
      then show False using False by simp
    qed
    then have "Suc (length ?l) < pad" using ih(2) by simp
    then show ?thesis using ih 1(2) False
      by (auto simp: junk_loop.simps [of rnd i] nth_Cons split: nat.split)
  qed
qed

definition encoded :: "libs \<Rightarrow> bytes \<Rightarrow> bytes list \<Rightarrow> bytes" where
  "encoded x nonce cts = bt_encode x (BtDict [(''#'', BtStr nonce), (''e'', BtList (map BtStr cts))])"

lemma encrypt_for_multiple_simple_sealed:
  assumes "curve_ok cv" "length a = 32" "length nonce = 24"
    and "length messages = 1 \<or> length messages = length bs" "length (hd messages) < 2 ^ 31"
    and "\<forall>b \<in> set bs. curve_mult cv a (curve_base cv b) \<noteq> None"
  shows "encrypt_for_multiple_simple x c cv rnd messages (map (curve_base cv) bs) a (curve_base cv a) domain
      (Some nonce) pad =
    Inr (encoded x nonce (sealed c cv a domain nonce messages bs @
      (if 1 < pad \<and> messages \<noteq> [] \<and> hd messages \<noteq> [] then junk_loop rnd 1 (length (hd messages)) (nat pad) (length bs) else [])))"
proof -
  have "int (length (hd messages)) < 2 ^ 31" using assms(5) by (simp add: nat_less_iff zless_nat_eq_int_zless)
  then have "to_int32 (int (length (hd messages))) = int (length (hd messages))"
    by (intro to_int32_id) auto
  then show ?thesis
    using assms(3) encrypt_for_multiple_sealed [OF assms(1,2) _ assms(4,6), of nonce c domain False]
    by (auto simp: encrypt_for_multiple_simple_def encoded_def sealed_def)
qed

text \<open>
  C27: what \<open>encrypt_for_multiple_simple\<close> makes for a list of recipients, each of them reads back with
  \<open>decrypt_for_multiple_simple\<close>: the common message when there is only one, its own message otherwise; junk
  entries added for padding do not disturb it.
\<close>

theorem recipients_read_their_message:
  assumes "crypto_ok c" "aead_authentic c (pair_key c cv a domain ` set bs)" "curve_ok cv" "codec_ok x"
    and "length a = 32" "length nonce = 24" "\<forall>b \<in> set bs. length b = 32"
    and "length messages = 1 \<or> length messages = length bs" "length (hd messages) < 2 ^ 31"
    and "\<forall>b \<in> set bs. curve_mult cv a (curve_base cv b) \<noteq> None"
    and "i < length bs" "\<forall>j < i. pair_key c cv a domain (bs ! j) \<noteq> pair_key c cv a domain (bs ! i)"
  shows "\<exists>enc. encrypt_for_multiple_simple x c cv rnd messages (map (curve_base cv) bs) a (curve_base cv a) domain
      (Some nonce) pad = Inr enc \<and>
    decrypt_for_multiple_simple x c cv enc (bs ! i) (curve_base cv (bs ! i)) (curve_base cv a) domain =
      Some (if length messages = 1 then hd messages else messages ! i)"
proof -
  define junk where "junk = (if 1 < pad \<and> messages \<noteq> [] \<and> hd messages \<noteq> []
    then junk_loop rnd 1 (length (hd messages)) (nat pad) (length bs) else [])"
  let ?cts = "sealed c cv a domain nonce messages bs @ junk"
  have enc: "encrypt_for_multiple_simple x c cv rnd messages (map (curve_base cv) bs) a (curve_base cv a) domain
      (Some nonce) pad = Inr (encoded x nonce ?cts)"
    using encrypt_for_multiple_simple_sealed [OF assms(3,5,6,8,9,10)] by (simp add: junk_def)
  have "bt_ok (BtDict [(''#'', BtStr nonce), (''e'', BtList (map BtStr ?cts))])"
    by (auto simp: list_all_iff)
  then have dec: "bt_decode x (encoded x nonce ?cts) = Some (BtDict [(''#'', BtStr nonce), (''e'', BtList (map BtStr ?cts))])"
    using assms(4) unfolding codec_ok_def encoded_def by blast
  obtain rest where "decrypt_for_multiple_next c cv
      (\<lambda>v. case v of BtStr ct \<Rightarrow> Inr (Some ct) | _ \<Rightarrow> Inl Bt_deserialize_invalid) (map BtStr ?cts) nonce (bs ! i)
      (curve_base cv (bs ! i)) (curve_base cv a) domain = Inr (Some (message_for messages i), rest)"
    using decrypt_sealed [OF assms(1-3) _ assms(11) _ _ assms(12), where wrap = BtStr and nonce = nonce and messages = messages and
        junk = junk and item = "\<lambda>v. case v of BtStr ct \<Rightarrow> Inr (Some ct) | _ \<Rightarrow> Inl Bt_deserialize_invalid"]
      assms(6,7,10,11) nth_mem by fastforce
  moreover have "message_for messages i = (if length messages = 1 then hd messages else messages ! i)"
    using assms(8,11) by (auto simp: message_for_def hd_conv_nth)
  ultimately show ?thesis
    using enc dec assms(6) by (simp add: decrypt_for_multiple_simple_def skip_until_def)
qed

text \<open>
  The overload of \<open>encrypt_for_multiple_simple\<close> for an Ed25519 key always fails with its
  default (empty) nonce, although an empty nonce is documented to be replaced by a random one; and the
  junk entries have the size of the plaintext of the first message, 16 bytes less than its ciphertext,
  although they are documented to have the size of the latter.
\<close>

theorem simple_defaults_diverge:
  "(\<exists>err. encrypt_for_multiple_simple_ed x c cv rnd messages recipients sk domain [] pad = Inl err) \<and>
   (crypto_ok c \<longrightarrow> (\<forall>i n. length (rnd i n) = n) \<longrightarrow> bs \<noteq> [] \<longrightarrow> 0 < p \<longrightarrow>
      (\<forall>j \<in> set (junk_loop rnd 1 (length m) p (length bs)).
         length j + encrypt_multiple_message_overhead = length (hd (sealed c cv a domain nonce [m] bs))))"
proof (intro conjI impI ballI)
  show "\<exists>err. encrypt_for_multiple_simple_ed x c cv rnd messages recipients sk domain [] pad = Inl err"
    by (cases "x_keys cv sk") (auto simp: encrypt_for_multiple_simple_ed_def encrypt_for_multiple_simple_def)
next
  fix j
  assume a: "crypto_ok c" "\<forall>i n. length (rnd i n) = n" "bs \<noteq> []" "0 < p"
    and j: "j \<in> set (junk_loop rnd 1 (length m) p (length bs))"
  then have "length j = length m" using junk_loop_spec [OF a(4), of "length bs" rnd 1 "length m"]
    by (metis in_set_conv_nth)
  moreover have "hd (sealed c cv a domain nonce [m] bs) = encrypt_multi_impl c m (pair_key c cv a domain (bs ! 0)) nonce"
    using a(3) by (simp add: sealed_def message_for_def hd_map)
  ultimately show "length j + encrypt_multiple_message_overhead = length (hd (sealed c cv a domain nonce [m] bs))"
    using a(1) by (simp add: encrypt_multi_impl_def crypto_ok_def encrypt_multiple_message_overhead_def)
qed

end
