(* ===== verification/Group_Keys.thy ===== *)
theory Group_Keys
  imports Bencode Multi_Encrypt Group_Members
begin

text \<open>
  The encryption keys of a group (\<open>src/src/config/groups/keys.cpp\<close>, \<open>src/include/session/config/groups/keys.hpp\<close>):
  the ordered key list with its generations, the hashes of the messages that must be kept alive, the
  pending key of an unconfirmed rekey, expiry, dumps and the admin key. The messages that carry keys
  are in \<open>Group_Key_Messages\<close>.
\<close>

section \<open>Definitions\<close>

text \<open>
  \<open>key_info\<close>: its comparison operators compare \<open>(generation, timestamp, key)\<close>. Timestamps are in milliseconds.
\<close>

datatype key_info = Key_Info (ki_key: bytes) (ki_timestamp: int) (ki_generation: int)

definition cmpval :: "key_info \<Rightarrow> int \<times> int \<times> bytes" where
  "cmpval k = (ki_generation k, ki_timestamp k, ki_key k)"

lemma cmpval_inject: "cmpval a = cmpval b \<longleftrightarrow> a = b"
  by (cases a; cases b) (auto simp: cmpval_def)

instantiation key_info :: linorder
begin

definition less_eq_key_info :: "key_info \<Rightarrow> key_info \<Rightarrow> bool" where
  "less_eq_key_info a b \<longleftrightarrow> cmpval a \<le> cmpval b"

definition less_key_info :: "key_info \<Rightarrow> key_info \<Rightarrow> bool" where
  "less_key_info a b \<longleftrightarrow> cmpval a < cmpval b"

instance
proof
  fix a b c :: key_info
  show "(a < b) = (a \<le> b \<and> \<not> b \<le> a)" by (auto simp: less_key_info_def less_eq_key_info_def)
  show "a \<le> a" by (simp add: less_eq_key_info_def)
  show "a \<le> b \<Longrightarrow> b \<le> c \<Longrightarrow> a \<le> c" by (simp add: less_eq_key_info_def)
  show "a \<le> b \<Longrightarrow> b \<le> a \<Longrightarrow> a = b" by (simp add: less_eq_key_info_def cmpval_inject [symmetric])
  show "a \<le> b \<or> b \<le> a" by (auto simp: less_eq_key_info_def)
qed

end

text \<open>
  The object. \<open>active_msgs_\<close> is an ordered map from generations to unordered sets of hashes, kept sorted
  here; the signature keys are the ones of \<open>ConfigSig\<close>, with the closures of this class.
\<close>

record group_keys_obj =
  gk_user_sk :: bytes
  gk_sign_pk :: "bytes option"
  gk_sign_sk :: "bytes option"
  gk_verifier :: verify_callable
  gk_signer :: sign_callable
  gk_keys :: "key_info list"
  gk_active_msgs :: "(int, string list) smap"
  gk_pending_key :: bytes
  gk_pending_key_config :: bytes
  gk_pending_gen :: int
  gk_needs_dump :: bool

definition MESSAGE_KEY_MULTIPLE :: nat where "MESSAGE_KEY_MULTIPLE = 45"
definition KEY_EXPIRY :: int where "KEY_EXPIRY = 2 * 30 * 24 * 3600 * 1000"
definition MAX_PLAINTEXT_MESSAGE_SIZE :: nat where "MAX_PLAINTEXT_MESSAGE_SIZE = 1000000"

text \<open>The clock counts nanoseconds in 64 bits: a time it cannot hold overflows.\<close>

definition clock_time :: "int \<Rightarrow> int res" where
  "clock_time ms = res_bind (i64_arith (ms * 1000000)) (\<lambda>_. Inr ms)"

definition sys_time_from_ms :: "int \<Rightarrow> int res" where
  "sys_time_from_ms ms = clock_time ms"

text \<open>\<open>a.timestamp + KEY_EXPIRY < b.timestamp\<close>\<close>

definition expired_by :: "key_info \<Rightarrow> key_info \<Rightarrow> bool res" where
  "expired_by a b = res_bind (clock_time (ki_timestamp a + KEY_EXPIRY)) (\<lambda>t. Inr (t < ki_timestamp b))"

definition gk_admin :: "group_keys_obj \<Rightarrow> bool" where
  "gk_admin s \<longleftrightarrow> gk_sign_sk s \<noteq> None \<and> gk_sign_pk s \<noteq> None"

definition keys_size :: "group_keys_obj \<Rightarrow> nat" where
  "keys_size s = length (gk_keys s) + (if gk_pending_key_config s \<noteq> [] then 1 else 0)"

definition group_keys :: "group_keys_obj \<Rightarrow> bytes list" where
  "group_keys s =
     (if gk_pending_key_config s \<noteq> [] then [gk_pending_key s] else []) @ map ki_key (rev (gk_keys s))"

definition group_enc_key :: "group_keys_obj \<Rightarrow> bytes res" where
  "group_enc_key s =
     (if gk_pending_key_config s \<noteq> [] then Inr (gk_pending_key s)
      else if gk_keys s = [] then Inl Runtime_error
      else Inr (ki_key (last (gk_keys s))))"

definition current_generation :: "group_keys_obj \<Rightarrow> int" where
  "current_generation s = (if gk_keys s = [] then 0 else to_int32 (ki_generation (last (gk_keys s))))"

definition pending_config :: "group_keys_obj \<Rightarrow> bytes option" where
  "pending_config s = (if gk_pending_key_config s = [] then None else Some (gk_pending_key_config s))"

definition pending_key :: "group_keys_obj \<Rightarrow> bytes option" where
  "pending_key s = (if gk_pending_key_config s \<noteq> [] then Some (gk_pending_key s) else None)"

definition needs_rekey :: "group_keys_obj \<Rightarrow> bool" where
  "needs_rekey s =
     (if \<not> gk_admin s \<or> length (gk_keys s) < 2 then False
      else let last_it = last (gk_keys s); second_it = gk_keys s ! (length (gk_keys s) - 2) in
        ki_generation last_it = ki_generation second_it)"

definition gk_active_hashes :: "group_keys_obj \<Rightarrow> string list" where
  "gk_active_hashes s = fold (\<lambda>(g, hashes) acc. set_insert_all hashes acc) (gk_active_msgs s) []"

subsection \<open>Expiry and insertion\<close>

text \<open>
  The loop of \<open>remove_expired\<close>. An iterator is the rest of the list at it: \<open>lapsed_end\<close> is the first key
  to keep, \<open>it\<close> the first key of the generation under inspection, \<open>it2\<close> the first key of the next one.
\<close>

function lapsed_loop :: "key_info \<Rightarrow> key_info list \<Rightarrow> key_info list \<Rightarrow> key_info list res" where
  "lapsed_loop newest lapsed_end it =
     (if it = [] then Inr lapsed_end
      else
        let it2 = dropWhile (\<lambda>k. ki_generation k = ki_generation (hd it)) (tl it) in
        if it2 = [] then Inr lapsed_end
        else res_bind (expired_by (hd it2) newest) (\<lambda>lapsed.
          if lapsed then lapsed_loop newest it2 it2 else Inr lapsed_end))"
  by auto
termination
proof (relation "measure (\<lambda>(b, l, it). length it)", goal_cases)
  case (2 newest l it it2 lapsed)
  then show ?case by (cases it) (auto simp: length_dropWhile_le less_Suc_eq_le)
qed simp

declare lapsed_loop.simps [simp del]

definition remove_expired :: "group_keys_obj \<Rightarrow> group_keys_obj res" where
  "remove_expired s =
     res_bind (if 2 \<le> length (gk_keys s) then lapsed_loop (last (gk_keys s)) (gk_keys s) (gk_keys s)
               else Inr (gk_keys s)) (\<lambda>ks.
       Inr (s\<lparr> gk_keys := ks,
               gk_active_msgs := (if ks \<noteq> [] then dropWhile (\<lambda>p. fst p < ki_generation (hd ks)) (gk_active_msgs s)
                                  else []) \<rparr>))"

text \<open>\<open>active_msgs_[generation].emplace(msg_hash)\<close>\<close>

definition add_active :: "int \<Rightarrow> string \<Rightarrow> group_keys_obj \<Rightarrow> group_keys_obj" where
  "add_active g h s =
     s\<lparr> gk_active_msgs := smap_put g (set_insert h (case map_of (gk_active_msgs s) g of Some hs \<Rightarrow> hs | None \<Rightarrow> []))
          (gk_active_msgs s) \<rparr>"

definition insert_key :: "string \<Rightarrow> key_info \<Rightarrow> group_keys_obj \<Rightarrow> group_keys_obj res" where
  "insert_key h new_key s =
     (if \<exists>k \<in> set (gk_keys s). ki_generation k = ki_generation new_key \<and> ki_key k = ki_key new_key
      then Inr (add_active (ki_generation new_key) h s)
      else
        let before = takeWhile (\<lambda>k. k < new_key) (gk_keys s); it = dropWhile (\<lambda>k. k < new_key) (gk_keys s);
            front = hd (gk_keys s) in
        res_bind (if 2 \<le> length (gk_keys s) \<and> before = [] \<and> ki_generation new_key < ki_generation front
                  then expired_by front (last (gk_keys s)) else Inr False) (\<lambda>stale.
          if stale then Inr s
          else
            res_bind (remove_expired
                ((add_active (ki_generation new_key) h s)\<lparr> gk_keys := before @ new_key # it \<rparr>)) (\<lambda>s.
              Inr (s\<lparr> gk_needs_dump := True \<rparr>))))"

subsection \<open>Dumps\<close>

definition dump_key :: "key_info \<Rightarrow> bt_value" where
  "dump_key k = BtDict [(''g'', BtInt (ki_generation k)), (''k'', BtStr (ki_key k)), (''t'', BtInt (ki_timestamp k))]"

definition keys_dump_pairs :: "group_keys_obj \<Rightarrow> bt_dict" where
  "keys_dump_pairs s =
     [(''A'', BtList (map (\<lambda>(gen, hashes). BtList (BtInt gen # map BtStr hashes)) (gk_active_msgs s))),
      (''L'', BtList (map dump_key (gk_keys s)))] @
     (if gk_pending_key_config s \<noteq> []
      then [(''P'', BtDict [(''c'', BtStr (gk_pending_key_config s)), (''g'', BtInt (gk_pending_gen s)),
                            (''k'', BtStr (gk_pending_key s))])]
      else [])"

definition keys_make_dump :: "libs \<Rightarrow> group_keys_obj \<Rightarrow> bytes" where
  "keys_make_dump x s = bt_encode x (BtDict (keys_dump_pairs s))"

definition keys_dump :: "libs \<Rightarrow> group_keys_obj \<Rightarrow> bytes \<times> group_keys_obj" where
  "keys_dump x s = (keys_make_dump x s, s\<lparr> gk_needs_dump := False \<rparr>)"

text \<open>The consumer: \<open>skip_until\<close> that must find its key, and typed reads of the value there.\<close>

definition find_field :: "exn \<Rightarrow> string \<Rightarrow> bt_dict \<Rightarrow> (bt_value \<times> bt_dict) res" where
  "find_field err k d = (case skip_until k d of
      (k', v) # rest \<Rightarrow> if k' = k then Inr (v, rest) else Inl err
    | [] \<Rightarrow> Inl err)"

definition consume_string :: "bt_value \<Rightarrow> bytes res" where
  "consume_string v = (case v of BtStr s \<Rightarrow> Inr s | _ \<Rightarrow> Inl Bt_deserialize_invalid)"

definition consume_list :: "bt_value \<Rightarrow> bt_list res" where
  "consume_list v = (case v of BtList l \<Rightarrow> Inr l | _ \<Rightarrow> Inl Bt_deserialize_invalid)"

definition consume_dict :: "bt_value \<Rightarrow> bt_dict res" where
  "consume_dict v = (case v of BtDict d \<Rightarrow> Inr d | _ \<Rightarrow> Inl Bt_deserialize_invalid)"

definition load_active :: "bt_value \<Rightarrow> (int, string list) smap \<Rightarrow> (int, string list) smap res" where
  "load_active v active =
     res_bind (consume_list v) (\<lambda>lst.
       case lst of
         [] \<Rightarrow> Inl Bt_deserialize_invalid
       | g # hs \<Rightarrow>
           res_bind (consume_integer g) (\<lambda>gen.
           res_bind (strings_of hs) (\<lambda>hs.
             Inr (smap_put gen (set_insert_all hs (case map_of active gen of Some old \<Rightarrow> old | None \<Rightarrow> [])) active))))"

definition parse_key_info :: "bt_value \<Rightarrow> key_info res" where
  "parse_key_info v =
     res_bind (consume_dict v) (\<lambda>kd.
     res_bind (find_field Config_error ''g'' kd) (\<lambda>(g, kd).
     res_bind (consume_integer g) (\<lambda>gen.
     res_bind (find_field Config_error ''k'' kd) (\<lambda>(k, kd).
     res_bind (consume_string k) (\<lambda>key_bytes.
     res_bind (guard (length key_bytes = 32) Config_error) (\<lambda>_.
     res_bind (find_field Config_error ''t'' kd) (\<lambda>(t, kd).
     res_bind (consume_integer t) (\<lambda>ms.
     res_bind (sys_time_from_ms ms) (\<lambda>ts. Inr (Key_Info key_bytes ts gen))))))))))"

definition load_key_entry :: "bt_value \<Rightarrow> key_info list \<Rightarrow> key_info list res" where
  "load_key_entry v ks =
     res_bind (parse_key_info v) (\<lambda>key.
       if ks \<noteq> [] \<and> last ks \<ge> key then Inl Config_error else Inr (ks @ [key]))"

definition load_pending :: "bt_dict \<Rightarrow> group_keys_obj \<Rightarrow> group_keys_obj res" where
  "load_pending pending s =
     res_bind (find_field Config_error ''c'' pending) (\<lambda>(c, pending).
     res_bind (consume_string c) (\<lambda>pc.
     res_bind (find_field Config_error ''g'' pending) (\<lambda>(g, pending).
     res_bind (consume_integer g) (\<lambda>gen.
     res_bind (find_field Config_error ''k'' pending) (\<lambda>(k, pending).
     res_bind (consume_string k) (\<lambda>pk.
     res_bind (guard (length pk = 32) Config_error) (\<lambda>_.
       Inr (s\<lparr> gk_pending_key_config := pc, gk_pending_gen := gen, gk_pending_key := pk \<rparr>))))))))"

definition keys_load_dump :: "libs \<Rightarrow> bytes \<Rightarrow> group_keys_obj \<Rightarrow> group_keys_obj res" where
  "keys_load_dump x dumped s =
     (case bt_decode x dumped of
        Some (BtDict d) \<Rightarrow>
          res_bind (find_field Config_error ''A'' d) (\<lambda>(v, d).
          res_bind (consume_list v) (\<lambda>active.
          res_bind (res_fold load_active active (gk_active_msgs s)) (\<lambda>am.
          res_bind (find_field Config_error ''L'' d) (\<lambda>(v, d).
          res_bind (consume_list v) (\<lambda>keys.
          res_bind (res_fold load_key_entry keys (gk_keys s)) (\<lambda>ks.
            let s = s\<lparr> gk_active_msgs := am, gk_keys := ks \<rparr> in
            case skip_until ''P'' d of
              (k, v) # _ \<Rightarrow>
                if k = ''P'' then res_bind (consume_dict v) (\<lambda>pending. load_pending pending s) else Inr s
            | [] \<Rightarrow> Inr s))))))
      | _ \<Rightarrow> Inl Bt_deserialize_invalid)"

subsection \<open>Construction and the admin key\<close>

definition gk_clear_sig_keys :: "group_keys_obj \<Rightarrow> group_keys_obj" where
  "gk_clear_sig_keys s =
     s\<lparr> gk_sign_pk := None, gk_sign_sk := None, gk_signer := None, gk_verifier := None \<rparr>"

definition gk_set_sig_keys :: "env \<Rightarrow> bytes \<Rightarrow> group_keys_obj \<Rightarrow> group_keys_obj res" where
  "gk_set_sig_keys e secret s =
     (if length secret \<noteq> 64 then Inl Invalid_argument
      else
        let pk = e_sk_to_pk e secret in
        Inr ((gk_clear_sig_keys s)\<lparr> gk_sign_sk := Some secret, gk_sign_pk := Some pk,
                gk_verifier := Some (e_verify e pk), gk_signer := Some (e_sign e secret) \<rparr>))"

definition gk_set_sig_pubkey :: "env \<Rightarrow> bytes \<Rightarrow> group_keys_obj \<Rightarrow> group_keys_obj res" where
  "gk_set_sig_pubkey e pubkey s =
     (if length pubkey \<noteq> 32 then Inl Invalid_argument
      else Inr (s\<lparr> gk_sign_pk := Some pubkey, gk_verifier := Some (e_verify e pubkey) \<rparr>))"

definition gk_init_sig_keys :: "env \<Rightarrow> bytes \<Rightarrow> bytes option \<Rightarrow> group_keys_obj \<Rightarrow> group_keys_obj res" where
  "gk_init_sig_keys e pk sk s =
     (case sk of
        Some secret \<Rightarrow>
          if pk \<noteq> drop 32 secret then Inl Invalid_argument else gk_set_sig_keys e secret s
      | None \<Rightarrow> gk_set_sig_pubkey e pk s)"

definition gk_seed_hash :: "env \<Rightarrow> string \<Rightarrow> group_keys_obj \<Rightarrow> bytes res" where
  "gk_seed_hash e key s =
     (case gk_sign_sk s of
        None \<Rightarrow> Inl Runtime_error
      | Some sk \<Rightarrow> Inr (generichash (e_crypto e) 32 (take 64 key) (take 32 sk)))"

definition replace_members_keys :: "env \<Rightarrow> bytes list \<Rightarrow> bool \<Rightarrow> members \<Rightarrow> members res" where
  "replace_members_keys e ks dirty_config ms =
     res_bind (replace_keys e ks dirty_config (mbs_base ms)) (\<lambda>b. Inr (ms\<lparr> mbs_base := b \<rparr>))"

text \<open>The members of a fresh object: \<open>pending_key_\<close> is uninitialised and only read once it is set.\<close>

definition fresh_keys :: "bytes \<Rightarrow> group_keys_obj" where
  "fresh_keys user_sk = \<lparr> gk_user_sk = user_sk, gk_sign_pk = None, gk_sign_sk = None, gk_verifier = None, gk_signer = None,
     gk_keys = [], gk_active_msgs = [], gk_pending_key = replicate 32 (CHR 0x00), gk_pending_key_config = [],
     gk_pending_gen = -1, gk_needs_dump = False \<rparr>"

definition keys_construct ::
  "env \<Rightarrow> bytes \<Rightarrow> bytes \<Rightarrow> bytes option \<Rightarrow> bytes option \<Rightarrow> config_base \<Rightarrow> members \<Rightarrow>
   (group_keys_obj \<times> config_base \<times> members) res" where
  "keys_construct e user_sk group_pk group_sk dumped info ms =
     (if length user_sk \<noteq> 64 then Inl Invalid_argument
      else if length group_pk \<noteq> 32 then Inl Invalid_argument
      else if (case group_sk of Some sk \<Rightarrow> length sk \<noteq> 64 | None \<Rightarrow> False) then Inl Invalid_argument
      else
        res_bind (gk_init_sig_keys e group_pk group_sk (fresh_keys user_sk)) (\<lambda>s.
          case dumped of
            None \<Rightarrow> Inr (s, info, ms)
          | Some raw \<Rightarrow>
              res_bind (keys_load_dump (e_libs e) raw s) (\<lambda>s.
              let key_list = group_keys s in
              res_bind (replace_members_keys e key_list False ms) (\<lambda>ms.
              res_bind (replace_keys e key_list False info) (\<lambda>info.
                Inr (s, info, ms))))))"

definition load_admin_key ::
  "env \<Rightarrow> curve \<Rightarrow> bytes \<Rightarrow> group_keys_obj \<Rightarrow> config_base \<Rightarrow> members \<Rightarrow>
   (group_keys_obj \<times> config_base \<times> members) res" where
  "load_admin_key e cv seed s info ms =
     (if gk_admin s then Inr (s, info, ms)
      else
        res_bind (if length seed = 64 then Inr (take 32 seed)
                  else if length seed \<noteq> 32 then Inl Invalid_argument else Inr seed) (\<lambda>seed.
          let (pk, sk) = seed_keypair cv seed in
          if gk_sign_pk s \<noteq> None \<and> gk_sign_pk s \<noteq> Some pk then Inl Runtime_error
          else
            res_bind (gk_set_sig_keys e sk s) (\<lambda>s.
            res_bind (set_sig_keys e sk info) (\<lambda>info.
            res_bind (set_sig_keys e sk (mbs_base ms)) (\<lambda>b.
              Inr (s, info, ms\<lparr> mbs_base := b \<rparr>))))))"

section \<open>Retention\<close>

text \<open>
  What the key list promises, on the set of keys alone. A key is outdated when a later generation has
  replaced it for more than \<open>KEY_EXPIRY\<close>: the first keys of all generations after the oldest, up to a
  later one than its own, are that much older than the newest key.
\<close>

definition first_of :: "key_info set \<Rightarrow> key_info \<Rightarrow> bool" where
  "first_of K k \<longleftrightarrow> k \<in> K \<and> (\<forall>j \<in> K. ki_generation j = ki_generation k \<longrightarrow> k \<le> j)"

definition outdated :: "key_info set \<Rightarrow> key_info \<Rightarrow> bool" where
  "outdated K k \<longleftrightarrow> (\<exists>k2 \<in> K. ki_generation k < ki_generation k2 \<and>
     (\<forall>k3. first_of K k3 \<and> ki_generation (Min K) < ki_generation k3 \<and> ki_generation k3 \<le> ki_generation k2 \<longrightarrow>
        ki_timestamp k3 + KEY_EXPIRY < ki_timestamp (Max K)))"

definition retained :: "key_info set \<Rightarrow> key_info set" where
  "retained K = {k \<in> K. \<not> outdated K k}"

definition time_ok :: "key_info \<Rightarrow> bool" where
  "time_ok k \<longleftrightarrow> in_i64 (ki_timestamp k * 1000000) \<and> in_i64 ((ki_timestamp k + KEY_EXPIRY) * 1000000)"

lemma expired_by_ok: "time_ok a \<Longrightarrow> expired_by a b = Inr (ki_timestamp a + KEY_EXPIRY < ki_timestamp b)"
  by (simp add: time_ok_def expired_by_def clock_time_def)

lemma key_less_generation: "a \<le> b \<Longrightarrow> ki_generation a \<le> ki_generation b"
  by (auto simp: less_eq_key_info_def cmpval_def)

lemma generation_less_key: "ki_generation a < ki_generation b \<Longrightarrow> a < b"
  by (simp add: less_key_info_def cmpval_def)

lemma ssorted_Min_Max:
  assumes "ssorted ks" "ks \<noteq> []"
  shows "Min (set ks) = hd ks" "Max (set ks) = last ks"
proof -
  obtain k t where ks: "ks = k # t" using assms(2) by (cases ks) auto
  show "Min (set ks) = hd ks" using assms(1) unfolding ks by (intro Min_eqI) auto
  have split: "ks = butlast ks @ [last ks]" using assms(2) by simp
  then have "\<forall>j \<in> set (butlast ks). j < last ks" using assms(1) by (metis list.set_intros(1) sorted_wrt_append)
  moreover have "set ks = insert (last ks) (set (butlast ks))" by (subst split) auto
  ultimately have "\<forall>j \<in> set ks. j \<le> last ks" by auto
  then show "Max (set ks) = last ks" using assms(2) by (intro Max_eqI) auto
qed

text \<open>
  The list at an iteration of the loop: the keys \<open>G\<close> of one generation, the first key \<open>n\<close> of the next one
  and the rest.
\<close>

definition gen_split :: "int \<Rightarrow> key_info list \<Rightarrow> key_info \<Rightarrow> key_info list \<Rightarrow> bool" where
  "gen_split g G n rest \<longleftrightarrow> G \<noteq> [] \<and> ssorted (G @ n # rest) \<and> g < ki_generation n \<and>
     (\<forall>k \<in> set G. ki_generation k = g)"

lemma gen_split_intro:
  assumes "ssorted (h # t)" "dropWhile (\<lambda>k. ki_generation k = ki_generation h) t = n # rest"
  defines "G \<equiv> h # takeWhile (\<lambda>k. ki_generation k = ki_generation h) t"
  shows "h # t = G @ n # rest" "gen_split (ki_generation h) G n rest"
proof -
  show eq: "h # t = G @ n # rest"
    using takeWhile_dropWhile_id [of "\<lambda>k. ki_generation k = ki_generation h" t] unfolding assms(2) G_def by simp
  have "n \<in> set t" using eq by (simp add: G_def) (metis in_set_conv_decomp)
  then have "h < n" using assms(1) by auto
  moreover have "ki_generation n \<noteq> ki_generation h"
    using hd_dropWhile [of "\<lambda>k. ki_generation k = ki_generation h" t] assms(2) by simp
  ultimately have "ki_generation h < ki_generation n"
    using key_less_generation [OF order.strict_implies_order [of h n]] by simp
  then show "gen_split (ki_generation h) G n rest"
    using assms(1) unfolding gen_split_def eq [symmetric] by (auto simp: G_def dest: set_takeWhileD)
qed

lemma gen_split_rest:
  assumes "gen_split g G n rest" "k \<in> set (n # rest)"
  shows "g < ki_generation k" "ki_generation n \<le> ki_generation k" "n \<le> k"
proof -
  show "n \<le> k" using assms by (auto simp: gen_split_def sorted_wrt_append)
  then show "ki_generation n \<le> ki_generation k" by (rule key_less_generation)
  then show "g < ki_generation k" using assms(1) by (simp add: gen_split_def)
qed

lemma gen_split_later:
  assumes "gen_split g G n rest" "k \<in> set (G @ n # rest)"
  shows "g < ki_generation k \<longleftrightarrow> k \<in> set (n # rest)"
    "g \<le> ki_generation k"
proof -
  show "g < ki_generation k \<longleftrightarrow> k \<in> set (n # rest)"
    using assms gen_split_rest(1) [OF assms(1)] by (auto simp: gen_split_def)
  then show "g \<le> ki_generation k" using assms by (auto simp: gen_split_def)
qed

lemma gen_split_Min_Max:
  assumes "gen_split g G n rest"
  shows "ki_generation (Min (set (G @ n # rest))) = g" "Min (set (n # rest)) = n"
    "Max (set (G @ n # rest)) = last (n # rest)" "Max (set (n # rest)) = last (n # rest)"
proof -
  have "ssorted (G @ n # rest)" "ssorted (n # rest)" "G \<noteq> []"
    using assms by (auto simp: gen_split_def sorted_wrt_append)
  moreover have "ki_generation (hd G) = g" using assms by (simp add: gen_split_def)
  ultimately show "ki_generation (Min (set (G @ n # rest))) = g" "Min (set (n # rest)) = n"
    "Max (set (G @ n # rest)) = last (n # rest)" "Max (set (n # rest)) = last (n # rest)"
    using ssorted_Min_Max [of "G @ n # rest"] ssorted_Min_Max [of "n # rest"] by simp_all
qed

lemma gen_split_first:
  assumes "gen_split g G n rest"
  shows "first_of (set (G @ n # rest)) n"
    and "first_of (set (G @ n # rest)) k \<Longrightarrow> ki_generation k = ki_generation n \<Longrightarrow> k = n"
    and "g < ki_generation k \<Longrightarrow>
      first_of (set (G @ n # rest)) k \<longleftrightarrow> first_of (set (n # rest)) k"
proof -
  show n: "first_of (set (G @ n # rest)) n"
    using assms gen_split_rest(3) [OF assms] by (auto simp: first_of_def gen_split_def)
  show "first_of (set (G @ n # rest)) k \<Longrightarrow> ki_generation k = ki_generation n \<Longrightarrow> k = n"
    using n unfolding first_of_def by (metis antisym)
  assume k: "g < ki_generation k"
  then have "ki_generation j \<noteq> ki_generation k" if "j \<in> set G" for j
    using assms that by (auto simp: gen_split_def)
  then show "first_of (set (G @ n # rest)) k \<longleftrightarrow> first_of (set (n # rest)) k"
    unfolding first_of_def by auto
qed

lemma outdated_front:
  assumes "gen_split g G n rest" "ki_timestamp n + KEY_EXPIRY < ki_timestamp (last (n # rest))" "k \<in> set G"
  shows "outdated (set (G @ n # rest)) k"
  unfolding outdated_def gen_split_Min_Max [OF assms(1)]
proof (intro bexI [of _ n] conjI allI impI)
  show "ki_generation k < ki_generation n" using assms(1,3) by (simp add: gen_split_def)
  fix k3
  assume a: "first_of (set (G @ n # rest)) k3 \<and> g < ki_generation k3 \<and> ki_generation k3 \<le> ki_generation n"
  then have "k3 \<in> set (n # rest)" using gen_split_later(1) [OF assms(1), of k3] by (auto simp: first_of_def)
  then have "k3 = n" using gen_split_rest(2) [OF assms(1)] gen_split_first(2) [OF assms(1)] a by fastforce
  then show "ki_timestamp k3 + KEY_EXPIRY < ki_timestamp (last (n # rest))" using assms(2) by simp
qed simp

lemma outdated_back:
  assumes "gen_split g G n rest" "ki_timestamp n + KEY_EXPIRY < ki_timestamp (last (n # rest))" "k \<in> set (n # rest)"
  shows "outdated (set (G @ n # rest)) k \<longleftrightarrow> outdated (set (n # rest)) k"
proof -
  let ?lapsed = "\<lambda>k3. ki_timestamp k3 + KEY_EXPIRY < ki_timestamp (last (n # rest))"
  have "(\<forall>k3. first_of (set (G @ n # rest)) k3 \<and> g < ki_generation k3 \<and> ki_generation k3 \<le> hi \<longrightarrow> ?lapsed k3) \<longleftrightarrow>
    (\<forall>k3. first_of (set (n # rest)) k3 \<and> ki_generation n < ki_generation k3 \<and> ki_generation k3 \<le> hi \<longrightarrow> ?lapsed k3)"
    (is "?L \<longleftrightarrow> ?R") for hi
  proof
    assume ?L
    then show ?R using gen_split_first(3) [OF assms(1)] assms(1) unfolding gen_split_def by (meson order.strict_trans)
  next
    assume R: ?R
    show ?L
    proof (intro allI impI)
      fix k3 assume a: "first_of (set (G @ n # rest)) k3 \<and> g < ki_generation k3 \<and> ki_generation k3 \<le> hi"
      then have "k3 \<in> set (n # rest)" using gen_split_later(1) [OF assms(1), of k3] by (auto simp: first_of_def)
      then consider "ki_generation n < ki_generation k3" | "ki_generation k3 = ki_generation n"
        using gen_split_rest(2) [OF assms(1)] by fastforce
      then show "?lapsed k3"
        by cases (use R a gen_split_first(2,3) [OF assms(1)] assms(2) in blast)+
    qed
  qed
  moreover have "k2 \<in> set (G @ n # rest) \<longleftrightarrow> k2 \<in> set (n # rest)" if "ki_generation k < ki_generation k2" for k2
    using gen_split_later(1) [OF assms(1), of k2] gen_split_rest(1) [OF assms(1,3)] that by auto
  ultimately show ?thesis unfolding outdated_def gen_split_Min_Max [OF assms(1)] by blast
qed

lemma nothing_outdated:
  assumes "gen_split g G n rest" "\<not> ki_timestamp n + KEY_EXPIRY < ki_timestamp (last (n # rest))" "k \<in> set (G @ n # rest)"
  shows "\<not> outdated (set (G @ n # rest)) k"
proof
  assume "outdated (set (G @ n # rest)) k"
  then obtain k2 where k2: "k2 \<in> set (G @ n # rest)" "ki_generation k < ki_generation k2"
    and all: "\<forall>k3. first_of (set (G @ n # rest)) k3 \<and> g < ki_generation k3 \<and>
      ki_generation k3 \<le> ki_generation k2 \<longrightarrow> ki_timestamp k3 + KEY_EXPIRY < ki_timestamp (last (n # rest))"
    unfolding outdated_def gen_split_Min_Max [OF assms(1)] by blast
  have "k2 \<in> set (n # rest)"
    using gen_split_later [OF assms(1)] assms(3) k2 by (meson order.strict_trans1)
  then have "ki_generation n \<le> ki_generation k2" by (rule gen_split_rest(2) [OF assms(1)])
  then show False using all gen_split_first(1) [OF assms(1)] assms(1,2) by (auto simp: gen_split_def)
qed

lemma lapsed_loop_retains:
  "ssorted it \<Longrightarrow> \<forall>k \<in> set it. time_ok k \<Longrightarrow> it \<noteq> [] \<Longrightarrow>
   lapsed_loop (last it) it it = Inr (filter (\<lambda>k. \<not> outdated (set it) k) it)"
proof (induction "length it" arbitrary: it rule: less_induct)
  case less
  obtain h t where it: "it = h # t" using less.prems(3) by (cases it) auto
  show ?case
  proof (cases "dropWhile (\<lambda>k. ki_generation k = ki_generation h) t")
    case Nil
    then have "\<forall>k \<in> set it. ki_generation k = ki_generation h" by (simp add: it dropWhile_eq_Nil_conv)
    then have "\<forall>k \<in> set it. \<not> outdated (set it) k" by (auto simp: outdated_def)
    then show ?thesis using Nil by (simp add: lapsed_loop.simps [of _ "h # t" "h # t"] it)
  next
    case (Cons n rest)
    obtain G where G: "it = G @ n # rest" "gen_split (ki_generation h) G n rest" "length (n # rest) < length it"
      using gen_split_intro [OF less.prems(1)[unfolded it] Cons] it by auto
    have "expired_by n (last it) = Inr (ki_timestamp n + KEY_EXPIRY < ki_timestamp (last (n # rest)))"
      using less.prems(2) G(1) expired_by_ok [of n] by simp
    then have step: "lapsed_loop (last it) it it =
      (if ki_timestamp n + KEY_EXPIRY < ki_timestamp (last (n # rest)) then lapsed_loop (last it) (n # rest) (n # rest) else Inr it)"
      unfolding it lapsed_loop.simps [of _ "h # t" "h # t"] by (simp add: Cons Let_def)
    have ih: "lapsed_loop (last it) (n # rest) (n # rest) = Inr (filter (\<lambda>k. \<not> outdated (set (n # rest)) k) (n # rest))"
      using less.hyps [OF G(3)] less.prems(1,2) G(1) by (simp add: sorted_wrt_append)
    show ?thesis
    proof (cases "ki_timestamp n + KEY_EXPIRY < ki_timestamp (last (n # rest))")
      case True
      have "filter (\<lambda>k. \<not> outdated (set it) k) G = []"
        using outdated_front [OF G(2) True] by (simp add: filter_empty_conv G(1))
      moreover have "filter (\<lambda>k. \<not> outdated (set it) k) (n # rest) = filter (\<lambda>k. \<not> outdated (set (n # rest)) k) (n # rest)"
        using outdated_back [OF G(2) True] unfolding G(1) by (intro filter_cong) auto
      ultimately show ?thesis
        using step True ih arg_cong [OF G(1), of "filter (\<lambda>k. \<not> outdated (set it) k)"] by simp
    next
      case False
      have "\<forall>k \<in> set it. \<not> outdated (set it) k" using nothing_outdated [OF G(2) False] unfolding G(1) by blast
      then show ?thesis using step False by simp
    qed
  qed
qed

lemma lapsed_loop_unfold:
  fixes h t
  defines "it2 \<equiv> dropWhile (\<lambda>k. ki_generation k = ki_generation h) t"
  assumes "lapsed_loop newest (h # t) (h # t) = Inr r"
  shows "r = h # t \<or> (it2 \<noteq> [] \<and> lapsed_loop newest it2 it2 = Inr r)"
proof (cases "it2 = []")
  case True
  then show ?thesis using assms by (simp add: lapsed_loop.simps [of newest "h # t"])
next
  case False
  then have "res_bind (expired_by (hd it2) newest) (\<lambda>lapsed. if lapsed then lapsed_loop newest it2 it2 else Inr (h # t)) = Inr r"
    using assms(2) unfolding lapsed_loop.simps [of newest "h # t"] Let_def list.sel it2_def [symmetric] by simp
  then obtain b where "(if b then lapsed_loop newest it2 it2 else Inr (h # t)) = Inr r"
    unfolding res_bind_eq_Inr by blast
  then show ?thesis using False by (cases b) simp_all
qed

lemma lapsed_loop_suffix:
  "lapsed_loop newest it it = Inr r \<Longrightarrow> it \<noteq> [] \<Longrightarrow> r \<noteq> [] \<and> (\<exists>p. it = p @ r) \<and> lapsed_loop newest r r = Inr r"
proof (induction "length it" arbitrary: it rule: less_induct)
  case less
  obtain h t where it: "it = h # t" using less.prems(2) by (cases it) auto
  define it2 where "it2 = dropWhile (\<lambda>k. ki_generation k = ki_generation h) t"
  have shorter: "length it2 < length it" by (simp add: it it2_def length_dropWhile_le less_Suc_eq_le)
  have suffix: "it = (h # takeWhile (\<lambda>k. ki_generation k = ki_generation h) t) @ it2" by (simp add: it it2_def)
  consider "r = it" | "it2 \<noteq> []" "lapsed_loop newest it2 it2 = Inr r"
    using lapsed_loop_unfold [OF less.prems(1)[unfolded it]] unfolding it it2_def [symmetric] by blast
  then show ?case
  proof cases
    case 1
    then show ?thesis using less.prems by auto
  next
    case 2
    then show ?thesis using less.hyps [OF shorter 2(2,1)] suffix by (metis append.assoc)
  qed
qed

lemma loop_keeps_last: "it = p @ r \<Longrightarrow> r \<noteq> [] \<Longrightarrow> last it = last r"
  by simp

text \<open>\<open>remove_expired\<close> computes the retained keys, and what it leaves is all retained.\<close>

lemma remove_expired_keys:
  assumes "ssorted (gk_keys s)" "\<forall>k \<in> set (gk_keys s). time_ok k"
  shows "\<exists>ks. remove_expired s = Inr (s\<lparr> gk_keys := ks, gk_active_msgs :=
        (if ks \<noteq> [] then dropWhile (\<lambda>p. fst p < ki_generation (hd ks)) (gk_active_msgs s) else []) \<rparr>) \<and>
      ssorted ks \<and> set ks = retained (set (gk_keys s)) \<and> retained (set ks) = set ks \<and> (gk_keys s \<noteq> [] \<longrightarrow> ks \<noteq> [])"
proof (cases "gk_keys s = []")
  case True
  then show ?thesis by (simp add: remove_expired_def retained_def outdated_def)
next
  case False
  let ?ks = "filter (\<lambda>k. \<not> outdated (set (gk_keys s)) k) (gk_keys s)"
  have loop: "lapsed_loop (last (gk_keys s)) (gk_keys s) (gk_keys s) = Inr ?ks"
    by (rule lapsed_loop_retains [OF assms False])
  have one: "lapsed_loop (last [k]) [k] [k] = Inr [k]" for k by (subst lapsed_loop.simps) (simp add: Let_def)
  have "(if 2 \<le> length (gk_keys s) then lapsed_loop (last (gk_keys s)) (gk_keys s) (gk_keys s) else Inr (gk_keys s)) = Inr ?ks"
  proof (cases "2 \<le> length (gk_keys s)")
    case True
    then show ?thesis using loop by simp
  next
    case False
    then have "length (gk_keys s) = 1" using \<open>gk_keys s \<noteq> []\<close> by (cases "gk_keys s") (auto simp: not_le)
    then obtain k where k: "gk_keys s = [k]" by (auto simp: length_Suc_conv)
    have "?ks = gk_keys s" using loop one [of k] unfolding k by simp
    then show ?thesis using False by simp
  qed
  then have eq: "remove_expired s = Inr (s\<lparr> gk_keys := ?ks, gk_active_msgs :=
        (if ?ks \<noteq> [] then dropWhile (\<lambda>p. fst p < ki_generation (hd ?ks)) (gk_active_msgs s) else []) \<rparr>)"
    by (simp only: remove_expired_def res_bind_simps)
  have sorted: "ssorted ?ks" using assms(1) by (rule sorted_wrt_filter)
  obtain p where suf: "?ks \<noteq> []" "gk_keys s = p @ ?ks" "lapsed_loop (last (gk_keys s)) ?ks ?ks = Inr ?ks"
    using lapsed_loop_suffix [OF loop False] by auto
  have fix_point: "retained (set ?ks) = set ?ks"
  proof -
    have "lapsed_loop (last ?ks) ?ks ?ks = Inr ?ks" using suf(3) loop_keeps_last [OF suf(2,1)] by simp
    moreover have "lapsed_loop (last ?ks) ?ks ?ks = Inr (filter (\<lambda>k. \<not> outdated (set ?ks) k) ?ks)"
      using lapsed_loop_retains [OF sorted _ suf(1)] assms(2) by auto
    ultimately have "filter (\<lambda>k. \<not> outdated (set ?ks) k) ?ks = ?ks" by simp
    then show ?thesis unfolding retained_def by (metis set_filter)
  qed
  show ?thesis
    by (rule exI [of _ ?ks], intro conjI impI) (rule eq sorted fix_point suf(1) | simp add: retained_def)+
qed

section \<open>The key list implements its specification\<close>

definition key_ok :: "key_info \<Rightarrow> bool" where
  "key_ok k \<longleftrightarrow> time_ok k \<and> length (ki_key k) = 32 \<and> in_i64 (ki_generation k)"

text \<open>
  The invariant: the keys are strictly sorted, none of them is outdated, and the hashes kept alive belong
  to generations not before the oldest key.
\<close>

definition keys_inv :: "group_keys_obj \<Rightarrow> bool" where
  "keys_inv s \<longleftrightarrow> ssorted (gk_keys s) \<and> (\<forall>k \<in> set (gk_keys s). key_ok k) \<and> retained (set (gk_keys s)) = set (gk_keys s) \<and>
     smap_ok (gk_active_msgs s) \<and>
     (\<forall>(g, hs) \<in> set (gk_active_msgs s). ssorted hs \<and> in_i64 g \<and> gk_keys s \<noteq> [] \<and> ki_generation (hd (gk_keys s)) \<le> g)"

text \<open>The specification of an insertion, on the set of keys.\<close>

definition spec_insert :: "key_info \<Rightarrow> key_info set \<Rightarrow> key_info set" where
  "spec_insert k K =
     (if \<exists>j \<in> K. ki_generation j = ki_generation k \<and> ki_key j = ki_key k then K else retained (insert k K))"

lemma insertion_point:
  assumes "ssorted ks" "k \<notin> set ks"
  shows "ssorted (takeWhile (\<lambda>j. j < k) ks @ k # dropWhile (\<lambda>j. j < k) ks)"
  using assms
proof (induction ks)
  case (Cons a ks)
  show ?case
  proof (cases "a < k")
    case True
    have "\<forall>x \<in> set (takeWhile (\<lambda>j. j < k) ks @ k # dropWhile (\<lambda>j. j < k) ks). a < x"
      using Cons.prems True by (auto dest: set_takeWhileD set_dropWhileD)
    then show ?thesis using Cons True by simp
  next
    case False
    then have "k < a" using Cons.prems(2) by auto
    then show ?thesis using Cons.prems by auto
  qed
qed simp

lemma insertion_set: "set (takeWhile P ks @ k # dropWhile P ks) = insert k (set ks)"
  by (metis (no_types) Un_insert_right list.set(2) set_append takeWhile_dropWhile_id)

lemma add_active_fields [simp]:
  "gk_keys (add_active g h s) = gk_keys s" "gk_pending_key_config (add_active g h s) = gk_pending_key_config s"
  "gk_sign_sk (add_active g h s) = gk_sign_sk s" "gk_sign_pk (add_active g h s) = gk_sign_pk s"
  by (simp_all add: add_active_def)

lemma add_active_ok:
  assumes "smap_ok (gk_active_msgs s)" "\<forall>(g, hs) \<in> set (gk_active_msgs s). ssorted hs \<and> in_i64 g" "in_i64 g"
  shows "smap_ok (gk_active_msgs (add_active g h s))"
    "\<forall>(g, hs) \<in> set (gk_active_msgs (add_active g h s)). ssorted hs \<and> in_i64 g"
    "\<exists>hs. map_of (gk_active_msgs (add_active g h s)) g = Some hs \<and> h \<in> set hs"
    "\<And>p. p \<in> set (gk_active_msgs (add_active g h s)) \<Longrightarrow> fst p = g \<or> p \<in> set (gk_active_msgs s)"
proof -
  let ?hs = "case map_of (gk_active_msgs s) g of Some hs \<Rightarrow> hs | None \<Rightarrow> []"
  have "ssorted ?hs" using assms(1,2) by (auto simp: map_of_Some_smap split: option.split)
  then have "ssorted (set_insert h ?hs)" by simp
  then show "\<forall>(g, hs) \<in> set (gk_active_msgs (add_active g h s)). ssorted hs \<and> in_i64 g"
    using assms(2,3) by (auto simp: add_active_def dest!: smap_put_values)
  show "\<And>p. p \<in> set (gk_active_msgs (add_active g h s)) \<Longrightarrow> fst p = g \<or> p \<in> set (gk_active_msgs s)"
    by (auto simp: add_active_def dest!: smap_put_values)
  show "smap_ok (gk_active_msgs (add_active g h s))" using assms(1) by (simp add: add_active_def)
  show "\<exists>hs. map_of (gk_active_msgs (add_active g h s)) g = Some hs \<and> h \<in> set hs"
    using assms(1) by (simp add: add_active_def map_of_smap_put)
qed

lemma smap_from:
  "smap_ok m \<Longrightarrow> smap_ok (dropWhile (\<lambda>p. fst p < g) m)"
  "smap_ok m \<Longrightarrow> p \<in> set (dropWhile (\<lambda>p. fst p < g) m) \<longleftrightarrow> p \<in> set m \<and> g \<le> fst p"
  by (induction m) (auto simp: not_less intro: order.strict_implies_order order.trans)

lemma retained_subset: "retained K \<subseteq> K"
  by (auto simp: retained_def)

lemma first_key_oldest: "ssorted ks \<Longrightarrow> k \<in> set ks \<Longrightarrow> ki_generation (hd ks) \<le> ki_generation k"
  by (cases ks) (auto intro!: key_less_generation simp: order.strict_implies_order)

text \<open>After \<open>remove_expired\<close> the invariant holds whatever was added before.\<close>

lemma remove_expired_inv:
  assumes "ssorted (gk_keys s)" "\<forall>k \<in> set (gk_keys s). key_ok k" "smap_ok (gk_active_msgs s)"
    and "\<forall>(g, hs) \<in> set (gk_active_msgs s). ssorted hs \<and> in_i64 g"
  shows "\<exists>s'. remove_expired s = Inr s' \<and> keys_inv s' \<and> set (gk_keys s') = retained (set (gk_keys s)) \<and>
     s' = s\<lparr> gk_keys := gk_keys s', gk_active_msgs := gk_active_msgs s' \<rparr> \<and>
     (\<forall>g. gk_keys s' \<noteq> [] \<longrightarrow> ki_generation (hd (gk_keys s')) \<le> g \<longrightarrow>
        map_of (gk_active_msgs s') g = map_of (gk_active_msgs s) g)"
proof -
  obtain ks where r: "remove_expired s = Inr (s\<lparr> gk_keys := ks, gk_active_msgs :=
        (if ks \<noteq> [] then dropWhile (\<lambda>p. fst p < ki_generation (hd ks)) (gk_active_msgs s) else []) \<rparr>)"
    and ks: "ssorted ks" "set ks = retained (set (gk_keys s))" "retained (set ks) = set ks"
    using remove_expired_keys [OF assms(1)] assms(2) unfolding key_ok_def by blast
  let ?am = "dropWhile (\<lambda>p. fst p < ki_generation (hd ks)) (gk_active_msgs s)"
  have am: "smap_ok ?am" "\<And>p. p \<in> set ?am \<longleftrightarrow> p \<in> set (gk_active_msgs s) \<and> ki_generation (hd ks) \<le> fst p"
    using smap_from [OF assms(3)] by auto
  have look: "map_of ?am g = map_of (gk_active_msgs s) g" if "ki_generation (hd ks) \<le> g" for g
  proof -
    have "map_of ?am g = Some v \<longleftrightarrow> map_of (gk_active_msgs s) g = Some v" for v
      using am assms(3) that by (simp add: map_of_Some_smap)
    then show ?thesis by (metis not_Some_eq)
  qed
  have "\<forall>k \<in> set ks. key_ok k" using ks(2) retained_subset assms(2) by blast
  moreover have "\<forall>(g, hs) \<in> set ?am. ssorted hs \<and> in_i64 g \<and> ki_generation (hd ks) \<le> g" using am(2) assms(4) by fastforce
  ultimately show ?thesis unfolding r using ks am(1) look by (simp add: keys_inv_def)
qed

lemma stale_insert:
  assumes "keys_inv s" "gk_keys s = front # rest" "ki_generation k < ki_generation front"
    and "ki_timestamp front + KEY_EXPIRY < ki_timestamp (last (gk_keys s))"
  shows "retained (insert k (set (gk_keys s))) = set (gk_keys s)"
proof -
  have "\<forall>j \<in> set (gk_keys s). k < j"
    using assms(1-3) first_key_oldest [of "gk_keys s"] generation_less_key unfolding keys_inv_def by fastforce
  then have split: "gen_split (ki_generation k) [k] front rest"
    using assms(1-3) by (auto simp: gen_split_def keys_inv_def)
  have lapsed: "ki_timestamp front + KEY_EXPIRY < ki_timestamp (last (front # rest))" using assms(2,4) by simp
  have kept: "\<not> outdated (set (front # rest)) j" if "j \<in> set (front # rest)" for j
    using assms(1,2) that unfolding keys_inv_def retained_def by auto
  have eq: "insert k (set (gk_keys s)) = set ([k] @ front # rest)" using assms(2) by simp
  have gone: "outdated (set ([k] @ front # rest)) k" using outdated_front [OF split lapsed, of k] by simp
  have stay: "\<not> outdated (set ([k] @ front # rest)) j" if "j \<in> set (front # rest)" for j
    using outdated_back [OF split lapsed that] kept [OF that] by blast
  have "retained (set ([k] @ front # rest)) = set (front # rest)"
    using gone stay unfolding retained_def by auto
  then show ?thesis using eq assms(2) by simp
qed

lemma duplicate_inv:
  assumes "keys_inv s" "j \<in> set (gk_keys s)" "ki_generation j = g"
  shows "keys_inv (add_active g h s)"
proof -
  have g: "in_i64 g" "gk_keys s \<noteq> []" "ki_generation (hd (gk_keys s)) \<le> g"
    using assms first_key_oldest by (auto simp: keys_inv_def key_ok_def)
  have am: "smap_ok (gk_active_msgs s)" "\<forall>(g, hs) \<in> set (gk_active_msgs s). ssorted hs \<and> in_i64 g"
    using assms(1) by (auto simp: keys_inv_def)
  have "ssorted hs \<and> in_i64 g' \<and> gk_keys s \<noteq> [] \<and> ki_generation (hd (gk_keys s)) \<le> g'"
    if "(g', hs) \<in> set (gk_active_msgs (add_active g h s))" for g' hs
    using add_active_ok(2) [OF am g(1), of h] add_active_ok(4) [OF am g(1)] that g assms(1) unfolding keys_inv_def by fastforce
  then show ?thesis
    using assms(1) add_active_ok(1) [OF am g(1), of h] unfolding keys_inv_def by auto
qed

definition with_key :: "string \<Rightarrow> key_info \<Rightarrow> group_keys_obj \<Rightarrow> group_keys_obj" where
  "with_key h k s = (add_active (ki_generation k) h s)\<lparr> gk_keys :=
     takeWhile (\<lambda>j. j < k) (gk_keys s) @ k # dropWhile (\<lambda>j. j < k) (gk_keys s) \<rparr>"

lemma insert_then_expire:
  assumes "keys_inv s" "key_ok k" "k \<notin> set (gk_keys s)"
  obtains s' where "remove_expired (with_key h k s) = Inr s'" "keys_inv s'"
    "set (gk_keys s') = retained (insert k (set (gk_keys s)))"
    "s' = (with_key h k s)\<lparr> gk_keys := gk_keys s', gk_active_msgs := gk_active_msgs s' \<rparr>"
    "\<And>g. gk_keys s' \<noteq> [] \<Longrightarrow> ki_generation (hd (gk_keys s')) \<le> g \<Longrightarrow>
        map_of (gk_active_msgs s') g = map_of (gk_active_msgs (add_active (ki_generation k) h s)) g"
proof -
  have eq: "set (gk_keys (with_key h k s)) = insert k (set (gk_keys s))"
    "gk_active_msgs (with_key h k s) = gk_active_msgs (add_active (ki_generation k) h s)"
    using insertion_set [of "\<lambda>j. j < k" "gk_keys s" k] by (simp_all add: with_key_def)
  have sorted: "ssorted (gk_keys (with_key h k s))"
    using insertion_point [OF _ assms(3)] assms(1) by (simp add: with_key_def keys_inv_def)
  have am: "smap_ok (gk_active_msgs s)" "\<forall>(g, hs) \<in> set (gk_active_msgs s). ssorted hs \<and> in_i64 g"
    and gen: "in_i64 (ki_generation k)" and ok: "\<forall>j \<in> insert k (set (gk_keys s)). key_ok j"
    using assms by (auto simp: keys_inv_def key_ok_def)
  show ?thesis
    using remove_expired_inv [OF sorted] ok add_active_ok(1,2) [OF am gen, of h] that unfolding eq by blast
qed

lemma insert_key_cases:
  assumes "keys_inv s" "key_ok k"
  obtains (dup) j where "j \<in> set (gk_keys s)" "ki_generation j = ki_generation k" "ki_key j = ki_key k"
      "insert_key h k s = Inr (add_active (ki_generation k) h s)"
  | (stale) front rest where "gk_keys s = front # rest" "ki_generation k < ki_generation front" "k \<notin> set (gk_keys s)"
      "ki_timestamp front + KEY_EXPIRY < ki_timestamp (last (gk_keys s))" "insert_key h k s = Inr s"
      "\<forall>j \<in> set (gk_keys s). ki_generation j \<noteq> ki_generation k \<or> ki_key j \<noteq> ki_key k"
  | (add) s1 where "insert_key h k s = Inr (s1\<lparr> gk_needs_dump := True \<rparr>)"
      "remove_expired (with_key h k s) = Inr s1" "k \<notin> set (gk_keys s)"
      "\<forall>j \<in> set (gk_keys s). ki_generation j \<noteq> ki_generation k \<or> ki_key j \<noteq> ki_key k"
proof (cases "\<exists>j \<in> set (gk_keys s). ki_generation j = ki_generation k \<and> ki_key j = ki_key k")
  case True
  then show ?thesis using dup by (auto simp: insert_key_def)
next
  case False
  let ?before = "takeWhile (\<lambda>j. j < k) (gk_keys s)" and ?front = "hd (gk_keys s)"
  let ?test = "2 \<le> length (gk_keys s) \<and> ?before = [] \<and> ki_generation k < ki_generation ?front"
  let ?lapsed = "ki_timestamp ?front + KEY_EXPIRY < ki_timestamp (last (gk_keys s))"
  have new: "k \<notin> set (gk_keys s)" using False by auto
  have ok: "\<forall>j \<in> set (gk_keys s). key_ok j" using assms(1) by (auto simp: keys_inv_def)
  have "expired_by ?front (last (gk_keys s)) = Inr ?lapsed" if "gk_keys s \<noteq> []"
    using ok that expired_by_ok [of ?front] by (simp add: key_ok_def)
  then have chk: "(if ?test then expired_by ?front (last (gk_keys s)) else Inr False) = Inr (?test \<and> ?lapsed)"
    by (cases "gk_keys s = []") auto
  obtain s1 where s1: "remove_expired (with_key h k s) = Inr s1" using insert_then_expire [OF assms new] by blast
  have eq: "insert_key h k s = (if ?test \<and> ?lapsed then Inr s else Inr (s1\<lparr> gk_needs_dump := True \<rparr>))"
    unfolding insert_key_def Let_def chk if_not_P [OF False] by (simp add: s1 [unfolded with_key_def])
  show ?thesis
  proof (cases "?test \<and> ?lapsed")
    case True
    then obtain front rest where "gk_keys s = front # rest" by (cases "gk_keys s") auto
    then show ?thesis using stale True eq False new by auto
  next
    case no: False
    show ?thesis by (rule add [OF _ s1 new]) (use eq no False in auto)
  qed
qed

lemma insert_key_refine:
  assumes "keys_inv s" "key_ok k"
  shows "\<exists>s'. insert_key h k s = Inr s' \<and> keys_inv s' \<and> set (gk_keys s') = spec_insert k (set (gk_keys s))"
  using assms
proof (cases rule: insert_key_cases [where h = h])
  case (dup j)
  then have "set (gk_keys s) = spec_insert k (set (gk_keys s))" by (auto simp: spec_insert_def)
  then show ?thesis using dup duplicate_inv [OF assms(1) dup(1,2)] by simp
next
  case (stale front rest)
  then have "spec_insert k (set (gk_keys s)) = set (gk_keys s)"
    using stale_insert [OF assms(1) stale(1,2,4)] by (auto simp: spec_insert_def)
  then show ?thesis using stale(5) assms(1) by simp
next
  case (add s1)
  then have "spec_insert k (set (gk_keys s)) = retained (insert k (set (gk_keys s)))"
    by (auto simp: spec_insert_def)
  moreover obtain s' where "remove_expired (with_key h k s) = Inr s'" "keys_inv s'"
    "set (gk_keys s') = retained (insert k (set (gk_keys s)))"
    using insert_then_expire [OF assms add(3)] by blast
  ultimately show ?thesis using add(1,2) by (simp add: keys_inv_def)
qed

text \<open>
  A store that refines a specification operation by operation refines it over every sequence of
  operations, and none of them fails.
\<close>

locale refined_store =
  fixes step :: "'k \<Rightarrow> 's \<Rightarrow> 's res"
    and inv :: "'s \<Rightarrow> bool"
    and ok :: "'k \<Rightarrow> bool"
    and abs :: "'s \<Rightarrow> 'a"
    and spec :: "'k \<Rightarrow> 'a \<Rightarrow> 'a"
  assumes step_refines: "inv s \<Longrightarrow> ok k \<Longrightarrow> \<exists>s'. step k s = Inr s' \<and> inv s' \<and> abs s' = spec k (abs s)"
begin

lemma run_refines:
  "inv s \<Longrightarrow> \<forall>k \<in> set ks. ok k \<Longrightarrow> \<exists>s'. res_fold step ks s = Inr s' \<and> inv s' \<and> abs s' = fold spec ks (abs s)"
proof (induction ks arbitrary: s)
  case (Cons k ks)
  then obtain s1 where "step k s = Inr s1" "inv s1" "abs s1 = spec k (abs s)"
    using step_refines [of s k] by auto
  then show ?case using Cons.IH [of s1] Cons.prems by simp
qed simp

end

interpretation key_list: refined_store
  "\<lambda>(h, k). insert_key h k" keys_inv "\<lambda>(h, k). key_ok k" "\<lambda>s. set (gk_keys s)" "\<lambda>(h, k). spec_insert k"
  by unfold_locales (auto intro: insert_key_refine)

text \<open>
  C16: the key list implements a set of keys: whatever keys arrive in whatever order, no insertion fails, the
  list stays strictly sorted by generation, time and key, and holds exactly the keys the specification
  retains: a key that is already known under its generation is not added again, and outdated ones go.
\<close>

theorem insert_keys_refine:
  assumes "keys_inv s" "\<forall>(h, k) \<in> set new. key_ok k"
  shows "\<exists>s'. res_fold (\<lambda>(h, k). insert_key h k) new s = Inr s' \<and> keys_inv s' \<and>
    set (gk_keys s') = fold (\<lambda>(h, k). spec_insert k) new (set (gk_keys s))"
  using key_list.run_refines [OF assms(1)] assms(2) by (auto simp: case_prod_beta)

lemma outdated_superseded:
  assumes "finite K" "j \<in> K" "outdated K j"
  shows "\<exists>k3 \<in> K. ki_generation j < ki_generation k3 \<and> ki_timestamp k3 + KEY_EXPIRY < ki_timestamp (Max K)"
proof -
  obtain k2 where k2: "k2 \<in> K" "ki_generation j < ki_generation k2"
    and all: "\<forall>k3. first_of K k3 \<and> ki_generation (Min K) < ki_generation k3 \<and> ki_generation k3 \<le> ki_generation k2 \<longrightarrow>
        ki_timestamp k3 + KEY_EXPIRY < ki_timestamp (Max K)"
    using assms(3) by (auto simp: outdated_def)
  let ?F = "{x \<in> K. ki_generation x = ki_generation k2}"
  have F: "finite ?F" "?F \<noteq> {}" using assms(1) k2(1) by auto
  then have m: "Min ?F \<in> K" "ki_generation (Min ?F) = ki_generation k2" using Min_in [OF F] by auto
  have "first_of K (Min ?F)" using F(1) m by (auto simp: first_of_def)
  moreover have "ki_generation (Min K) \<le> ki_generation j" using assms(1,2) by (intro key_less_generation) auto
  ultimately show ?thesis using all m k2(2) by (intro bexI [of _ "Min ?F"]) auto
qed

lemma Max_in_retained:
  assumes "finite K" "K \<noteq> {}"
  shows "Max K \<in> retained K"
proof -
  have "Max K \<in> K" using assms by simp
  moreover have "\<not> ki_generation (Max K) < ki_generation k2" if "k2 \<in> K" for k2
    using key_less_generation [OF Max_ge [OF assms(1) that]] by simp
  ultimately show ?thesis by (auto simp: retained_def outdated_def)
qed

lemma Max_retained:
  assumes "finite K" "K \<noteq> {}"
  shows "Max (retained K) = Max K"
proof (rule Max_eqI)
  show "finite (retained K)" using assms(1) retained_subset finite_subset by blast
  show "j \<le> Max K" if "j \<in> retained K" for j using that assms retained_subset by (metis Max_ge subsetD)
qed (rule Max_in_retained [OF assms])

text \<open>
  A key is lost only to expiry: when an insertion drops a key, a key of a later generation is there
  that is more than \<open>KEY_EXPIRY\<close> older than the newest key, which is still in the list.
\<close>

theorem keys_expire_only_when_superseded:
  assumes "keys_inv s" "key_ok k" "insert_key h k s = Inr s'" "j \<in> set (gk_keys s)" "j \<notin> set (gk_keys s')"
  shows "\<exists>later \<in> insert k (set (gk_keys s)). ki_generation j < ki_generation later \<and>
    ki_timestamp later + KEY_EXPIRY < ki_timestamp (last (gk_keys s')) \<and> gk_keys s' \<noteq> []"
proof -
  have s': "keys_inv s'" "set (gk_keys s') = spec_insert k (set (gk_keys s))"
    using insert_key_refine [OF assms(1,2), of h] assms(3) by auto
  let ?K = "insert k (set (gk_keys s))"
  have K: "set (gk_keys s') = retained ?K" using s'(2) assms(4,5) by (auto simp: spec_insert_def split: if_splits)
  then have "outdated ?K j" using assms(4,5) by (auto simp: retained_def)
  then obtain later where l: "later \<in> ?K" "ki_generation j < ki_generation later"
    "ki_timestamp later + KEY_EXPIRY < ki_timestamp (Max ?K)"
    using outdated_superseded [of ?K j] assms(4) by auto
  have "Max ?K = Max (set (gk_keys s'))" using Max_retained [of ?K] K by simp
  moreover have "gk_keys s' \<noteq> []" using Max_in_retained [of ?K] K by auto
  ultimately show ?thesis using l ssorted_Min_Max(2) [of "gk_keys s'"] s'(1) by (auto simp: keys_inv_def)
qed

section \<open>Dumps\<close>

lemma find_field_hit [simp]: "find_field err k ((k, v) # d) = Inr (v, d)"
  by (simp add: find_field_def skip_until_def)

lemma time_ok_i64: "time_ok k \<Longrightarrow> in_i64 (ki_timestamp k)"
  by (auto simp: time_ok_def in_i64_def)

lemma parse_dump_key: "key_ok k \<Longrightarrow> parse_key_info (dump_key k) = Inr k"
  using time_ok_i64 [of k]
  by (simp add: key_ok_def parse_key_info_def dump_key_def consume_dict_def consume_string_def consume_integer_def
      sys_time_from_ms_def clock_time_def time_ok_def)

lemma load_dumped_keys:
  "\<forall>k \<in> set ks. key_ok k \<Longrightarrow> ssorted (old @ ks) \<Longrightarrow> res_fold load_key_entry (map dump_key ks) old = Inr (old @ ks)"
proof (induction ks arbitrary: old)
  case (Cons k ks)
  have "old \<noteq> [] \<Longrightarrow> last old < k" using Cons.prems(2) by (simp add: sorted_wrt_append)
  then have "load_key_entry (dump_key k) old = Inr (old @ [k])"
    using Cons.prems(1) by (auto simp: load_key_entry_def parse_dump_key)
  then show ?case using Cons.IH [of "old @ [k]"] Cons.prems by simp
qed simp

lemma strings_of_map [simp]: "strings_of (map BtStr hs) = Inr hs"
  by (induction hs) auto

lemma set_insert_all_sorted: "ssorted hs \<Longrightarrow> set_insert_all hs [] = hs"
  by (intro ssorted_ext) (auto simp: set_insert_all_def ssorted_fold_insert set_fold_insert)

lemma smap_put_last: "\<forall>p \<in> set m. fst p < k \<Longrightarrow> smap_put k v m = m @ [(k, v)]"
  by (induction m) auto

abbreviation dump_active :: "int \<times> string list \<Rightarrow> bt_value" where
  "dump_active \<equiv> \<lambda>(gen, hashes). BtList (BtInt gen # map BtStr hashes)"

lemma load_dumped_active:
  "\<forall>(g, hs) \<in> set am. ssorted hs \<and> in_i64 g \<Longrightarrow> smap_ok (old @ am) \<Longrightarrow>
   res_fold load_active (map dump_active am) old = Inr (old @ am)"
proof (induction am arbitrary: old)
  case (Cons p am)
  obtain g hs where p: "p = (g, hs)" by fastforce
  have below: "\<forall>q \<in> set old. fst q < g" using Cons.prems(2) by (auto simp: p sorted_wrt_append)
  then have "map_of old g = None" by (force simp: map_of_eq_None_iff)
  then have "load_active (dump_active p) old = Inr (old @ [p])"
    using Cons.prems(1) smap_put_last [OF below, of hs]
    by (simp add: p load_active_def consume_list_def consume_integer_def set_insert_all_sorted)
  then show ?case using Cons.IH [of "old @ [p]"] Cons.prems by simp
qed simp

definition pending_ok :: "group_keys_obj \<Rightarrow> bool" where
  "pending_ok s \<longleftrightarrow> gk_pending_key_config s \<noteq> [] \<longrightarrow> length (gk_pending_key s) = 32 \<and> in_i64 (gk_pending_gen s)"

lemma dump_pairs_ok: "keys_inv s \<Longrightarrow> pending_ok s \<Longrightarrow> bt_ok (BtDict (keys_dump_pairs s))"
  by (auto simp: keys_dump_pairs_def keys_inv_def pending_ok_def key_ok_def list_all_iff dump_key_def time_ok_i64)

text \<open>
  C32: a dump of the group keys, loaded into a new object, restores the keys, the hashes to keep alive and the
  pending key with its message; the order check of the loader accepts every list the object can hold.
\<close>

theorem keys_dump_round_trip:
  assumes "codec_ok x" "keys_inv s" "pending_ok s" "gk_keys b = []" "gk_active_msgs b = []"
  shows "keys_load_dump x (fst (keys_dump x s)) b = Inr
    (if gk_pending_key_config s = []
     then b\<lparr> gk_keys := gk_keys s, gk_active_msgs := gk_active_msgs s \<rparr>
     else b\<lparr> gk_keys := gk_keys s, gk_active_msgs := gk_active_msgs s, gk_pending_key := gk_pending_key s,
            gk_pending_key_config := gk_pending_key_config s, gk_pending_gen := gk_pending_gen s \<rparr>)"
proof -
  have dec: "bt_decode x (bt_encode x (BtDict (keys_dump_pairs s))) = Some (BtDict (keys_dump_pairs s))"
    using assms(1) dump_pairs_ok [OF assms(2,3)] unfolding codec_ok_def by blast
  have keys: "res_fold load_key_entry (map dump_key (gk_keys s)) [] = Inr (gk_keys s)"
    using load_dumped_keys [of "gk_keys s" "[]"] assms(2) by (simp add: keys_inv_def)
  have active: "res_fold load_active (map dump_active (gk_active_msgs s)) [] = Inr (gk_active_msgs s)"
    using load_dumped_active [of "gk_active_msgs s" "[]"] assms(2) by (fastforce simp: keys_inv_def)
  show ?thesis
    using assms(3-5) keys active
    by (simp add: keys_dump_def keys_make_dump_def keys_load_dump_def dec)
      (simp add: keys_dump_pairs_def consume_list_def consume_dict_def consume_string_def consume_integer_def
        load_pending_def pending_ok_def skip_until_def)
qed

end
