(* ===== verification/Group_Key_Messages.thy ===== *)
theory Group_Key_Messages
  imports Group_Keys
begin

text \<open>
  The messages of \<open>src/src/config/groups/keys.cpp\<close>: \<open>rekey\<close> makes a new key and a message that carries it, encrypted
  once for the admins and once for each member; \<open>key_supplement\<close> sends the current keys to new members;
  \<open>load_key_message\<close> reads both kinds; \<open>encrypt_message\<close> and \<open>decrypt_message\<close> use the keys on group messages.
\<close>

section \<open>Definitions\<close>

definition compute_xpk :: "curve \<Rightarrow> bytes \<Rightarrow> bytes res" where
  "compute_xpk cv ed25519_pk = (case pk_to_curve cv ed25519_pk of None \<Rightarrow> Inl Runtime_error | Some x \<Rightarrow> Inr x)"

definition seed_hash_key :: string where "seed_hash_key = ''SessionGroupKeySeed''"
definition enc_key_hash_key :: string where "enc_key_hash_key = ''SessionGroupKeyGen''"
definition enc_key_admin_hash_key :: string where "enc_key_admin_hash_key = ''SessionGroupKeyAdminKey''"
definition enc_key_member_hash_key :: string where "enc_key_member_hash_key = ''SessionGroupKeyMemberKey''"
definition junk_seed_hash_key :: string where "junk_seed_hash_key = ''SessionGroupJunkMembers''"

text \<open>\<open>std::to_string\<close>\<close>

definition int_to_string :: "int \<Rightarrow> string" where
  "int_to_string i = (if i < 0 then CHR ''-'' # digits (nat (- i)) else digits (nat i))"

definition gk_sign :: "group_keys_obj \<Rightarrow> bytes \<Rightarrow> bytes res" where
  "gk_sign s data =
     (case gk_signer s of
        None \<Rightarrow> Inl Bad_function_call
      | Some f \<Rightarrow> let sig = f data in if length sig \<noteq> 64 then Inl Logic_error else Inr sig)"

subsection \<open>A new key\<close>

text \<open>\<open>H1\<close>: the key (32 bytes) and the nonce (24 bytes) of generation \<open>gen\<close> for these members.\<close>

definition rekey_hash :: "env \<Rightarrow> string list \<Rightarrow> int \<Rightarrow> bytes \<Rightarrow> bytes" where
  "rekey_hash e sids gen h2 =
     generichash (e_crypto e) 56 enc_key_hash_key (concat sids @ int_to_string gen @ h2)"

definition next_generation :: "group_keys_obj \<Rightarrow> int res" where
  "next_generation s = (if gk_keys s = [] then Inr 0 else i64_arith (ki_generation (last (gk_keys s)) + 1))"

text \<open>The junk entries that fill the list of member keys up to the next multiple.\<close>

definition junk_keys :: "env \<Rightarrow> curve \<Rightarrow> bytes \<Rightarrow> bytes \<Rightarrow> nat \<Rightarrow> bytes list" where
  "junk_keys e cv h1 sign_sk member_count =
     (if member_count mod MESSAGE_KEY_MULTIPLE \<noteq> 0 then
        let n_junk = MESSAGE_KEY_MULTIPLE - member_count mod MESSAGE_KEY_MULTIPLE;
            rng_seed = generichash (e_crypto e) 32 junk_seed_hash_key (h1 @ sign_sk) in
        split_parts 48 (det_random cv (48 * n_junk) rng_seed)
      else [])"

definition rekey_pairs ::
  "env \<Rightarrow> encodings \<Rightarrow> curve \<Rightarrow> string list \<Rightarrow> int \<Rightarrow> bytes \<Rightarrow> bytes \<Rightarrow> bytes \<Rightarrow> group_keys_obj \<Rightarrow> bt_dict res" where
  "rekey_pairs e enc cv sids gen h1 sign_pk sign_sk s =
     (let enc_key = take 32 h1; nonce = drop 32 h1 in
      res_bind (compute_xpk cv sign_pk) (\<lambda>group_xpk.
      res_bind (gk_seed_hash e enc_key_admin_hash_key s) (\<lambda>member_k.
      let encrypted = aead_encrypt (e_crypto e) enc_key nonce member_k in
      res_bind (res_map (\<lambda>sid. session_id_pk enc sid ''05'') sids) (\<lambda>member_xpks.
      res_bind (encrypt_for_multiple (e_crypto e) cv [enc_key] member_xpks nonce (sk_to_curve cv sign_sk) group_xpk
                  enc_key_member_hash_key True) (\<lambda>member_keys.
        Inr [(''#'', BtStr nonce), (''G'', BtInt gen), (''K'', BtStr encrypted),
             (''k'', BtList (map BtStr (member_keys @ junk_keys e cv h1 sign_sk (length member_keys))))])))))"

definition rekey ::
  "env \<Rightarrow> encodings \<Rightarrow> curve \<Rightarrow> group_keys_obj \<Rightarrow> config_base \<Rightarrow> members \<Rightarrow>
   (bytes \<times> group_keys_obj \<times> config_base \<times> members) res" where
  "rekey e enc cv s info ms =
     (case (gk_sign_sk s, gk_sign_pk s) of
        (Some sign_sk, Some sign_pk) \<Rightarrow>
          res_bind (compute_xpk cv sign_pk) (\<lambda>_.
          res_bind (gk_seed_hash e seed_hash_key s) (\<lambda>h2.
          res_bind (members_all enc ms) (\<lambda>mbs.
          res_bind (next_generation s) (\<lambda>gen.
          let sids = map mb_session_id mbs; h1 = rekey_hash e sids gen h2 in
          res_bind (rekey_pairs e enc cv sids gen h1 sign_pk sign_sk s) (\<lambda>pairs.
          res_bind (gk_sign s (bt_to_sign (e_libs e) pairs)) (\<lambda>sig.
          let conf = bt_encode (e_libs e) (BtDict (pairs @ [(''~'', BtStr sig)]));
              s = s\<lparr> gk_pending_gen := gen, gk_pending_key := take 32 h1, gk_pending_key_config := conf \<rparr>;
              new_key_list = group_keys s in
          res_bind (replace_members_keys e new_key_list True ms) (\<lambda>ms.
          res_bind (replace_keys e new_key_list True info) (\<lambda>info.
            Inr (conf, s\<lparr> gk_needs_dump := True \<rparr>, info, ms)))))))))
      | _ \<Rightarrow> Inl Logic_error)"

text \<open>
  The supplement. Its dict is written in the order \<open>#\<close>, \<open>+\<close>, \<open>G\<close>, \<open>~\<close>.
\<close>

definition key_supplement ::
  "env \<Rightarrow> encodings \<Rightarrow> curve \<Rightarrow> string list \<Rightarrow> group_keys_obj \<Rightarrow> bytes res" where
  "key_supplement e enc cv sids s =
     (case (gk_sign_sk s, gk_sign_pk s) of
        (Some sign_sk, Some sign_pk) \<Rightarrow>
          if gk_keys s = [] then Inl Logic_error
          else
            res_bind (compute_xpk cv sign_pk) (\<lambda>group_xpk.
            let supp_keys = bt_encode (e_libs e) (BtList (map dump_key (gk_keys s))) in
            res_bind (gk_seed_hash e seed_hash_key s) (\<lambda>h2.
            let nonce = generichash (e_crypto e) 24 enc_key_hash_key (concat sids @ supp_keys @ h2) in
            res_bind (res_map (\<lambda>sid. session_id_pk enc sid ''05'') sids) (\<lambda>member_xpks.
            res_bind (encrypt_for_multiple (e_crypto e) cv [supp_keys] member_xpks nonce (sk_to_curve cv sign_sk)
                        group_xpk enc_key_member_hash_key True) (\<lambda>encrypted.
            if encrypted = [] then Inl Runtime_error
            else
              let pairs = [(''#'', BtStr nonce), (''+'', BtList (map BtStr encrypted)),
                           (''G'', BtInt (ki_generation (last (gk_keys s))))] in
              res_bind (gk_sign s (bt_to_sign (e_libs e) pairs)) (\<lambda>sig.
                Inr (bt_encode (e_libs e) (BtDict (pairs @ [(''~'', BtStr sig)]))))))))
      | _ \<Rightarrow> Inl Logic_error)"

subsection \<open>Loading a key message\<close>

text \<open>A nonce that is too short is read past its end when the assertion is compiled out.\<close>

definition try_decrypting :: "env \<Rightarrow> bytes \<Rightarrow> bytes \<Rightarrow> bytes \<Rightarrow> bytes option res" where
  "try_decrypting e encrypted nonce key =
     res_bind (assertion e (16 \<le> length encrypted)) (\<lambda>_.
     res_bind (assertion e (length nonce = 24)) (\<lambda>_.
     res_bind (assertion e (length key = 32)) (\<lambda>_.
       if length nonce < 24 \<or> length key < 32 then Inl Undefined_behaviour
       else Inr (aead_decrypt (e_crypto e) encrypted (take 24 nonce) (take 32 key)))))"

text \<open>
  The callbacks \<open>next_ciphertext\<close>: the size is checked for every entry; with \<open>skip\<close> (an admin, or a key that was
  already found) the entry is not returned.
\<close>

definition supplement_item :: "bool \<Rightarrow> bt_value \<Rightarrow> bytes option res" where
  "supplement_item skip v =
     res_bind (consume_string v) (\<lambda>encrypted.
       if length encrypted < 52 + 16 then Inl Config_error
       else Inr (if skip then None else Some encrypted))"

definition member_key_item :: "bool \<Rightarrow> bt_value \<Rightarrow> bytes option res" where
  "member_key_item skip v =
     res_bind (consume_string v) (\<lambda>member_key.
       if length member_key \<noteq> 32 + 16 then Inl Config_error
       else Inr (if skip then None else Some member_key))"

definition parse_supplement :: "libs \<Rightarrow> bytes \<Rightarrow> key_info list res" where
  "parse_supplement x plaintext =
     (case bt_decode x plaintext of
        Some (BtList key_infos) \<Rightarrow> res_map parse_key_info key_infos
      | _ \<Rightarrow> Inl Bt_deserialize_invalid)"

text \<open>
  Both readers give the new keys, the generation to file the message under when there are none, and the
  rest of the dict. \<open>xsk\<close> and \<open>xpk\<close> are the member's X25519 keys; for an admin they are uninitialised.
\<close>

definition load_supplement ::
  "env \<Rightarrow> curve \<Rightarrow> bool \<Rightarrow> bytes \<Rightarrow> bytes \<Rightarrow> bytes \<Rightarrow> bytes \<Rightarrow> bt_value \<Rightarrow> bt_dict \<Rightarrow>
   (key_info list \<times> int option \<times> bt_dict) res" where
  "load_supplement e cv adm nonce xsk xpk group_xpk v d =
     res_bind (consume_list v) (\<lambda>supp.
     res_bind (decrypt_for_multiple_next (e_crypto e) cv (supplement_item adm) supp nonce xsk xpk group_xpk
                 enc_key_member_hash_key) (\<lambda>(plaintext, rest).
     res_bind (case plaintext of None \<Rightarrow> Inr [] | Some p \<Rightarrow> parse_supplement (e_libs e) p) (\<lambda>new_keys.
     res_bind (res_map (supplement_item adm) rest) (\<lambda>_.
     res_bind (find_field Config_error ''G'' d) (\<lambda>(g, d).
     res_bind (consume_integer g) (\<lambda>max_gen.
       Inr (new_keys, Some max_gen, d)))))))"

definition load_full ::
  "env \<Rightarrow> curve \<Rightarrow> group_keys_obj \<Rightarrow> int \<Rightarrow> bytes \<Rightarrow> bytes \<Rightarrow> bytes \<Rightarrow> bytes \<Rightarrow> bt_dict \<Rightarrow>
   (key_info list \<times> int option \<times> bt_dict) res" where
  "load_full e cv s timestamp_ms nonce xsk xpk group_xpk d =
     res_bind (sys_time_from_ms timestamp_ms) (\<lambda>ts.
     res_bind (find_field Config_error ''G'' d) (\<lambda>(g, d).
     res_bind (consume_integer g) (\<lambda>gen.
     res_bind (guard (0 \<le> gen) Config_error) (\<lambda>_.
     res_bind (find_field Config_error ''K'' d) (\<lambda>(ak, d).
     res_bind (consume_string ak) (\<lambda>admin_key.
     res_bind (guard (length admin_key = 32 + 16) Config_error) (\<lambda>_.
     res_bind (if gk_admin s then
         res_bind (gk_seed_hash e enc_key_admin_hash_key s) (\<lambda>k.
         res_bind (try_decrypting e admin_key nonce k) (\<lambda>plain.
           case plain of None \<Rightarrow> Inl Config_error | Some key \<Rightarrow> Inr (Some key)))
       else Inr None) (\<lambda>found.
     res_bind (find_field Config_error ''k'' d) (\<lambda>(mk, d).
     res_bind (consume_list mk) (\<lambda>key_list.
     res_bind (decrypt_for_multiple_next (e_crypto e) cv (member_key_item (found \<noteq> None)) key_list nonce xsk xpk
                 group_xpk enc_key_member_hash_key) (\<lambda>(plaintext, rest).
     res_bind (case plaintext of
         None \<Rightarrow> Inr found
       | Some p \<Rightarrow> res_bind (assertion e (length p = 32)) (\<lambda>_. Inr (Some p))) (\<lambda>found.
     res_bind (res_map (member_key_item (found \<noteq> None)) rest) (\<lambda>_.
     if length key_list mod MESSAGE_KEY_MULTIPLE \<noteq> 0 then Inl Config_error
     else Inr (case found of
         Some key \<Rightarrow> ([Key_Info key ts gen], None, d)
       | None \<Rightarrow> ([], Some gen, d)))))))))))))))"

definition drop_pending :: "key_info list \<Rightarrow> group_keys_obj \<Rightarrow> group_keys_obj" where
  "drop_pending new_keys s =
     (if gk_admin s \<and> new_keys \<noteq> [] \<and> gk_pending_key_config s \<noteq> [] \<and>
         (ki_generation (hd new_keys) > gk_pending_gen s \<or> ki_key (hd new_keys) = gk_pending_key s)
      then s\<lparr> gk_pending_key_config := [], gk_needs_dump := True \<rparr> else s)"

text \<open>What is done with the keys of a message whose signature is good.\<close>

definition accept_keys ::
  "env \<Rightarrow> string \<Rightarrow> key_info list \<Rightarrow> int option \<Rightarrow> group_keys_obj \<Rightarrow> config_base \<Rightarrow> members \<Rightarrow>
   (bool \<times> group_keys_obj \<times> config_base \<times> members) res" where
  "accept_keys e hash new_keys max_gen s info ms =
     (let s = drop_pending new_keys s in
      if new_keys \<noteq> [] then
        res_bind (res_fold (insert_key hash) new_keys s) (\<lambda>s.
        let new_key_list = group_keys s in
        res_bind (replace_members_keys e new_key_list False ms) (\<lambda>ms.
        res_bind (replace_keys e new_key_list False info) (\<lambda>info.
          Inr (True, s, info, ms))))
      else case max_gen of
        Some g \<Rightarrow>
          res_bind (remove_expired (add_active g hash s)) (\<lambda>s.
            Inr (False, s\<lparr> gk_needs_dump := True \<rparr>, info, ms))
      | None \<Rightarrow> Inr (False, s, info, ms))"

definition load_key_message ::
  "env \<Rightarrow> curve \<Rightarrow> bytes \<times> bytes \<Rightarrow> string \<Rightarrow> bytes \<Rightarrow> int \<Rightarrow> group_keys_obj \<Rightarrow> config_base \<Rightarrow> members \<Rightarrow>
   (bool \<times> group_keys_obj \<times> config_base \<times> members) res" where
  "load_key_message e cv uninit hash data timestamp_ms s info ms =
     (case bt_decode (e_libs e) data of
        Some (BtDict d) \<Rightarrow>
          (case (gk_sign_pk s, gk_verifier s) of
             (Some sign_pk, Some verifier) \<Rightarrow>
               res_bind (compute_xpk cv sign_pk) (\<lambda>group_xpk.
               res_bind (find_field Config_error ''#'' d) (\<lambda>(n, d).
               res_bind (consume_string n) (\<lambda>nonce.
               res_bind (if gk_admin s then Inr uninit
                         else res_bind (compute_xpk cv (drop 32 (gk_user_sk s)))
                                (\<lambda>xpk. Inr (sk_to_curve cv (gk_user_sk s), xpk))) (\<lambda>(xsk, xpk).
               res_bind (case skip_until ''+'' d of
                   (k, v) # rest \<Rightarrow>
                     if k = ''+'' then load_supplement e cv (gk_admin s) nonce xsk xpk group_xpk v rest
                     else load_full e cv s timestamp_ms nonce xsk xpk group_xpk ((k, v) # rest)
                 | [] \<Rightarrow> load_full e cv s timestamp_ms nonce xsk xpk group_xpk []) (\<lambda>(new_keys, max_gen, d).
               res_bind (verify_config_sig (e_libs e) data d (Some verifier) None False) (\<lambda>_.
                 accept_keys e hash new_keys max_gen s info ms))))))
           | _ \<Rightarrow> Inl Logic_error)
      | _ \<Rightarrow> Inl Bt_deserialize_invalid)"

subsection \<open>Group messages\<close>

definition ENCRYPT_OVERHEAD :: nat where "ENCRYPT_OVERHEAD = 24 + 16"

definition message_pairs :: "bytes \<Rightarrow> bool \<Rightarrow> bytes \<Rightarrow> bytes \<Rightarrow> bt_dict" where
  "message_pairs user_pk compress plaintext signature =
     [('''', BtInt 1), (''a'', BtStr user_pk)] @
     (if compress then [] else [(''d'', BtStr plaintext)]) @ [(''s'', BtStr signature)] @
     (if compress then [(''z'', BtStr plaintext)] else [])"

text \<open>\<open>rnd\<close> is the random nonce. \<open>zstd_compress\<close> has level 1 and no prefix by default.\<close>

definition encrypt_message :: "env \<Rightarrow> bytes \<Rightarrow> bytes \<Rightarrow> bool \<Rightarrow> nat \<Rightarrow> group_keys_obj \<Rightarrow> bytes res" where
  "encrypt_message e rnd plaintext compress padding s =
     (if length plaintext > MAX_PLAINTEXT_MESSAGE_SIZE then Inl Runtime_error
      else
        let compressed = e_zstd_compress e plaintext 1 [];
            compress = (compress \<and> length compressed < length plaintext);
            plaintext = (if compress then compressed else plaintext) in
        res_bind (assertion e (gk_sign_pk s \<noteq> None)) (\<lambda>_.
        case gk_sign_pk s of
          None \<Rightarrow> Inl Undefined_behaviour
        | Some sign_pk \<Rightarrow>
            let signature = e_sign e (gk_user_sk s) (plaintext @ sign_pk);
                enc = bt_encode (e_libs e) (BtDict (message_pairs (drop 32 (gk_user_sk s)) compress plaintext signature));
                final_len = ENCRYPT_OVERHEAD + length enc;
                enc = (if padding > 1 \<and> final_len mod padding \<noteq> 0
                       then enc @ replicate (padding - final_len mod padding) (CHR 0x00) else enc) in
            res_bind (group_enc_key s) (\<lambda>key.
              Inr (rnd @ aead_encrypt (e_crypto e) enc rnd key))))"

fun first_opening :: "env \<Rightarrow> bytes \<Rightarrow> bytes \<Rightarrow> bytes list \<Rightarrow> bytes option res" where
  "first_opening e ciphertext nonce [] = Inr None"
| "first_opening e ciphertext nonce (k # ks) =
     res_bind (try_decrypting e ciphertext nonce k) (\<lambda>plain.
       case plain of Some p \<Rightarrow> Inr (Some p) | None \<Rightarrow> first_opening e ciphertext nonce ks)"

text \<open>Trailing nulls are removed unless there is nothing else.\<close>

definition strip_nulls :: "bytes \<Rightarrow> bytes" where
  "strip_nulls plain = (let r = dropWhile (\<lambda>c. c = CHR 0x00) (rev plain) in if r = [] then plain else rev r)"

text \<open>An optional field: its value, which must not be empty, and the rest of the dict.\<close>

definition optional_data :: "string \<Rightarrow> bt_dict \<Rightarrow> (bytes option \<times> bt_dict) res" where
  "optional_data k d =
     (case skip_until k d of
        (k', v) # rest \<Rightarrow>
          if k' = k then
            res_bind (consume_string v) (\<lambda>raw. if raw = [] then Inl Runtime_error else Inr (Some raw, rest))
          else Inr (None, (k', v) # rest)
      | [] \<Rightarrow> Inr (None, []))"

definition open_message :: "env \<Rightarrow> bytes \<Rightarrow> group_keys_obj \<Rightarrow> bt_dict res" where
  "open_message e ciphertext s =
     (if length ciphertext < ENCRYPT_OVERHEAD then Inl Runtime_error
      else
        let nonce = take 24 ciphertext; ciphertext = drop 24 ciphertext in
        res_bind (first_opening e ciphertext nonce
                    ((case pending_key s of Some k \<Rightarrow> [k] | None \<Rightarrow> []) @ map ki_key (gk_keys s))) (\<lambda>decrypted.
        case decrypted of
          None \<Rightarrow> Inl Runtime_error
        | Some plain \<Rightarrow>
            let plain = strip_nulls plain in
            if plain = [] \<or> hd plain \<noteq> CHR ''d'' \<or> last plain \<noteq> CHR ''e'' then Inl Runtime_error
            else case bt_decode (e_libs e) plain of Some (BtDict d) \<Rightarrow> Inr d | _ \<Rightarrow> Inl Bt_deserialize_invalid))"

definition decrypt_message ::
  "env \<Rightarrow> encodings \<Rightarrow> curve \<Rightarrow> bytes \<Rightarrow> group_keys_obj \<Rightarrow> (string \<times> bytes) res" where
  "decrypt_message e enc cv ciphertext s =
     res_bind (open_message e ciphertext s) (\<lambda>dict.
     res_bind (find_field Runtime_error '''' dict) (\<lambda>(v, dict).
     res_bind (consume_int32 v) (\<lambda>ver.
     res_bind (guard (ver = 1) Runtime_error) (\<lambda>_.
     res_bind (find_field Runtime_error ''a'' dict) (\<lambda>(a, dict).
     res_bind (consume_string a) (\<lambda>ed_pk.
     res_bind (guard (length ed_pk = 32) Runtime_error) (\<lambda>_.
     res_bind (compute_xpk cv ed_pk) (\<lambda>x_pk.
     let session_id = ''05'' @ to_hex enc x_pk in
     res_bind (optional_data ''d'' dict) (\<lambda>(plain, dict).
     res_bind (find_field Runtime_error ''s'' dict) (\<lambda>(sg, dict).
     res_bind (consume_string sg) (\<lambda>ed_sig.
     res_bind (guard (length ed_sig = 64) Runtime_error) (\<lambda>_.
     let z = skip_until ''z'' dict; has_z = (z \<noteq> [] \<and> fst (hd z) = ''z'') in
     res_bind (guard (\<not> (has_z \<and> plain \<noteq> None)) Runtime_error) (\<lambda>_.
     res_bind (optional_data ''z'' dict) (\<lambda>(compressed, dict).
     res_bind (case (plain, compressed) of
         (None, None) \<Rightarrow> Inl Runtime_error | (Some raw, _) \<Rightarrow> Inr raw | (None, Some raw) \<Rightarrow> Inr raw) (\<lambda>raw_data.
     res_bind (assertion e (gk_sign_pk s \<noteq> None)) (\<lambda>_.
     case gk_sign_pk s of
       None \<Rightarrow> Inl Undefined_behaviour
     | Some sign_pk \<Rightarrow>
         if \<not> e_verify e ed_pk (raw_data @ sign_pk) ed_sig then Inl Runtime_error
         else if has_z then
           (case e_zstd_decompress e raw_data of
              Some data \<Rightarrow> if length data > MAX_PLAINTEXT_MESSAGE_SIZE then Inl Runtime_error else Inr (session_id, data)
            | None \<Rightarrow> Inl Runtime_error)
         else Inr (session_id, raw_data)))))))))))))))))"

end
