(* ===== verification/Group_Key_Transfer.thy ===== *)
theory Group_Key_Transfer
  imports Group_Key_Messages
begin

text \<open>
  A new group key reaches everybody: what \<open>rekey\<close> makes, every member and every admin can load with
  \<open>load_key_message\<close>; and what one member encrypts with the group key, every other one reads.
\<close>

section \<open>Replacing the keys of the other configs\<close>

lemma add_keys_effect:
  assumes "\<forall>k \<in> set ks. length k = 32"
  shows "\<exists>ks'. res_fold (\<lambda>k b. add_key e k False False b) ks b = Inr (b\<lparr> cb_keys := ks' \<rparr>) \<and>
    set ks' = set (cb_keys b) \<union> set ks \<and> (cb_keys b @ ks \<noteq> [] \<longrightarrow> hd ks' = hd (cb_keys b @ ks))"
  using assms
proof (induction ks arbitrary: b)
  case Nil
  have "b\<lparr> cb_keys := cb_keys b \<rparr> = b" by simp
  then show ?case by (auto intro!: exI [of _ "cb_keys b"])
next
  case (Cons k ks)
  define l where "l = (if k \<in> set (cb_keys b) then cb_keys b else cb_keys b @ [k])"
  have "add_key e k False False b = Inr (b\<lparr> cb_keys := l \<rparr>)"
    using Cons.prems hd_in_set [of "cb_keys b"] by (auto simp: add_key_def has_key_def KEY_SIZE_def l_def)
  moreover obtain ks' where "res_fold (\<lambda>k b. add_key e k False False b) ks (b\<lparr> cb_keys := l \<rparr>) = Inr (b\<lparr> cb_keys := ks' \<rparr>)"
    "set ks' = set l \<union> set ks" "l @ ks \<noteq> [] \<longrightarrow> hd ks' = hd (l @ ks)"
    using Cons.IH [of "b\<lparr> cb_keys := l \<rparr>"] Cons.prems by auto
  moreover have "set l = insert k (set (cb_keys b))" "l \<noteq> []" "hd (l @ ks) = hd (cb_keys b @ k # ks)"
    by (auto simp: l_def hd_append)
  ultimately show ?case by (intro exI [of _ ks']) auto
qed

lemma replace_keys_effect:
  assumes "\<forall>k \<in> set ks. length k = 32"
  shows "\<exists>ks'. replace_keys e ks False b = Inr (b\<lparr> cb_keys := ks' \<rparr>) \<and> set ks' = set ks \<and> (ks \<noteq> [] \<longrightarrow> hd ks' = hd ks)"
proof (cases "ks = []")
  case True
  have "cb_keys b = [] \<Longrightarrow> b\<lparr> cb_keys := [] \<rparr> = b" by simp
  then show ?thesis using True by (auto simp: replace_keys_def clear_keys_def)
next
  case False
  then show ?thesis using add_keys_effect [OF assms, of e "b\<lparr> cb_keys := [] \<rparr>"] assms
    by (auto simp: replace_keys_def KEY_SIZE_def)
qed

lemma replace_members_keys_effect:
  assumes "\<forall>k \<in> set ks. length k = 32"
  shows "\<exists>ks'. replace_members_keys e ks False ms = Inr (ms\<lparr> mbs_base := (mbs_base ms)\<lparr> cb_keys := ks' \<rparr> \<rparr>) \<and> set ks' = set ks"
  using replace_keys_effect [OF assms, of e "mbs_base ms"] by (auto simp: replace_members_keys_def)

lemma group_keys_length: "keys_inv s \<Longrightarrow> pending_ok s \<Longrightarrow> \<forall>k \<in> set (group_keys s). length k = 32"
  by (auto simp: group_keys_def keys_inv_def key_ok_def pending_ok_def)

lemma insert_key_other:
  assumes "insert_key h k s = Inr s'"
  shows "gk_pending_key_config s' = gk_pending_key_config s" "gk_pending_key s' = gk_pending_key s"
    "gk_pending_gen s' = gk_pending_gen s"
  using assms
  by (auto simp: insert_key_def remove_expired_def add_active_def Let_def res_bind_eq_Inr split: if_splits)

text \<open>Accepting a single good key: it is inserted and the other configs get the new key list.\<close>

lemma accept_one_key:
  assumes "keys_inv s" "pending_ok s" "key_ok k"
  shows "\<exists>s' info' ms'. accept_keys e h [k] mg s info ms = Inr (True, s', info', ms') \<and>
    insert_key h k (drop_pending [k] s) = Inr s' \<and> keys_inv s' \<and>
    set (gk_keys s') = spec_insert k (set (gk_keys s)) \<and>
    gk_pending_key_config s' = gk_pending_key_config (drop_pending [k] s) \<and>
    set (cb_keys info') = set (group_keys s') \<and> set (cb_keys (mbs_base ms')) = set (group_keys s')"
proof -
  let ?s = "drop_pending [k] s"
  have s: "keys_inv ?s" "pending_ok ?s" "gk_keys ?s = gk_keys s"
    using assms(1,2) by (simp_all add: drop_pending_def keys_inv_def pending_ok_def)
  obtain s' where s': "insert_key h k ?s = Inr s'" "keys_inv s'" "set (gk_keys s') = spec_insert k (set (gk_keys s))"
    using insert_key_refine [OF s(1) assms(3), of h] s(3) by auto
  note other = insert_key_other [OF s'(1)]
  have "pending_ok s'" using s(2) other by (simp add: pending_ok_def)
  then have len: "\<forall>k \<in> set (group_keys s'). length k = 32" by (rule group_keys_length [OF s'(2)])
  show ?thesis
    using replace_keys_effect [OF len, of e info] replace_members_keys_effect [OF len, of e ms] s' other(1)
    by (auto simp: accept_keys_def)
qed

section \<open>A new key reaches everybody\<close>

text \<open>What the code relies on of libsodium's signatures and of its deterministic random bytes.\<close>

definition sign_ok :: "env \<Rightarrow> bool" where
  "sign_ok e \<longleftrightarrow> (\<forall>sk m. length (e_sign e sk m) = 64 \<and> e_verify e (e_sk_to_pk e sk) m (e_sign e sk m))"

definition det_random_ok :: "curve \<Rightarrow> bool" where
  "det_random_ok cv \<longleftrightarrow> (\<forall>n seed. length (det_random cv n seed) = n)"

lemma split_parts_unfold: "0 < n \<Longrightarrow> msg \<noteq> [] \<Longrightarrow> split_parts n msg = take n msg # split_parts n (drop n msg)"
  by (cases msg) (simp_all only: split_parts.simps if_False, simp_all)

lemma split_parts_chunks:
  "length msg = n * k \<Longrightarrow> 0 < n \<Longrightarrow> length (split_parts n msg) = k \<and> (\<forall>p \<in> set (split_parts n msg). length p = n)"
proof (induction k arbitrary: msg)
  case (Suc k)
  have len: "length (drop n msg) = n * k" "length (take n msg) = n" and "msg \<noteq> []" using Suc.prems by auto
  then have eq: "split_parts n msg = take n msg # split_parts n (drop n msg)" by (intro split_parts_unfold Suc.prems(2))
  define rest where "rest = split_parts n (drop n msg)"
  have "length rest = k" "\<forall>p \<in> set rest. length p = n" using Suc.IH [OF len(1) Suc.prems(2)] unfolding rest_def by blast+
  then show ?case unfolding eq rest_def [symmetric] by (simp add: len(2) del: length_take)
qed simp

lemma pad_to_multiple:
  fixes len n :: nat
  assumes "1 < n"
  shows "(len + (if len mod n \<noteq> 0 then n - len mod n else 0)) mod n = 0"
proof -
  have "n * q + r + (n - r) = n * (q + 1)" if "r < n" for q r :: nat using that by simp
  from this [of "len mod n" "len div n"] have "len + (n - len mod n) = n * (len div n + 1)" using assms by simp
  then show ?thesis by (metis add_0_right mod_mult_self1_is_0)
qed

lemma junk_keys_fill:
  assumes "det_random_ok cv"
  shows "(m + length (junk_keys e cv h sk m)) mod MESSAGE_KEY_MULTIPLE = 0"
    "\<forall>j \<in> set (junk_keys e cv h sk m). length j = 48"
proof -
  have len: "length (det_random cv (48 * n) seed) = 48 * n" for n seed using assms by (simp add: det_random_ok_def)
  note chunks = split_parts_chunks [OF len]
  note pad_to_multiple [of MESSAGE_KEY_MULTIPLE m]
  then show "(m + length (junk_keys e cv h sk m)) mod MESSAGE_KEY_MULTIPLE = 0"
    using chunks by (auto simp: junk_keys_def Let_def MESSAGE_KEY_MULTIPLE_def)
  show "\<forall>j \<in> set (junk_keys e cv h sk m). length j = 48" using chunks by (auto simp: junk_keys_def Let_def)
qed

text \<open>
  The situation: a group with the Ed25519 keys \<open>sk\<close> and \<open>pk\<close>, and members whose X25519 secrets are \<open>bs\<close>.
\<close>

definition libraries_ok :: "env \<Rightarrow> curve \<Rightarrow> bool" where
  "libraries_ok e cv \<longleftrightarrow> crypto_ok (e_crypto e) \<and> curve_ok cv \<and> codec_ok (e_libs e) \<and>
     sign_ok e \<and> det_random_ok cv"

definition group_of :: "env \<Rightarrow> encodings \<Rightarrow> curve \<Rightarrow> bytes \<Rightarrow> bytes \<Rightarrow> members \<Rightarrow> bytes list \<Rightarrow> bool" where
  "group_of e enc cv sk pk ms bs \<longleftrightarrow>
     pk = e_sk_to_pk e sk \<and> length (sk_to_curve cv sk) = 32 \<and> pk_to_curve cv pk = Some (curve_base cv (sk_to_curve cv sk)) \<and>
     (\<exists>mbs. members_all enc ms = Inr mbs \<and>
        res_map (\<lambda>sid. session_id_pk enc sid ''05'') (map mb_session_id mbs) = Inr (map (curve_base cv) bs)) \<and>
     (\<forall>b \<in> set bs. length b = 32 \<and> curve_mult cv (sk_to_curve cv sk) (curve_base cv b) \<noteq> None)"

definition admin_obj :: "env \<Rightarrow> bytes \<Rightarrow> bytes \<Rightarrow> group_keys_obj \<Rightarrow> bool" where
  "admin_obj e sk pk s \<longleftrightarrow> gk_sign_sk s = Some sk \<and> gk_sign_pk s = Some pk \<and>
     gk_signer s = Some (e_sign e sk) \<and> gk_verifier s = Some (e_verify e pk)"

definition member_obj :: "env \<Rightarrow> bytes \<Rightarrow> group_keys_obj \<Rightarrow> bool" where
  "member_obj e pk s \<longleftrightarrow> gk_sign_sk s = None \<and> gk_sign_pk s = Some pk \<and> gk_verifier s = Some (e_verify e pk)"

text \<open>The dict of a rekey message, without its signature.\<close>

definition rekey_dict :: "env \<Rightarrow> curve \<Rightarrow> bytes \<Rightarrow> bytes list \<Rightarrow> int \<Rightarrow> bytes \<Rightarrow> bt_dict" where
  "rekey_dict e cv sk bs gen h1 =
     (let cts = sealed (e_crypto e) cv (sk_to_curve cv sk) enc_key_member_hash_key (drop 32 h1) [take 32 h1] bs in
      [(''#'', BtStr (drop 32 h1)), (''G'', BtInt gen),
       (''K'', BtStr (aead_encrypt (e_crypto e) (take 32 h1) (drop 32 h1)
                  (generichash (e_crypto e) 32 (take 64 enc_key_admin_hash_key) (take 32 sk)))),
       (''k'', BtList (map BtStr (cts @ junk_keys e cv h1 sk (length bs))))])"

definition rekeyed :: "int \<Rightarrow> bytes \<Rightarrow> bytes \<Rightarrow> group_keys_obj \<Rightarrow> group_keys_obj" where
  "rekeyed gen h1 conf s =
     s\<lparr> gk_pending_gen := gen, gk_pending_key := take 32 h1, gk_pending_key_config := conf \<rparr>"

definition rekey_message :: "env \<Rightarrow> curve \<Rightarrow> bytes \<Rightarrow> bytes list \<Rightarrow> int \<Rightarrow> bytes \<Rightarrow> bytes" where
  "rekey_message e cv sk bs gen h1 = bt_encode (e_libs e) (BtDict (rekey_dict e cv sk bs gen h1 @
     [(''~'', BtStr (e_sign e sk (bt_to_sign (e_libs e) (rekey_dict e cv sk bs gen h1))))]))"

lemma rekey_unfold:
  assumes "libraries_ok e cv" "group_of e enc cv sk pk ms bs" "admin_obj e sk pk s" "next_generation s = Inr gen"
  obtains h1 where "length h1 = 56"
    "rekey e enc cv s info ms =
       (let conf = rekey_message e cv sk bs gen h1; s' = rekeyed gen h1 conf s in
        res_bind (replace_members_keys e (group_keys s') True ms) (\<lambda>ms.
        res_bind (replace_keys e (group_keys s') True info) (\<lambda>info.
          Inr (conf, s'\<lparr> gk_needs_dump := True \<rparr>, info, ms))))"
proof -
  obtain mbs where mbs: "members_all enc ms = Inr mbs"
    "res_map (\<lambda>sid. session_id_pk enc sid ''05'') (map mb_session_id mbs) = Inr (map (curve_base cv) bs)"
    using assms(2) by (auto simp: group_of_def)
  have keys: "gk_sign_sk s = Some sk" "gk_sign_pk s = Some pk" "gk_signer s = Some (e_sign e sk)"
    "compute_xpk cv pk = Inr (curve_base cv (sk_to_curve cv sk))"
    using assms(2,3) by (auto simp: admin_obj_def group_of_def compute_xpk_def)
  define h1 where "h1 = rekey_hash e (map mb_session_id mbs) gen (generichash (e_crypto e) 32 (take 64 seed_hash_key) (take 32 sk))"
  have h1: "length h1 = 56" using assms(1) by (simp add: h1_def rekey_hash_def libraries_ok_def crypto_ok_def)
  have "encrypt_for_multiple (e_crypto e) cv [take 32 h1] (map (curve_base cv) bs) (drop 32 h1) (sk_to_curve cv sk)
      (curve_base cv (sk_to_curve cv sk)) enc_key_member_hash_key True =
    Inr (sealed (e_crypto e) cv (sk_to_curve cv sk) enc_key_member_hash_key (drop 32 h1) [take 32 h1] bs)"
    using assms(1,2) h1 by (intro encrypt_for_multiple_sealed) (auto simp: libraries_ok_def group_of_def)
  then have pairs: "rekey_pairs e enc cv (map mb_session_id mbs) gen h1 pk sk s = Inr (rekey_dict e cv sk bs gen h1)"
    using keys mbs(2) by (simp add: rekey_pairs_def rekey_dict_def gk_seed_hash_def Let_def sealed_def)
  have sig: "gk_sign s m = Inr (e_sign e sk m)" for m
    using keys(3) assms(1) by (simp add: gk_sign_def libraries_ok_def sign_ok_def)
  have "rekey e enc cv s info ms =
       (let conf = rekey_message e cv sk bs gen h1; s' = rekeyed gen h1 conf s in
        res_bind (replace_members_keys e (group_keys s') True ms) (\<lambda>ms.
        res_bind (replace_keys e (group_keys s') True info) (\<lambda>info.
          Inr (conf, s'\<lparr> gk_needs_dump := True \<rparr>, info, ms))))"
    using keys mbs(1) assms(4) pairs sig
    by (simp add: rekey_def gk_seed_hash_def Let_def h1_def [symmetric] rekey_message_def rekeyed_def)
  then show ?thesis using that h1 by blast
qed

lemma next_generation_range: "next_generation s = Inr gen \<Longrightarrow> in_i64 gen"
  by (auto simp: next_generation_def i64_arith_eq_Inr in_i64_def split: if_splits)

lemma rekey_shape:
  assumes "libraries_ok e cv" "group_of e enc cv sk pk ms bs" "admin_obj e sk pk s"
    and "rekey e enc cv s info ms = Inr (conf, s', info', ms')"
  obtains gen h1 where "length h1 = 56" "next_generation s = Inr gen" "conf = rekey_message e cv sk bs gen h1"
    "s' = (rekeyed gen h1 conf s)\<lparr> gk_needs_dump := True \<rparr>"
proof -
  have keys: "gk_sign_sk s = Some sk" "gk_sign_pk s = Some pk" using assms(3) by (auto simp: admin_obj_def)
  obtain gen where gen: "next_generation s = Inr gen"
    using assms(4) keys by (cases "next_generation s") (auto simp: rekey_def res_bind_eq_Inr)
  obtain h1 where h1: "length h1 = 56" "rekey e enc cv s info ms =
       (let conf = rekey_message e cv sk bs gen h1; s' = rekeyed gen h1 conf s in
        res_bind (replace_members_keys e (group_keys s') True ms) (\<lambda>ms.
        res_bind (replace_keys e (group_keys s') True info) (\<lambda>info.
          Inr (conf, s'\<lparr> gk_needs_dump := True \<rparr>, info, ms))))"
    using rekey_unfold [OF assms(1-3) gen] by metis
  have "conf = rekey_message e cv sk bs gen h1 \<and> s' = (rekeyed gen h1 conf s)\<lparr> gk_needs_dump := True \<rparr>"
    using assms(4) unfolding h1(2) Let_def by (auto simp: res_bind_eq_Inr)
  then show ?thesis using that h1(1) gen by blast
qed

text \<open>A rekey succeeds when the info and the member list are being edited already.\<close>

lemma replace_keys_edited:
  assumes "\<forall>k \<in> set ks. length k = 32" "cb_state b = Dirty" "cm_orig_data (cb_config b) \<noteq> None"
  shows "\<exists>b'. replace_keys e ks d b = Inr b'"
proof (cases "ks = []")
  case True
  then show ?thesis using assms(2,3) by (auto simp: replace_keys_def clear_keys_def dirty_def Let_def)
next
  case False
  obtain ks' where "res_fold (\<lambda>k b. add_key e k False False b) ks (b\<lparr> cb_keys := [] \<rparr>) = Inr (b\<lparr> cb_keys := ks' \<rparr>)"
    using add_keys_effect [OF assms(1), of e "b\<lparr> cb_keys := [] \<rparr>"] by auto
  moreover have "\<not> (\<exists>k \<in> set ks. length k \<noteq> KEY_SIZE)" using assms(1) by (simp add: KEY_SIZE_def)
  moreover have "\<exists>b'. dirty e (b\<lparr> cb_keys := ks' \<rparr>) = Inr b'" using assms(2,3) by (auto simp: dirty_def)
  ultimately show ?thesis using False unfolding replace_keys_def Let_def by auto
qed

lemma rekey_succeeds:
  assumes "libraries_ok e cv" "group_of e enc cv sk pk ms bs" "admin_obj e sk pk s" "next_generation s = Inr gen" "keys_inv s"
    and "cb_state info = Dirty" "cm_orig_data (cb_config info) \<noteq> None"
    and "cb_state (mbs_base ms) = Dirty" "cm_orig_data (cb_config (mbs_base ms)) \<noteq> None"
  shows "\<exists>conf s' info' ms'. rekey e enc cv s info ms = Inr (conf, s', info', ms') \<and> gk_pending_gen s' = gen \<and>
    length (gk_pending_key s') = 32"
proof -
  obtain h1 where h1: "length h1 = 56" "rekey e enc cv s info ms =
       (let conf = rekey_message e cv sk bs gen h1; s' = rekeyed gen h1 conf s in
        res_bind (replace_members_keys e (group_keys s') True ms) (\<lambda>ms.
        res_bind (replace_keys e (group_keys s') True info) (\<lambda>info.
          Inr (conf, s'\<lparr> gk_needs_dump := True \<rparr>, info, ms))))"
    using rekey_unfold [OF assms(1-4)] by metis
  let ?s = "rekeyed gen h1 (rekey_message e cv sk bs gen h1) s"
  have "keys_inv ?s" "pending_ok ?s"
    using assms(5) h1(1) next_generation_range [OF assms(4)] by (simp_all add: rekeyed_def keys_inv_def pending_ok_def)
  note len = group_keys_length [OF this]
  obtain b where b: "replace_keys e (group_keys ?s) True (mbs_base ms) = Inr b"
    using replace_keys_edited [OF len assms(8,9)] by blast
  obtain i where i: "replace_keys e (group_keys ?s) True info = Inr i"
    using replace_keys_edited [OF len assms(6,7)] by blast
  show ?thesis using h1 b i by (simp add: Let_def replace_members_keys_def) (simp add: rekeyed_def)
qed

text \<open>Reading it back.\<close>

lemma rekey_dict_ok:
  assumes "in_i64 gen"
  shows "bt_ok (BtDict (rekey_dict e cv sk bs gen h1 @ [(''~'', BtStr sig)]))"
  using assms by (auto simp: rekey_dict_def Let_def list_all_iff)

lemma rekey_decode:
  assumes "libraries_ok e cv" "in_i64 gen"
    and "conf = bt_encode (e_libs e) (BtDict (rekey_dict e cv sk bs gen h1 @ [(''~'', BtStr sig)]))"
  shows "bt_decode (e_libs e) conf = Some (BtDict (rekey_dict e cv sk bs gen h1 @ [(''~'', BtStr sig)]))"
    "bt_to_verify (e_libs e) conf = bt_to_sign (e_libs e) (rekey_dict e cv sk bs gen h1)"
proof -
  have "codec_ok (e_libs e)" using assms(1) by (simp add: libraries_ok_def)
  note * = this [unfolded codec_ok_def, rule_format, OF rekey_dict_ok [OF assms(2)], of e cv sk bs h1 sig]
  show "bt_decode (e_libs e) conf = Some (BtDict (rekey_dict e cv sk bs gen h1 @ [(''~'', BtStr sig)]))"
    using * assms(3) by simp
  show "bt_to_verify (e_libs e) conf = bt_to_sign (e_libs e) (rekey_dict e cv sk bs gen h1)"
    using * assms(3) by blast
qed

lemma res_map_items: "\<forall>v \<in> set l. \<exists>r. f v = Inr r \<Longrightarrow> \<exists>rs. res_map f l = Inr rs"
  by (induction l) auto

lemma member_key_items:
  assumes "libraries_ok e cv" "length h1 = 56"
    and "v \<in> BtStr ` set (sealed (e_crypto e) cv x domain nonce [take 32 h1] bs @ junk_keys e cv h1 sk n)"
  shows "\<exists>ct. v = BtStr ct \<and> length ct = 48 \<and> member_key_item skip v = Inr (if skip then None else Some ct)"
proof -
  obtain ct where v: "v = BtStr ct" "ct \<in> set (sealed (e_crypto e) cv x domain nonce [take 32 h1] bs @ junk_keys e cv h1 sk n)"
    using assms(3) by auto
  have "length ct = 48"
    using v(2) assms(1,2) junk_keys_fill(2) [of cv e h1 sk n]
    by (auto simp: sealed_def encrypt_multi_impl_def message_for_def libraries_ok_def crypto_ok_def)
  then show ?thesis using v(1) by (simp add: member_key_item_def consume_string_def)
qed

lemma rekey_list_length:
  assumes "libraries_ok e cv"
  shows "length (sealed c cv x domain nonce ms bs @ junk_keys e cv h1 sk (length bs)) mod MESSAGE_KEY_MULTIPLE = 0"
  using junk_keys_fill(1) [of cv "length bs" e h1 sk] assms by (simp add: sealed_def libraries_ok_def)

text \<open>
  A member reads the full message: the ciphertext at its own position gives the key.
\<close>

lemma load_full_member:
  assumes "libraries_ok e cv" "group_of e enc cv sk pk ms bs" "length h1 = 56" "in_i64 gen" "0 \<le> gen"
    and "clock_time ts = Inr ts" "\<not> gk_admin s" "i < length bs"
    and "\<forall>j < i. pair_key (e_crypto e) cv (sk_to_curve cv sk) enc_key_member_hash_key (bs ! j) \<noteq>
                pair_key (e_crypto e) cv (sk_to_curve cv sk) enc_key_member_hash_key (bs ! i)"
    and "aead_authentic (e_crypto e) (pair_key (e_crypto e) cv (sk_to_curve cv sk) enc_key_member_hash_key ` set bs)"
  shows "load_full e cv s ts (drop 32 h1) (bs ! i) (curve_base cv (bs ! i)) (curve_base cv (sk_to_curve cv sk))
      (tl (rekey_dict e cv sk bs gen h1 @ [(''~'', BtStr sig)])) = Inr ([Key_Info (take 32 h1) ts gen], None, [(''~'', BtStr sig)])"
proof -
  let ?c = "e_crypto e" and ?a = "sk_to_curve cv sk"
  let ?l = "sealed ?c cv ?a enc_key_member_hash_key (drop 32 h1) [take 32 h1] bs @ junk_keys e cv h1 sk (length bs)"
  have laws: "crypto_ok ?c" "curve_ok cv" using assms(1) by (auto simp: libraries_ok_def)
  have b: "length (bs ! i) = 32" "curve_mult cv ?a (curve_base cv (bs ! i)) \<noteq> None"
    using assms(2,8) nth_mem [OF assms(8)] by (auto simp: group_of_def)
  have items: "\<exists>ct. v = BtStr ct \<and> length ct = 48 \<and> member_key_item skip v = Inr (if skip then None else Some ct)"
    if "v \<in> BtStr ` set ?l" for v skip using member_key_items [OF assms(1,3) that] .
  have "member_key_item False (BtStr ct) = Inr (Some ct)" if "ct \<in> set (sealed ?c cv ?a enc_key_member_hash_key (drop 32 h1) [take 32 h1] bs)" for ct
    using items [of "BtStr ct" False] that by auto
  then obtain rest where rest: "decrypt_for_multiple_next ?c cv (member_key_item False) (map BtStr ?l) (drop 32 h1) (bs ! i)
      (curve_base cv (bs ! i)) (curve_base cv ?a) enc_key_member_hash_key = Inr (Some (take 32 h1), rest)"
    "set rest \<subseteq> BtStr ` set ?l"
    using decrypt_sealed [OF laws(1) assms(10) laws(2) _ assms(8) b assms(9), where wrap = BtStr and item = "member_key_item False" and
        nonce = "drop 32 h1" and messages = "[take 32 h1]" and junk = "junk_keys e cv h1 sk (length bs)"] assms(3)
    by (auto simp: message_for_def)
  have "\<exists>rs. res_map (member_key_item True) rest = Inr rs"
    using rest(2) items by (intro res_map_items) blast
  moreover have "length (aead_encrypt ?c (take 32 h1) n k) = 48" for n k
    using laws(1) assms(3) by (simp add: crypto_ok_def)
  moreover have "length (map BtStr ?l) mod MESSAGE_KEY_MULTIPLE = 0" using rekey_list_length [OF assms(1)] by simp
  ultimately show ?thesis
    using assms(3-7) rest(1)
    by (auto simp: load_full_def rekey_dict_def Let_def sys_time_from_ms_def consume_integer_def consume_string_def
        consume_list_def assertion_def)
qed

lemma decrypt_multi_skip:
  "\<forall>v \<in> set l. item v = Inr None \<Longrightarrow> decrypt_multi_loop c key nonce item l = Inr (None, [])"
  by (induction l) auto

text \<open>An admin opens the key with the hash of the group's seed; the member keys are only checked.\<close>

lemma load_full_admin:
  assumes "libraries_ok e cv" "length h1 = 56" "in_i64 gen" "0 \<le> gen" "clock_time ts = Inr ts"
    and "admin_obj e sk pk s" "length (fst uninit) = 32" "length (snd uninit) = 32"
    and "curve_mult cv (fst uninit) (curve_base cv x) \<noteq> None"
  shows "load_full e cv s ts (drop 32 h1) (fst uninit) (snd uninit) (curve_base cv x)
      (tl (rekey_dict e cv sk bs gen h1 @ [(''~'', BtStr sig)])) = Inr ([Key_Info (take 32 h1) ts gen], None, [(''~'', BtStr sig)])"
proof -
  let ?c = "e_crypto e" and ?a = "sk_to_curve cv sk"
  let ?l = "sealed ?c cv ?a enc_key_member_hash_key (drop 32 h1) [take 32 h1] bs @ junk_keys e cv h1 sk (length bs)"
  let ?k = "generichash ?c 32 (take 64 enc_key_admin_hash_key) (take 32 sk)"
  have laws: "crypto_ok ?c" "curve_ok cv" using assms(1) by (auto simp: libraries_ok_def)
  have adm: "gk_admin s" "gk_seed_hash e enc_key_admin_hash_key s = Inr ?k"
    using assms(6) by (auto simp: admin_obj_def gk_admin_def gk_seed_hash_def)
  have "length ?k = 32" "length (aead_encrypt ?c (take 32 h1) (drop 32 h1) ?k) = 48"
    "aead_decrypt ?c (aead_encrypt ?c (take 32 h1) (drop 32 h1) ?k) (drop 32 h1) ?k = Some (take 32 h1)"
    using laws(1) assms(2) by (auto simp: crypto_ok_def)
  moreover from this have "try_decrypting e (aead_encrypt ?c (take 32 h1) (drop 32 h1) ?k) (drop 32 h1) ?k = Inr (Some (take 32 h1))"
    using assms(2) by (simp add: try_decrypting_def assertion_def)
  moreover have "\<forall>v \<in> set (map BtStr ?l). member_key_item True v = Inr None"
    using member_key_items [OF assms(1,2), where skip = True] by fastforce
  moreover from this have "decrypt_for_multiple_next ?c cv (member_key_item True) (map BtStr ?l) (drop 32 h1) (fst uninit)
      (snd uninit) (curve_base cv x) enc_key_member_hash_key = Inr (None, [])"
    using assms(2,7-9) laws(2)
    by (auto simp: decrypt_for_multiple_next_def validate_multi_fields_def curve_ok_def encrypt_multi_key_def
        decrypt_multi_skip simp del: map_append)
  moreover have "length (map BtStr ?l) mod MESSAGE_KEY_MULTIPLE = 0" using rekey_list_length [OF assms(1)] by simp
  ultimately show ?thesis
    using assms(2-5) adm
    by (auto simp: load_full_def rekey_dict_def Let_def sys_time_from_ms_def consume_integer_def consume_string_def
        consume_list_def)
qed

text \<open>From the parsed message to the whole of \<open>load_key_message\<close>.\<close>

lemma load_rekey_message:
  assumes "libraries_ok e cv" "group_of e enc cv sk pk ms0 bs" "in_i64 gen"
    and "gk_sign_pk s = Some pk" "gk_verifier s = Some (e_verify e pk)"
    and "sig = e_sign e sk (bt_to_sign (e_libs e) (rekey_dict e cv sk bs gen h1))"
    and conf: "conf = rekey_message e cv sk bs gen h1"
    and "(if gk_admin s then Inr uninit else res_bind (compute_xpk cv (drop 32 (gk_user_sk s)))
            (\<lambda>xpk. Inr (sk_to_curve cv (gk_user_sk s), xpk))) = Inr (xsk, xpk)"
    and "load_full e cv s ts (drop 32 h1) xsk xpk (curve_base cv (sk_to_curve cv sk))
      (tl (rekey_dict e cv sk bs gen h1 @ [(''~'', BtStr sig)])) = Inr ([k], None, [(''~'', BtStr sig)])"
  shows "load_key_message e cv uninit hash conf ts s info ms = accept_keys e hash [k] None s info ms"
proof -
  have enc: "conf = bt_encode (e_libs e) (BtDict (rekey_dict e cv sk bs gen h1 @ [(''~'', BtStr sig)]))"
    using conf assms(6) by (simp add: rekey_message_def)
  let ?d = "rekey_dict e cv sk bs gen h1 @ [(''~'', BtStr sig)]"
  obtain rest where d: "?d = (''#'', BtStr (drop 32 h1)) # (''G'', BtInt gen) # rest"
    by (simp add: rekey_dict_def Let_def)
  have "compute_xpk cv pk = Inr (curve_base cv (sk_to_curve cv sk))"
    using assms(2) by (auto simp: group_of_def compute_xpk_def)
  moreover have "verify_config_sig (e_libs e) conf [(''~'', BtStr sig)] (Some (e_verify e pk)) None False = Inr (Some sig)"
    using assms(1,2,6) rekey_decode(2) [OF assms(1,3) enc]
    by (simp add: verify_config_sig_def skip_until_def libraries_ok_def sign_ok_def group_of_def)
  moreover have "skip_until ''+'' (tl ?d) = (''G'', BtInt gen) # rest" "find_field Config_error ''#'' ?d = Inr (BtStr (drop 32 h1), tl ?d)"
    by (simp_all add: d skip_until_def)
  moreover have "tl ?d = (''G'', BtInt gen) # rest" by (simp add: d)
  ultimately show ?thesis
    using rekey_decode(1) [OF assms(1,3) enc] assms(4,5,8,9)
    by (simp add: load_key_message_def consume_string_def del: append.simps)
qed

text \<open>
  C7: a new group key reaches the members: when a member loads the message an admin made with \<open>rekey\<close>, the load
  succeeds, the member's key list takes up exactly the admin's pending key under its generation, and
  the member's info and member configs can be decrypted with it.
\<close>

theorem rekey_reaches_members:
  assumes "libraries_ok e cv" "group_of e enc cv sk pk ms bs" "admin_obj e sk pk sa"
    and "rekey e enc cv sa info ms = Inr (conf, sa', info', ms')" "0 \<le> gk_pending_gen sa'"
    and "member_obj e pk sm" "keys_inv sm" "pending_ok sm" "i < length bs"
    and "sk_to_curve cv (gk_user_sk sm) = bs ! i" "pk_to_curve cv (drop 32 (gk_user_sk sm)) = Some (curve_base cv (bs ! i))"
    and "\<forall>j < i. pair_key (e_crypto e) cv (sk_to_curve cv sk) enc_key_member_hash_key (bs ! j) \<noteq>
                pair_key (e_crypto e) cv (sk_to_curve cv sk) enc_key_member_hash_key (bs ! i)"
    and "time_ok (Key_Info (gk_pending_key sa') ts (gk_pending_gen sa'))"
    and "aead_authentic (e_crypto e) (pair_key (e_crypto e) cv (sk_to_curve cv sk) enc_key_member_hash_key ` set bs)"
  shows "\<exists>sm' mi mm. load_key_message e cv uninit hash conf ts sm minfo mms = Inr (True, sm', mi, mm) \<and> keys_inv sm' \<and>
    set (gk_keys sm') = spec_insert (Key_Info (gk_pending_key sa') ts (gk_pending_gen sa')) (set (gk_keys sm)) \<and>
    set (cb_keys mi) = set (group_keys sm') \<and> set (cb_keys (mbs_base mm)) = set (group_keys sm')"
proof -
  obtain gen h1 where r: "length h1 = 56" "in_i64 gen" "conf = rekey_message e cv sk bs gen h1"
    and eq: "sa' = (rekeyed gen h1 conf sa)\<lparr> gk_needs_dump := True \<rparr>"
    using rekey_shape [OF assms(1-4)] next_generation_range by metis
  have sa': "gk_pending_key sa' = take 32 h1" "gk_pending_gen sa' = gen" by (simp_all add: eq rekeyed_def)
  have m: "\<not> gk_admin sm" "gk_sign_pk sm = Some pk" "gk_verifier sm = Some (e_verify e pk)"
    using assms(6) by (auto simp: member_obj_def gk_admin_def)
  have k: "key_ok (Key_Info (take 32 h1) ts gen)" using assms(13) r(1,2) by (simp add: sa' key_ok_def)
  then have t: "clock_time ts = Inr ts" by (simp add: clock_time_def key_ok_def time_ok_def)
  have "load_key_message e cv uninit hash conf ts sm minfo mms = accept_keys e hash [Key_Info (take 32 h1) ts gen] None sm minfo mms"
    using load_rekey_message [OF assms(1,2) r(2) m(2,3) refl r(3)]
      load_full_member [OF assms(1,2) r(1,2) _ t m(1) assms(9,12,14)] assms(5,10,11) m(1) sa'
    by (simp add: compute_xpk_def)
  then show ?thesis using accept_one_key [OF assms(7,8) k] sa' by metis
qed

text \<open>
  C25: a rekey is confirmed when the admin's own message comes back: it loads, the pending state ends, the
  key used for encryption is the same before and after, and now it is the newest of the key list.
\<close>

theorem admin_confirms_rekey:
  assumes "libraries_ok e cv" "group_of e enc cv sk pk ms bs" "admin_obj e sk pk s" "keys_inv s"
    and "rekey e enc cv s info ms = Inr (conf, s', info', ms')" "0 \<le> gk_pending_gen s'"
    and "length (fst uninit) = 32" "length (snd uninit) = 32"
    and "curve_mult cv (fst uninit) (curve_base cv (sk_to_curve cv sk)) \<noteq> None"
    and "time_ok (Key_Info (gk_pending_key s') ts (gk_pending_gen s'))"
  shows "\<exists>s'' i m. load_key_message e cv uninit hash conf ts s' info' ms' = Inr (True, s'', i, m) \<and> keys_inv s'' \<and>
    pending_config s' = Some conf \<and> pending_config s'' = None \<and> group_enc_key s'' = group_enc_key s' \<and>
    ki_key (last (gk_keys s'')) = gk_pending_key s'"
proof -
  obtain gen h1 where r: "length h1 = 56" "in_i64 gen" "next_generation s = Inr gen"
    "conf = rekey_message e cv sk bs gen h1"
    and eq: "s' = (rekeyed gen h1 conf s)\<lparr> gk_needs_dump := True \<rparr>"
    using rekey_shape [OF assms(1-3,5)] next_generation_range by metis
  note s' = eq [unfolded rekeyed_def]
  let ?k = "Key_Info (take 32 h1) ts gen"
  have conf: "conf \<noteq> []"
    using assms(1) rekey_dict_ok [OF r(2)] r(4) unfolding libraries_ok_def codec_ok_def rekey_message_def by (metis list.distinct(1))
  have inv: "keys_inv s'" "pending_ok s'" "admin_obj e sk pk s'"
    using assms(3,4) r(1,2) by (simp_all add: s' keys_inv_def pending_ok_def admin_obj_def)
  have m: "gk_admin s'" "gk_sign_pk s' = Some pk" "gk_verifier s' = Some (e_verify e pk)"
    using inv(3) by (auto simp: admin_obj_def gk_admin_def)
  have k: "key_ok ?k" using assms(10) r(1,2) by (simp add: s' key_ok_def)
  then have t: "clock_time ts = Inr ts" by (simp add: clock_time_def key_ok_def time_ok_def)
  have load: "load_key_message e cv uninit hash conf ts s' info' ms' = accept_keys e hash [?k] None s' info' ms'"
    using load_rekey_message [OF assms(1,2) r(2) m(2,3) refl r(4), of uninit "fst uninit" "snd uninit"]
      load_full_admin [OF assms(1) r(1,2) _ t inv(3) assms(7-9)] assms(6) m(1) s' by simp
  obtain s'' i' m' where a: "accept_keys e hash [?k] None s' info' ms' = Inr (True, s'', i', m')" "keys_inv s''"
    "set (gk_keys s'') = spec_insert ?k (set (gk_keys s'))" "gk_pending_key_config s'' = gk_pending_key_config (drop_pending [?k] s')"
    using accept_one_key [OF inv(1,2) k] by blast
  have pend: "gk_pending_key_config s'' = []" using a(4) m(1) conf by (simp add: drop_pending_def s')
  have newer: "\<forall>j \<in> set (gk_keys s'). ki_generation j < gen"
    using r(3) assms(4) ssorted_Min_Max(2) [of "gk_keys s"] key_less_generation Max_ge [of "set (gk_keys s)"]
    by (fastforce simp: s' next_generation_def keys_inv_def i64_arith_eq_Inr split: if_splits)
  have "spec_insert ?k (set (gk_keys s')) = retained (insert ?k (set (gk_keys s')))"
    using newer by (auto simp: spec_insert_def)
  moreover have "Max (insert ?k (set (gk_keys s'))) = ?k"
    using newer generation_less_key by (intro Max_eqI) (auto simp: less_imp_le)
  ultimately have "Max (set (gk_keys s'')) = ?k" "?k \<in> set (gk_keys s'')"
    using Max_retained [of "insert ?k (set (gk_keys s'))"] Max_in_retained [of "insert ?k (set (gk_keys s'))"] a(3) by simp_all
  moreover from this(2) have ne: "gk_keys s'' \<noteq> []" by auto
  ultimately have "last (gk_keys s'') = ?k" using a(2) ssorted_Min_Max(2) [of "gk_keys s''"] by (simp add: keys_inv_def)
  then show ?thesis
    using ne load a(1,2) pend conf by (simp add: pending_config_def group_enc_key_def s')
qed

section \<open>Group messages\<close>

text \<open>
  What group messages rely on: an encoded dict ends with \<open>e\<close>, zstd reads back what it wrote and never
  writes nothing.
\<close>

definition frames_ok :: "env \<Rightarrow> bool" where
  "frames_ok e \<longleftrightarrow> (\<forall>d. bt_ok (BtDict d) \<longrightarrow> (\<exists>p. bt_encode (e_libs e) (BtDict d) = p @ ''e'')) \<and>
     (\<forall>m. e_zstd_compress e m 1 [] \<noteq> [] \<and> e_zstd_decompress e (e_zstd_compress e m 1 []) = Some m)"

lemma try_decrypting_key:
  assumes "crypto_ok (e_crypto e)" "aead_authentic (e_crypto e) K" "k \<in> K" "key \<in> K" "length nonce = 24" "length k = 32" "length key = 32"
  shows "try_decrypting e (aead_encrypt (e_crypto e) m nonce key) nonce k = Inr (if k = key then Some m else None)"
  using assms by (auto simp: try_decrypting_def assertion_def crypto_ok_def aead_authentic_def)

lemma first_opening_finds:
  assumes "crypto_ok (e_crypto e)" "aead_authentic (e_crypto e) K" "set ks \<subseteq> K" "length nonce = 24" "\<forall>k \<in> set ks. length k = 32" "key \<in> set ks"
  shows "first_opening e (aead_encrypt (e_crypto e) m nonce key) nonce ks = Inr (Some m)"
  using assms(3,5,6)
proof (induction ks)
  case (Cons k ks)
  then have "length key = 32" "key \<in> K" "k \<in> K" "length k = 32" by auto
  then show ?case using Cons try_decrypting_key [OF assms(1,2), of k key nonce m] assms(4) by auto
qed simp

lemma strip_padding_nulls: "strip_nulls ((p @ ''e'') @ replicate n (CHR 0x00)) = p @ ''e''"
proof -
  have "dropWhile (\<lambda>c. c = CHR 0x00) (replicate n (CHR 0x00) @ CHR ''e'' # rev p) = CHR ''e'' # rev p"
    by (induction n) auto
  then show ?thesis by (simp add: strip_nulls_def)
qed

lemma message_pairs_ok: "bt_ok (BtDict (message_pairs pk z plain sig))"
  by (simp add: message_pairs_def in_i64_def)

text \<open>The sender's side: a nonce, and the padded dict under the group key.\<close>

lemma encrypt_message_shape:
  assumes "libraries_ok e cv" "frames_ok e" "length plain \<le> MAX_PLAINTEXT_MESSAGE_SIZE"
    and "gk_sign_pk s = Some pk" "group_enc_key s = Inr key"
  obtains z raw n p where "encrypt_message e rnd plain compress padding s =
      Inr (rnd @ aead_encrypt (e_crypto e) ((p @ ''e'') @ replicate n (CHR 0x00)) rnd key)"
    "p @ ''e'' = bt_encode (e_libs e) (BtDict (message_pairs (drop 32 (gk_user_sk s)) z raw (e_sign e (gk_user_sk s) (raw @ pk))))"
    "if z then raw = e_zstd_compress e plain 1 [] \<and> plain \<noteq> [] else raw = plain"
    "1 < padding \<longrightarrow> (ENCRYPT_OVERHEAD + length ((p @ ''e'') @ replicate n (CHR 0x00))) mod padding = 0"
proof -
  define z where "z = (compress \<and> length (e_zstd_compress e plain 1 []) < length plain)"
  define raw where "raw = (if z then e_zstd_compress e plain 1 [] else plain)"
  define enc where "enc = bt_encode (e_libs e) (BtDict (message_pairs (drop 32 (gk_user_sk s)) z raw (e_sign e (gk_user_sk s) (raw @ pk))))"
  obtain p where p: "enc = p @ ''e''" using assms(2) message_pairs_ok unfolding frames_ok_def enc_def by blast
  let ?len = "ENCRYPT_OVERHEAD + length enc"
  define n where "n = (if padding > 1 \<and> ?len mod padding \<noteq> 0 then padding - ?len mod padding else 0)"
  have eq: "encrypt_message e rnd plain compress padding s =
      Inr (rnd @ aead_encrypt (e_crypto e) (enc @ replicate n (CHR 0x00)) rnd key)"
    using assms(3-5) unfolding encrypt_message_def
    by (simp add: Let_def z_def [symmetric] raw_def [symmetric] enc_def [symmetric] n_def assertion_def)
  have "1 < padding \<longrightarrow> (ENCRYPT_OVERHEAD + length (enc @ replicate n (CHR 0x00))) mod padding = 0"
    using pad_to_multiple [of padding ?len] by (auto simp: n_def add.assoc)
  moreover have "if z then raw = e_zstd_compress e plain 1 [] \<and> plain \<noteq> [] else raw = plain" by (auto simp: raw_def z_def)
  ultimately show ?thesis using that eq unfolding p enc_def by (metis p enc_def)
qed

lemma open_message_dict:
  assumes "libraries_ok e cv" "keys_inv s" "pending_ok s" "key \<in> set (group_keys s)" "length rnd = 24"
    and "aead_authentic (e_crypto e) (set (group_keys s))"
    and "p @ ''e'' = bt_encode (e_libs e) (BtDict d)" "bt_ok (BtDict d)"
  shows "open_message e (rnd @ aead_encrypt (e_crypto e) ((p @ ''e'') @ replicate n (CHR 0x00)) rnd key) s = Inr d"
proof -
  have laws: "crypto_ok (e_crypto e)" "aead_authentic (e_crypto e) (set (group_keys s))"
    using assms(1,6) by (auto simp: libraries_ok_def)
  have cand: "set ((case pending_key s of Some k \<Rightarrow> [k] | None \<Rightarrow> []) @ map ki_key (gk_keys s)) = set (group_keys s)"
    by (auto simp: pending_key_def group_keys_def)
  have dec: "bt_decode (e_libs e) (p @ ''e'') = Some (BtDict d)" and front: "hd (p @ ''e'') = CHR ''d''"
    using assms(1,7,8) unfolding libraries_ok_def codec_ok_def by (metis, metis list.sel(1))
  have "first_opening e (aead_encrypt (e_crypto e) ((p @ ''e'') @ replicate n (CHR 0x00)) rnd key) rnd
      ((case pending_key s of Some k \<Rightarrow> [k] | None \<Rightarrow> []) @ map ki_key (gk_keys s)) = Inr (Some ((p @ ''e'') @ replicate n (CHR 0x00)))"
    using group_keys_length [OF assms(2,3)] assms(4) by (intro first_opening_finds [OF laws(1,2)] assms(5)) (simp_all only: cand)
  moreover have "\<not> length (rnd @ aead_encrypt (e_crypto e) ((p @ ''e'') @ replicate n (CHR 0x00)) rnd key) < ENCRYPT_OVERHEAD"
    using laws(1) assms(5) by (simp add: ENCRYPT_OVERHEAD_def crypto_ok_def)
  ultimately show ?thesis
    using assms(5) dec front strip_padding_nulls [of p n] unfolding open_message_def Let_def by simp
qed

text \<open>
  C26: what a group member encrypts with \<open>encrypt_message\<close>, every member that holds the key, pending or not,
  opens with \<open>decrypt_message\<close>: the sender's session id and the same text, compressed or not, padded or not; the
  size of a padded message is a multiple of the padding. The one exception is the empty message, which
  \<open>encrypt_message\<close> accepts and \<open>decrypt_message\<close> refuses.
\<close>

theorem group_message_round_trip:
  assumes "libraries_ok e cv" "frames_ok e" "length plain \<le> MAX_PLAINTEXT_MESSAGE_SIZE" "length rnd = 24"
    and "gk_sign_pk s = Some pk" "group_enc_key s = Inr key" "length (gk_user_sk s) = 64"
    and "e_sk_to_pk e (gk_user_sk s) = drop 32 (gk_user_sk s)" "pk_to_curve cv (drop 32 (gk_user_sk s)) = Some xpk"
    and "keys_inv r" "pending_ok r" "gk_sign_pk r = Some pk" "key \<in> set (group_keys r)"
    and "aead_authentic (e_crypto e) (set (group_keys r))"
  shows "\<exists>ct. encrypt_message e rnd plain compress padding s = Inr ct \<and>
    decrypt_message e enc cv ct r = (if plain = [] then Inl Runtime_error else Inr (''05'' @ to_hex enc xpk, plain)) \<and>
    (1 < padding \<longrightarrow> length ct mod padding = 0)"
proof -
  obtain z raw n p where ct: "encrypt_message e rnd plain compress padding s =
      Inr (rnd @ aead_encrypt (e_crypto e) ((p @ ''e'') @ replicate n (CHR 0x00)) rnd key)"
    and enc: "p @ ''e'' = bt_encode (e_libs e) (BtDict (message_pairs (drop 32 (gk_user_sk s)) z raw (e_sign e (gk_user_sk s) (raw @ pk))))"
    and raw: "if z then raw = e_zstd_compress e plain 1 [] \<and> plain \<noteq> [] else raw = plain"
    and pad: "1 < padding \<longrightarrow> (ENCRYPT_OVERHEAD + length ((p @ ''e'') @ replicate n (CHR 0x00))) mod padding = 0"
    using encrypt_message_shape [OF assms(1-3,5,6)] by metis
  let ?ct = "rnd @ aead_encrypt (e_crypto e) ((p @ ''e'') @ replicate n (CHR 0x00)) rnd key"
  have opened: "open_message e ?ct r = Inr (message_pairs (drop 32 (gk_user_sk s)) z raw (e_sign e (gk_user_sk s) (raw @ pk)))"
    by (rule open_message_dict [OF assms(1,10,11,13,4,14) enc message_pairs_ok])
  have sig: "length (e_sign e (gk_user_sk s) (raw @ pk)) = 64" "e_verify e (drop 32 (gk_user_sk s)) (raw @ pk) (e_sign e (gk_user_sk s) (raw @ pk))"
    using assms(1) assms(8) [symmetric] by (simp_all add: libraries_ok_def sign_ok_def)
  have zip: "raw \<noteq> [] \<and> e_zstd_decompress e raw = Some plain" if z using raw that assms(2) by (simp add: frames_ok_def)
  have "decrypt_message e enc cv ?ct r = (if plain = [] then Inl Runtime_error else Inr (''05'' @ to_hex enc xpk, plain))"
    unfolding decrypt_message_def opened using assms(3,7,9,12) sig zip raw
    by (cases z) (auto simp: message_pairs_def find_field_def skip_until_def consume_string_def consume_int32_def
        in_i32_def compute_xpk_def optional_data_def assertion_def Let_def)
  moreover have "length ?ct = ENCRYPT_OVERHEAD + length ((p @ ''e'') @ replicate n (CHR 0x00))"
    using assms(1,4) by (simp add: libraries_ok_def crypto_ok_def ENCRYPT_OVERHEAD_def)
  ultimately show ?thesis using ct pad by metis
qed

end
