(* ===== verification/Subaccounts.thy ===== *)
theory Subaccounts
  imports Group_Key_Transfer
begin

unbundle bit_operations_syntax

text \<open>
  XEd25519 signatures (\<open>src/src/xed25519.cpp\<close>) and the subaccounts by which group members authenticate to the
  swarm of a group (\<open>src/src/config/groups/keys.cpp\<close>): an admin signs a blinded public key \<open>kT\<close> of a member
  together with permission flags; the member proves that it owns \<open>kT\<close> by signing with \<open>kt\<close>. The scalar and
  point operations of libsodium are the fields of \<open>edwards\<close>, the field operations those of \<open>field25519\<close>.
\<close>

section \<open>Definitions\<close>

record edwards =
  ed_mult_noclamp :: "bytes \<Rightarrow> bytes \<Rightarrow> bytes option"
  ed_base_noclamp :: "bytes \<Rightarrow> bytes"
  ed_base_clamp :: "bytes \<Rightarrow> bytes"
  scalar_reduce :: "bytes \<Rightarrow> bytes"
  scalar_negate :: "bytes \<Rightarrow> bytes"
  scalar_mul :: "bytes \<Rightarrow> bytes \<Rightarrow> bytes"
  scalar_add :: "bytes \<Rightarrow> bytes \<Rightarrow> bytes"
  sha512 :: "bytes \<Rightarrow> bytes"
  blake2b_personal :: "string \<Rightarrow> bytes \<Rightarrow> bytes"

record field25519 =
  fe_frombytes :: "bytes \<Rightarrow> int"
  fe_tobytes :: "int \<Rightarrow> bytes"
  fe_one :: int
  fe_sub :: "int \<Rightarrow> int \<Rightarrow> int"
  fe_add :: "int \<Rightarrow> int \<Rightarrow> int"
  fe_mul :: "int \<Rightarrow> int \<Rightarrow> int"
  fe_invert :: "int \<Rightarrow> int"

text \<open>The sign bit of a point is the top bit of its last byte.\<close>

definition sign_bit :: "bytes \<Rightarrow> bool" where
  "sign_bit A \<longleftrightarrow> 128 \<le> (of_char (A ! 31) :: nat)"

definition clear_sign_bit :: "bytes \<Rightarrow> bytes" where
  "clear_sign_bit A = A[31 := char_of ((of_char (A ! 31) :: nat) mod 128)]"

definition byte_xor :: "char \<Rightarrow> char \<Rightarrow> char" where
  "byte_xor c d = char_of (of_char c XOR of_char d :: nat)"

definition byte_and :: "char \<Rightarrow> char \<Rightarrow> char" where
  "byte_and c d = char_of (of_char c AND of_char d :: nat)"

definition constant_time_conditional_assign :: "bytes \<Rightarrow> bytes \<Rightarrow> bool \<Rightarrow> bytes" where
  "constant_time_conditional_assign f g b =
     (let x = map2 byte_xor f g; mask = char_of (- of_bool b :: int); x = map (\<lambda>c. byte_and c mask) x in
      map2 byte_xor f x)"

subsection \<open>XEd25519\<close>

definition fe25519_montx_to_edy :: "field25519 \<Rightarrow> int \<Rightarrow> int" where
  "fe25519_montx_to_edy fe u =
     (let um1 = fe_sub fe u (fe_one fe); up1 = fe_add fe u (fe_one fe); up1 = fe_invert fe up1 in fe_mul fe um1 up1)"

definition xed_pubkey :: "field25519 \<Rightarrow> bytes \<Rightarrow> bytes" where
  "xed_pubkey fe curve25519_pubkey = fe_tobytes fe (fe25519_montx_to_edy fe (fe_frombytes fe curve25519_pubkey))"

definition xed25519_compute_r :: "edwards \<Rightarrow> bytes \<Rightarrow> bytes \<Rightarrow> bytes \<Rightarrow> bytes" where
  "xed25519_compute_r ed random a msg =
     scalar_reduce ed (blake2b_personal ed ''xed25519signatur'' (a @ msg @ random))"

definition ed25519_hram :: "edwards \<Rightarrow> bytes \<Rightarrow> bytes \<Rightarrow> bytes \<Rightarrow> bytes" where
  "ed25519_hram ed R A msg = scalar_reduce ed (sha512 ed (R @ A @ msg))"

definition xed_sign :: "env \<Rightarrow> edwards \<Rightarrow> bytes \<Rightarrow> bytes \<Rightarrow> bytes \<Rightarrow> bytes res" where
  "xed_sign e ed random curve25519_privkey msg =
     res_bind (assertion e (length curve25519_privkey = 32)) (\<lambda>_.
       let A = ed_base_clamp ed curve25519_privkey; negative = sign_bit A; A = clear_sign_bit A;
           neg_a = scalar_negate ed curve25519_privkey;
           a = constant_time_conditional_assign curve25519_privkey neg_a negative;
           r = xed25519_compute_r ed random a msg;
           R = ed_base_noclamp ed r;
           S = ed25519_hram ed R A msg;
           S = scalar_mul ed S a;
           S = scalar_add ed S r in
       Inr (R @ S))"

definition xed_verify :: "env \<Rightarrow> field25519 \<Rightarrow> bytes \<Rightarrow> bytes \<Rightarrow> bytes \<Rightarrow> bool res" where
  "xed_verify e fe signature curve25519_pubkey msg =
     res_bind (assertion e (length signature = 64)) (\<lambda>_.
     res_bind (assertion e (length curve25519_pubkey = 32)) (\<lambda>_.
       Inr (e_verify e (xed_pubkey fe curve25519_pubkey) msg signature)))"

subsection \<open>Subaccounts\<close>

definition subaccount_blind_factor :: "env \<Rightarrow> edwards \<Rightarrow> bytes \<Rightarrow> group_keys_obj \<Rightarrow> bytes res" where
  "subaccount_blind_factor e ed session_xpk s =
     res_bind (gk_seed_hash e ''SessionGroupSubaccountMask'' s) (\<lambda>mask.
       case gk_sign_pk s of
         None \<Rightarrow> Inl Undefined_behaviour
       | Some pk \<Rightarrow>
           Inr (scalar_reduce ed (generichash (e_crypto e) 64 mask (CHR 0x05 # session_xpk @ CHR 0x03 # pk))))"

definition SUBACC_FLAG_READ :: nat where "SUBACC_FLAG_READ = 1"
definition SUBACC_FLAG_WRITE :: nat where "SUBACC_FLAG_WRITE = 2"
definition SUBACC_FLAG_DEL :: nat where "SUBACC_FLAG_DEL = 4"
definition SUBACC_FLAG_ANY_PREFIX :: nat where "SUBACC_FLAG_ANY_PREFIX = 8"

definition subacc_flags :: "bool \<Rightarrow> bool \<Rightarrow> nat" where
  "subacc_flags write del =
     SUBACC_FLAG_READ OR (if write then SUBACC_FLAG_WRITE else 0) OR (if del then SUBACC_FLAG_DEL else 0)"

definition has_flag :: "char \<Rightarrow> nat \<Rightarrow> bool" where
  "has_flag c flag \<longleftrightarrow> of_char c AND flag \<noteq> 0"

definition subacc_prefix :: "bool \<Rightarrow> bool \<Rightarrow> bytes" where
  "subacc_prefix write del = [CHR 0x03, char_of (subacc_flags write del), CHR 0x00, CHR 0x00]"

text \<open>The member's blinding factor \<open>k\<close> and blinded key \<open>kT\<close>, as an admin computes them from a session id.\<close>

definition blinded_member ::
  "env \<Rightarrow> encodings \<Rightarrow> edwards \<Rightarrow> field25519 \<Rightarrow> string \<Rightarrow> group_keys_obj \<Rightarrow> (bytes \<times> bytes) res" where
  "blinded_member e enc ed fe sid s =
     res_bind (session_id_pk enc sid ''05'') (\<lambda>X.
     res_bind (subaccount_blind_factor e ed X s) (\<lambda>k.
       case ed_mult_noclamp ed k (xed_pubkey fe X) of
         None \<Rightarrow> Inl Runtime_error
       | Some kT \<Rightarrow> Inr (k, kT)))"

definition swarm_make_subaccount ::
  "env \<Rightarrow> encodings \<Rightarrow> edwards \<Rightarrow> field25519 \<Rightarrow> string \<Rightarrow> bool \<Rightarrow> bool \<Rightarrow> group_keys_obj \<Rightarrow> bytes res" where
  "swarm_make_subaccount e enc ed fe sid write del s =
     (case gk_sign_sk s of
        Some c \<Rightarrow>
          if gk_sign_pk s = None then Inl Logic_error
          else res_bind (blinded_member e enc ed fe sid s) (\<lambda>(k, kT).
            let to_sign = subacc_prefix write del @ kT in
            Inr (subacc_prefix write del @ k @ e_sign e c to_sign))
      | None \<Rightarrow> Inl Logic_error)"

definition swarm_subaccount_token ::
  "env \<Rightarrow> encodings \<Rightarrow> edwards \<Rightarrow> field25519 \<Rightarrow> string \<Rightarrow> bool \<Rightarrow> bool \<Rightarrow> group_keys_obj \<Rightarrow> bytes res" where
  "swarm_subaccount_token e enc ed fe sid write del s =
     (if \<not> gk_admin s then Inl Logic_error
      else res_bind (blinded_member e enc ed fe sid s) (\<lambda>(k, kT). Inr (subacc_prefix write del @ kT)))"

record swarm_auth =
  subaccount :: string
  subaccount_sig :: string
  signature :: string

definition swarm_subaccount_sign ::
  "env \<Rightarrow> (bytes \<Rightarrow> string) \<Rightarrow> curve \<Rightarrow> edwards \<Rightarrow> bytes \<Rightarrow> bytes \<Rightarrow> bool \<Rightarrow> group_keys_obj \<Rightarrow> swarm_auth res" where
  "swarm_subaccount_sign e to_base64 cv ed msg sign_val binary s =
     (if length sign_val \<noteq> 100 then Inl Logic_error
      else if gk_sign_pk s = None then Inl Logic_error
      else
        let k = take 32 (drop 4 sign_val); pk = e_sk_to_pk e (gk_user_sk s); neg = sign_bit pk; T = clear_sign_bit pk in
        case ed_mult_noclamp ed k T of
          None \<Rightarrow> Inl Runtime_error
        | Some kT \<Rightarrow>
            let token = take 4 sign_val @ kT;
                sub_sig = drop 36 sign_val;
                sc = sk_to_curve cv (gk_user_sk s);
                t = constant_time_conditional_assign sc (scalar_negate ed sc) neg;
                kt = scalar_mul ed k t;
                hseed = generichash (e_crypto e) 32 ''SubaccountSeed'' (take 32 (gk_user_sk s));
                r = scalar_reduce ed (generichash (e_crypto e) 64 ''SubaccountSig'' (hseed @ kT @ msg));
                R = ed_base_noclamp ed r;
                S = scalar_reduce ed (sha512 ed (R @ kT @ msg));
                S = scalar_mul ed S kt;
                S = scalar_add ed S r;
                sig = R @ S in
            Inr (if binary then \<lparr> subaccount = token, subaccount_sig = sub_sig, signature = sig \<rparr>
                 else \<lparr> subaccount = to_base64 token, subaccount_sig = to_base64 sub_sig, signature = to_base64 sig \<rparr>))"

definition swarm_verify_subaccount ::
  "env \<Rightarrow> encodings \<Rightarrow> edwards \<Rightarrow> string \<Rightarrow> bytes \<Rightarrow> bytes \<Rightarrow> bool \<Rightarrow> bool \<Rightarrow> bool res" where
  "swarm_verify_subaccount e enc ed gid user_ed_sk sign_val write del =
     res_bind (session_id_pk enc gid ''03'') (\<lambda>group_pk.
       if length sign_val \<noteq> 100 then Inr False
       else
         let prefix = take 4 sign_val; flags = prefix ! 1 in
         if prefix ! 0 \<noteq> CHR 0x03 \<and> \<not> has_flag flags SUBACC_FLAG_ANY_PREFIX then Inr False
         else if \<not> has_flag flags SUBACC_FLAG_READ then Inr False
         else if write \<and> \<not> has_flag flags SUBACC_FLAG_WRITE then Inr False
         else if del \<and> \<not> has_flag flags SUBACC_FLAG_DEL then Inr False
         else
           let k = take 32 (drop 4 sign_val); sig = drop 36 sign_val; T = clear_sign_bit (e_sk_to_pk e user_ed_sk) in
           case ed_mult_noclamp ed k T of
             None \<Rightarrow> Inl Runtime_error
           | Some kT \<Rightarrow> Inr (e_verify e group_pk (take 4 sign_val @ kT) sig))"

definition gk_verify_subaccount ::
  "env \<Rightarrow> encodings \<Rightarrow> edwards \<Rightarrow> bytes \<Rightarrow> bool \<Rightarrow> bool \<Rightarrow> group_keys_obj \<Rightarrow> bool res" where
  "gk_verify_subaccount e enc ed sign_val write del s =
     (case gk_sign_pk s of
        None \<Rightarrow> Inr False
      | Some pk \<Rightarrow> swarm_verify_subaccount e enc ed (''03'' @ to_hex enc pk) (gk_user_sk s) sign_val write del)"

section \<open>Constant-time selection\<close>

lemma of_char_byte: "take_bit 8 (of_char c :: nat) = of_char c"
  by (simp add: take_bit_eq_mod)

lemma byte_and_mask: "byte_and c (char_of (- of_bool b :: int)) = (if b then c else CHR 0x00)"
proof -
  have "of_char c AND 255 = (of_char c :: nat)"
    using of_char_byte [of c] by (simp add: take_bit_eq_mask mask_numeral)
  moreover have "(char_of (- 1 :: int)) = CHR 0xFF" "char_of (0 :: int) = CHR 0x00"
    "char_of (0 :: nat) = CHR 0x00" by code_simp+
  ultimately show ?thesis by (simp add: byte_and_def)
qed

lemma byte_xor_cancel: "byte_xor c (byte_xor c d) = d" "byte_xor c (CHR 0x00) = c"
proof -
  have "take_bit 8 (of_char c XOR of_char d :: nat) = of_char c XOR of_char d"
    by (simp only: take_bit_xor of_char_byte)
  then have "of_char (byte_xor c d) = (of_char c XOR of_char d :: nat)"
    by (simp add: byte_xor_def take_bit_eq_mod)
  then have "of_char c XOR of_char (byte_xor c d) = (of_char d :: nat)" by (simp flip: xor.assoc)
  then show "byte_xor c (byte_xor c d) = d" by (simp add: byte_xor_def [of c "byte_xor c d"])
qed (simp add: byte_xor_def)

text \<open>The masked exclusive or computes the conditional assignment.\<close>

lemma conditional_assign:
  "length f = length g \<Longrightarrow> constant_time_conditional_assign f g b = (if b then g else f)"
  by (auto simp: constant_time_conditional_assign_def Let_def byte_and_mask byte_xor_cancel intro!: nth_equalityI)

section \<open>Signatures verify\<close>

text \<open>
  What the code relies on of the curve. \<open>sc\<close> are the usable scalars (32 bytes, not zero modulo the group
  order): they are closed under negation and product; public keys are 32 bytes; a signature \<open>R, r + ha\<close>
  made with the scalar \<open>a\<close> verifies under the point of \<open>a\<close>; negating a scalar changes only the sign bit of
  its point; multiplying a point is multiplying its scalar. The hashes that are reduced to scalars are usable.
\<close>

definition edwards_ok :: "env \<Rightarrow> edwards \<Rightarrow> (bytes \<Rightarrow> bool) \<Rightarrow> bool" where
  "edwards_ok e ed sc \<longleftrightarrow>
     (\<forall>a r m. sc a \<longrightarrow> sc r \<longrightarrow> e_verify e (ed_base_noclamp ed a) m (ed_base_noclamp ed r @
        scalar_add ed (scalar_mul ed (scalar_reduce ed (sha512 ed (ed_base_noclamp ed r @ ed_base_noclamp ed a @ m))) a) r)) \<and>
     (\<forall>a. sc a \<longrightarrow> length a = 32 \<and> length (ed_base_noclamp ed a) = 32 \<and> sc (scalar_negate ed a)) \<and>
     (\<forall>a b. length (scalar_add ed a b) = 32) \<and>
     (\<forall>a. sc a \<longrightarrow> sign_bit (ed_base_noclamp ed a) \<longrightarrow>
        ed_base_noclamp ed (scalar_negate ed a) = clear_sign_bit (ed_base_noclamp ed a)) \<and>
     (\<forall>k a. sc k \<longrightarrow> sc a \<longrightarrow> sc (scalar_mul ed k a) \<and>
        ed_mult_noclamp ed k (ed_base_noclamp ed a) = Some (ed_base_noclamp ed (scalar_mul ed k a))) \<and>
     (\<forall>p m. sc (scalar_reduce ed (blake2b_personal ed p m))) \<and>
     (\<forall>k m. sc (scalar_reduce ed (generichash (e_crypto e) 64 k m)))"

lemma clear_sign_bit_id: "\<not> sign_bit A \<Longrightarrow> length A = 32 \<Longrightarrow> clear_sign_bit A = A"
  by (simp add: sign_bit_def clear_sign_bit_def)

text \<open>The scalar of a point with its sign bit cleared.\<close>

lemma positive_scalar:
  assumes "edwards_ok e ed sc" "sc a" "A = ed_base_noclamp ed a"
    and "t = constant_time_conditional_assign a (scalar_negate ed a) (sign_bit A)"
  shows "clear_sign_bit A = ed_base_noclamp ed t" "sc t"
proof -
  have "length (scalar_negate ed a) = length a" using assms(1,2) by (auto simp: edwards_ok_def)
  then show "clear_sign_bit A = ed_base_noclamp ed t" "sc t"
    using assms clear_sign_bit_id [of A] by (auto simp: edwards_ok_def conditional_assign)
qed

text \<open>
  An XEd25519 signature made with an X25519 private key verifies under the X25519 public key, whatever
  the sign of the corresponding Ed25519 key is.
\<close>

theorem xed_sign_verifies:
  assumes "edwards_ok e ed sc" "sc x" "length X = 32"
    and "ed_base_clamp ed x = ed_base_noclamp ed x" "xed_pubkey fe X = clear_sign_bit (ed_base_noclamp ed x)"
  shows "\<exists>sig. xed_sign e ed random x msg = Inr sig \<and> length sig = 64 \<and> xed_verify e fe sig X msg = Inr True"
proof -
  define a where "a = constant_time_conditional_assign x (scalar_negate ed x) (sign_bit (ed_base_noclamp ed x))"
  define r where "r = xed25519_compute_r ed random a msg"
  have A: "clear_sign_bit (ed_base_noclamp ed x) = ed_base_noclamp ed a" "sc a"
    using positive_scalar [OF assms(1,2) refl a_def] by simp_all
  have r: "sc r" using assms(1) by (simp add: r_def xed25519_compute_r_def edwards_ok_def)
  let ?sig = "ed_base_noclamp ed r @ scalar_add ed (scalar_mul ed (ed25519_hram ed (ed_base_noclamp ed r) (ed_base_noclamp ed a) msg) a) r"
  have "length x = 32" using assms(1,2) by (simp add: edwards_ok_def)
  then have "xed_sign e ed random x msg = Inr ?sig"
    using assms(4) A by (simp add: xed_sign_def assertion_def Let_def a_def [symmetric] r_def [symmetric])
  moreover have "length ?sig = 64" using assms(1) r by (simp add: edwards_ok_def)
  moreover have "e_verify e (ed_base_noclamp ed a) msg ?sig"
    using assms(1) A(2) r by (simp add: edwards_ok_def ed25519_hram_def)
  ultimately show ?thesis using assms(3,5) A by (simp add: xed_verify_def assertion_def)
qed

section \<open>Subaccounts are accepted\<close>

lemma flag_bits:
  "has_flag (char_of (subacc_flags w d)) SUBACC_FLAG_READ" "has_flag (char_of (subacc_flags w d)) SUBACC_FLAG_WRITE \<longleftrightarrow> w"
  "has_flag (char_of (subacc_flags w d)) SUBACC_FLAG_DEL \<longleftrightarrow> d"
  by (auto simp: has_flag_def subacc_flags_def SUBACC_FLAG_READ_def SUBACC_FLAG_WRITE_def SUBACC_FLAG_DEL_def)

text \<open>
  C28: a subaccount works, and only with the permissions it was made with: the value an admin makes for a member
  is accepted by the member's check exactly for the permissions granted; the token the member computes
  from it is the one the admin can revoke; the admin's signature in it covers that token; and the member's
  signature of a request verifies under the blinded key in the token.
\<close>

theorem subaccount_accepted:
  assumes "edwards_ok e ed sc" "sc (sk_to_curve cv (gk_user_sk m))" "sign_ok e" "gk_sign_sk s = Some c" "gk_sign_pk s = Some pk" "pk = e_sk_to_pk e c"
    and "session_id_pk enc sid ''05'' = Inr X" "session_id_pk enc (''03'' @ to_hex enc pk) ''03'' = Inr pk"
    and "xed_pubkey fe X = clear_sign_bit (e_sk_to_pk e (gk_user_sk m))"
    and "e_sk_to_pk e (gk_user_sk m) = ed_base_noclamp ed (sk_to_curve cv (gk_user_sk m))" "gk_sign_pk m = Some pk"
  shows "\<exists>val token sig kT. swarm_make_subaccount e enc ed fe sid w d s = Inr val \<and> length val = 100 \<and>
    gk_verify_subaccount e enc ed val w' d' m = Inr ((w' \<longrightarrow> w) \<and> (d' \<longrightarrow> d)) \<and>
    swarm_subaccount_token e enc ed fe sid w d s = Inr token \<and> token = subacc_prefix w d @ kT \<and>
    swarm_subaccount_sign e b64 cv ed msg val True m =
      Inr \<lparr> subaccount = token, subaccount_sig = drop 36 val, signature = sig \<rparr> \<and>
    e_verify e pk token (drop 36 val) \<and> e_verify e kT msg sig"
proof -
  define t where "t = constant_time_conditional_assign (sk_to_curve cv (gk_user_sk m))
    (scalar_negate ed (sk_to_curve cv (gk_user_sk m))) (sign_bit (e_sk_to_pk e (gk_user_sk m)))"
  have T: "clear_sign_bit (e_sk_to_pk e (gk_user_sk m)) = ed_base_noclamp ed t" "sc t"
    using positive_scalar [OF assms(1,2) assms(10) t_def] by simp_all
  obtain k where k: "subaccount_blind_factor e ed X s = Inr k" "sc k" "length k = 32"
    using assms(1,4,5) by (simp add: subaccount_blind_factor_def gk_seed_hash_def edwards_ok_def)
  define kt where "kt = scalar_mul ed k t"
  define kT where "kT = ed_base_noclamp ed kt"
  have kT: "ed_mult_noclamp ed k (ed_base_noclamp ed t) = Some kT" "sc kt"
    using assms(1) T(2) k(2) by (simp_all add: edwards_ok_def kT_def kt_def)
  define asig where "asig = e_sign e c (subacc_prefix w d @ kT)"
  have asig: "length asig = 64" "e_verify e pk (subacc_prefix w d @ kT) asig"
    using assms(3,6) by (simp_all add: asig_def sign_ok_def)
  let ?val = "subacc_prefix w d @ k @ asig"
  have blinded: "blinded_member e enc ed fe sid s = Inr (k, kT)"
    using assms(7,9) k(1) T(1) kT(1) by (simp add: blinded_member_def)
  have make: "swarm_make_subaccount e enc ed fe sid w d s = Inr ?val"
    "swarm_subaccount_token e enc ed fe sid w d s = Inr (subacc_prefix w d @ kT)"
    using assms(4,5) blinded by (simp_all add: swarm_make_subaccount_def swarm_subaccount_token_def gk_admin_def asig_def)
  have len: "length (subacc_prefix w d) = 4" by (simp add: subacc_prefix_def)
  have val: "length ?val = 100" "take 4 ?val = subacc_prefix w d" "take 32 (drop 4 ?val) = k" "drop 36 ?val = asig"
    using k(3) asig(1) len by simp_all
  have verify: "gk_verify_subaccount e enc ed ?val w' d' m = Inr ((w' \<longrightarrow> w) \<and> (d' \<longrightarrow> d))"
    using assms(8,11) T(1) kT(1) asig(2) flag_bits val
    by (auto simp: gk_verify_subaccount_def swarm_verify_subaccount_def Let_def subacc_prefix_def)
  define r where "r = scalar_reduce ed (generichash (e_crypto e) 64 ''SubaccountSig''
    (generichash (e_crypto e) 32 ''SubaccountSeed'' (take 32 (gk_user_sk m)) @ kT @ msg))"
  define sig where "sig = ed_base_noclamp ed r @
    scalar_add ed (scalar_mul ed (scalar_reduce ed (sha512 ed (ed_base_noclamp ed r @ kT @ msg))) kt) r"
  have "e_verify e kT msg sig"
    using assms(1) kT(2) by (simp add: sig_def kT_def edwards_ok_def r_def)
  moreover have "swarm_subaccount_sign e b64 cv ed msg ?val True m =
      Inr \<lparr> subaccount = subacc_prefix w d @ kT, subaccount_sig = drop 36 ?val, signature = sig \<rparr>"
    using assms(11) T(1) kT(1) val unfolding swarm_subaccount_sign_def
    by (simp add: Let_def t_def [symmetric] kt_def [symmetric] r_def [symmetric] sig_def [symmetric])
  ultimately show ?thesis using make val(1) verify asig(2) val(4) by metis
qed

end
