(* ===== verification/Key_Witnesses.thy ===== *)
theory Key_Witnesses
  imports Ref_Env Subaccounts
begin

text \<open>
  Concrete inputs for the theorems on multi-recipient encryption and on group keys: a cipher whose tag is the
  first half of its key, and a curve whose shared secret is the bytewise sum of the two keys.
\<close>

section \<open>Libraries\<close>

definition pad32 :: "bytes \<Rightarrow> bytes" where "pad32 b = take 32 (b @ replicate 32 (CHR 0x00))"

definition key_tag :: "bytes \<Rightarrow> bytes" where "key_tag k = take 16 (k @ replicate 16 (CHR 0x00))"

definition tag_crypto :: crypto where
  "tag_crypto =
     \<lparr> generichash = (\<lambda>n k d. take n (d @ replicate n (CHR 0x00))),
       aead_encrypt = (\<lambda>m n k. m @ key_tag k),
       aead_decrypt = (\<lambda>c n k. if drop (length c - 16) c = key_tag k then Some (take (length c - 16) c) else None) \<rparr>"

definition sum_bytes :: "bytes \<Rightarrow> bytes \<Rightarrow> bytes" where
  "sum_bytes a b = map2 (\<lambda>x y. char_of ((of_char x :: nat) + of_char y)) (pad32 a) (pad32 b)"

definition ref_curve :: curve where
  "ref_curve = \<lparr> curve_mult = (\<lambda>a b. Some (sum_bytes a b)), curve_base = pad32, sk_to_curve = take 32,
     pk_to_curve = Some, seed_keypair = (\<lambda>s. (s, s @ s)), det_random = (\<lambda>n seed. replicate n (CHR ''J'')) \<rparr>"

lemma length_key_tag [simp]: "length (key_tag k) = 16"
  by (simp add: key_tag_def)

lemma tag_crypto_ok: "crypto_ok tag_crypto"
  by (auto simp: crypto_ok_def tag_crypto_def)

lemma tag_crypto_authentic: "inj_on key_tag K \<Longrightarrow> aead_authentic tag_crypto K"
  by (auto simp: aead_authentic_def tag_crypto_def inj_on_def)

lemma length_pad32 [simp]: "length (pad32 b) = 32"
  by (simp add: pad32_def)

lemma pad32_id: "length b = 32 \<Longrightarrow> pad32 b = b"
  by (simp add: pad32_def)

lemma pad32_pad32 [simp]: "pad32 (pad32 b) = pad32 b"
  by (rule pad32_id) simp

lemma sum_bytes_commute: "sum_bytes a b = sum_bytes b a"
  by (rule nth_equalityI) (simp_all add: sum_bytes_def add.commute)

lemma ref_curve_ok: "curve_ok ref_curve"
  by (simp add: curve_ok_def ref_curve_def sum_bytes_def) (simp add: sum_bytes_def [symmetric] sum_bytes_commute)

section \<open>Several recipients\<close>

definition alice :: bytes where "alice = replicate 32 (CHR ''A'')"
definition bob :: bytes where "bob = replicate 32 (CHR ''B'')"
definition carol :: bytes where "carol = replicate 32 (CHR ''C'')"

lemma person_keys [simp]: "length alice = 32" "length bob = 32" "length carol = 32"
  by (simp_all add: alice_def bob_def carol_def)

lemma pair_key_tag: "key_tag (pair_key tag_crypto ref_curve (replicate 32 x) d (replicate 32 y)) =
    replicate 16 (char_of ((of_char x :: nat) + of_char y))"
proof -
  have "sum_bytes (replicate 32 x) (pad32 (replicate 32 y)) = replicate 32 (char_of ((of_char x :: nat) + of_char y))"
    unfolding sum_bytes_def pad32_pad32 pad32_id [OF length_replicate] by (rule nth_equalityI) auto
  then show ?thesis by (simp add: pair_key_def tag_crypto_def ref_curve_def key_tag_def)
qed

lemma pair_key_tags:
  "key_tag (pair_key tag_crypto ref_curve alice d bob) \<noteq> key_tag (pair_key tag_crypto ref_curve alice d carol)"
  unfolding alice_def bob_def carol_def pair_key_tag by simp

lemma pair_keys_separate:
  "aead_authentic tag_crypto (pair_key tag_crypto ref_curve alice d ` set [bob, carol])"
  "pair_key tag_crypto ref_curve alice d bob \<noteq> pair_key tag_crypto ref_curve alice d carol"
  using pair_key_tags [of d] by (auto intro!: tag_crypto_authentic simp: inj_on_def)

theorem recipients_read_their_message_witness:
  "\<exists>enc. encrypt_for_multiple_simple (ref_libs ref_hash) tag_crypto ref_curve (\<lambda>i n. replicate n (CHR ''R'')) [''hi bob'', ''hi carol'']
      (map (curve_base ref_curve) [bob, carol]) alice (curve_base ref_curve alice) ''test'' (Some (replicate 24 (CHR ''N''))) 5 = Inr enc \<and>
    decrypt_for_multiple_simple (ref_libs ref_hash) tag_crypto ref_curve enc carol (curve_base ref_curve carol)
      (curve_base ref_curve alice) ''test'' = Some ''hi carol''"
  using recipients_read_their_message [OF tag_crypto_ok pair_keys_separate(1) ref_curve_ok codec_ok_ref [of ref_hash],
      where i = 1 and nonce = "replicate 24 (CHR ''N'')" and messages = "[''hi bob'', ''hi carol'']" and domain = "''test''" and
        rnd = "\<lambda>i n. replicate n (CHR ''R'')" and pad = 5] pair_keys_separate(2) [of "''test''"]
  by (simp add: ref_curve_def)

theorem simple_defaults_diverge_witness:
  "(\<exists>err. encrypt_for_multiple_simple_ed (ref_libs ref_hash) tag_crypto ref_curve (\<lambda>i n. replicate n (CHR ''R'')) [''hi''] [bob]
      (alice @ alice) ''test'' [] 0 = Inl err) \<and>
   list_all (\<lambda>j. length j + encrypt_multiple_message_overhead =
      length (hd (sealed tag_crypto ref_curve alice ''test'' (replicate 24 (CHR ''N'')) [''hi''] [bob])))
     (junk_loop (\<lambda>i n. replicate n (CHR ''R'')) 1 (length ''hi'') 2 (length [bob]))"
  using simple_defaults_diverge [of "ref_libs ref_hash" tag_crypto ref_curve "\<lambda>i n. replicate n (CHR ''R'')" "[''hi'']" "[bob]"
      "alice @ alice" "''test''" 0 "[bob]" 2 "''hi''" alice "replicate 24 (CHR ''N'')"] tag_crypto_ok by (simp add: list_all_iff)

section \<open>The key list\<close>

definition demo_key :: "char \<Rightarrow> int \<Rightarrow> int \<Rightarrow> key_info" where
  "demo_key c ts gen = Key_Info (replicate 32 c) ts gen"

lemma demo_key_ok: "0 \<le> ts \<Longrightarrow> ts < 10 ^ 12 \<Longrightarrow> 0 \<le> gen \<Longrightarrow> gen < 10 ^ 9 \<Longrightarrow> key_ok (demo_key c ts gen)"
  by (simp add: demo_key_def key_ok_def time_ok_def in_i64_def KEY_EXPIRY_def)

lemma fresh_keys_inv: "keys_inv (fresh_keys sk)" "pending_ok (fresh_keys sk)"
  by (simp_all add: keys_inv_def fresh_keys_def retained_def pending_ok_def)

theorem insert_keys_refine_witness:
  "\<exists>s'. res_fold (\<lambda>(h, k). insert_key h k) [(''h1'', demo_key (CHR ''x'') 5 1), (''h2'', demo_key (CHR ''y'') 4 0)]
      (fresh_keys (alice @ bob)) = Inr s' \<and> keys_inv s' \<and>
    set (gk_keys s') = fold (\<lambda>(h, k). spec_insert k) [(''h1'', demo_key (CHR ''x'') 5 1), (''h2'', demo_key (CHR ''y'') 4 0)] {}"
  using insert_keys_refine [OF fresh_keys_inv(1), of "[(''h1'', demo_key (CHR ''x'') 5 1), (''h2'', demo_key (CHR ''y'') 4 0)]" "alice @ bob"]
  by (simp add: demo_key_ok) (simp add: fresh_keys_def)

text \<open>Two generations, and a third one that arrives more than sixty days later.\<close>

definition demo_keys :: group_keys_obj where
  "demo_keys = (fresh_keys (alice @ bob))\<lparr> gk_keys := [demo_key (CHR ''x'') 0 0, demo_key (CHR ''y'') 1 1],
     gk_active_msgs := [(0, [''h0'']), (1, [''h1''])] \<rparr>"

definition late_key :: key_info where "late_key = demo_key (CHR ''z'') 6000000000 2"

lemma demo_keys_inv: "keys_inv demo_keys" "pending_ok demo_keys"
proof -
  let ?K = "{demo_key (CHR ''x'') 0 0, demo_key (CHR ''y'') 1 1}"
  have less: "demo_key (CHR ''x'') 0 0 < demo_key (CHR ''y'') 1 1"
    by (simp add: demo_key_def less_key_info_def cmpval_def)
  have "\<not> outdated ?K (demo_key (CHR ''x'') 0 0)"
  proof
    assume "outdated ?K (demo_key (CHR ''x'') 0 0)"
    from outdated_superseded [OF _ _ this] show False by (auto simp: demo_key_def KEY_EXPIRY_def Max_insert max_def less_key_info_def less_eq_key_info_def cmpval_def)
  qed
  moreover have "\<not> outdated ?K (demo_key (CHR ''y'') 1 1)" by (simp add: outdated_def demo_key_def)
  ultimately have "retained ?K = ?K" unfolding retained_def by auto
  then show "keys_inv demo_keys"
    using less by (simp add: keys_inv_def demo_keys_def fresh_keys_def demo_key_ok in_i64_def) (simp add: demo_key_def)
  show "pending_ok demo_keys" by (simp add: pending_ok_def demo_keys_def fresh_keys_def)
qed

lemma late_key_inserted:
  "\<exists>s'. insert_key ''h2'' late_key demo_keys = Inr s' \<and> gk_keys s' = [demo_key (CHR ''y'') 1 1, late_key]"
  by (simp add: insert_key_def demo_keys_def late_key_def demo_key_def fresh_keys_def less_key_info_def cmpval_def
      Let_def remove_expired_def lapsed_loop.simps expired_by_def clock_time_def KEY_EXPIRY_def i64_arith_def in_i64_def)

theorem keys_dump_round_trip_witness:
  "\<exists>s'. keys_load_dump (ref_libs ref_hash) (fst (keys_dump (ref_libs ref_hash) demo_keys)) (fresh_keys (alice @ bob)) = Inr s' \<and>
     gk_keys s' = gk_keys demo_keys \<and> gk_active_msgs s' = [(0, [''h0'']), (1, [''h1''])]"
  using keys_dump_round_trip [OF codec_ok_ref [of ref_hash] demo_keys_inv, of "fresh_keys (alice @ bob)"]
  by (simp add: fresh_keys_def demo_keys_def)

section \<open>A group\<close>

definition key_env :: env where
  "key_env = ref_env\<lparr> e_crypto := tag_crypto, e_zstd_compress := (\<lambda>d l p. p @ CHR ''z'' # d),
     e_zstd_decompress := (\<lambda>d. Some (tl d)) \<rparr>"

lemma key_env_simps [simp]:
  "e_crypto key_env = tag_crypto" "e_libs key_env = ref_libs ref_hash" "e_sk_to_pk key_env = drop 32"
  "e_sign key_env = (\<lambda>sk m. replicate 64 (CHR ''S''))" "e_verify key_env = (\<lambda>pk m sig. sig = replicate 64 (CHR ''S''))"
  "e_zstd_compress key_env d l p = p @ CHR ''z'' # d" "e_zstd_decompress key_env d = Some (tl d)"
  by (simp_all add: key_env_def ref_env_def)

lemma ref_curve_simps [simp]:
  "curve_mult ref_curve a b = Some (sum_bytes a b)" "curve_base ref_curve = pad32" "sk_to_curve ref_curve = take 32"
  "pk_to_curve ref_curve = Some"
  by (simp_all add: ref_curve_def)

lemma key_libraries_ok: "libraries_ok key_env ref_curve"
  using tag_crypto_ok ref_curve_ok codec_ok_ref
  by (simp add: libraries_ok_def sign_ok_def det_random_ok_def) (simp add: ref_curve_def)

lemma key_frames_ok: "frames_ok key_env"
  by (simp add: frames_ok_def ref_libs_def)

text \<open>The group of Alice, whose members are Bob and Carol.\<close>

definition group_sk :: bytes where "group_sk = alice @ alice"

definition member_dict :: dict where
  "member_dict = [(CHR 0x05 # bob, VDict []), (CHR 0x05 # carol, VDict [])]"

definition group_base :: config_base where
  "group_base = demo_base\<lparr> cb_config := demo_message\<lparr> cm_data := [(''m'', VDict member_dict)], cm_orig_data := Some [] \<rparr>, cb_state := Dirty \<rparr>"

definition group_members :: members where
  "group_members = \<lparr> mbs_base = group_base, pending_send_ids = [] \<rparr>"

lemma session_id_of_key:
  assumes "length b = 32"
  shows "check_session_id ref_encodings (to_hex ref_encodings (CHR 0x05 # b)) ''05'' = Inr ()"
    "session_id_pk ref_encodings (to_hex ref_encodings (CHR 0x05 # b)) ''05'' = Inr b"
proof -
  show c: "check_session_id ref_encodings (to_hex ref_encodings (CHR 0x05 # b)) ''05'' = Inr ()"
    using hex_session_id(1) [OF ref_hex_ok, of "CHR 0x05 # b"] assms by simp
  show "session_id_pk ref_encodings (to_hex ref_encodings (CHR 0x05 # b)) ''05'' = Inr b"
    by (simp add: session_id_pk_def c) (simp add: ref_encodings_def hex_byte_def hex_decode_encode)
qed

lemma members_of_group:
  "\<exists>mbs. members_all ref_encodings group_members = Inr mbs \<and>
     map mb_session_id mbs = [to_hex ref_encodings (CHR 0x05 # bob), to_hex ref_encodings (CHR 0x05 # carol)]"
proof -
  have "get_dict [] ''m'' group_base = Some member_dict"
    by (simp add: get_dict_def get_clean_def get_path_def group_base_def member_dict_def)
  then show ?thesis
    using session_id_of_key(1) [of bob] session_id_of_key(1) [of carol]
    by (simp add: members_all_def group_members_def member_dict_def new_member_def member_load_def Let_def)
qed

lemma demo_group_of: "group_of key_env ref_encodings ref_curve group_sk alice group_members [bob, carol]"
  using members_of_group session_id_of_key(2) [of bob] session_id_of_key(2) [of carol]
  by (auto simp: group_of_def group_sk_def pad32_id)

definition group_admin :: group_keys_obj where
  "group_admin = (fresh_keys (alice @ alice))\<lparr> gk_sign_sk := Some group_sk, gk_sign_pk := Some alice,
     gk_signer := Some (e_sign key_env group_sk), gk_verifier := Some (e_verify key_env alice) \<rparr>"

definition group_carol :: group_keys_obj where
  "group_carol = (fresh_keys (carol @ carol))\<lparr> gk_sign_pk := Some alice, gk_verifier := Some (e_verify key_env alice) \<rparr>"

lemma group_objs:
  "admin_obj key_env group_sk alice group_admin" "member_obj key_env alice group_carol" "next_generation group_admin = Inr 0"
  "keys_inv group_admin" "keys_inv group_carol" "pending_ok group_carol"
  by (simp_all add: admin_obj_def member_obj_def group_admin_def group_carol_def fresh_keys_def next_generation_def
      keys_inv_def retained_def pending_ok_def)

lemma demo_rekey:
  "\<exists>conf s' info' ms'. rekey key_env ref_encodings ref_curve group_admin group_base group_members = Inr (conf, s', info', ms') \<and>
     gk_pending_gen s' = 0 \<and> length (gk_pending_key s') = 32"
  by (rule rekey_succeeds [OF key_libraries_ok demo_group_of group_objs(1,3,4)])
    (simp_all add: group_base_def group_members_def)

lemma demo_time: "time_ok (Key_Info k 1700000000000 0)"
  by (simp add: time_ok_def in_i64_def KEY_EXPIRY_def)

theorem rekey_reaches_members_witness:
  "\<exists>conf s' info' ms' sm' mi mm. rekey key_env ref_encodings ref_curve group_admin group_base group_members = Inr (conf, s', info', ms') \<and>
     load_key_message key_env ref_curve ([], []) ''hash'' conf 1700000000000 group_carol demo_base group_members = Inr (True, sm', mi, mm) \<and>
     set (gk_keys sm') = spec_insert (Key_Info (gk_pending_key s') 1700000000000 (gk_pending_gen s')) {}"
proof -
  obtain conf s' info' ms' where r: "rekey key_env ref_encodings ref_curve group_admin group_base group_members = Inr (conf, s', info', ms')"
    "gk_pending_gen s' = 0" using demo_rekey by blast
  have "sk_to_curve ref_curve (gk_user_sk group_carol) = [bob, carol] ! 1"
    "pk_to_curve ref_curve (drop 32 (gk_user_sk group_carol)) = Some (curve_base ref_curve ([bob, carol] ! 1))" "gk_keys group_carol = []"
    by (simp_all add: group_carol_def fresh_keys_def pad32_id)
  moreover have "sk_to_curve ref_curve group_sk = alice" by (simp add: group_sk_def)
  ultimately show ?thesis
    using rekey_reaches_members [OF key_libraries_ok demo_group_of group_objs(1) r(1) _ group_objs(2,5,6), of 1 1700000000000 "([], [])" "''hash''" demo_base group_members]
      r demo_time pair_keys_separate [of enc_key_member_hash_key] by auto
qed

theorem admin_confirms_rekey_witness:
  "\<exists>conf s' info' ms' s'' i m. rekey key_env ref_encodings ref_curve group_admin group_base group_members = Inr (conf, s', info', ms') \<and>
     load_key_message key_env ref_curve (bob, bob) ''hash'' conf 1700000000000 s' info' ms' = Inr (True, s'', i, m) \<and>
     pending_config s' = Some conf \<and> pending_config s'' = None"
proof -
  obtain conf s' info' ms' where r: "rekey key_env ref_encodings ref_curve group_admin group_base group_members = Inr (conf, s', info', ms')"
    "gk_pending_gen s' = 0" using demo_rekey by blast
  show ?thesis
    using admin_confirms_rekey [OF key_libraries_ok demo_group_of group_objs(1,4) r(1), of "(bob, bob)" 1700000000000 "''hash''"] r demo_time
    by auto
qed

theorem group_message_round_trip_witness:
  "\<exists>ct. encrypt_message key_env (replicate 24 (CHR ''N'')) ''hello'' True 256 (demo_keys\<lparr> gk_sign_pk := Some alice \<rparr>) = Inr ct \<and>
     decrypt_message key_env ref_encodings ref_curve ct (demo_keys\<lparr> gk_sign_pk := Some alice \<rparr>) =
       Inr (''05'' @ to_hex ref_encodings bob, ''hello'') \<and> length ct mod 256 = 0"
proof -
  let ?s = "demo_keys\<lparr> gk_sign_pk := Some alice \<rparr>"
  have s: "keys_inv ?s" "pending_ok ?s" "gk_sign_pk ?s = Some alice" "gk_user_sk ?s = alice @ bob"
    "group_keys ?s = [replicate 32 (CHR ''y''), replicate 32 (CHR ''x'')]" "group_enc_key ?s = Inr (replicate 32 (CHR ''y''))"
    using demo_keys_inv by (simp_all add: keys_inv_def pending_ok_def group_keys_def group_enc_key_def)
      (simp_all add: demo_keys_def fresh_keys_def demo_key_def)
  have "aead_authentic tag_crypto (set (group_keys ?s))"
    unfolding s by (rule tag_crypto_authentic) (simp add: key_tag_def)
  then show ?thesis
    using group_message_round_trip [OF key_libraries_ok key_frames_ok, of "''hello''" "replicate 24 (CHR ''N'')" ?s alice
        "replicate 32 (CHR ''y'')" bob ?s True 256 ref_encodings] s
    by (simp add: MAX_PLAINTEXT_MESSAGE_SIZE_def)
qed

section \<open>Signatures and subaccounts\<close>

text \<open>A group in which every scalar is its own point and negation clears the sign bit.\<close>

definition ref_edwards :: edwards where
  "ref_edwards = \<lparr> ed_mult_noclamp = (\<lambda>k p. Some (sum_bytes k p)), ed_base_noclamp = pad32, ed_base_clamp = pad32,
     scalar_reduce = pad32, scalar_negate = (\<lambda>a. clear_sign_bit (pad32 a)), scalar_mul = sum_bytes, scalar_add = sum_bytes,
     sha512 = pad32, blake2b_personal = (\<lambda>p m. pad32 m) \<rparr>"

definition ref_field :: field25519 where
  "ref_field = \<lparr> fe_frombytes = (\<lambda>b. int (of_char (hd b))), fe_tobytes = (\<lambda>n. replicate 32 (char_of n)), fe_one = 1,
     fe_sub = (\<lambda>u v. u), fe_add = (\<lambda>u v. v), fe_mul = (*), fe_invert = (\<lambda>u. u) \<rparr>"

definition xed_env :: env where
  "xed_env = key_env\<lparr> e_verify := (\<lambda>pk m sig. length sig = 64) \<rparr>"

lemma length_clear_sign_bit [simp]: "length (clear_sign_bit A) = length A"
  by (simp add: clear_sign_bit_def)

lemma length_sum_bytes [simp]: "length (sum_bytes a b) = 32"
  by (simp add: sum_bytes_def)

lemma sum_bytes_pad32 [simp]: "sum_bytes a (pad32 b) = sum_bytes a b"
  by (simp add: sum_bytes_def)

lemma ref_edwards_ok: "edwards_ok xed_env ref_edwards (\<lambda>a. length a = 32)"
  by (simp add: edwards_ok_def ref_edwards_def xed_env_def pad32_id)

lemma xed_sign_ok: "sign_ok xed_env"
  by (simp add: sign_ok_def xed_env_def)

lemma ref_xed_pubkey: "xed_pubkey ref_field (replicate 32 c) = replicate 32 c"
  by (simp add: xed_pubkey_def ref_field_def fe25519_montx_to_edy_def)

definition negative_key :: bytes where "negative_key = replicate 31 (CHR ''A'') @ [CHR 0xC1]"

lemma clear_negative_key: "clear_sign_bit negative_key = replicate 32 (CHR ''A'')"
  by code_simp

lemma group_id_of_key: "session_id_pk ref_encodings (''03'' @ to_hex ref_encodings alice) ''03'' = Inr alice"
  by code_simp

lemma carol_positive: "clear_sign_bit carol = carol"
  by code_simp

theorem subaccount_accepted_witness:
  "\<exists>val token sig kT.
    swarm_make_subaccount xed_env ref_encodings ref_edwards ref_field (to_hex ref_encodings (CHR 0x05 # carol)) True False group_admin = Inr val \<and>
    length val = 100 \<and> gk_verify_subaccount xed_env ref_encodings ref_edwards val True True group_carol = Inr False \<and>
    swarm_subaccount_token xed_env ref_encodings ref_edwards ref_field (to_hex ref_encodings (CHR 0x05 # carol)) True False group_admin = Inr token \<and>
    token = subacc_prefix True False @ kT \<and>
    swarm_subaccount_sign xed_env (\<lambda>b. b) ref_curve ref_edwards ''msg'' val True group_carol =
      Inr \<lparr> subaccount = token, subaccount_sig = drop 36 val, signature = sig \<rparr> \<and>
    e_verify xed_env alice token (drop 36 val) \<and> e_verify xed_env kT ''msg'' sig"
proof -
  have "gk_user_sk group_carol = carol @ carol" "gk_sign_pk group_carol = Some alice" "gk_sign_sk group_admin = Some (alice @ alice)"
    "gk_sign_pk group_admin = Some alice" "e_sk_to_pk xed_env = drop 32"
    by (simp_all add: group_carol_def group_admin_def fresh_keys_def group_sk_def xed_env_def)
  moreover have "xed_pubkey ref_field carol = carol" by (simp add: carol_def ref_xed_pubkey)
  moreover have "ed_base_noclamp ref_edwards carol = carol" by (simp add: ref_edwards_def pad32_id)
  ultimately show ?thesis
    using subaccount_accepted [OF ref_edwards_ok _ xed_sign_ok, of ref_curve group_carol group_admin "alice @ alice" alice ref_encodings
        "to_hex ref_encodings (CHR 0x05 # carol)" carol ref_field True False True True "\<lambda>b. b" "''msg''"]
      session_id_of_key(2) [of carol] group_id_of_key carol_positive by simp
qed

end
