(* ===== verification/Network_Nodes.thy ===== *)
theory Network_Nodes
  imports Util Field_Proxy Bencode "HOL-Library.Word"
begin

unbundle bit_operations_syntax

text \<open>
  Service nodes of the network layer (\<open>src/src/session_network.cpp\<close>, first part): parsing nodes from JSON and
  from the cache file, the mapping of public keys to swarms, and the constants of the network. JSON values
  are those of nlohmann's library, whose parser and printer are arguments; so are the address and integer
  parsers of the QUIC library.
\<close>

section \<open>JSON values\<close>

text \<open>
  An object is sorted by key, as the library's \<open>std::map\<close> is; \<open>JReal\<close> carries the integral part of a floating
  point number.
\<close>

datatype json = JNull | JBool bool | JInt int | JReal int | JStr string | JArr "json list" | JObj "(string \<times> json) list"

record json_lib =
  json_parse :: "string \<Rightarrow> json option"
  json_dump :: "json \<Rightarrow> string option"

definition json_object :: "(string \<times> json) list \<Rightarrow> json" where
  "json_object kvs = JObj (fold (\<lambda>(k, v). smap_put k v) kvs [])"

definition json_contains :: "string \<Rightarrow> json \<Rightarrow> bool" where
  "json_contains k j = (case j of JObj m \<Rightarrow> map_of m k \<noteq> None | _ \<Rightarrow> False)"

text \<open>\<open>j[k]\<close> on a mutable value: a missing key gives null, another type than object or null throws.\<close>

definition json_at :: "string \<Rightarrow> json \<Rightarrow> json res" where
  "json_at k j =
     (case j of
        JObj m \<Rightarrow> Inr (case map_of m k of Some v \<Rightarrow> v | None \<Rightarrow> JNull)
      | JNull \<Rightarrow> Inr JNull
      | _ \<Rightarrow> Inl Json_error)"

definition json_string :: "json \<Rightarrow> string res" where
  "json_string j = (case j of JStr s \<Rightarrow> Inr s | _ \<Rightarrow> Inl Json_error)"

definition json_is_number :: "json \<Rightarrow> bool" where
  "json_is_number j = (case j of JInt i \<Rightarrow> True | JReal i \<Rightarrow> True | _ \<Rightarrow> False)"

text \<open>
  \<open>get<T>()\<close> for a two's complement integer type from \<open>lo\<close> (a power of two below zero, or zero) with \<open>w\<close> bits: integers
  wrap around, floating point numbers must be in range.
\<close>

definition wrap_int :: "int \<Rightarrow> nat \<Rightarrow> int \<Rightarrow> int" where
  "wrap_int lo w i = (i - lo) mod 2 ^ w + lo"

definition json_int :: "int \<Rightarrow> nat \<Rightarrow> json \<Rightarrow> int res" where
  "json_int lo w j =
     (case j of
        JInt i \<Rightarrow> Inr (wrap_int lo w i)
      | JReal i \<Rightarrow> if lo \<le> i \<and> i < lo + 2 ^ w then Inr i else Inl Undefined_behaviour
      | JBool b \<Rightarrow> if w = 64 then Inl Json_error else Inr (of_bool b)
      | _ \<Rightarrow> Inl Json_error)"

abbreviation "json_int16 \<equiv> json_int (- (2 ^ 15)) 16"
abbreviation "json_int32 \<equiv> json_int (- (2 ^ 31)) 32"
abbreviation "json_uint16 \<equiv> json_int 0 16"
abbreviation "json_uint64 \<equiv> json_int 0 64"

section \<open>Nodes\<close>

type_synonym swarm_id = "64 word"

definition INVALID_SWARM_ID :: swarm_id where "INVALID_SWARM_ID = - 1"

text \<open>
  A node with its address. \<open>q_address\<close> is the host text of the address a string denotes (\<open>None\<close>: the constructor
  throws), \<open>q_ipv4\<close> its IPv4 address, \<open>q_parse_int lo hi\<close> is \<open>parse_int\<close> for a type with this range: whether it
  succeeded and what it stored.
\<close>

record service_node =
  sn_key :: bytes
  sn_host :: string
  sn_port :: int
  sn_version :: "int list"
  sn_swarm_id :: swarm_id

record quic_lib =
  q_address :: "string \<Rightarrow> string option"
  q_ipv4 :: "string \<Rightarrow> 32 word"
  q_parse_int :: "int \<Rightarrow> int \<Rightarrow> string \<Rightarrow> bool \<times> int option"

definition make_node :: "quic_lib \<Rightarrow> bytes \<Rightarrow> int list \<Rightarrow> swarm_id \<Rightarrow> string \<Rightarrow> int \<Rightarrow> service_node res" where
  "make_node q key version swarm host port =
     (case q_address q host of
        None \<Rightarrow> Inl Invalid_argument
      | Some h \<Rightarrow> Inr \<lparr> sn_key = key, sn_host = h, sn_port = port, sn_version = version, sn_swarm_id = swarm \<rparr>)"

definition node_ip :: "quic_lib \<Rightarrow> service_node \<Rightarrow> 32 word" where
  "node_ip q n = q_ipv4 q (sn_host n)"

text \<open>\<open>std::to_string\<close>\<close>

definition show_int :: "int \<Rightarrow> string" where
  "show_int i = (if i < 0 then CHR ''-'' # digits (nat (- i)) else digits (nat i))"

definition node_string :: "service_node \<Rightarrow> string" where
  "node_string n = sn_host n @ '':'' @ show_int (sn_port n)"

definition trim_version :: "int list \<Rightarrow> int list" where
  "trim_version v = take 1 v @ rev (dropWhile (\<lambda>i. i = 0) (rev (drop 1 v)))"

definition parse_version :: "quic_lib \<Rightarrow> string \<Rightarrow> bool \<Rightarrow> int list res" where
  "parse_version q vers trim_trailing_zero =
     res_bind (res_map (\<lambda>piece. case q_parse_int q (- (2 ^ 31)) (2 ^ 31 - 1) piece of
         (True, Some i) \<Rightarrow> Inr i | (True, None) \<Rightarrow> Inr 0 | (False, _) \<Rightarrow> Inl Invalid_argument)
       (split vers ''.'' False)) (\<lambda>result.
       Inr (if trim_trailing_zero then trim_version result else result))"

definition node_from_json :: "quic_lib \<Rightarrow> encodings \<Rightarrow> json \<Rightarrow> service_node res" where
  "node_from_json q enc j =
     res_bind (res_bind (json_at ''pubkey_ed25519'' j) json_string) (\<lambda>pk_ed.
       if length pk_ed \<noteq> 64 \<or> \<not> is_hex enc pk_ed then Inl Invalid_argument
       else
         res_bind (if json_contains ''storage_server_version'' j then
                     res_bind (json_at ''storage_server_version'' j) (\<lambda>v.
                       case v of
                         JArr vs \<Rightarrow> if vs = [] then Inr [0]
                           else res_bind (res_map json_int32 vs) (\<lambda>is. parse_version q (join ''.'' (map show_int is)) True)
                       | _ \<Rightarrow> res_bind (json_string v) (\<lambda>s. parse_version q s True))
                   else Inr [0]) (\<lambda>version.
         res_bind (res_bind (json_at (if json_contains ''public_ip'' j then ''public_ip'' else ''ip'') j) json_string) (\<lambda>ip.
         if ip = ''0.0.0.0'' then Inl Runtime_error
         else
           res_bind (res_bind (json_at (if json_contains ''storage_lmq_port'' j then ''storage_lmq_port'' else ''port_omq'') j) json_uint16) (\<lambda>port.
           if port = 0 then Inl Runtime_error
           else
             res_bind (if json_contains ''swarm_id'' j then
                         res_bind (res_bind (json_at ''swarm_id'' j) json_uint64) (\<lambda>i. Inr (word_of_int i))
                       else Inr INVALID_SWARM_ID) (\<lambda>swarm.
               make_node q (from_hex enc pk_ed) version swarm ip port)))))"

definition node_from_disk :: "quic_lib \<Rightarrow> encodings \<Rightarrow> string \<Rightarrow> bool \<Rightarrow> service_node res" where
  "node_from_disk q enc str can_ignore_version =
     (case split str ''|'' False of
        [ip, port, version, key, swarm] \<Rightarrow>
          if length key \<noteq> 64 \<or> \<not> is_hex enc key then Inl Invalid_argument
          else (case q_parse_int q 0 (2 ^ 16 - 1) port of
              (True, Some p) \<Rightarrow>
                res_bind (parse_version q version True) (\<lambda>v.
                  if \<not> can_ignore_version \<and> v = [0] then Inl Invalid_argument
                  else
                    let swarm_id = (case snd (q_parse_int q 0 (2 ^ 64 - 1) swarm) of Some i \<Rightarrow> word_of_int i | None \<Rightarrow> INVALID_SWARM_ID) in
                    make_node q (from_hex enc key) v swarm_id ip p)
            | _ \<Rightarrow> Inl Invalid_argument)
      | _ \<Rightarrow> Inl Invalid_argument)"

definition node_to_disk :: "encodings \<Rightarrow> service_node \<Rightarrow> string" where
  "node_to_disk enc n =
     join ''|'' [sn_host n, show_int (sn_port n), join ''.'' (map show_int (sn_version n)),
       to_hex enc (sn_key n), show_int (uint (sn_swarm_id n))]"

text \<open>Nodes of a response that cannot be parsed are skipped.\<close>

definition process_get_service_nodes_response :: "quic_lib \<Rightarrow> encodings \<Rightarrow> json \<Rightarrow> service_node list res" where
  "process_get_service_nodes_response q enc j =
     res_bind (guard (json_contains ''result'' j) Runtime_error) (\<lambda>_.
     res_bind (json_at ''result'' j) (\<lambda>r.
     res_bind (guard (case r of JObj m \<Rightarrow> True | _ \<Rightarrow> False) Runtime_error) (\<lambda>_.
     res_bind (guard (json_contains ''service_node_states'' r) Runtime_error) (\<lambda>_.
     res_bind (json_at ''service_node_states'' r) (\<lambda>states.
       case states of
         JArr js \<Rightarrow> Inr (concat (map (\<lambda>snode. case node_from_json q enc snode of Inr n \<Rightarrow> [n] | Inl e \<Rightarrow> []) js))
       | _ \<Rightarrow> Inl Runtime_error)))))"

section \<open>Swarms\<close>

definition load_native :: "bytes \<Rightarrow> 64 word" where
  "load_native bs = horner_sum of_char 256 bs"

definition big_to_host :: "64 word \<Rightarrow> 64 word" where
  "big_to_host w = horner_sum id 256 (rev (map (\<lambda>i. take_bit 8 (drop_bit (8 * i) w)) [0..<8]))"

definition pubkey_to_swarm_space :: "bytes \<Rightarrow> swarm_id" where
  "pubkey_to_swarm_space pk =
     big_to_host (fold (\<lambda>i res. res XOR load_native (take 8 (drop (i * 8) pk))) [0..<4] 0)"

type_synonym swarm = "swarm_id \<times> service_node list"

definition generate_swarms :: "service_node list \<Rightarrow> swarm list" where
  "generate_swarms nodes =
     fold (\<lambda>n m. smap_put (sn_swarm_id n) ((case map_of m (sn_swarm_id n) of Some ns \<Rightarrow> ns | None \<Rightarrow> []) @ [n]) m) nodes []"

text \<open>
  The swarm of a key among at least two swarms: the closest one on the ring of 64-bit numbers. \<open>right\<close> and
  \<open>left\<close> are positions.
\<close>

definition closest_swarm :: "swarm list \<Rightarrow> swarm_id \<Rightarrow> swarm" where
  "closest_swarm all_swarms swarm_id =
     (let bound = length (takeWhile (\<lambda>s. fst s < swarm_id) all_swarms);
          right = (if bound = length all_swarms then 0 else bound);
          left = (if right = 0 then length all_swarms else right) - 1;
          dright = fst (all_swarms ! right) - swarm_id;
          dleft = swarm_id - fst (all_swarms ! left) in
      all_swarms ! (if dright < dleft then right else left))"

section \<open>Constants and small rules\<close>

datatype path_type = Standard | Upload | Download

datatype path_selection = Random_path | New_or_least_busy

definition min_snode_cache_count :: nat where "min_snode_cache_count = 12"
definition num_snodes_to_refresh_cache_from :: nat where "num_snodes_to_refresh_cache_from = 3"
definition path_size :: nat where "path_size = 3"
definition path_failure_threshold :: nat where "path_failure_threshold = 3"
definition snode_failure_threshold :: nat where "snode_failure_threshold = 3"

definition min_path_count :: "path_type \<Rightarrow> bool \<Rightarrow> nat" where
  "min_path_count t single_path_mode = (if single_path_mode then 1 else 2)"

definition path_selection_behaviour :: "path_type \<Rightarrow> path_selection" where
  "path_selection_behaviour t = (case t of Standard \<Rightarrow> Random_path | Upload \<Rightarrow> New_or_least_busy | Download \<Rightarrow> New_or_least_busy)"

text \<open>The power is computed as a \<open>double\<close>; its conversion to a 64-bit integer must be in range.\<close>

definition retry_delay :: "nat \<Rightarrow> int res" where
  "retry_delay num_failures =
     (let delay = 100 * 2 ^ num_failures :: int in
      if in_i64 delay then Inr (min 5000 delay) else Inl Undefined_behaviour)"

text \<open>The subtraction is on \<open>size_t\<close>.\<close>

definition min_snode_cache_size :: "nat option \<Rightarrow> nat" where
  "min_snode_cache_size seed_node_cache_size =
     (case seed_node_cache_size of
        None \<Rightarrow> min_snode_cache_count
      | Some n \<Rightarrow> min (max path_size (unat (of_nat n - of_nat path_size :: 64 word))) min_snode_cache_count)"

section \<open>The closest swarm\<close>

lemma generate_swarms_sorted: "ssorted (map fst (generate_swarms nodes))"
proof -
  have "smap_ok (fold (\<lambda>n m. smap_put (sn_swarm_id n) ((case map_of m (sn_swarm_id n) of Some ns \<Rightarrow> ns | None \<Rightarrow> []) @ [n]) m) ns m)"
    if "smap_ok m" for ns and m :: "swarm list"
    using that by (induction ns arbitrary: m) auto
  from this [of "[]" nodes] show ?thesis by (simp add: generate_swarms_def)
qed

lemma generate_swarms_snoc:
  "generate_swarms (nodes @ [n]) =
     smap_put (sn_swarm_id n) ((case map_of (generate_swarms nodes) (sn_swarm_id n) of Some ns \<Rightarrow> ns | None \<Rightarrow> []) @ [n])
       (generate_swarms nodes)"
  by (simp add: generate_swarms_def)

lemma map_of_generate_swarms:
  "map_of (generate_swarms nodes) i =
     (if \<exists>n \<in> set nodes. sn_swarm_id n = i then Some (filter (\<lambda>n. sn_swarm_id n = i) nodes) else None)"
proof (induction nodes rule: rev_induct)
  case (snoc n nodes)
  then show ?case
    by (auto simp: generate_swarms_snoc map_of_smap_put [OF generate_swarms_sorted] filter_empty_conv)
qed (simp add: generate_swarms_def)

definition ring_distance :: "swarm_id \<Rightarrow> swarm_id \<Rightarrow> swarm_id" where
  "ring_distance a b = min (a - b) (b - a)"

text \<open>Among sorted positions, the first one from \<open>x\<close> on is the next one clockwise, its predecessor the next one the other way.\<close>

lemma next_clockwise:
  fixes x y z :: "64 word"
  shows "x \<le> y \<Longrightarrow> y \<le> z \<Longrightarrow> y - x \<le> z - x" "x \<le> y \<Longrightarrow> z < x \<Longrightarrow> y - x \<le> z - x"
    "y \<le> z \<Longrightarrow> z < x \<Longrightarrow> y - x \<le> z - x"
  by (auto simp: word_le_def word_less_def uint_sub_if') (use uint_lt2p [of y, simplified] uint_ge_0 [of z] in linarith)

lemma next_counterclockwise:
  fixes x y z :: "64 word"
  shows "y < x \<Longrightarrow> z \<le> y \<Longrightarrow> x - y \<le> x - z" "y < x \<Longrightarrow> x < z \<Longrightarrow> x - y \<le> x - z"
    "x < z \<Longrightarrow> z \<le> y \<Longrightarrow> x - y \<le> x - z"
  by (auto simp: word_le_def word_less_def uint_sub_if') (use uint_lt2p [of z, simplified] uint_ge_0 [of y] in linarith)

lemma sorted_takeWhile_less:
  assumes "sorted (map fst xs)" "i < length xs"
  shows "i < length (takeWhile (\<lambda>s. fst s < x) xs) \<longleftrightarrow> fst (xs ! i) < x"
  using assms
proof (induction xs arbitrary: i)
  case (Cons a xs)
  have "fst a < x" if "fst ((a # xs) ! i) < x"
    using Cons.prems that by (cases i) (auto simp: dest: le_less_trans)
  then show ?case using Cons by (cases i) auto
qed simp

lemma closest_is_minimal:
  fixes right left x s :: "64 word"
  assumes "right - x \<le> s - x" "s \<noteq> x \<Longrightarrow> x - left \<le> x - s"
  shows "ring_distance (if right - x < x - left then right else left) x \<le> ring_distance s x"
proof (cases "s = x")
  case True
  then have "right - x = 0" using assms(1) by simp
  then show ?thesis using True by (auto simp: ring_distance_def word_gt_0)
next
  case False
  then show ?thesis using assms by (auto simp: ring_distance_def min_def)
qed

lemma swarm_neighbours:
  fixes all :: "swarm list" and x :: swarm_id
  assumes "sorted (map fst all)" "all \<noteq> []"
  defines "bound \<equiv> length (takeWhile (\<lambda>s. fst s < x) all)"
  defines "right \<equiv> if bound = length all then 0 else bound"
  defines "left \<equiv> (if right = 0 then length all else right) - 1"
  shows "right < length all \<and> left < length all" "i < length all \<Longrightarrow> fst (all ! right) - x \<le> fst (all ! i) - x"
    "i < length all \<Longrightarrow> fst (all ! i) \<noteq> x \<Longrightarrow> x - fst (all ! left) \<le> x - fst (all ! i)"
proof -
  have bound: "bound \<le> length all" unfolding bound_def by (rule length_takeWhile_le)
  note split = sorted_takeWhile_less [OF assms(1), of _ x, folded bound_def]
  have mono: "fst (all ! i) \<le> fst (all ! j)" if "i \<le> j" "j < length all" for i j
    using sorted_nth_mono [OF assms(1), of i j] that by simp
  show range: "right < length all \<and> left < length all" using bound assms(2) by (auto simp: right_def left_def)
  show "fst (all ! right) - x \<le> fst (all ! i) - x" if i: "i < length all"
  proof (cases "bound = length all")
    case True
    then show ?thesis using split [OF i] mono [of 0 i] i by (intro next_clockwise(3)) (auto simp: right_def)
  next
    case False
    then have r: "right = bound" "x \<le> fst (all ! right)" using split [of bound] bound by (auto simp: right_def)
    show ?thesis
    proof (cases "i < bound")
      case True
      then show ?thesis using split [OF i] r(2) by (intro next_clockwise(2)) auto
    next
      case False
      then show ?thesis using r mono [of bound i] i by (intro next_clockwise(1)) auto
    qed
  qed
  show "x - fst (all ! left) \<le> x - fst (all ! i)" if i: "i < length all" "fst (all ! i) \<noteq> x"
  proof (cases "right = 0")
    case True
    then have l: "left = length all - 1" by (simp add: left_def)
    show ?thesis
    proof (cases "bound = length all")
      case True
      then have "fst (all ! left) < x" using split [of left] range l by auto
      moreover have "fst (all ! i) \<le> fst (all ! left)" using i(1) l by (intro mono) auto
      ultimately show ?thesis by (rule next_counterclockwise(1))
    next
      case False
      then have "bound = 0" using True by (simp add: right_def)
      then have "x < fst (all ! i)" using split [OF i(1)] i(2) by (metis not_less0 linorder_cases)
      moreover have "fst (all ! i) \<le> fst (all ! left)" using i(1) l by (intro mono) auto
      ultimately show ?thesis by (rule next_counterclockwise(3))
    qed
  next
    case False
    then have l: "right = bound" "left = bound - 1" "0 < bound" by (auto simp: right_def left_def split: if_splits)
    then have less: "fst (all ! left) < x" using split [of left] range by auto
    show ?thesis
    proof (cases "i < bound")
      case True
      then have "fst (all ! i) \<le> fst (all ! left)" using l range by (intro mono) auto
      with less show ?thesis by (rule next_counterclockwise(1))
    next
      case False
      have "x < fst (all ! i)" using False split [OF i(1)] i(2) by (metis linorder_cases)
      with less show ?thesis by (rule next_counterclockwise(2))
    qed
  qed
qed

text \<open>
  C20: the swarm found for an account is the right one: among the swarms in ascending order, which is how
  \<open>generate_swarms\<close> lists them, it has the smallest distance to the account's position on the ring of
  64-bit numbers, in either direction, and it holds exactly the nodes with its id.
\<close>

theorem closest_swarm_is_closest:
  fixes pk :: bytes
  assumes "s \<in> set (generate_swarms nodes)"
  shows "let found = closest_swarm (generate_swarms nodes) (pubkey_to_swarm_space pk) in
    found \<in> set (generate_swarms nodes) \<and> snd found = filter (\<lambda>n. sn_swarm_id n = fst found) nodes \<and>
    ring_distance (fst found) (pubkey_to_swarm_space pk) \<le> ring_distance (fst s) (pubkey_to_swarm_space pk)"
proof -
  define found where "found = closest_swarm (generate_swarms nodes) (pubkey_to_swarm_space pk)"
  have ne: "generate_swarms nodes \<noteq> []" using assms(1) by auto
  have srt: "sorted (map fst (generate_swarms nodes))"
    using generate_swarms_sorted by (rule strict_sorted_imp_sorted)
  obtain i where i: "i < length (generate_swarms nodes)" "s = generate_swarms nodes ! i"
    using assms(1) by (metis in_set_conv_nth)
  note near = swarm_neighbours [OF srt ne, where x = "pubkey_to_swarm_space pk"]
  have "found \<in> set (generate_swarms nodes)"
    using near(1) unfolding found_def closest_swarm_def Let_def by (auto intro: nth_mem)
  moreover from this have "snd found = filter (\<lambda>n. sn_swarm_id n = fst found) nodes"
    using map_of_generate_swarms [of nodes "fst found"] map_of_Some_smap [OF generate_swarms_sorted, of nodes "fst found" "snd found"]
    by (auto split: if_splits)
  moreover have "ring_distance (fst found) (pubkey_to_swarm_space pk) \<le> ring_distance (fst s) (pubkey_to_swarm_space pk)"
    using closest_is_minimal [OF near(2) [OF i(1)] near(3) [OF i(1)]] i(2)
    unfolding found_def closest_swarm_def Let_def by (auto simp: if_distrib [of fst] if_distrib [of "(!) _"] cong: if_cong)
  ultimately show ?thesis by (simp add: found_def Let_def)
qed

section \<open>The node cache on disk\<close>

lemma find_sub_char: "find_sub [c] s = (if c \<in> set s then Some (length (takeWhile (\<lambda>d. d \<noteq> c) s)) else None)"
  by (induction s) (auto simp: prefix_def)

lemma split_loop_piece:
  assumes "c \<notin> set p"
  shows "split_loop [c] False (p @ c # rest) rs = split_loop [c] False rest (rs @ [p])"
proof -
  have "takeWhile (\<lambda>d. d \<noteq> c) p = p" using assms by (auto simp: takeWhile_eq_all_conv)
  then have "find_sub [c] (p @ c # rest) = Some (length p)" using assms by (simp add: find_sub_char takeWhile_append)
  then show ?thesis by (subst split_loop.simps) simp
qed

lemma split_loop_last: "c \<notin> set p \<Longrightarrow> split_loop [c] False p rs = (rs, p)"
  by (subst split_loop.simps) (simp add: find_sub_char)

lemma split_loop_pieces:
  "ps \<noteq> [] \<Longrightarrow> \<forall>p \<in> set ps. c \<notin> set p \<Longrightarrow> split_loop [c] False (join [c] ps) rs = (rs @ butlast ps, last ps)"
proof (induction ps arbitrary: rs rule: induct_list012)
  case (3 p p' ps)
  then show ?case by (simp add: split_loop_piece)
qed (simp_all add: split_loop_last)

text \<open>Pieces without the delimiter come back when their join is split.\<close>

lemma split_pieces: "ps \<noteq> [] \<Longrightarrow> \<forall>p \<in> set ps. c \<notin> set p \<Longrightarrow> split (join [c] ps) [c] False = ps"
  by (simp add: split_def split_loop_pieces)

lemma digits_chars: "set (digits n) \<subseteq> set ''0123456789''"
proof (induction n rule: digits.induct)
  case (1 n)
  have "list_all (\<lambda>d. char_of (48 + d) \<in> set ''0123456789'') [0..<10 :: nat]" by code_simp
  then have "char_of (48 + d) \<in> set ''0123456789''" if "d < 10" for d :: nat
    using that unfolding list_all_iff by simp
  then show ?case using 1 by (subst digits.simps) auto
qed

lemma show_int_subset: "(\<And>n. set (digits n) \<subseteq> D) \<Longrightarrow> set (show_int i) \<subseteq> insert (CHR ''-'') D"
  by (auto simp: show_int_def)

lemmas show_int_chars = show_int_subset [OF digits_chars]

lemma show_int_delims: "CHR ''.'' \<notin> set (show_int i)" "CHR ''|'' \<notin> set (show_int i)"
proof -
  have "CHR ''.'' \<notin> insert (CHR ''-'') (set ''0123456789'')" "CHR ''|'' \<notin> insert (CHR ''-'') (set ''0123456789'')" by code_simp+
  then show "CHR ''.'' \<notin> set (show_int i)" "CHR ''|'' \<notin> set (show_int i)" using show_int_chars [of i] by blast+
qed

lemma join_chars: "c \<in> set (join d ss) \<Longrightarrow> c \<in> set d \<or> (\<exists>s \<in> set ss. c \<in> set s)"
  by (induction ss rule: induct_list012) auto

text \<open>What the code relies on of \<open>parse_int\<close>: it reads the integers of its range as \<open>fmt\<close> prints them.\<close>

definition quic_ok :: "quic_lib \<Rightarrow> bool" where
  "quic_ok q \<longleftrightarrow> (\<forall>lo hi i. lo \<le> i \<and> i \<le> hi \<longrightarrow> q_parse_int q lo hi (show_int i) = (True, Some i))"

definition node_ok :: "quic_lib \<Rightarrow> service_node \<Rightarrow> bool" where
  "node_ok q n \<longleftrightarrow> length (sn_key n) = 32 \<and> 0 \<le> sn_port n \<and> sn_port n < 2 ^ 16 \<and> CHR ''|'' \<notin> set (sn_host n) \<and>
     q_address q (sn_host n) = Some (sn_host n) \<and> sn_version n \<noteq> [] \<and>
     (\<forall>i \<in> set (sn_version n). - (2 ^ 31) \<le> i \<and> i < 2 ^ 31)"

lemma parse_version_show:
  assumes "quic_ok q" "v \<noteq> []" "\<forall>i \<in> set v. - (2 ^ 31) \<le> i \<and> i < 2 ^ 31"
  shows "parse_version q (join ''.'' (map show_int v)) True = Inr (trim_version v)"
proof -
  have "split (join ''.'' (map show_int v)) ''.'' False = map show_int v"
    using assms(2) by (intro split_pieces) (auto simp: show_int_delims)
  moreover have "res_map (\<lambda>piece. case q_parse_int q (- (2 ^ 31)) (2 ^ 31 - 1) piece of
         (True, Some i) \<Rightarrow> Inr i | (True, None) \<Rightarrow> Inr 0 | (False, _) \<Rightarrow> Inl Invalid_argument) (map show_int v) = Inr v"
    using assms(1,3) by (induction v) (auto simp: quic_ok_def)
  ultimately show ?thesis by (simp add: parse_version_def)
qed

text \<open>
  A line written by \<open>node_to_disk\<close> is read back by \<open>node_from_disk\<close> to the
  same node, its version without trailing zeros; only a node whose version is zero is refused.
\<close>

lemma node_disk_round_trip:
  assumes "quic_ok q" "hex_ok enc" "\<forall>k. CHR ''|'' \<notin> set (to_hex enc k)" "node_ok q n"
  shows "node_from_disk q enc (node_to_disk enc n) ignore_version =
    (if \<not> ignore_version \<and> trim_version (sn_version n) = [0] then Inl Invalid_argument
     else Inr (n\<lparr> sn_version := trim_version (sn_version n) \<rparr>))"
proof -
  let ?ps = "[sn_host n, show_int (sn_port n), join ''.'' (map show_int (sn_version n)),
       to_hex enc (sn_key n), show_int (uint (sn_swarm_id n))]"
  have "CHR ''|'' \<notin> set (join ''.'' (map show_int (sn_version n)))"
    using join_chars [of "CHR ''|''" "''.''" "map show_int (sn_version n)"] show_int_delims(2) by auto
  then have "\<forall>p \<in> set ?ps. CHR ''|'' \<notin> set p" using assms(3,4) show_int_delims(2) by (simp add: node_ok_def)
  then have "split (node_to_disk enc n) ''|'' False = ?ps"
    unfolding node_to_disk_def by (intro split_pieces) auto
  moreover have "q_parse_int q 0 65535 (show_int (sn_port n)) = (True, Some (sn_port n))"
    "q_parse_int q 0 18446744073709551615 (show_int (uint (sn_swarm_id n))) = (True, Some (uint (sn_swarm_id n)))"
    using assms(1,4) uint_lt2p [of "sn_swarm_id n"] by (simp_all add: quic_ok_def node_ok_def)
  ultimately show ?thesis
    using assms(2,4) parse_version_show [OF assms(1), of "sn_version n"]
    by (simp add: node_from_disk_def Let_def hex_ok_def node_ok_def make_node_def)
qed

section \<open>Bounds\<close>

text \<open>
  C40 (code bugs): the smallest usable size of the node cache is between the size of a path and twelve, but for a
  network of fewer nodes than a path it wraps around to twelve, which such a network never has; and the
  delay before a retry, between 100 and 5000 ms and never shorter than the previous one, is undefined from the
  57th failure in a row on.
\<close>

theorem cache_size_and_delay_bounds:
  fixes n :: "64 word"
  shows
  "min_snode_cache_size (Some (unat n)) =
     (if unat n < path_size then 12 else if unat n \<le> 6 then 3 else min (unat n - 3) 12) \<and>
   (case retry_delay f of
      Inr d \<Rightarrow> f < 57 \<and> d = min 5000 (100 * 2 ^ f) \<and> 100 \<le> d
    | Inl e \<Rightarrow> e = Undefined_behaviour \<and> 57 \<le> f)"
proof
  have small: "unat (n - 3) = (if unat n < 3 then 2 ^ 64 + unat n - 3 else unat n - 3)" for n :: "64 word"
    by (simp add: unat_sub_if')
  show "min_snode_cache_size (Some (unat n)) =
     (if unat n < path_size then 12 else if unat n \<le> 6 then 3 else min (unat n - 3) 12)"
    by (auto simp: min_snode_cache_size_def path_size_def min_snode_cache_count_def small)
  have pos: "(0 :: int) \<le> 2 ^ f" by simp
  have "in_i64 (100 * 2 ^ f) \<longleftrightarrow> f < 57"
  proof (cases "f < 57")
    case True
    then have "(2 :: int) ^ f \<le> 2 ^ 56" by (intro power_increasing) auto
    then have "100 * (2 :: int) ^ f < 2 ^ 63" by simp
    moreover have "- (2 ^ 63) \<le> (0 :: int)" by simp
    then have "- (2 ^ 63) \<le> 100 * (2 :: int) ^ f" using pos by linarith
    ultimately show ?thesis using True unfolding in_i64_def by blast
  next
    case False
    then have "(2 :: int) ^ 57 \<le> 2 ^ f" by (intro power_increasing) auto
    then have "\<not> 100 * (2 :: int) ^ f < 2 ^ 63" by simp
    with False show ?thesis unfolding in_i64_def by blast
  qed
  then show "case retry_delay f of
      Inr d \<Rightarrow> f < 57 \<and> d = min 5000 (100 * 2 ^ f) \<and> 100 \<le> d
    | Inl e \<Rightarrow> e = Undefined_behaviour \<and> 57 \<le> f"
    by (auto simp: retry_delay_def Let_def)
qed

end
