(* ===== verification/Onion.thy ===== *)
theory Onion
  imports Network_Nodes Multi_Encrypt
begin

text \<open>
  Onion requests (\<open>src/src/onionreq/\<close>): key types, the encryption of one hop, the builder that wraps a request for a
  path of service nodes, the parser a node uses to remove its layer, and the parser of the response. The
  AES-GCM and HMAC functions of nettle and libsodium are the fields of \<open>onion_crypto\<close>.
\<close>

section \<open>Keys\<close>

definition load_from_hex :: "encodings \<Rightarrow> nat \<Rightarrow> string \<Rightarrow> bytes res" where
  "load_from_hex enc n hex =
     (if \<not> is_hex enc hex then Inl Runtime_error
      else if length hex \<noteq> 2 * n then Inl Runtime_error
      else Inr (from_hex enc hex))"

definition load_from_bytes :: "nat \<Rightarrow> bytes \<Rightarrow> bytes res" where
  "load_from_bytes n b = (if length b \<noteq> n then Inl Runtime_error else Inr b)"

text \<open>What cannot be read in any of the encodings gives the key of 32 zeros.\<close>

definition parse_pubkey :: "encodings \<Rightarrow> string \<Rightarrow> bytes" where
  "parse_pubkey enc s =
     (if length s = 32 then s
      else if length s = 64 \<and> is_hex enc s then from_hex enc s
      else if (length s = 43 \<or> (length s = 44 \<and> last s = CHR ''='')) \<and> is_base64 enc s then from_base64 enc s
      else if length s = 52 \<and> is_base32z enc s then from_base32z enc s
      else replicate 32 (CHR 0x00))"

definition compute_x25519_pubkey :: "curve \<Rightarrow> bytes \<Rightarrow> bytes res" where
  "compute_x25519_pubkey cv ed25519_pk =
     (case pk_to_curve cv ed25519_pk of None \<Rightarrow> Inl Runtime_error | Some xpk \<Rightarrow> load_from_bytes 32 xpk)"

section \<open>The encryption of a hop\<close>

datatype encrypt_type = AES_GCM | XChaCha20

record onion_crypto =
  gcm_encrypt :: "bytes \<Rightarrow> bytes \<Rightarrow> bytes \<Rightarrow> bytes"
  gcm_decrypt :: "bytes \<Rightarrow> bytes \<Rightarrow> bytes \<Rightarrow> bytes"
  gcm_digest :: "bytes \<Rightarrow> bytes \<Rightarrow> bytes \<Rightarrow> bytes"
  hmacsha256 :: "bytes \<Rightarrow> bytes \<Rightarrow> bytes"

definition GCM_IV_SIZE :: nat where "GCM_IV_SIZE = 12"
definition GCM_DIGEST_SIZE :: nat where "GCM_DIGEST_SIZE = 16"

definition parse_enc_type :: "string \<Rightarrow> encrypt_type res" where
  "parse_enc_type s =
     (if s = ''xchacha20'' \<or> s = ''xchacha20-poly1305'' then Inr XChaCha20
      else if s = ''aes-gcm'' \<or> s = ''gcm'' then Inr AES_GCM
      else Inl Runtime_error)"

definition enc_type_string :: "encrypt_type \<Rightarrow> string" where
  "enc_type_string t = (case t of XChaCha20 \<Rightarrow> ''xchacha20'' | AES_GCM \<Rightarrow> ''aes-gcm'')"

record hop_encryption =
  he_private_key :: bytes
  he_public_key :: bytes
  he_server :: bool

definition derive_symmetric_key :: "onion_crypto \<Rightarrow> curve \<Rightarrow> bytes \<Rightarrow> bytes \<Rightarrow> bytes res" where
  "derive_symmetric_key oc cv seckey pubkey =
     (case curve_mult cv seckey pubkey of None \<Rightarrow> Inl Runtime_error | Some key \<Rightarrow> Inr (hmacsha256 oc ''LOKI'' key))"

definition xchacha20_shared_key :: "crypto \<Rightarrow> curve \<Rightarrow> bytes \<Rightarrow> bytes \<Rightarrow> bytes \<Rightarrow> bool \<Rightarrow> bytes res" where
  "xchacha20_shared_key c cv local_pub local_sec remote_pub local_first =
     (case curve_mult cv local_sec remote_pub of
        None \<Rightarrow> Inl Runtime_error
      | Some key \<Rightarrow> Inr (generichash c 32 [] (key @ (if local_first then local_pub else remote_pub) @
          (if local_first then remote_pub else local_pub))))"

definition response_long_enough :: "encrypt_type \<Rightarrow> nat \<Rightarrow> bool" where
  "response_long_enough t response_size =
     (case t of XChaCha20 \<Rightarrow> 16 \<le> response_size | AES_GCM \<Rightarrow> GCM_IV_SIZE + GCM_DIGEST_SIZE \<le> response_size)"

definition encrypt_aesgcm :: "onion_crypto \<Rightarrow> curve \<Rightarrow> hop_encryption \<Rightarrow> bytes \<Rightarrow> bytes \<Rightarrow> bytes \<Rightarrow> bytes res" where
  "encrypt_aesgcm oc cv he iv plaintext pubkey =
     res_bind (derive_symmetric_key oc cv (he_private_key he) pubkey) (\<lambda>key.
       let ct = gcm_encrypt oc key iv plaintext in Inr (iv @ ct @ gcm_digest oc key iv ct))"

definition decrypt_aesgcm :: "onion_crypto \<Rightarrow> curve \<Rightarrow> hop_encryption \<Rightarrow> bytes \<Rightarrow> bytes \<Rightarrow> bytes res" where
  "decrypt_aesgcm oc cv he ciphertext pubkey =
     (if \<not> response_long_enough AES_GCM (length ciphertext) then Inl Invalid_argument
      else res_bind (derive_symmetric_key oc cv (he_private_key he) pubkey) (\<lambda>key.
        let iv = take GCM_IV_SIZE ciphertext; rest = drop GCM_IV_SIZE ciphertext;
            digest_in = drop (length rest - GCM_DIGEST_SIZE) rest; ct = take (length rest - GCM_DIGEST_SIZE) rest in
        if gcm_digest oc key iv ct \<noteq> digest_in then Inl Runtime_error else Inr (gcm_decrypt oc key iv ct)))"

definition encrypt_xchacha20 :: "crypto \<Rightarrow> curve \<Rightarrow> hop_encryption \<Rightarrow> bytes \<Rightarrow> bytes \<Rightarrow> bytes \<Rightarrow> bytes res" where
  "encrypt_xchacha20 c cv he nonce plaintext pubkey =
     res_bind (xchacha20_shared_key c cv (he_public_key he) (he_private_key he) pubkey (\<not> he_server he)) (\<lambda>key.
       Inr (nonce @ aead_encrypt c plaintext nonce key))"

text \<open>
  The nonce is cut off before the length is checked: less than 24 bytes are out of the range of \<open>subspan\<close>; with less
  than 16 bytes after the nonce the size of the plaintext wraps around and its allocation fails.
\<close>

definition decrypt_xchacha20 :: "crypto \<Rightarrow> curve \<Rightarrow> hop_encryption \<Rightarrow> bytes \<Rightarrow> bytes \<Rightarrow> bytes res" where
  "decrypt_xchacha20 c cv he ciphertext pubkey =
     (if length ciphertext < 24 then Inl Undefined_behaviour
      else
        let nonce = take 24 ciphertext; rest = drop 24 ciphertext in
        if \<not> response_long_enough XChaCha20 (length ciphertext) then Inl Invalid_argument
        else res_bind (xchacha20_shared_key c cv (he_public_key he) (he_private_key he) pubkey (\<not> he_server he)) (\<lambda>key.
          if length rest < 16 then Inl Length_error
          else case aead_decrypt c rest nonce key of None \<Rightarrow> Inl Runtime_error | Some m \<Rightarrow> Inr m))"

text \<open>The random bytes are chosen by their number.\<close>

definition hop_encrypt ::
  "crypto \<Rightarrow> onion_crypto \<Rightarrow> curve \<Rightarrow> hop_encryption \<Rightarrow> (nat \<Rightarrow> bytes) \<Rightarrow> encrypt_type \<Rightarrow> bytes \<Rightarrow> bytes \<Rightarrow> bytes res" where
  "hop_encrypt c oc cv he random t plaintext pubkey =
     (case t of
        XChaCha20 \<Rightarrow> encrypt_xchacha20 c cv he (random 24) plaintext pubkey
      | AES_GCM \<Rightarrow> encrypt_aesgcm oc cv he (random GCM_IV_SIZE) plaintext pubkey)"

definition hop_decrypt :: "crypto \<Rightarrow> onion_crypto \<Rightarrow> curve \<Rightarrow> hop_encryption \<Rightarrow> encrypt_type \<Rightarrow> bytes \<Rightarrow> bytes \<Rightarrow> bytes res" where
  "hop_decrypt c oc cv he t ciphertext pubkey =
     (case t of
        XChaCha20 \<Rightarrow> decrypt_xchacha20 c cv he ciphertext pubkey
      | AES_GCM \<Rightarrow> decrypt_aesgcm oc cv he ciphertext pubkey)"

section \<open>The builder\<close>

record server_destination =
  sd_protocol :: string
  sd_host :: string
  sd_endpoint :: string
  sd_x25519_pubkey :: bytes
  sd_port :: "int option"
  sd_headers :: "(string \<times> string) list option"
  sd_method :: string

datatype network_destination = To_Node service_node | To_Server server_destination

record builder =
  b_enc_type :: encrypt_type
  b_destination_x25519 :: "bytes option"
  b_final_hop_keypair :: "(bytes \<times> bytes) option"
  b_hops :: "(bytes \<times> bytes) list"
  b_ed25519_public_key :: "bytes option"
  b_host :: "string option"
  b_endpoint :: "string option"
  b_protocol :: "string option"
  b_method :: "string option"
  b_port :: "int option"
  b_headers :: "(string \<times> string) list option"

definition new_builder :: "encrypt_type \<Rightarrow> builder" where
  "new_builder t = \<lparr> b_enc_type = t, b_destination_x25519 = None, b_final_hop_keypair = None, b_hops = [],
     b_ed25519_public_key = None, b_host = None, b_endpoint = None, b_protocol = None, b_method = None,
     b_port = None, b_headers = None \<rparr>"

definition pubkey_for_destination :: "curve \<Rightarrow> network_destination \<Rightarrow> bytes res" where
  "pubkey_for_destination cv d =
     (case d of To_Node n \<Rightarrow> compute_x25519_pubkey cv (sn_key n) | To_Server s \<Rightarrow> Inr (sd_x25519_pubkey s))"

text \<open>Fields of a server destination stay when a node is set afterwards, and the port and headers when the server has none.\<close>

definition set_destination :: "network_destination \<Rightarrow> builder \<Rightarrow> builder res" where
  "set_destination d b =
     (let b = b\<lparr> b_ed25519_public_key := None \<rparr> in
      case d of
        To_Node n \<Rightarrow> res_bind (load_from_bytes 32 (sn_key n)) (\<lambda>k. Inr (b\<lparr> b_ed25519_public_key := Some k \<rparr>))
      | To_Server s \<Rightarrow>
          let protocol = (case find_sub ''://'' (sd_protocol s) of Some pos \<Rightarrow> take pos (sd_protocol s) | None \<Rightarrow> sd_protocol s);
              b = b\<lparr> b_host := Some (sd_host s), b_endpoint := Some (sd_endpoint s), b_method := Some (sd_method s),
                     b_protocol := Some protocol \<rparr>;
              b = (if sd_port s \<noteq> None then b\<lparr> b_port := sd_port s \<rparr> else b) in
          Inr (if sd_headers s \<noteq> None then b\<lparr> b_headers := sd_headers s \<rparr> else b))"

definition set_destination_pubkey :: "bytes \<Rightarrow> builder \<Rightarrow> builder" where
  "set_destination_pubkey pk b = b\<lparr> b_destination_x25519 := Some pk \<rparr>"

definition add_hop :: "curve \<Rightarrow> bytes \<Rightarrow> builder \<Rightarrow> builder res" where
  "add_hop cv remote_key b =
     res_bind (load_from_bytes 32 remote_key) (\<lambda>ed.
     res_bind (compute_x25519_pubkey cv remote_key) (\<lambda>x.
       Inr (b\<lparr> b_hops := b_hops b @ [(ed, x)] \<rparr>)))"

definition builder_make :: "curve \<Rightarrow> network_destination \<Rightarrow> service_node list \<Rightarrow> encrypt_type \<Rightarrow> builder res" where
  "builder_make cv d nodes t =
     res_bind (pubkey_for_destination cv d) (\<lambda>pk.
     res_bind (set_destination d ((new_builder t)\<lparr> b_destination_x25519 := Some pk \<rparr>)) (\<lambda>b.
       res_fold (\<lambda>n. add_hop cv (sn_key n)) nodes b))"

definition json_text :: "json_lib \<Rightarrow> json \<Rightarrow> string res" where
  "json_text jl j = (case json_dump jl j of None \<Rightarrow> Inl Json_error | Some s \<Rightarrow> Inr s)"

definition generate_payload :: "json_lib \<Rightarrow> libs \<Rightarrow> bytes option \<Rightarrow> builder \<Rightarrow> bytes res" where
  "generate_payload jl x body b =
     (case (b_host b, b_endpoint b, b_protocol b, b_method b, b_destination_x25519 b) of
        (Some host, Some endpoint, Some protocol, Some method, Some pk) \<Rightarrow>
          let headers = fold (\<lambda>(k, v). if k \<noteq> ''User-Agent'' then smap_put k (JStr v) else id)
                          (case b_headers b of Some hs \<Rightarrow> hs | None \<Rightarrow> []) [];
              headers = (if body \<noteq> None \<and> map_of headers ''Content-Type'' = None
                         then smap_put ''Content-Type'' (JStr ''application/json'') headers else headers) in
          res_bind (json_text jl (json_object [(''method'', JStr method), (''endpoint'', JStr endpoint), (''headers'', JObj headers)])) (\<lambda>info.
            Inr (bt_encode x (BtList (BtStr info # (case body of Some d \<Rightarrow> [BtStr d] | None \<Rightarrow> [])))))
      | _ \<Rightarrow> Inr (case body of Some d \<Rightarrow> d | None \<Rightarrow> []))"

text \<open>A \<open>uint32_t\<close> in little-endian order.\<close>

definition encode_size :: "nat \<Rightarrow> bytes" where
  "encode_size s = map (\<lambda>i. char_of (s div 256 ^ i)) [0..<4]"

definition framed :: "bytes \<Rightarrow> string \<Rightarrow> bytes" where
  "framed blob json = encode_size (length blob) @ blob @ json"

definition route_json :: "encodings \<Rightarrow> encrypt_type \<Rightarrow> bytes \<Rightarrow> bytes \<Rightarrow> json" where
  "route_json enc t ed25519 A =
     json_object [(''destination'', JStr (to_hex enc ed25519)), (''ephemeral_key'', JStr (to_hex enc A)), (''enc_type'', JStr (enc_type_string t))]"

text \<open>
  The innermost layer: its routing data and its encryption for the destination. \<open>eph i\<close> is the \<open>i\<close>-th ephemeral
  secret key, \<open>rnd i\<close> the random bytes of the \<open>i\<close>-th encryption.
\<close>

definition final_layer ::
  "crypto \<Rightarrow> onion_crypto \<Rightarrow> curve \<Rightarrow> encodings \<Rightarrow> json_lib \<Rightarrow> bytes \<Rightarrow> (nat \<Rightarrow> bytes) \<Rightarrow> bytes \<Rightarrow> builder \<Rightarrow> (json \<times> bytes) res" where
  "final_layer c oc cv enc jl a random payload b =
     (let A = curve_base cv a; e = \<lparr> he_private_key = a, he_public_key = A, he_server = False \<rparr>; t = b_enc_type b in
      case (b_host b, b_protocol b, b_destination_x25519 b, b_ed25519_public_key b) of
        (Some host, Some protocol, Some pk, _) \<Rightarrow>
          let route = json_object [(''host'', JStr host), (''target'', JStr ''/oxen/v4/lsrpc''), (''method'', JStr ''POST''),
                        (''protocol'', JStr protocol),
                        (''port'', JInt (case b_port b of Some p \<Rightarrow> p | None \<Rightarrow> if protocol = ''https'' then 443 else 80)),
                        (''ephemeral_key'', JStr (to_hex enc A)), (''enc_type'', JStr (enc_type_string t))] in
          res_bind (hop_encrypt c oc cv e random t payload pk) (\<lambda>blob. Inr (route, blob))
      | (_, _, Some pk, Some ed) \<Rightarrow>
          res_bind (json_text jl (json_object [(''headers'', JStr '''')])) (\<lambda>control.
          res_bind (hop_encrypt c oc cv e random t (framed payload control) pk) (\<lambda>blob.
            Inr (route_json enc t ed A, blob)))
      | _ \<Rightarrow> Inl Runtime_error)"

fun onion_layers ::
  "crypto \<Rightarrow> onion_crypto \<Rightarrow> curve \<Rightarrow> encodings \<Rightarrow> json_lib \<Rightarrow> encrypt_type \<Rightarrow> (nat \<Rightarrow> bytes) \<Rightarrow> (nat \<Rightarrow> nat \<Rightarrow> bytes) \<Rightarrow>
   nat \<Rightarrow> json \<Rightarrow> bytes \<Rightarrow> bytes \<Rightarrow> (bytes \<times> bytes) list \<Rightarrow> (bytes \<times> bytes) res" where
  "onion_layers c oc cv enc jl t eph rnd i routing A blob [] = Inr (A, blob)"
| "onion_layers c oc cv enc jl t eph rnd i routing A blob ((ed, xpk) # hops) =
     res_bind (json_text jl routing) (\<lambda>r.
     let a = eph i; A = curve_base cv a; e = \<lparr> he_private_key = a, he_public_key = A, he_server = False \<rparr> in
     res_bind (hop_encrypt c oc cv e (rnd i) t (framed blob r) xpk) (\<lambda>blob.
       onion_layers c oc cv enc jl t eph rnd (i + 1) (route_json enc t ed A) A blob hops))"

definition build ::
  "crypto \<Rightarrow> onion_crypto \<Rightarrow> curve \<Rightarrow> encodings \<Rightarrow> json_lib \<Rightarrow> (nat \<Rightarrow> bytes) \<Rightarrow> (nat \<Rightarrow> nat \<Rightarrow> bytes) \<Rightarrow> bytes \<Rightarrow> builder \<Rightarrow>
   (bytes \<times> builder) res" where
  "build c oc cv enc jl eph rnd payload b =
     res_bind (final_layer c oc cv enc jl (eph 0) (rnd 0) payload b) (\<lambda>(route, blob).
     let A = curve_base cv (eph 0); b = b\<lparr> b_final_hop_keypair := Some (A, eph 0) \<rparr> in
     res_bind (onion_layers c oc cv enc jl (b_enc_type b) eph rnd 1 route A blob (rev (b_hops b))) (\<lambda>(A, blob).
     res_bind (json_text jl (json_object [(''ephemeral_key'', JStr (to_hex enc A)), (''enc_type'', JStr (enc_type_string (b_enc_type b)))])) (\<lambda>w.
       Inr (framed blob w, b))))"

section \<open>Parsing requests and responses\<close>

record onion_parser =
  op_keys :: hop_encryption
  op_enc_type :: encrypt_type
  op_remote_pk :: bytes
  op_payload :: bytes

definition decode_size :: "bytes \<Rightarrow> nat" where
  "decode_size bs = horner_sum of_char 256 (take 4 bs)"

definition onion_parse ::
  "crypto \<Rightarrow> onion_crypto \<Rightarrow> curve \<Rightarrow> encodings \<Rightarrow> json_lib \<Rightarrow> bytes \<Rightarrow> bytes \<Rightarrow> bytes \<Rightarrow> nat \<Rightarrow> onion_parser res" where
  "onion_parse c oc cv enc jl x25519_pk x25519_sk req max_size =
     res_bind (load_from_bytes 32 x25519_pk) (\<lambda>pk.
     res_bind (load_from_bytes 32 x25519_sk) (\<lambda>sk.
       if length req < 4 then Inl Invalid_argument
       else if length req > max_size then Inl Invalid_argument
       else
         let he = \<lparr> he_private_key = sk, he_public_key = pk, he_server = True \<rparr>; n = decode_size req; req = drop 4 req in
         if length req < n then Inl Invalid_argument
         else case json_parse jl (drop n req) of
             None \<Rightarrow> Inl Json_error
           | Some metadata \<Rightarrow>
               let find = (\<lambda>k. case metadata of JObj m \<Rightarrow> map_of m k | _ \<Rightarrow> None) in
               res_bind (case find ''enc_type'' of Some j \<Rightarrow> res_bind (json_string j) parse_enc_type | None \<Rightarrow> Inr AES_GCM) (\<lambda>t.
               case find ''ephemeral_key'' of
                 None \<Rightarrow> Inl Invalid_argument
               | Some j \<Rightarrow>
                   res_bind (json_string j) (\<lambda>s.
                   let remote_pk = parse_pubkey enc s in
                   res_bind (hop_decrypt c oc cv he t (take n req) remote_pk) (\<lambda>payload.
                     Inr \<lparr> op_keys = he, op_enc_type = t, op_remote_pk = remote_pk, op_payload = payload \<rparr>)))))"

definition encrypt_reply :: "crypto \<Rightarrow> onion_crypto \<Rightarrow> curve \<Rightarrow> (nat \<Rightarrow> bytes) \<Rightarrow> bytes \<Rightarrow> onion_parser \<Rightarrow> bytes res" where
  "encrypt_reply c oc cv random reply p = hop_encrypt c oc cv (op_keys p) random (op_enc_type p) reply (op_remote_pk p)"

record response_parser =
  rp_enc_type :: encrypt_type
  rp_destination :: bytes
  rp_keypair :: "bytes \<times> bytes"

definition response_parser_of :: "builder \<Rightarrow> response_parser res" where
  "response_parser_of b =
     (case b_destination_x25519 b of
        None \<Rightarrow> Inl Runtime_error
      | Some pk \<Rightarrow> (case b_final_hop_keypair b of
          None \<Rightarrow> Inl Runtime_error
        | Some kp \<Rightarrow> Inr \<lparr> rp_enc_type = b_enc_type b, rp_destination = pk, rp_keypair = kp \<rparr>))"

text \<open>
  A response that XChaCha20 does not open is tried with AES-GCM. Exceptions are caught, undefined behaviour is not.
  \<open>Decrypt_error\<close> stands for the runtime error with the text \<open>decryption_failed_error\<close>.
\<close>

definition response_decrypt :: "crypto \<Rightarrow> onion_crypto \<Rightarrow> curve \<Rightarrow> response_parser \<Rightarrow> bytes \<Rightarrow> bytes res" where
  "response_decrypt c oc cv rp ciphertext =
     (let d = \<lparr> he_private_key = snd (rp_keypair rp), he_public_key = fst (rp_keypair rp), he_server = False \<rparr> in
      case hop_decrypt c oc cv d (rp_enc_type rp) ciphertext (rp_destination rp) of
        Inr m \<Rightarrow> Inr m
      | Inl e \<Rightarrow>
          if e = Undefined_behaviour then Inl e
          else if rp_enc_type rp = XChaCha20 then
            (case hop_decrypt c oc cv d AES_GCM ciphertext (rp_destination rp) of
               Inr m \<Rightarrow> Inr m
             | Inl e' \<Rightarrow> if e' = Undefined_behaviour then Inl e' else Inl Decrypt_error)
          else Inl e)"

section \<open>One layer\<close>

text \<open>
  What the code relies on: both parties of a key exchange compute the same secret, the ciphers invert, hex and
  flat JSON objects of ASCII text can be read back.
\<close>

definition onion_ok :: "crypto \<Rightarrow> onion_crypto \<Rightarrow> curve \<Rightarrow> bool" where
  "onion_ok c oc cv \<longleftrightarrow> crypto_ok c \<and> curve_ok cv \<and>
     (\<forall>k iv m. length (gcm_encrypt oc k iv m) = length m \<and> gcm_decrypt oc k iv (gcm_encrypt oc k iv m) = m \<and>
        length (gcm_digest oc k iv m) = GCM_DIGEST_SIZE)"

definition ascii :: "string \<Rightarrow> bool" where
  "ascii s \<longleftrightarrow> list_all (\<lambda>ch. (of_char ch :: nat) < 128) s"

definition flat_value :: "json \<Rightarrow> bool" where
  "flat_value j = (case j of JInt i \<Rightarrow> True | JStr s \<Rightarrow> ascii s | _ \<Rightarrow> False)"

definition json_ok :: "json_lib \<Rightarrow> bool" where
  "json_ok jl \<longleftrightarrow> (\<forall>m. smap_ok m \<and> (\<forall>p \<in> set m. flat_value (snd p)) \<longrightarrow>
     (\<exists>s. json_dump jl (JObj m) = Some s \<and> json_parse jl s = Some (JObj m)))"

definition hex_text :: "encodings \<Rightarrow> bool" where
  "hex_text enc \<longleftrightarrow> hex_ok enc \<and> (\<forall>k. ascii (to_hex enc k))"

definition client :: "curve \<Rightarrow> bytes \<Rightarrow> hop_encryption" where
  "client cv a = \<lparr> he_private_key = a, he_public_key = curve_base cv a, he_server = False \<rparr>"

definition server :: "curve \<Rightarrow> bytes \<Rightarrow> hop_encryption" where
  "server cv x = \<lparr> he_private_key = x, he_public_key = curve_base cv x, he_server = True \<rparr>"

lemma hop_round_trip:
  assumes ok: "onion_ok c oc cv" and shared: "curve_mult cv a (curve_base cv x) \<noteq> None" and rnd: "\<forall>n. length (random n) = n"
    and he: "he_private_key he = a" "he_public_key he = curve_base cv a"
    and he': "he_private_key he' = x" "he_public_key he' = curve_base cv x" "he_server he' \<longleftrightarrow> \<not> he_server he"
  shows "\<exists>ct. hop_encrypt c oc cv he random t m (curve_base cv x) = Inr ct \<and> length m + 28 \<le> length ct \<and>
    hop_decrypt c oc cv he' t ct (curve_base cv a) = Inr m"
proof -
  obtain k where k: "curve_mult cv a (curve_base cv x) = Some k" "curve_mult cv x (curve_base cv a) = Some k"
    using ok shared by (auto simp: onion_ok_def curve_ok_def)
  show ?thesis
  proof (cases t)
    case AES_GCM
    then show ?thesis
      using ok rnd k he he'
      by (auto simp: hop_encrypt_def hop_decrypt_def encrypt_aesgcm_def decrypt_aesgcm_def derive_symmetric_key_def onion_ok_def
          response_long_enough_def GCM_IV_SIZE_def GCM_DIGEST_SIZE_def Let_def)
  next
    case XChaCha20
    then show ?thesis
      using ok rnd k he he'
      by (auto simp: hop_encrypt_def hop_decrypt_def encrypt_xchacha20_def decrypt_xchacha20_def xchacha20_shared_key_def
          onion_ok_def crypto_ok_def response_long_enough_def Let_def)
  qed
qed

lemma decode_encode_size:
  assumes "n < 2 ^ 32"
  shows "decode_size (encode_size n @ rest) = n"
proof -
  have top: "n div 16777216 mod 256 = n div 16777216" using assms by (simp add: less_mult_imp_div_less)
  have digit: "k mod 256 + 256 * (k div 256) = k" for k :: nat by simp
  have "n mod 256 + 256 * (n div 256 mod 256 + 256 * (n div 256 div 256 mod 256 + 256 * (n div 256 div 256 div 256))) = n"
    by (simp only: digit)
  then show ?thesis
    by (simp add: decode_size_def encode_size_def upt_rec horner_sum_simps div_mult2_eq [symmetric] top)
qed

lemma json_object_props:
  "\<exists>m. json_object kvs = JObj m \<and> smap_ok m \<and> map_of m = map_of (rev kvs) \<and> set m \<subseteq> set kvs"
proof -
  let ?f = "fold (\<lambda>(k, v). smap_put k v)"
  have "smap_ok (?f kvs m) \<and> map_of (?f kvs m) = map_of m ++ map_of (rev kvs) \<and> set (?f kvs m) \<subseteq> set m \<union> set kvs" if "smap_ok m" for m
    using that
  proof (induction kvs arbitrary: m)
    case (Cons p kvs)
    obtain k v where p: "p = (k, v)" by fastforce
    have "smap_ok (smap_put k v m)" using Cons.prems by simp
    from Cons.IH [OF this] show ?case
      using Cons.prems by (auto simp: p map_of_smap_put map_add_def fun_eq_iff split: option.splits dest: smap_put_values)
  qed simp
  from this [of "[]"] show ?thesis by (simp add: json_object_def)
qed

text \<open>A text that tells the next party how to open the layer made with the ephemeral key \<open>A\<close>.\<close>

definition carries :: "json_lib \<Rightarrow> encodings \<Rightarrow> encrypt_type \<Rightarrow> bytes \<Rightarrow> string \<Rightarrow> bool" where
  "carries jl enc t A w \<longleftrightarrow> (\<exists>m. json_parse jl w = Some (JObj m) \<and> map_of m ''enc_type'' = Some (JStr (enc_type_string t)) \<and>
     map_of m ''ephemeral_key'' = Some (JStr (to_hex enc A)))"

lemma dump_carries:
  assumes "json_ok jl" "\<forall>p \<in> set kvs. flat_value (snd p)" "map_of (rev kvs) ''enc_type'' = Some (JStr (enc_type_string t))"
    "map_of (rev kvs) ''ephemeral_key'' = Some (JStr (to_hex enc A))"
  shows "\<exists>w. json_text jl (json_object kvs) = Inr w \<and> carries jl enc t A w"
proof -
  obtain m where m: "json_object kvs = JObj m" "smap_ok m" "map_of m = map_of (rev kvs)" "set m \<subseteq> set kvs"
    using json_object_props by blast
  then obtain s where "json_dump jl (JObj m) = Some s" "json_parse jl s = Some (JObj m)"
    using assms(1,2) unfolding json_ok_def by blast
  then show ?thesis using m assms(3,4) by (auto simp: json_text_def carries_def)
qed

lemma enc_type_text: "parse_enc_type (enc_type_string t) = Inr t" "ascii (enc_type_string t)"
  by (cases t; simp add: parse_enc_type_def enc_type_string_def ascii_def)+

lemma route_dump:
  assumes "json_ok jl" "hex_text enc"
  shows "\<exists>w. json_text jl (route_json enc t ed A) = Inr w \<and> carries jl enc t A w"
  using assms enc_type_text(2) unfolding route_json_def by (intro dump_carries) (auto simp: flat_value_def hex_text_def)

lemma parse_layer:
  assumes ok: "onion_ok c oc cv" "hex_text enc" and w: "carries jl enc t (curve_base cv a) w"
    and x: "length x = 32" and blob: "hop_decrypt c oc cv (server cv x) t blob (curve_base cv a) = Inr m"
    and len: "length (framed blob w) \<le> max_size" "max_size < 2 ^ 32"
  shows "onion_parse c oc cv enc jl (curve_base cv x) x (framed blob w) max_size =
    Inr \<lparr> op_keys = server cv x, op_enc_type = t, op_remote_pk = curve_base cv a, op_payload = m \<rparr>"
proof -
  have four: "length (encode_size n) = 4" for n by (simp add: encode_size_def)
  have l: "length (curve_base cv y) = 32" for y using ok(1) by (simp add: onion_ok_def curve_ok_def)
  have pk: "parse_pubkey enc (to_hex enc (curve_base cv a)) = curve_base cv a"
    using ok(2) l by (simp add: parse_pubkey_def hex_text_def hex_ok_def)
  have n: "decode_size (framed blob w) = length blob"
    unfolding framed_def using len four by (intro decode_encode_size) (simp add: framed_def)
  have d: "drop 4 (framed blob w) = blob @ w" by (simp add: framed_def four)
  have "4 \<le> length (framed blob w)" by (simp add: framed_def four)
  then show ?thesis
    using w l x len(1) pk blob unfolding carries_def
    by (auto simp: onion_parse_def load_from_bytes_def Let_def n d json_string_def enc_type_text server_def)
qed

section \<open>The whole onion\<close>

text \<open>
  What the nodes of a path do: each removes its layer and hands the rest to the next one. The data a node
  decrypts has the form of a request for the next node.
\<close>

fun peel :: "crypto \<Rightarrow> onion_crypto \<Rightarrow> curve \<Rightarrow> encodings \<Rightarrow> json_lib \<Rightarrow> nat \<Rightarrow> bytes list \<Rightarrow> bytes \<Rightarrow> bytes res" where
  "peel c oc cv enc jl max_size [] req = Inr req"
| "peel c oc cv enc jl max_size (x # xs) req =
     res_bind (onion_parse c oc cv enc jl (curve_base cv x) x req max_size) (\<lambda>p. peel c oc cv enc jl max_size xs (op_payload p))"

lemma peel_append: "peel c oc cv enc jl mx (xs @ ys) req = res_bind (peel c oc cv enc jl mx xs req) (peel c oc cv enc jl mx ys)"
  by (induction xs arbitrary: req) (auto simp: res_bind_def split: sum.splits)

definition path_keys :: "curve \<Rightarrow> (nat \<Rightarrow> bytes) \<Rightarrow> (bytes \<times> bytes) list \<Rightarrow> bytes list \<Rightarrow> bool" where
  "path_keys cv eph hops xs \<longleftrightarrow> map snd hops = map (curve_base cv) xs \<and>
     (\<forall>x \<in> set xs. length x = 32 \<and> (\<forall>i. curve_mult cv (eph i) (curve_base cv x) \<noteq> None))"

lemma layers_peel:
  assumes ok: "onion_ok c oc cv" "json_ok jl" "hex_text enc" and rnd: "\<forall>i n. length (rnd i n) = n"
    and keys: "path_keys cv eph hops xs" and route: "json_text jl routing = Inr r" "carries jl enc t A r"
  shows "\<exists>j blob'. onion_layers c oc cv enc jl t eph rnd i routing A blob hops = Inr (if hops = [] then A else curve_base cv (eph j), blob') \<and>
    (\<forall>w. carries jl enc t (if hops = [] then A else curve_base cv (eph j)) w \<and> length (framed blob' w) \<le> mx \<and> mx < 2 ^ 32 \<longrightarrow>
      (\<exists>w0. carries jl enc t A w0 \<and> peel c oc cv enc jl mx (rev xs) (framed blob' w) = Inr (framed blob w0) \<and>
         length (framed blob w0) \<le> length (framed blob' w)))"
  using keys route
proof (induction hops arbitrary: xs i routing r A blob)
  case Nil
  then show ?case by (auto simp: path_keys_def)
next
  case (Cons h hops)
  obtain ed xpk where h: "h = (ed, xpk)" by fastforce
  obtain x xs' where xs: "xs = x # xs'" "xpk = curve_base cv x" using Cons.prems(1) h by (cases xs) (auto simp: path_keys_def)
  have keys': "path_keys cv eph hops xs'" "length x = 32" "curve_mult cv (eph i) (curve_base cv x) \<noteq> None"
    using Cons.prems(1) by (auto simp: path_keys_def xs)
  obtain blob1 where blob1: "hop_encrypt c oc cv (client cv (eph i)) (rnd i) t (framed blob r) (curve_base cv x) = Inr blob1"
      "length (framed blob r) + 28 \<le> length blob1" "hop_decrypt c oc cv (server cv x) t blob1 (curve_base cv (eph i)) = Inr (framed blob r)"
    using hop_round_trip [OF ok(1) keys'(3), of "rnd i" "client cv (eph i)" "server cv x" t "framed blob r"] rnd
    by (auto simp: client_def server_def)
  obtain r1 where r1: "json_text jl (route_json enc t ed (curve_base cv (eph i))) = Inr r1" "carries jl enc t (curve_base cv (eph i)) r1"
    using route_dump [OF ok(2,3)] by blast
  obtain j blob' where rest: "onion_layers c oc cv enc jl t eph rnd (i + 1) (route_json enc t ed (curve_base cv (eph i))) (curve_base cv (eph i)) blob1 hops =
      Inr (if hops = [] then curve_base cv (eph i) else curve_base cv (eph j), blob')"
    and peeled: "\<And>w. carries jl enc t (if hops = [] then curve_base cv (eph i) else curve_base cv (eph j)) w \<Longrightarrow> length (framed blob' w) \<le> mx \<Longrightarrow> mx < 2 ^ 32 \<Longrightarrow>
      \<exists>w0. carries jl enc t (curve_base cv (eph i)) w0 \<and> peel c oc cv enc jl mx (rev xs') (framed blob' w) = Inr (framed blob1 w0) \<and>
         length (framed blob1 w0) \<le> length (framed blob' w)"
    using Cons.IH [OF keys'(1) r1] by blast
  have step: "onion_layers c oc cv enc jl t eph rnd i routing A blob (h # hops) =
      Inr (if hops = [] then curve_base cv (eph i) else curve_base cv (eph j), blob')"
    using Cons.prems(2) blob1(1) rest by (simp add: h xs(2) client_def)
  have "\<exists>w0. carries jl enc t A w0 \<and> peel c oc cv enc jl mx (rev xs) (framed blob' w) = Inr (framed blob w0) \<and>
         length (framed blob w0) \<le> length (framed blob' w)"
    if w: "carries jl enc t (if hops = [] then curve_base cv (eph i) else curve_base cv (eph j)) w" "length (framed blob' w) \<le> mx" "mx < 2 ^ 32" for w
  proof -
    obtain w0 where w0: "carries jl enc t (curve_base cv (eph i)) w0" "peel c oc cv enc jl mx (rev xs') (framed blob' w) = Inr (framed blob1 w0)"
      "length (framed blob1 w0) \<le> length (framed blob' w)"
      using peeled [OF w] by blast
    have "onion_parse c oc cv enc jl (curve_base cv x) x (framed blob1 w0) mx =
        Inr \<lparr> op_keys = server cv x, op_enc_type = t, op_remote_pk = curve_base cv (eph i), op_payload = framed blob r \<rparr>"
      using w0(3) w(2,3) by (intro parse_layer [OF ok(1,3) w0(1) keys'(2) blob1(3)]) auto
    moreover have "length (framed blob r) \<le> length (framed blob' w)" using blob1(2) w0(3) by (simp add: framed_def)
    ultimately show ?thesis using w0(2) Cons.prems(3) by (auto simp: xs(1) peel_append)
  qed
  then show ?case using step by (intro exI [of _ "if hops = [] then i else j"] exI [of _ blob']) (auto split: if_splits)
qed

text \<open>The innermost layer opens with the key of the destination.\<close>

definition destination_data :: "json_lib \<Rightarrow> bytes \<Rightarrow> builder \<Rightarrow> bytes \<Rightarrow> bool" where
  "destination_data jl payload b data \<longleftrightarrow>
     (case (b_host b, b_protocol b) of
        (Some host, Some protocol) \<Rightarrow> ascii host \<and> ascii protocol \<and> data = payload
      | (None, None) \<Rightarrow> b_ed25519_public_key b \<noteq> None \<and>
          (\<exists>control. json_text jl (json_object [(''headers'', JStr '''')]) = Inr control \<and> data = framed payload control)
      | _ \<Rightarrow> False)"

lemma final_layer_opens:
  assumes ok: "onion_ok c oc cv" "json_ok jl" "hex_text enc" and rnd: "\<forall>n. length (random n) = n"
    and dest: "b_destination_x25519 b = Some (curve_base cv d)" "curve_mult cv a (curve_base cv d) \<noteq> None"
    and data: "destination_data jl payload b data"
  shows "\<exists>route blob r. final_layer c oc cv enc jl a random payload b = Inr (route, blob) \<and> json_text jl route = Inr r \<and>
    carries jl enc (b_enc_type b) (curve_base cv a) r \<and>
    hop_decrypt c oc cv (server cv d) (b_enc_type b) blob (curve_base cv a) = Inr data"
proof -
  obtain blob where blob: "hop_encrypt c oc cv (client cv a) random (b_enc_type b) data (curve_base cv d) = Inr blob"
      "hop_decrypt c oc cv (server cv d) (b_enc_type b) blob (curve_base cv a) = Inr data"
    using hop_round_trip [OF ok(1) dest(2) rnd, of "client cv a" "server cv d"] by (auto simp: client_def server_def)
  show ?thesis
  proof (cases "b_host b")
    case None
    then obtain ed control where n: "b_protocol b = None" "b_ed25519_public_key b = Some ed" "json_text jl (json_object [(''headers'', JStr '''')]) = Inr control"
      "data = framed payload control"
      using data by (auto simp: destination_data_def split: option.splits)
    then have "final_layer c oc cv enc jl a random payload b = Inr (route_json enc (b_enc_type b) ed (curve_base cv a), blob)"
      using None dest(1) blob(1) by (simp add: final_layer_def client_def)
    then show ?thesis using route_dump [OF ok(2,3)] blob(2) by blast
  next
    case (Some host)
    then obtain protocol where n: "b_protocol b = Some protocol" "ascii host" "ascii protocol" "data = payload"
      using data by (auto simp: destination_data_def split: option.splits)
    define kvs where "kvs = [(''host'', JStr host), (''target'', JStr ''/oxen/v4/lsrpc''), (''method'', JStr ''POST''),
      (''protocol'', JStr protocol),
      (''port'', JInt (case b_port b of Some p \<Rightarrow> p | None \<Rightarrow> if protocol = ''https'' then 443 else 80)),
      (''ephemeral_key'', JStr (to_hex enc (curve_base cv a))), (''enc_type'', JStr (enc_type_string (b_enc_type b)))]"
    have "final_layer c oc cv enc jl a random payload b = Inr (json_object kvs, blob)"
      using Some n dest(1) blob(1) by (simp add: final_layer_def client_def kvs_def)
    moreover have "ascii ''/oxen/v4/lsrpc''" "ascii ''POST''" by (simp_all add: ascii_def)
    then have "\<exists>w. json_text jl (json_object kvs) = Inr w \<and> carries jl enc (b_enc_type b) (curve_base cv a) w"
      using ok(3) n enc_type_text(2) by (intro dump_carries [OF ok(2)]) (auto simp: kvs_def flat_value_def hex_text_def)
    ultimately show ?thesis using blob(2) by blast
  qed
qed

text \<open>
  C8: an onion request reaches its destination and its answer comes back: the request that \<open>build\<close> makes is
  opened layer by layer with the keys of the nodes of the path, in their order; what is left opens with
  the key of the destination to the payload (framed with the empty headers for a service node); and what
  the destination encrypts as its reply, the response parser of the sender decrypts.
\<close>

theorem onion_round_trip:
  assumes "onion_ok c oc cv" "json_ok jl" "hex_text enc" "\<forall>i n. length (rnd i n) = n" "\<forall>n. length (random n) = n"
    and "path_keys cv eph (b_hops b) xs" "length d = 32" "b_destination_x25519 b = Some (curve_base cv d)"
    and "curve_mult cv (eph 0) (curve_base cv d) \<noteq> None" "destination_data jl payload b data"
  shows "\<exists>req b'. build c oc cv enc jl eph rnd payload b = Inr (req, b') \<and>
    (length req \<le> max_size \<and> max_size < 2 ^ 32 \<longrightarrow>
      (\<exists>inner p ct rp. peel c oc cv enc jl max_size xs req = Inr inner \<and>
         onion_parse c oc cv enc jl (curve_base cv d) d inner max_size = Inr p \<and> op_payload p = data \<and>
         encrypt_reply c oc cv random reply p = Inr ct \<and> response_parser_of b' = Inr rp \<and> response_decrypt c oc cv rp ct = Inr reply))"
proof -
  let ?t = "b_enc_type b" and ?A = "curve_base cv (eph 0)"
  have "\<forall>n. length (rnd 0 n) = n" using assms(4) by blast
  then obtain route blob r where final: "final_layer c oc cv enc jl (eph 0) (rnd 0) payload b = Inr (route, blob)"
      "json_text jl route = Inr r" "carries jl enc ?t ?A r" "hop_decrypt c oc cv (server cv d) ?t blob ?A = Inr data"
    using final_layer_opens [OF assms(1-3) _ assms(8-10)] by blast
  have keys: "path_keys cv eph (rev (b_hops b)) (rev xs)" using assms(6) by (simp add: path_keys_def rev_map [symmetric])
  obtain j blob' where layers: "onion_layers c oc cv enc jl ?t eph rnd 1 route ?A blob (rev (b_hops b)) =
      Inr (if rev (b_hops b) = [] then ?A else curve_base cv (eph j), blob')"
    and peeled: "\<forall>w. carries jl enc ?t (if rev (b_hops b) = [] then ?A else curve_base cv (eph j)) w \<and> length (framed blob' w) \<le> max_size \<and> max_size < 2 ^ 32 \<longrightarrow>
      (\<exists>w0. carries jl enc ?t ?A w0 \<and> peel c oc cv enc jl max_size (rev (rev xs)) (framed blob' w) = Inr (framed blob w0) \<and>
         length (framed blob w0) \<le> length (framed blob' w))"
    using layers_peel [OF assms(1-4) keys final(2,3)] by blast
  define A' where "A' = (if rev (b_hops b) = [] then ?A else curve_base cv (eph j))"
  have "\<exists>w. json_text jl (json_object [(''ephemeral_key'', JStr (to_hex enc A')), (''enc_type'', JStr (enc_type_string ?t))]) = Inr w \<and> carries jl enc ?t A' w"
    using assms(3) enc_type_text(2) by (intro dump_carries [OF assms(2)]) (auto simp: flat_value_def hex_text_def)
  then obtain w where w: "json_text jl (json_object [(''ephemeral_key'', JStr (to_hex enc A')), (''enc_type'', JStr (enc_type_string ?t))]) = Inr w"
    "carries jl enc ?t A' w" by blast
  let ?b = "b\<lparr> b_final_hop_keypair := Some (?A, eph 0) \<rparr>"
  have built: "build c oc cv enc jl eph rnd payload b = Inr (framed blob' w, ?b)"
    using final(1) layers w(1) by (simp add: build_def Let_def A'_def)
  obtain ct where ct: "hop_encrypt c oc cv (server cv d) random ?t reply ?A = Inr ct" "hop_decrypt c oc cv (client cv (eph 0)) ?t ct (curve_base cv d) = Inr reply"
    using hop_round_trip [OF assms(1) _ assms(5), of d "eph 0" "server cv d" "client cv (eph 0)" ?t reply] assms(1,9)
    by (auto simp: client_def server_def onion_ok_def curve_ok_def)
  have "\<exists>inner p ct rp. peel c oc cv enc jl max_size xs (framed blob' w) = Inr inner \<and>
         onion_parse c oc cv enc jl (curve_base cv d) d inner max_size = Inr p \<and> op_payload p = data \<and>
         encrypt_reply c oc cv random reply p = Inr ct \<and> response_parser_of ?b = Inr rp \<and> response_decrypt c oc cv rp ct = Inr reply"
    if small: "length (framed blob' w) \<le> max_size" "max_size < 2 ^ 32"
  proof -
    obtain w0 where w0: "carries jl enc ?t ?A w0" "peel c oc cv enc jl max_size xs (framed blob' w) = Inr (framed blob w0)"
      "length (framed blob w0) \<le> length (framed blob' w)"
      using peeled w(2) small by (auto simp: A'_def)
    have "onion_parse c oc cv enc jl (curve_base cv d) d (framed blob w0) max_size =
        Inr \<lparr> op_keys = server cv d, op_enc_type = ?t, op_remote_pk = ?A, op_payload = data \<rparr>"
      using w0(3) small by (intro parse_layer [OF assms(1,3) w0(1) assms(7) final(4)]) auto
    then show ?thesis
      using w0(2) ct assms(8) by (auto simp: encrypt_reply_def response_parser_of_def response_decrypt_def client_def)
  qed
  with built show ?thesis by blast
qed

end
