(* ===== verification/Network.thy ===== *)
theory Network
  imports Onion "HOL-Library.Multiset"
begin

text \<open>
  The network layer (\<open>class Network\<close> of \<open>src/src/session_network.cpp\<close>): building paths, sending onion requests
  over them, retries, the cache of service nodes and swarms. All its state is changed on one event loop, so
  the model is sequential: the loop's queue of jobs, the connections being established and the commands
  under way are part of the state, and every job, event and call of the interface is one definition.
  Notifications of observers, log output and the QUIC library are left out; a callback given by the user is a
  number, and calling it records the answer.
\<close>

section \<open>State\<close>

type_synonym conn_id = nat
type_synonym header_list = "(string \<times> string) list"

text \<open>A connection with its stream and its shared counter of pending requests; \<open>None\<close> when it was not established.\<close>

record connection_info =
  cn_node :: service_node
  cn_conn :: "conn_id option"

record onion_path =
  pt_id :: string
  pt_conn :: connection_info
  pt_nodes :: "service_node list"
  pt_failure_count :: nat

datatype retry_reason = Retry_none | Decryption_failure | Redirect | Redirect_swarm_refresh

record request_info =
  rq_id :: string
  rq_destination :: network_destination
  rq_endpoint :: string
  rq_body :: "bytes option"
  rq_original_body :: "bytes option"
  rq_swarm_pubkey :: "bytes option"
  rq_path_type :: path_type
  rq_timeout :: int
  rq_build_timeout :: "int option"
  rq_creation_time :: int
  rq_retry_reason :: "retry_reason option"
  rq_node_destination :: bool

record response =
  rs_success :: bool
  rs_timeout :: bool
  rs_status :: int
  rs_headers :: header_list
  rs_body :: "string option"

text \<open>
  Response callbacks: of the user, of a cache refresh, and the wrapper that \<open>_send_onion_request\<close> puts around
  a callback. Callbacks that get a swarm: of the user, and the retry after a second redirect.
\<close>

datatype callback = User nat | Refresh string | Wrapper builder request_info onion_path callback

datatype swarm_callback = User_swarm nat | Retry request_info int header_list "string option" callback

datatype task =
    Build_path string path_type
  | Build_path_if_needed path_type bool
  | Establish string
  | Refresh_cache "string option"
  | Refresh_from_seeds string
  | Send_onion request_info callback
  | Check_timeouts
  | Recheck_timeouts
  | Get_swarm bytes swarm_callback
  | Get_random_nodes nat nat

datatype purpose = For_path string | For_refresh string

datatype command = Request request_info connection_info callback | Get_service_nodes string connection_info

datatype answer = Response response | Swarm swarm | Nodes "service_node list"

datatype status = Unknown | Connecting | Connected | Disconnected

record network =
  n_use_testnet :: bool
  n_single_path_mode :: bool
  n_seed_node_cache_size :: "nat option"
  n_snode_cache :: "service_node list"
  n_last_snode_cache_update :: int
  n_need_write :: bool
  n_need_clear_cache :: bool
  n_suspended :: bool
  n_status :: status
  n_paths :: "path_type \<Rightarrow> onion_path list"
  n_paths_pending_drop :: "(onion_path \<times> path_type) list"
  n_unused_nodes :: "service_node list"
  n_snode_failure_counts :: "(string, nat) smap"
  n_all_swarms :: "swarm list"
  n_swarm_cache :: "(string, swarm) smap"
  n_refresh_failure_count :: nat
  n_in_progress_refresh_count :: int
  n_current_refresh_id :: "string option"
  n_after_refresh :: "task list"
  n_unused_refresh_nodes :: "service_node list option"
  n_refresh_results :: "service_node list list option"
  n_connection_failures :: nat
  n_unused_connections :: "connection_info list"
  n_in_progress_connections :: "(string, service_node) smap"
  n_path_build_failures :: nat
  n_path_build_queue :: "path_type list"
  n_in_progress_path_builds :: "(string, path_type) smap"
  n_request_timeout_id :: "string option"
  n_request_queue :: "path_type \<Rightarrow> (request_info \<times> callback) list"
  n_tasks :: "task list"
  n_connecting :: "(string \<times> service_node \<times> purpose) list"
  n_commands :: "command list"
  n_open :: "conn_id list"
  n_pending :: "conn_id \<Rightarrow> nat"
  n_next_conn :: conn_id
  n_answers :: "(nat \<times> answer) list"

text \<open>
  What a handler takes from outside: the libraries, the time in milliseconds, the random shuffles and ids, the random
  bytes of the encryption, and the texts of exceptions.
\<close>

record net_env =
  e_quic :: quic_lib
  e_enc :: encodings
  e_json :: json_lib
  e_bt :: libs
  e_cry :: crypto
  e_ocry :: onion_crypto
  e_curve :: curve
  e_now :: int
  e_shuffle_nodes :: "service_node list \<Rightarrow> service_node list"
  e_shuffle_paths :: "onion_path list \<Rightarrow> onion_path list"
  e_ids :: "nat \<Rightarrow> string"
  e_eph :: "nat \<Rightarrow> bytes"
  e_rnd :: "nat \<Rightarrow> nat \<Rightarrow> bytes"
  e_what :: "exn \<Rightarrow> string"
  e_default_timeout :: int

abbreviation all_types :: "path_type list" where "all_types \<equiv> [Standard, Upload, Download]"

definition error_network_suspended :: int where "error_network_suspended = - 10001"
definition error_building_onion_request :: int where "error_building_onion_request = - 10002"
definition error_path_build_timeout :: int where "error_path_build_timeout = - 10003"

definition content_type_plain_text :: "string \<times> string" where
  "content_type_plain_text = (''Content-Type'', ''text/plain; charset=UTF-8'')"

definition content_type_json :: "string \<times> string" where
  "content_type_json = (''Content-Type'', ''application/json'')"

definition failure_response :: "bool \<Rightarrow> int \<Rightarrow> string \<Rightarrow> response" where
  "failure_response timeout status_code text =
     \<lparr> rs_success = False, rs_timeout = timeout, rs_status = status_code, rs_headers = [content_type_plain_text], rs_body = Some text \<rparr>"

definition decryption_failed_error :: string where
  "decryption_failed_error = ''Decryption failed (both XChaCha20-Poly1305 and AES256-GCM)''"

definition what :: "net_env \<Rightarrow> exn \<Rightarrow> string" where
  "what e x = (if x = Decrypt_error then decryption_failed_error else e_what e x)"

definition node_for_destination :: "network_destination \<Rightarrow> service_node option" where
  "node_for_destination d = (case d of To_Node n \<Rightarrow> Some n | To_Server s \<Rightarrow> None)"

definition make_request ::
  "net_env \<Rightarrow> network_destination \<Rightarrow> bytes option \<Rightarrow> bytes option \<Rightarrow> int \<Rightarrow> int option \<Rightarrow> path_type \<Rightarrow> string option \<Rightarrow> request_info" where
  "make_request e dest original_body swarm_pk request_timeout build_timeout t req_id =
     \<lparr> rq_id = (case req_id of Some i \<Rightarrow> i | None \<Rightarrow> e_ids e 0), rq_destination = dest, rq_endpoint = ''onion_req'',
       rq_body = None, rq_original_body = original_body, rq_swarm_pubkey = swarm_pk, rq_path_type = t, rq_timeout = request_timeout,
       rq_build_timeout = build_timeout, rq_creation_time = e_now e, rq_retry_reason = None,
       rq_node_destination = (node_for_destination dest \<noteq> None) \<rparr>"

section \<open>Small operations\<close>

definition post :: "task list \<Rightarrow> network \<Rightarrow> network" where
  "post ts n = n\<lparr> n_tasks := n_tasks n @ ts \<rparr>"

definition answer :: "nat \<Rightarrow> answer \<Rightarrow> network \<Rightarrow> network" where
  "answer k a n = n\<lparr> n_answers := n_answers n @ [(k, a)] \<rparr>"

definition valid_conn :: "network \<Rightarrow> connection_info \<Rightarrow> bool" where
  "valid_conn n c = (case cn_conn c of None \<Rightarrow> False | Some i \<Rightarrow> i \<in> set (n_open n))"

definition num_pending :: "network \<Rightarrow> connection_info \<Rightarrow> nat" where
  "num_pending n c = (case cn_conn c of None \<Rightarrow> 0 | Some i \<Rightarrow> n_pending n i)"

definition add_pending_request :: "connection_info \<Rightarrow> network \<Rightarrow> network" where
  "add_pending_request c n =
     (case cn_conn c of None \<Rightarrow> n | Some i \<Rightarrow> n\<lparr> n_pending := (n_pending n)(i := n_pending n i + 1) \<rparr>)"

definition remove_pending_request :: "connection_info \<Rightarrow> network \<Rightarrow> network" where
  "remove_pending_request c n =
     (case cn_conn c of None \<Rightarrow> n | Some i \<Rightarrow> n\<lparr> n_pending := (n_pending n)(i := n_pending n i - 1) \<rparr>)"

definition path_valid :: "network \<Rightarrow> onion_path \<Rightarrow> bool" where
  "path_valid n p \<longleftrightarrow> pt_nodes p \<noteq> [] \<and> valid_conn n (pt_conn p)"

definition contains_node :: "onion_path \<Rightarrow> service_node \<Rightarrow> bool" where
  "contains_node p sn \<longleftrightarrow> sn \<in> set (pt_nodes p)"

definition update_status :: "status \<Rightarrow> network \<Rightarrow> network" where
  "update_status st n =
     (if n_status n = st then n
      else if n_status n = Connected \<and> st = Connecting then n
      else n\<lparr> n_status := st \<rparr>)"

definition all_path_ips :: "quic_lib \<Rightarrow> network \<Rightarrow> 32 word list" where
  "all_path_ips q n = concat (map (\<lambda>t. concat (map (\<lambda>p. map (node_ip q) (pt_nodes p)) (n_paths n t))) all_types)"

definition excluded_ips :: "quic_lib \<Rightarrow> network \<Rightarrow> 32 word list" where
  "excluded_ips q n =
     all_path_ips q n @ map (\<lambda>c. node_ip q (cn_node c)) (n_unused_connections n) @
     map (\<lambda>(i, sn). node_ip q sn) (n_in_progress_connections n) @
     concat (map (\<lambda>t. concat (map (\<lambda>(info, cb). case rq_destination info of To_Node sn \<Rightarrow> [node_ip q sn] | To_Server s \<Rightarrow> [])
       (n_request_queue n t))) all_types) @
     concat (map (\<lambda>(s, count). if snode_failure_threshold \<le> count then [q_ipv4 q (takeWhile (\<lambda>ch. ch \<noteq> CHR '':'') s)] else [])
       (n_snode_failure_counts n))"

definition get_unused_nodes :: "net_env \<Rightarrow> network \<Rightarrow> service_node list" where
  "get_unused_nodes e n =
     (if length (n_snode_cache n) < min_snode_cache_size (n_seed_node_cache_size n) then []
      else e_shuffle_nodes e (filter (\<lambda>sn. node_ip (e_quic e) sn \<notin> set (excluded_ips (e_quic e) n)) (n_snode_cache n)))"

definition clear_empty_pending_path_drops :: "network \<Rightarrow> network" where
  "clear_empty_pending_path_drops n =
     (let remaining = filter (\<lambda>(p, t). 0 < num_pending n (pt_conn p)) (n_paths_pending_drop n);
          n = n\<lparr> n_paths_pending_drop := remaining \<rparr> in
      if remaining = [] \<and> n_paths n Standard = [] then update_status Disconnected n else n)"

definition drop_path_when_empty :: "path_type \<Rightarrow> onion_path \<Rightarrow> network \<Rightarrow> network" where
  "drop_path_when_empty t p n =
     clear_empty_pending_path_drops
       (n\<lparr> n_paths_pending_drop := n_paths_pending_drop n @ [(p, t)],
           n_paths := (n_paths n)(t := filter (\<lambda>p'. pt_nodes p' \<noteq> pt_nodes p) (n_paths n t)) \<rparr>)"

definition find_valid_path :: "net_env \<Rightarrow> network \<Rightarrow> request_info \<Rightarrow> onion_path list \<Rightarrow> onion_path option" where
  "find_valid_path e n info paths =
     (let possible = filter (path_valid n) paths;
          possible = (case node_for_destination (rq_destination info) of
              None \<Rightarrow> possible
            | Some target \<Rightarrow>
                let excluded = filter (\<lambda>p. \<not> contains_node p target) possible in
                if n_single_path_mode n \<and> excluded = [] then possible else excluded) in
      if possible = [] then None
      else
        let possible = e_shuffle_paths e possible in
        case path_selection_behaviour (rq_path_type info) of
          New_or_least_busy \<Rightarrow>
            let possible = sort_key (\<lambda>p. num_pending n (pt_conn p)) possible in
            if min_path_count (rq_path_type info) (n_single_path_mode n) \<le> length paths \<or> num_pending n (pt_conn (hd possible)) = 0
            then Some (hd possible) else None
        | Random_path \<Rightarrow> Some (hd possible))"

section \<open>Connections and paths\<close>

text \<open>A connection is not attempted while suspended: the callback gets an invalid connection at once.\<close>

definition path_connection_failed :: "string \<Rightarrow> network \<Rightarrow> network res" where
  "path_connection_failed path_id n =
     (let n = n\<lparr> n_connection_failures := n_connection_failures n + 1 \<rparr> in
      res_bind (retry_delay (n_connection_failures n)) (\<lambda>delay. Inr (post [Establish path_id] n)))"

definition path_connection_ready :: "net_env \<Rightarrow> string \<Rightarrow> connection_info \<Rightarrow> network \<Rightarrow> network" where
  "path_connection_ready e path_id info n =
     (let n = n\<lparr> n_unused_connections := n_unused_connections n @ [info] \<rparr>;
          n = (case n_path_build_queue n of
                 [] \<Rightarrow> n
               | t # ts \<Rightarrow> post [Build_path path_id t] (n\<lparr> n_in_progress_path_builds := smap_put path_id t (n_in_progress_path_builds n),
                   n_path_build_queue := ts \<rparr>)) in
      if n_path_build_queue n \<noteq> [] \<and> n_in_progress_connections n = []
      then post (map (\<lambda>i. Establish (e_ids e i)) [0..<length (n_path_build_queue n)]) n else n)"

definition refresh_connection_failed :: "string \<Rightarrow> network \<Rightarrow> network res" where
  "refresh_connection_failed request_id n =
     (let n = n\<lparr> n_refresh_failure_count := n_refresh_failure_count n + 1 \<rparr> in
      res_bind (retry_delay (n_refresh_failure_count n)) (\<lambda>delay. Inr (post [Refresh_from_seeds request_id] n)))"

definition connection_failed_callback :: "purpose \<Rightarrow> network \<Rightarrow> network res" where
  "connection_failed_callback p n =
     (case p of For_path i \<Rightarrow> path_connection_failed i n | For_refresh i \<Rightarrow> refresh_connection_failed i n)"

definition establish_connection :: "string \<Rightarrow> service_node \<Rightarrow> purpose \<Rightarrow> network \<Rightarrow> network res" where
  "establish_connection i target p n =
     (if n_suspended n then connection_failed_callback p n
      else Inr (n\<lparr> n_connecting := n_connecting n @ [(i, target, p)] \<rparr>))"

definition snode_cache_expiration :: int where "snode_cache_expiration = 2 * 3600"

definition to_seconds :: "int \<Rightarrow> int" where
  "to_seconds ms = (if ms < 0 then - (- ms div 1000) else ms div 1000)"

definition establish_and_store_connection :: "net_env \<Rightarrow> string \<Rightarrow> network \<Rightarrow> network res" where
  "establish_and_store_connection e path_id n =
     (if n_suspended n then Inr n
      else
        let n = (if n_status n = Unknown then update_status Connecting n else n);
            n = (if n_unused_nodes n = [] then n\<lparr> n_unused_nodes := get_unused_nodes e n \<rparr> else n) in
        if length (n_unused_nodes n) < min_snode_cache_size (n_seed_node_cache_size n)
        then Inr (post [Refresh_cache (Some path_id)] n)
        else
          let lifetime = to_seconds (e_now e - n_last_snode_cache_update n);
              n = (if lifetime < 0 \<or> snode_cache_expiration < lifetime then post [Refresh_cache None] n else n);
              n = (if n_in_progress_connections n = [] then n\<lparr> n_connection_failures := 0 \<rparr> else n);
              target = last (n_unused_nodes n);
              n = n\<lparr> n_unused_nodes := butlast (n_unused_nodes n),
                     n_in_progress_connections := smap_emplace path_id target (n_in_progress_connections n) \<rparr> in
          establish_connection path_id target (For_path path_id) n)"

text \<open>The nodes of a new path: the guard, then unused nodes with different addresses; \<open>None\<close> when they run out.\<close>

function pick_nodes :: "quic_lib \<Rightarrow> service_node list \<Rightarrow> service_node list \<Rightarrow> service_node list option \<times> service_node list" where
  "pick_nodes q path_nodes unused =
     (if path_size \<le> length path_nodes then (Some path_nodes, unused)
      else if unused = [] then (None, unused)
      else
        let node = last unused in
        pick_nodes q (if node_ip q node \<in> set (map (node_ip q) path_nodes) then path_nodes else path_nodes @ [node]) (butlast unused))"
  by auto
termination
  by (relation "measure (\<lambda>(q, p, u). length u)") auto

declare pick_nodes.simps [simp del]

text \<open>Queued requests a new path is valid for are resumed; when others remain, a further path is built.\<close>

definition resume_requests :: "net_env \<Rightarrow> path_type \<Rightarrow> onion_path \<Rightarrow> network \<Rightarrow> network" where
  "resume_requests e t p n =
     (let suits = (\<lambda>(info, cb). find_valid_path e n info [p] \<noteq> None);
          resumed = filter suits (n_request_queue n t); waiting = filter (\<lambda>r. \<not> suits r) (n_request_queue n t);
          n = post (map (\<lambda>(info, cb). Send_onion info cb) resumed) (n\<lparr> n_request_queue := (n_request_queue n)(t := waiting) \<rparr>) in
      if waiting \<noteq> [] then
        post [Build_path (e_ids e 1) t] (n\<lparr> n_in_progress_path_builds := smap_put (e_ids e 1) t (n_in_progress_path_builds n) \<rparr>)
      else n)"

definition finish_path :: "net_env \<Rightarrow> string \<Rightarrow> path_type \<Rightarrow> connection_info \<Rightarrow> service_node list \<Rightarrow> network \<Rightarrow> network" where
  "finish_path e path_id t conn nodes n =
     (let p = \<lparr> pt_id = path_id, pt_conn = conn, pt_nodes = nodes, pt_failure_count = 0 \<rparr>;
          n = n\<lparr> n_paths := (n_paths n)(t := n_paths n t @ [p]), n_in_progress_path_builds := smap_del path_id (n_in_progress_path_builds n) \<rparr>;
          n = (if t = Standard then update_status Connected n else n);
          n = n\<lparr> n_unused_nodes := filter (\<lambda>sn. node_ip (e_quic e) sn \<notin> set (map (node_ip (e_quic e)) nodes)) (n_unused_nodes n) \<rparr> in
      resume_requests e t p n)"

definition build_path :: "net_env \<Rightarrow> string \<Rightarrow> path_type \<Rightarrow> network \<Rightarrow> network res" where
  "build_path e path_id t n =
     (if n_suspended n then Inr n
      else if n_unused_connections n = [] then
        Inr (post [Establish path_id] (n\<lparr> n_path_build_queue := n_path_build_queue n @ [t],
          n_in_progress_path_builds := smap_del path_id (n_in_progress_path_builds n) \<rparr>))
      else
        let n = (if length (n_unused_nodes n) < path_size then n\<lparr> n_unused_nodes := get_unused_nodes e n \<rparr> else n) in
        if length (n_unused_nodes n) < path_size then
          Inr (post [Refresh_cache None] (n\<lparr> n_path_build_failures := 0, n_path_build_queue := n_path_build_queue n @ [t],
            n_in_progress_path_builds := smap_del path_id (n_in_progress_path_builds n) \<rparr>))
        else
          let n = n\<lparr> n_in_progress_path_builds := smap_put path_id t (n_in_progress_path_builds n) \<rparr>;
              conn = hd (n_unused_connections n) in
          case pick_nodes (e_quic e) [cn_node conn] (n_unused_nodes n) of
            (None, unused) \<Rightarrow>
              let n = n\<lparr> n_unused_nodes := unused, n_path_build_failures := n_path_build_failures n + 1 \<rparr> in
              res_bind (retry_delay (n_path_build_failures n)) (\<lambda>delay. Inr (post [Build_path path_id t] n))
          | (Some nodes, unused) \<Rightarrow>
              Inr (finish_path e path_id t conn nodes (n\<lparr> n_unused_nodes := unused, n_unused_connections := tl (n_unused_connections n) \<rparr>)))"

definition build_path_if_needed :: "net_env \<Rightarrow> path_type \<Rightarrow> bool \<Rightarrow> network \<Rightarrow> network res" where
  "build_path_if_needed e t found_path n =
     (let current = length (n_paths n t); min_paths = min_path_count t (n_single_path_mode n);
          pending = length (filter (\<lambda>t'. t' = t) (n_path_build_queue n)) + length (filter (\<lambda>(i, t'). t' = t) (n_in_progress_path_builds n)) in
      if 0 < current \<and> n_single_path_mode n then Inr n
      else if found_path \<and> min_paths \<le> current then Inr n
      else if current + pending < min_paths \<or> (\<not> found_path \<and> pending = 0) then build_path e (e_ids e 0) t n
      else Inr n)"

end
