(* ===== verification/Network_Requests.thy ===== *)
theory Network_Requests
  imports Network
begin

text \<open>
  Requests of the network layer: sending, responses, errors and retries, the refresh of the node cache, swarms,
  timeouts, the calls of the interface and the events of connections.
\<close>

section \<open>Responses\<close>

text \<open>The name and the value of every header; a value that is not a string throws, as does a list of headers.\<close>

definition json_headers :: "json \<Rightarrow> header_list res" where
  "json_headers j =
     (case j of
        JObj m \<Rightarrow> res_map (\<lambda>(k, v). res_bind (json_string v) (\<lambda>s. Inr (k, s))) m
      | JNull \<Rightarrow> Inr []
      | JArr [] \<Rightarrow> Inr []
      | _ \<Rightarrow> Inl Json_error)"

definition headers_of :: "json \<Rightarrow> header_list res" where
  "headers_of j = (if json_contains ''headers'' j then res_bind (json_at ''headers'' j) json_headers else Inr [])"

definition json_number :: "string \<Rightarrow> json \<Rightarrow> int res option" where
  "json_number k j =
     (if json_contains k j then
        (case json_at k j of Inr v \<Rightarrow> if json_is_number v then Some (json_int16 v) else None | Inl x \<Rightarrow> None)
      else None)"

definition process_v3_onion_response :: "net_env \<Rightarrow> builder \<Rightarrow> string \<Rightarrow> (int \<times> header_list \<times> string option) res" where
  "process_v3_onion_response e b response =
     (let base64 = (case json_parse (e_json e) response of
            Some j \<Rightarrow> if json_contains ''result'' j then (case json_at ''result'' j of Inr (JStr s) \<Rightarrow> s | _ \<Rightarrow> response) else response
          | None \<Rightarrow> response) in
      if \<not> is_base64 (e_enc e) base64 then Inl Runtime_error
      else
        res_bind (response_parser_of b) (\<lambda>rp.
        res_bind (response_decrypt (e_cry e) (e_ocry e) (e_curve e) rp (from_base64 (e_enc e) base64)) (\<lambda>result.
        case json_parse (e_json e) result of
          None \<Rightarrow> Inl Json_error
        | Some j \<Rightarrow>
            res_bind (case json_number ''status_code'' j of
                Some c \<Rightarrow> c
              | None \<Rightarrow> (case json_number ''status'' j of Some c \<Rightarrow> c | None \<Rightarrow> Inl Runtime_error)) (\<lambda>status_code.
            res_bind (headers_of j) (\<lambda>headers.
            res_bind (case (json_contains ''body'' j, json_at ''body'' j) of
                (True, Inr (JStr s)) \<Rightarrow> Inr s | _ \<Rightarrow> json_text (e_json e) j) (\<lambda>body.
              Inr (status_code, headers, Some body)))))))"

definition process_v4_onion_response :: "net_env \<Rightarrow> builder \<Rightarrow> string \<Rightarrow> (int \<times> header_list \<times> string option) res" where
  "process_v4_onion_response e b response =
     res_bind (response_parser_of b) (\<lambda>rp.
     res_bind (response_decrypt (e_cry e) (e_ocry e) (e_curve e) rp response) (\<lambda>result.
     case bt_decode (e_bt e) result of
       Some (BtList (BtStr info # rest)) \<Rightarrow>
         (case json_parse (e_json e) info of
            None \<Rightarrow> Inl Json_error
          | Some j \<Rightarrow>
              res_bind (case json_number ''code'' j of Some c \<Rightarrow> c | None \<Rightarrow> Inl Runtime_error) (\<lambda>status_code.
              res_bind (headers_of j) (\<lambda>headers.
              case rest of
                [] \<Rightarrow> Inr (status_code, headers, None)
              | BtStr body # _ \<Rightarrow> Inr (status_code, headers, Some body)
              | _ \<Rightarrow> Inl Bt_deserialize_invalid)))
     | Some (BtList _) \<Rightarrow> Inl Runtime_error
     | _ \<Rightarrow> Inl Bt_deserialize_invalid))"

text \<open>
  The results of a batch: their common status code, headers and body. The loop stops with the code 200 at a result
  without a code, and at one whose code is the same as the code before.
\<close>

definition result_code :: "json \<Rightarrow> int \<Rightarrow> int res option" where
  "result_code r current =
     (case json_number ''code'' r of
        None \<Rightarrow> None
      | Some (Inl x) \<Rightarrow> Some (Inl x)
      | Some (Inr c) \<Rightarrow> if current = - 1 \<or> c \<noteq> current then Some (Inr c) else None)"

fun batch_status :: "json list \<Rightarrow> int \<Rightarrow> header_list \<Rightarrow> string option \<Rightarrow> (int \<times> header_list \<times> string option) res" where
  "batch_status [] code headers body = Inr (code, headers, body)"
| "batch_status (r # rs) code headers body =
     (case result_code r code of
        None \<Rightarrow> Inr (200, headers, body)
      | Some c \<Rightarrow>
          res_bind c (\<lambda>code.
          res_bind (if json_contains ''headers'' r then headers_of r else Inr headers) (\<lambda>headers.
            batch_status rs code headers
              (case (json_contains ''body'' r, json_at ''body'' r) of (True, Inr (JStr s)) \<Rightarrow> Some s | _ \<Rightarrow> body))))"

definition json_items :: "json \<Rightarrow> json list" where
  "json_items j = (case j of JArr js \<Rightarrow> js | JObj m \<Rightarrow> map snd m | JNull \<Rightarrow> [] | _ \<Rightarrow> [j])"

definition success_code :: "int \<Rightarrow> bool" where
  "success_code c \<longleftrightarrow> 200 \<le> c \<and> c \<le> 299"

text \<open>What becomes of the response to an onion request: an answer for the callback, or an error to handle.\<close>

datatype outcome = Answer response | Failure int header_list string

definition onion_result :: "net_env \<Rightarrow> int \<times> header_list \<times> string option \<Rightarrow> outcome res" where
  "onion_result e processed =
     (case processed of (status_code, headers, body) \<Rightarrow>
        if \<not> success_code status_code then
          Inr (Failure status_code [content_type_plain_text] (case body of Some s \<Rightarrow> s | None \<Rightarrow> ''Request returned non-success status code.''))
        else
          let done = Answer \<lparr> rs_success = True, rs_timeout = False, rs_status = status_code, rs_headers = headers, rs_body = body \<rparr> in
          case Option.bind body (json_parse (e_json e)) of
            Some j \<Rightarrow>
              if json_contains ''results'' j then
                res_bind (json_at ''results'' j) (\<lambda>results.
                res_bind (batch_status (json_items results) (- 1) [content_type_plain_text] body) (\<lambda>(code, hs, error_body).
                  Inr (if success_code code then done
                       else Failure code hs (case error_body of Some s \<Rightarrow> s | None \<Rightarrow> ''Sub-request returned non-success status code.''))))
              else Inr done
          | None \<Rightarrow> Inr done)"

definition onion_outcome :: "net_env \<Rightarrow> builder \<Rightarrow> request_info \<Rightarrow> response \<Rightarrow> outcome res" where
  "onion_outcome e b info r =
     (case rs_body r of
        None \<Rightarrow> Inl Undefined_behaviour
      | Some body \<Rightarrow>
          if \<not> response_long_enough (b_enc_type b) (length body) then
            Inr (Failure (rs_status r) [content_type_plain_text] (''Response is too short to be an onion request response: '' @ body))
          else
            case res_bind (case rq_destination info of
                To_Node sn \<Rightarrow> process_v3_onion_response e b body | To_Server s \<Rightarrow> process_v4_onion_response e b body) (onion_result e) of
              Inr out \<Rightarrow> Inr out
            | Inl x \<Rightarrow> if x = Undefined_behaviour then Inl x else Inr (Failure (- 1) [content_type_plain_text] (what e x)))"

text \<open>A QUIC message and its validation; the left value is a \<open>status_code_exception\<close> or another exception (code -1).\<close>

record message =
  m_timed_out :: bool
  m_is_error :: bool
  m_body :: string

definition validate_response :: "net_env \<Rightarrow> message \<Rightarrow> (int \<times> header_list \<times> string) + (int \<times> string)" where
  "validate_response e m =
     (if m_timed_out m then Inl (- 1, [content_type_plain_text], ''Timed out'')
      else if m_is_error m then Inl (- 1, [content_type_plain_text], if m_body m = [] then ''Unknown error'' else m_body m)
      else
        let plain = (200, content_type_plain_text, m_body m);
            (status_code, content_type, response) =
              (case json_parse (e_json e) (m_body m) of
                 None \<Rightarrow> plain
               | Some (JArr [c, j]) \<Rightarrow>
                   (case (json_int16 c, json_text (e_json e) j) of
                      (Inr code, Inr s) \<Rightarrow> (code, content_type_json, s)
                    | (Inr code, Inl x) \<Rightarrow> (code, content_type_plain_text, m_body m)
                    | _ \<Rightarrow> plain)
               | Some j \<Rightarrow> (200, content_type_json, m_body m)) in
        if success_code status_code then Inr (status_code, response) else Inl (status_code, [content_type], response))"

section \<open>The node list of a seed node\<close>

text \<open>
  Reading a bencoded dict with a consumer: skipping to a key stops at the first key that is not smaller. A helper that
  takes the consumer by value leaves its position as it was.
\<close>

definition skip_until :: "string \<Rightarrow> bt_dict \<Rightarrow> bt_dict" where
  "skip_until key d = dropWhile (\<lambda>(k, v). k < key) d"

definition consume_entry :: "bt_dict \<Rightarrow> string \<Rightarrow> bt_value res" where
  "consume_entry d key =
     (case skip_until key d of (k, v) # _ \<Rightarrow> if k = key then Inr v else Inl Invalid_argument | [] \<Rightarrow> Inl Invalid_argument)"

definition consume_string_at :: "bt_dict \<Rightarrow> string \<Rightarrow> string res" where
  "consume_string_at d key = res_bind (consume_entry d key) (\<lambda>v. case v of BtStr s \<Rightarrow> Inr s | _ \<Rightarrow> Inl Bt_deserialize_invalid)"

definition bt_integer :: "int \<Rightarrow> int \<Rightarrow> bt_value \<Rightarrow> int res" where
  "bt_integer lo hi v = (case v of BtInt i \<Rightarrow> if lo \<le> i \<and> i \<le> hi then Inr i else Inl Overflow_error | _ \<Rightarrow> Inl Bt_deserialize_invalid)"

definition consume_integer_at :: "int \<Rightarrow> int \<Rightarrow> bt_dict \<Rightarrow> string \<Rightarrow> int res" where
  "consume_integer_at lo hi d key = res_bind (consume_entry d key) (bt_integer lo hi)"

text \<open>
  One node. The key is decoded without a check that it is hex; the version is the value at the position of its key, even when
  that is another key; it is not normalised.
\<close>

definition node_from_bt :: "quic_lib \<Rightarrow> encodings \<Rightarrow> bt_dict \<Rightarrow> service_node res" where
  "node_from_bt q enc d =
     res_bind (consume_string_at d ''pubkey_ed25519'') (\<lambda>hex.
     res_bind (guard (is_hex enc hex) Undefined_behaviour) (\<lambda>_.
     res_bind (consume_string_at d ''public_ip'') (\<lambda>ip.
     res_bind (consume_integer_at 0 (2 ^ 16 - 1) d ''storage_lmq_port'') (\<lambda>port.
     res_bind (guard (ip \<noteq> ''0.0.0.0'') Runtime_error) (\<lambda>_.
     res_bind (guard (port \<noteq> 0) Runtime_error) (\<lambda>_.
     case skip_until ''storage_server_version'' d of
       (k, BtList versions) # rest \<Rightarrow>
         res_bind (consume_integer_at 0 (2 ^ 64 - 1) rest ''swarm_id'') (\<lambda>swarm.
         res_bind (res_map (bt_integer (- (2 ^ 31)) (2 ^ 31 - 1)) versions) (\<lambda>version.
           make_node q (from_hex enc hex) version (word_of_int swarm) ip port))
     | _ \<Rightarrow> Inl Bt_deserialize_invalid))))))"

text \<open>
  One iteration of the loop over the nodes. Its state is the list from the position of the consumer on and the nodes read so
  far. \<open>consume_dict_consumer\<close> moves past a dict, and throws before it moves at any other value; every exception is caught
  inside the loop.
\<close>

type_synonym node_scan = "bt_value list \<times> service_node list"

definition bt_node_iter :: "quic_lib \<Rightarrow> encodings \<Rightarrow> node_scan \<Rightarrow> node_scan res" where
  "bt_node_iter q enc = (\<lambda>(node, result).
     case node of
       BtDict d # rest \<Rightarrow>
         (case node_from_bt q enc d of
            Inr sn \<Rightarrow> Inr (rest, result @ [sn])
          | Inl x \<Rightarrow> if x = Undefined_behaviour then Inl x else Inr (rest, result))
     | _ \<Rightarrow> Inr (node, result))"

text \<open>The loop; \<open>None\<close> is a run that does not end.\<close>

partial_function (option) bt_nodes_loop :: "quic_lib \<Rightarrow> encodings \<Rightarrow> node_scan \<Rightarrow> service_node list res option" where
  "bt_nodes_loop q enc st =
     (if fst st = [] then Some (Inr (snd st))
      else case bt_node_iter q enc st of Inl x \<Rightarrow> Some (Inl x) | Inr st' \<Rightarrow> bt_nodes_loop q enc st')"

declare bt_nodes_loop.simps [code]

definition bt_nodes :: "quic_lib \<Rightarrow> encodings \<Rightarrow> bt_value list \<Rightarrow> service_node list res" where
  "bt_nodes q enc vs = (case bt_nodes_loop q enc (vs, []) of Some r \<Rightarrow> r | None \<Rightarrow> Inl Nontermination)"

definition process_bt_service_nodes :: "quic_lib \<Rightarrow> encodings \<Rightarrow> bt_value list \<Rightarrow> service_node list res" where
  "process_bt_service_nodes q enc result =
     (case drop 1 result of
        BtDict response # _ \<Rightarrow>
          (case skip_until ''result'' response of
             (_, BtDict r) # _ \<Rightarrow>
               (case skip_until ''service_node_states'' r of (_, BtList vs) # _ \<Rightarrow> bt_nodes q enc vs | _ \<Rightarrow> Inl Bt_deserialize_invalid)
           | _ \<Rightarrow> Inl Bt_deserialize_invalid)
      | _ \<Rightarrow> Inl Bt_deserialize_invalid)"

definition validate_bencoded :: "libs \<Rightarrow> message \<Rightarrow> bt_value list res" where
  "validate_bencoded x m =
     (if m_timed_out m \<or> m_is_error m then Inl Runtime_error
      else
        case bt_decode x (m_body m) of
          Some (BtList (BtInt c # rest)) \<Rightarrow>
            res_bind (bt_integer (- (2 ^ 15)) (2 ^ 15 - 1) (BtInt c)) (\<lambda>c.
              if success_code c then Inr (BtInt c # rest) else Inl Runtime_error)
        | Some (BtList _) \<Rightarrow> Inl Runtime_error
        | _ \<Rightarrow> Inl Bt_deserialize_invalid)"

text \<open>The answer to \<open>get_service_nodes\<close>: no nodes after any exception; a body that is not bencoded is refused as a whole.\<close>

definition seed_result :: "net_env \<Rightarrow> message \<Rightarrow> service_node list option res" where
  "seed_result e m =
     (case res_bind (validate_bencoded (e_bt e) m) (process_bt_service_nodes (e_quic e) (e_enc e)) of
        Inr nodes \<Rightarrow> Inr (Some nodes)
      | Inl x \<Rightarrow> if x = Undefined_behaviour \<or> x = Nontermination then Inl x else Inr None)"

section \<open>Errors\<close>

definition node_not_found_prefix :: string where
  "node_not_found_prefix = ''502 Bad Gateway'' @ [CHR 0x0A, CHR 0x0A] @ ''Next node not found: ''"

definition node_not_found_prefix_no_status :: string where
  "node_not_found_prefix_no_status = ''Next node not found: ''"

definition http_errors :: "(string \<times> int \<times> bool) list" where
  "http_errors = [(''400 Bad Request'', 400, False), (''403 Forbidden'', 403, False), (''500 Internal Server Error'', 500, False),
     (''502 Bad Gateway'', 502, False), (''503 Service Unavailable'', 503, False), (''504 Gateway Timeout'', 504, True)]"

definition extract_status :: "bool \<Rightarrow> int \<Rightarrow> string option \<Rightarrow> bool \<times> int" where
  "extract_status timeout status_code response =
     (case response of
        Some r \<Rightarrow>
          if status_code = - 1 then
            fold (\<lambda>(p, code, tmo) (t, c). if prefix p r then (t \<or> tmo, code) else (t, c)) http_errors (timeout, status_code)
          else (timeout, status_code)
      | None \<Rightarrow> (timeout, status_code))"

text \<open>The other nodes of a swarm in random order.\<close>

definition other_nodes :: "net_env \<Rightarrow> service_node \<Rightarrow> service_node list \<Rightarrow> service_node list" where
  "other_nodes e target swarm = e_shuffle_nodes e (filter (\<lambda>sn. sn \<noteq> target) swarm)"

text \<open>
  A 421 error: \<open>Some\<close> is the state after a retry has been scheduled, \<open>None\<close> means that it is handled like
  any other error.
\<close>

definition handle_redirect ::
  "net_env \<Rightarrow> request_info \<Rightarrow> int \<Rightarrow> header_list \<Rightarrow> string option \<Rightarrow> callback \<Rightarrow> network \<Rightarrow> network option" where
  "handle_redirect e info status_code headers response cb n =
     (case (node_for_destination (rq_destination info), rq_swarm_pubkey info) of
        (Some target, Some pk) \<Rightarrow>
          (case (case rq_retry_reason info of Some r \<Rightarrow> r | None \<Rightarrow> Retry_none) of
             Redirect \<Rightarrow> Some (post [Refresh_cache (Some (rq_id info))]
               (n\<lparr> n_after_refresh := n_after_refresh n @ [Get_swarm pk (Retry info status_code headers response cb)] \<rparr>))
           | Redirect_swarm_refresh \<Rightarrow> None
           | _ \<Rightarrow>
               (case map_of (n_swarm_cache n) (to_hex (e_enc e) pk) of
                  None \<Rightarrow> None
                | Some (i, swarm) \<Rightarrow>
                    (case other_nodes e target swarm of
                       [] \<Rightarrow> None
                     | sn # _ \<Rightarrow> Some (post [Send_onion (info\<lparr> rq_destination := To_Node sn, rq_retry_reason := Some Redirect \<rparr>) cb] n))))
      | _ \<Rightarrow> None)"

text \<open>The public key of a node that was not found; the text ends at the first null byte.\<close>

definition missing_node :: "encodings \<Rightarrow> string \<Rightarrow> bytes option" where
  "missing_node enc response =
     (let rest = (if prefix node_not_found_prefix response then Some (drop (length node_not_found_prefix) response)
                  else if prefix node_not_found_prefix_no_status response then Some (drop (length node_not_found_prefix_no_status) response)
                  else None) in
      case map_option (takeWhile (\<lambda>ch. ch \<noteq> CHR 0x00)) rest of
        Some key \<Rightarrow> if length key = 64 \<and> is_hex enc key then Some (from_hex enc key) else None
      | None \<Rightarrow> None)"

definition set_failures :: "service_node \<Rightarrow> nat \<Rightarrow> network \<Rightarrow> network" where
  "set_failures sn k n = n\<lparr> n_snode_failure_counts := smap_put (node_string sn) k (n_snode_failure_counts n) \<rparr>"

definition add_failure :: "service_node \<Rightarrow> network \<Rightarrow> network" where
  "add_failure sn n =
     set_failures sn (((case map_of (n_snode_failure_counts n) (node_string sn) of Some k \<Rightarrow> k | None \<Rightarrow> 0) + 1) mod 256) n"

text \<open>An explicitly missing node of the path is replaced, unless it is the guard or no unused node is left.\<close>

definition repair_path :: "bytes \<Rightarrow> onion_path \<Rightarrow> network \<Rightarrow> bool \<times> onion_path \<times> network" where
  "repair_path key p n =
     (case find_index (\<lambda>sn. sn_key sn = key) (pt_nodes p) of
        None \<Rightarrow> (False, p, n)
      | Some i \<Rightarrow>
          let n = set_failures (pt_nodes p ! i) snode_failure_threshold n in
          if i = 0 \<or> n_unused_nodes n = [] then (True, p\<lparr> pt_failure_count := path_failure_threshold \<rparr>, n)
          else (True, p\<lparr> pt_nodes := (pt_nodes p)[i := last (n_unused_nodes n)] \<rparr>,
                n\<lparr> n_unused_nodes := butlast (n_unused_nodes n) \<rparr>))"

definition count_path_failure :: "onion_path \<Rightarrow> network \<Rightarrow> onion_path \<times> network" where
  "count_path_failure p n =
     (let p = p\<lparr> pt_failure_count := (pt_failure_count p + 1) mod 256 \<rparr> in
      if path_failure_threshold \<le> pt_failure_count p then
        (p, set_failures (hd (pt_nodes p)) snode_failure_threshold (fold add_failure (pt_nodes p) n))
      else if length (pt_nodes p) < path_size then (p, add_failure (hd (pt_nodes p)) n)
      else (p, n))"

definition guarded_by :: "service_node \<Rightarrow> onion_path \<Rightarrow> bool" where
  "guarded_by sn p \<longleftrightarrow> pt_nodes p \<noteq> [] \<and> hd (pt_nodes p) = sn"

text \<open>
  \<open>std::replace\<close> with a reference to the first matching element: once that is replaced, the others are compared
  with the new value.
\<close>

definition replace_path :: "nat \<Rightarrow> onion_path \<Rightarrow> onion_path list \<Rightarrow> onion_path list" where
  "replace_path i p ps = take i ps @ [p] @ map (\<lambda>p'. if pt_nodes p' = pt_nodes p then p else p') (drop (i + 1) ps)"

definition fail_path :: "net_env \<Rightarrow> request_info \<Rightarrow> connection_info \<Rightarrow> string option \<Rightarrow> network \<Rightarrow> network" where
  "fail_path e info conn response n =
     (let t = rq_path_type info; active = find_index (guarded_by (cn_node conn)) (n_paths n t);
          found = (case active of Some i \<Rightarrow> Some (n_paths n t ! i)
                   | None \<Rightarrow> map_option fst (find (\<lambda>(p, t'). guarded_by (cn_node conn) p) (n_paths_pending_drop n))) in
      case found of
        None \<Rightarrow> n
      | Some p \<Rightarrow>
          let (found_invalid, p', n) =
                (case Option.bind response (missing_node (e_enc e)) of Some key \<Rightarrow> repair_path key p n | None \<Rightarrow> (False, p, n));
              (p', n) = (if \<not> found_invalid \<or> \<not> valid_conn n (pt_conn p') then count_path_failure p' n else (p', n)) in
          case active of
            None \<Rightarrow> n
          | Some i \<Rightarrow>
              if path_failure_threshold \<le> pt_failure_count p' then drop_path_when_empty t p n
              else n\<lparr> n_paths := (n_paths n)(t := replace_path i p' (n_paths n t)) \<rparr>)"

text \<open>
  The result: the new state and the response the callback is called with; \<open>None\<close> when the callback was kept for
  a retry.
\<close>

definition handle_errors ::
  "net_env \<Rightarrow> request_info \<Rightarrow> connection_info \<Rightarrow> bool \<Rightarrow> int \<Rightarrow> header_list \<Rightarrow> string option \<Rightarrow> callback \<Rightarrow> network \<Rightarrow>
   network \<times> response option" where
  "handle_errors e info conn timeout status_code headers response cb n =
     (if rq_retry_reason info = None \<and> response = Some decryption_failed_error
      then (post [Send_onion (info\<lparr> rq_retry_reason := Some Decryption_failure \<rparr>) cb] n, None)
      else
        let (timeout, status_code) = extract_status timeout status_code response;
            respond = (\<lambda>tmo. Some \<lparr> rs_success = False, rs_timeout = tmo, rs_status = status_code, rs_headers = headers, rs_body = response \<rparr>) in
        if \<not> rq_node_destination info \<and> timeout then (n, respond True)
        else if status_code \<in> {400, 404, 406, 425} then (n, respond False)
        else case (if status_code = 421 then handle_redirect e info status_code headers response cb n else None) of
            Some n \<Rightarrow> (n, None)
          | None \<Rightarrow>
              if status_code \<in> {500, 504} \<and> \<not> rq_node_destination info then (n, respond timeout)
              else (fail_path e info conn response n, respond timeout))"

section \<open>The cache of service nodes\<close>

text \<open>The order by address, key, swarm and version, and the intersection of two lists sorted by it.\<close>

definition node_order :: "quic_lib \<Rightarrow> service_node \<Rightarrow> 32 word \<times> int \<times> bytes \<times> swarm_id \<times> int list" where
  "node_order q n = (node_ip q n, sn_port n, sn_key n, sn_swarm_id n, sn_version n)"

fun set_intersection :: "('a \<Rightarrow> 'b :: linorder) \<Rightarrow> 'a list \<Rightarrow> 'a list \<Rightarrow> 'a list" where
  "set_intersection key [] ys = []"
| "set_intersection key xs [] = []"
| "set_intersection key (x # xs) (y # ys) =
     (if key x < key y then set_intersection key xs (y # ys)
      else if key y < key x then set_intersection key (x # xs) ys
      else x # set_intersection key xs ys)"

definition refresh_snode_cache_complete :: "net_env \<Rightarrow> service_node list \<Rightarrow> network \<Rightarrow> network" where
  "refresh_snode_cache_complete e nodes n =
     (let nodes = e_shuffle_nodes e nodes;
          queued = zip (map (e_ids e) [0..<length (n_path_build_queue n)]) (n_path_build_queue n) in
      post (n_after_refresh n @ map (\<lambda>(i, t). Build_path i t) queued)
        (n\<lparr> n_snode_cache := nodes, n_last_snode_cache_update := e_now e, n_need_write := True,
            n_current_refresh_id := None, n_refresh_failure_count := 0, n_in_progress_refresh_count := 0,
            n_unused_refresh_nodes := None, n_refresh_results := None, n_snode_failure_counts := [],
            n_all_swarms := generate_swarms nodes, n_swarm_cache := [], n_after_refresh := [],
            n_in_progress_path_builds := fold (\<lambda>(i, t). smap_put i t) queued (n_in_progress_path_builds n),
            n_path_build_queue := [] \<rparr>))"

definition seed_nodes :: "net_env \<Rightarrow> bool \<Rightarrow> service_node list res" where
  "seed_nodes e testnet =
     res_map (\<lambda>s. node_from_disk (e_quic e) (e_enc e) s False)
       (if testnet then [''95.216.33.113|35400|2.8.0|decaf007f26d3d6f9b845ad031ffdf6d04638c25bb10b8fffbbe99135303c4b9|'']
        else
         [''95.216.33.113|20200|2.8.0|1f000f09a7b07828dcb72af7cd16857050c10c02bd58afb0e38111fb6cda1fef|'',
          ''37.27.236.229|20201|2.8.0|1f101f0acee4db6f31aaa8b4df134e85ca8a4878efaef7f971e88ab144c1a7ce|'',
          ''172.96.140.124|20202|2.8.0|1f202f00f4d2d4acc01e20773999a291cf3e3136c325474d159814e06199919f|'',
          ''208.73.207.54|20203|2.8.0|1f303f1d7523c46fa5398826740d13282d26b5de90fbae5749442f66afb6d78b|'',
          ''104.194.8.115|20204|2.8.0|1f604f1c858a121a681d8f9b470ef72e6946ee1b9c5ad15a35e16b50c28db7b0|''])"

definition refresh_from_seed_nodes :: "net_env \<Rightarrow> string \<Rightarrow> bool \<Rightarrow> network \<Rightarrow> network res" where
  "refresh_from_seed_nodes e request_id reset_unused_nodes n =
     (if n_suspended n then Inr n
      else if n_current_refresh_id n \<noteq> None \<and> n_current_refresh_id n \<noteq> Some request_id then Inr n
      else
        res_bind (case n_unused_refresh_nodes n of
            Some (sn # sns) \<Rightarrow> if reset_unused_nodes then res_bind (seed_nodes e (n_use_testnet n)) (\<lambda>s. Inr (e_shuffle_nodes e s)) else Inr (sn # sns)
          | _ \<Rightarrow> res_bind (seed_nodes e (n_use_testnet n)) (\<lambda>s. Inr (e_shuffle_nodes e s))) (\<lambda>candidates.
          establish_connection request_id (last candidates) (For_refresh request_id)
            (n\<lparr> n_unused_refresh_nodes := Some (butlast candidates) \<rparr>)))"

text \<open>The response of a seed node: the nodes it lists, none after an error.\<close>

definition seed_node_response :: "net_env \<Rightarrow> string \<Rightarrow> service_node list \<Rightarrow> network \<Rightarrow> network res" where
  "seed_node_response e request_id nodes n =
     (if nodes = [] then refresh_connection_failed request_id n
      else Inr (refresh_snode_cache_complete e nodes (n\<lparr> n_seed_node_cache_size := Some (length nodes) \<rparr>)))"

definition refresh_nodes :: "net_env \<Rightarrow> response \<Rightarrow> service_node list res" where
  "refresh_nodes e r =
     (if \<not> rs_success r \<or> rs_timeout r then Inl Runtime_error
      else case rs_body r of
          None \<Rightarrow> Inl Runtime_error
        | Some body \<Rightarrow> (case json_parse (e_json e) body of
            None \<Rightarrow> Inl Json_error
          | Some j \<Rightarrow> process_get_service_nodes_response (e_quic e) (e_enc e) j))"

definition refresh_response :: "net_env \<Rightarrow> string \<Rightarrow> response \<Rightarrow> network \<Rightarrow> network res" where
  "refresh_response e request_id r n =
     (case n_refresh_results n of
        None \<Rightarrow> Inr n
      | Some results \<Rightarrow>
          (case refresh_nodes e r of
             Inl x \<Rightarrow>
               let n = n\<lparr> n_refresh_failure_count := n_refresh_failure_count n + 1 \<rparr> in
               res_bind (retry_delay (n_refresh_failure_count n)) (\<lambda>delay. Inr (post [Refresh_cache (Some request_id)] n))
           | Inr nodes \<Rightarrow>
               let results = results @ [nodes];
                   n = n\<lparr> n_refresh_results := Some results, n_in_progress_refresh_count := n_in_progress_refresh_count n - 1 \<rparr> in
               if length results \<noteq> num_snodes_to_refresh_cache_from then Inr n
               else if list_ex (\<lambda>ns. ns = []) results then
                 Inr (n\<lparr> n_current_refresh_id := None, n_refresh_failure_count := 0, n_in_progress_refresh_count := 0, n_refresh_results := None \<rparr>)
               else
                 let sorted = map (sort_key (node_order (e_quic e))) results in
                 Inr (refresh_snode_cache_complete e (fold (\<lambda>ys xs. set_intersection (node_order (e_quic e)) xs ys) (tl sorted) (hd sorted)) n)))"

section \<open>Callbacks and requests\<close>

fun call_back :: "net_env \<Rightarrow> callback \<Rightarrow> response \<Rightarrow> network \<Rightarrow> network res" where
  "call_back e (User k) r n = Inr (answer k (Response r) n)"
| "call_back e (Refresh request_id) r n = refresh_response e request_id r n"
| "call_back e (Wrapper b info p cb) r n =
     (if \<not> rs_success r \<or> rs_timeout r then call_back e cb r n
      else
        res_bind (onion_outcome e b info r) (\<lambda>out.
          case out of
            Answer r' \<Rightarrow> call_back e cb r' n
          | Failure code headers text \<Rightarrow>
              (case handle_errors e info (pt_conn p) False code headers (Some text) cb n of
                 (n', None) \<Rightarrow> Inr n'
               | (n', Some r') \<Rightarrow> call_back e cb r' n')))"

definition send_request :: "net_env \<Rightarrow> request_info \<Rightarrow> connection_info \<Rightarrow> callback \<Rightarrow> network \<Rightarrow> network res" where
  "send_request e info conn cb n =
     (if \<not> valid_conn n conn then call_back e cb (failure_response False (- 1) ''Network is unreachable.'') n
      else if (case rq_build_timeout info of Some t \<Rightarrow> t - (e_now e - rq_creation_time info) < 0 | None \<Rightarrow> False)
      then call_back e cb (failure_response True error_path_build_timeout ''Path Build Timed Out.'') n
      else Inr ((add_pending_request conn n)\<lparr> n_commands := n_commands n @ [Request info conn cb] \<rparr>))"

text \<open>The builder is made outside of the \<open>try\<close> block, the request generated inside.\<close>

definition generate :: "net_env \<Rightarrow> builder \<Rightarrow> request_info \<Rightarrow> (request_info \<times> builder) res" where
  "generate e b info =
     res_bind (generate_payload (e_json e) (e_bt e) (rq_original_body info) b) (\<lambda>payload.
     res_bind (build (e_cry e) (e_ocry e) (e_curve e) (e_enc e) (e_json e) (e_eph e) (e_rnd e) payload b) (\<lambda>(body, b).
       Inr (info\<lparr> rq_body := Some body \<rparr>, b)))"

definition send_onion_request_impl :: "net_env \<Rightarrow> request_info \<Rightarrow> callback \<Rightarrow> network \<Rightarrow> network res" where
  "send_onion_request_impl e info cb n =
     (let path = find_valid_path e n info (n_paths n (rq_path_type info));
          n = post [Build_path_if_needed (rq_path_type info) (path \<noteq> None)] n in
      case path of
        None \<Rightarrow>
          if n_suspended n then call_back e cb (failure_response False error_network_suspended ''Network is suspended.'') n
          else
            let t = rq_path_type info; n = n\<lparr> n_request_queue := (n_request_queue n)(t := n_request_queue n t @ [(info, cb)]) \<rparr> in
            Inr (if rq_build_timeout info \<noteq> None then post [Check_timeouts] n else n)
      | Some p \<Rightarrow>
          res_bind (builder_make (e_curve e) (rq_destination info) (pt_nodes p) XChaCha20) (\<lambda>b.
            case generate e b info of
              Inl x \<Rightarrow> if x = Undefined_behaviour then Inl x
                else call_back e cb (failure_response False error_building_onion_request (what e x)) n
            | Inr (info, b) \<Rightarrow> send_request e info (pt_conn p) (Wrapper b info p cb) n))"

definition get_service_nodes_payload :: json where
  "get_service_nodes_payload =
     json_object [(''method'', JStr ''oxend_request''),
       (''params'', json_object [(''endpoint'', JStr ''get_service_nodes''),
          (''params'', json_object [(''active_only'', JBool True),
             (''fields'', json_object (map (\<lambda>f. (f, JBool True))
               [''public_ip'', ''pubkey_ed25519'', ''storage_lmq_port'', ''storage_server_version'', ''swarm_id'']))])])]"

definition refresh_snode_cache :: "net_env \<Rightarrow> string option \<Rightarrow> network \<Rightarrow> network res" where
  "refresh_snode_cache e existing_request_id n =
     (let request_id = (case existing_request_id of Some i \<Rightarrow> i | None \<Rightarrow> e_ids e 0) in
      if n_suspended n then Inr n
      else if n_current_refresh_id n \<noteq> None \<and> n_current_refresh_id n \<noteq> Some request_id then Inr n
      else
        let n = (if n_current_refresh_id n = None then
                   n\<lparr> n_refresh_failure_count := 0, n_in_progress_refresh_count := 0, n_current_refresh_id := Some request_id, n_refresh_results := Some [] \<rparr>
                 else n);
            n = (if length (n_unused_nodes n) < min_snode_cache_size (n_seed_node_cache_size n) then n\<lparr> n_unused_nodes := get_unused_nodes e n \<rparr> else n) in
        if length (n_unused_nodes n) < min_snode_cache_size (n_seed_node_cache_size n) then refresh_from_seed_nodes e request_id True n
        else
          let target = last (n_unused_nodes n);
              n = n\<lparr> n_unused_nodes := butlast (n_unused_nodes n), n_in_progress_refresh_count := n_in_progress_refresh_count n + 1 \<rparr>;
              n = (if n_in_progress_refresh_count n < int num_snodes_to_refresh_cache_from then post [Refresh_cache (Some request_id)] n else n) in
          res_bind (json_text (e_json e) get_service_nodes_payload) (\<lambda>body.
            send_onion_request_impl e
              (make_request e (To_Node target) (Some body) None (e_default_timeout e) None Standard (Some request_id)) (Refresh request_id) n))"

section \<open>Swarms, random nodes and timeouts\<close>

definition swarm_reply :: "net_env \<Rightarrow> swarm_callback \<Rightarrow> swarm \<Rightarrow> network \<Rightarrow> network res" where
  "swarm_reply e cb s n =
     (case cb of
        User_swarm k \<Rightarrow> Inr (answer k (Swarm s) n)
      | Retry info status_code headers response cb \<Rightarrow>
          (case node_for_destination (rq_destination info) of
             None \<Rightarrow> Inl Undefined_behaviour
           | Some target \<Rightarrow>
               (case other_nodes e target (snd s) of
                  [] \<Rightarrow> call_back e cb \<lparr> rs_success = False, rs_timeout = False, rs_status = status_code, rs_headers = headers, rs_body = response \<rparr> n
                | sn # _ \<Rightarrow> Inr (post [Send_onion (info\<lparr> rq_retry_reason := Some Redirect_swarm_refresh, rq_destination := To_Node sn \<rparr>) cb] n))))"

definition get_swarm :: "net_env \<Rightarrow> bytes \<Rightarrow> swarm_callback \<Rightarrow> network \<Rightarrow> network res" where
  "get_swarm e pk cb n =
     (case map_of (n_swarm_cache n) (to_hex (e_enc e) pk) of
        Some (i, sn # sns) \<Rightarrow> swarm_reply e cb (i, sn # sns) n
      | _ \<Rightarrow>
          if n_snode_cache n = [] \<or> n_all_swarms n = [] then
            Inr (post [Refresh_cache None] (n\<lparr> n_after_refresh := n_after_refresh n @ [Get_swarm pk cb] \<rparr>))
          else if length (n_all_swarms n) = 1 then swarm_reply e cb (hd (n_all_swarms n)) n
          else
            let s = closest_swarm (n_all_swarms n) (pubkey_to_swarm_space pk) in
            swarm_reply e cb s (n\<lparr> n_swarm_cache := smap_put (to_hex (e_enc e) pk) s (n_swarm_cache n) \<rparr>))"

definition get_random_nodes :: "net_env \<Rightarrow> nat \<Rightarrow> nat \<Rightarrow> network \<Rightarrow> network" where
  "get_random_nodes e cnt k n =
     (let n = (if length (n_unused_nodes n) < cnt then n\<lparr> n_unused_nodes := get_unused_nodes e n \<rparr> else n) in
      if length (n_unused_nodes n) < cnt then
        post [Refresh_cache None] (n\<lparr> n_after_refresh := n_after_refresh n @ [Get_random_nodes cnt k] \<rparr>)
      else answer k (Nodes (take cnt (n_unused_nodes n))) (n\<lparr> n_unused_nodes := drop cnt (n_unused_nodes n) \<rparr>))"

definition timed_out :: "net_env \<Rightarrow> request_info \<Rightarrow> bool" where
  "timed_out e info = (case rq_build_timeout info of Some t \<Rightarrow> t < e_now e - rq_creation_time info | None \<Rightarrow> False)"

definition check_queue :: "net_env \<Rightarrow> path_type \<Rightarrow> network \<Rightarrow> network res" where
  "check_queue e t n =
     (let (expired, kept) = partition (\<lambda>(info, cb). timed_out e info) (n_request_queue n t) in
      res_fold (\<lambda>(info, cb). call_back e cb (failure_response True error_path_build_timeout ''Timed out waiting for path build.'')) expired
        (n\<lparr> n_request_queue := (n_request_queue n)(t := kept) \<rparr>))"

definition check_request_queue_timeouts :: "net_env \<Rightarrow> string option \<Rightarrow> network \<Rightarrow> network res" where
  "check_request_queue_timeouts e timeout_id n =
     (if n_suspended n then Inr n
      else if n_request_timeout_id n \<noteq> timeout_id then Inr n
      else
        let n = (if n_request_timeout_id n = None then n\<lparr> n_request_timeout_id := Some (e_ids e 0) \<rparr> else n) in
        res_bind (res_fold (check_queue e) all_types n) (\<lambda>n.
          Inr (if list_ex (\<lambda>t. list_ex (\<lambda>(info, cb). rq_build_timeout info \<noteq> None) (n_request_queue n t)) all_types
               then post [Recheck_timeouts] n else n\<lparr> n_request_timeout_id := None \<rparr>)))"

section \<open>Jobs, calls and events\<close>

definition run_task :: "net_env \<Rightarrow> task \<Rightarrow> network \<Rightarrow> network res" where
  "run_task e t n =
     (case t of
        Build_path i pt \<Rightarrow> build_path e i pt n
      | Build_path_if_needed pt found \<Rightarrow> build_path_if_needed e pt found n
      | Establish i \<Rightarrow> establish_and_store_connection e i n
      | Refresh_cache i \<Rightarrow> refresh_snode_cache e i n
      | Refresh_from_seeds i \<Rightarrow> refresh_from_seed_nodes e i False n
      | Send_onion info cb \<Rightarrow> send_onion_request_impl e info cb n
      | Check_timeouts \<Rightarrow> check_request_queue_timeouts e None n
      | Recheck_timeouts \<Rightarrow> check_request_queue_timeouts e (n_request_timeout_id n) n
      | Get_swarm pk cb \<Rightarrow> get_swarm e pk cb n
      | Get_random_nodes cnt k \<Rightarrow> Inr (get_random_nodes e cnt k n))"

definition send_onion_request ::
  "net_env \<Rightarrow> network_destination \<Rightarrow> bytes option \<Rightarrow> bytes option \<Rightarrow> nat \<Rightarrow> int \<Rightarrow> int option \<Rightarrow> path_type \<Rightarrow> network \<Rightarrow> network res" where
  "send_onion_request e dest body swarm_pk k request_timeout build_timeout t n =
     send_onion_request_impl e (make_request e dest body swarm_pk request_timeout build_timeout t None) (User k) n"

definition close_connections :: "net_env \<Rightarrow> network \<Rightarrow> network res" where
  "close_connections e n =
     res_bind (res_fold (\<lambda>(info, cb). call_back e cb (failure_response False error_network_suspended ''Network is suspended.''))
       (concat (map (n_request_queue n) all_types)) n) (\<lambda>n.
       Inr (update_status Disconnected
         (n\<lparr> n_open := [], n_request_queue := (\<lambda>t. []), n_paths := (\<lambda>t. []), n_path_build_queue := [], n_paths_pending_drop := [],
             n_unused_connections := [], n_in_progress_connections := [], n_refresh_results := None, n_current_refresh_id := None \<rparr>)))"

definition suspend :: "net_env \<Rightarrow> network \<Rightarrow> network res" where
  "suspend e n = close_connections e (n\<lparr> n_suspended := True \<rparr>)"

definition resume :: "network \<Rightarrow> network" where
  "resume n = n\<lparr> n_suspended := False \<rparr>"

definition clear_cache :: "network \<Rightarrow> network" where
  "clear_cache n = n\<lparr> n_need_clear_cache := True \<rparr>"

text \<open>Events of the QUIC library: a connection is established, its attempt fails, or it is closed later; a command is answered.\<close>

definition connection_established :: "net_env \<Rightarrow> service_node \<Rightarrow> purpose \<Rightarrow> network \<Rightarrow> network" where
  "connection_established e target p n =
     (let c = n_next_conn n; info = \<lparr> cn_node = target, cn_conn = Some c \<rparr>;
          n = n\<lparr> n_next_conn := c + 1, n_open := c # n_open n, n_pending := (n_pending n)(c := 0) \<rparr> in
      case p of
        For_path i \<Rightarrow> path_connection_ready e i info n
      | For_refresh i \<Rightarrow> (add_pending_request info n)\<lparr> n_commands := n_commands n @ [Get_service_nodes i info] \<rparr>)"

definition handshake_timeout_penalty :: "bool \<Rightarrow> service_node \<Rightarrow> network \<Rightarrow> network" where
  "handshake_timeout_penalty handshake_timeout target n = (if handshake_timeout then set_failures target snode_failure_threshold n else n)"

definition connection_failed :: "bool \<Rightarrow> service_node \<Rightarrow> purpose \<Rightarrow> network \<Rightarrow> network res" where
  "connection_failed handshake_timeout target p n =
     res_bind (connection_failed_callback p n) (\<lambda>n.
       Inr (handshake_timeout_penalty handshake_timeout target (clear_empty_pending_path_drops n)))"

definition uses_connection :: "conn_id \<Rightarrow> service_node \<Rightarrow> onion_path \<Rightarrow> bool" where
  "uses_connection c target p \<longleftrightarrow> guarded_by target p \<and> cn_conn (pt_conn p) = Some c"

definition connection_closed :: "conn_id \<Rightarrow> service_node \<Rightarrow> bool \<Rightarrow> network \<Rightarrow> network" where
  "connection_closed c target handshake_timeout n =
     (let n = n\<lparr> n_open := filter (\<lambda>i. i \<noteq> c) (n_open n),
                 n_unused_connections := filter (\<lambda>u. \<not> (cn_node u = target \<and> cn_conn u = Some c)) (n_unused_connections n) \<rparr>;
          n = fold (\<lambda>t n. case find (uses_connection c target) (n_paths n t) of
                Some p \<Rightarrow> drop_path_when_empty t p n | None \<Rightarrow> n) all_types n in
      handshake_timeout_penalty handshake_timeout target (clear_empty_pending_path_drops n))"

definition after_response :: "connection_info \<Rightarrow> network \<Rightarrow> network" where
  "after_response conn n = (if 0 < num_pending n conn then n else clear_empty_pending_path_drops n)"

definition request_answered :: "net_env \<Rightarrow> request_info \<Rightarrow> connection_info \<Rightarrow> callback \<Rightarrow> message \<Rightarrow> network \<Rightarrow> network res" where
  "request_answered e info conn cb m n =
     (let n = remove_pending_request conn n in
      case validate_response e m of
        Inl (code, headers, text) \<Rightarrow>
          (case handle_errors e info conn (m_timed_out m) code headers (Some text) cb n of
             (n', None) \<Rightarrow> Inr n'
           | (n', Some r) \<Rightarrow> call_back e cb r n')
      | Inr (code, body) \<Rightarrow>
          res_bind (call_back e cb \<lparr> rs_success = True, rs_timeout = False, rs_status = code, rs_headers = [], rs_body = Some body \<rparr> n) (\<lambda>n.
            Inr (after_response conn n)))"

definition service_nodes_answered :: "net_env \<Rightarrow> string \<Rightarrow> connection_info \<Rightarrow> message \<Rightarrow> network \<Rightarrow> network res" where
  "service_nodes_answered e request_id conn m n =
     (let n = remove_pending_request conn n in
      res_bind (seed_result e m) (\<lambda>result.
      case result of
        None \<Rightarrow> seed_node_response e request_id [] n
      | Some nodes \<Rightarrow> res_bind (seed_node_response e request_id nodes n) (\<lambda>n. Inr (after_response conn n))))"

end
