(* ===== verification/Network_Calls.thy ===== *)
theory Network_Calls
  imports Network_Requests
begin

text \<open>
  The network object as a whole: its construction from the cache on disk, the thread that writes the cache, file
  uploads and downloads, and the step relation of its event loop: any scheduled job may run next, any connection
  attempt or command may end, and the calls of the interface may arrive at any time, each step with its own clock,
  randomness and library answers.
\<close>

section \<open>The cache on disk\<close>

text \<open>The lines \<open>std::getline\<close> reads: the rest after the last newline counts when it is not empty.\<close>

fun file_lines :: "string \<Rightarrow> string \<Rightarrow> string list" where
  "file_lines line [] = (if line = [] then [] else [line])"
| "file_lines line (ch # s) = (if ch = CHR 0x0A then line # file_lines [] s else file_lines (line @ [ch]) s)"

definition load_nodes :: "quic_lib \<Rightarrow> encodings \<Rightarrow> string \<Rightarrow> service_node list" where
  "load_nodes q enc content =
     concat (map (\<lambda>line. case node_from_disk q enc line False of Inr sn \<Rightarrow> [sn] | Inl x \<Rightarrow> []) (file_lines [] content))"

text \<open>
  The directory of the cache: whether the testnet stub exists, and the pool file with its time. A pool of the other
  network is removed only when the stub says that it is from testnet.
\<close>

record cache_dir =
  cd_testnet :: bool
  cd_pool :: "(string \<times> int) option"

definition open_cache :: "bool \<Rightarrow> cache_dir \<Rightarrow> cache_dir" where
  "open_cache use_testnet d =
     (let d = (if use_testnet \<noteq> cd_testnet d \<and> cd_testnet d then \<lparr> cd_testnet = False, cd_pool = None \<rparr> else d) in
      if use_testnet then d\<lparr> cd_testnet := True \<rparr> else d)"

definition load_cache_from_disk :: "net_env \<Rightarrow> cache_dir \<Rightarrow> network \<Rightarrow> network \<times> cache_dir" where
  "load_cache_from_disk e d n =
     (let d = open_cache (n_use_testnet n) d in
      case cd_pool d of
        None \<Rightarrow> (n, d)
      | Some (content, time) \<Rightarrow>
          let loaded = load_nodes (e_quic e) (e_enc e) content in
          (n\<lparr> n_last_snode_cache_update := time, n_snode_cache := loaded, n_all_swarms := generate_swarms loaded \<rparr>, d))"

definition cache_content :: "encodings \<Rightarrow> service_node list \<Rightarrow> string" where
  "cache_content enc nodes = concat (map (\<lambda>sn. node_to_disk enc sn @ [CHR 0x0A]) nodes)"

definition write_cache :: "net_env \<Rightarrow> network \<times> cache_dir \<Rightarrow> network \<times> cache_dir" where
  "write_cache e = (\<lambda>(n, d).
     if n_need_write n
     then (n\<lparr> n_need_write := False \<rparr>, \<lparr> cd_testnet = n_use_testnet n \<or> cd_testnet d, cd_pool = Some (cache_content (e_enc e) (n_snode_cache n), e_now e) \<rparr>)
     else (n, d))"

definition clear_disk_cache :: "network \<times> cache_dir \<Rightarrow> network \<times> cache_dir" where
  "clear_disk_cache = (\<lambda>(n, d).
     if n_need_clear_cache n then (n\<lparr> n_snode_cache := [], n_need_clear_cache := False \<rparr>, \<lparr> cd_testnet = False, cd_pool = None \<rparr>) else (n, d))"

definition disk_write_thread_step :: "net_env \<Rightarrow> network \<times> cache_dir \<Rightarrow> network \<times> cache_dir" where
  "disk_write_thread_step e s = clear_disk_cache (write_cache e s)"

section \<open>Construction\<close>

text \<open>The status has no initial value in the code: it is whatever \<open>st\<close> the memory held.\<close>

definition empty_network :: "bool \<Rightarrow> bool \<Rightarrow> status \<Rightarrow> network" where
  "empty_network use_testnet single_path_mode st =
     \<lparr> n_use_testnet = use_testnet, n_single_path_mode = single_path_mode, n_seed_node_cache_size = None, n_snode_cache = [],
       n_last_snode_cache_update = 0, n_need_write = False, n_need_clear_cache = False, n_suspended = False, n_status = st,
       n_paths = (\<lambda>t. []), n_paths_pending_drop = [], n_unused_nodes = [], n_snode_failure_counts = [], n_all_swarms = [],
       n_swarm_cache = [], n_refresh_failure_count = 0, n_in_progress_refresh_count = 0, n_current_refresh_id = None, n_after_refresh = [],
       n_unused_refresh_nodes = None, n_refresh_results = None, n_connection_failures = 0, n_unused_connections = [],
       n_in_progress_connections = [], n_path_build_failures = 0, n_path_build_queue = [], n_in_progress_path_builds = [],
       n_request_timeout_id = None, n_request_queue = (\<lambda>t. []), n_tasks = [], n_connecting = [], n_commands = [],
       n_open = [], n_pending = (\<lambda>i. 0), n_next_conn = 0, n_answers = [] \<rparr>"

definition pre_build :: "net_env \<Rightarrow> network \<Rightarrow> network" where
  "pre_build e n =
     fold (\<lambda>i n. post [Build_path (e_ids e i) Standard]
         (n\<lparr> n_in_progress_path_builds := smap_put (e_ids e i) Standard (n_in_progress_path_builds n) \<rparr>))
       [0..<min_path_count Standard (n_single_path_mode n)] n"

definition make_network :: "net_env \<Rightarrow> cache_dir option \<Rightarrow> bool \<Rightarrow> bool \<Rightarrow> bool \<Rightarrow> status \<Rightarrow> network" where
  "make_network e cache use_testnet single_path_mode pre_build_paths st =
     (let n = empty_network use_testnet single_path_mode st;
          n = (case cache of None \<Rightarrow> n | Some d \<Rightarrow> fst (load_cache_from_disk e d n)) in
      if pre_build_paths then pre_build e n else n)"

section \<open>Uploads and downloads\<close>

definition upload_headers :: "string option \<Rightarrow> (string \<times> string) list option \<Rightarrow> (string \<times> string) list" where
  "upload_headers file_name given =
     (let headers = (case given of Some h \<Rightarrow> h | None \<Rightarrow> []); has = (\<lambda>k. k \<in> set (map fst headers)) in
      headers @
      (if has ''Content-Disposition'' then []
       else [(''Content-Disposition'', case file_name of Some f \<Rightarrow> ''attachment; filename='' @ [CHR 0x22] @ f @ [CHR 0x22] | None \<Rightarrow> ''attachment'')]) @
      (if has ''Content-Type'' then [] else [(''Content-Type'', ''application/octet-stream'')]))"

definition upload_file_to_server ::
  "net_env \<Rightarrow> bytes \<Rightarrow> server_destination \<Rightarrow> string option \<Rightarrow> nat \<Rightarrow> int \<Rightarrow> int option \<Rightarrow> network \<Rightarrow> network res" where
  "upload_file_to_server e data dest file_name k request_timeout build_timeout n =
     send_onion_request e (To_Server (dest\<lparr> sd_headers := Some (upload_headers file_name (sd_headers dest)) \<rparr>)) (Some data) None
       k request_timeout build_timeout Upload n"

definition download_file :: "net_env \<Rightarrow> server_destination \<Rightarrow> nat \<Rightarrow> int \<Rightarrow> int option \<Rightarrow> network \<Rightarrow> network res" where
  "download_file e dest k request_timeout build_timeout n =
     send_onion_request e (To_Server dest) None None k request_timeout build_timeout Download n"

text \<open>A URL that does not parse or has no path throws in the caller, before anything is sent.\<close>

definition download_url :: "net_env \<Rightarrow> string \<Rightarrow> bytes \<Rightarrow> nat \<Rightarrow> int \<Rightarrow> int option \<Rightarrow> network \<Rightarrow> network res" where
  "download_url e url pk k request_timeout build_timeout n =
     res_bind (parse_url url) (\<lambda>(proto, host, port, path).
       case path of
         None \<Rightarrow> Inl Invalid_argument
       | Some p \<Rightarrow> download_file e \<lparr> sd_protocol = proto, sd_host = host, sd_endpoint = p, sd_x25519_pubkey = pk, sd_port = map_option int port,
           sd_headers = None, sd_method = ''GET'' \<rparr> k request_timeout build_timeout n)"

section \<open>The event loop\<close>

text \<open>
  One step; the list holds the callbacks handed in by the user in this step. A step exists only for handlers that
  return: an exception that leaves a handler is no step.
\<close>

inductive net_step :: "network \<Rightarrow> nat list \<Rightarrow> network \<Rightarrow> bool" where
  job: "n_tasks n = ts @ t # ts' \<Longrightarrow> run_task e t (n\<lparr> n_tasks := ts @ ts' \<rparr>) = Inr n' \<Longrightarrow> net_step n [] n'"
| established: "n_connecting n = cs @ (i, target, p) # cs' \<Longrightarrow>
    net_step n [] (connection_established e target p (n\<lparr> n_connecting := cs @ cs' \<rparr>))"
| failed: "n_connecting n = cs @ (i, target, p) # cs' \<Longrightarrow>
    connection_failed h target p (n\<lparr> n_connecting := cs @ cs' \<rparr>) = Inr n' \<Longrightarrow> net_step n [] n'"
| closed: "net_step n [] (connection_closed c target h n)"
| answered: "n_commands n = cs @ Request info conn cb # cs' \<Longrightarrow>
    request_answered e info conn cb m (n\<lparr> n_commands := cs @ cs' \<rparr>) = Inr n' \<Longrightarrow> net_step n [] n'"
| nodes_answered: "n_commands n = cs @ Get_service_nodes i conn # cs' \<Longrightarrow>
    service_nodes_answered e i conn m (n\<lparr> n_commands := cs @ cs' \<rparr>) = Inr n' \<Longrightarrow> net_step n [] n'"
| call_send: "send_onion_request e dest body pk k tmo btmo t n = Inr n' \<Longrightarrow> net_step n [k] n'"
| call_upload: "upload_file_to_server e data sdest name k tmo btmo n = Inr n' \<Longrightarrow> net_step n [k] n'"
| call_download: "download_url e url pk k tmo btmo n = Inr n' \<Longrightarrow> net_step n [k] n'"
| call_swarm: "get_swarm e pk (User_swarm k) n = Inr n' \<Longrightarrow> net_step n [k] n'"
| call_random: "net_step n [k] (get_random_nodes e cnt k n)"
| call_close: "close_connections e n = Inr n' \<Longrightarrow> net_step n [] n'"
| call_suspend: "suspend e n = Inr n' \<Longrightarrow> net_step n [] n'"
| call_resume: "net_step n [] (resume n)"
| call_clear: "net_step n [] (clear_cache n)"
| disk: "disk_write_thread_step e (n, d) = (n', d') \<Longrightarrow> net_step n [] n'"

inductive net_run :: "nat list \<Rightarrow> network \<Rightarrow> bool" where
  start: "net_run [] (make_network e cache use_testnet single_path_mode pre_build_paths st)"
| more: "net_run ks n \<Longrightarrow> net_step n ks' n' \<Longrightarrow> net_run (ks @ ks') n'"

end
