(* ===== verification/Network_Conservation.thy ===== *)
theory Network_Conservation
  imports Network_Calls
begin

text \<open>
  Every call of the network's interface is answered exactly once or still under way. The answers still owed are
  a multiset, the \<open>roots\<close> of the callbacks kept in the state; no job, call or event loses or duplicates one.
\<close>

section \<open>Callbacks in the state\<close>

primrec root :: "callback \<Rightarrow> nat multiset" where
  "root (User k) = {#k#}"
| "root (Refresh i) = {#}"
| "root (Wrapper b info p cb) = root cb"

definition swarm_root :: "swarm_callback \<Rightarrow> nat multiset" where
  "swarm_root cb = (case cb of User_swarm k \<Rightarrow> {#k#} | Retry info c h r cb \<Rightarrow> root cb)"

definition task_root :: "task \<Rightarrow> nat multiset" where
  "task_root t = (case t of Send_onion info cb \<Rightarrow> root cb | Get_swarm pk cb \<Rightarrow> swarm_root cb | Get_random_nodes c k \<Rightarrow> {#k#} | _ \<Rightarrow> {#})"

definition command_root :: "command \<Rightarrow> nat multiset" where
  "command_root c = (case c of Request info conn cb \<Rightarrow> root cb | Get_service_nodes i conn \<Rightarrow> {#})"

abbreviation roots_of :: "('a \<Rightarrow> nat multiset) \<Rightarrow> 'a list \<Rightarrow> nat multiset" where
  "roots_of f xs \<equiv> sum_list (map f xs)"

abbreviation queue_roots :: "(request_info \<times> callback) list \<Rightarrow> nat multiset" where
  "queue_roots q \<equiv> roots_of (\<lambda>p. root (snd p)) q"

definition owed :: "network \<Rightarrow> nat multiset" where
  "owed n = roots_of task_root (n_tasks n) + roots_of task_root (n_after_refresh n) +
     (queue_roots (n_request_queue n Standard) + queue_roots (n_request_queue n Upload) + queue_roots (n_request_queue n Download)) +
     roots_of command_root (n_commands n)"

definition answered :: "network \<Rightarrow> nat multiset" where
  "answered n = mset (map fst (n_answers n))"

definition roots :: "network \<Rightarrow> nat multiset" where
  "roots n = owed n + answered n"

lemmas roots_defs = roots_def owed_def answered_def

lemma root_simps [simp]:
  "swarm_root (User_swarm k) = {#k#}" "swarm_root (Retry info c h r cb) = root cb"
  "task_root (Send_onion info cb) = root cb" "task_root (Get_swarm pk scb) = swarm_root scb" "task_root (Get_random_nodes cnt k) = {#k#}"
  "task_root (Build_path i t) = {#}" "task_root (Build_path_if_needed t f) = {#}" "task_root (Establish i) = {#}"
  "task_root (Refresh_cache oi) = {#}" "task_root (Refresh_from_seeds i) = {#}" "task_root Check_timeouts = {#}" "task_root Recheck_timeouts = {#}"
  "command_root (Request info conn cb) = root cb" "command_root (Get_service_nodes i conn) = {#}"
  by (simp_all add: swarm_root_def task_root_def command_root_def)

text \<open>The fields the accounting looks at; every other update leaves the roots alone.\<close>

definition ledger :: "network \<Rightarrow> task list \<times> task list \<times> (path_type \<Rightarrow> (request_info \<times> callback) list) \<times> command list \<times> (nat \<times> answer) list" where
  "ledger n = (n_tasks n, n_after_refresh n, n_request_queue n, n_commands n, n_answers n)"

lemma roots_ledger: "ledger n = ledger m \<Longrightarrow> roots n = roots m"
  by (simp add: ledger_def roots_defs)

lemma roots_update [simp]:
  "roots (n\<lparr> n_use_testnet := xn_use_testnet \<rparr>) = roots n"
  "roots (n\<lparr> n_single_path_mode := xn_single_path_mode \<rparr>) = roots n"
  "roots (n\<lparr> n_seed_node_cache_size := xn_seed_node_cache_size \<rparr>) = roots n"
  "roots (n\<lparr> n_snode_cache := xn_snode_cache \<rparr>) = roots n"
  "roots (n\<lparr> n_last_snode_cache_update := xn_last_snode_cache_update \<rparr>) = roots n"
  "roots (n\<lparr> n_need_write := xn_need_write \<rparr>) = roots n"
  "roots (n\<lparr> n_need_clear_cache := xn_need_clear_cache \<rparr>) = roots n"
  "roots (n\<lparr> n_suspended := xn_suspended \<rparr>) = roots n" "roots (n\<lparr> n_status := xn_status \<rparr>) = roots n"
  "roots (n\<lparr> n_paths := xn_paths \<rparr>) = roots n"
  "roots (n\<lparr> n_paths_pending_drop := xn_paths_pending_drop \<rparr>) = roots n"
  "roots (n\<lparr> n_unused_nodes := xn_unused_nodes \<rparr>) = roots n"
  "roots (n\<lparr> n_snode_failure_counts := xn_snode_failure_counts \<rparr>) = roots n"
  "roots (n\<lparr> n_all_swarms := xn_all_swarms \<rparr>) = roots n"
  "roots (n\<lparr> n_swarm_cache := xn_swarm_cache \<rparr>) = roots n"
  "roots (n\<lparr> n_refresh_failure_count := xn_refresh_failure_count \<rparr>) = roots n"
  "roots (n\<lparr> n_in_progress_refresh_count := xn_in_progress_refresh_count \<rparr>) = roots n"
  "roots (n\<lparr> n_current_refresh_id := xn_current_refresh_id \<rparr>) = roots n"
  "roots (n\<lparr> n_unused_refresh_nodes := xn_unused_refresh_nodes \<rparr>) = roots n"
  "roots (n\<lparr> n_refresh_results := xn_refresh_results \<rparr>) = roots n"
  "roots (n\<lparr> n_connection_failures := xn_connection_failures \<rparr>) = roots n"
  "roots (n\<lparr> n_unused_connections := xn_unused_connections \<rparr>) = roots n"
  "roots (n\<lparr> n_in_progress_connections := xn_in_progress_connections \<rparr>) = roots n"
  "roots (n\<lparr> n_path_build_failures := xn_path_build_failures \<rparr>) = roots n"
  "roots (n\<lparr> n_path_build_queue := xn_path_build_queue \<rparr>) = roots n"
  "roots (n\<lparr> n_in_progress_path_builds := xn_in_progress_path_builds \<rparr>) = roots n"
  "roots (n\<lparr> n_request_timeout_id := xn_request_timeout_id \<rparr>) = roots n"
  "roots (n\<lparr> n_connecting := xn_connecting \<rparr>) = roots n" "roots (n\<lparr> n_open := xn_open \<rparr>) = roots n"
  "roots (n\<lparr> n_pending := xn_pending \<rparr>) = roots n" "roots (n\<lparr> n_next_conn := xn_next_conn \<rparr>) = roots n"
  by (simp_all add: roots_defs)

lemma roots_post [simp]: "roots (post ts n) = roots n + roots_of task_root ts"
  by (simp add: post_def roots_defs)

lemma roots_answer [simp]: "roots (answer k a n) = roots n + {#k#}"
  by (simp add: answer_def roots_defs)

lemma ledger_small [simp]:
  "ledger (update_status st n) = ledger n" "ledger (add_pending_request c n) = ledger n" "ledger (remove_pending_request c n) = ledger n"
  "ledger (clear_empty_pending_path_drops n) = ledger n" "ledger (drop_path_when_empty t p n) = ledger n"
  "ledger (set_failures sn k n) = ledger n" "ledger (add_failure sn n) = ledger n" "ledger (after_response c n) = ledger n"
  by (auto simp: ledger_def update_status_def add_pending_request_def remove_pending_request_def clear_empty_pending_path_drops_def
      drop_path_when_empty_def set_failures_def add_failure_def after_response_def Let_def split: option.splits)

lemma ledger_fold_add_failure [simp]: "ledger (fold add_failure sns n) = ledger n"
  by (induction sns arbitrary: n) auto

lemma ledger_count_path_failure: "ledger (snd (count_path_failure p n)) = ledger n"
  by (auto simp: count_path_failure_def Let_def)

lemma ledger_repair_path: "ledger (snd (snd (repair_path key p n))) = ledger n"
proof -
  have "ledger (n\<lparr> n_unused_nodes := u \<rparr>) = ledger n" for u n by (simp add: ledger_def)
  then show ?thesis by (auto simp: repair_path_def Let_def split: option.splits)
qed

lemma ledger_fail_path [simp]: "ledger (fail_path e info conn r n) = ledger n"
proof -
  have paths: "ledger (n\<lparr> n_paths := ps \<rparr>) = ledger n" for ps n by (simp add: ledger_def)
  show ?thesis
    using ledger_repair_path [of _ _ n] ledger_count_path_failure
    by (auto simp: fail_path_def Let_def paths split: option.splits prod.splits if_splits)
      (metis ledger_count_path_failure ledger_repair_path snd_conv)+
qed

lemma roots_same [simp]:
  "roots (update_status st n) = roots n" "roots (add_pending_request c n) = roots n" "roots (remove_pending_request c n) = roots n"
  "roots (clear_empty_pending_path_drops n) = roots n" "roots (drop_path_when_empty t p n) = roots n"
  "roots (set_failures sn k n) = roots n" "roots (after_response c n) = roots n" "roots (fail_path e info conn r n) = roots n"
  by (rule roots_ledger, simp)+

section \<open>Case rules\<close>

text \<open>The ways a wrapped callback and an onion request can end.\<close>

lemma call_back_WrapperE:
  assumes "call_back e (Wrapper b info p cb) r n = Inr n'"
  obtains (called) r' where "call_back e cb r' n = Inr n'"
  | (kept) c h msg where "handle_errors e info (pt_conn p) False c h msg cb n = (n', None)"
  | (failed) c h msg m r' where "handle_errors e info (pt_conn p) False c h msg cb n = (m, Some r')" "call_back e cb r' m = Inr n'"
proof (cases "\<not> rs_success r \<or> rs_timeout r")
  case True
  then show ?thesis using assms called by auto
next
  case False
  then obtain out where out: "(case out of
      Answer r' \<Rightarrow> call_back e cb r' n
    | Failure c h msg \<Rightarrow>
        (case handle_errors e info (pt_conn p) False c h (Some msg) cb n of
           (n', None) \<Rightarrow> Inr n' | (n', Some r') \<Rightarrow> call_back e cb r' n')) = Inr n'"
    using assms by (auto simp: res_bind_eq_Inr)
  then show ?thesis
    using called kept failed by (cases out) (auto split: prod.splits option.splits)
qed

lemma send_onion_request_implE:
  assumes "send_onion_request_impl e info cb n = Inr n'"
  obtains (queued) ts where "\<not> n_suspended n" "set ts \<subseteq> {Build_path_if_needed (rq_path_type info) False, Check_timeouts}"
      "n' = post ts (n\<lparr> n_request_queue := (n_request_queue n)(rq_path_type info := n_request_queue n (rq_path_type info) @ [(info, cb)]) \<rparr>)"
  | (called) f r where "call_back e cb r (post [Build_path_if_needed (rq_path_type info) f] n) = Inr n'"
  | (sent) f b info' p where "send_request e info' (pt_conn p) (Wrapper b info' p cb) (post [Build_path_if_needed (rq_path_type info) f] n) = Inr n'"
proof (cases "find_valid_path e n info (n_paths n (rq_path_type info))")
  case None
  show ?thesis
  proof (cases "n_suspended n")
    case True
    then show ?thesis using assms None called by (auto simp: send_onion_request_impl_def Let_def post_def)
  next
    case False
    let ?ts = "Build_path_if_needed (rq_path_type info) False # (if rq_build_timeout info \<noteq> None then [Check_timeouts] else [])"
    show ?thesis
      by (rule queued [of ?ts]) (use assms None False in \<open>auto simp: send_onion_request_impl_def Let_def post_def\<close>)
  qed
next
  case (Some p)
  define m where "m = post [Build_path_if_needed (rq_path_type info) (find_valid_path e n info (n_paths n (rq_path_type info)) \<noteq> None)] n"
  obtain b where "(case generate e b info of
      Inl x \<Rightarrow> if x = Undefined_behaviour then Inl x
        else call_back e cb (failure_response False error_building_onion_request (what e x)) m
    | Inr (info, b) \<Rightarrow> send_request e info (pt_conn p) (Wrapper b info p cb) m) = Inr n'"
    using assms Some unfolding send_onion_request_impl_def Let_def m_def by (auto simp: res_bind_eq_Inr simp del: not_None_eq)
  then show ?thesis
    using called sent unfolding m_def by (cases "generate e b info") (auto split: if_splits)
qed

section \<open>Handlers\<close>

lemma roots_handle_redirect:
  "handle_redirect e info c h r cb n = Some n' \<Longrightarrow> roots n' = roots n + root cb"
  by (auto simp: handle_redirect_def roots_defs post_def split: option.splits retry_reason.splits list.splits)

lemma roots_handle_errors:
  assumes "handle_errors e info conn tmo c h r cb n = (n', res)"
  shows "roots n' = roots n + (if res = None then root cb else {#})"
  using assms
  by (auto simp: handle_errors_def Let_def split: if_splits option.splits prod.splits dest: roots_handle_redirect)

lemma roots_refresh_complete [simp]: "roots (refresh_snode_cache_complete e nodes n) = roots n"
proof -
  have "roots_of task_root (map (\<lambda>(i, t). Build_path i t) q) = {#}" for q by (induction q) auto
  then show ?thesis by (simp add: refresh_snode_cache_complete_def Let_def roots_defs post_def)
qed

lemma roots_refresh_response: "refresh_response e i r n = Inr n' \<Longrightarrow> roots n' = roots n"
  by (auto simp: refresh_response_def Let_def res_bind_eq_Inr split: option.splits sum.splits if_splits)

lemma roots_call_back: "call_back e cb r n = Inr n' \<Longrightarrow> roots n' = roots n + root cb"
proof (induction cb arbitrary: r n)
  case (Wrapper b info p cb)
  from Wrapper.prems show ?case
    by (cases rule: call_back_WrapperE) (auto dest!: roots_handle_errors Wrapper.IH)
qed (auto dest: roots_refresh_response)

lemma roots_call_backs:
  "res_fold (\<lambda>(info, cb). call_back e cb r) q n = Inr n' \<Longrightarrow> roots n' = roots n + queue_roots q"
  by (induction q arbitrary: n) (auto simp: res_bind_eq_Inr dest!: roots_call_back)

lemma roots_send_request: "send_request e info conn cb n = Inr n' \<Longrightarrow> roots n' = roots n + root cb"
proof -
  have "roots ((add_pending_request conn n)\<lparr> n_commands := n_commands n @ [Request info conn cb] \<rparr>) = roots n + root cb"
    using ledger_small(2) [of conn n] by (simp add: ledger_def roots_defs)
  then show "send_request e info conn cb n = Inr n' \<Longrightarrow> roots n' = roots n + root cb"
    by (auto simp: send_request_def split: if_splits dest: roots_call_back)
qed

lemma roots_enqueue: "roots (n\<lparr> n_request_queue := (n_request_queue n)(t := n_request_queue n t @ [(info, cb)]) \<rparr>) = roots n + root cb"
  by (cases t) (simp_all add: roots_defs)

lemma roots_send_onion_request_impl:
  assumes "send_onion_request_impl e info cb n = Inr n'"
  shows "roots n' = roots n + root cb"
  using assms
proof (cases rule: send_onion_request_implE)
  case (queued ts)
  have "roots_of task_root ts = {#}" using queued(2) by (induction ts) auto
  then show ?thesis using queued(3) roots_enqueue by simp
qed (auto dest!: roots_call_back roots_send_request)

lemma roots_connection_failed_callback: "connection_failed_callback p n = Inr n' \<Longrightarrow> roots n' = roots n"
  by (auto simp: connection_failed_callback_def path_connection_failed_def refresh_connection_failed_def Let_def res_bind_eq_Inr split: purpose.splits)

lemma roots_establish_connection: "establish_connection i target p n = Inr n' \<Longrightarrow> roots n' = roots n"
  by (auto simp: establish_connection_def split: if_splits dest: roots_connection_failed_callback)

lemma roots_refresh_from_seed_nodes: "refresh_from_seed_nodes e i b n = Inr n' \<Longrightarrow> roots n' = roots n"
  by (auto simp: refresh_from_seed_nodes_def res_bind_eq_Inr split: if_splits dest!: roots_establish_connection)

lemma roots_refresh_snode_cache: "refresh_snode_cache e i n = Inr n' \<Longrightarrow> roots n' = roots n"
  by (auto simp: refresh_snode_cache_def Let_def res_bind_eq_Inr split: if_splits
      dest!: roots_send_onion_request_impl roots_refresh_from_seed_nodes)

lemma roots_establish_and_store: "establish_and_store_connection e i n = Inr n' \<Longrightarrow> roots n' = roots n"
  by (auto simp: establish_and_store_connection_def Let_def split: if_splits dest!: roots_establish_connection)

lemma queue_roots_partition: "queue_roots (filter P q) + queue_roots (filter (\<lambda>x. \<not> P x) q) = queue_roots q"
  by (induction q) (auto simp: ac_simps)

lemma roots_resume_queue:
  "roots (post (map (\<lambda>(info, cb). Send_onion info cb) (filter P (n_request_queue n t)))
     (n\<lparr> n_request_queue := (n_request_queue n)(t := filter (\<lambda>x. \<not> P x) (n_request_queue n t)) \<rparr>)) = roots n"
proof -
  have "roots_of task_root (map (\<lambda>(info, cb). Send_onion info cb) q) = queue_roots q" for q by (induction q) auto
  then show ?thesis using queue_roots_partition [of P "n_request_queue n t"] by (cases t) (simp_all add: post_def roots_defs ac_simps)
qed

lemma roots_resume_requests [simp]: "roots (resume_requests e t p n) = roots n"
proof -
  let ?P = "\<lambda>(info, cb). find_valid_path e n info [p] \<noteq> None"
  define m where "m = post (map (\<lambda>(info, cb). Send_onion info cb) (filter ?P (n_request_queue n t)))
    (n\<lparr> n_request_queue := (n_request_queue n)(t := filter (\<lambda>x. \<not> ?P x) (n_request_queue n t)) \<rparr>)"
  have "roots m = roots n" unfolding m_def by (rule roots_resume_queue)
  moreover have "resume_requests e t p n = m \<or>
      (\<exists>b. resume_requests e t p n = post [Build_path (e_ids e 1) t] (m\<lparr> n_in_progress_path_builds := b \<rparr>))"
    unfolding resume_requests_def Let_def m_def [symmetric] by auto
  ultimately show ?thesis by auto
qed

lemma roots_finish_path [simp]: "roots (finish_path e i t conn nodes n) = roots n"
  by (simp add: finish_path_def Let_def)

lemma roots_build_path: "build_path e i t n = Inr n' \<Longrightarrow> roots n' = roots n"
  by (auto simp: build_path_def Let_def res_bind_eq_Inr split: if_splits prod.splits option.splits)

lemma roots_build_path_if_needed: "build_path_if_needed e t f n = Inr n' \<Longrightarrow> roots n' = roots n"
  by (auto simp: build_path_if_needed_def Let_def split: if_splits dest: roots_build_path)

lemma roots_swarm_reply: "swarm_reply e cb s n = Inr n' \<Longrightarrow> roots n' = roots n + swarm_root cb"
  by (auto simp: swarm_reply_def split: swarm_callback.splits option.splits list.splits dest: roots_call_back)

lemma roots_get_swarm: "get_swarm e pk cb n = Inr n' \<Longrightarrow> roots n' = roots n + swarm_root cb"
  by (auto simp: get_swarm_def Let_def split: option.splits list.splits if_splits dest!: roots_swarm_reply)
    (simp_all add: roots_defs post_def)

lemma roots_get_random_nodes: "roots (get_random_nodes e cnt k n) = roots n + {#k#}"
proof -
  have "roots (post [Refresh_cache None] (n\<lparr> n_after_refresh := n_after_refresh n @ [Get_random_nodes cnt k] \<rparr>)) = roots n + {#k#}" for n
    by (simp add: roots_defs post_def)
  then show ?thesis by (simp add: get_random_nodes_def Let_def)
qed

lemma roots_check_queue: "check_queue e t n = Inr n' \<Longrightarrow> roots n' = roots n"
proof -
  let ?P = "\<lambda>(info, cb). timed_out e info"
  assume "check_queue e t n = Inr n'"
  then have "roots n' = roots (n\<lparr> n_request_queue := (n_request_queue n)(t := filter (\<lambda>x. \<not> ?P x) (n_request_queue n t)) \<rparr>) +
      queue_roots (filter ?P (n_request_queue n t))"
    by (auto simp: check_queue_def comp_def dest: roots_call_backs)
  also have "\<dots> = roots n"
    using queue_roots_partition [of ?P "n_request_queue n t"] by (cases t) (simp_all add: roots_defs ac_simps)
  finally show ?thesis .
qed

lemma roots_check_timeouts: "check_request_queue_timeouts e i n = Inr n' \<Longrightarrow> roots n' = roots n"
  by (auto simp: check_request_queue_timeouts_def Let_def res_bind_eq_Inr split: if_splits dest!: roots_check_queue)

lemma queue_handle_errors:
  assumes "handle_errors e info conn tmo c h r cb n = (n', res)"
  shows "n_request_queue n' = n_request_queue n"
proof -
  have "n_request_queue (fail_path e info conn r n) = n_request_queue n"
    using ledger_fail_path [of e info conn r n] by (simp add: ledger_def)
  then show ?thesis
    using assms
    by (auto simp: handle_errors_def handle_redirect_def post_def Let_def split: if_splits option.splits prod.splits retry_reason.splits list.splits)
qed

lemma queue_refresh_response: "refresh_response e i r n = Inr n' \<Longrightarrow> n_request_queue n' = n_request_queue n"
  by (auto simp: refresh_response_def refresh_snode_cache_complete_def post_def Let_def res_bind_eq_Inr split: option.splits sum.splits if_splits)

text \<open>A callback never touches the queue of requests that wait for a path.\<close>

lemma queue_call_back: "call_back e cb r n = Inr n' \<Longrightarrow> n_request_queue n' = n_request_queue n"
proof (induction cb arbitrary: r n)
  case (Wrapper b info p cb)
  from Wrapper.prems show ?case
    by (cases rule: call_back_WrapperE) (auto dest!: queue_handle_errors Wrapper.IH)
qed (auto simp: answer_def dest: queue_refresh_response)

lemma queue_call_backs:
  "res_fold (\<lambda>(info, cb). call_back e cb r) q n = Inr n' \<Longrightarrow> n_request_queue n' = n_request_queue n"
  by (induction q arbitrary: n) (auto simp: res_bind_eq_Inr dest!: queue_call_back)

lemma roots_close_connections:
  assumes "close_connections e n = Inr n'"
  shows "roots n' = roots n"
proof -
  let ?q = "concat (map (n_request_queue n) all_types)"
  obtain m where m: "res_fold (\<lambda>(info, cb). call_back e cb (failure_response False error_network_suspended ''Network is suspended.'')) ?q n = Inr m"
    and n': "roots n' = roots (m\<lparr> n_request_queue := (\<lambda>t. []) \<rparr>)"
    using assms by (auto simp: close_connections_def res_bind_eq_Inr) (simp add: roots_defs)
  have "roots (m\<lparr> n_request_queue := (\<lambda>t. []) \<rparr>) + queue_roots ?q = roots m"
    using queue_call_backs [OF m] by (simp add: roots_defs ac_simps)
  then show ?thesis using roots_call_backs [OF m] n' by simp
qed

lemma roots_run_task: "run_task e t n = Inr n' \<Longrightarrow> roots n' = roots n + task_root t"
  by (cases t) (auto simp: run_task_def roots_get_random_nodes dest: roots_build_path roots_build_path_if_needed roots_establish_and_store
      roots_refresh_snode_cache roots_refresh_from_seed_nodes roots_send_onion_request_impl roots_check_timeouts roots_get_swarm)

section \<open>Events, calls and runs\<close>

lemma roots_connection_established: "roots (connection_established e target p n) = roots n"
proof -
  have "roots ((add_pending_request info m)\<lparr> n_commands := cs @ [Get_service_nodes i info] \<rparr>) = roots m" if "n_commands m = cs" for info m i cs
    using that ledger_small(2) [of info m] by (simp add: ledger_def roots_defs)
  moreover have "roots_of task_root (map (\<lambda>i. Establish (f i)) xs) = {#}" for f and xs :: "nat list"
    by (induction xs) auto
  ultimately show ?thesis
    by (auto simp: connection_established_def path_connection_ready_def Let_def comp_def split: purpose.splits list.splits)
qed

lemma roots_connection_failed: "connection_failed h target p n = Inr n' \<Longrightarrow> roots n' = roots n"
  by (auto simp: connection_failed_def handshake_timeout_penalty_def res_bind_eq_Inr dest!: roots_connection_failed_callback)

lemma roots_connection_closed: "roots (connection_closed c target h n) = roots n"
proof -
  have drop: "roots (case x of Some p \<Rightarrow> drop_path_when_empty t p m | None \<Rightarrow> m) = roots m" for x t m by (cases x) auto
  show ?thesis by (simp add: connection_closed_def handshake_timeout_penalty_def Let_def drop)
qed

lemma roots_request_answered:
  assumes "request_answered e info conn cb m n = Inr n'"
  shows "roots n' = roots n + root cb"
proof (cases "validate_response e m")
  case (Inl x)
  obtain code h msg where x: "x = (code, h, msg)" by (cases x)
  obtain n1 res where "handle_errors e info conn (m_timed_out m) code h (Some msg) cb (remove_pending_request conn n) = (n1, res)" by fastforce
  then show ?thesis using assms Inl x by (auto simp: request_answered_def split: option.splits dest!: roots_handle_errors roots_call_back)
next
  case (Inr x)
  then show ?thesis using assms by (auto simp: request_answered_def res_bind_eq_Inr split: prod.splits dest!: roots_call_back)
qed

lemma roots_service_nodes_answered: "service_nodes_answered e i conn m n = Inr n' \<Longrightarrow> roots n' = roots n"
  by (auto simp: service_nodes_answered_def seed_node_response_def refresh_connection_failed_def Let_def res_bind_eq_Inr
      split: option.splits if_splits)

lemma roots_take_task: "n_tasks n = ts @ t # ts' \<Longrightarrow> roots n = roots (n\<lparr> n_tasks := ts @ ts' \<rparr>) + task_root t"
  by (simp add: roots_defs ac_simps)

lemma roots_take_command: "n_commands n = cs @ c # cs' \<Longrightarrow> roots n = roots (n\<lparr> n_commands := cs @ cs' \<rparr>) + command_root c"
  by (simp add: roots_defs ac_simps)

lemma roots_send_onion_request: "send_onion_request e dest body pk k tmo btmo t n = Inr n' \<Longrightarrow> roots n' = roots n + {#k#}"
  by (auto simp: send_onion_request_def dest: roots_send_onion_request_impl)

lemma roots_disk: "disk_write_thread_step e (n, d) = (n', d') \<Longrightarrow> roots n' = roots n"
  by (auto simp: disk_write_thread_step_def write_cache_def clear_disk_cache_def split: if_splits)

lemma roots_net_step: "net_step n ks n' \<Longrightarrow> roots n' = roots n + mset ks"
proof (induction rule: net_step.induct)
  case (job n ts t ts' e n')
  then show ?case by (simp add: roots_take_task roots_run_task)
next
  case (answered n cs info conn cb cs' e m n')
  then show ?case by (simp add: roots_take_command roots_request_answered)
next
  case (nodes_answered n cs i conn cs' e m n')
  then show ?case by (simp add: roots_take_command roots_service_nodes_answered)
next
  case (call_suspend e n n')
  then show ?case by (auto simp: suspend_def dest: roots_close_connections)
next
  case (call_download e url pk k tmo btmo n n')
  then show ?case
    by (auto simp: download_url_def download_file_def res_bind_eq_Inr split: option.splits dest!: roots_send_onion_request)
qed (auto simp: roots_connection_established roots_connection_closed roots_get_random_nodes resume_def clear_cache_def upload_file_to_server_def
    roots_disk dest: roots_connection_failed roots_send_onion_request roots_get_swarm roots_close_connections)

lemma roots_make_network: "roots (make_network e cache tn single pre st) = {#}"
proof -
  have empty: "roots (empty_network tn single st) = {#}" by (simp add: empty_network_def roots_defs)
  have load: "roots (fst (load_cache_from_disk e d n)) = roots n" for d n
    by (simp add: load_cache_from_disk_def Let_def split: option.splits)
  have "roots (fold (\<lambda>i n. post [Build_path (e_ids e i) Standard]
      (n\<lparr> n_in_progress_path_builds := smap_put (e_ids e i) Standard (n_in_progress_path_builds n) \<rparr>)) is n) = roots n" for "is" n
    by (induction "is" arbitrary: n) auto
  then have "roots (pre_build e n) = roots n" for n by (simp add: pre_build_def)
  then show ?thesis by (simp add: make_network_def Let_def empty load split: option.splits)
qed

text \<open>
  C5: no call of the interface is lost or answered twice. In every state the network can reach, whatever the order of
  jobs, connection events, responses, timeouts, retries and suspensions, the callbacks already called and the ones still kept
  in a queue, a job or a command are together exactly the callbacks handed in, each as often as it was handed in.
\<close>

theorem callbacks_conserved:
  "net_run issued n \<Longrightarrow> mset (map fst (n_answers n)) + owed n = mset issued"
proof -
  have "net_run issued n \<Longrightarrow> roots n = mset issued"
    by (induction rule: net_run.induct) (simp_all add: roots_make_network roots_net_step)
  then show "net_run issued n \<Longrightarrow> mset (map fst (n_answers n)) + owed n = mset issued"
    by (simp add: roots_def answered_def add.commute)
qed

end
