(* ===== verification/Network_Paths.thy ===== *)
theory Network_Paths
  imports Network_Conservation
begin

text \<open>
  Invariants of the paths: every path in use has three nodes, begins with the node its connection leads to and has failed
  less often than the limit; a suspended network has no paths and no waiting requests. New paths have nodes with pairwise
  different addresses.
\<close>

section \<open>The invariant\<close>

definition path_ok :: "onion_path \<Rightarrow> bool" where
  "path_ok p \<longleftrightarrow> length (pt_nodes p) = path_size \<and> hd (pt_nodes p) = cn_node (pt_conn p) \<and> cn_conn (pt_conn p) \<noteq> None \<and>
     pt_failure_count p < path_failure_threshold"

type_synonym path_view =
  "bool \<times> (path_type \<Rightarrow> onion_path list) \<times> connection_info list \<times> (path_type \<Rightarrow> (request_info \<times> callback) list)"

definition pview :: "network \<Rightarrow> path_view" where
  "pview n = (n_suspended n, n_paths n, n_unused_connections n, n_request_queue n)"

definition paths_ok :: "path_view \<Rightarrow> bool" where
  "paths_ok = (\<lambda>(s, ps, cs, q). (\<forall>t. list_all path_ok (ps t)) \<and> list_all (\<lambda>c. cn_conn c \<noteq> None) cs)"

definition quiet :: "path_view \<Rightarrow> bool" where
  "quiet = (\<lambda>(s, ps, cs, q). s \<longrightarrow> (\<forall>t. ps t = [] \<and> q t = []))"

text \<open>What every handler keeps. Both invariants depend on four fields only, the view.\<close>

definition tame :: "path_view \<Rightarrow> path_view \<Rightarrow> bool" where
  "tame v v' \<longleftrightarrow> fst v' = fst v \<and> (paths_ok v \<longrightarrow> paths_ok v') \<and> (quiet v \<longrightarrow> quiet v')"

lemmas view_defs = tame_def paths_ok_def quiet_def pview_def

lemma pview_update [simp]:
  "pview (n\<lparr> n_use_testnet := x_use_testnet \<rparr>) = pview n" "pview (n\<lparr> n_single_path_mode := x_single_path_mode \<rparr>) = pview n"
  "pview (n\<lparr> n_seed_node_cache_size := x_seed_node_cache_size \<rparr>) = pview n"
  "pview (n\<lparr> n_snode_cache := x_snode_cache \<rparr>) = pview n"
  "pview (n\<lparr> n_last_snode_cache_update := x_last_snode_cache_update \<rparr>) = pview n"
  "pview (n\<lparr> n_need_write := x_need_write \<rparr>) = pview n" "pview (n\<lparr> n_need_clear_cache := x_need_clear_cache \<rparr>) = pview n"
  "pview (n\<lparr> n_status := x_status \<rparr>) = pview n" "pview (n\<lparr> n_paths_pending_drop := x_paths_pending_drop \<rparr>) = pview n"
  "pview (n\<lparr> n_unused_nodes := x_unused_nodes \<rparr>) = pview n"
  "pview (n\<lparr> n_snode_failure_counts := x_snode_failure_counts \<rparr>) = pview n"
  "pview (n\<lparr> n_all_swarms := x_all_swarms \<rparr>) = pview n" "pview (n\<lparr> n_swarm_cache := x_swarm_cache \<rparr>) = pview n"
  "pview (n\<lparr> n_refresh_failure_count := x_refresh_failure_count \<rparr>) = pview n"
  "pview (n\<lparr> n_in_progress_refresh_count := x_in_progress_refresh_count \<rparr>) = pview n"
  "pview (n\<lparr> n_current_refresh_id := x_current_refresh_id \<rparr>) = pview n"
  "pview (n\<lparr> n_after_refresh := x_after_refresh \<rparr>) = pview n"
  "pview (n\<lparr> n_unused_refresh_nodes := x_unused_refresh_nodes \<rparr>) = pview n"
  "pview (n\<lparr> n_refresh_results := x_refresh_results \<rparr>) = pview n"
  "pview (n\<lparr> n_connection_failures := x_connection_failures \<rparr>) = pview n"
  "pview (n\<lparr> n_in_progress_connections := x_in_progress_connections \<rparr>) = pview n"
  "pview (n\<lparr> n_path_build_failures := x_path_build_failures \<rparr>) = pview n"
  "pview (n\<lparr> n_path_build_queue := x_path_build_queue \<rparr>) = pview n"
  "pview (n\<lparr> n_in_progress_path_builds := x_in_progress_path_builds \<rparr>) = pview n"
  "pview (n\<lparr> n_request_timeout_id := x_request_timeout_id \<rparr>) = pview n" "pview (n\<lparr> n_tasks := x_tasks \<rparr>) = pview n"
  "pview (n\<lparr> n_connecting := x_connecting \<rparr>) = pview n" "pview (n\<lparr> n_commands := x_commands \<rparr>) = pview n"
  "pview (n\<lparr> n_open := x_open \<rparr>) = pview n" "pview (n\<lparr> n_pending := x_pending \<rparr>) = pview n"
  "pview (n\<lparr> n_next_conn := x_next_conn \<rparr>) = pview n" "pview (n\<lparr> n_answers := x_answers \<rparr>) = pview n"
  by (simp_all add: pview_def)

lemma tame_refl [simp, intro]: "tame v v"
  by (simp add: tame_def)

lemma tame_trans [trans]: "tame v w \<Longrightarrow> tame w z \<Longrightarrow> tame v z"
  by (simp add: tame_def)

lemma pview_small [simp]:
  "pview (post ts n) = pview n" "pview (answer k a n) = pview n" "pview (update_status st n) = pview n"
  "pview (add_pending_request c n) = pview n" "pview (remove_pending_request c n) = pview n" "pview (clear_empty_pending_path_drops n) = pview n"
  "pview (set_failures sn k n) = pview n" "pview (add_failure sn n) = pview n" "pview (after_response c n) = pview n"
  "pview (handshake_timeout_penalty h sn n) = pview n" "pview (refresh_snode_cache_complete e nodes n) = pview n"
  by (auto simp: post_def answer_def update_status_def add_pending_request_def remove_pending_request_def clear_empty_pending_path_drops_def
      set_failures_def add_failure_def after_response_def handshake_timeout_penalty_def refresh_snode_cache_complete_def Let_def split: option.splits)

lemma pview_fold_add_failure [simp]: "pview (fold add_failure sns n) = pview n"
  by (induction sns arbitrary: n) auto

lemma tame_drop_path: "tame (pview n) (pview (drop_path_when_empty t p n))"
  unfolding drop_path_when_empty_def pview_small by (auto simp: view_defs list_all_iff)

section \<open>Failing paths\<close>

definition path_shape :: "onion_path \<Rightarrow> bool" where
  "path_shape p \<longleftrightarrow> length (pt_nodes p) = path_size \<and> hd (pt_nodes p) = cn_node (pt_conn p) \<and> cn_conn (pt_conn p) \<noteq> None"

lemma path_ok_shape: "path_ok p \<longleftrightarrow> path_shape p \<and> pt_failure_count p < path_failure_threshold"
  by (simp add: path_ok_def path_shape_def)

lemma hd_list_update: "i \<noteq> 0 \<Longrightarrow> hd (xs[i := v]) = hd xs"
  by (cases xs; cases i) auto

lemma repair_path_shape:
  assumes "repair_path key p n = (b, p', n')"
  shows "path_shape p \<Longrightarrow> path_shape p'" "pview n' = pview n" "n_paths n' = n_paths n"
  using assms
  by (auto simp: repair_path_def path_shape_def hd_list_update set_failures_def Let_def split: option.splits if_splits)

lemma count_path_failure_shape:
  assumes "count_path_failure p n = (p', n')"
  shows "path_shape p \<Longrightarrow> path_shape p'" "pview n' = pview n"
  using assms by (auto simp: count_path_failure_def path_shape_def Let_def split: if_splits)

lemma replace_path_set: "set (replace_path i p ps) \<subseteq> insert p (set ps)"
  by (auto simp: replace_path_def dest: in_set_takeD in_set_dropD)

lemma tame_replace:
  assumes "pview m = pview n" "i < length (n_paths n t)" "path_shape (n_paths n t ! i) \<Longrightarrow> path_shape p'" "pt_failure_count p' < path_failure_threshold"
  shows "tame (pview n) (pview (m\<lparr> n_paths := (n_paths m)(t := replace_path i p' (n_paths m t)) \<rparr>))"
proof -
  have "path_ok (n_paths n t ! i) \<Longrightarrow> path_ok p'" using assms(3,4) by (simp add: path_ok_shape)
  then have "list_all path_ok (n_paths n t) \<Longrightarrow> list_all path_ok (replace_path i p' (n_paths n t))"
    using replace_path_set [of i p' "n_paths n t"] assms(2) by (auto simp: list_all_iff)
  moreover have "n_paths n t \<noteq> []" using assms(2) by auto
  ultimately show ?thesis using assms(1) by (auto simp: view_defs)
qed

lemma tame_fail_path: "tame (pview n) (pview (fail_path e info conn r n))"
proof (cases "find_index (guarded_by (cn_node conn)) (n_paths n (rq_path_type info))")
  case None
  then show ?thesis
    by (auto simp: fail_path_def Let_def split: option.splits prod.splits if_splits
        dest!: repair_path_shape(2) count_path_failure_shape(2))
next
  case (Some i)
  let ?t = "rq_path_type info" let ?p = "n_paths n ?t ! i"
  obtain b p1 n1 where 1: "(case Option.bind r (missing_node (e_enc e)) of Some key \<Rightarrow> repair_path key ?p n | None \<Rightarrow> (False, ?p, n)) = (b, p1, n1)"
    by (metis prod_cases3)
  obtain p2 n2 where 2: "(if \<not> b \<or> \<not> valid_conn n1 (pt_conn p1) then count_path_failure p1 n1 else (p1, n1)) = (p2, n2)"
    by fastforce
  have v1: "pview n1 = pview n" "path_shape ?p \<Longrightarrow> path_shape p1"
    using 1 repair_path_shape by (auto split: option.splits)
  have v2: "pview n2 = pview n" "path_shape ?p \<Longrightarrow> path_shape p2"
    using 2 v1 count_path_failure_shape by (auto split: if_splits)
  have i: "i < length (n_paths n ?t)" using find_index_first [OF Some] by simp
  have "fail_path e info conn r n = (if path_failure_threshold \<le> pt_failure_count p2 then drop_path_when_empty ?t ?p n2
      else n2\<lparr> n_paths := (n_paths n2)(?t := replace_path i p2 (n_paths n2 ?t)) \<rparr>)"
    using 2 unfolding fail_path_def Let_def by (simp add: Some 1 split: if_splits)
  then show ?thesis
    using tame_replace [OF v2(1) i v2(2)] tame_drop_path [of n2 ?t ?p] v2(1) by auto
qed

section \<open>Handlers\<close>

lemma tame_handle_errors: "handle_errors e info conn tmo c h r cb n = (n', res) \<Longrightarrow> tame (pview n) (pview n')"
  by (auto simp: handle_errors_def handle_redirect_def tame_fail_path Let_def
      split: if_splits option.splits prod.splits retry_reason.splits list.splits)

lemma pview_refresh_response: "refresh_response e i r n = Inr n' \<Longrightarrow> pview n' = pview n"
  by (auto simp: refresh_response_def Let_def res_bind_eq_Inr split: option.splits sum.splits if_splits)

lemma tame_call_back: "call_back e cb r n = Inr n' \<Longrightarrow> tame (pview n) (pview n')"
proof (induction cb arbitrary: r n)
  case (Wrapper b info p cb)
  from Wrapper.prems show ?case
    by (cases rule: call_back_WrapperE) (blast dest: tame_handle_errors Wrapper.IH intro: tame_trans)+
qed (auto dest: pview_refresh_response)

lemma tame_call_backs: "res_fold (\<lambda>(info, cb). call_back e cb r) q n = Inr n' \<Longrightarrow> tame (pview n) (pview n')"
  by (induction q arbitrary: n) (auto simp: res_bind_eq_Inr dest!: tame_call_back intro: tame_trans)

lemma tame_send_request: "send_request e info conn cb n = Inr n' \<Longrightarrow> tame (pview n) (pview n')"
  by (auto simp: send_request_def split: if_splits dest: tame_call_back)

lemma tame_send_onion_request_impl:
  assumes "send_onion_request_impl e info cb n = Inr n'"
  shows "tame (pview n) (pview n')"
  using assms
proof (cases rule: send_onion_request_implE)
  case (queued ts)
  then show ?thesis by (simp add: view_defs post_def)
qed (auto dest!: tame_call_back tame_send_request)

lemma tame_connection_failed_callback: "connection_failed_callback p n = Inr n' \<Longrightarrow> pview n' = pview n"
  by (auto simp: connection_failed_callback_def path_connection_failed_def refresh_connection_failed_def Let_def res_bind_eq_Inr split: purpose.splits)

lemma tame_establish_connection: "establish_connection i target p n = Inr n' \<Longrightarrow> pview n' = pview n"
  by (auto simp: establish_connection_def split: if_splits dest: tame_connection_failed_callback)

lemma tame_refresh_from_seed_nodes: "refresh_from_seed_nodes e i b n = Inr n' \<Longrightarrow> pview n' = pview n"
  by (auto simp: refresh_from_seed_nodes_def res_bind_eq_Inr split: if_splits dest!: tame_establish_connection)

lemma tame_refresh_snode_cache: "refresh_snode_cache e i n = Inr n' \<Longrightarrow> tame (pview n) (pview n')"
  by (auto simp: refresh_snode_cache_def Let_def res_bind_eq_Inr split: if_splits
      dest!: tame_send_onion_request_impl tame_refresh_from_seed_nodes)

lemma tame_establish_and_store: "establish_and_store_connection e i n = Inr n' \<Longrightarrow> pview n' = pview n"
  by (auto simp: establish_and_store_connection_def Let_def split: if_splits dest!: tame_establish_connection)

lemma pick_nodes_spec:
  assumes "pick_nodes q ns unused = (Some nodes, rest)" "length ns \<le> path_size" "distinct (map (node_ip q) ns)"
  shows "length nodes = path_size \<and> (\<exists>more. nodes = ns @ more \<and> set more \<subseteq> set unused) \<and> distinct (map (node_ip q) nodes)"
  using assms
proof (induction q ns unused rule: pick_nodes.induct)
  case (1 q ns unused)
  show ?case
  proof (cases "path_size \<le> length ns \<or> unused = []")
    case True
    then show ?thesis using 1(2-) by (auto simp: pick_nodes.simps [of q ns unused] split: if_splits)
  next
    case False
    let ?ns = "if node_ip q (last unused) \<in> set (map (node_ip q) ns) then ns else ns @ [last unused]"
    have "pick_nodes q ?ns (butlast unused) = (Some nodes, rest)"
      using 1(2) False by (simp add: pick_nodes.simps [of q ns unused] Let_def)
    moreover have "length ?ns \<le> path_size" "distinct (map (node_ip q) ?ns)" using 1(3,4) False by auto
    ultimately have "length nodes = path_size \<and> (\<exists>more. nodes = ?ns @ more \<and> set more \<subseteq> set (butlast unused)) \<and> distinct (map (node_ip q) nodes)"
      using 1(1) False by (simp only: not_le de_Morgan_disj) auto
    moreover have "set (butlast unused) \<subseteq> set unused" by (auto dest: in_set_butlastD)
    ultimately show ?thesis using False by (auto split: if_splits)
  qed
qed

lemma tame_new_path:
  assumes "\<not> n_suspended n" "n_unused_connections n = c # cs" "hd nodes = cn_node c" "length nodes = path_size"
    "n_suspended m = n_suspended n" "n_unused_connections m = cs"
    "n_paths m = (n_paths n)(t := n_paths n t @ [\<lparr> pt_id = i, pt_conn = c, pt_nodes = nodes, pt_failure_count = 0 \<rparr>])"
  shows "tame (pview n) (pview m)"
  using assms by (auto simp: view_defs path_ok_def path_failure_threshold_def)

lemma fields_update_status [simp]:
  "n_suspended (update_status st m) = n_suspended m" "n_paths (update_status st m) = n_paths m"
  "n_unused_connections (update_status st m) = n_unused_connections m"
  using pview_small(3) [of st m] by (simp_all add: pview_def)

lemma fields_resume_requests [simp]:
  "n_suspended (resume_requests e t p n) = n_suspended n" "n_paths (resume_requests e t p n) = n_paths n"
  "n_unused_connections (resume_requests e t p n) = n_unused_connections n" "n_unused_nodes (resume_requests e t p n) = n_unused_nodes n"
  unfolding resume_requests_def Let_def by (simp_all add: post_def)

lemma fields_finish_path:
  "n_suspended (finish_path e i t conn nodes n) = n_suspended n"
  "n_unused_connections (finish_path e i t conn nodes n) = n_unused_connections n"
  "n_paths (finish_path e i t conn nodes n) =
     (n_paths n)(t := n_paths n t @ [\<lparr> pt_id = i, pt_conn = conn, pt_nodes = nodes, pt_failure_count = 0 \<rparr>])"
  "sn \<in> set (n_unused_nodes (finish_path e i t conn nodes n)) \<Longrightarrow> node_ip (e_quic e) sn \<notin> set (map (node_ip (e_quic e)) nodes)"
  unfolding finish_path_def Let_def by simp_all

text \<open>A call of \<open>build_path\<close> leaves the paths alone, or finishes one from the picked nodes.\<close>

lemma build_pathE:
  assumes "build_path e i t n = Inr n'"
  obtains (waiting) "pview n' = pview n"
  | (finished) m c cs ns rest b where "\<not> n_suspended n" "n_unused_connections n = c # cs"
      "m = (if length (n_unused_nodes n) < path_size then n\<lparr> n_unused_nodes := get_unused_nodes e n \<rparr> else n)"
      "pick_nodes (e_quic e) [cn_node c] (n_unused_nodes m) = (Some ns, rest)"
      "n' = finish_path e i t c ns (m\<lparr> n_in_progress_path_builds := b, n_unused_nodes := rest, n_unused_connections := cs \<rparr>)"
proof (cases "n_suspended n \<or> n_unused_connections n = []")
  case True
  then show ?thesis using assms waiting by (auto simp: build_path_def split: if_splits)
next
  case False
  then obtain c cs where c: "n_unused_connections n = c # cs" by (cases "n_unused_connections n") auto
  define m where "m = (if length (n_unused_nodes n) < path_size then n\<lparr> n_unused_nodes := get_unused_nodes e n \<rparr> else n)"
  have m: "pview m = pview n" "n_unused_connections m = c # cs" by (auto simp: m_def c)
  obtain picked rest where pick: "pick_nodes (e_quic e) [cn_node c] (n_unused_nodes m) = (picked, rest)" by fastforce
  show ?thesis
  proof (cases "length (n_unused_nodes m) < path_size \<or> picked = None")
    case True
    then show ?thesis
      using assms False pick m c by (intro waiting) (auto simp: build_path_def m_def [symmetric] Let_def res_bind_eq_Inr split: if_splits)
  next
    case nodes: False
    then obtain ns where ns: "picked = Some ns" by auto
    obtain b where "n' = finish_path e i t c ns (m\<lparr> n_in_progress_path_builds := b, n_unused_nodes := rest, n_unused_connections := cs \<rparr>)"
      using assms False nodes pick ns m c by (auto simp: build_path_def m_def [symmetric] Let_def)
    then show ?thesis using False pick ns by (intro finished [OF _ c m_def]) auto
  qed
qed

lemma tame_build_path:
  assumes "build_path e i t n = Inr n'"
  shows "tame (pview n) (pview n')"
  using assms
proof (cases rule: build_pathE)
  case (finished m c cs ns rest b)
  have "length ns = path_size" "hd ns = cn_node c"
    using pick_nodes_spec [OF finished(4)] by (auto simp: path_size_def)
  then show ?thesis
    using finished(1-3) unfolding finished(5) by (intro tame_new_path) (auto simp: fields_finish_path)
qed auto

lemma tame_build_path_if_needed: "build_path_if_needed e t f n = Inr n' \<Longrightarrow> tame (pview n) (pview n')"
  by (auto simp: build_path_if_needed_def Let_def split: if_splits dest: tame_build_path)

lemma tame_swarm_reply: "swarm_reply e cb s n = Inr n' \<Longrightarrow> tame (pview n) (pview n')"
  by (auto simp: swarm_reply_def split: swarm_callback.splits option.splits list.splits dest: tame_call_back)

lemma tame_get_swarm: "get_swarm e pk cb n = Inr n' \<Longrightarrow> tame (pview n) (pview n')"
  by (auto simp: get_swarm_def Let_def split: option.splits list.splits if_splits dest!: tame_swarm_reply)

lemma pview_get_random_nodes [simp]: "pview (get_random_nodes e cnt k n) = pview n"
  by (simp add: get_random_nodes_def Let_def)

lemma tame_check_queue: "check_queue e t n = Inr n' \<Longrightarrow> tame (pview n) (pview n')"
proof -
  have "tame (pview n) (pview (n\<lparr> n_request_queue := (n_request_queue n)(t := filter P (n_request_queue n t)) \<rparr>))" for P
    by (auto simp: view_defs)
  then show "check_queue e t n = Inr n' \<Longrightarrow> tame (pview n) (pview n')"
    by (auto simp: check_queue_def comp_def dest!: tame_call_backs intro: tame_trans)
qed

lemma tame_check_queues: "res_fold (check_queue e) ts n = Inr n' \<Longrightarrow> tame (pview n) (pview n')"
  by (induction ts arbitrary: n) (auto simp: res_bind_eq_Inr dest!: tame_check_queue intro: tame_trans)

lemma tame_check_timeouts: "check_request_queue_timeouts e i n = Inr n' \<Longrightarrow> tame (pview n) (pview n')"
  by (auto simp: check_request_queue_timeouts_def Let_def res_bind_eq_Inr simp del: res_fold.simps split: if_splits dest!: tame_check_queues)

lemma tame_run_task: "run_task e t n = Inr n' \<Longrightarrow> tame (pview n) (pview n')"
  by (cases t) (auto simp: run_task_def dest: tame_build_path tame_build_path_if_needed tame_establish_and_store
      tame_refresh_snode_cache tame_refresh_from_seed_nodes tame_send_onion_request_impl tame_check_timeouts tame_get_swarm)

lemma tame_connection_established: "tame (pview n) (pview (connection_established e target p n))"
  by (auto simp: connection_established_def path_connection_ready_def Let_def view_defs post_def add_pending_request_def
      split: purpose.splits list.splits)

lemma tame_connection_closed: "tame (pview n) (pview (connection_closed c target h n))"
proof -
  let ?drop = "\<lambda>t n. case find (uses_connection c target) (n_paths n t) of Some p \<Rightarrow> drop_path_when_empty t p n | None \<Rightarrow> n"
  let ?m = "n\<lparr> n_open := filter (\<lambda>i. i \<noteq> c) (n_open n),
    n_unused_connections := filter (\<lambda>u. \<not> (cn_node u = target \<and> cn_conn u = Some c)) (n_unused_connections n) \<rparr>"
  have drop: "tame (pview n) (pview (?drop t n))" for t n by (auto simp: tame_drop_path split: option.splits)
  have "tame (pview n) (pview (fold ?drop ts n))" for ts n
    by (induction ts arbitrary: n) (auto intro: tame_trans drop)
  moreover have "tame (pview n) (pview ?m)" by (auto simp: view_defs list_all_iff)
  ultimately show ?thesis unfolding connection_closed_def Let_def pview_small by (blast intro: tame_trans)
qed

lemma tame_request_answered:
  assumes "request_answered e info conn cb m n = Inr n'"
  shows "tame (pview n) (pview n')"
proof (cases "validate_response e m")
  case (Inl x)
  obtain code h msg where x: "x = (code, h, msg)" by (cases x)
  obtain n1 res where "handle_errors e info conn (m_timed_out m) code h (Some msg) cb (remove_pending_request conn n) = (n1, res)" by fastforce
  then show ?thesis using assms Inl x
    by (auto simp: request_answered_def split: option.splits dest!: tame_handle_errors tame_call_back intro: tame_trans)
next
  case (Inr x)
  then show ?thesis using assms by (auto simp: request_answered_def res_bind_eq_Inr split: prod.splits dest!: tame_call_back)
qed

lemma pview_service_nodes_answered: "service_nodes_answered e i conn m n = Inr n' \<Longrightarrow> pview n' = pview n"
  by (auto simp: service_nodes_answered_def seed_node_response_def refresh_connection_failed_def Let_def res_bind_eq_Inr
      split: option.splits if_splits)

lemma tame_send_onion_request: "send_onion_request e dest body pk k tmo btmo t n = Inr n' \<Longrightarrow> tame (pview n) (pview n')"
  by (auto simp: send_onion_request_def dest: tame_send_onion_request_impl)

section \<open>Runs\<close>

definition net_ok :: "network \<Rightarrow> bool" where
  "net_ok n \<longleftrightarrow> paths_ok (pview n) \<and> quiet (pview n)"

lemma net_ok_tame: "tame (pview n) (pview n') \<Longrightarrow> net_ok n \<Longrightarrow> net_ok n'"
  by (auto simp: net_ok_def tame_def)

lemma net_ok_close: "close_connections e n = Inr n' \<Longrightarrow> net_ok n'"
  by (auto simp: close_connections_def res_bind_eq_Inr net_ok_def) (auto simp: view_defs)

lemma net_ok_step: "net_step n ks n' \<Longrightarrow> net_ok n \<Longrightarrow> net_ok n'"
proof (induction rule: net_step.induct)
  case (call_download e url pk k tmo btmo n n')
  then show ?case
    by (auto simp: download_url_def download_file_def res_bind_eq_Inr split: option.splits dest!: tame_send_onion_request intro: net_ok_tame)
next
  case (call_resume n)
  then show ?case by (auto simp: resume_def net_ok_def view_defs)
next
  case (disk e n d n' d')
  then show ?case by (auto simp: disk_write_thread_step_def write_cache_def clear_disk_cache_def net_ok_def split: if_splits)
next
  case (failed n cs i target p cs' h n')
  then show ?case by (auto simp: connection_failed_def res_bind_eq_Inr net_ok_def dest!: tame_connection_failed_callback)
next
  case (job n ts t ts' e n')
  then show ?case using tame_run_task [of e t _ n'] net_ok_tame by fastforce
next
  case (established n cs i target p cs' e)
  then show ?case using tame_connection_established [of "n\<lparr> n_connecting := cs @ cs' \<rparr>" e target p] by (auto intro: net_ok_tame)
next
  case (answered n cs info conn cb cs' e m n')
  then show ?case using tame_request_answered [of e info conn cb m _ n'] net_ok_tame by fastforce
next
  case (nodes_answered n cs i conn cs' e m n')
  then show ?case by (auto simp: net_ok_def dest!: pview_service_nodes_answered)
next
  case (closed n c target h)
  then show ?case by (rule net_ok_tame [OF tame_connection_closed])
next
  case (call_random n k e cnt)
  then show ?case by (simp add: net_ok_def)
next
  case (call_clear n)
  then show ?case by (simp add: net_ok_def clear_cache_def)
qed (auto simp: upload_file_to_server_def suspend_def elim: net_ok_tame [rotated] net_ok_close dest: tame_send_onion_request tame_get_swarm)

lemma net_ok_make: "net_ok (make_network e cache tn single pre st)"
proof -
  have load: "pview (fst (load_cache_from_disk e d n)) = pview n" for d n
    by (simp add: load_cache_from_disk_def Let_def split: option.splits)
  have "pview (fold (\<lambda>i n. post [Build_path (e_ids e i) Standard]
      (n\<lparr> n_in_progress_path_builds := smap_put (e_ids e i) Standard (n_in_progress_path_builds n) \<rparr>)) is n) = pview n" for "is" n
    by (induction "is" arbitrary: n) auto
  then have "pview (make_network e cache tn single pre st) = pview (empty_network tn single st)"
    by (simp add: make_network_def pre_build_def Let_def load split: option.splits)
  then show ?thesis by (simp add: net_ok_def) (simp add: view_defs empty_network_def)
qed

lemma net_run_ok: "net_run issued n \<Longrightarrow> net_ok n"
  by (induction rule: net_run.induct) (auto intro: net_ok_make net_ok_step)

text \<open>
  C15: in every state the network can reach, each path in use has exactly three nodes, begins with the node its connection leads
  to, was built on an established connection and has failed less than three times; and while the network is suspended
  there are no paths and no requests waiting for one.
\<close>

theorem paths_invariant:
  assumes "net_run issued n"
  shows "list_all path_ok (n_paths n t) \<and> (n_suspended n \<longrightarrow> n_paths n t = [] \<and> n_request_queue n t = [])"
  using net_run_ok [OF assms] by (auto simp: net_ok_def view_defs)

text \<open>
  C21: a path that \<open>build_path\<close> adds has three nodes with pairwise different addresses: the node of the oldest unused connection,
  then two unused nodes; no node with one of these addresses stays among the unused ones.
\<close>

theorem new_path_nodes:
  assumes "build_path e i t n = Inr n'" "n_paths n' t \<noteq> n_paths n t"
  shows "\<exists>c a b. n_paths n' t = n_paths n t @ [\<lparr> pt_id = i, pt_conn = c, pt_nodes = [cn_node c, a, b], pt_failure_count = 0 \<rparr>] \<and>
      c = hd (n_unused_connections n) \<and>
      {a, b} \<subseteq> set (if length (n_unused_nodes n) < path_size then get_unused_nodes e n else n_unused_nodes n) \<and>
      distinct (map (node_ip (e_quic e)) [cn_node c, a, b]) \<and>
      list_all (\<lambda>sn. node_ip (e_quic e) sn \<notin> set (map (node_ip (e_quic e)) [cn_node c, a, b])) (n_unused_nodes n')"
  using assms(1)
proof (cases rule: build_pathE)
  case waiting
  then show ?thesis using assms(2) by (simp add: pview_def)
next
  case (finished m c cs ns rest d)
  obtain more where ns: "length ns = path_size" "ns = [cn_node c] @ more" "set more \<subseteq> set (n_unused_nodes m)" "distinct (map (node_ip (e_quic e)) ns)"
    using pick_nodes_spec [OF finished(4)] by (auto simp: path_size_def)
  then obtain a b where ab: "more = [a, b]" by (auto simp: path_size_def length_Suc_conv numeral_3_eq_3)
  let ?u = "if length (n_unused_nodes n) < path_size then get_unused_nodes e n else n_unused_nodes n"
  have m: "n_paths m = n_paths n" "n_unused_nodes m = ?u" by (auto simp: finished(3))
  have "n_paths n' t = n_paths n t @ [\<lparr> pt_id = i, pt_conn = c, pt_nodes = [cn_node c, a, b], pt_failure_count = 0 \<rparr>]"
    using ns(2) ab m by (simp add: finished(5) fields_finish_path)
  moreover have "list_all (\<lambda>sn. node_ip (e_quic e) sn \<notin> set (map (node_ip (e_quic e)) [cn_node c, a, b])) (n_unused_nodes n')"
    using fields_finish_path(4) ns(2) ab unfolding finished(5) list_all_iff by fastforce
  moreover have "{a, b} \<subseteq> set ?u" using ns(3) ab m(2) by simp
  ultimately show ?thesis
    using ns ab finished(2) by (intro exI [of _ c] exI [of _ a] exI [of _ b]) auto
qed

text \<open>
  A request sent while the network is suspended is answered at once, with the error code for a suspended network: it is
  neither queued nor lost.
\<close>

theorem suspended_requests_fail:
  assumes "net_run issued n" "n_suspended n"
  shows "send_onion_request e dest body pk k tmo btmo t n =
    Inr (answer k (Response (failure_response False error_network_suspended ''Network is suspended.'')) (post [Build_path_if_needed t False] n))"
proof -
  have "find_valid_path e n info [] = None" for info
    by (simp add: find_valid_path_def Let_def split: option.splits)
  moreover have "n_paths n t = []" using net_run_ok [OF assms(1)] assms(2) by (auto simp: net_ok_def view_defs)
  ultimately show ?thesis
    using assms(2) by (simp add: send_onion_request_def send_onion_request_impl_def make_request_def Let_def post_def)
qed

lemma failure_call_back:
  "\<not> rs_success r \<Longrightarrow> call_back e cb r n = Inr n' \<Longrightarrow>
   n_in_progress_path_builds n' = n_in_progress_path_builds n \<and> n_single_path_mode n' = n_single_path_mode n \<and> n_suspended n' = n_suspended n"
  by (induction cb) (auto simp: answer_def post_def refresh_response_def refresh_nodes_def Let_def res_bind_eq_Inr split: option.splits)

lemma failure_call_backs:
  "\<not> rs_success r \<Longrightarrow> res_fold (\<lambda>(info, cb). call_back e cb r) q n = Inr n' \<Longrightarrow>
   n_in_progress_path_builds n' = n_in_progress_path_builds n \<and> n_single_path_mode n' = n_single_path_mode n \<and> n_suspended n' = n_suspended n"
proof (induction q arbitrary: n)
  case (Cons x q)
  then obtain m where "call_back e (snd x) r n = Inr m" "res_fold (\<lambda>(info, cb). call_back e cb r) q m = Inr n'"
    by (auto simp: res_bind_eq_Inr split: prod.splits)
  with Cons.IH [of m] Cons.prems(1) failure_call_back [of r e "snd x" n m] show ?case by simp
qed simp

lemma suspended_state:
  assumes "suspend e n = Inr n'"
  shows "n_suspended n'" "n_paths n' = (\<lambda>t. [])" "n_request_queue n' = (\<lambda>t. [])" "n_path_build_queue n' = []"
    "n_single_path_mode n' = n_single_path_mode n" "n_in_progress_path_builds n' = n_in_progress_path_builds n"
proof -
  let ?r = "failure_response False error_network_suspended ''Network is suspended.''"
  obtain m where m: "res_fold (\<lambda>(info, cb). call_back e cb ?r) (concat (map (n_request_queue n) all_types)) (n\<lparr> n_suspended := True \<rparr>) = Inr m"
    and n': "n' = update_status Disconnected
       (m\<lparr> n_open := [], n_request_queue := (\<lambda>t. []), n_paths := (\<lambda>t. []), n_path_build_queue := [], n_paths_pending_drop := [],
           n_unused_connections := [], n_in_progress_connections := [], n_refresh_results := None, n_current_refresh_id := None \<rparr>)"
    using assms by (auto simp: suspend_def close_connections_def res_bind_eq_Inr)
  have "\<not> rs_success ?r" by (simp add: failure_response_def)
  from failure_call_backs [OF this m]
  show "n_suspended n'" "n_paths n' = (\<lambda>t. [])" "n_request_queue n' = (\<lambda>t. [])" "n_path_build_queue n' = []"
    "n_single_path_mode n' = n_single_path_mode n" "n_in_progress_path_builds n' = n_in_progress_path_builds n"
    by (auto simp: n' update_status_def)
qed

text \<open>
  C39 (code bug): path builds that are registered when the network is suspended block requests after it is resumed. Suppose that at
  least as many builds of a type are registered as there should be paths of it. A build that runs while
  suspended returns without leaving the list of builds, and closing the connections does not clear this list, so they are
  all still registered after resuming, with no path left. A request of this type is then only queued, and the job
  posted for it builds nothing; nor does any other such job, in whatever state, as long as the list and the mode are the same.
\<close>

theorem stale_builds_block_paths:
  assumes "suspend e n = Inr n'"
    "min_path_count t (n_single_path_mode n) \<le> length (filter (\<lambda>(i, t'). t' = t) (n_in_progress_path_builds n))"
  shows "run_task e' (Build_path i t') n' = Inr n' \<and>
    n_in_progress_path_builds (resume n') = n_in_progress_path_builds n \<and> n_paths (resume n') t = [] \<and>
    (\<exists>m. send_onion_request e' dest body pk k tmo btmo t (resume n') = Inr m \<and>
       n_request_queue m t = [(make_request e' dest body pk tmo btmo t None, User k)] \<and> Build_path_if_needed t False \<in> set (n_tasks m) \<and>
       n_answers m = n_answers n' \<and> n_commands m = n_commands n' \<and> run_task e' (Build_path_if_needed t False) m = Inr m) \<and>
    (\<forall>m found. n_in_progress_path_builds m = n_in_progress_path_builds n \<and> n_single_path_mode m = n_single_path_mode n \<longrightarrow>
       run_task e' (Build_path_if_needed t found) m = Inr m)"
proof -
  note n' = suspended_state [OF assms(1)]
  have "0 < min_path_count t (n_single_path_mode n)" by (simp add: min_path_count_def)
  then have stale: "run_task e' (Build_path_if_needed t found) m = Inr m"
    if "n_in_progress_path_builds m = n_in_progress_path_builds n" "n_single_path_mode m = n_single_path_mode n" for m found
    using assms(2) that by (auto simp: run_task_def build_path_if_needed_def Let_def)
  have none: "find_valid_path e' m info [] = None" for m info by (simp add: find_valid_path_def Let_def split: option.splits)
  define m where "m = projr (send_onion_request e' dest body pk k tmo btmo t (resume n'))"
  have m: "send_onion_request e' dest body pk k tmo btmo t (resume n') = Inr m \<and>
      n_request_queue m t = [(make_request e' dest body pk tmo btmo t None, User k)] \<and> Build_path_if_needed t False \<in> set (n_tasks m) \<and>
      n_answers m = n_answers n' \<and> n_commands m = n_commands n' \<and>
      n_in_progress_path_builds m = n_in_progress_path_builds n \<and> n_single_path_mode m = n_single_path_mode n"
    using n' by (simp add: m_def send_onion_request_def send_onion_request_impl_def make_request_def none resume_def post_def Let_def)
  then have "run_task e' (Build_path_if_needed t False) m = Inr m" by (intro stale) simp_all
  moreover have "run_task e' (Build_path i t') n' = Inr n'" using n'(1) by (simp add: run_task_def build_path_def)
  ultimately show ?thesis using n' m stale by (auto simp: resume_def)
qed

end
