(* ===== verification/Network_Responses.thy ===== *)
theory Network_Responses
  imports Network_Calls
begin

text \<open>
  What the network layer makes of answers: the status code of a batch, the node cache after a refresh from three
  nodes, and the cache read back from disk.
\<close>

section \<open>Batch requests\<close>

lemma batch_status_codes:
  assumes "list_all2 (\<lambda>r c. json_number ''code'' r = Some (Inr c) \<and> c \<noteq> - 1 \<and> \<not> json_contains ''headers'' r) rs codes"
  shows "c0 \<noteq> - 1 \<Longrightarrow>
    \<exists>b. batch_status rs c0 hs body = Inr (if distinct_adj (c0 # codes) then last (c0 # codes) else 200, hs, b)"
  using assms
proof (induction rs codes arbitrary: c0 body rule: list_all2_induct)
  case (Cons r rs c codes)
  obtain b where "(case (json_contains ''body'' r, json_at ''body'' r) of (True, Inr (JStr s)) \<Rightarrow> Some s | _ \<Rightarrow> body) = b" by blast
  then show ?case using Cons.IH [of c b] Cons.hyps(1) Cons.prems by (cases "c = c0") (auto simp: result_code_def)
qed simp

text \<open>
  C37 (code bug): the status code of a batch is the code of its last result when no two neighbouring results have the same
  code, and 200 otherwise. So a batch in which every request failed with the same error counts as successful, and one whose
  last request failed after others succeeded counts as failed: the opposite of what the comment says.
\<close>

theorem batch_code:
  assumes "list_all2 (\<lambda>r c. json_number ''code'' r = Some (Inr c) \<and> c \<noteq> - 1 \<and> \<not> json_contains ''headers'' r) rs codes" "codes \<noteq> []"
  shows "\<exists>b. batch_status rs (- 1) hs body = Inr (if distinct_adj codes then last codes else 200, hs, b)"
proof -
  obtain r rs' c cs where l: "rs = r # rs'" "codes = c # cs" using assms by (cases rs; cases codes) auto
  moreover obtain b where "(case (json_contains ''body'' r, json_at ''body'' r) of (True, Inr (JStr s)) \<Rightarrow> Some s | _ \<Rightarrow> body) = b" by blast
  ultimately show ?thesis using assms(1) batch_status_codes [of rs' cs c hs b] by (auto simp: result_code_def)
qed

section \<open>Refreshing the cache\<close>

lemma set_intersection_mset:
  "sorted (map key xs) \<Longrightarrow> sorted (map key ys) \<Longrightarrow>
   image_mset key (mset (set_intersection key xs ys)) = image_mset key (mset xs) \<inter># image_mset key (mset ys)"
proof (induction key xs ys rule: set_intersection.induct)
  case (3 key x xs y ys)
  consider "key x < key y" | "key y < key x" | "key x = key y" by (rule linorder_cases)
  then show ?case
  proof cases
    case 1
    then have "key x \<notin># image_mset key (mset (y # ys))" using 3(5) by auto
    then show ?thesis using 3(1,4,5) 1 by (simp add: inter_add_left1)
  next
    case 2
    then have "key y \<notin># image_mset key (mset (x # xs))" using 3(4) by auto
    then show ?thesis using 3(2,4,5) 2 by (auto simp: inter_add_right1)
  next
    case eq: 3
    then show ?thesis using 3(3,4,5) by auto
  qed
qed simp_all

lemma set_intersection_subset: "set (set_intersection key xs ys) \<subseteq> set xs"
  by (induction key xs ys rule: set_intersection.induct) auto

lemma set_intersection_sorted: "sorted (map key xs) \<Longrightarrow> sorted (map key (set_intersection key xs ys))"
proof (induction key xs ys rule: set_intersection.induct)
  case (3 key x xs y ys)
  then show ?case using set_intersection_subset [of key xs ys] by (auto simp: subset_iff)
qed simp_all

text \<open>
  C36: the third of three responses completes a refresh: the new cache is the multiset intersection of the three lists of nodes
  (compared by address, port, key, swarm and version), and the swarms are generated from it. It is an
  intersection whatever the order of the responses and of the nodes in them.
\<close>

theorem refresh_keeps_common_nodes:
  assumes "n_refresh_results n = Some [r1, r2]" "refresh_nodes e r = Inr r3" "r1 \<noteq> []" "r2 \<noteq> []" "r3 \<noteq> []" "\<forall>xs. mset (e_shuffle_nodes e xs) = mset xs"
  shows "let ord = node_order (e_quic e) in \<exists>n'. refresh_response e i r n = Inr n' \<and>
    image_mset ord (mset (n_snode_cache n')) = image_mset ord (mset r1) \<inter># image_mset ord (mset r2) \<inter># image_mset ord (mset r3) \<and>
    set (n_snode_cache n') \<subseteq> set r1 \<and> n_all_swarms n' = generate_swarms (n_snode_cache n') \<and> n_current_refresh_id n' = None"
proof -
  define ord where "ord = node_order (e_quic e)"
  let ?common = "set_intersection ord (set_intersection ord (sort_key ord r1) (sort_key ord r2)) (sort_key ord r3)"
  let ?m = "n\<lparr> n_refresh_results := Some [r1, r2, r3], n_in_progress_refresh_count := n_in_progress_refresh_count n - 1 \<rparr>"
  let ?n = "refresh_snode_cache_complete e ?common ?m"
  have "refresh_response e i r n = Inr ?n"
    using assms(1-5) by (simp add: refresh_response_def num_snodes_to_refresh_cache_from_def ord_def Let_def)
  moreover have cache: "n_snode_cache ?n = e_shuffle_nodes e ?common"
    by (simp add: refresh_snode_cache_complete_def post_def Let_def)
  moreover have "n_all_swarms ?n = generate_swarms (n_snode_cache ?n)" "n_current_refresh_id ?n = None"
    by (simp_all add: refresh_snode_cache_complete_def post_def Let_def)
  moreover have "image_mset ord (mset (n_snode_cache ?n)) = image_mset ord (mset r1) \<inter># image_mset ord (mset r2) \<inter># image_mset ord (mset r3)"
    using assms(6) unfolding cache by (simp add: set_intersection_mset set_intersection_sorted)
  moreover have "set (n_snode_cache ?n) \<subseteq> set r1"
  proof -
    have "set (n_snode_cache ?n) = set ?common" unfolding cache using assms(6) by (metis set_mset_mset)
    then show ?thesis
      using set_intersection_subset [of ord "set_intersection ord (sort_key ord r1) (sort_key ord r2)" "sort_key ord r3"]
        set_intersection_subset [of ord "sort_key ord r1" "sort_key ord r2"] by auto
  qed
  ultimately show ?thesis unfolding Let_def ord_def [symmetric] by blast
qed

section \<open>The cache on disk\<close>

text \<open>What a stored list of nodes is read back to.\<close>

definition stored_nodes :: "service_node list \<Rightarrow> service_node list" where
  "stored_nodes nodes =
     map (\<lambda>sn. sn\<lparr> sn_version := trim_version (sn_version sn) \<rparr>) (filter (\<lambda>sn. trim_version (sn_version sn) \<noteq> [0]) nodes)"

lemma file_lines_append: "CHR 0x0A \<notin> set xs \<Longrightarrow> file_lines line (xs @ CHR 0x0A # s) = (line @ xs) # file_lines [] s"
  by (induction xs arbitrary: line) auto

lemma file_lines_content:
  "\<forall>sn \<in> set nodes. CHR 0x0A \<notin> set (node_to_disk enc sn) \<Longrightarrow> file_lines [] (cache_content enc nodes) = map (node_to_disk enc) nodes"
  by (induction nodes) (auto simp: cache_content_def file_lines_append)

lemma show_int_newline: "CHR 0x0A \<notin> set (show_int i)"
proof -
  have "CHR 0x0A \<notin> insert (CHR ''-'') (set ''0123456789'')" by code_simp
  then show ?thesis using show_int_chars [of i] by blast
qed

lemma node_to_disk_newline:
  assumes "CHR 0x0A \<notin> set (sn_host sn)" "CHR 0x0A \<notin> set (to_hex enc (sn_key sn))"
  shows "CHR 0x0A \<notin> set (node_to_disk enc sn)"
  using assms show_int_newline join_chars [of "CHR 0x0A" "''.''" "map show_int (sn_version sn)"]
  by (auto simp: node_to_disk_def dest!: join_chars)

lemma load_written_nodes:
  assumes "quic_ok q" "hex_ok enc" "\<forall>k. set (to_hex enc k) \<inter> {CHR ''|'', CHR 0x0A} = {}"
    "\<forall>sn \<in> set nodes. node_ok q sn \<and> CHR 0x0A \<notin> set (sn_host sn)"
  shows "load_nodes q enc (cache_content enc nodes) = stored_nodes nodes"
proof -
  have "\<forall>sn \<in> set nodes. CHR 0x0A \<notin> set (node_to_disk enc sn)"
  proof
    fix sn
    assume "sn \<in> set nodes"
    then show "CHR 0x0A \<notin> set (node_to_disk enc sn)" using assms(3,4) by (intro node_to_disk_newline) auto
  qed
  moreover have "node_from_disk q enc (node_to_disk enc sn) False =
      (if trim_version (sn_version sn) = [0] then Inl Invalid_argument else Inr (sn\<lparr> sn_version := trim_version (sn_version sn) \<rparr>))"
    if "sn \<in> set nodes" for sn
    using node_disk_round_trip [OF assms(1,2), of sn False] assms(3,4) that by auto
  then have "concat (map (\<lambda>sn. case node_from_disk q enc (node_to_disk enc sn) False of Inr sn \<Rightarrow> [sn] | Inl x \<Rightarrow> []) ns) = stored_nodes ns"
    if "set ns \<subseteq> set nodes" for ns
    using that by (induction ns) (auto simp: stored_nodes_def)
  ultimately show ?thesis by (simp add: load_nodes_def file_lines_content comp_def)
qed

text \<open>
  The node cache survives a restart: what the disk thread writes, the next network object of the same kind reads back, the nodes
  in the same order, their versions without trailing zeros and without the nodes whose version is zero, with the swarms that
  follow from them and the time of the write.
\<close>

theorem cache_survives_restart:
  assumes "quic_ok (e_quic e)" "hex_ok (e_enc e)" "\<forall>k. set (to_hex (e_enc e) k) \<inter> {CHR ''|'', CHR 0x0A} = {}"
    "\<forall>sn \<in> set (n_snode_cache n). node_ok (e_quic e) sn \<and> CHR 0x0A \<notin> set (sn_host sn)"
    "n_need_write n" "write_cache e (n, open_cache (n_use_testnet n) d0) = (n', d)" "n_use_testnet m = n_use_testnet n"
  shows "fst (load_cache_from_disk e d m) =
    m\<lparr> n_last_snode_cache_update := e_now e, n_snode_cache := stored_nodes (n_snode_cache n), n_all_swarms := generate_swarms (stored_nodes (n_snode_cache n)) \<rparr>"
proof -
  have "load_nodes (e_quic e) (e_enc e) (cache_content (e_enc e) (n_snode_cache n)) = stored_nodes (n_snode_cache n)"
    using assms(1-4) by (rule load_written_nodes)
  moreover have "cd_pool (open_cache (n_use_testnet m) d) = Some (cache_content (e_enc e) (n_snode_cache n), e_now e)"
    using assms(5-7) by (auto simp: write_cache_def open_cache_def Let_def split: if_splits)
  ultimately show ?thesis by (simp add: load_cache_from_disk_def Let_def)
qed

section \<open>The list of a seed node\<close>

abbreviation is_bt_dict :: "bt_value \<Rightarrow> bool" where
  "is_bt_dict v \<equiv> (case v of BtDict d \<Rightarrow> True | _ \<Rightarrow> False)"

text \<open>The nodes of the entries that can be read, in their order.\<close>

fun readable_nodes :: "quic_lib \<Rightarrow> encodings \<Rightarrow> bt_value list \<Rightarrow> service_node list" where
  "readable_nodes q enc [] = []"
| "readable_nodes q enc (v # vs) =
     (case v of BtDict d \<Rightarrow> (case node_from_bt q enc d of Inr sn \<Rightarrow> [sn] | Inl x \<Rightarrow> []) | _ \<Rightarrow> []) @ readable_nodes q enc vs"

definition reads_defined :: "quic_lib \<Rightarrow> encodings \<Rightarrow> bt_value list \<Rightarrow> bool" where
  "reads_defined q enc vs \<longleftrightarrow> (\<forall>d. BtDict d \<in> set vs \<longrightarrow> node_from_bt q enc d \<noteq> Inl Undefined_behaviour)"

lemma bt_nodes_loop_dicts:
  "list_all is_bt_dict vs \<Longrightarrow> reads_defined q enc vs \<Longrightarrow>
   bt_nodes_loop q enc (vs @ rest, sns) = bt_nodes_loop q enc (rest, sns @ readable_nodes q enc vs)"
proof (induction vs arbitrary: sns)
  case (Cons v vs)
  then obtain d where v: "v = BtDict d" by (cases v) auto
  have "node_from_bt q enc d \<noteq> Inl Undefined_behaviour" "reads_defined q enc vs"
    using Cons.prems(2) by (auto simp: v reads_defined_def)
  then show ?case
    using Cons.IH Cons.prems(1) bt_nodes_loop.simps [of q enc "((v # vs) @ rest, sns)"]
    by (cases "node_from_bt q enc d") (simp_all add: v bt_node_iter_def)
qed simp

text \<open>An iteration that changes nothing is repeated for ever.\<close>

lemma bt_nodes_loop_stuck:
  assumes "fst st \<noteq> []" "bt_node_iter q enc st = Inr st"
  shows "bt_nodes_loop q enc st = None"
proof (rule ccontr)
  assume "bt_nodes_loop q enc st \<noteq> None"
  then obtain y where y: "bt_nodes_loop q enc st = Some y" by blast
  have "(q, enc, st) \<noteq> (q, enc, st)"
    by (rule bt_nodes_loop.raw_induct [OF _ y, where P = "\<lambda>q' enc' st' y. (q', enc', st') \<noteq> (q, enc, st)"])
      (use assms in \<open>fastforce split: if_splits\<close>)
  then show False by simp
qed

text \<open>
  C38 (code bug): reading the node list of a seed node ends exactly when every entry is a dict, and then it gives
  the nodes of the readable entries in their order. At the first entry of another type an iteration leaves the consumer and the
  result as they are, because the exception is caught and the consumer has not moved: the loop does not end.
\<close>

theorem seed_list_termination:
  assumes "reads_defined q enc vs"
  shows "if list_all is_bt_dict vs then bt_nodes_loop q enc (vs, []) = Some (Inr (readable_nodes q enc vs))
    else bt_nodes_loop q enc (vs, []) = None \<and>
      (\<exists>pre v rest. vs = pre @ v # rest \<and> list_all is_bt_dict pre \<and> \<not> is_bt_dict v \<and>
        bt_nodes_loop q enc (vs, []) = bt_nodes_loop q enc (v # rest, readable_nodes q enc pre) \<and>
        bt_node_iter q enc (v # rest, readable_nodes q enc pre) = Inr (v # rest, readable_nodes q enc pre))"
proof (cases "list_all is_bt_dict vs")
  case True
  then show ?thesis using bt_nodes_loop_dicts [OF True assms, of "[]" "[]"] by (simp add: bt_nodes_loop.simps [of q enc "([], sns)" for sns])
next
  case False
  then obtain pre v rest where vs: "vs = pre @ v # rest" "\<not> is_bt_dict v" "\<forall>x \<in> set pre. is_bt_dict x"
    using split_list_first_prop [of vs "\<lambda>v. \<not> is_bt_dict v"] by (auto simp: list_all_iff)
  have "reads_defined q enc pre" using assms by (auto simp: vs(1) reads_defined_def)
  then have loop: "bt_nodes_loop q enc (vs, []) = bt_nodes_loop q enc (v # rest, readable_nodes q enc pre)"
    using bt_nodes_loop_dicts [of pre q enc "v # rest" "[]"] vs(1,3) by (simp add: list_all_iff)
  have iter: "bt_node_iter q enc (v # rest, readable_nodes q enc pre) = Inr (v # rest, readable_nodes q enc pre)"
    using vs(2) by (cases v) (simp_all add: bt_node_iter_def)
  then have "bt_nodes_loop q enc (vs, []) = None" using loop bt_nodes_loop_stuck [OF _ iter] by simp
  moreover have "list_all is_bt_dict pre" using vs(3) by (simp add: list_all_iff)
  ultimately show ?thesis using False vs(1,2) loop iter by auto
qed

end
