(* ===== verification/Network_Witnesses.thy ===== *)
theory Network_Witnesses
  imports Key_Witnesses Network_Paths Network_Responses
begin

text \<open>
  Concrete inputs for the theorems on onion requests and the network: a JSON codec for flat objects, a cipher with a
  fixed digest, twelve service nodes, and a run of the event loop in which a path is built.
\<close>

section \<open>Libraries\<close>

fun write_text :: "string \<Rightarrow> string" where
  "write_text [] = ''.''"
| "write_text (c # s) = CHR ''+'' # c # write_text s"

fun read_text :: "string \<Rightarrow> string \<times> string" where
  "read_text (m # c # r) = (if m = CHR ''+'' then (case read_text r of (s, r') \<Rightarrow> (c # s, r')) else ([], c # r))"
| "read_text _ = ([], [])"

lemma read_write_text: "read_text (write_text s @ r) = (s, r)"
proof (induction s)
  case Nil
  then show ?case by (cases r) auto
qed auto

text \<open>Integers in unary, after their sign; other values than strings and integers are not needed.\<close>

definition write_value :: "json \<Rightarrow> string" where
  "write_value j =
     (case j of JStr s \<Rightarrow> CHR ''s'' # write_text s
      | JInt i \<Rightarrow> (if i < 0 then CHR ''n'' else CHR ''p'') # write_text (replicate (nat \<bar>i\<bar>) (CHR ''1'')) | _ \<Rightarrow> '''')"

definition read_value :: "string \<Rightarrow> json \<times> string" where
  "read_value b =
     (case read_text (tl b) of (s, r) \<Rightarrow>
        (if hd b = CHR ''s'' then JStr s else if hd b = CHR ''n'' then JInt (- int (length s)) else JInt (int (length s)), r))"

fun write_pairs :: "(string \<times> json) list \<Rightarrow> string" where
  "write_pairs [] = ''''"
| "write_pairs ((k, v) # m) = CHR '','' # write_text k @ write_value v @ write_pairs m"

fun read_pairs :: "nat \<Rightarrow> string \<Rightarrow> (string \<times> json) list" where
  "read_pairs 0 b = []"
| "read_pairs (Suc f) [] = []"
| "read_pairs (Suc f) (_ # b) =
     (case read_text b of (k, r) \<Rightarrow> case read_value r of (v, r') \<Rightarrow> (k, v) # read_pairs f r')"

definition ref_json :: json_lib where
  "ref_json = \<lparr> json_parse = (\<lambda>b. Some (JObj (read_pairs (length b) b))),
     json_dump = (\<lambda>j. case j of JObj m \<Rightarrow> Some (write_pairs m) | _ \<Rightarrow> None) \<rparr>"

lemma read_write_value: "flat_value v \<Longrightarrow> read_value (write_value v @ r) = (v, r)"
  by (auto simp: flat_value_def write_value_def read_value_def read_write_text split: json.splits)

lemma read_write_pairs:
  "\<forall>p \<in> set m. flat_value (snd p) \<Longrightarrow> length m \<le> f \<Longrightarrow> read_pairs f (write_pairs m) = m"
proof (induction m arbitrary: f)
  case Nil
  then show ?case by (cases f) auto
next
  case (Cons p m)
  then show ?case by (cases f; cases p) (auto simp: read_write_text read_write_value)
qed

lemma ref_json_ok: "json_ok ref_json"
proof -
  have "length m \<le> length (write_pairs m)" for m by (induction m) (auto simp: le_Suc_eq)
  then show ?thesis by (auto simp: json_ok_def ref_json_def read_write_pairs)
qed

definition ref_onion_crypto :: onion_crypto where
  "ref_onion_crypto = \<lparr> gcm_encrypt = (\<lambda>k iv m. m), gcm_decrypt = (\<lambda>k iv m. m), gcm_digest = (\<lambda>k iv m. replicate 16 (CHR ''D'')),
     hmacsha256 = (\<lambda>k m. pad32 m) \<rparr>"

lemma ref_onion_ok: "onion_ok tag_crypto ref_onion_crypto ref_curve"
  using tag_crypto_ok ref_curve_ok by (simp add: onion_ok_def ref_onion_crypto_def GCM_DIGEST_SIZE_def)

lemma ref_hex_text: "hex_text ref_encodings"
proof -
  have "list_all (\<lambda>ch. (of_char ch :: nat) < 128) hex_digits" by code_simp
  then have "ascii (to_hex ref_encodings k)" for k
    using hex_encode_text(2) [of k] unfolding ascii_def list_all_iff ref_encodings_def by auto
  then show ?thesis using ref_hex_ok by (simp add: hex_text_def)
qed

definition ref_quic :: quic_lib where
  "ref_quic = \<lparr> q_address = Some, q_ipv4 = foldl (\<lambda>a c. 16 * a + of_char c) 0,
     q_parse_int = (\<lambda>lo hi s. case read_int (s @ ''e'') of Some (i, _) \<Rightarrow> (True, Some i) | None \<Rightarrow> (False, None)) \<rparr>"

lemma ref_quic_ok: "quic_ok ref_quic"
  using read_int_write [of _ "[]"] by (simp add: quic_ok_def ref_quic_def show_int_def)

section \<open>Onion requests\<close>

definition demo_builder :: builder where
  "demo_builder = (new_builder XChaCha20)\<lparr> b_destination_x25519 := Some carol, b_ed25519_public_key := Some carol,
     b_hops := [(alice, alice), (bob, bob)] \<rparr>"

abbreviation demo_build :: "(bytes \<times> builder) res" where
  "demo_build \<equiv> build tag_crypto ref_onion_crypto ref_curve ref_encodings ref_json (\<lambda>i. replicate 32 (CHR ''E'')) (\<lambda>i n. replicate n (CHR ''R''))
     ''hello'' demo_builder"

definition pairs_text :: "(string \<times> json) list \<Rightarrow> string" where
  "pairs_text kvs = write_pairs (fold (\<lambda>(k, v). smap_put k v) kvs [])"

lemma ref_json_text: "json_text ref_json (json_object kvs) = Inr (pairs_text kvs)"
  by (simp add: json_text_def ref_json_def json_object_def pairs_text_def)

lemma length_pairs_text: "length (pairs_text kvs) \<le> length (write_pairs kvs)"
proof -
  have put: "length (write_pairs (smap_put k v m)) \<le> length (write_pairs [(k, v)]) + length (write_pairs m)" for k v m
    by (induction m) auto
  have "length (write_pairs (fold (\<lambda>(k, v). smap_put k v) kvs m)) \<le> length (write_pairs m) + length (write_pairs kvs)" for m
  proof (induction kvs arbitrary: m)
    case (Cons p kvs)
    obtain k v where p: "p = (k, v)" by fastforce
    show ?case using Cons [of "smap_put k v m"] put [of k v m] by (simp add: p)
  qed simp
  from this [of "[]"] show ?thesis by (simp add: pairs_text_def)
qed

lemma length_write_text [simp]: "length (write_text s) = 2 * length s + 1"
  by (induction s) auto

lemma ref_layer:
  "hop_encrypt tag_crypto ref_onion_crypto ref_curve he (\<lambda>n. replicate n (CHR ''R'')) XChaCha20 m pk =
     Inr (replicate 24 (CHR ''R'') @ m @ key_tag (projr (xchacha20_shared_key tag_crypto ref_curve (he_public_key he) (he_private_key he) pk (\<not> he_server he))))"
  by (simp add: hop_encrypt_def encrypt_xchacha20_def xchacha20_shared_key_def ref_curve_def) (simp add: tag_crypto_def)

lemma demo_build_small: "\<exists>req b'. demo_build = Inr (req, b') \<and> length req \<le> 4000"
proof -
  let ?A = "curve_base ref_curve (replicate 32 (CHR ''E''))"
  have hex: "length (to_hex ref_encodings k) = 2 * length k" for k using ref_hex_ok by (simp add: hex_ok_def)
  have A: "length ?A = 32" by (simp add: ref_curve_def)
  have route: "length (pairs_text [(''destination'', JStr (to_hex ref_encodings ed)), (''ephemeral_key'', JStr (to_hex ref_encodings ?A)),
      (''enc_type'', JStr (enc_type_string XChaCha20))]) \<le> 500" if "length ed = 32" for ed
    by (rule order_trans [OF length_pairs_text]) (simp add: write_value_def hex A that enc_type_string_def)
  have last: "length (pairs_text [(''ephemeral_key'', JStr (to_hex ref_encodings ?A)), (''enc_type'', JStr (enc_type_string XChaCha20))]) \<le> 500"
    by (rule order_trans [OF length_pairs_text]) (simp add: write_value_def hex A enc_type_string_def)
  have control: "length (pairs_text [(''headers'', JStr '''')]) \<le> 500"
    by (rule order_trans [OF length_pairs_text]) (simp add: write_value_def)
  have four: "length (encode_size k) = 4" for k by (simp add: encode_size_def)
  show ?thesis
    using route [of carol] route [of alice] route [of bob] last control
    by (simp add: build_def final_layer_def demo_builder_def new_builder_def Let_def ref_json_text ref_layer route_json_def framed_def four)
qed

theorem onion_round_trip_witness:
  "\<exists>req b' inner p ct rp. demo_build = Inr (req, b') \<and>
     peel tag_crypto ref_onion_crypto ref_curve ref_encodings ref_json 4000 [alice, bob] req = Inr inner \<and>
     onion_parse tag_crypto ref_onion_crypto ref_curve ref_encodings ref_json carol carol inner 4000 = Inr p \<and>
     op_payload p = framed ''hello'' (write_pairs [(''headers'', JStr '''')]) \<and>
     encrypt_reply tag_crypto ref_onion_crypto ref_curve (\<lambda>n. replicate n (CHR ''R'')) ''world'' p = Inr ct \<and>
     response_parser_of b' = Inr rp \<and> response_decrypt tag_crypto ref_onion_crypto ref_curve rp ct = Inr ''world''"
proof -
  have base: "curve_base ref_curve x = x" if "length x = 32" for x using that by (simp add: ref_curve_def pad32_id)
  have "path_keys ref_curve (\<lambda>i. replicate 32 (CHR ''E'')) (b_hops demo_builder) [alice, bob]"
    by (simp add: path_keys_def demo_builder_def base) (simp add: ref_curve_def pad32_id)
  moreover have "destination_data ref_json ''hello'' demo_builder (framed ''hello'' (write_pairs [(''headers'', JStr '''')]))"
    by (simp add: destination_data_def demo_builder_def new_builder_def json_text_def ref_json_def json_object_def)
  ultimately obtain req b' where "demo_build = Inr (req, b')"
    "length req \<le> 4000 \<and> (4000::nat) < 2 ^ 32 \<longrightarrow>
      (\<exists>inner p ct rp. peel tag_crypto ref_onion_crypto ref_curve ref_encodings ref_json 4000 [alice, bob] req = Inr inner \<and>
         onion_parse tag_crypto ref_onion_crypto ref_curve ref_encodings ref_json (curve_base ref_curve carol) carol inner 4000 = Inr p \<and>
         op_payload p = framed ''hello'' (write_pairs [(''headers'', JStr '''')]) \<and>
         encrypt_reply tag_crypto ref_onion_crypto ref_curve (\<lambda>n. replicate n (CHR ''R'')) ''world'' p = Inr ct \<and>
         response_parser_of b' = Inr rp \<and> response_decrypt tag_crypto ref_onion_crypto ref_curve rp ct = Inr ''world'')"
    using onion_round_trip [OF ref_onion_ok ref_json_ok ref_hex_text, of "\<lambda>i n. replicate n (CHR ''R'')" "\<lambda>n. replicate n (CHR ''R'')"
        "\<lambda>i. replicate 32 (CHR ''E'')" demo_builder "[alice, bob]" carol "''hello''" "framed ''hello'' (write_pairs [(''headers'', JStr '''')])" 4000 "''world''"]
      base [of carol] by (auto simp: demo_builder_def ref_curve_def)
  then show ?thesis using demo_build_small base [of carol] by auto
qed

section \<open>Nodes and swarms\<close>

definition demo_node :: "nat \<Rightarrow> service_node" where
  "demo_node i = \<lparr> sn_key = replicate 32 (char_of (65 + i)), sn_host = ''10.0.0.'' @ digits i, sn_port = 22021,
     sn_version = [2, 8, 0], sn_swarm_id = of_nat (i div 4) \<rparr>"

definition demo_nodes :: "service_node list" where
  "demo_nodes = map demo_node [0..<12]"

theorem closest_swarm_is_closest_witness:
  "(2, [demo_node 8]) \<in> set (generate_swarms [demo_node 8, demo_node 0, demo_node 4]) \<and>
   (let found = closest_swarm (generate_swarms [demo_node 8, demo_node 0, demo_node 4]) (pubkey_to_swarm_space carol) in
    found \<in> set (generate_swarms [demo_node 8, demo_node 0, demo_node 4]) \<and>
    snd found = filter (\<lambda>n. sn_swarm_id n = fst found) [demo_node 8, demo_node 0, demo_node 4] \<and>
    ring_distance (fst found) (pubkey_to_swarm_space carol) \<le> ring_distance (fst (2, [demo_node 8])) (pubkey_to_swarm_space carol))"
proof -
  have "(2, [demo_node 8]) \<in> set (generate_swarms [demo_node 8, demo_node 0, demo_node 4])"
    by (simp add: generate_swarms_def demo_node_def)
  then show ?thesis using closest_swarm_is_closest by blast
qed

definition ref_net :: net_env where
  "ref_net = \<lparr> e_quic = ref_quic, e_enc = ref_encodings, e_json = ref_json, e_bt = ref_libs ref_hash, e_cry = tag_crypto,
     e_ocry = ref_onion_crypto, e_curve = ref_curve, e_now = 1000, e_shuffle_nodes = (\<lambda>ns. ns), e_shuffle_paths = (\<lambda>ps. ps),
     e_ids = (\<lambda>i. ''id-'' @ digits i), e_eph = (\<lambda>i. replicate 32 (CHR ''E'')), e_rnd = (\<lambda>i n. replicate n (CHR ''R'')),
     e_what = (\<lambda>x. ''error''), e_default_timeout = 10000 \<rparr>"

lemma ref_net_fields [simp]:
  "e_quic ref_net = ref_quic" "e_enc ref_net = ref_encodings" "e_now ref_net = 1000" "e_shuffle_nodes ref_net = (\<lambda>ns. ns)"
  "e_shuffle_paths ref_net = (\<lambda>ps. ps)"
  by (simp_all add: ref_net_def)

lemma demo_node_ok: "node_ok ref_quic (demo_node i) \<and> CHR 0x0A \<notin> set (sn_host (demo_node i))"
  using show_int_delims(2) [of "int i"] show_int_newline [of "int i"] by (auto simp: node_ok_def demo_node_def ref_quic_def show_int_def)

lemma ref_hex_clean: "set (to_hex ref_encodings k) \<inter> {CHR ''|'', CHR 0x0A} = {}"
proof -
  have "set hex_digits \<inter> {CHR ''|'', CHR 0x0A} = {}" by code_simp
  then show ?thesis using hex_encode_text(2) [of k] by (auto simp: ref_encodings_def)
qed

definition demo_net :: network where
  "demo_net = (empty_network False False Unknown)\<lparr> n_snode_cache := demo_nodes, n_need_write := True \<rparr>"

definition demo_dir :: cache_dir where
  "demo_dir = \<lparr> cd_testnet = False, cd_pool = Some (cache_content ref_encodings demo_nodes, 1000) \<rparr>"

lemma stored_demo_nodes: "stored_nodes demo_nodes = map (\<lambda>i. (demo_node i)\<lparr> sn_version := [2, 8] \<rparr>) [0..<12]"
proof -
  have "trim_version [2, 8, 0] = [2, 8]" by code_simp
  then show ?thesis by (simp add: stored_nodes_def demo_nodes_def demo_node_def filter_map comp_def)
qed

section \<open>Responses\<close>

abbreviation result_of :: "int \<Rightarrow> json" where
  "result_of c \<equiv> JObj [(''body'', JStr ''text''), (''code'', JInt c)]"

theorem batch_code_witness:
  "(\<exists>b. batch_status [result_of 500, result_of 500] (- 1) [] None = Inr (200, [], b)) \<and>
   (\<exists>b. batch_status [result_of 200, result_of 500] (- 1) [] None = Inr (500, [], b))"
proof -
  have r: "json_number ''code'' (result_of c) = Some (json_int16 (JInt c))" "\<not> json_contains ''headers'' (result_of c)" for c
    by (simp_all add: json_number_def json_contains_def json_at_def json_is_number_def)
  have "json_int16 (JInt 500) = Inr 500" "json_int16 (JInt 200) = Inr 200" by code_simp+
  then show ?thesis
    using batch_code [of "[result_of 500, result_of 500]" "[500, 500]" "[]" None] batch_code [of "[result_of 200, result_of 500]" "[200, 500]" "[]" None]
    by (simp add: r)
qed

definition node_json :: json where
  "node_json = JObj [(''ip'', JStr ''10.0.0.1''), (''port_omq'', JInt 22021), (''pubkey_ed25519'', JStr (to_hex ref_encodings alice))]"

definition states_net :: net_env where
  "states_net = ref_net\<lparr> e_json := ref_json\<lparr> json_parse := (\<lambda>s. Some (JObj [(''result'', JObj [(''service_node_states'', JArr [node_json])])])) \<rparr> \<rparr>"

definition json_node :: service_node where
  "json_node = \<lparr> sn_key = alice, sn_host = ''10.0.0.1'', sn_port = 22021, sn_version = [0], sn_swarm_id = INVALID_SWARM_ID \<rparr>"

definition ok_response :: response where
  "ok_response = \<lparr> rs_success = True, rs_timeout = False, rs_status = 200, rs_headers = [], rs_body = Some ''states'' \<rparr>"

lemma states_refresh: "refresh_nodes states_net ok_response = Inr [json_node]"
proof -
  have "length (to_hex ref_encodings alice) = 64" "is_hex ref_encodings (to_hex ref_encodings alice)" "from_hex ref_encodings (to_hex ref_encodings alice) = alice"
    using ref_hex_ok by (simp_all add: hex_ok_def)
  then show ?thesis
    by (simp add: refresh_nodes_def ok_response_def states_net_def node_json_def process_get_service_nodes_response_def node_from_json_def
        json_contains_def json_at_def json_string_def json_int_def make_node_def json_node_def) (simp add: ref_quic_def wrap_int_def)
qed

theorem refresh_keeps_common_nodes_witness:
  "let ord = node_order ref_quic in \<exists>n'. refresh_response states_net ''id'' ok_response (demo_net\<lparr> n_refresh_results := Some [[demo_node 3, json_node], [json_node]] \<rparr>) = Inr n' \<and>
     image_mset ord (mset (n_snode_cache n')) = image_mset ord (mset [demo_node 3, json_node]) \<inter># image_mset ord (mset [json_node]) \<inter># image_mset ord (mset [json_node]) \<and>
     set (n_snode_cache n') \<subseteq> {demo_node 3, json_node} \<and> n_all_swarms n' = generate_swarms (n_snode_cache n') \<and> n_current_refresh_id n' = None"
  using refresh_keeps_common_nodes [of "demo_net\<lparr> n_refresh_results := Some [[demo_node 3, json_node], [json_node]] \<rparr>"
      "[demo_node 3, json_node]" "[json_node]" states_net ok_response "[json_node]" "''id''"] states_refresh
  by (simp add: states_net_def)

section \<open>A run of the network\<close>

text \<open>
  A network with the twelve nodes in its cache: a request is sent and queued, a path is asked for, a connection is established and
  the path is built.
\<close>

definition demo_start :: network where
  "demo_start = (empty_network False True Unknown)\<lparr> n_last_snode_cache_update := 1000,
     n_snode_cache := map (\<lambda>i. (demo_node i)\<lparr> sn_version := [2, 8] \<rparr>) [0..<12],
     n_all_swarms := generate_swarms (map (\<lambda>i. (demo_node i)\<lparr> sn_version := [2, 8] \<rparr>) [0..<12]) \<rparr>"

lemma demo_start_made: "make_network ref_net (Some demo_dir) False True False Unknown = demo_start"
proof -
  have "load_nodes ref_quic ref_encodings (cache_content ref_encodings demo_nodes) = stored_nodes demo_nodes"
    using ref_quic_ok ref_hex_ok ref_hex_clean demo_node_ok by (intro load_written_nodes) (auto simp: demo_nodes_def)
  then show ?thesis
    by (simp add: make_network_def load_cache_from_disk_def open_cache_def demo_dir_def demo_start_def stored_demo_nodes Let_def
        empty_network_def)
qed

definition demo_server :: network_destination where
  "demo_server = To_Server \<lparr> sd_protocol = ''https'', sd_host = ''example.org'', sd_endpoint = ''/'', sd_x25519_pubkey = carol, sd_port = None,
     sd_headers = None, sd_method = ''GET'' \<rparr>"

definition demo_request :: request_info where
  "demo_request = make_request ref_net demo_server None None 10000 None Standard None"

abbreviation cached :: "nat \<Rightarrow> service_node" where
  "cached i \<equiv> (demo_node i)\<lparr> sn_version := [2, 8] \<rparr>"

lemma demo_start_fields [simp]:
  "n_single_path_mode demo_start = True" "n_seed_node_cache_size demo_start = None" "n_snode_cache demo_start = map cached [0..<12]"
  "n_last_snode_cache_update demo_start = 1000" "\<not> n_suspended demo_start" "n_status demo_start = Unknown" "n_paths demo_start = (\<lambda>t. [])"
  "n_paths_pending_drop demo_start = []" "n_unused_nodes demo_start = []" "n_snode_failure_counts demo_start = []"
  "n_unused_connections demo_start = []" "n_in_progress_connections demo_start = []" "n_path_build_queue demo_start = []"
  "n_in_progress_path_builds demo_start = []" "n_request_queue demo_start = (\<lambda>t. [])" "n_tasks demo_start = []" "n_connecting demo_start = []"
  "n_commands demo_start = []" "n_open demo_start = []" "n_pending demo_start = (\<lambda>i. 0)" "n_next_conn demo_start = 0" "n_answers demo_start = []"
  by (simp_all add: demo_start_def empty_network_def)

lemma demo_first_id: "e_ids ref_net 0 = ''id-0''"
  by code_simp

lemma demo_request_simps [simp]: "rq_path_type demo_request = Standard" "rq_destination demo_request = demo_server" "rq_build_timeout demo_request = None"
  by (simp_all add: demo_request_def make_request_def)

lemma demo_server_node [simp]: "node_for_destination demo_server = None"
  by (simp add: demo_server_def node_for_destination_def)

definition demo1 :: network where
  "demo1 = demo_start\<lparr> n_tasks := [Build_path_if_needed Standard False], n_request_queue := (\<lambda>t. [])(Standard := [(demo_request, User 7)]) \<rparr>"

lemma demo_step1: "send_onion_request ref_net demo_server None None 7 10000 None Standard demo_start = Inr demo1"
  by (simp add: send_onion_request_def demo_request_def [symmetric] send_onion_request_impl_def find_valid_path_def Let_def demo1_def post_def)

lemma demo1_fields [simp]:
  "n_single_path_mode demo1 = True" "n_seed_node_cache_size demo1 = None" "n_snode_cache demo1 = map cached [0..<12]"
  "n_last_snode_cache_update demo1 = 1000" "\<not> n_suspended demo1" "n_status demo1 = Unknown" "n_paths demo1 = (\<lambda>t. [])"
  "n_unused_nodes demo1 = []" "n_snode_failure_counts demo1 = []" "n_unused_connections demo1 = []" "n_in_progress_connections demo1 = []"
  "n_path_build_queue demo1 = []" "n_in_progress_path_builds demo1 = []" "n_tasks demo1 = [Build_path_if_needed Standard False]"
  "n_request_queue demo1 = (\<lambda>t. [])(Standard := [(demo_request, User 7)])" "n_connecting demo1 = []" "n_next_conn demo1 = 0" "n_open demo1 = []"
  by (simp_all add: demo1_def)

definition demo2 :: network where
  "demo2 = demo1\<lparr> n_path_build_queue := [Standard], n_in_progress_path_builds := [], n_tasks := [Establish ''id-0''] \<rparr>"

lemma demo_step2: "run_task ref_net (Build_path_if_needed Standard False) (demo1\<lparr> n_tasks := [] \<rparr>) = Inr demo2"
  by (simp add: run_task_def build_path_if_needed_def build_path_def demo_first_id demo2_def post_def smap_del_def min_path_count_def)

lemma demo2_fields [simp]:
  "n_seed_node_cache_size demo2 = None" "n_snode_cache demo2 = map cached [0..<12]"
  "n_last_snode_cache_update demo2 = 1000" "\<not> n_suspended demo2" "n_status demo2 = Unknown" "n_paths demo2 = (\<lambda>t. [])"
  "n_unused_nodes demo2 = []" "n_snode_failure_counts demo2 = []" "n_unused_connections demo2 = []" "n_in_progress_connections demo2 = []"
  "n_path_build_queue demo2 = [Standard]" "n_in_progress_path_builds demo2 = []" "n_tasks demo2 = [Establish ''id-0'']"
  "n_request_queue demo2 = (\<lambda>t. [])(Standard := [(demo_request, User 7)])" "n_connecting demo2 = []" "n_next_conn demo2 = 0" "n_open demo2 = []"
  by (simp_all add: demo2_def)

lemma cached_nodes: "map cached [0..<12] = map cached [0..<11] @ [cached 11]" "map cached [0..<11] = map cached [0..<9] @ [cached 9, cached 10]"
proof -
  have "[0..<Suc 11] = [0..<11] @ [11]" "[0..<Suc 10] = [0..<10] @ [10]" "[0..<Suc 9] = [0..<9] @ [9]" by (rule upt_Suc_append; simp)+
  then show "map cached [0..<12] = map cached [0..<11] @ [cached 11]" "map cached [0..<11] = map cached [0..<9] @ [cached 9, cached 10]"
    by (simp_all del: upt_Suc)
qed

lemma demo_unused: "get_unused_nodes ref_net (demo2\<lparr> n_tasks := [], n_status := Connecting \<rparr>) = map cached [0..<12]"
  by (simp add: get_unused_nodes_def excluded_ips_def all_path_ips_def demo_server_def min_snode_cache_size_def min_snode_cache_count_def)

definition demo3 :: network where
  "demo3 = demo2\<lparr> n_tasks := [], n_status := Connecting, n_connection_failures := 0, n_unused_nodes := map cached [0..<11],
     n_in_progress_connections := [(''id-0'', cached 11)], n_connecting := [(''id-0'', cached 11, For_path ''id-0'')] \<rparr>"

lemma demo_step3: "run_task ref_net (Establish ''id-0'') (demo2\<lparr> n_tasks := [] \<rparr>) = Inr demo3"
  by (simp add: run_task_def establish_and_store_connection_def Let_def update_status_def demo_unused)
    (simp add: cached_nodes(1) demo3_def min_snode_cache_size_def min_snode_cache_count_def to_seconds_def snode_cache_expiration_def
      establish_connection_def smap_emplace_def)

lemma demo3_fields [simp]:
  "n_seed_node_cache_size demo3 = None" "\<not> n_suspended demo3" "n_paths demo3 = (\<lambda>t. [])" "n_unused_nodes demo3 = map cached [0..<11]"
  "n_unused_connections demo3 = []" "n_path_build_queue demo3 = [Standard]" "n_in_progress_path_builds demo3 = []" "n_tasks demo3 = []"
  "n_connecting demo3 = [(''id-0'', cached 11, For_path ''id-0'')]" "n_next_conn demo3 = 0" "n_open demo3 = []"
  by (simp_all add: demo3_def)

definition demo4 :: network where
  "demo4 = connection_established ref_net (cached 11) (For_path ''id-0'') (demo3\<lparr> n_connecting := [] \<rparr>)"

lemma demo4_fields [simp]:
  "\<not> n_suspended demo4" "n_paths demo4 = (\<lambda>t. [])" "n_unused_nodes demo4 = map cached [0..<11]"
  "n_unused_connections demo4 = [\<lparr> cn_node = cached 11, cn_conn = Some 0 \<rparr>]" "n_tasks demo4 = [Build_path ''id-0'' Standard]"
  by (simp_all add: demo4_def connection_established_def path_connection_ready_def Let_def post_def)

lemma demo_ips: "distinct (map (node_ip ref_quic) [cached 11, cached 10, cached 9])"
  by code_simp

lemma pick_nodes_snoc:
  "length ns < path_size \<Longrightarrow> pick_nodes q ns (u @ [sn]) = pick_nodes q (if node_ip q sn \<in> set (map (node_ip q) ns) then ns else ns @ [sn]) u"
  "path_size \<le> length ns \<Longrightarrow> pick_nodes q ns u = (Some ns, u)"
  by (simp_all add: pick_nodes.simps [of q ns])

lemma demo_pick: "pick_nodes ref_quic [cached 11] (map cached [0..<11]) = (Some [cached 11, cached 10, cached 9], map cached [0..<9])"
proof -
  have nodes: "map cached [0..<11] = (map cached [0..<9] @ [cached 9]) @ [cached 10]" using cached_nodes(2) by simp
  have "pick_nodes ref_quic [cached 11] (map cached [0..<11]) = pick_nodes ref_quic [cached 11, cached 10] (map cached [0..<9] @ [cached 9])"
    unfolding nodes using demo_ips by (subst pick_nodes_snoc(1)) (auto simp: path_size_def)
  also have "\<dots> = pick_nodes ref_quic [cached 11, cached 10, cached 9] (map cached [0..<9])"
    using demo_ips by (subst pick_nodes_snoc(1)) (auto simp: path_size_def)
  also have "\<dots> = (Some [cached 11, cached 10, cached 9], map cached [0..<9])" by (rule pick_nodes_snoc(2)) (simp add: path_size_def)
  finally show ?thesis .
qed

lemma demo_step5:
  "\<exists>m. run_task ref_net (Build_path ''id-0'' Standard) (demo4\<lparr> n_tasks := [] \<rparr>) = Inr m \<and> length (n_paths m Standard) = 1"
  by (simp add: run_task_def build_path_def path_size_def demo_pick fields_finish_path)

definition demo5 :: network where "demo5 = projr (run_task ref_net (Build_path ''id-0'' Standard) (demo4\<lparr> n_tasks := [] \<rparr>))"
definition demo6 :: network where "demo6 = projr (suspend ref_net demo1)"

lemma demo_step6: "suspend ref_net demo1 = Inr demo6" "n_suspended demo6"
  by (simp_all add: demo6_def suspend_def close_connections_def answer_def)

lemma demo_path: "run_task ref_net (Build_path ''id-0'' Standard) (demo4\<lparr> n_tasks := [] \<rparr>) = Inr demo5" "length (n_paths demo5 Standard) = 1"
  using demo_step5 by (auto simp: demo5_def)

lemma demo_runs: "net_run [7] demo5" "net_run [7] demo6"
proof -
  have "net_run [] demo_start" using net_run.start demo_start_made by metis
  then have demo1: "net_run [7] demo1" using net_run.more [OF _ net_step.call_send [OF demo_step1]] by fastforce
  have "net_step demo1 [] demo2"
    by (rule net_step.job [where ts = "[]" and ts' = "[]"]) (use demo_step2 in simp_all)
  moreover have "net_step demo2 [] demo3"
    by (rule net_step.job [where ts = "[]" and ts' = "[]"]) (use demo_step3 in simp_all)
  moreover have "net_step demo3 [] demo4"
    using net_step.established [of demo3 "[]" "''id-0''" "cached 11" "For_path ''id-0''" "[]" ref_net] by (simp add: demo4_def)
  moreover have "net_step demo4 [] demo5"
    by (rule net_step.job [where ts = "[]" and ts' = "[]"]) (use demo_path(1) in simp_all)
  ultimately show "net_run [7] demo5" using demo1 by (metis append_Nil2 net_run.more)
  show "net_run [7] demo6" using net_run.more [OF demo1 net_step.call_suspend [OF demo_step6(1)]] by simp
qed

theorem callbacks_conserved_witness: "net_run [7] demo5 \<and> mset (map fst (n_answers demo5)) + owed demo5 = {#7#}"
  using callbacks_conserved [OF demo_runs(1)] demo_runs(1) by simp

theorem paths_invariant_witness:
  "net_run [7] demo5 \<and> length (n_paths demo5 Standard) = 1 \<and> list_all path_ok (n_paths demo5 Standard)"
  using paths_invariant [OF demo_runs(1), of Standard] demo_runs(1) demo_path(2) by simp

theorem new_path_nodes_witness:
  "\<exists>c a b. n_paths demo5 Standard = n_paths demo4 Standard @ [\<lparr> pt_id = ''id-0'', pt_conn = c, pt_nodes = [cn_node c, a, b], pt_failure_count = 0 \<rparr>] \<and>
     distinct (map (node_ip ref_quic) [cn_node c, a, b])"
proof -
  have "n_paths demo4 Standard = []" by simp
  then have "n_paths demo5 Standard \<noteq> n_paths (demo4\<lparr> n_tasks := [] \<rparr>) Standard" using demo_path(2) by auto
  moreover have "build_path ref_net ''id-0'' Standard (demo4\<lparr> n_tasks := [] \<rparr>) = Inr demo5"
    using demo_path(1) by (simp add: run_task_def)
  ultimately show ?thesis using new_path_nodes [of ref_net "''id-0''" Standard "demo4\<lparr> n_tasks := [] \<rparr>" demo5] by auto
qed

text \<open>A request waits for the path that is being built.\<close>

definition stale_net :: network where
  "stale_net = (empty_network False True Unknown)\<lparr> n_in_progress_path_builds := [(''id-0'', Standard)],
     n_request_queue := (\<lambda>t. if t = Standard then [(make_request ref_net (To_Node (demo_node 0)) None None 10000 None Standard None, User 3)] else []) \<rparr>"

theorem stale_builds_block_paths_witness:
  "\<exists>n' m. suspend ref_net stale_net = Inr n' \<and> map fst (n_answers n') = [3] \<and>
     send_onion_request ref_net (To_Node (demo_node 0)) None None 7 10000 None Standard (resume n') = Inr m \<and>
     map snd (n_request_queue m Standard) = [User 7] \<and> run_task ref_net (Build_path_if_needed Standard False) m = Inr m"
proof -
  obtain n' where n': "suspend ref_net stale_net = Inr n'" "map fst (n_answers n') = [3]"
    by (simp add: suspend_def close_connections_def stale_net_def empty_network_def answer_def update_status_def)
  then show ?thesis
    using stale_builds_block_paths [OF n'(1), of Standard ref_net "''id-0''" Standard "To_Node (demo_node 0)" None None 7 10000 None]
    by (auto simp: stale_net_def empty_network_def min_path_count_def)
qed

theorem seed_list_termination_witness:
  "bt_nodes_loop ref_quic ref_encodings ([BtDict [(''public_ip'', BtStr ''10.0.0.1'')], BtInt 5], []) = None \<and>
   bt_nodes_loop ref_quic ref_encodings ([BtDict [(''public_ip'', BtStr ''10.0.0.1'')]], []) = Some (Inr [])"
proof -
  have bad: "node_from_bt ref_quic ref_encodings [(''public_ip'', BtStr ''10.0.0.1'')] = Inl Invalid_argument" by code_simp
  show ?thesis
    using seed_list_termination [of ref_quic ref_encodings "[BtDict [(''public_ip'', BtStr ''10.0.0.1'')], BtInt 5]"]
      seed_list_termination [of ref_quic ref_encodings "[BtDict [(''public_ip'', BtStr ''10.0.0.1'')]]"]
    by (simp add: reads_defined_def bad)
qed

end
