(* ===== verification/Blinding.thy ===== *)
theory Blinding
  imports Subaccounts "HOL-Library.Word"
begin

text \<open>
  Blinded ids (\<open>src/src/blinding.cpp\<close>): the two ways in which a community hides the session ids of its users
  (prefixes \<open>15\<close> and \<open>25\<close>), the key pairs and signatures that go with them, and the keys with which a client
  signs its version requests. With them the thin wrappers of \<open>ed25519.cpp\<close>, \<open>curve25519.cpp\<close> and \<open>hash.cpp\<close>.
  An output pointer is an optional argument and a component of the result.
\<close>

section \<open>Definitions\<close>

subsection \<open>Ed25519 and X25519 keys, hashes\<close>

definition ed25519_key_pair :: "curve \<Rightarrow> bytes \<Rightarrow> (bytes \<times> bytes) res" where
  "ed25519_key_pair cv ed25519_seed =
     (if length ed25519_seed \<noteq> 32 then Inl Invalid_argument else Inr (seed_keypair cv ed25519_seed))"

definition seed_for_ed_privkey :: "bytes \<Rightarrow> bytes res" where
  "seed_for_ed_privkey ed25519_privkey =
     (if length ed25519_privkey = 32 \<or> length ed25519_privkey = 64 then Inr (take 32 ed25519_privkey)
      else Inl Invalid_argument)"

text \<open>A 32-byte key is a seed and is expanded; this is how most functions begin.\<close>

definition expand_key :: "curve \<Rightarrow> bytes \<Rightarrow> bytes res" where
  "expand_key cv sk =
     (let sk = (if length sk = 32 then snd (seed_keypair cv sk) else sk) in
      if length sk \<noteq> 64 then Inl Invalid_argument else Inr sk)"

definition ed25519_sign :: "env \<Rightarrow> curve \<Rightarrow> bytes \<Rightarrow> bytes \<Rightarrow> bytes res" where
  "ed25519_sign e cv ed25519_privkey msg =
     res_bind (expand_key cv ed25519_privkey) (\<lambda>sk. Inr (e_sign e sk msg))"

definition ed25519_verify :: "env \<Rightarrow> bytes \<Rightarrow> bytes \<Rightarrow> bytes \<Rightarrow> bool res" where
  "ed25519_verify e sig pubkey msg =
     (if length sig \<noteq> 64 then Inl Invalid_argument
      else if length pubkey \<noteq> 32 then Inl Invalid_argument
      else Inr (e_verify e pubkey msg sig))"

definition to_curve25519_pubkey :: "curve \<Rightarrow> bytes \<Rightarrow> bytes res" where
  "to_curve25519_pubkey cv ed25519_pubkey =
     (if length ed25519_pubkey \<noteq> 32 then Inl Invalid_argument
      else case pk_to_curve cv ed25519_pubkey of None \<Rightarrow> Inl Runtime_error | Some x \<Rightarrow> Inr x)"

definition to_curve25519_seckey :: "curve \<Rightarrow> bytes \<Rightarrow> bytes res" where
  "to_curve25519_seckey cv ed25519_seckey =
     (if length ed25519_seckey \<noteq> 64 then Inl Invalid_argument else Inr (sk_to_curve cv ed25519_seckey))"

definition hash_bytes :: "crypto \<Rightarrow> nat \<Rightarrow> bytes \<Rightarrow> bytes option \<Rightarrow> bytes res" where
  "hash_bytes c hash_size msg key =
     (if hash_size < 16 \<or> hash_size > 64 then Inl Invalid_argument
      else if (case key of Some k \<Rightarrow> length k > 64 | None \<Rightarrow> False) then Inl Invalid_argument
      else Inr (generichash c hash_size (case key of Some k \<Rightarrow> k | None \<Rightarrow> []) msg))"

text \<open>The numbers of the random generator are an argument.\<close>

definition base32_charset :: string where "base32_charset = ''ABCDEFGHIJKLMNOPQRSTUVWXYZ234567''"

definition random_base32 :: "(nat \<Rightarrow> 64 word) \<Rightarrow> nat \<Rightarrow> string" where
  "random_base32 csrng n = map (\<lambda>i. base32_charset ! unat (csrng i mod 32)) [0..<n]"

subsection \<open>Blinded ids\<close>

definition blind15_factor :: "env \<Rightarrow> edwards \<Rightarrow> bytes \<Rightarrow> bytes res" where
  "blind15_factor e ed server_pk =
     res_bind (assertion e (length server_pk = 32)) (\<lambda>_.
       Inr (scalar_reduce ed (generichash (e_crypto e) 64 [] server_pk)))"

definition blind25_factor :: "env \<Rightarrow> edwards \<Rightarrow> bytes \<Rightarrow> bytes \<Rightarrow> bytes res" where
  "blind25_factor e ed sessid server_pk =
     res_bind (assertion e (length sessid = 32 \<or> length sessid = 33)) (\<lambda>_.
     res_bind (assertion e (length server_pk = 32)) (\<lambda>_.
       let prefix = (if length sessid = 32 then [CHR 0x05] else []) in
       Inr (scalar_reduce ed (generichash (e_crypto e) 64 [] (prefix @ sessid @ server_pk)))))"

definition blind15_id_impl :: "env \<Rightarrow> edwards \<Rightarrow> field25519 \<Rightarrow> bytes \<Rightarrow> bytes \<Rightarrow> bytes res" where
  "blind15_id_impl e ed fe sessid server_pk =
     res_bind (blind15_factor e ed server_pk) (\<lambda>k.
       let sessid = (if length sessid = 33 then tl sessid else sessid) in
       case ed_mult_noclamp ed k (xed_pubkey fe sessid) of
         None \<Rightarrow> Inl Runtime_error
       | Some out \<Rightarrow> Inr (CHR 0x15 # out))"

definition blind25_id_impl :: "env \<Rightarrow> edwards \<Rightarrow> field25519 \<Rightarrow> bytes \<Rightarrow> bytes \<Rightarrow> bytes res" where
  "blind25_id_impl e ed fe sessid server_pk =
     res_bind (blind25_factor e ed sessid server_pk) (\<lambda>k.
       let sessid = (if length sessid = 33 then tl sessid else sessid) in
       case ed_mult_noclamp ed k (xed_pubkey fe sessid) of
         None \<Rightarrow> Inl Runtime_error
       | Some out \<Rightarrow> Inr (CHR 0x25 # out))"

definition blind15_id :: "env \<Rightarrow> edwards \<Rightarrow> field25519 \<Rightarrow> bytes \<Rightarrow> bytes \<Rightarrow> bytes res" where
  "blind15_id e ed fe sessid server_pk =
     (if length sessid = 33 \<and> hd sessid \<noteq> CHR 0x05 then Inl Invalid_argument
      else if length sessid \<noteq> 33 \<and> length sessid \<noteq> 32 then Inl Invalid_argument
      else if length server_pk \<noteq> 32 then Inl Invalid_argument
      else blind15_id_impl e ed fe (if length sessid = 33 then tl sessid else sessid) server_pk)"

definition blind25_id :: "env \<Rightarrow> edwards \<Rightarrow> field25519 \<Rightarrow> bytes \<Rightarrow> bytes \<Rightarrow> bytes res" where
  "blind25_id e ed fe sessid server_pk =
     (if length sessid = 33 \<and> hd sessid \<noteq> CHR 0x05 then Inl Invalid_argument
      else if length sessid \<noteq> 33 \<and> length sessid \<noteq> 32 then Inl Invalid_argument
      else if length server_pk \<noteq> 32 then Inl Invalid_argument
      else blind25_id_impl e ed fe sessid server_pk)"

text \<open>The overloads on hex strings; the first returns both signs.\<close>

definition flip_sign_bit :: "bytes \<Rightarrow> bytes" where
  "flip_sign_bit A = A[31 := byte_xor (A ! 31) (CHR 0x80)]"

definition check_blind_args :: "encodings \<Rightarrow> string \<Rightarrow> string \<Rightarrow> unit res" where
  "check_blind_args enc sessid server_pk =
     (if length sessid \<noteq> 66 \<or> \<not> is_hex enc sessid then Inl Invalid_argument
      else if sessid ! 0 \<noteq> CHR ''0'' \<or> sessid ! 1 \<noteq> CHR ''5'' then Inl Invalid_argument
      else if length server_pk \<noteq> 64 \<or> \<not> is_hex enc server_pk then Inl Invalid_argument
      else Inr ())"

definition blind15_id_hex ::
  "env \<Rightarrow> encodings \<Rightarrow> edwards \<Rightarrow> field25519 \<Rightarrow> string \<Rightarrow> string \<Rightarrow> (string \<times> string) res" where
  "blind15_id_hex e enc ed fe sessid server_pk =
     res_bind (check_blind_args enc sessid server_pk) (\<lambda>_.
     res_bind (blind15_id_impl e ed fe (from_hex enc sessid) (from_hex enc server_pk)) (\<lambda>blinded.
       let negative = blinded[32 := byte_xor (blinded ! 32) (CHR 0x80)] in
       Inr (to_hex enc blinded, to_hex enc negative)))"

definition blind25_id_hex :: "env \<Rightarrow> encodings \<Rightarrow> edwards \<Rightarrow> field25519 \<Rightarrow> string \<Rightarrow> string \<Rightarrow> string res" where
  "blind25_id_hex e enc ed fe sessid server_pk =
     res_bind (check_blind_args enc sessid server_pk) (\<lambda>_.
     res_bind (blind25_id_impl e ed fe (from_hex enc sessid) (from_hex enc server_pk)) (\<lambda>blinded.
       Inr (to_hex enc blinded)))"

text \<open>
  From an Ed25519 key. The last argument is the pointer \<open>session_id\<close> (\<open>None\<close> when it is null); the second
  component of the result is what it points to afterwards.
\<close>

definition blinded15_id_from_ed ::
  "env \<Rightarrow> curve \<Rightarrow> edwards \<Rightarrow> bytes \<Rightarrow> bytes \<Rightarrow> bytes option \<Rightarrow> (bytes \<times> bytes option) res" where
  "blinded15_id_from_ed e cv ed ed_pubkey server_pk sessid =
     (if length ed_pubkey \<noteq> 32 then Inl Invalid_argument
      else if length server_pk \<noteq> 32 then Inl Invalid_argument
      else if sessid \<noteq> None \<and> sessid \<noteq> Some [] then Inl Invalid_argument
      else
        res_bind (case sessid of
                    None \<Rightarrow> Inr None
                  | Some _ \<Rightarrow> (case pk_to_curve cv ed_pubkey of
                                 None \<Rightarrow> Inl Runtime_error
                               | Some x \<Rightarrow> Inr (Some (CHR 0x05 # x)))) (\<lambda>sessid.
        res_bind (blind15_factor e ed server_pk) (\<lambda>k.
          case ed_mult_noclamp ed k ed_pubkey of
            None \<Rightarrow> Inl Runtime_error
          | Some out \<Rightarrow> Inr (CHR 0x15 # out, sessid))))"

definition blinded25_id_from_ed ::
  "env \<Rightarrow> curve \<Rightarrow> edwards \<Rightarrow> bytes \<Rightarrow> bytes \<Rightarrow> bytes option \<Rightarrow> (bytes \<times> bytes option) res" where
  "blinded25_id_from_ed e cv ed ed_pubkey server_pk sessid =
     (if length ed_pubkey \<noteq> 32 then Inl Invalid_argument
      else if length server_pk \<noteq> 32 then Inl Invalid_argument
      else if (case sessid of Some s \<Rightarrow> length s \<noteq> 0 \<and> length s \<noteq> 33 | None \<Rightarrow> False) then Inl Invalid_argument
      else
        let given = (case sessid of Some s \<Rightarrow> s | None \<Rightarrow> []) in
        res_bind (if length given = 0
                  then (case pk_to_curve cv ed_pubkey of
                          None \<Rightarrow> Inl Runtime_error
                        | Some x \<Rightarrow> Inr (CHR 0x05 # x))
                  else Inr given) (\<lambda>sid.
        res_bind (blind25_factor e ed sid server_pk) (\<lambda>k.
          let pos_ed_pubkey = clear_sign_bit ed_pubkey in
          case ed_mult_noclamp ed k pos_ed_pubkey of
            None \<Rightarrow> Inl Runtime_error
          | Some out \<Rightarrow> Inr (CHR 0x25 # out, map_option (\<lambda>_. sid) sessid))))"

subsection \<open>Blinded keys and signatures\<close>

text \<open>The public key, the private scalar, and the blinding factor (the output argument \<open>k\<close>).\<close>

definition blind15_key_pair :: "env \<Rightarrow> curve \<Rightarrow> edwards \<Rightarrow> bytes \<Rightarrow> bytes \<Rightarrow> (bytes \<times> bytes \<times> bytes) res" where
  "blind15_key_pair e cv ed ed25519_sk server_pk =
     res_bind (expand_key cv ed25519_sk) (\<lambda>ed25519_sk.
       if length server_pk \<noteq> 32 then Inl Invalid_argument
       else res_bind (blind15_factor e ed server_pk) (\<lambda>k.
         let a = sk_to_curve cv ed25519_sk; a = scalar_mul ed k a; A = ed_base_noclamp ed a in
         Inr (A, a, k)))"

definition blind25_key_pair :: "env \<Rightarrow> curve \<Rightarrow> edwards \<Rightarrow> bytes \<Rightarrow> bytes \<Rightarrow> (bytes \<times> bytes \<times> bytes) res" where
  "blind25_key_pair e cv ed ed25519_sk server_pk =
     res_bind (expand_key cv ed25519_sk) (\<lambda>ed25519_sk.
       if length server_pk \<noteq> 32 then Inl Invalid_argument
       else case pk_to_curve cv (drop 32 ed25519_sk) of
         None \<Rightarrow> Inl Runtime_error
       | Some X \<Rightarrow>
           res_bind (blind25_factor e ed X server_pk) (\<lambda>k_prime.
             let k_prime = (if sign_bit (drop 32 ed25519_sk) then scalar_negate ed k_prime else k_prime);
                 a = sk_to_curve cv ed25519_sk; a = scalar_mul ed k_prime a; A = ed_base_noclamp ed a in
             Inr (A, a, k_prime)))"

definition blind_version_key_pair :: "env \<Rightarrow> curve \<Rightarrow> bytes \<Rightarrow> (bytes \<times> bytes) res" where
  "blind_version_key_pair e cv ed25519_sk =
     (if length ed25519_sk \<noteq> 32 \<and> length ed25519_sk \<noteq> 64 then Inl Invalid_argument
      else
        let blind_seed = generichash (e_crypto e) 32 ''VersionCheckKey_sig'' (take 32 ed25519_sk) in
        Inr (seed_keypair cv blind_seed))"

definition server_pk_bytes :: "encodings \<Rightarrow> string \<Rightarrow> bytes res" where
  "server_pk_bytes enc server_pk_in =
     (if length server_pk_in = 32 then Inr server_pk_in
      else if length server_pk_in = 64 \<and> is_hex enc server_pk_in then Inr (from_hex enc server_pk_in)
      else Inl Invalid_argument)"

definition blind25_sign ::
  "env \<Rightarrow> encodings \<Rightarrow> curve \<Rightarrow> edwards \<Rightarrow> bytes \<Rightarrow> string \<Rightarrow> bytes \<Rightarrow> bytes res" where
  "blind25_sign e enc cv ed ed25519_sk server_pk_in message =
     res_bind (expand_key cv ed25519_sk) (\<lambda>ed25519_sk.
     res_bind (server_pk_bytes enc server_pk_in) (\<lambda>server_pk.
     res_bind (blind25_key_pair e cv ed ed25519_sk server_pk) (\<lambda>(A, a, _).
       let seedhash = generichash (e_crypto e) 32 ''SessCommBlind25_seed'' (take 32 ed25519_sk);
           r_hash = generichash (e_crypto e) 64 ''SessCommBlind25_sig'' (seedhash @ A @ message);
           r = scalar_reduce ed r_hash;
           sig_R = ed_base_noclamp ed r;
           hram = sha512 ed (sig_R @ A @ message);
           sig_S = scalar_reduce ed hram;
           sig_S = scalar_mul ed sig_S a;
           sig_S = scalar_add ed sig_S r in
       Inr (sig_R @ sig_S))))"

definition blind15_sign ::
  "env \<Rightarrow> encodings \<Rightarrow> curve \<Rightarrow> edwards \<Rightarrow> bytes \<Rightarrow> string \<Rightarrow> bytes \<Rightarrow> bytes res" where
  "blind15_sign e enc cv ed ed25519_sk server_pk_in message =
     res_bind (expand_key cv ed25519_sk) (\<lambda>ed25519_sk.
     res_bind (server_pk_bytes enc server_pk_in) (\<lambda>server_pk.
     res_bind (blind15_key_pair e cv ed ed25519_sk server_pk) (\<lambda>(blind_15_pk, blind_15_sk, _).
       let hrh = sha512 ed ed25519_sk;
           hrh_suffix = take 32 (drop 32 hrh);
           r_hash = sha512 ed (hrh_suffix @ blind_15_pk @ message);
           r = scalar_reduce ed r_hash;
           sig_R = ed_base_noclamp ed r;
           hram = sha512 ed (sig_R @ blind_15_pk @ message);
           sig_S = scalar_reduce ed hram;
           sig_S = scalar_mul ed sig_S blind_15_sk;
           sig_S = scalar_add ed sig_S r in
       Inr (sig_R @ sig_S))))"

definition blind_version_sign_request ::
  "env \<Rightarrow> curve \<Rightarrow> bytes \<Rightarrow> 64 word \<Rightarrow> string \<Rightarrow> string \<Rightarrow> bytes option \<Rightarrow> bytes res" where
  "blind_version_sign_request e cv ed25519_sk timestamp method path body =
     res_bind (blind_version_key_pair e cv ed25519_sk) (\<lambda>(pk, sk).
       let ts = int_to_string (uint timestamp);
           buf = ts @ method @ path @ (case body of Some b \<Rightarrow> b | None \<Rightarrow> []) in
       ed25519_sign e cv sk buf)"

datatype platform = Android | Desktop | Ios

definition version_endpoint :: "platform \<Rightarrow> string" where
  "version_endpoint p = (case p of
       Android \<Rightarrow> ''/session_version?platform=android''
     | Desktop \<Rightarrow> ''/session_version?platform=desktop''
     | Ios \<Rightarrow> ''/session_version?platform=ios'')"

definition blind_version_sign :: "env \<Rightarrow> curve \<Rightarrow> bytes \<Rightarrow> platform \<Rightarrow> 64 word \<Rightarrow> bytes res" where
  "blind_version_sign e cv ed25519_sk p timestamp =
     res_bind (blind_version_key_pair e cv ed25519_sk) (\<lambda>(pk, sk).
       let ts = int_to_string (uint timestamp);
           buf = ts @ ''GET'' @ version_endpoint p in
       ed25519_sign e cv sk buf)"

text \<open>
  Indexing the first two characters of a shorter blinded id is undefined. The test of the prefix looks at
  the second character only (its other half is always true); the \<open>switch\<close> rejects what is left.
\<close>

definition session_id_matches_blinded_id ::
  "env \<Rightarrow> encodings \<Rightarrow> edwards \<Rightarrow> field25519 \<Rightarrow> string \<Rightarrow> string \<Rightarrow> string \<Rightarrow> bool res" where
  "session_id_matches_blinded_id e enc ed fe sessid blinded_id server_pk =
     (if length sessid \<noteq> 66 \<or> \<not> is_hex enc sessid then Inl Invalid_argument
      else if sessid ! 0 \<noteq> CHR ''0'' \<or> sessid ! 1 \<noteq> CHR ''5'' then Inl Invalid_argument
      else if length blinded_id < 2 then Inl Undefined_behaviour
      else if blinded_id ! 1 \<noteq> CHR ''5'' \<and> (blinded_id ! 0 \<noteq> CHR ''1'' \<or> blinded_id ! 0 \<noteq> CHR ''2'')
        then Inl Invalid_argument
      else if length server_pk \<noteq> 64 \<or> \<not> is_hex enc server_pk then Inl Invalid_argument
      else if blinded_id ! 0 = CHR ''1'' then
        res_bind (blind15_id_hex e enc ed fe sessid server_pk) (\<lambda>(converted_blind_id1, converted_blind_id2).
          Inr (blinded_id = converted_blind_id1 \<or> blinded_id = converted_blind_id2))
      else if blinded_id ! 0 = CHR ''2'' then
        res_bind (blind25_id_hex e enc ed fe sessid server_pk) (\<lambda>converted. Inr (blinded_id = converted))
      else Inl Invalid_argument)"

lemma random_base32_text: "length (random_base32 csrng n) = n" "set (random_base32 csrng n) \<subseteq> set base32_charset"
proof -
  have "unat (w mod 32) < length base32_charset" for w :: "64 word" by (simp add: unat_mod base32_charset_def)
  then show "length (random_base32 csrng n) = n" "set (random_base32 csrng n) \<subseteq> set base32_charset"
    by (auto simp: random_base32_def)
qed

section \<open>What the code relies on\<close>

text \<open>
  Besides \<open>edwards_ok\<close>: scalars form a commutative group under multiplication, in which negation may be moved
  out of a product and flips the sign bit of the point; hashes reduce to usable scalars; a 64-byte secret key
  is its seed followed by the public key, and only the seed determines the scalar.
\<close>

definition blinding_ok :: "env \<Rightarrow> curve \<Rightarrow> edwards \<Rightarrow> (bytes \<Rightarrow> bool) \<Rightarrow> bool" where
  "blinding_ok e cv ed sc \<longleftrightarrow> edwards_ok e ed sc \<and>
     (\<forall>m. sc (scalar_reduce ed (sha512 ed m))) \<and>
     (\<forall>a b. sc a \<longrightarrow> sc b \<longrightarrow> scalar_mul ed a b = scalar_mul ed b a) \<and>
     (\<forall>a b c. sc a \<longrightarrow> sc b \<longrightarrow> sc c \<longrightarrow> scalar_mul ed (scalar_mul ed a b) c = scalar_mul ed a (scalar_mul ed b c)) \<and>
     (\<forall>a b. sc a \<longrightarrow> sc b \<longrightarrow> scalar_mul ed (scalar_negate ed a) b = scalar_negate ed (scalar_mul ed a b)) \<and>
     (\<forall>a. sc a \<longrightarrow> ed_base_noclamp ed (scalar_negate ed a) = flip_sign_bit (ed_base_noclamp ed a)) \<and>
     (\<forall>seed. length seed = 32 \<longrightarrow> snd (seed_keypair cv seed) = seed @ fst (seed_keypair cv seed) \<and>
        length (fst (seed_keypair cv seed)) = 32) \<and>
     (\<forall>sk. sk_to_curve cv (take 32 sk) = sk_to_curve cv sk)"

text \<open>A key of a user: \<open>key\<close> is what the functions are given, \<open>sk\<close> the full secret key, \<open>X\<close> the session id without prefix.\<close>

definition user_key :: "curve \<Rightarrow> edwards \<Rightarrow> (bytes \<Rightarrow> bool) \<Rightarrow> bytes \<Rightarrow> bytes \<Rightarrow> bytes \<Rightarrow> bool" where
  "user_key cv ed sc key sk X \<longleftrightarrow>
     expand_key cv key = Inr sk \<and> sc (sk_to_curve cv sk) \<and> drop 32 sk = ed_base_noclamp ed (sk_to_curve cv sk) \<and>
     pk_to_curve cv (drop 32 sk) = Some X \<and> length X = 32"

lemma edwards_of: "blinding_ok e cv ed sc \<Longrightarrow> edwards_ok e ed sc"
  by (simp add: blinding_ok_def)

lemma sc_mul: "blinding_ok e cv ed sc \<Longrightarrow> sc k \<Longrightarrow> sc a \<Longrightarrow> sc (scalar_mul ed k a)"
  by (simp add: blinding_ok_def edwards_ok_def)

lemma sc_negate: "blinding_ok e cv ed sc \<Longrightarrow> sc a \<Longrightarrow> sc (scalar_negate ed a)"
  by (simp add: blinding_ok_def edwards_ok_def)

lemma sc_hash: "blinding_ok e cv ed sc \<Longrightarrow> sc (scalar_reduce ed (generichash (e_crypto e) 64 k m))"
  by (simp add: blinding_ok_def edwards_ok_def)

lemma mult_point:
  "blinding_ok e cv ed sc \<Longrightarrow> sc k \<Longrightarrow> sc a \<Longrightarrow>
   ed_mult_noclamp ed k (ed_base_noclamp ed a) = Some (ed_base_noclamp ed (scalar_mul ed k a))"
  by (simp add: blinding_ok_def edwards_ok_def)

lemma length_point: "blinding_ok e cv ed sc \<Longrightarrow> sc a \<Longrightarrow> length (ed_base_noclamp ed a) = 32"
  by (simp add: blinding_ok_def edwards_ok_def)

lemma mul_commute: "blinding_ok e cv ed sc \<Longrightarrow> sc a \<Longrightarrow> sc b \<Longrightarrow> scalar_mul ed a b = scalar_mul ed b a"
  unfolding blinding_ok_def by blast

lemma mul_assoc:
  "blinding_ok e cv ed sc \<Longrightarrow> sc a \<Longrightarrow> sc b \<Longrightarrow> sc c \<Longrightarrow>
   scalar_mul ed (scalar_mul ed a b) c = scalar_mul ed a (scalar_mul ed b c)"
  unfolding blinding_ok_def by blast

lemma negate_mul:
  assumes "blinding_ok e cv ed sc" "sc a" "sc b"
  shows "scalar_mul ed (scalar_negate ed a) b = scalar_negate ed (scalar_mul ed a b)"
    and "scalar_mul ed a (scalar_negate ed b) = scalar_negate ed (scalar_mul ed a b)"
proof -
  have left: "scalar_mul ed (scalar_negate ed a) b = scalar_negate ed (scalar_mul ed a b)" if "sc a" "sc b" for a b
    using that assms(1) unfolding blinding_ok_def by blast
  then show "scalar_mul ed (scalar_negate ed a) b = scalar_negate ed (scalar_mul ed a b)" using assms by simp
  show "scalar_mul ed a (scalar_negate ed b) = scalar_negate ed (scalar_mul ed a b)"
    using left [OF assms(3,2)] mul_commute [OF assms(1)] sc_negate [OF assms(1)] assms(2,3) by metis
qed

lemma point_negate:
  "blinding_ok e cv ed sc \<Longrightarrow> sc a \<Longrightarrow> ed_base_noclamp ed (scalar_negate ed a) = flip_sign_bit (ed_base_noclamp ed a)"
  by (simp add: blinding_ok_def)

lemma expand_key_length: "expand_key cv key = Inr sk \<Longrightarrow> length sk = 64 \<and> expand_key cv sk = Inr sk"
  by (auto simp: expand_key_def Let_def split: if_splits)

lemma expand_key_seed:
  assumes "blinding_ok e cv ed sc" "expand_key cv key = Inr sk"
  shows "take 32 sk = take 32 key" "sk_to_curve cv key = sk_to_curve cv sk" "length key = 32 \<or> length key = 64"
proof -
  have "length key = 32 \<longrightarrow> snd (seed_keypair cv key) = key @ fst (seed_keypair cv key)"
    using assms(1) by (simp add: blinding_ok_def)
  then show seed: "take 32 sk = take 32 key" using assms(2) by (auto simp: expand_key_def Let_def split: if_splits)
  have "sk_to_curve cv (take 32 k) = sk_to_curve cv k" for k using assms(1) by (simp add: blinding_ok_def)
  then show "sk_to_curve cv key = sk_to_curve cv sk" using seed by metis
  show "length key = 32 \<or> length key = 64" using assms(2) by (auto simp: expand_key_def Let_def split: if_splits)
qed

text \<open>Clearing the sign bit of a point is negating its scalar where the bit is set.\<close>

lemma positive_point:
  assumes "blinding_ok e cv ed sc" "sc a"
  shows "clear_sign_bit (ed_base_noclamp ed a) =
    ed_base_noclamp ed (if sign_bit (ed_base_noclamp ed a) then scalar_negate ed a else a)"
  using assms edwards_of [OF assms(1)] length_point [OF assms] by (simp add: edwards_ok_def clear_sign_bit_id)

section \<open>The ids of a user\<close>

lemma blind_factors:
  assumes "blinding_ok e cv ed sc" "length spk = 32" "length X = 32"
  obtains k k' where "blind15_factor e ed spk = Inr k" "sc k" "blind25_factor e ed X spk = Inr k'"
    "blind25_factor e ed (CHR 0x05 # X) spk = Inr k'" "sc k'"
  using assms sc_hash [OF assms(1)] by (auto simp: blind15_factor_def blind25_factor_def assertion_def)

text \<open>The factor with which the id is computed, and the id, in each of the two schemes.\<close>

definition id15 :: "env \<Rightarrow> curve \<Rightarrow> edwards \<Rightarrow> bytes \<Rightarrow> bytes \<Rightarrow> bytes \<Rightarrow> bytes \<Rightarrow> bool" where
  "id15 e cv ed sk spk k A \<longleftrightarrow>
     blind15_factor e ed spk = Inr k \<and> A = ed_base_noclamp ed (scalar_mul ed k (sk_to_curve cv sk))"

definition id25 :: "env \<Rightarrow> curve \<Rightarrow> edwards \<Rightarrow> bytes \<Rightarrow> bytes \<Rightarrow> bytes \<Rightarrow> bytes \<Rightarrow> bool" where
  "id25 e cv ed sk spk k A \<longleftrightarrow>
     (\<exists>k0. blind25_factor e ed (the (pk_to_curve cv (drop 32 sk))) spk = Inr k0 \<and>
        k = (if sign_bit (drop 32 sk) then scalar_negate ed k0 else k0)) \<and>
     A = ed_base_noclamp ed (scalar_mul ed k (sk_to_curve cv sk))"

lemma blind15_user:
  assumes "blinding_ok e cv ed sc" "user_key cv ed sc key sk X" "length spk = 32"
  obtains k A where "id15 e cv ed sk spk k A" "sc k" "length A = 32"
    "blind15_key_pair e cv ed key spk = Inr (A, scalar_mul ed k (sk_to_curve cv sk), k)"
    "\<And>s. s = None \<or> s = Some [] \<Longrightarrow>
       blinded15_id_from_ed e cv ed (drop 32 sk) spk s = Inr (CHR 0x15 # A, map_option (\<lambda>_. CHR 0x05 # X) s)"
proof -
  obtain k where k: "blind15_factor e ed spk = Inr k" "sc k"
    using blind_factors [OF assms(1,3), of X] assms(2) by (auto simp: user_key_def)
  define A where "A = ed_base_noclamp ed (scalar_mul ed k (sk_to_curve cv sk))"
  have u: "expand_key cv key = Inr sk" "sc (sk_to_curve cv sk)" "drop 32 sk = ed_base_noclamp ed (sk_to_curve cv sk)"
    "pk_to_curve cv (drop 32 sk) = Some X" using assms(2) unfolding user_key_def by blast+
  have len: "length (drop 32 sk) = 32" "length A = 32"
    using length_point [OF assms(1)] sc_mul [OF assms(1)] k(2) u(2,3) by (simp_all add: A_def)
  have mult: "ed_mult_noclamp ed k (drop 32 sk) = Some A" using mult_point [OF assms(1) k(2) u(2)] u(3) by (simp add: A_def)
  show ?thesis
  proof (rule that [OF _ k(2) len(2)])
    show "id15 e cv ed sk spk k A" using k(1) by (simp add: id15_def A_def)
    show "blind15_key_pair e cv ed key spk = Inr (A, scalar_mul ed k (sk_to_curve cv sk), k)"
      using u(1) k(1) assms(3) by (simp add: blind15_key_pair_def A_def Let_def)
    fix s :: "bytes option" assume "s = None \<or> s = Some []"
    then show "blinded15_id_from_ed e cv ed (drop 32 sk) spk s = Inr (CHR 0x15 # A, map_option (\<lambda>_. CHR 0x05 # X) s)"
      using k(1) assms(3) len(1) mult u(4) by (auto simp: blinded15_id_from_ed_def simp del: length_drop)
  qed
qed

lemma blind25_user:
  assumes "blinding_ok e cv ed sc" "user_key cv ed sc key sk X" "length spk = 32"
  obtains k A where "id25 e cv ed sk spk k A" "sc k" "length A = 32"
    "blind25_key_pair e cv ed key spk = Inr (A, scalar_mul ed k (sk_to_curve cv sk), k)"
    "\<And>s. s = None \<or> s = Some [] \<Longrightarrow>
       blinded25_id_from_ed e cv ed (drop 32 sk) spk s = Inr (CHR 0x25 # A, map_option (\<lambda>_. CHR 0x05 # X) s)"
proof -
  let ?a = "sk_to_curve cv sk"
  have u: "expand_key cv key = Inr sk" "sc ?a" "drop 32 sk = ed_base_noclamp ed ?a"
    "pk_to_curve cv (drop 32 sk) = Some X" "length X = 32" using assms(2) unfolding user_key_def by blast+
  obtain k0 where k0: "blind25_factor e ed X spk = Inr k0" "blind25_factor e ed (CHR 0x05 # X) spk = Inr k0" "sc k0"
    using blind_factors [OF assms(1,3) u(5)] by auto
  define k where "k = (if sign_bit (drop 32 sk) then scalar_negate ed k0 else k0)"
  define A where "A = ed_base_noclamp ed (scalar_mul ed k ?a)"
  have k: "sc k" using k0(3) sc_negate [OF assms(1)] by (simp add: k_def)
  have len: "length (drop 32 sk) = 32" "length A = 32"
    using length_point [OF assms(1)] sc_mul [OF assms(1)] k u(2,3) by (simp_all add: A_def)
  have mult: "ed_mult_noclamp ed k0 (clear_sign_bit (drop 32 sk)) = Some A"
    using mult_point [OF assms(1) k0(3)] positive_point [OF assms(1) u(2)] sc_negate [OF assms(1) u(2)]
      negate_mul [OF assms(1) k0(3) u(2)] u(2) by (simp add: u(3) A_def k_def)
  show ?thesis
  proof (rule that [OF _ k len(2)])
    show "id25 e cv ed sk spk k A" using k0(1) u(4) by (simp add: id25_def A_def k_def)
    show "blind25_key_pair e cv ed key spk = Inr (A, scalar_mul ed k ?a, k)"
      using u(1,4) k0(1) assms(3) by (simp add: blind25_key_pair_def A_def k_def Let_def)
    fix s :: "bytes option" assume "s = None \<or> s = Some []"
    then show "blinded25_id_from_ed e cv ed (drop 32 sk) spk s = Inr (CHR 0x25 # A, map_option (\<lambda>_. CHR 0x05 # X) s)"
      using k0(2) assms(3) len(1) mult u(4) by (auto simp: blinded25_id_from_ed_def Let_def simp del: length_drop)
  qed
qed

section \<open>Ids, keys and signatures fit together\<close>

lemma byte_xor_commute: "byte_xor c d = byte_xor d c"
  by (simp add: byte_xor_def xor.commute)

lemma flip_flip: "length A = 32 \<Longrightarrow> flip_sign_bit (flip_sign_bit A) = A"
  using byte_xor_cancel(1) [of "CHR 0x80" "A ! 31"] by (simp add: flip_sign_bit_def byte_xor_commute [of _ "CHR 0x80"])

text \<open>What the functions on session ids compute: the 25-blinded id, and the 15-blinded id up to its sign.\<close>

lemma ids_of_session_id:
  assumes "blinding_ok e cv ed sc" "user_key cv ed sc key sk X" "length spk = 32"
    and "xed_pubkey fe X = clear_sign_bit (drop 32 sk)" "id15 e cv ed sk spk k A" "id25 e cv ed sk spk k' A'"
  shows "blind25_id_impl e ed fe (CHR 0x05 # X) spk = Inr (CHR 0x25 # A')"
    and "blind15_id_impl e ed fe (CHR 0x05 # X) spk = Inr (CHR 0x15 # (if sign_bit (drop 32 sk) then flip_sign_bit A else A))"
proof -
  let ?a = "sk_to_curve cv sk"
  have u: "sc ?a" "drop 32 sk = ed_base_noclamp ed ?a" "pk_to_curve cv (drop 32 sk) = Some X" "length X = 32"
    using assms(2) unfolding user_key_def by blast+
  obtain k0 k1 where k0: "blind15_factor e ed spk = Inr k0" "sc k0" "blind25_factor e ed X spk = Inr k1"
    "blind25_factor e ed (CHR 0x05 # X) spk = Inr k1" "sc k1"
    using blind_factors [OF assms(1,3) u(4)] by metis
  note neg = negate_mul [OF assms(1) _ u(1)] sc_negate [OF assms(1) u(1)] positive_point [OF assms(1) u(1)]
  have mult: "ed_mult_noclamp ed j (clear_sign_bit (drop 32 sk)) =
      Some (ed_base_noclamp ed (if sign_bit (drop 32 sk) then scalar_negate ed (scalar_mul ed j ?a) else scalar_mul ed j ?a))"
    if "sc j" for j using mult_point [OF assms(1) that] neg u(1) that by (simp add: u(2))
  have "k' = (if sign_bit (drop 32 sk) then scalar_negate ed k1 else k1)" "k = k0"
    using assms(5,6) k0(1,3) u(3) by (auto simp: id15_def id25_def)
  then show "blind25_id_impl e ed fe (CHR 0x05 # X) spk = Inr (CHR 0x25 # A')"
    "blind15_id_impl e ed fe (CHR 0x05 # X) spk = Inr (CHR 0x15 # (if sign_bit (drop 32 sk) then flip_sign_bit A else A))"
    using assms(4-6) k0 mult neg(1) u(4) point_negate [OF assms(1) sc_mul [OF assms(1) k0(2) u(1)]]
    by (simp_all add: blind25_id_impl_def blind15_id_impl_def id15_def id25_def)
qed

lemma hex_args:
  assumes "hex_ok enc" "length X = 32" "length spk = 32"
  shows "length (to_hex enc (CHR 0x05 # X)) = 66" "is_hex enc (to_hex enc (CHR 0x05 # X))"
    "to_hex enc (CHR 0x05 # X) ! 0 = CHR ''0''" "to_hex enc (CHR 0x05 # X) ! 1 = CHR ''5''"
    "check_blind_args enc (to_hex enc (CHR 0x05 # X)) (to_hex enc spk) = Inr ()"
    "length (to_hex enc spk) = 64" "is_hex enc (to_hex enc spk)"
proof -
  have "take 2 (to_hex enc (CHR 0x05 # X)) = ''05''" using assms(1) by (simp add: hex_ok_def)
  then have "to_hex enc (CHR 0x05 # X) ! n = ''05'' ! n" if "n < 2" for n using that by (metis nth_take)
  from this [of 0] this [of 1]
  show digits: "to_hex enc (CHR 0x05 # X) ! 0 = CHR ''0''" "to_hex enc (CHR 0x05 # X) ! 1 = CHR ''5''" by simp_all
  show sizes: "length (to_hex enc (CHR 0x05 # X)) = 66" "is_hex enc (to_hex enc (CHR 0x05 # X))"
    "length (to_hex enc spk) = 64" "is_hex enc (to_hex enc spk)" using assms by (simp_all add: hex_ok_def)
  show "check_blind_args enc (to_hex enc (CHR 0x05 # X)) (to_hex enc spk) = Inr ()"
    using digits sizes by (simp add: check_blind_args_def)
qed

text \<open>
  C11: a session id matches exactly the blinded ids of its user on the server: the 25-blinded key, and the
  15-blinded key in both signs, whatever the sign of the Ed25519 key of the user is. Every other string with one
  of the two prefixes does not match, and a string with another prefix is an error.
\<close>

theorem blinded_ids_match:
  assumes "blinding_ok e cv ed sc" "user_key cv ed sc key sk X" "length spk = 32" "hex_ok enc"
    and "xed_pubkey fe X = clear_sign_bit (drop 32 sk)" "2 \<le> length b"
    and "blind15_key_pair e cv ed key spk = Inr (A15, a15, k15)" "blind25_key_pair e cv ed key spk = Inr (A25, a25, k25)"
  shows "session_id_matches_blinded_id e enc ed fe (to_hex enc (CHR 0x05 # X)) b (to_hex enc spk) =
    (if take 2 b = ''15'' then Inr (b \<in> {to_hex enc (CHR 0x15 # A15), to_hex enc (CHR 0x15 # flip_sign_bit A15)})
     else if take 2 b = ''25'' then Inr (b = to_hex enc (CHR 0x25 # A25))
     else Inl Invalid_argument)"
proof -
  obtain k where k: "id15 e cv ed sk spk k A15" "length A15 = 32"
    using blind15_user [OF assms(1-3)] assms(7) by (metis Pair_inject sum.inject(2))
  obtain k' where k': "id25 e cv ed sk spk k' A25"
    using blind25_user [OF assms(1-3)] assms(8) by (metis Pair_inject sum.inject(2))
  note ids = ids_of_session_id [OF assms(1-3,5) k(1) k']
  have X: "length X = 32" using assms(2) by (simp add: user_key_def)
  note hex = hex_args [OF assms(4) X assms(3)]
  have raw: "from_hex enc (to_hex enc y) = y" for y using assms(4) by (simp add: hex_ok_def)
  have r15: "blind15_id_hex e enc ed fe (to_hex enc (CHR 0x05 # X)) (to_hex enc spk) =
      Inr (let B = (if sign_bit (drop 32 sk) then flip_sign_bit A15 else A15) in
           (to_hex enc (CHR 0x15 # B), to_hex enc (CHR 0x15 # flip_sign_bit B)))"
    using hex(5) ids(2) by (simp add: blind15_id_hex_def raw Let_def flip_sign_bit_def)
  have r25: "blind25_id_hex e enc ed fe (to_hex enc (CHR 0x05 # X)) (to_hex enc spk) = Inr (to_hex enc (CHR 0x25 # A25))"
    using hex(5) ids(1) by (simp add: blind25_id_hex_def raw)
  obtain c d b' where b: "b = c # d # b'" using assms(6) by (metis Suc_le_length_iff numeral_2_eq_2)
  show ?thesis
    using hex r15 r25 flip_flip [OF k(2)]
    by (auto simp: session_id_matches_blinded_id_def b Let_def numeral_2_eq_2)
qed

lemma signature_verifies:
  assumes "blinding_ok e cv ed sc" "sc a" "sc r"
  shows "let R = ed_base_noclamp ed r; A = ed_base_noclamp ed a;
      sig = R @ scalar_add ed (scalar_mul ed (scalar_reduce ed (sha512 ed (R @ A @ m))) a) r in
    length sig = 64 \<and> e_verify e A m sig"
  using edwards_of [OF assms(1)] assms(2,3) by (simp add: edwards_ok_def Let_def)

text \<open>
  C29: a signature made with a blinded key verifies under the blinded id of the signer, in both schemes, with the
  server given by its key or in hex, and with the secret key given in full or as a seed.
\<close>

theorem blinded_signatures_verify:
  assumes "blinding_ok e cv ed sc" "user_key cv ed sc key sk X" "length spk = 32" "hex_ok enc"
    and "server = spk \<or> server = to_hex enc spk"
  shows "\<exists>A15 a15 k15 sig15 A25 a25 k25 sig25.
    blind15_key_pair e cv ed key spk = Inr (A15, a15, k15) \<and> blind15_sign e enc cv ed key server msg = Inr sig15 \<and>
    length sig15 = 64 \<and> e_verify e A15 msg sig15 \<and>
    blind25_key_pair e cv ed key spk = Inr (A25, a25, k25) \<and> blind25_sign e enc cv ed key server msg = Inr sig25 \<and>
    length sig25 = 64 \<and> e_verify e A25 msg sig25"
proof -
  let ?a = "sk_to_curve cv sk"
  have u: "expand_key cv key = Inr sk" "sc ?a" using assms(2) unfolding user_key_def by blast+
  have sk: "user_key cv ed sc sk sk X" using assms(2) expand_key_length by (auto simp: user_key_def)
  have server: "server_pk_bytes enc server = Inr spk"
    using assms(3-5) by (auto simp: server_pk_bytes_def hex_ok_def)
  have r15: "sc (scalar_reduce ed (sha512 ed m))" for m using assms(1) by (simp add: blinding_ok_def)
  obtain A k where A: "id15 e cv ed sk spk k A" "sc k" "blind15_key_pair e cv ed sk spk = Inr (A, scalar_mul ed k ?a, k)"
    using blind15_user [OF assms(1) sk assms(3)] by metis
  obtain A' k' where A': "id25 e cv ed sk spk k' A'" "sc k'" "blind25_key_pair e cv ed sk spk = Inr (A', scalar_mul ed k' ?a, k')"
    using blind25_user [OF assms(1) sk assms(3)] by metis
  have same: "blind15_key_pair e cv ed key spk = blind15_key_pair e cv ed sk spk"
    "blind25_key_pair e cv ed key spk = blind25_key_pair e cv ed sk spk"
    using u(1) expand_key_length [OF u(1)] by (simp_all add: blind15_key_pair_def blind25_key_pair_def)
  have s15: "\<exists>sig. blind15_sign e enc cv ed key server msg = Inr sig \<and> length sig = 64 \<and> e_verify e A msg sig"
    using signature_verifies [OF assms(1) sc_mul [OF assms(1) A(2) u(2)] r15] A(1) u(1) server
    by (simp add: blind15_sign_def A(3) Let_def id15_def)
  have s25: "\<exists>sig. blind25_sign e enc cv ed key server msg = Inr sig \<and> length sig = 64 \<and> e_verify e A' msg sig"
    using signature_verifies [OF assms(1) sc_mul [OF assms(1) A'(2) u(2)] sc_hash [OF assms(1)]] A'(1) u(1) server
    by (simp add: blind25_sign_def A'(3) Let_def id25_def)
  show ?thesis unfolding same A(3) A'(3) using s15 s25 by blast
qed

text \<open>A version request is signed with a key derived from the seed, for the endpoint of the platform.\<close>

lemma version_signature_verifies:
  assumes "blinding_ok e cv ed sc" "crypto_ok (e_crypto e)" "sign_ok e" "length key = 32 \<or> length key = 64"
    and "\<And>seed. length seed = 32 \<Longrightarrow> e_sk_to_pk e (snd (seed_keypair cv seed)) = fst (seed_keypair cv seed)"
  obtains pk sk sig where "blind_version_key_pair e cv key = Inr (pk, sk)" "blind_version_sign e cv key p ts = Inr sig"
    "blind_version_sign_request e cv key ts ''GET'' (version_endpoint p) None = Inr sig"
    "length sig = 64" "e_verify e pk (int_to_string (uint ts) @ ''GET'' @ version_endpoint p) sig"
proof -
  define seed where "seed = generichash (e_crypto e) 32 ''VersionCheckKey_sig'' (take 32 key)"
  obtain pk sk where kp: "seed_keypair cv seed = (pk, sk)" by fastforce
  have len: "length seed = 32" using assms(2) by (simp add: crypto_ok_def seed_def)
  then have "expand_key cv sk = Inr sk" using assms(1) kp by (auto simp: blinding_ok_def expand_key_def)
  moreover have "blind_version_key_pair e cv key = Inr (pk, sk)"
    using assms(4) kp by (auto simp: blind_version_key_pair_def seed_def)
  moreover have "length (e_sign e sk m) = 64 \<and> e_verify e pk m (e_sign e sk m)" for m
    using assms(3) assms(5) [OF len] kp by (simp add: sign_ok_def) metis
  ultimately show ?thesis using that
    by (simp add: blind_version_sign_def blind_version_sign_request_def ed25519_sign_def)
qed

end
