(* ===== verification/Session_Encrypt.thy ===== *)
theory Session_Encrypt
  imports Blinding Channel
begin

text \<open>
  The encryption of messages between users (\<open>src/src/session_encrypt.cpp\<close>): signed sealed boxes for a session
  id, messages between blinded ids of a community, name-service responses, push notifications, message hashes
  and plain XChaCha20-Poly1305. The box, password-hash and secretbox functions of libsodium are the fields
  of \<open>box_lib\<close> (\<open>None\<close> is a non-zero return value); random bytes are arguments. The received data is read by position, as
  the code does: a read past the end of a buffer, and a message that libsodium writes into a buffer that is too
  short for it, are undefined behaviour; sizes are \<open>size_t\<close> and wrap.
\<close>

section \<open>Definitions\<close>

subsection \<open>Memory\<close>

definition size_minus :: "nat \<Rightarrow> nat \<Rightarrow> nat" where
  "size_minus a b = (if a < b then 2 ^ 64 - (b - a) else a - b)"

definition read_at :: "nat \<Rightarrow> nat \<Rightarrow> bytes \<Rightarrow> bytes res" where
  "read_at pos n buf = (if length buf < pos + n then Inl Undefined_behaviour else Inr (take n (drop pos buf)))"

definition resize_to :: "nat \<Rightarrow> bytes \<Rightarrow> bytes" where
  "resize_to n buf = take n buf @ replicate (n - length buf) (CHR 0x00)"

text \<open>A vector of \<open>n\<close> null bytes after libsodium has written \<open>m\<close> into it.\<close>

definition fill_buf :: "nat \<Rightarrow> bytes \<Rightarrow> bytes res" where
  "fill_buf n m = (if n < length m then Inl Undefined_behaviour else Inr (resize_to n m))"

subsection \<open>Libraries\<close>

record box_lib =
  box_seal :: "bytes \<Rightarrow> bytes \<Rightarrow> bytes \<Rightarrow> bytes option"
  box_seal_open :: "bytes \<Rightarrow> bytes \<Rightarrow> bytes \<Rightarrow> bytes option"
  box_seed_keypair :: "bytes \<Rightarrow> bytes \<times> bytes"
  box_easy :: "bytes \<Rightarrow> bytes \<Rightarrow> bytes \<Rightarrow> bytes \<Rightarrow> bytes option"
  pwhash :: "bytes \<Rightarrow> bytes \<Rightarrow> bytes option"
  secretbox_open :: "bytes \<Rightarrow> bytes \<Rightarrow> bytes \<Rightarrow> bytes option"

definition BLINDED_ENCRYPT_VERSION :: char where "BLINDED_ENCRYPT_VERSION = CHR 0x00"
definition SEALBYTES :: nat where "SEALBYTES = 48"
definition ABYTES :: nat where "ABYTES = 16"
definition SECRETBOX_MACBYTES :: nat where "SECRETBOX_MACBYTES = 16"

subsection \<open>Messages to a session id\<close>

definition sign_for_recipient :: "env \<Rightarrow> curve \<Rightarrow> bytes \<Rightarrow> bytes \<Rightarrow> bytes \<Rightarrow> bytes res" where
  "sign_for_recipient e cv ed25519_privkey recipient_pubkey message =
     res_bind (expand_key cv ed25519_privkey) (\<lambda>ed25519_privkey.
     res_bind (if length recipient_pubkey = 33 \<and> hd recipient_pubkey = CHR 0x05 then Inr (tl recipient_pubkey)
               else if length recipient_pubkey \<noteq> 32 then Inl Invalid_argument
               else Inr recipient_pubkey) (\<lambda>recipient_pubkey.
       let buf = message @ drop 32 ed25519_privkey @ recipient_pubkey;
           sig = e_sign e ed25519_privkey buf;
           buf = take (length buf - 32) buf in
       Inr (buf @ sig)))"

definition encrypt_for_recipient ::
  "env \<Rightarrow> curve \<Rightarrow> box_lib \<Rightarrow> bytes \<Rightarrow> bytes \<Rightarrow> bytes \<Rightarrow> bytes \<Rightarrow> bytes res" where
  "encrypt_for_recipient e cv bx random ed25519_privkey recipient_pubkey message =
     res_bind (sign_for_recipient e cv ed25519_privkey recipient_pubkey message) (\<lambda>signed_msg.
       let recipient_pubkey = (if length recipient_pubkey = 33 then tl recipient_pubkey else recipient_pubkey) in
       case box_seal bx random signed_msg recipient_pubkey of
         None \<Rightarrow> Inl Runtime_error
       | Some result \<Rightarrow> Inr result)"

definition BOX_HASHKEY :: string where "BOX_HASHKEY = ''SessionBoxEphemeralHashKey''"

definition encrypt_for_recipient_deterministic ::
  "env \<Rightarrow> curve \<Rightarrow> box_lib \<Rightarrow> bytes \<Rightarrow> bytes \<Rightarrow> bytes \<Rightarrow> bytes res" where
  "encrypt_for_recipient_deterministic e cv bx ed25519_privkey recipient_pubkey message =
     res_bind (sign_for_recipient e cv ed25519_privkey recipient_pubkey message) (\<lambda>signed_msg.
       let recipient_pubkey = (if length recipient_pubkey = 33 then tl recipient_pubkey else recipient_pubkey) in
       res_bind (read_at 0 32 ed25519_privkey) (\<lambda>sender_seed. res_bind (read_at 0 32 recipient_pubkey) (\<lambda>rpk.
         let seed = generichash (e_crypto e) 32 BOX_HASHKEY (sender_seed @ rpk @ message);
             (eph_pk, eph_sk) = box_seed_keypair bx seed;
             nonce = generichash (e_crypto e) 24 [] (eph_pk @ recipient_pubkey) in
         case box_easy bx signed_msg nonce recipient_pubkey eph_sk of
           None \<Rightarrow> Inl Runtime_error
         | Some b \<Rightarrow> Inr (eph_pk @ b))))"

definition decrypt_incoming_x ::
  "env \<Rightarrow> box_lib \<Rightarrow> bytes \<Rightarrow> bytes \<Rightarrow> bytes \<Rightarrow> (bytes \<times> bytes) res" where
  "decrypt_incoming_x e bx x25519_pubkey x25519_seckey ciphertext =
     (if length ciphertext < SEALBYTES + 32 + 64 then Inl Runtime_error
      else
        let outer_size = size_minus (length ciphertext) SEALBYTES; msg_size = size_minus (size_minus outer_size 32) 64 in
        res_bind (read_at 0 32 x25519_pubkey) (\<lambda>x_pub. res_bind (read_at 0 32 x25519_seckey) (\<lambda>x_sec.
          case box_seal_open bx ciphertext x_pub x_sec of
            None \<Rightarrow> Inl Runtime_error
          | Some opened \<Rightarrow>
              res_bind (fill_buf outer_size opened) (\<lambda>buf.
              res_bind (read_at msg_size 32 buf) (\<lambda>sender_ed_pk. res_bind (read_at (msg_size + 32) 64 buf) (\<lambda>sig.
                let buf = resize_to (size_minus (length buf) 64) buf @ x_pub in
                if \<not> e_verify e sender_ed_pk buf sig then Inl Runtime_error
                else Inr (resize_to (size_minus (size_minus (length buf) 32) 32) buf, sender_ed_pk)))))))"

definition decrypt_incoming :: "env \<Rightarrow> curve \<Rightarrow> box_lib \<Rightarrow> bytes \<Rightarrow> bytes \<Rightarrow> (bytes \<times> bytes) res" where
  "decrypt_incoming e cv bx ed25519_privkey ciphertext =
     res_bind (expand_key cv ed25519_privkey) (\<lambda>ed25519_privkey.
       let x_sec = sk_to_curve cv ed25519_privkey; x_pub = curve_base cv x_sec in
       decrypt_incoming_x e bx x_pub x_sec ciphertext)"

definition sender_session_id :: "encodings \<Rightarrow> curve \<Rightarrow> bytes \<times> bytes \<Rightarrow> (bytes \<times> string) res" where
  "sender_session_id enc cv = (\<lambda>(buf, sender_ed_pk).
     case pk_to_curve cv sender_ed_pk of
       None \<Rightarrow> Inl Runtime_error
     | Some sender_x_pk \<Rightarrow> Inr (buf, ''05'' @ to_hex enc sender_x_pk))"

definition decrypt_incoming_session_id ::
  "env \<Rightarrow> encodings \<Rightarrow> curve \<Rightarrow> box_lib \<Rightarrow> bytes \<Rightarrow> bytes \<Rightarrow> (bytes \<times> string) res" where
  "decrypt_incoming_session_id e enc cv bx ed25519_privkey ciphertext =
     res_bind (decrypt_incoming e cv bx ed25519_privkey ciphertext) (sender_session_id enc cv)"

definition decrypt_incoming_session_id_x ::
  "env \<Rightarrow> encodings \<Rightarrow> curve \<Rightarrow> box_lib \<Rightarrow> bytes \<Rightarrow> bytes \<Rightarrow> bytes \<Rightarrow> (bytes \<times> string) res" where
  "decrypt_incoming_session_id_x e enc cv bx x25519_pubkey x25519_seckey ciphertext =
     res_bind (decrypt_incoming_x e bx x25519_pubkey x25519_seckey ciphertext) (sender_session_id enc cv)"

subsection \<open>Messages between blinded ids\<close>

definition blinded_shared_secret ::
  "env \<Rightarrow> curve \<Rightarrow> edwards \<Rightarrow> bytes \<Rightarrow> bytes \<Rightarrow> bytes \<Rightarrow> bytes \<Rightarrow> bool \<Rightarrow> bytes res" where
  "blinded_shared_secret e cv ed seed kA jB server_pk sending =
     (if length seed \<noteq> 64 \<and> length seed \<noteq> 32 then Inl Invalid_argument
      else if length server_pk \<noteq> 32 then Inl Invalid_argument
      else if length kA \<noteq> 33 then Inl Invalid_argument
      else if length jB \<noteq> 33 then Inl Invalid_argument
      else
        res_bind (if kA ! 0 = CHR 0x15 \<and> jB ! 0 = CHR 0x15 then blind15_key_pair e cv ed seed server_pk
                  else if kA ! 0 = CHR 0x25 \<and> jB ! 0 = CHR 0x25 then blind25_key_pair e cv ed seed server_pk
                  else Inl Invalid_argument) (\<lambda>(_, _, k).
          let blind25 = (kA ! 0 = CHR 0x25); kA = tl kA; jB = tl jB;
              ka = sk_to_curve cv seed;
              ka = (if blind25 then scalar_mul ed ka k else ka) in
          case ed_mult_noclamp ed ka jB of
            None \<Rightarrow> Inl Runtime_error
          | Some shared_secret \<Rightarrow>
              let sender = (if sending then kA else jB); recipient = (if sending then jB else kA) in
              Inr (generichash (e_crypto e) 32 [] (shared_secret @ sender @ recipient))))"

definition encrypt_for_blinded_recipient ::
  "env \<Rightarrow> curve \<Rightarrow> edwards \<Rightarrow> bytes \<Rightarrow> bytes \<Rightarrow> bytes \<Rightarrow> bytes \<Rightarrow> bytes \<Rightarrow> bytes res" where
  "encrypt_for_blinded_recipient e cv ed nonce ed25519_privkey server_pk recipient_blinded_id message =
     (if length ed25519_privkey \<noteq> 64 \<and> length ed25519_privkey \<noteq> 32 then Inl Invalid_argument
      else if length server_pk \<noteq> 32 then Inl Invalid_argument
      else if length recipient_blinded_id \<noteq> 33 then Inl Invalid_argument
      else
        res_bind (if recipient_blinded_id ! 0 = CHR 0x15 then blind15_key_pair e cv ed ed25519_privkey server_pk
                  else if recipient_blinded_id ! 0 = CHR 0x25 then blind25_key_pair e cv ed ed25519_privkey server_pk
                  else Inl Invalid_argument) (\<lambda>(blinded_pk, _, _).
          let blinded_id = recipient_blinded_id ! 0 # blinded_pk in
          res_bind (blinded_shared_secret e cv ed ed25519_privkey blinded_id recipient_blinded_id server_pk True) (\<lambda>enc_key.
            let buf = message @ (if length ed25519_privkey = 64 then drop 32 ed25519_privkey
                                 else fst (seed_keypair cv ed25519_privkey));
                out = aead_encrypt (e_crypto e) buf nonce enc_key in
            res_bind (assertion e (length out = length buf + ABYTES)) (\<lambda>_.
              Inr (BLINDED_ENCRYPT_VERSION # out @ nonce)))))"

text \<open>
  The prefix of the recipient id selects the scheme; it is read before the length of the id is checked.
\<close>

definition blinded_id_from_ed ::
  "env \<Rightarrow> curve \<Rightarrow> edwards \<Rightarrow> bytes \<Rightarrow> bytes \<Rightarrow> bytes \<Rightarrow> bytes option \<Rightarrow> (bytes \<times> bytes option) res" where
  "blinded_id_from_ed e cv ed recipient_id ed_pk server_pk sid =
     (if recipient_id ! 0 = CHR 0x25 then blinded25_id_from_ed e cv ed ed_pk server_pk sid
      else blinded15_id_from_ed e cv ed ed_pk server_pk sid)"

definition sender_matches :: "bytes \<Rightarrow> bytes \<Rightarrow> bool" where
  "sender_matches sender_id extracted_sender \<longleftrightarrow>
     (let matched = (sender_id = extracted_sender) in
      if \<not> matched \<and> extracted_sender ! 0 = CHR 0x15
      then sender_id = extracted_sender[31 := byte_xor (extracted_sender ! 31) (CHR 0x80)]
      else matched)"

definition check_blinded_sender ::
  "env \<Rightarrow> encodings \<Rightarrow> curve \<Rightarrow> edwards \<Rightarrow> bytes \<Rightarrow> bytes \<Rightarrow> bytes \<Rightarrow> bytes \<Rightarrow> (bytes \<times> string) res" where
  "check_blinded_sender e enc cv ed server_pk sender_id recipient_id buf =
     res_bind (read_at (size_minus (length buf) 32) 32 buf) (\<lambda>sender_ed_pk.
       case pk_to_curve cv sender_ed_pk of
         None \<Rightarrow> Inl Runtime_error
       | Some sender_x_pk \<Rightarrow>
           res_bind (blinded_id_from_ed e cv ed recipient_id sender_ed_pk server_pk (Some [])) (\<lambda>(extracted_sender, _).
             if \<not> sender_matches sender_id extracted_sender then Inl Runtime_error
             else Inr (resize_to (size_minus (length buf) 32) buf, ''05'' @ to_hex enc sender_x_pk)))"

definition decrypt_from_blinded_recipient ::
  "env \<Rightarrow> encodings \<Rightarrow> curve \<Rightarrow> edwards \<Rightarrow> bytes \<Rightarrow> bytes \<Rightarrow> bytes \<Rightarrow> bytes \<Rightarrow> bytes \<Rightarrow> (bytes \<times> string) res" where
  "decrypt_from_blinded_recipient e enc cv ed ed25519_privkey server_pk sender_id recipient_id ciphertext =
     res_bind (expand_key cv ed25519_privkey) (\<lambda>ed_sk.
     res_bind (if length ed25519_privkey = 32 then Inr (fst (seed_keypair cv ed25519_privkey))
               else read_at 32 32 ed25519_privkey) (\<lambda>ed_pk_from_seed.
       let ed25519_privkey = ed_sk in
       if length ciphertext < NPUBBYTES + 1 + ABYTES then Inl Invalid_argument
       else
         res_bind (read_at 0 1 recipient_id) (\<lambda>_.
         res_bind (blinded_id_from_ed e cv ed recipient_id ed_pk_from_seed server_pk None) (\<lambda>(blinded_id, _).
         res_bind (if sender_id = blinded_id
                   then blinded_shared_secret e cv ed ed25519_privkey sender_id recipient_id server_pk True
                   else blinded_shared_secret e cv ed ed25519_privkey recipient_id sender_id server_pk False) (\<lambda>dec_key.
         res_bind (read_at 0 1 ciphertext) (\<lambda>version.
           if version \<noteq> [BLINDED_ENCRYPT_VERSION] then Inl Invalid_argument
           else
             let msg_size = size_minus (size_minus (size_minus (length ciphertext) ABYTES) 1) NPUBBYTES in
             if msg_size < 32 then Inl Invalid_argument
             else
               res_bind (read_at (msg_size + 1 + ABYTES) NPUBBYTES ciphertext) (\<lambda>nonce.
               res_bind (read_at 1 (msg_size + ABYTES) ciphertext) (\<lambda>sealed.
                 case aead_decrypt (e_crypto e) sealed nonce dec_key of
                   None \<Rightarrow> Inl Invalid_argument
                 | Some opened \<Rightarrow>
                     res_bind (fill_buf msg_size opened) (\<lambda>buf.
                     res_bind (assertion e (length opened = length buf)) (\<lambda>_.
                       check_blinded_sender e enc cv ed server_pk sender_id recipient_id buf))))))))))"

subsection \<open>Name-service responses, push notifications, hashes\<close>

definition decrypt_ons_response ::
  "env \<Rightarrow> encodings \<Rightarrow> box_lib \<Rightarrow> string \<Rightarrow> bytes \<Rightarrow> bytes option \<Rightarrow> string res" where
  "decrypt_ons_response e enc bx lowercase_name ciphertext nonce =
     (case nonce of
        None \<Rightarrow>
          if length ciphertext < SECRETBOX_MACBYTES then Inl Invalid_argument
          else (case pwhash bx lowercase_name (replicate 16 (CHR 0x00)) of
                  None \<Rightarrow> Inl Runtime_error
                | Some key \<Rightarrow>
                    (case secretbox_open bx ciphertext (replicate 24 (CHR 0x00)) key of
                       None \<Rightarrow> Inl Runtime_error
                     | Some opened \<Rightarrow>
                         res_bind (fill_buf (size_minus (length ciphertext) SECRETBOX_MACBYTES) opened) (\<lambda>msg.
                           Inr (to_hex enc msg))))
      | Some nonce \<Rightarrow>
          if length ciphertext < ABYTES then Inl Invalid_argument
          else if length nonce \<noteq> NPUBBYTES then Inl Invalid_argument
          else
            let name_hash = generichash (e_crypto e) 32 [] lowercase_name;
                key = generichash (e_crypto e) 32 name_hash lowercase_name in
            case aead_decrypt (e_crypto e) ciphertext nonce key of
              None \<Rightarrow> Inl Runtime_error
            | Some opened \<Rightarrow>
                res_bind (fill_buf (size_minus (length ciphertext) ABYTES) opened) (\<lambda>buf.
                  if length opened \<noteq> 33 then Inl Runtime_error else Inr (to_hex enc buf)))"

definition strip_trailing_nulls :: "bytes \<Rightarrow> bytes" where
  "strip_trailing_nulls buf =
     (let rest = dropWhile (\<lambda>c. c = CHR 0x00) (rev buf) in if rest = [] then buf else rev rest)"

definition decrypt_push_notification :: "env \<Rightarrow> bytes \<Rightarrow> bytes \<Rightarrow> bytes res" where
  "decrypt_push_notification e payload enc_key =
     (if length payload < NPUBBYTES + ABYTES then Inl Invalid_argument
      else if length enc_key \<noteq> 32 then Inl Invalid_argument
      else
        let msg_size = size_minus (size_minus (length payload) ABYTES) NPUBBYTES in
        res_bind (read_at 0 NPUBBYTES payload) (\<lambda>nonce.
        res_bind (read_at NPUBBYTES (size_minus (length payload) NPUBBYTES) payload) (\<lambda>sealed.
          case aead_decrypt (e_crypto e) sealed nonce enc_key of
            None \<Rightarrow> Inl Runtime_error
          | Some opened \<Rightarrow> res_bind (fill_buf msg_size opened) (\<lambda>buf. Inr (strip_trailing_nulls buf)))))"

definition compute_hash_blake2b_b64 :: "env \<Rightarrow> (bytes \<Rightarrow> string) \<Rightarrow> string list \<Rightarrow> string" where
  "compute_hash_blake2b_b64 e to_base64 parts =
     (let b64hash = to_base64 (generichash (e_crypto e) 32 [] (concat parts)) in
      rev (dropWhile (\<lambda>c. c = CHR ''='') (rev b64hash)))"

definition compute_message_hash ::
  "env \<Rightarrow> encodings \<Rightarrow> (bytes \<Rightarrow> string) \<Rightarrow> string \<Rightarrow> 16 word \<Rightarrow> string \<Rightarrow> string res" where
  "compute_message_hash e enc to_base64 pubkey_hex ns data =
     (if length pubkey_hex \<noteq> 66 then Inl Invalid_argument
      else
        let pubkey = from_hex enc (drop 2 pubkey_hex);
            netid = from_hex enc (take 2 pubkey_hex);
            ns_for_hash = (if ns \<noteq> 0 then int_to_string (sint ns) else []);
            decoded_data = from_base64 enc data in
        Inr (compute_hash_blake2b_b64 e to_base64 [netid, pubkey, ns_for_hash, decoded_data]))"

definition session_encrypt_xchacha20 :: "env \<Rightarrow> bytes \<Rightarrow> bytes \<Rightarrow> bytes \<Rightarrow> bytes res" where
  "session_encrypt_xchacha20 e nonce plaintext enc_key =
     (if length enc_key \<noteq> 32 then Inl Invalid_argument
      else
        let c = aead_encrypt (e_crypto e) plaintext nonce enc_key in
        res_bind (assertion e (NPUBBYTES + length c \<le> NPUBBYTES + length plaintext + ABYTES)) (\<lambda>_.
          Inr (nonce @ c)))"

definition session_decrypt_xchacha20 :: "env \<Rightarrow> bytes \<Rightarrow> bytes \<Rightarrow> bytes res" where
  "session_decrypt_xchacha20 e ciphertext enc_key =
     (if length ciphertext < NPUBBYTES + ABYTES then Inl Invalid_argument
      else if length enc_key \<noteq> 32 then Inl Invalid_argument
      else
        res_bind (read_at 0 NPUBBYTES ciphertext) (\<lambda>nonce.
        res_bind (read_at NPUBBYTES (size_minus (length ciphertext) NPUBBYTES) ciphertext) (\<lambda>ciphertext.
          case aead_decrypt (e_crypto e) ciphertext nonce enc_key of
            None \<Rightarrow> Inl Runtime_error
          | Some m \<Rightarrow>
              res_bind (fill_buf (size_minus (length ciphertext) ABYTES) m) (\<lambda>plaintext.
              res_bind (assertion e (length m \<le> length plaintext)) (\<lambda>_. Inr (resize_to (length m) plaintext))))))"

section \<open>Reading buffers\<close>

named_theorems memory \<open>reads and writes that stay inside their buffers\<close>

lemma size_minus_ge [memory]: "b \<le> a \<Longrightarrow> size_minus a b = a - b"
  by (simp add: size_minus_def)

lemma read_at_ok [memory]: "pos + n \<le> length buf \<Longrightarrow> read_at pos n buf = Inr (take n (drop pos buf))"
  by (simp add: read_at_def)

lemma resize_to_ok [memory]: "n \<le> length buf \<Longrightarrow> resize_to n buf = take n buf"
  by (simp add: resize_to_def)

lemma fill_buf_ok [memory]: "length m = n \<Longrightarrow> fill_buf n m = Inr m"
  by (simp add: fill_buf_def resize_to_def)

lemma read_at_eq_Inr: "read_at pos n buf = Inr r \<longleftrightarrow> pos + n \<le> length buf \<and> r = take n (drop pos buf)"
  by (auto simp: read_at_def)

section \<open>Messages to a session id\<close>

text \<open>
  What the code relies on of sealed boxes: one made for a public key opens with its secret key; it is an ephemeral
  public key followed by a box under the hash of both public keys.
\<close>

definition box_ok :: "crypto \<Rightarrow> curve \<Rightarrow> box_lib \<Rightarrow> bool" where
  "box_ok c cv bx \<longleftrightarrow>
     (\<forall>random m sk. length sk = 32 \<longrightarrow> (\<exists>ct. box_seal bx random m (curve_base cv sk) = Some ct \<and>
        length ct = length m + 48 \<and> box_seal_open bx ct (curve_base cv sk) sk = Some m)) \<and>
     (\<forall>seed m sk. length sk = 32 \<longrightarrow> (let (epk, esk) = box_seed_keypair bx seed in
        \<exists>b. box_easy bx m (generichash c 24 [] (epk @ curve_base cv sk)) (curve_base cv sk) esk = Some b \<and>
          length (epk @ b) = length m + 48 \<and> box_seal_open bx (epk @ b) (curve_base cv sk) sk = Some m)) \<and>
     (\<forall>ct pk sk m. box_seal_open bx ct pk sk = Some m \<longrightarrow> length m = length ct - 48)"

lemma box_easy_opens:
  assumes "box_ok c cv bx" "length sk = 32" "box_seed_keypair bx seed = (epk, esk)"
  shows "\<exists>b. box_easy bx m (generichash c 24 [] (epk @ curve_base cv sk)) (curve_base cv sk) esk = Some b \<and>
    length (epk @ b) = length m + 48 \<and> box_seal_open bx (epk @ b) (curve_base cv sk) sk = Some m"
proof -
  have "let (epk, esk) = box_seed_keypair bx seed in
      \<exists>b. box_easy bx m (generichash c 24 [] (epk @ curve_base cv sk)) (curve_base cv sk) esk = Some b \<and>
        length (epk @ b) = length m + 48 \<and> box_seal_open bx (epk @ b) (curve_base cv sk) sk = Some m"
    using assms(1,2) unfolding box_ok_def by blast
  then show ?thesis using assms(3) by simp
qed

lemma signed_message:
  assumes "sign_ok e" "expand_key cv key = Inr sk" "length Y = 32" "rpk = Y \<or> rpk = CHR 0x05 # Y"
  shows "sign_for_recipient e cv key rpk msg = Inr (msg @ drop 32 sk @ e_sign e sk (msg @ drop 32 sk @ Y))"
    and "(if length rpk = 33 then tl rpk else rpk) = Y"
  using assms by (auto simp: sign_for_recipient_def Let_def)

lemma open_signed:
  assumes "sign_ok e" "length sk = 64" "e_sk_to_pk e sk = drop 32 sk" "length Y = 32" "length y = 32"
    and "length ct = length msg + 144"
    and "box_seal_open bx ct Y y = Some (msg @ drop 32 sk @ e_sign e sk (msg @ drop 32 sk @ Y))"
  shows "decrypt_incoming_x e bx Y y ct = Inr (msg, drop 32 sk)"
proof -
  have sig: "length (e_sign e sk m) = 64" "e_verify e (drop 32 sk) m (e_sign e sk m)" for m
    using assms(1,3) unfolding sign_ok_def by metis+
  then show ?thesis
    using assms(2,4-7) by (simp add: decrypt_incoming_x_def SEALBYTES_def Let_def memory)
qed

lemma sealed_messages_open:
  assumes "box_ok (e_crypto e) cv bx" "sign_ok e" "expand_key cv key = Inr sk" "e_sk_to_pk e sk = drop 32 sk"
    and "expand_key cv rkey = Inr rsk" "length (sk_to_curve cv rsk) = 32"
    and "length (curve_base cv (sk_to_curve cv rsk)) = 32"
    and "rpk = curve_base cv (sk_to_curve cv rsk) \<or> rpk = CHR 0x05 # curve_base cv (sk_to_curve cv rsk)"
  obtains ct ct' where "encrypt_for_recipient e cv bx random key rpk msg = Inr ct"
    "decrypt_incoming e cv bx rkey ct = Inr (msg, drop 32 sk)"
    "encrypt_for_recipient_deterministic e cv bx key rpk msg = Inr ct'"
    "decrypt_incoming e cv bx rkey ct' = Inr (msg, drop 32 sk)"
proof -
  define Y where "Y = curve_base cv (sk_to_curve cv rsk)"
  define m where "m = msg @ drop 32 sk @ e_sign e sk (msg @ drop 32 sk @ Y)"
  have signed: "sign_for_recipient e cv key rpk msg = Inr m" "(if length rpk = 33 then tl rpk else rpk) = Y"
    using signed_message(1) [OF assms(2,3), of Y rpk msg] signed_message(2) [OF assms(2,3), of Y rpk] assms(7,8)
    by (simp_all add: m_def Y_def)
  have len: "length sk = 64" using expand_key_length [OF assms(3)] by simp
  have m: "length m = length msg + 96" using assms(2) len by (simp add: m_def sign_ok_def)
  have opened: "decrypt_incoming e cv bx rkey ct = Inr (msg, drop 32 sk)"
    if "length ct = length m + 48" "box_seal_open bx ct Y (sk_to_curve cv rsk) = Some m" for ct
    using open_signed [OF assms(2) len assms(4), of Y "sk_to_curve cv rsk" ct msg bx] that assms(5-7) m
    by (simp add: decrypt_incoming_def m_def Y_def Let_def)
  obtain ct where ct: "box_seal bx random m Y = Some ct" "length ct = length m + 48" "box_seal_open bx ct Y (sk_to_curve cv rsk) = Some m"
    using assms(1,6) unfolding box_ok_def Y_def by meson
  define seed where "seed = generichash (e_crypto e) 32 BOX_HASHKEY (take 32 key @ Y @ msg)"
  obtain epk esk where eph: "box_seed_keypair bx seed = (epk, esk)" by fastforce
  then obtain b where b: "box_easy bx m (generichash (e_crypto e) 24 [] (epk @ Y)) Y esk = Some b"
    "length (epk @ b) = length m + 48" "box_seal_open bx (epk @ b) Y (sk_to_curve cv rsk) = Some m"
    using box_easy_opens [OF assms(1,6), of seed epk esk m] by (auto simp: Y_def)
  have "encrypt_for_recipient e cv bx random key rpk msg = Inr ct"
    using signed ct(1) unfolding encrypt_for_recipient_def by (simp add: Let_def)
  moreover have "encrypt_for_recipient_deterministic e cv bx key rpk msg = Inr (epk @ b)"
  proof -
    have "length Y = 32" "32 \<le> length key" using assms(3,7) by (auto simp: Y_def expand_key_def split: if_splits)
    then have "read_at 0 32 key = Inr (take 32 key)" "read_at 0 32 Y = Inr Y" by (simp_all add: memory)
    then show ?thesis
      using eph b(1) unfolding encrypt_for_recipient_deterministic_def
      by (simp only: signed res_bind_simps Let_def flip: seed_def) simp
  qed
  ultimately show thesis using that opened [OF ct(2,3)] opened [OF b(2,3)] by blast
qed

text \<open>
  The channels: the parameters are the libraries and the keys of both sides. \<open>link_ok\<close> says that the keys are complete, and
  that the public key used for sending is the one of the receiver.
\<close>

type_synonym link = "env \<times> curve \<times> box_lib \<times> bytes \<times> bytes \<times> bytes"

definition link_ok :: "link \<Rightarrow> bool" where
  "link_ok = (\<lambda>(e, cv, bx, key, rkey, rpk). \<exists>sk rsk. box_ok (e_crypto e) cv bx \<and> sign_ok e \<and>
     expand_key cv key = Inr sk \<and> e_sk_to_pk e sk = drop 32 sk \<and> expand_key cv rkey = Inr rsk \<and>
     length (sk_to_curve cv rsk) = 32 \<and> length (curve_base cv (sk_to_curve cv rsk)) = 32 \<and>
     (rpk = curve_base cv (sk_to_curve cv rsk) \<or> rpk = CHR 0x05 # curve_base cv (sk_to_curve cv rsk)))"

definition seen_by_recipient :: "link \<Rightarrow> bytes \<Rightarrow> bytes \<times> bytes" where
  "seen_by_recipient = (\<lambda>(e, cv, bx, key, rkey, rpk) m. (m, drop 32 (projr (expand_key cv key))))"

lemma link_arrives:
  assumes "link_ok (e, cv, bx, key, rkey, rpk)"
  shows "\<exists>ct. encrypt_for_recipient e cv bx random key rpk m = Inr ct \<and>
      decrypt_incoming e cv bx rkey ct = Inr (seen_by_recipient (e, cv, bx, key, rkey, rpk) m)"
    and "\<exists>ct. encrypt_for_recipient_deterministic e cv bx key rpk m = Inr ct \<and>
      decrypt_incoming e cv bx rkey ct = Inr (seen_by_recipient (e, cv, bx, key, rkey, rpk) m)"
proof -
  obtain sk rsk where l: "box_ok (e_crypto e) cv bx" "sign_ok e" "expand_key cv key = Inr sk" "e_sk_to_pk e sk = drop 32 sk"
    "expand_key cv rkey = Inr rsk" "length (sk_to_curve cv rsk) = 32" "length (curve_base cv (sk_to_curve cv rsk)) = 32"
    "rpk = curve_base cv (sk_to_curve cv rsk) \<or> rpk = CHR 0x05 # curve_base cv (sk_to_curve cv rsk)"
    using assms unfolding link_ok_def by blast
  have "seen_by_recipient (e, cv, bx, key, rkey, rpk) m = (m, drop 32 sk)" using l(3) by (simp add: seen_by_recipient_def)
  then show "\<exists>ct. encrypt_for_recipient e cv bx random key rpk m = Inr ct \<and>
      decrypt_incoming e cv bx rkey ct = Inr (seen_by_recipient (e, cv, bx, key, rkey, rpk) m)"
    and "\<exists>ct. encrypt_for_recipient_deterministic e cv bx key rpk m = Inr ct \<and>
      decrypt_incoming e cv bx rkey ct = Inr (seen_by_recipient (e, cv, bx, key, rkey, rpk) m)"
    using sealed_messages_open [OF l, of random m] by metis+
qed

interpretation sealed: channel "\<lambda>(random, e, cv, bx, key, rkey, rpk). encrypt_for_recipient e cv bx random key rpk"
  "\<lambda>(random, e, cv, bx, key, rkey, rpk). decrypt_incoming e cv bx rkey" "\<lambda>(random, l) m. link_ok l" "\<lambda>(random, l). seen_by_recipient l"
  by unfold_locales (clarsimp simp: link_arrives(1))

interpretation sealed_det: channel "\<lambda>(e, cv, bx, key, rkey, rpk). encrypt_for_recipient_deterministic e cv bx key rpk"
  "\<lambda>(e, cv, bx, key, rkey, rpk). decrypt_incoming e cv bx rkey" "\<lambda>l m. link_ok l" seen_by_recipient
  by unfold_locales (clarsimp simp: link_arrives(2))

text \<open>
  C4: what a user encrypts for a session id, with random or with deterministic ephemeral keys, the owner of the
  session id decrypts, learning the session id of the sender; the recipient may be given with or without its prefix, and
  both secret keys in full or as seeds.
\<close>

theorem session_message_round_trip:
  assumes "box_ok (e_crypto e) cv bx" "sign_ok e" "expand_key cv key = Inr sk" "e_sk_to_pk e sk = drop 32 sk"
    and "pk_to_curve cv (drop 32 sk) = Some X" "expand_key cv rkey = Inr rsk" "length (sk_to_curve cv rsk) = 32"
    and "length (curve_base cv (sk_to_curve cv rsk)) = 32"
    and "rpk = curve_base cv (sk_to_curve cv rsk) \<or> rpk = CHR 0x05 # curve_base cv (sk_to_curve cv rsk)"
  shows "\<exists>ct ct'. encrypt_for_recipient e cv bx random key rpk msg = Inr ct \<and>
    decrypt_incoming_session_id e enc cv bx rkey ct = Inr (msg, ''05'' @ to_hex enc X) \<and>
    encrypt_for_recipient_deterministic e cv bx key rpk msg = Inr ct' \<and>
    decrypt_incoming_session_id e enc cv bx rkey ct' = Inr (msg, ''05'' @ to_hex enc X)"
proof -
  have link: "link_ok (e, cv, bx, key, rkey, rpk)" using assms unfolding link_ok_def by blast
  obtain ct where "encrypt_for_recipient e cv bx random key rpk msg = Inr ct" "decrypt_incoming e cv bx rkey ct = Inr (msg, drop 32 sk)"
    using sealed.arrives [of "(random, e, cv, bx, key, rkey, rpk)" msg] link assms(3) by (auto simp: seen_by_recipient_def)
  moreover obtain ct' where "encrypt_for_recipient_deterministic e cv bx key rpk msg = Inr ct'"
    "decrypt_incoming e cv bx rkey ct' = Inr (msg, drop 32 sk)"
    using sealed_det.arrives [of "(e, cv, bx, key, rkey, rpk)" msg] link assms(3) by (auto simp: seen_by_recipient_def)
  ultimately show ?thesis by (simp add: decrypt_incoming_session_id_def sender_session_id_def assms(5))
qed

lemma three_parts:
  assumes "length buf = n + 96"
  shows "buf = take n buf @ take 32 (drop n buf) @ take 64 (drop (n + 32) buf)"
    and "take (length buf - 64) buf = take n buf @ take 32 (drop n buf)"
proof -
  have "length buf - 64 = n + 32" "take 64 (drop (n + 32) buf) = drop (n + 32) buf" using assms by simp_all
  then show "take (length buf - 64) buf = take n buf @ take 32 (drop n buf)"
    and "buf = take n buf @ take 32 (drop n buf) @ take 64 (drop (n + 32) buf)"
    by (simp_all only: take_add append_assoc [symmetric]) (simp only: take_add [symmetric] append_take_drop_id)
qed

text \<open>
  C10: a message that is accepted was signed by the sender that is reported, for this recipient: the
  signature covers the text, the key of the sender and the key of the recipient, so a message cannot be passed on
  to somebody else or under another name.
\<close>

theorem incoming_message_authentic:
  assumes "box_ok (e_crypto e) cv bx" "decrypt_incoming_x e bx Y y ct = Inr (m, A)"
  shows "\<exists>sig. length sig = 64 \<and> length A = 32 \<and> box_seal_open bx ct (take 32 Y) (take 32 y) = Some (m @ A @ sig) \<and>
    e_verify e A (m @ A @ take 32 Y) sig \<and> length ct = length m + 144"
proof -
  obtain buf where buf: "box_seal_open bx ct (take 32 Y) (take 32 y) = Some buf" "144 \<le> length ct" "32 \<le> length Y" "32 \<le> length y"
    using assms(2) by (auto simp: decrypt_incoming_x_def SEALBYTES_def Let_def res_bind_eq_Inr read_at_eq_Inr split: if_splits option.splits)
  have len: "length buf = length ct - 48" using assms(1) buf(1) unfolding box_ok_def by blast
  define n where "n = length ct - 144"
  have n: "length buf = n + 96" using len buf(2) by (simp add: n_def)
  note parts = three_parts [OF n] n
  have res: "m = take n buf" "A = take 32 (drop n buf)" "e_verify e A (m @ A @ take 32 Y) (take 64 (drop (n + 32) buf))"
    using assms(2) buf len parts(2,3) by (auto simp: decrypt_incoming_x_def SEALBYTES_def Let_def n_def memory split: if_splits)
  show ?thesis
  proof (intro exI conjI)
    show "length (take 64 (drop (n + 32) buf)) = 64" "length A = 32" using parts(3) by (simp_all add: res(2))
    show "box_seal_open bx ct (take 32 Y) (take 32 y) = Some (m @ A @ take 64 (drop (n + 32) buf))"
      using buf(1) parts(1) by (simp add: res(1,2))
    show "length ct = length m + 144" using buf(2) parts(3) by (simp add: res(1) n_def)
  qed (rule res(3))
qed

section \<open>Messages between blinded ids\<close>

text \<open>
  A user on a server, in the scheme of prefix \<open>c\<close>: \<open>A\<close> is the blinded key and \<open>x\<close> the scalar that is multiplied
  with the key of the other side (the scalar of the user, blinded in the 25 scheme only).
\<close>

definition key_pair_of :: "env \<Rightarrow> curve \<Rightarrow> edwards \<Rightarrow> char \<Rightarrow> bytes \<Rightarrow> bytes \<Rightarrow> (bytes \<times> bytes \<times> bytes) res" where
  "key_pair_of e cv ed c key spk =
     (if c = CHR 0x25 then blind25_key_pair e cv ed key spk else blind15_key_pair e cv ed key spk)"

definition blinded_user ::
  "env \<Rightarrow> curve \<Rightarrow> edwards \<Rightarrow> bytes \<Rightarrow> char \<Rightarrow> bytes \<Rightarrow> bytes \<Rightarrow> bytes \<Rightarrow> bytes \<Rightarrow> bytes \<Rightarrow> bool" where
  "blinded_user e cv ed spk c key sk X x A \<longleftrightarrow>
     (c = CHR 0x15 \<or> c = CHR 0x25) \<and> length spk = 32 \<and> expand_key cv key = Inr sk \<and>
     pk_to_curve cv (drop 32 sk) = Some X \<and> length A = 32 \<and>
     (\<exists>a k. key_pair_of e cv ed c key spk = Inr (A, a, k) \<and> key_pair_of e cv ed c sk spk = Inr (A, a, k) \<and>
        x = (if c = CHR 0x25 then scalar_mul ed (sk_to_curve cv sk) k else sk_to_curve cv sk)) \<and>
     (\<forall>rid s. rid ! 0 = c \<longrightarrow> s = None \<or> s = Some [] \<longrightarrow>
        blinded_id_from_ed e cv ed rid (drop 32 sk) spk s = Inr (c # A, map_option (\<lambda>_. CHR 0x05 # X) s))"

lemma user_in_scheme:
  assumes "blinding_ok e cv ed sc" "user_key cv ed sc key sk X" "length spk = 32" "c = CHR 0x15 \<or> c = CHR 0x25"
    and "key_pair_of e cv ed c key spk = Inr (A, a, k)"
  shows "blinded_user e cv ed spk c key sk X (if c = CHR 0x25 then scalar_mul ed (sk_to_curve cv sk) k else sk_to_curve cv sk) A"
    and "A = ed_base_noclamp ed (scalar_mul ed k (sk_to_curve cv sk))" "sc k" "sc (sk_to_curve cv sk)"
    and "c = CHR 0x15 \<Longrightarrow> blind15_factor e ed spk = Inr k"
proof -
  have u: "expand_key cv key = Inr sk" "sc (sk_to_curve cv sk)" "pk_to_curve cv (drop 32 sk) = Some X"
    using assms(2) unfolding user_key_def by blast+
  have same: "key_pair_of e cv ed c sk spk = key_pair_of e cv ed c key spk"
    using expand_key_length [OF u(1)] u(1) by (simp add: key_pair_of_def blind15_key_pair_def blind25_key_pair_def)
  have facts: "A = ed_base_noclamp ed (scalar_mul ed k (sk_to_curve cv sk)) \<and> sc k \<and> length A = 32 \<and>
      (c = CHR 0x15 \<longrightarrow> blind15_factor e ed spk = Inr k) \<and>
      (\<forall>rid s. rid ! 0 = c \<longrightarrow> s = None \<or> s = Some [] \<longrightarrow>
        blinded_id_from_ed e cv ed rid (drop 32 sk) spk s = Inr (c # A, map_option (\<lambda>_. CHR 0x05 # X) s))"
  proof (cases "c = CHR 0x25")
    case True
    show ?thesis by (rule blind25_user [OF assms(1-3)]) (use True assms(5) in \<open>auto simp: key_pair_of_def id25_def blinded_id_from_ed_def\<close>)
  next
    case False
    then have "c = CHR 0x15" using assms(4) by simp
    then show ?thesis
      by - (rule blind15_user [OF assms(1-3)], use assms(5) in \<open>auto simp: key_pair_of_def id15_def blinded_id_from_ed_def\<close>)
  qed
  then show "A = ed_base_noclamp ed (scalar_mul ed k (sk_to_curve cv sk))" "sc k" "sc (sk_to_curve cv sk)"
    "c = CHR 0x15 \<Longrightarrow> blind15_factor e ed spk = Inr k" using u(2) by blast+
  show "blinded_user e cv ed spk c key sk X (if c = CHR 0x25 then scalar_mul ed (sk_to_curve cv sk) k else sk_to_curve cv sk) A"
    unfolding blinded_user_def same assms(5) using facts [THEN conjunct2] assms(3,4) u(1,3) by simp
qed

text \<open>The two sides compute the same point.\<close>

lemma same_secret:
  assumes "blinding_ok e cv ed sc" "sc a" "sc b" "sc k" "sc j" "c = CHR 0x25 \<or> k = j"
  shows "ed_mult_noclamp ed (if c = CHR 0x25 then scalar_mul ed a k else a) (ed_base_noclamp ed (scalar_mul ed j b)) =
    ed_mult_noclamp ed (if c = CHR 0x25 then scalar_mul ed b j else b) (ed_base_noclamp ed (scalar_mul ed k a))"
    and "ed_mult_noclamp ed (if c = CHR 0x25 then scalar_mul ed a k else a) (ed_base_noclamp ed (scalar_mul ed j b)) \<noteq> None"
proof -
  note law = sc_mul [OF assms(1)] mult_point [OF assms(1)] mul_commute [OF assms(1)]
  have "scalar_mul ed a (scalar_mul ed j b) = scalar_mul ed (scalar_mul ed j a) b"
    using mul_assoc [OF assms(1)] law(3) assms(2-5) by metis
  then have "scalar_mul ed a (scalar_mul ed j b) = scalar_mul ed b (scalar_mul ed j a)"
    using law(1,3) assms(2-5) by metis
  moreover have "scalar_mul ed (scalar_mul ed a k) (scalar_mul ed j b) = scalar_mul ed (scalar_mul ed b j) (scalar_mul ed k a)"
    using law(1,3) assms(2-5) by metis
  ultimately show "ed_mult_noclamp ed (if c = CHR 0x25 then scalar_mul ed a k else a) (ed_base_noclamp ed (scalar_mul ed j b)) =
      ed_mult_noclamp ed (if c = CHR 0x25 then scalar_mul ed b j else b) (ed_base_noclamp ed (scalar_mul ed k a))"
    and "ed_mult_noclamp ed (if c = CHR 0x25 then scalar_mul ed a k else a) (ed_base_noclamp ed (scalar_mul ed j b)) \<noteq> None"
    using law(1,2) assms(2-6) by auto
qed

lemma shared_secret_of:
  assumes "blinding_ok e cv ed sc" "blinded_user e cv ed spk c key sk X x A" "length B = 32" "length Q = 32" "key' = key \<or> key' = sk"
    and "ed_mult_noclamp ed x Q = Some p"
  shows "blinded_shared_secret e cv ed key' (c # B) (c # Q) spk sending =
    Inr (generichash (e_crypto e) 32 [] (p @ (if sending then B @ Q else Q @ B)))"
proof -
  have u: "c = CHR 0x15 \<or> c = CHR 0x25" "length spk = 32" "expand_key cv key = Inr sk"
    using assms(2) by (simp_all add: blinded_user_def)
  obtain a k where k: "key_pair_of e cv ed c key' spk = Inr (A, a, k)"
    "x = (if c = CHR 0x25 then scalar_mul ed (sk_to_curve cv sk) k else sk_to_curve cv sk)"
    using assms(2,5) by (auto simp: blinded_user_def)
  have "sk_to_curve cv key' = sk_to_curve cv sk" "length key' = 32 \<or> length key' = 64"
    using assms(5) expand_key_seed [OF assms(1) u(3)] expand_key_length [OF u(3)] by auto
  then show ?thesis
    using u k assms(3,4,6) by (auto simp: blinded_shared_secret_def key_pair_of_def Let_def)
qed

lemma blinded_encryption:
  assumes "blinding_ok e cv ed sc" "crypto_ok (e_crypto e)" "blinded_user e cv ed spk c key sk X x A" "length Q = 32"
    and "ed_mult_noclamp ed x Q = Some p"
  shows "encrypt_for_blinded_recipient e cv ed nonce key spk (c # Q) msg =
    Inr (CHR 0x00 # aead_encrypt (e_crypto e) (msg @ drop 32 sk) nonce (generichash (e_crypto e) 32 [] (p @ A @ Q)) @ nonce)"
proof -
  have u: "c = CHR 0x15 \<or> c = CHR 0x25" "length spk = 32" "expand_key cv key = Inr sk" "length A = 32"
    using assms(3) by (simp_all add: blinded_user_def)
  obtain a k where k: "key_pair_of e cv ed c key spk = Inr (A, a, k)" using assms(3) by (auto simp: blinded_user_def)
  have "length key = 32 \<Longrightarrow> snd (seed_keypair cv key) = key @ fst (seed_keypair cv key)"
    using assms(1) by (simp add: blinding_ok_def)
  then have pub: "(if length key = 64 then drop 32 key else fst (seed_keypair cv key)) = drop 32 sk"
    and "length key = 32 \<or> length key = 64"
    using u(3) by (auto simp: expand_key_def Let_def split: if_splits)
  moreover have "length (aead_encrypt (e_crypto e) m n k) = length m + 16" for m n k using assms(2) by (simp add: crypto_ok_def)
  ultimately show ?thesis
    using u k assms(4) shared_secret_of [OF assms(1,3) u(4) assms(4) _ assms(5), of key True]
    by (auto simp: encrypt_for_blinded_recipient_def key_pair_of_def Let_def assertion_def ABYTES_def BLINDED_ENCRYPT_VERSION_def)
qed

lemma blinded_decryption:
  assumes "crypto_ok (e_crypto e)" "length nonce = 24" "expand_key cv key = Inr sk" "blinding_ok e cv ed sc"
    and own: "blinded_id_from_ed e cv ed (c # Q) (drop 32 sk) spk None = Inr (B, s)"
    and secret: "(if c # A = B then blinded_shared_secret e cv ed sk (c # A) (c # Q) spk True
       else blinded_shared_secret e cv ed sk (c # Q) (c # A) spk False) = Inr h"
    and sender: "length S = 32" "pk_to_curve cv S = Some X" "blinded_id_from_ed e cv ed (c # Q) S spk (Some []) = Inr (c # A, s')"
  shows "decrypt_from_blinded_recipient e enc cv ed key spk (c # A) (c # Q)
     (CHR 0x00 # aead_encrypt (e_crypto e) (msg @ S) nonce h @ nonce) = Inr (msg, ''05'' @ to_hex enc X)"
proof -
  define ct where "ct = aead_encrypt (e_crypto e) (msg @ S) nonce h"
  have ct: "length ct = length msg + 48" "aead_decrypt (e_crypto e) ct nonce h = Some (msg @ S)"
    using assms(1) sender(1) by (simp_all add: crypto_ok_def ct_def)
  have "length key = 32 \<Longrightarrow> snd (seed_keypair cv key) = key @ fst (seed_keypair cv key)"
    using assms(4) by (simp add: blinding_ok_def)
  then have pub: "(if length key = 32 then Inr (fst (seed_keypair cv key)) else read_at 32 32 key) = Inr (drop 32 sk)"
    using assms(3) by (auto simp: expand_key_def Let_def memory split: if_splits)
  have tail: "drop (49 + length msg) (CHR 0x00 # ct @ nonce) = nonce" using ct(1) by (simp add: drop_Cons')
  show ?thesis
    unfolding ct_def [symmetric] decrypt_from_blinded_recipient_def Let_def
    using tail ct assms(2,3) own secret sender
    by (simp add: pub NPUBBYTES_def ABYTES_def BLINDED_ENCRYPT_VERSION_def assertion_def sender_matches_def check_blinded_sender_def
        memory)
qed

lemma blinded_transfer:
  assumes "blinding_ok e cv ed sc" "crypto_ok (e_crypto e)" "user_key cv ed sc key sk X" "user_key cv ed sc rkey rsk Y"
    and "length spk = 32" "length nonce = 24" "c = CHR 0x15 \<or> c = CHR 0x25"
    and "key_pair_of e cv ed c key spk = Inr (S, s, k)" "key_pair_of e cv ed c rkey spk = Inr (R, r, j)"
  obtains ct where "encrypt_for_blinded_recipient e cv ed nonce key spk (c # R) msg = Inr ct"
    "decrypt_from_blinded_recipient e enc cv ed rkey spk (c # S) (c # R) ct = Inr (msg, ''05'' @ to_hex enc X)"
    "decrypt_from_blinded_recipient e enc cv ed key spk (c # S) (c # R) ct = Inr (msg, ''05'' @ to_hex enc X)"
proof -
  note sender = user_in_scheme [OF assms(1,3,5,7,8)] and recipient = user_in_scheme [OF assms(1,4,5,7,9)]
  define x where "x = (if c = CHR 0x25 then scalar_mul ed (sk_to_curve cv sk) k else sk_to_curve cv sk)"
  define y where "y = (if c = CHR 0x25 then scalar_mul ed (sk_to_curve cv rsk) j else sk_to_curve cv rsk)"
  have us: "blinded_user e cv ed spk c key sk X x S" and ur: "blinded_user e cv ed spk c rkey rsk Y y R"
    using sender(1) recipient(1) by (simp_all add: x_def y_def)
  have lens: "length S = 32" "length R = 32" using us ur by (simp_all add: blinded_user_def)
  have kj: "c = CHR 0x25 \<or> k = j" using assms(7) sender(5) recipient(5) by auto
  obtain p where p: "ed_mult_noclamp ed x R = Some p" "ed_mult_noclamp ed y S = Some p"
    using same_secret [OF assms(1) sender(4) recipient(4) sender(3) recipient(3) kj] by (auto simp: x_def y_def sender(2) recipient(2))
  define h where "h = generichash (e_crypto e) 32 [] (p @ S @ R)"
  have e: "expand_key cv key = Inr sk" "expand_key cv rkey = Inr rsk" "pk_to_curve cv (drop 32 sk) = Some X"
    "length (drop 32 sk) = 32" using us ur expand_key_length [of cv key sk] by (simp_all add: blinded_user_def)
  have ids: "blinded_id_from_ed e cv ed (c # R) (drop 32 sk) spk None = Inr (c # S, None)"
    "blinded_id_from_ed e cv ed (c # R) (drop 32 rsk) spk None = Inr (c # R, None)"
    "blinded_id_from_ed e cv ed (c # R) (drop 32 sk) spk (Some []) = Inr (c # S, Some (CHR 0x05 # X))"
    using us ur by (simp_all add: blinded_user_def)
  have own: "blinded_shared_secret e cv ed sk (c # S) (c # R) spk True = Inr h"
    using shared_secret_of [OF assms(1) us lens _ p(1), of sk True] by (simp add: h_def)
  have "blinded_shared_secret e cv ed rsk (c # R) (c # S) spk False = Inr h"
    using shared_secret_of [OF assms(1) ur lens(2,1) _ p(2), of rsk False] by (simp add: h_def)
  moreover have "blinded_shared_secret e cv ed rsk (c # S) (c # R) spk True = Inr h" if "S = R"
    using shared_secret_of [OF assms(1) ur lens(1,2) _ p(2) [unfolded that], of rsk True] that by (simp add: h_def)
  ultimately have read: "(if c # S = c # R then blinded_shared_secret e cv ed rsk (c # S) (c # R) spk True
      else blinded_shared_secret e cv ed rsk (c # R) (c # S) spk False) = Inr h" by simp
  show thesis
    using that blinded_encryption [OF assms(1,2) us lens(2) p(1), of nonce msg] own
      blinded_decryption [OF assms(2,6) e(2) assms(1) ids(2) read e(4,3) ids(3), of enc msg]
      blinded_decryption [OF assms(2,6) e(1) assms(1) ids(1) _ e(4,3) ids(3), of h enc msg] by (simp add: h_def)
qed

text \<open>
  C9: a message between two blinded ids of a server reads the same at both ends: the recipient, and the sender
  itself, decrypt what was encrypted for the blinded id of the recipient and learn the session id of the sender, in
  both schemes and whatever the signs of the keys are.
\<close>

theorem blinded_message_round_trip:
  assumes "blinding_ok e cv ed sc" "crypto_ok (e_crypto e)" "user_key cv ed sc key sk X" "user_key cv ed sc rkey rsk Y"
    and "length spk = 32" "length nonce = 24" "c = CHR 0x15 \<or> c = CHR 0x25"
    and "key_pair_of e cv ed c key spk = Inr (S, s, k)" "key_pair_of e cv ed c rkey spk = Inr (R, r, j)"
  shows "\<exists>ct. encrypt_for_blinded_recipient e cv ed nonce key spk (c # R) msg = Inr ct \<and>
    decrypt_from_blinded_recipient e enc cv ed rkey spk (c # S) (c # R) ct = Inr (msg, ''05'' @ to_hex enc X) \<and>
    decrypt_from_blinded_recipient e enc cv ed key spk (c # S) (c # R) ct = Inr (msg, ''05'' @ to_hex enc X)"
  by (rule blinded_transfer [OF assms, of msg enc]) blast

lemma matched_ids:
  assumes "sender_matches sender_id B" "length B = 33"
  shows "sender_id = B \<or> B ! 0 = CHR 0x15 \<and> sender_id = B[31 := byte_xor (B ! 31) (CHR 0x80)]"
    and "sender_id \<noteq> B[32 := byte_xor (B ! 32) (CHR 0x80)]"
proof -
  show ids: "sender_id = B \<or> B ! 0 = CHR 0x15 \<and> sender_id = B[31 := byte_xor (B ! 31) (CHR 0x80)]"
    using assms(1) by (auto simp: sender_matches_def Let_def split: if_splits)
  have "byte_xor c c = CHR 0x00" for c using byte_xor_cancel(1) [of c "CHR 0x00"] byte_xor_cancel(2) [of c] by simp
  then have "byte_xor c (CHR 0x80) \<noteq> c" for c using byte_xor_cancel(1) [of c "CHR 0x80"] by auto
  then have "B[32 := byte_xor (B ! 32) (CHR 0x80)] ! 32 \<noteq> B ! 32" using assms(2) by simp
  moreover have "sender_id ! 32 = B ! 32" using ids by auto
  ultimately show "sender_id \<noteq> B[32 := byte_xor (B ! 32) (CHR 0x80)]" by metis
qed

text \<open>The length of what libsodium decrypts.\<close>

definition aead_lengths :: "crypto \<Rightarrow> bool" where
  "aead_lengths c \<longleftrightarrow> (\<forall>ct n k m. aead_decrypt c ct n k = Some m \<longrightarrow> length ct = length m + 16)"

lemma accepted_checked:
  assumes "decrypt_from_blinded_recipient e enc cv ed key spk sender_id recipient_id ct = Inr r" "aead_lengths (e_crypto e)"
  obtains sk own s h buf where "expand_key cv key = Inr sk"
    "blinded_id_from_ed e cv ed recipient_id (if length key = 32 then fst (seed_keypair cv key) else drop 32 key) spk None = Inr (own, s)"
    "(if sender_id = own then blinded_shared_secret e cv ed sk sender_id recipient_id spk True
      else blinded_shared_secret e cv ed sk recipient_id sender_id spk False) = Inr h"
    "aead_decrypt (e_crypto e) (take (length ct - 25) (drop 1 ct)) (drop (length ct - 24) ct) h = Some buf" "32 \<le> length buf"
    "73 \<le> length ct" "ct ! 0 = CHR 0x00" "check_blinded_sender e enc cv ed spk sender_id recipient_id buf = Inr r"
proof -
  obtain sk where sk: "expand_key cv key = Inr sk"
    using assms(1) by (auto simp: decrypt_from_blinded_recipient_def res_bind_eq_Inr)
  have "length key = 32 \<or> length key = 64" using sk by (auto simp: expand_key_def split: if_splits)
  then have pub: "(if length key = 32 then Inr (fst (seed_keypair cv key)) else read_at 32 32 key) =
      Inr (if length key = 32 then fst (seed_keypair cv key) else drop 32 key)" by (auto simp: memory)
  note body = assms(1) [unfolded decrypt_from_blinded_recipient_def sk pub res_bind_simps Let_def NPUBBYTES_def ABYTES_def]
  have ct: "41 \<le> length ct" using body by (auto split: if_splits)
  then have reads: "read_at 0 1 ct = Inr [ct ! 0]" "size_minus (size_minus (size_minus (length ct) 16) 1) 24 = length ct - 41"
    by (cases ct; simp add: memory)+
  have pos: "73 \<le> length ct \<Longrightarrow> Suc (length ct - 25) = length ct - 24" by simp
  have sealed: "73 \<le> length ct \<Longrightarrow> read_at (length ct - 41 + 1 + 16) 24 ct = Inr (drop (length ct - 24) ct)"
    "73 \<le> length ct \<Longrightarrow> read_at 1 (length ct - 41 + 16) ct = Inr (take (length ct - 25) (drop 1 ct))"
    by (simp_all add: memory pos)
  obtain own s h where oh: "blinded_id_from_ed e cv ed recipient_id (if length key = 32 then fst (seed_keypair cv key) else drop 32 key) spk None = Inr (own, s)"
    "(if sender_id = own then blinded_shared_secret e cv ed sk sender_id recipient_id spk True
      else blinded_shared_secret e cv ed sk recipient_id sender_id spk False) = Inr h"
    using body ct by (auto simp: res_bind_eq_Inr)
  have big: "73 \<le> length ct" "ct ! 0 = CHR 0x00"
    using body ct oh reads by (auto simp: res_bind_eq_Inr BLINDED_ENCRYPT_VERSION_def split: if_splits)
  obtain buf where buf: "aead_decrypt (e_crypto e) (take (length ct - 25) (drop 1 ct)) (drop (length ct - 24) ct) h = Some buf"
    using body ct oh reads big sealed by (auto simp: res_bind_eq_Inr split: if_splits option.splits)
  have "length ct - 25 = length buf + 16" using buf big(1) assms(2) by (fastforce simp: aead_lengths_def)
  then have len: "length buf = length ct - 41" using big(1) by simp
  have "check_blinded_sender e enc cv ed spk sender_id recipient_id buf = Inr r"
    using body ct oh reads big sealed buf len by (auto simp: res_bind_eq_Inr memory split: if_splits)
  then show thesis using that sk oh buf big len by simp
qed

text \<open>
  C14: what is accepted from a blinded id. The ciphertext, without version and nonce, decrypts under the key that the reader
  shares with the sender id into the text followed by an Ed25519 key; the session id reported is the one of that
  key, and the sender id is the blinded id of that key on the server or, for a 15-blinded id, that id with the top bit of
  its byte 31 flipped. The code means to accept the negative 15-blinded id there, but the id has 33 bytes and the
  sign is in byte 32: the negative id is never accepted.
\<close>

theorem blinded_sender_authentic:
  assumes "decrypt_from_blinded_recipient e enc cv ed key spk sender_id recipient_id ct = Inr (msg, sid)"
    and "\<forall>k p q. ed_mult_noclamp ed k p = Some q \<longrightarrow> length q = 32" "aead_lengths (e_crypto e)"
  shows "\<exists>sk own s h S X B s'. expand_key cv key = Inr sk \<and>
    blinded_id_from_ed e cv ed recipient_id (if length key = 32 then fst (seed_keypair cv key) else drop 32 key) spk None = Inr (own, s) \<and>
    (if sender_id = own then blinded_shared_secret e cv ed sk sender_id recipient_id spk True
     else blinded_shared_secret e cv ed sk recipient_id sender_id spk False) = Inr h \<and>
    ct ! 0 = CHR 0x00 \<and> length ct = length msg + 73 \<and> length S = 32 \<and>
    aead_decrypt (e_crypto e) (take (length ct - 25) (drop 1 ct)) (drop (length ct - 24) ct) h = Some (msg @ S) \<and>
    pk_to_curve cv S = Some X \<and> sid = ''05'' @ to_hex enc X \<and>
    blinded_id_from_ed e cv ed recipient_id S spk (Some []) = Inr (B, s') \<and>
    (sender_id = B \<or> B ! 0 = CHR 0x15 \<and> sender_id = B[31 := byte_xor (B ! 31) (CHR 0x80)]) \<and>
    sender_id \<noteq> B[32 := byte_xor (B ! 32) (CHR 0x80)]"
proof -
  obtain sk own s h buf where acc: "expand_key cv key = Inr sk"
    "blinded_id_from_ed e cv ed recipient_id (if length key = 32 then fst (seed_keypair cv key) else drop 32 key) spk None = Inr (own, s)"
    "(if sender_id = own then blinded_shared_secret e cv ed sk sender_id recipient_id spk True
      else blinded_shared_secret e cv ed sk recipient_id sender_id spk False) = Inr h"
    "aead_decrypt (e_crypto e) (take (length ct - 25) (drop 1 ct)) (drop (length ct - 24) ct) h = Some buf" "32 \<le> length buf"
    "73 \<le> length ct" "ct ! 0 = CHR 0x00" "check_blinded_sender e enc cv ed spk sender_id recipient_id buf = Inr (msg, sid)"
    by (rule accepted_checked [OF assms(1,3)])
  define S where "S = drop (length buf - 32) buf"
  obtain X B s' where S: "pk_to_curve cv S = Some X" "sid = ''05'' @ to_hex enc X" "msg = take (length buf - 32) buf"
    "blinded_id_from_ed e cv ed recipient_id S spk (Some []) = Inr (B, s')" "sender_matches sender_id B"
    using acc(5,8) by (auto simp: check_blinded_sender_def S_def res_bind_eq_Inr memory split: if_splits option.splits)
  have buf: "buf = msg @ S" "length S = 32" using acc(5) by (simp_all add: S(3) S_def)
  have "length ct - 25 = length buf + 16" using acc(4,6) assms(3) by (fastforce simp: aead_lengths_def)
  then have len: "length ct = length msg + 73" using acc(6) buf by simp
  have B: "length B = 33"
    using S(4) assms(2) by (auto simp: blinded_id_from_ed_def blinded15_id_from_ed_def blinded25_id_from_ed_def
      res_bind_eq_Inr Let_def split: if_splits option.splits)
  note match = matched_ids [OF S(5) B]
  show ?thesis using acc(1-4,7) S(1,2,4) buf len match by blast
qed

section \<open>Push notifications and plain encryption\<close>

lemma strip_trailing_nulls:
  assumes "m = [] \<or> last m \<noteq> CHR 0x00"
  shows "strip_trailing_nulls (m @ replicate n (CHR 0x00)) = (if m = [] then replicate n (CHR 0x00) else m)"
proof -
  have "dropWhile (\<lambda>c. c = CHR 0x00) (rev (m @ replicate n (CHR 0x00))) = dropWhile (\<lambda>c. c = CHR 0x00) (rev m)"
    by simp (induction n, simp_all)
  moreover have "m \<noteq> [] \<Longrightarrow> dropWhile (\<lambda>c. c = CHR 0x00) (rev m) = rev m"
    using assms by (cases m rule: rev_cases) auto
  ultimately show ?thesis by (cases "m = []") (simp_all add: strip_trailing_nulls_def Let_def)
qed

text \<open>
  \<open>session_decrypt_xchacha20\<close> inverts \<open>session_encrypt_xchacha20\<close>, and a notification that is padded with null bytes and
  encrypted arrives without its padding, unless it is empty: then the padding itself is returned. A wrong key
  length or a short ciphertext is an error before anything is decrypted.
\<close>

lemma push_notification_round_trip:
  assumes "crypto_ok (e_crypto e)" "length nonce = 24" "length k = 32" "m = [] \<or> last m \<noteq> CHR 0x00"
  shows "\<exists>ct. session_encrypt_xchacha20 e nonce (m @ replicate n (CHR 0x00)) k = Inr ct \<and> length ct = length m + n + 40 \<and>
    session_decrypt_xchacha20 e ct k = Inr (m @ replicate n (CHR 0x00)) \<and>
    decrypt_push_notification e ct k = Inr (if m = [] then replicate n (CHR 0x00) else m) \<and>
    (\<forall>bad. length bad \<noteq> 32 \<longrightarrow> decrypt_push_notification e ct bad = Inl Invalid_argument) \<and>
    (\<forall>i. i < 40 \<longrightarrow> decrypt_push_notification e (take i ct) k = Inl Invalid_argument)"
proof -
  define c where "c = aead_encrypt (e_crypto e) (m @ replicate n (CHR 0x00)) nonce k"
  have c: "length c = length m + n + 16" "aead_decrypt (e_crypto e) c nonce k = Some (m @ replicate n (CHR 0x00))"
    using assms(1) by (simp_all add: crypto_ok_def c_def)
  have "session_encrypt_xchacha20 e nonce (m @ replicate n (CHR 0x00)) k = Inr (nonce @ c)"
    using assms(3) c(1) by (simp add: session_encrypt_xchacha20_def c_def [symmetric] Let_def assertion_def NPUBBYTES_def ABYTES_def)
  moreover have "session_decrypt_xchacha20 e (nonce @ c) k = Inr (m @ replicate n (CHR 0x00))"
    using assms(2,3) c by (simp add: session_decrypt_xchacha20_def Let_def assertion_def NPUBBYTES_def ABYTES_def memory)
  moreover have "decrypt_push_notification e (nonce @ c) k = Inr (if m = [] then replicate n (CHR 0x00) else m)"
    using assms(2,3) c strip_trailing_nulls [OF assms(4), of n]
    by (simp add: decrypt_push_notification_def Let_def NPUBBYTES_def ABYTES_def memory)
  moreover have "decrypt_push_notification e p key = Inl Invalid_argument" if "length p < 40 \<or> length key \<noteq> 32" for p key
    using that by (auto simp: decrypt_push_notification_def NPUBBYTES_def ABYTES_def)
  ultimately show ?thesis using assms(2) c(1) by (intro exI [of _ "nonce @ c"]) (simp del: take_append)
qed

interpretation plain: channel "\<lambda>(e, nonce, k). (\<lambda>m. session_encrypt_xchacha20 e nonce m k)" "\<lambda>(e, nonce, k). (\<lambda>c. session_decrypt_xchacha20 e c k)"
  "\<lambda>(e, nonce, k) m. crypto_ok (e_crypto e) \<and> length nonce = 24 \<and> length k = 32" "\<lambda>p m. m"
  by unfold_locales (auto simp: crypto_ok_def session_encrypt_xchacha20_def session_decrypt_xchacha20_def Let_def assertion_def
      NPUBBYTES_def ABYTES_def memory)

end
