(* ===== verification/Protos.thy ===== *)
theory Protos
  imports Session_Encrypt Config_Base
begin

text \<open>
  The protobuf wrapping of config messages (\<open>src/src/config/protos.cpp\<close>): a config goes into a padded
  \<open>Content\<close>, which is encrypted by the user for itself, put into an \<open>Envelope\<close> and that into a WebSocket request.
  The generated protobuf classes are the fields of \<open>protobuf\<close>: for each message type its fields as far as the code
  sets or reads them, \<open>SerializeAsString\<close> and \<open>ParseFromArray\<close> (\<open>None\<close> when parsing fails).
\<close>

section \<open>Definitions\<close>

datatype namespace = UserProfile | ContactsNs | ConvoInfoVolatile | UserGroups | GroupMessages | GroupKeysNs
  | GroupInfoNs | GroupMembersNs | Local

fun namespace_value :: "namespace \<Rightarrow> int" where
  "namespace_value UserProfile = 2"
| "namespace_value ContactsNs = 3"
| "namespace_value ConvoInfoVolatile = 4"
| "namespace_value UserGroups = 5"
| "namespace_value GroupMessages = 11"
| "namespace_value GroupKeysNs = 12"
| "namespace_value GroupInfoNs = 13"
| "namespace_value GroupMembersNs = 14"
| "namespace_value Local = 9999"

datatype config_kind = USER_PROFILE | CONTACTS | CONVO_INFO_VOLATILE | USER_GROUPS

record shared_config_message =
  sc_kind :: config_kind
  sc_seqno :: int
  sc_data :: bytes

datatype envelope_type = SESSION_MESSAGE | CLOSED_GROUP_MESSAGE

record envelope =
  env_type :: envelope_type
  env_timestamp :: "64 word"
  env_content :: bytes

datatype web_socket_type = WS_UNKNOWN | WS_REQUEST | WS_RESPONSE

record web_socket_request =
  wr_verb :: string
  wr_path :: string
  wr_requestid :: "64 word"
  wr_body :: bytes

record web_socket_message =
  wm_type :: web_socket_type
  wm_request :: web_socket_request

record protobuf =
  content_serialize :: "shared_config_message option \<Rightarrow> bytes"
  content_parse :: "bytes \<Rightarrow> shared_config_message option option"
  envelope_serialize :: "envelope \<Rightarrow> bytes"
  envelope_parse :: "bytes \<Rightarrow> envelope option"
  message_serialize :: "web_socket_message \<Rightarrow> bytes"
  message_parse :: "bytes \<Rightarrow> web_socket_message option"

fun encode_namespace :: "namespace \<Rightarrow> config_kind res" where
  "encode_namespace UserProfile = Inr USER_PROFILE"
| "encode_namespace ContactsNs = Inr CONTACTS"
| "encode_namespace ConvoInfoVolatile = Inr CONVO_INFO_VOLATILE"
| "encode_namespace UserGroups = Inr USER_GROUPS"
| "encode_namespace _ = Inl Invalid_argument"

definition wrap_config ::
  "env \<Rightarrow> curve \<Rightarrow> box_lib \<Rightarrow> protobuf \<Rightarrow> bytes \<Rightarrow> bytes \<Rightarrow> int \<Rightarrow> namespace \<Rightarrow> bytes res" where
  "wrap_config e cv bx pb ed25519_sk data seqno t =
     res_bind (expand_key cv ed25519_sk) (\<lambda>ed25519_sk.
       case pk_to_curve cv (drop 32 ed25519_sk) of
         None \<Rightarrow> Inl Invalid_argument
       | Some my_xpk \<Rightarrow>
           if namespace_value t > 5 then Inl Invalid_argument
           else
             res_bind (encode_namespace t) (\<lambda>kind.
               let shconf = \<lparr> sc_kind = kind, sc_seqno = seqno, sc_data = data \<rparr>;
                   shared_conf = content_serialize pb (Some shconf);
                   shared_conf = shared_conf @ [CHR 0x80] in
               res_bind (encrypt_for_recipient_deterministic e cv bx ed25519_sk my_xpk shared_conf) (\<lambda>enc_shared_conf.
                 let envelope = \<lparr> env_type = SESSION_MESSAGE, env_timestamp = 1, env_content = enc_shared_conf \<rparr>;
                     webreq = \<lparr> wr_verb = [], wr_path = [], wr_requestid = 0, wr_body = envelope_serialize pb envelope \<rparr>;
                     msg = \<lparr> wm_type = WS_REQUEST, wm_request = webreq \<rparr> in
                 Inr (message_serialize pb msg))))"

definition unpad_content :: "bytes \<Rightarrow> bytes res" where
  "unpad_content content =
     (if content = [] then Inl Runtime_error
      else if \<not> (last content = CHR 0x00 \<or> last content = CHR 0x80) then Inl Runtime_error
      else
        let it = dropWhile (\<lambda>c. c = CHR 0x00) (rev content) in
        if it \<noteq> [] \<and> hd it = CHR 0x80
        then Inr (take (length content - (length content - length it) - 1) content)
        else Inl Runtime_error)"

definition unwrap_config ::
  "env \<Rightarrow> curve \<Rightarrow> box_lib \<Rightarrow> protobuf \<Rightarrow> bytes \<Rightarrow> bytes \<Rightarrow> namespace \<Rightarrow> bytes res" where
  "unwrap_config e cv bx pb ed25519_sk data ns =
     res_bind (expand_key cv ed25519_sk) (\<lambda>ed25519_sk.
       let ed25519_pk = drop 32 ed25519_sk in
       case message_parse pb data of
         None \<Rightarrow> Inl Runtime_error
       | Some req \<Rightarrow>
           if wm_type req \<noteq> WS_REQUEST then Inl Runtime_error
           else (case envelope_parse pb (wr_body (wm_request req)) of
               None \<Rightarrow> Inl Runtime_error
             | Some envelope \<Rightarrow>
                 res_bind (decrypt_incoming e cv bx ed25519_sk (env_content envelope)) (\<lambda>(content, sender).
                   if sender \<noteq> ed25519_pk then Inl Runtime_error
                   else
                     res_bind (unpad_content content) (\<lambda>content.
                       case content_parse pb content of
                         None \<Rightarrow> Inl Runtime_error
                       | Some None \<Rightarrow> Inl Runtime_error
                       | Some (Some shconf) \<Rightarrow>
                           res_bind (encode_namespace ns) (\<lambda>kind.
                             if sc_kind shconf \<noteq> kind then Inl Runtime_error else Inr (sc_data shconf))))))"

text \<open>
  The environment of a config object in the namespace \<open>ns\<close>: \<open>merge\<close> catches every exception of
  \<open>unwrap_config\<close>.
\<close>

definition with_protos :: "env \<Rightarrow> curve \<Rightarrow> box_lib \<Rightarrow> protobuf \<Rightarrow> namespace \<Rightarrow> env" where
  "with_protos e cv bx pb ns = e\<lparr>
     e_wrap := (\<lambda>key data seqno. wrap_config e cv bx pb key data seqno ns),
     e_unwrap := (\<lambda>key data. case unwrap_config e cv bx pb key data ns of Inl _ \<Rightarrow> None | Inr d \<Rightarrow> Some d) \<rparr>"

section \<open>Wrapping and unwrapping\<close>

text \<open>What the code relies on of protobuf: a serialized message parses to the same fields.\<close>

definition protobuf_ok :: "protobuf \<Rightarrow> bool" where
  "protobuf_ok pb \<longleftrightarrow> (\<forall>m. message_parse pb (message_serialize pb m) = Some m) \<and>
     (\<forall>m. envelope_parse pb (envelope_serialize pb m) = Some m) \<and>
     (\<forall>m. content_parse pb (content_serialize pb m) = Some m)"

text \<open>The user: a key that is converted consistently to X25519.\<close>

definition self_key :: "env \<Rightarrow> curve \<Rightarrow> bytes \<Rightarrow> bytes \<Rightarrow> bool" where
  "self_key e cv key sk \<longleftrightarrow> expand_key cv key = Inr sk \<and> e_sk_to_pk e sk = drop 32 sk \<and>
     length (sk_to_curve cv sk) = 32 \<and> length (curve_base cv (sk_to_curve cv sk)) = 32 \<and>
     pk_to_curve cv (drop 32 sk) = Some (curve_base cv (sk_to_curve cv sk))"

lemma unpad_marked: "unpad_content (m @ [CHR 0x80]) = Inr m"
  by (simp add: unpad_content_def)

lemma self_message:
  assumes "box_ok (e_crypto e) cv bx" "sign_ok e" "self_key e cv key sk"
  obtains ct where "encrypt_for_recipient_deterministic e cv bx sk (curve_base cv (sk_to_curve cv sk)) msg = Inr ct"
    "decrypt_incoming e cv bx sk ct = Inr (msg, drop 32 sk)"
proof -
  have k: "expand_key cv sk = Inr sk" "e_sk_to_pk e sk = drop 32 sk" "length (sk_to_curve cv sk) = 32"
    "length (curve_base cv (sk_to_curve cv sk)) = 32" "pk_to_curve cv (drop 32 sk) = Some (curve_base cv (sk_to_curve cv sk))"
    using assms(3) expand_key_length unfolding self_key_def by blast+
  then have "link_ok (e, cv, bx, sk, sk, curve_base cv (sk_to_curve cv sk))" using assms(1,2) by (auto simp: link_ok_def)
  from sealed_det.sent [OF this, of msg] show thesis using that k(1) by (auto simp: seen_by_recipient_def)
qed

lemma wrap_then_unwrap:
  assumes "box_ok (e_crypto e) cv bx" "sign_ok e" "self_key e cv key sk" "protobuf_ok pb" "encode_namespace ns = Inr kind"
  obtains w where "wrap_config e cv bx pb key data seqno ns = Inr w"
    "\<And>ns'. unwrap_config e cv bx pb key w ns' =
       (case encode_namespace ns' of
          Inr kind' \<Rightarrow> if kind' = kind then Inr data else Inl Runtime_error
        | Inl _ \<Rightarrow> Inl Invalid_argument)"
proof -
  have k: "expand_key cv key = Inr sk" "pk_to_curve cv (drop 32 sk) = Some (curve_base cv (sk_to_curve cv sk))"
    using assms(3) by (simp_all add: self_key_def)
  define conf where "conf = content_serialize pb (Some \<lparr> sc_kind = kind, sc_seqno = seqno, sc_data = data \<rparr>) @ [CHR 0x80]"
  obtain ct where ct: "encrypt_for_recipient_deterministic e cv bx sk (curve_base cv (sk_to_curve cv sk)) conf = Inr ct"
    "decrypt_incoming e cv bx sk ct = Inr (conf, drop 32 sk)" using self_message [OF assms(1-3)] by blast
  define w where "w = message_serialize pb \<lparr> wm_type = WS_REQUEST, wm_request = \<lparr> wr_verb = [], wr_path = [], wr_requestid = 0,
    wr_body = envelope_serialize pb \<lparr> env_type = SESSION_MESSAGE, env_timestamp = 1, env_content = ct \<rparr> \<rparr> \<rparr>"
  have small: "\<not> namespace_value ns > 5" using assms(5) by (cases ns) simp_all
  have "wrap_config e cv bx pb key data seqno ns = Inr w"
    unfolding wrap_config_def using k small assms(5) ct(1) by (simp add: Let_def conf_def [symmetric] w_def)
  moreover have "encode_namespace ns' = Inl x \<Longrightarrow> x = Invalid_argument" for ns' x by (cases ns') auto
  then have "unwrap_config e cv bx pb key w ns' = (case encode_namespace ns' of
      Inr kind' \<Rightarrow> if kind' = kind then Inr data else Inl Runtime_error | Inl _ \<Rightarrow> Inl Invalid_argument)" for ns'
    unfolding unwrap_config_def using k ct(2) assms(4)
    by (auto simp: w_def protobuf_ok_def conf_def unpad_marked Let_def split: sum.split)
  ultimately show thesis using that by blast
qed

text \<open>Wrapping is a channel from the user to itself, through which wrapped configs can be sent again.\<close>

type_synonym wrapping = "env \<times> curve \<times> box_lib \<times> protobuf \<times> bytes \<times> int \<times> namespace"

definition wrapping_ok :: "wrapping \<Rightarrow> bool" where
  "wrapping_ok = (\<lambda>(e, cv, bx, pb, key, seqno, ns). box_ok (e_crypto e) cv bx \<and> sign_ok e \<and> (\<exists>sk. self_key e cv key sk) \<and>
     protobuf_ok pb \<and> (\<exists>kind. encode_namespace ns = Inr kind))"

lemma wrapped_arrives:
  assumes "wrapping_ok (e, cv, bx, pb, key, seqno, ns)"
  shows "\<exists>w. wrap_config e cv bx pb key data seqno ns = Inr w \<and> unwrap_config e cv bx pb key w ns = Inr data"
proof -
  obtain sk kind where k: "box_ok (e_crypto e) cv bx" "sign_ok e" "self_key e cv key sk" "protobuf_ok pb" "encode_namespace ns = Inr kind"
    using assms unfolding wrapping_ok_def by blast
  show ?thesis by (rule wrap_then_unwrap [OF k, of data seqno]) (simp add: k(5))
qed

interpretation wrapped: nested_channel "\<lambda>(e, cv, bx, pb, key, seqno, ns). (\<lambda>d. wrap_config e cv bx pb key d seqno ns)"
  "\<lambda>(e, cv, bx, pb, key, seqno, ns). (\<lambda>w. unwrap_config e cv bx pb key w ns)" "\<lambda>p d. wrapping_ok p"
  by unfold_locales (clarsimp simp: wrapped_arrives)+

text \<open>
  C13: a config message that is wrapped for old clients unwraps to the same bytes in the same namespace and is refused in
  every other one; \<open>merge\<close> sees the same config whether a message arrives plain, wrapped, or wrapped twice.
\<close>

theorem wrapped_configs_merge:
  assumes "box_ok (e_crypto e) cv bx" "sign_ok e" "self_key e cv key sk" "protobuf_ok pb" "encode_namespace ns = Inr kind"
    and "unwrap_config e cv bx pb key data ns = Inl err" "e_accepts_protobuf e" "cb_keys b = key # keys"
  shows "\<exists>w w'. e_wrap (with_protos e cv bx pb ns) key data seqno = Inr w \<and>
    e_wrap (with_protos e cv bx pb ns) key w seqno' = Inr w' \<and>
    unwrap_incoming (with_protos e cv bx pb ns) b [(h1, data), (h2, w), (h3, w')] = [(h1, data), (h2, data), (h3, data)] \<and>
    (\<forall>ns'. ns' \<noteq> ns \<longrightarrow> (\<exists>err. unwrap_config e cv bx pb key w ns' = Inl err))"
proof -
  have ok: "wrapping_ok (e, cv, bx, pb, key, i, ns)" for i using assms(1-5) by (auto simp: wrapping_ok_def)
  obtain w w' where w: "wrap_config e cv bx pb key data seqno ns = Inr w" "unwrap_config e cv bx pb key w ns = Inr data"
    and w': "wrap_config e cv bx pb key w seqno' ns = Inr w'" "unwrap_config e cv bx pb key w' ns = Inr w"
    using wrapped.twice [OF ok [of seqno] ok [of seqno']] by auto
  have other: "unwrap_config e cv bx pb key w ns' = (case encode_namespace ns' of
      Inr kind' \<Rightarrow> if kind' = kind then Inr data else Inl Runtime_error | Inl _ \<Rightarrow> Inl Invalid_argument)" for ns'
    by (rule wrap_then_unwrap [OF assms(1-5), of data seqno]) (simp add: w(1))
  have fields: "e_wrap (with_protos e cv bx pb ns) key d i = wrap_config e cv bx pb key d i ns"
    "e_accepts_protobuf (with_protos e cv bx pb ns) = e_accepts_protobuf e"
    "e_unwrap (with_protos e cv bx pb ns) key d = (case unwrap_config e cv bx pb key d ns of Inl _ \<Rightarrow> None | Inr d \<Rightarrow> Some d)" for d i
    by (simp_all add: with_protos_def)
  have "unwrap_incoming (with_protos e cv bx pb ns) b [(h1, data), (h2, w), (h3, w')] = [(h1, data), (h2, data), (h3, data)]"
    using assms(6-8) w(2) w'(2) by (simp add: unwrap_incoming_def fields)
  moreover have "encode_namespace ns' = Inr kind \<Longrightarrow> ns' = ns" for ns' using assms(5) by (cases ns'; cases ns) auto
  then have "\<exists>err. unwrap_config e cv bx pb key w ns' = Inl err" if "ns' \<noteq> ns" for ns'
    using that other [of ns'] by (cases "encode_namespace ns'") auto
  ultimately show ?thesis using w(1) w'(1) fields(1) by metis
qed

end
