(* ===== verification/Client_Version.thy ===== *)
theory Client_Version
  imports Session_Encrypt Network_Calls
begin

text \<open>
  The request for the latest client version (\<open>Network::get_client_version\<close> in
  \<open>src/src/session_network.cpp\<close>): an onion request to the file server, authenticated with a key that is
  derived from the seed of the user and cannot be linked to its session id.
\<close>

definition file_server :: string where "file_server = ''filev2.getsession.org''"
definition file_server_pubkey :: string where
  "file_server_pubkey = ''da21e1d886c6fbaea313f75298bd64aab03a97ce985b46bb2dad9f2089c8ee59''"

definition epoch_seconds :: "net_env \<Rightarrow> 64 word" where
  "epoch_seconds ne = word_of_int (e_now ne div 1000)"

definition version_headers ::
  "net_env \<Rightarrow> (bytes \<Rightarrow> string) \<Rightarrow> bytes \<Rightarrow> bytes \<Rightarrow> 64 word \<Rightarrow> (string \<times> string) list" where
  "version_headers ne to_base64 blinded_pk sig64 timestamp =
     [(''X-FS-Pubkey'', ''07'' @ to_hex (e_enc ne) blinded_pk),
      (''X-FS-Timestamp'', int_to_string (uint timestamp)),
      (''X-FS-Signature'', to_base64 sig64)]"

text \<open>The path of the request; the same selection as the one that is signed.\<close>

definition client_version_endpoint :: "platform \<Rightarrow> string" where
  "client_version_endpoint p = (case p of
       Android \<Rightarrow> ''/session_version?platform=android''
     | Desktop \<Rightarrow> ''/session_version?platform=desktop''
     | Ios \<Rightarrow> ''/session_version?platform=ios'')"

definition version_destination :: "net_env \<Rightarrow> platform \<Rightarrow> (string \<times> string) list \<Rightarrow> server_destination" where
  "version_destination ne p headers = \<lparr> sd_protocol = ''http'', sd_host = file_server, sd_endpoint = client_version_endpoint p,
     sd_x25519_pubkey = from_hex (e_enc ne) file_server_pubkey, sd_port = Some 80, sd_headers = Some headers, sd_method = ''GET'' \<rparr>"

definition get_client_version ::
  "env \<Rightarrow> net_env \<Rightarrow> (bytes \<Rightarrow> string) \<Rightarrow> platform \<Rightarrow> bytes \<Rightarrow> nat \<Rightarrow> int \<Rightarrow> int option \<Rightarrow> network \<Rightarrow> network res" where
  "get_client_version e ne to_base64 p seckey k request_timeout build_timeout n =
     res_bind (blind_version_key_pair e (e_curve ne) seckey) (\<lambda>(blinded_pk, _).
        let timestamp = epoch_seconds ne in
        res_bind (blind_version_sign e (e_curve ne) seckey p timestamp) (\<lambda>sig64.
          let pubkey = from_hex (e_enc ne) file_server_pubkey;
              headers = version_headers ne to_base64 blinded_pk sig64 timestamp in
          send_onion_request ne
            (To_Server (version_destination ne p headers)) None (Some pubkey) k request_timeout build_timeout Standard n))"

lemma signed_endpoint: "client_version_endpoint p = version_endpoint p"
  by (cases p) (simp_all add: client_version_endpoint_def version_endpoint_def)

text \<open>The request is a call of the user: one step of the network, which takes over its callback.\<close>

lemma client_version_step:
  "get_client_version e ne to_base64 p seckey k tmo btmo n = Inr n' \<Longrightarrow> net_step n [k] n'"
  by (auto simp: get_client_version_def res_bind_eq_Inr Let_def intro: call_send)

text \<open>
  C31: the request for the client version is sent, by a user with any valid key, to the file server with headers that
  authenticate it: the signature in them verifies, under the public key in them, for the time stamp in
  them followed by the method and the path of the request.
\<close>

theorem client_version_authenticated:
  assumes "blinding_ok e (e_curve ne) ed sc" "crypto_ok (e_crypto e)" "sign_ok e" "length seckey = 32 \<or> length seckey = 64"
    and "\<And>seed. length seed = 32 \<Longrightarrow> e_sk_to_pk e (snd (seed_keypair (e_curve ne) seed)) = fst (seed_keypair (e_curve ne) seed)"
  shows "\<exists>pk sig dest. get_client_version e ne to_base64 p seckey k tmo btmo n =
      send_onion_request ne (To_Server dest) None (Some (sd_x25519_pubkey dest)) k tmo btmo Standard n \<and>
    sd_host dest = file_server \<and> sd_headers dest =
      Some [(''X-FS-Pubkey'', ''07'' @ to_hex (e_enc ne) pk), (''X-FS-Timestamp'', int_to_string (uint (epoch_seconds ne))),
            (''X-FS-Signature'', to_base64 sig)] \<and>
    length sig = 64 \<and> e_verify e pk (int_to_string (uint (epoch_seconds ne)) @ sd_method dest @ sd_endpoint dest) sig"
proof -
  obtain pk sk sig where "blind_version_key_pair e (e_curve ne) seckey = Inr (pk, sk)"
    "blind_version_sign e (e_curve ne) seckey p (epoch_seconds ne) = Inr sig" "length sig = 64"
    "e_verify e pk (int_to_string (uint (epoch_seconds ne)) @ ''GET'' @ version_endpoint p) sig"
    using version_signature_verifies [OF assms, of p "epoch_seconds ne"] by metis
  then show ?thesis
    by (intro exI [where x = pk] exI [where x = sig]
        exI [where x = "version_destination ne p (version_headers ne to_base64 pk sig (epoch_seconds ne))"])
      (simp add: get_client_version_def version_headers_def version_destination_def signed_endpoint)
qed

end
