(* ===== verification/C_Messages.thy ===== *)
theory C_Messages
  imports Session_Encrypt
begin

text \<open>
  The C functions for keys, blinding, hashes and messages (the \<open>extern "C"\<close> parts of
  \<open>src/src/blinding.cpp\<close>, \<open>session_encrypt.cpp\<close>, \<open>ed25519.cpp\<close>, \<open>curve25519.cpp\<close> and \<open>hash.cpp\<close>). A pointer to a
  buffer is the memory that may be read there: the functions read a fixed number of bytes, which is undefined when there
  are fewer. The result is what is written to the output arguments; \<open>None\<close> is the return value false. A session id is
  written to a buffer of the caller, which has the documented 67 bytes; writing more is undefined. Exceptions
  are caught; an assertion that fails ends the program.
\<close>

section \<open>Definitions\<close>

definition c_read :: "nat \<Rightarrow> bytes \<Rightarrow> bytes res" where
  "c_read n p = (if length p < n then Inl Undefined_behaviour else Inr (take n p))"

definition c_catch :: "'a res \<Rightarrow> 'a option res" where
  "c_catch r = (case r of
       Inr x \<Rightarrow> Inr (Some x)
     | Inl err \<Rightarrow> if err \<in> {Undefined_behaviour, Assertion_failed, Nontermination} then Inl err else Inr None)"

definition c_write :: "nat \<Rightarrow> bytes \<Rightarrow> bytes res" where
  "c_write n s = (if n < length s then Inl Undefined_behaviour else Inr s)"

definition SESSION_ID_OUT :: nat where "SESSION_ID_OUT = 67"

definition c_string :: "string \<Rightarrow> bytes" where "c_string s = s @ [CHR 0x00]"

subsection \<open>Keys and hashes\<close>

definition session_ed25519_key_pair_seed :: "curve \<Rightarrow> bytes \<Rightarrow> (bytes \<times> bytes) option res" where
  "session_ed25519_key_pair_seed cv ed25519_seed =
     res_bind (c_read 32 ed25519_seed) (\<lambda>seed. c_catch (ed25519_key_pair cv seed))"

definition session_seed_for_ed_privkey :: "bytes \<Rightarrow> bytes option res" where
  "session_seed_for_ed_privkey ed25519_privkey =
     res_bind (c_read 64 ed25519_privkey) (\<lambda>sk. c_catch (seed_for_ed_privkey sk))"

definition session_ed25519_sign :: "env \<Rightarrow> curve \<Rightarrow> bytes \<Rightarrow> bytes \<Rightarrow> bytes option res" where
  "session_ed25519_sign e cv ed25519_privkey msg =
     res_bind (c_read 64 ed25519_privkey) (\<lambda>sk. c_catch (ed25519_sign e cv sk msg))"

definition session_ed25519_verify :: "env \<Rightarrow> bytes \<Rightarrow> bytes \<Rightarrow> bytes \<Rightarrow> bool res" where
  "session_ed25519_verify e sig pubkey msg =
     res_bind (c_read 64 sig) (\<lambda>sig. res_bind (c_read 32 pubkey) (\<lambda>pk. ed25519_verify e sig pk msg))"

definition session_to_curve25519_pubkey :: "curve \<Rightarrow> bytes \<Rightarrow> bytes option res" where
  "session_to_curve25519_pubkey cv ed25519_pubkey =
     res_bind (c_read 32 ed25519_pubkey) (\<lambda>pk. c_catch (to_curve25519_pubkey cv pk))"

definition session_to_curve25519_seckey :: "curve \<Rightarrow> bytes \<Rightarrow> bytes option res" where
  "session_to_curve25519_seckey cv ed25519_seckey =
     res_bind (c_read 64 ed25519_seckey) (\<lambda>sk. c_catch (to_curve25519_seckey cv sk))"

text \<open>The key is given by a pointer (null: \<open>None\<close>) and a length.\<close>

definition session_hash :: "crypto \<Rightarrow> nat \<Rightarrow> bytes \<Rightarrow> bytes option \<Rightarrow> nat \<Rightarrow> bytes option res" where
  "session_hash c hash_size msg key_in key_len =
     res_bind (case key_in of
                 Some k \<Rightarrow> if key_len \<noteq> 0 then res_bind (c_read key_len k) (\<lambda>k. Inr (Some k)) else Inr None
               | None \<Rightarrow> Inr None) (\<lambda>key. c_catch (hash_bytes c hash_size msg key))"

subsection \<open>Blinding\<close>

definition session_blind15_key_pair :: "env \<Rightarrow> curve \<Rightarrow> edwards \<Rightarrow> bytes \<Rightarrow> bytes \<Rightarrow> (bytes \<times> bytes) option res" where
  "session_blind15_key_pair e cv ed ed25519_seckey server_pk =
     res_bind (c_read 64 ed25519_seckey) (\<lambda>sk. res_bind (c_read 32 server_pk) (\<lambda>spk.
       c_catch (res_bind (blind15_key_pair e cv ed sk spk) (\<lambda>(b_pk, b_sk, _). Inr (b_pk, b_sk)))))"

definition session_blind25_key_pair :: "env \<Rightarrow> curve \<Rightarrow> edwards \<Rightarrow> bytes \<Rightarrow> bytes \<Rightarrow> (bytes \<times> bytes) option res" where
  "session_blind25_key_pair e cv ed ed25519_seckey server_pk =
     res_bind (c_read 64 ed25519_seckey) (\<lambda>sk. res_bind (c_read 32 server_pk) (\<lambda>spk.
       c_catch (res_bind (blind25_key_pair e cv ed sk spk) (\<lambda>(b_pk, b_sk, _). Inr (b_pk, b_sk)))))"

definition session_blind_version_key_pair :: "env \<Rightarrow> curve \<Rightarrow> bytes \<Rightarrow> (bytes \<times> bytes) option res" where
  "session_blind_version_key_pair e cv ed25519_seckey =
     res_bind (c_read 64 ed25519_seckey) (\<lambda>sk. c_catch (blind_version_key_pair e cv sk))"

definition session_blind15_sign ::
  "env \<Rightarrow> encodings \<Rightarrow> curve \<Rightarrow> edwards \<Rightarrow> bytes \<Rightarrow> bytes \<Rightarrow> bytes \<Rightarrow> bytes option res" where
  "session_blind15_sign e enc cv ed ed25519_seckey server_pk msg =
     res_bind (c_read 64 ed25519_seckey) (\<lambda>sk. res_bind (c_read 32 server_pk) (\<lambda>spk.
       c_catch (blind15_sign e enc cv ed sk spk msg)))"

definition session_blind25_sign ::
  "env \<Rightarrow> encodings \<Rightarrow> curve \<Rightarrow> edwards \<Rightarrow> bytes \<Rightarrow> bytes \<Rightarrow> bytes \<Rightarrow> bytes option res" where
  "session_blind25_sign e enc cv ed ed25519_seckey server_pk msg =
     res_bind (c_read 64 ed25519_seckey) (\<lambda>sk. res_bind (c_read 32 server_pk) (\<lambda>spk.
       c_catch (blind25_sign e enc cv ed sk spk msg)))"

definition session_blind_version_sign_request ::
  "env \<Rightarrow> curve \<Rightarrow> bytes \<Rightarrow> 64 word \<Rightarrow> string \<Rightarrow> string \<Rightarrow> bytes option \<Rightarrow> bytes option res" where
  "session_blind_version_sign_request e cv ed25519_seckey timestamp method path body =
     res_bind (c_read 64 ed25519_seckey) (\<lambda>sk. c_catch (blind_version_sign_request e cv sk timestamp method path body))"

definition session_blind_version_sign :: "env \<Rightarrow> curve \<Rightarrow> bytes \<Rightarrow> platform \<Rightarrow> 64 word \<Rightarrow> bytes option res" where
  "session_blind_version_sign e cv ed25519_seckey p timestamp =
     res_bind (c_read 64 ed25519_seckey) (\<lambda>sk. c_catch (blind_version_sign e cv sk p timestamp))"

text \<open>Here an exception and a mismatch both give false.\<close>

definition c_session_id_matches_blinded_id ::
  "env \<Rightarrow> encodings \<Rightarrow> edwards \<Rightarrow> field25519 \<Rightarrow> bytes \<Rightarrow> bytes \<Rightarrow> bytes \<Rightarrow> bool res" where
  "c_session_id_matches_blinded_id e enc ed fe sid blinded_id server_pk =
     res_bind (c_read 66 sid) (\<lambda>sid. res_bind (c_read 66 blinded_id) (\<lambda>blinded_id. res_bind (c_read 64 server_pk) (\<lambda>spk.
     res_bind (c_catch (session_id_matches_blinded_id e enc ed fe sid blinded_id spk)) (\<lambda>r. Inr (r = Some True)))))"

subsection \<open>Messages\<close>

definition session_encrypt_for_recipient_deterministic ::
  "env \<Rightarrow> curve \<Rightarrow> box_lib \<Rightarrow> bytes \<Rightarrow> bytes \<Rightarrow> bytes \<Rightarrow> bytes option res" where
  "session_encrypt_for_recipient_deterministic e cv bx plaintext ed25519_privkey recipient_pubkey =
     res_bind (c_read 64 ed25519_privkey) (\<lambda>sk. res_bind (c_read 32 recipient_pubkey) (\<lambda>rpk.
       c_catch (encrypt_for_recipient_deterministic e cv bx sk rpk plaintext)))"

definition session_encrypt_for_blinded_recipient ::
  "env \<Rightarrow> curve \<Rightarrow> edwards \<Rightarrow> bytes \<Rightarrow> bytes \<Rightarrow> bytes \<Rightarrow> bytes \<Rightarrow> bytes \<Rightarrow> bytes option res" where
  "session_encrypt_for_blinded_recipient e cv ed nonce plaintext ed25519_privkey open_group_pubkey recipient_blinded_id =
     res_bind (c_read 64 ed25519_privkey) (\<lambda>sk. res_bind (c_read 32 open_group_pubkey) (\<lambda>spk.
     res_bind (c_read 33 recipient_blinded_id) (\<lambda>rid.
       c_catch (encrypt_for_blinded_recipient e cv ed nonce sk spk rid plaintext))))"

definition c_decrypted :: "(bytes \<times> string) res \<Rightarrow> (bytes \<times> bytes) option res" where
  "c_decrypted r = c_catch (res_bind r (\<lambda>(plaintext, sid).
     res_bind (c_write SESSION_ID_OUT (c_string sid)) (\<lambda>session_id_out. Inr (plaintext, session_id_out))))"

definition session_decrypt_incoming ::
  "env \<Rightarrow> encodings \<Rightarrow> curve \<Rightarrow> box_lib \<Rightarrow> bytes \<Rightarrow> bytes \<Rightarrow> (bytes \<times> bytes) option res" where
  "session_decrypt_incoming e enc cv bx ciphertext ed25519_privkey =
     res_bind (c_read 64 ed25519_privkey) (\<lambda>sk. c_decrypted (decrypt_incoming_session_id e enc cv bx sk ciphertext))"

definition session_decrypt_incoming_legacy_group ::
  "env \<Rightarrow> encodings \<Rightarrow> curve \<Rightarrow> box_lib \<Rightarrow> bytes \<Rightarrow> bytes \<Rightarrow> bytes \<Rightarrow> (bytes \<times> bytes) option res" where
  "session_decrypt_incoming_legacy_group e enc cv bx ciphertext x25519_pubkey x25519_seckey =
     res_bind (c_read 32 x25519_pubkey) (\<lambda>pk. res_bind (c_read 32 x25519_seckey) (\<lambda>sk.
       c_decrypted (decrypt_incoming_session_id_x e enc cv bx pk sk ciphertext)))"

definition session_decrypt_for_blinded_recipient ::
  "env \<Rightarrow> encodings \<Rightarrow> curve \<Rightarrow> edwards \<Rightarrow> bytes \<Rightarrow> bytes \<Rightarrow> bytes \<Rightarrow> bytes \<Rightarrow> bytes \<Rightarrow> (bytes \<times> bytes) option res" where
  "session_decrypt_for_blinded_recipient e enc cv ed ciphertext ed25519_privkey open_group_pubkey sender_id recipient_id =
     res_bind (c_read 64 ed25519_privkey) (\<lambda>sk. res_bind (c_read 32 open_group_pubkey) (\<lambda>spk.
     res_bind (c_read 33 sender_id) (\<lambda>sender. res_bind (c_read 33 recipient_id) (\<lambda>recipient.
       c_decrypted (decrypt_from_blinded_recipient e enc cv ed sk spk sender recipient ciphertext)))))"

definition session_decrypt_ons_response ::
  "env \<Rightarrow> encodings \<Rightarrow> box_lib \<Rightarrow> string \<Rightarrow> bytes \<Rightarrow> bytes option \<Rightarrow> bytes option res" where
  "session_decrypt_ons_response e enc bx name_in ciphertext nonce_in =
     res_bind (case nonce_in of Some n \<Rightarrow> res_bind (c_read NPUBBYTES n) (\<lambda>n. Inr (Some n)) | None \<Rightarrow> Inr None) (\<lambda>nonce.
       c_catch (res_bind (decrypt_ons_response e enc bx name_in ciphertext nonce) (\<lambda>sid. c_write SESSION_ID_OUT (c_string sid))))"

definition session_decrypt_push_notification :: "env \<Rightarrow> bytes \<Rightarrow> bytes \<Rightarrow> bytes option res" where
  "session_decrypt_push_notification e payload enc_key =
     res_bind (c_read 32 enc_key) (\<lambda>key. c_catch (decrypt_push_notification e payload key))"

definition session_compute_message_hash ::
  "env \<Rightarrow> encodings \<Rightarrow> (bytes \<Rightarrow> string) \<Rightarrow> string \<Rightarrow> 16 word \<Rightarrow> string \<Rightarrow> bytes option res" where
  "session_compute_message_hash e enc to_base64 pubkey_hex ns base64_data =
     c_catch (res_bind (compute_message_hash e enc to_base64 pubkey_hex ns base64_data) (\<lambda>h. Inr (c_string h)))"

definition c_session_encrypt_xchacha20 :: "env \<Rightarrow> bytes \<Rightarrow> bytes \<Rightarrow> bytes \<Rightarrow> bytes option res" where
  "c_session_encrypt_xchacha20 e nonce plaintext enc_key =
     res_bind (c_read 32 enc_key) (\<lambda>key. c_catch (session_encrypt_xchacha20 e nonce plaintext key))"

definition c_session_decrypt_xchacha20 :: "env \<Rightarrow> bytes \<Rightarrow> bytes \<Rightarrow> bytes option res" where
  "c_session_decrypt_xchacha20 e ciphertext enc_key =
     res_bind (c_read 32 enc_key) (\<lambda>key. c_catch (session_decrypt_xchacha20 e ciphertext key))"

section \<open>The C functions are defined on buffers of the documented sizes\<close>

text \<open>A computation that ends with a value or with an exception that can be caught.\<close>

definition catchable :: "'a res \<Rightarrow> bool" where
  "catchable r \<longleftrightarrow> (\<forall>err \<in> {Undefined_behaviour, Assertion_failed, Nontermination}. r \<noteq> Inl err)"

named_theorems catchable_intros \<open>operations that raise only exceptions that can be caught\<close>

lemma catchable_c_catch: "catchable r \<Longrightarrow> \<exists>x. c_catch r = Inr x"
  by (auto simp: catchable_def c_catch_def split: sum.split)

lemma catchable_bind [catchable_intros]: "catchable r \<Longrightarrow> (\<And>x. r = Inr x \<Longrightarrow> catchable (f x)) \<Longrightarrow> catchable (res_bind r f)"
  by (cases r) (auto simp: catchable_def)

lemma catchable_value [catchable_intros]: "catchable (Inr x)"
  "catchable (Inl Invalid_argument)" "catchable (Inl Runtime_error)"
  by (simp_all add: catchable_def)

lemma catchable_if [catchable_intros]: "(c \<Longrightarrow> catchable a) \<Longrightarrow> (\<not> c \<Longrightarrow> catchable b) \<Longrightarrow> catchable (if c then a else b)"
  by simp

lemma catchable_case [catchable_intros]:
  "(m = None \<Longrightarrow> catchable a) \<Longrightarrow> (\<And>x. m = Some x \<Longrightarrow> catchable (f x)) \<Longrightarrow> catchable (case m of None \<Rightarrow> a | Some x \<Rightarrow> f x)"
  by (cases m) auto

lemma catchable_pair [catchable_intros]: "(\<And>x y. p = (x, y) \<Longrightarrow> catchable (f x y)) \<Longrightarrow> catchable (case p of (x, y) \<Rightarrow> f x y)"
  by (cases p) auto

lemma catchable_assertion [catchable_intros]: "e_ndebug e \<Longrightarrow> catchable (assertion e c)"
  by (simp add: assertion_def catchable_def)

lemma catchable_keys [catchable_intros]:
  "catchable (expand_key cv sk)" "catchable (ed25519_key_pair cv sk)" "catchable (seed_for_ed_privkey sk)"
  "catchable (to_curve25519_pubkey cv sk)" "catchable (to_curve25519_seckey cv sk)" "catchable (hash_bytes c n msg key)"
  "catchable (blind_version_key_pair e cv sk)" "catchable (server_pk_bytes enc spk)" "catchable (check_blind_args enc sid spk)"
  unfolding expand_key_def ed25519_key_pair_def seed_for_ed_privkey_def to_curve25519_pubkey_def to_curve25519_seckey_def
    hash_bytes_def blind_version_key_pair_def server_pk_bytes_def check_blind_args_def Let_def
  by (intro catchable_intros)+

lemma catchable_ed25519_sign [catchable_intros]: "catchable (ed25519_sign e cv sk msg)" "catchable (sender_session_id enc cv r)"
  unfolding ed25519_sign_def sender_session_id_def by (intro catchable_intros)+

lemma catchable_factors [catchable_intros]:
  assumes "e_ndebug e"
  shows "catchable (blind15_factor e ed spk)" "catchable (blind25_factor e ed sid spk)"
  unfolding blind15_factor_def blind25_factor_def Let_def using assms by (intro catchable_intros; simp)+

lemma catchable_blinding [catchable_intros]:
  assumes "e_ndebug e"
  shows "catchable (blind15_key_pair e cv ed sk spk)" "catchable (blind25_key_pair e cv ed sk spk)"
    "catchable (blinded15_id_from_ed e cv ed pk spk s)" "catchable (blinded25_id_from_ed e cv ed pk spk s)"
    "catchable (blind15_id_impl e ed fe sid spk)" "catchable (blind25_id_impl e ed fe sid spk)"
  unfolding blind15_key_pair_def blind25_key_pair_def blinded15_id_from_ed_def blinded25_id_from_ed_def
    blind15_id_impl_def blind25_id_impl_def Let_def
  by (intro catchable_intros assms)+

lemma catchable_hex_ids [catchable_intros]:
  assumes "e_ndebug e"
  shows "catchable (blind15_id_hex e enc ed fe sid spk)" "catchable (blind25_id_hex e enc ed fe sid spk)"
  unfolding blind15_id_hex_def blind25_id_hex_def Let_def by (intro catchable_intros assms)+

lemma catchable_signatures [catchable_intros]:
  assumes "e_ndebug e"
  shows "catchable (blind15_sign e enc cv ed sk spk msg)" "catchable (blind25_sign e enc cv ed sk spk msg)"
    "catchable (blind_version_sign e cv sk p ts)" "catchable (blind_version_sign_request e cv sk ts method path body)"
    "2 \<le> length b \<Longrightarrow> catchable (session_id_matches_blinded_id e enc ed fe sid b spk)"
  unfolding blind15_sign_def blind25_sign_def blind_version_sign_def blind_version_sign_request_def
    session_id_matches_blinded_id_def Let_def
  by (intro catchable_intros assms; simp)+

lemma catchable_memory [catchable_intros]:
  "pos + n \<le> length b \<Longrightarrow> catchable (read_at pos n b)" "length m \<le> n \<Longrightarrow> catchable (fill_buf n m)"
  "length s \<le> n \<Longrightarrow> catchable (c_write n s)"
  by (simp_all add: catchable_def read_at_def fill_buf_def c_write_def)

text \<open>The lengths of what libsodium and the hex encoder write.\<close>

definition lengths_ok :: "crypto \<Rightarrow> encodings \<Rightarrow> curve \<Rightarrow> box_lib \<Rightarrow> bool" where
  "lengths_ok c enc cv bx \<longleftrightarrow> aead_lengths c \<and>
     (\<forall>ct pk sk m. box_seal_open bx ct pk sk = Some m \<longrightarrow> length ct = length m + 48) \<and>
     (\<forall>ct n k m. secretbox_open bx ct n k = Some m \<longrightarrow> length ct = length m + 16) \<and>
     (\<forall>k. length (sk_to_curve cv k) = 32 \<and> length (curve_base cv (sk_to_curve cv k)) = 32) \<and>
     (\<forall>pk x. pk_to_curve cv pk = Some x \<longrightarrow> length x = 32) \<and> (\<forall>b. length (to_hex enc b) = 2 * length b)"

lemma catchable_secret [catchable_intros]:
  assumes "e_ndebug e"
  shows "catchable (blinded_shared_secret e cv ed sk kA jB spk sending)" "catchable (blinded_id_from_ed e cv ed rid pk spk s)"
    "32 \<le> length buf \<Longrightarrow> catchable (check_blinded_sender e enc cv ed spk sender rid buf)"
  unfolding blinded_shared_secret_def blinded_id_from_ed_def check_blinded_sender_def Let_def
  by (intro catchable_intros assms; simp add: memory)+

lemma catchable_incoming:
  assumes "e_ndebug e" "lengths_ok (e_crypto e) enc cv bx" "length pk = 32" "length xsk = 32"
  shows "catchable (decrypt_incoming_x e bx pk xsk ct)"
proof -
  have "length m = length ct - 48" if "box_seal_open bx ct p s = Some m" for p s m
    using that assms(2) unfolding lengths_ok_def by fastforce
  then show ?thesis
    using assms(3,4) unfolding decrypt_incoming_x_def Let_def SEALBYTES_def
    by (intro catchable_intros; auto simp: memory read_at_eq_Inr)
qed

lemma catchable_blinded_messages [catchable_intros]:
  assumes "e_ndebug e" "aead_lengths (e_crypto e)" "rid \<noteq> []"
  shows "catchable (decrypt_from_blinded_recipient e enc cv ed sk spk sender rid ct)"
proof -
  have opened: "length c = length m + 16" if "aead_decrypt (e_crypto e) c n k = Some m" for c n k m
    using that assms(2) by (auto simp: aead_lengths_def)
  have key: "expand_key cv sk = Inr x \<Longrightarrow> length sk = 32 \<or> length sk = 64" for x
    by (auto simp: expand_key_def split: if_splits)
  show ?thesis
    unfolding decrypt_from_blinded_recipient_def Let_def NPUBBYTES_def ABYTES_def
    by (intro catchable_intros assms(1); use key assms(3) in \<open>auto simp: memory read_at_eq_Inr Suc_le_eq dest!: opened\<close>)
qed

lemma catchable_messages [catchable_intros]:
  assumes "e_ndebug e"
  shows "catchable (encrypt_for_blinded_recipient e cv ed nonce sk spk rid msg)"
    "catchable (sign_for_recipient e cv sk rpk msg)" "catchable (session_encrypt_xchacha20 e nonce msg key)"
    "length rpk = 32 \<Longrightarrow> 32 \<le> length sk \<Longrightarrow> catchable (encrypt_for_recipient_deterministic e cv bx sk rpk msg)"
  unfolding encrypt_for_blinded_recipient_def sign_for_recipient_def session_encrypt_xchacha20_def
    encrypt_for_recipient_deterministic_def Let_def
  by (intro catchable_intros assms; simp)+

lemma catchable_opened [catchable_intros]:
  assumes "e_ndebug e" "aead_lengths (e_crypto e)"
  shows "catchable (decrypt_push_notification e ct key)" "catchable (session_decrypt_xchacha20 e ct key)"
proof -
  have opened: "length c = length m + 16" if "aead_decrypt (e_crypto e) c n k = Some m" for c n k m
    using that assms(2) by (auto simp: aead_lengths_def)
  show "catchable (decrypt_push_notification e ct key)" "catchable (session_decrypt_xchacha20 e ct key)"
    unfolding decrypt_push_notification_def session_decrypt_xchacha20_def Let_def NPUBBYTES_def ABYTES_def
    by (intro catchable_intros assms(1); auto simp: memory read_at_eq_Inr dest!: opened)+
qed

lemma catchable_sealed [catchable_intros]:
  assumes "e_ndebug e" "lengths_ok (e_crypto e) enc cv bx"
  shows "catchable (decrypt_incoming_session_id e enc cv bx sk ct)"
    "length pk = 32 \<Longrightarrow> length xsk = 32 \<Longrightarrow> catchable (decrypt_incoming_session_id_x e enc cv bx pk xsk ct)"
  unfolding decrypt_incoming_session_id_def decrypt_incoming_session_id_x_def decrypt_incoming_def Let_def
  by (intro catchable_intros catchable_incoming [OF assms]; use assms(2) in \<open>simp add: lengths_ok_def\<close>)+

text \<open>Name-service responses: without a nonce nothing limits the length of the id.\<close>

lemma ons_response:
  assumes "lengths_ok (e_crypto e) enc cv bx"
  shows "catchable (decrypt_ons_response e enc bx name ct no)"
    and "decrypt_ons_response e enc bx name ct (Some n) = Inr s \<Longrightarrow> length s = 66"
    and "decrypt_ons_response e enc bx name ct None = Inr s \<longleftrightarrow> (\<exists>key msg. pwhash bx name (replicate 16 (CHR 0x00)) = Some key \<and>
      secretbox_open bx ct (replicate 24 (CHR 0x00)) key = Some msg \<and> s = to_hex enc msg)"
    and "decrypt_ons_response e enc bx name ct None = Inr s \<Longrightarrow> length s = 2 * (length ct - 16)"
proof -
  have opened: "aead_decrypt (e_crypto e) ct n k = Some m \<Longrightarrow> length ct = length m + 16"
    "secretbox_open bx ct n k = Some m \<Longrightarrow> length ct = length m + 16" for n k m
    using assms by (auto simp: lengths_ok_def aead_lengths_def)
  have hex: "length (to_hex enc b) = 2 * length b" for b using assms by (simp add: lengths_ok_def)
  show "catchable (decrypt_ons_response e enc bx name ct no)"
    unfolding decrypt_ons_response_def Let_def SECRETBOX_MACBYTES_def ABYTES_def
    by (intro catchable_intros; auto simp: memory dest!: opened)
  show "decrypt_ons_response e enc bx name ct (Some n) = Inr s \<Longrightarrow> length s = 66"
    using opened by (auto simp: decrypt_ons_response_def Let_def ABYTES_def res_bind_eq_Inr hex memory split: if_splits option.splits)
  show ons: "decrypt_ons_response e enc bx name ct None = Inr s \<longleftrightarrow> (\<exists>key msg. pwhash bx name (replicate 16 (CHR 0x00)) = Some key \<and>
      secretbox_open bx ct (replicate 24 (CHR 0x00)) key = Some msg \<and> s = to_hex enc msg)" for s
    using opened by (auto simp: decrypt_ons_response_def SECRETBOX_MACBYTES_def memory split: option.split)
  show "decrypt_ons_response e enc bx name ct None = Inr s \<Longrightarrow> length s = 2 * (length ct - 16)"
    unfolding ons using opened hex by fastforce
qed

lemma sender_id_length:
  assumes "lengths_ok (e_crypto e) enc cv bx"
  shows "sender_session_id enc cv r = Inr (p, sid) \<Longrightarrow> length sid = 66"
    and "check_blinded_sender e enc cv ed spk sender rid buf = Inr (p, sid) \<Longrightarrow> length sid = 66"
  using assms by (auto simp: sender_session_id_def check_blinded_sender_def lengths_ok_def res_bind_eq_Inr split: option.splits if_splits prod.splits)

lemma decrypted_id_length:
  assumes "lengths_ok (e_crypto e) enc cv bx"
  shows "decrypt_incoming_session_id e enc cv bx sk ct = Inr (p, sid) \<Longrightarrow> length sid = 66"
    and "decrypt_incoming_session_id_x e enc cv bx pk xsk ct = Inr (p, sid) \<Longrightarrow> length sid = 66"
    and "decrypt_from_blinded_recipient e enc cv ed sk spk sender rid ct = Inr (p, sid) \<Longrightarrow> length sid = 66"
proof -
  assume "decrypt_from_blinded_recipient e enc cv ed sk spk sender rid ct = Inr (p, sid)"
  then show "length sid = 66"
    by (rule accepted_checked) (use assms sender_id_length(2) [OF assms] in \<open>auto simp: lengths_ok_def\<close>)
qed (auto simp: decrypt_incoming_session_id_def decrypt_incoming_session_id_x_def res_bind_eq_Inr dest: sender_id_length(1) [OF assms])

lemma c_read_eq: "n \<le> length p \<Longrightarrow> c_read n p = Inr (take n p)"
  by (simp add: c_read_def)

lemma catchable_c_decrypted: "catchable r \<Longrightarrow> (\<And>p sid. r = Inr (p, sid) \<Longrightarrow> length sid = 66) \<Longrightarrow> \<exists>x. c_decrypted r = Inr x"
  unfolding c_decrypted_def by (intro catchable_c_catch catchable_intros; simp add: c_string_def SESSION_ID_OUT_def)

lemma catchable_c_test: "catchable r \<Longrightarrow> \<exists>x. res_bind (c_catch r) (\<lambda>y. Inr (g y)) = Inr x"
  using catchable_c_catch [of r] by auto

lemma ons_calls:
  assumes "lengths_ok (e_crypto e) enc cv bx" "24 \<le> length nonce"
  shows "\<exists>r. session_decrypt_ons_response e enc bx name ct (Some nonce) = Inr r"
    and "session_decrypt_ons_response e enc bx name ct None = Inl Undefined_behaviour \<longleftrightarrow> 49 < length ct \<and>
      (\<exists>key msg. pwhash bx name (replicate 16 (CHR 0x00)) = Some key \<and> secretbox_open bx ct (replicate 24 (CHR 0x00)) key = Some msg)"
    and "session_decrypt_ons_response e enc bx name ct None \<noteq> Inl Undefined_behaviour \<Longrightarrow>
      \<exists>r. session_decrypt_ons_response e enc bx name ct None = Inr r"
proof -
  note ons = ons_response [OF assms(1)]
  show "\<exists>r. session_decrypt_ons_response e enc bx name ct (Some nonce) = Inr r"
    using assms(2) ons(2) unfolding session_decrypt_ons_response_def NPUBBYTES_def
    by (simp add: c_read_eq) (intro catchable_c_catch catchable_intros ons(1); simp add: c_string_def SESSION_ID_OUT_def)
  let ?r = "decrypt_ons_response e enc bx name ct None"
  have call: "session_decrypt_ons_response e enc bx name ct None =
      (case ?r of Inl err \<Rightarrow> Inr None | Inr s \<Rightarrow> if 49 < length ct then Inl Undefined_behaviour else Inr (Some (c_string s)))"
    using ons(1) [of name ct None] ons(4) [of name ct]
    by (cases ?r) (auto simp: session_decrypt_ons_response_def c_catch_def c_write_def c_string_def SESSION_ID_OUT_def catchable_def)
  have ok: "(\<exists>s. ?r = Inr s) \<longleftrightarrow> (\<exists>key msg. pwhash bx name (replicate 16 (CHR 0x00)) = Some key \<and>
      secretbox_open bx ct (replicate 24 (CHR 0x00)) key = Some msg)"
    unfolding ons(3) by blast
  show "session_decrypt_ons_response e enc bx name ct None = Inl Undefined_behaviour \<longleftrightarrow> 49 < length ct \<and>
      (\<exists>key msg. pwhash bx name (replicate 16 (CHR 0x00)) = Some key \<and> secretbox_open bx ct (replicate 24 (CHR 0x00)) key = Some msg)"
    unfolding call ok [symmetric] by (auto split: sum.split)
  show "session_decrypt_ons_response e enc bx name ct None \<noteq> Inl Undefined_behaviour \<Longrightarrow>
      \<exists>r. session_decrypt_ons_response e enc bx name ct None = Inr r"
    unfolding call by (auto split: sum.split)
qed

text \<open>
  C30: in a release build these C functions always return, whatever bytes they are given, provided
  that the buffers have the documented sizes: every exception of the C++ code is turned into the return value
  false, and no ciphertext makes them read or write past a buffer. The exception is \<open>session_decrypt_ons_response\<close> without a
  nonce: when the response decrypts to more than 33 bytes it writes past the 67 bytes of its output.
\<close>

theorem c_functions_return:
  assumes "e_ndebug e" "lengths_ok (e_crypto e) enc cv bx"
    and "64 \<le> length sk" "32 \<le> length spk" "33 \<le> length sender" "33 \<le> length recipient"
    and "66 \<le> length sid" "66 \<le> length blinded_id" "64 \<le> length spk_hex"
  shows "(\<exists>r. session_encrypt_for_recipient_deterministic e cv bx msg sk spk = Inr r) \<and>
    (\<exists>r. session_encrypt_for_blinded_recipient e cv ed nonce msg sk spk recipient = Inr r) \<and>
    (\<exists>r. session_decrypt_incoming e enc cv bx ct sk = Inr r) \<and>
    (\<exists>r. session_decrypt_incoming_legacy_group e enc cv bx ct spk sk = Inr r) \<and>
    (\<exists>r. session_decrypt_for_blinded_recipient e enc cv ed ct sk spk sender recipient = Inr r) \<and>
    (\<exists>r. session_decrypt_ons_response e enc bx name ct (Some spk) = Inr r) \<and>
    (if 49 < length ct \<and> (\<exists>key m. pwhash bx name (replicate 16 (CHR 0x00)) = Some key \<and>
         secretbox_open bx ct (replicate 24 (CHR 0x00)) key = Some m)
     then session_decrypt_ons_response e enc bx name ct None = Inl Undefined_behaviour
     else \<exists>r. session_decrypt_ons_response e enc bx name ct None = Inr r) \<and>
    (\<exists>r. session_decrypt_push_notification e ct spk = Inr r) \<and>
    (\<exists>r. session_blind15_sign e enc cv ed sk spk msg = Inr r) \<and>
    (\<exists>r. session_blind25_sign e enc cv ed sk spk msg = Inr r) \<and>
    (\<exists>r. c_session_id_matches_blinded_id e enc ed fe sid blinded_id spk_hex = Inr r) \<and>
    (\<exists>r. c_session_encrypt_xchacha20 e nonce msg spk = Inr r) \<and>
    (\<exists>r. c_session_decrypt_xchacha20 e ct spk = Inr r)"
proof -
  have read: "c_read 64 sk = Inr (take 64 sk)" "c_read 32 sk = Inr (take 32 sk)" "c_read 32 spk = Inr (take 32 spk)"
    "c_read 33 sender = Inr (take 33 sender)" "c_read 33 recipient = Inr (take 33 recipient)"
    "c_read 66 sid = Inr (take 66 sid)" "c_read 66 blinded_id = Inr (take 66 blinded_id)" "c_read 64 spk_hex = Inr (take 64 spk_hex)"
    using assms by (simp_all add: c_read_eq)
  have sizes: "take 33 recipient \<noteq> []" "2 \<le> length (take 66 blinded_id)" "length (take 32 spk) = 32" "length (take 32 sk) = 32"
    "32 \<le> length (take 64 sk)" using assms by auto
  have aead: "aead_lengths (e_crypto e)" "24 \<le> length spk" using assms(2,4) by (simp_all add: lengths_ok_def)
  note ids = decrypted_id_length [OF assms(2)] and ons = ons_calls [OF assms(2) aead(2)]
  have null: "if 49 < length ct \<and> (\<exists>key m. pwhash bx name (replicate 16 (CHR 0x00)) = Some key \<and>
         secretbox_open bx ct (replicate 24 (CHR 0x00)) key = Some m)
     then session_decrypt_ons_response e enc bx name ct None = Inl Undefined_behaviour
     else \<exists>r. session_decrypt_ons_response e enc bx name ct None = Inr r"
    using ons(2,3) by simp
  show ?thesis
    unfolding session_encrypt_for_recipient_deterministic_def session_encrypt_for_blinded_recipient_def session_decrypt_incoming_def
      session_decrypt_incoming_legacy_group_def session_decrypt_for_blinded_recipient_def
      session_decrypt_push_notification_def session_blind15_sign_def session_blind25_sign_def c_session_id_matches_blinded_id_def
      c_session_encrypt_xchacha20_def c_session_decrypt_xchacha20_def read res_bind_simps
    by (intro conjI catchable_c_catch catchable_c_decrypted catchable_c_test catchable_intros assms(1,2) sizes aead ids ons(1) null)
qed

end
