(* ===== verification/Message_Witnesses.thy ===== *)
theory Message_Witnesses
  imports Network_Witnesses Protos Client_Version C_Messages
begin

unbundle bit_operations_syntax

text \<open>
  Concrete inputs for the theorems on blinding, on messages between users and on the protobuf wrapping: a group whose
  product is the bytewise exclusive or, so that negation is flipping the sign bit, a box that prepends a fixed
  header, and a length-prefixed encoding of the protobuf messages.
\<close>

section \<open>A group\<close>

definition xor_bytes :: "bytes \<Rightarrow> bytes \<Rightarrow> bytes" where
  "xor_bytes a b = map2 byte_xor (pad32 a) (pad32 b)"

definition xor_edwards :: edwards where
  "xor_edwards = \<lparr> ed_mult_noclamp = (\<lambda>k p. Some (xor_bytes k p)), ed_base_noclamp = pad32, ed_base_clamp = pad32,
     scalar_reduce = pad32, scalar_negate = (\<lambda>a. flip_sign_bit (pad32 a)), scalar_mul = xor_bytes, scalar_add = xor_bytes,
     sha512 = pad32, blake2b_personal = (\<lambda>p m. pad32 m) \<rparr>"

lemma length_xor_bytes [simp]: "length (xor_bytes a b) = 32"
  by (simp add: xor_bytes_def)

lemma length_flip [simp]: "length (flip_sign_bit A) = length A"
  by (simp add: flip_sign_bit_def)

lemma xor_bytes_commute: "xor_bytes a b = xor_bytes b a"
  by (rule nth_equalityI) (simp_all add: xor_bytes_def byte_xor_commute)

lemma of_char_xor: "of_char (byte_xor c d) = (of_char c XOR of_char d :: nat)"
proof -
  have "take_bit 8 (of_char c XOR of_char d :: nat) = of_char c XOR of_char d"
    by (simp only: take_bit_xor of_char_byte)
  then show ?thesis by (simp add: byte_xor_def take_bit_eq_mod)
qed

lemma byte_xor_assoc: "byte_xor (byte_xor c d) x = byte_xor c (byte_xor d x)"
  by (simp add: byte_xor_def [of "byte_xor c d"] byte_xor_def [of c "byte_xor d x"] of_char_xor xor.assoc)

lemma nth_xor_bytes: "i < 32 \<Longrightarrow> xor_bytes a b ! i = byte_xor (pad32 a ! i) (pad32 b ! i)"
  by (simp add: xor_bytes_def)

lemma xor_bytes_assoc: "xor_bytes (xor_bytes a b) c = xor_bytes a (xor_bytes b c)"
  by (rule nth_equalityI) (simp_all add: nth_xor_bytes pad32_id byte_xor_assoc)

lemma xor_bytes_flip:
  assumes "length a = 32"
  shows "xor_bytes (flip_sign_bit a) b = flip_sign_bit (xor_bytes a b)"
proof (rule nth_equalityI)
  fix i assume "i < length (xor_bytes (flip_sign_bit a) b)"
  then show "xor_bytes (flip_sign_bit a) b ! i = flip_sign_bit (xor_bytes a b) ! i"
    using assms byte_xor_assoc [of "a ! 31" "CHR 0x80" "pad32 b ! 31"] byte_xor_assoc [of "a ! 31" "pad32 b ! 31" "CHR 0x80"]
    by (cases "i = 31") (simp_all add: nth_xor_bytes pad32_id flip_sign_bit_def byte_xor_commute [of "CHR 0x80"])
qed simp

lemma xor_128: "n XOR 128 = n mod 128" if "128 \<le> n" "n < 256" for n :: nat
proof (rule bit_eqI)
  fix k
  have one: "n div 128 = 1" using that by auto
  have top: "bit n 7" by (simp add: bit_iff_odd one)
  have high: "k > 7 \<Longrightarrow> \<not> bit n k"
  proof -
    assume "k > 7" then have "(2::nat) ^ 8 \<le> 2 ^ k" by (intro power_increasing) auto
    then show ?thesis using that by (simp add: bit_iff_odd)
  qed
  have "(128 :: nat) = 2 ^ 7" by simp
  then have "bit (128 :: nat) k \<longleftrightarrow> k = 7" by (simp only: bit_exp_iff) auto
  moreover have "bit (n mod 128) k \<longleftrightarrow> k < 7 \<and> bit n k" using bit_take_bit_iff [of 7 n k] by (simp add: take_bit_eq_mod)
  ultimately show "bit (n XOR 128) k \<longleftrightarrow> bit (n mod 128) k"
    using top high by (auto simp: bit_xor_iff not_less le_less)
qed
lemma flip_clears:
  assumes "sign_bit A" "length A = 32"
  shows "flip_sign_bit A = clear_sign_bit A"
proof -
  have "(of_char (A ! 31) :: nat) < 256" using range_nat_of_char by auto
  then show ?thesis
    using assms xor_128 [of "of_char (A ! 31)"] by (simp add: flip_sign_bit_def clear_sign_bit_def sign_bit_def byte_xor_def)
qed

lemma xor_edwards_ok: "edwards_ok xed_env xor_edwards (\<lambda>a. length a = 32)"
  by (simp add: edwards_ok_def xor_edwards_def xed_env_def pad32_id flip_clears)

lemma xor_blinding_ok: "blinding_ok xed_env ref_curve xor_edwards (\<lambda>a. length a = 32)"
  using xor_edwards_ok
  unfolding blinding_ok_def by (auto simp: xor_edwards_def ref_curve_def pad32_id xor_bytes_assoc xor_bytes_flip intro: xor_bytes_commute)

text \<open>Two users; the Ed25519 key of the first is negative. Keys are their own public keys.\<close>

lemma users:
  "user_key ref_curve xor_edwards (\<lambda>a. length a = 32) negative_key (negative_key @ negative_key) negative_key"
  "user_key ref_curve xor_edwards (\<lambda>a. length a = 32) (bob @ bob) (bob @ bob) bob"
proof -
  have "length negative_key = 32" by (simp add: negative_key_def)
  then show "user_key ref_curve xor_edwards (\<lambda>a. length a = 32) negative_key (negative_key @ negative_key) negative_key"
    "user_key ref_curve xor_edwards (\<lambda>a. length a = 32) (bob @ bob) (bob @ bob) bob"
    by (simp_all add: user_key_def expand_key_def) (simp_all add: ref_curve_def xor_edwards_def pad32_id)
qed

section \<open>Blinded ids\<close>

lemma negative_positive: "xed_pubkey ref_field negative_key = clear_sign_bit (drop 32 (negative_key @ negative_key))"
  by code_simp

theorem blinded_ids_match_witness:
  "\<exists>A15 a15 k15. blind15_key_pair xed_env ref_curve xor_edwards negative_key carol = Inr (A15, a15, k15) \<and>
     session_id_matches_blinded_id xed_env ref_encodings xor_edwards ref_field (to_hex ref_encodings (CHR 0x05 # negative_key))
       (to_hex ref_encodings (CHR 0x15 # A15)) (to_hex ref_encodings carol) = Inr True"
proof -
  obtain A15 k15 where r15: "length A15 = 32" "blind15_key_pair xed_env ref_curve xor_edwards negative_key carol =
      Inr (A15, scalar_mul xor_edwards k15 (sk_to_curve ref_curve (negative_key @ negative_key)), k15)"
    by (rule blind15_user [OF xor_blinding_ok users(1)]) (auto simp: carol_def)
  obtain A25 k25 where r25: "blind25_key_pair xed_env ref_curve xor_edwards negative_key carol =
      Inr (A25, scalar_mul xor_edwards k25 (sk_to_curve ref_curve (negative_key @ negative_key)), k25)"
    by (rule blind25_user [OF xor_blinding_ok users(1)]) (auto simp: carol_def)
  define b where "b = to_hex ref_encodings (CHR 0x15 # A15)"
  have b: "take 2 b = ''15''" "2 \<le> length b" by (simp_all add: b_def ref_encodings_def hex_byte_def hex_digits_def)
  have "session_id_matches_blinded_id xed_env ref_encodings xor_edwards ref_field (to_hex ref_encodings (CHR 0x05 # negative_key))
      b (to_hex ref_encodings carol) = Inr True"
    using blinded_ids_match [OF xor_blinding_ok users(1) _ ref_hex_ok negative_positive b(2) r15(2) r25] b(1)
    by (simp add: b_def [symmetric] carol_def)
  then show ?thesis using r15(2) b_def by blast
qed

theorem blinded_signatures_verify_witness:
  "\<exists>A15 a15 k15 sig15 A25 a25 k25 sig25.
    blind15_key_pair xed_env ref_curve xor_edwards negative_key carol = Inr (A15, a15, k15) \<and>
    blind15_sign xed_env ref_encodings ref_curve xor_edwards negative_key (to_hex ref_encodings carol) ''hi'' = Inr sig15 \<and>
    length sig15 = 64 \<and> e_verify xed_env A15 ''hi'' sig15 \<and>
    blind25_key_pair xed_env ref_curve xor_edwards negative_key carol = Inr (A25, a25, k25) \<and>
    blind25_sign xed_env ref_encodings ref_curve xor_edwards negative_key (to_hex ref_encodings carol) ''hi'' = Inr sig25 \<and>
    length sig25 = 64 \<and> e_verify xed_env A25 ''hi'' sig25"
  by (rule blinded_signatures_verify [OF xor_blinding_ok users(1) _ ref_hex_ok]) (simp_all add: carol_def)

section \<open>Messages\<close>

definition ref_box :: box_lib where
  "ref_box = \<lparr> box_seal = (\<lambda>r m pk. Some (replicate 48 (CHR ''X'') @ m)), box_seal_open = (\<lambda>ct pk sk. if length ct < 48 then None else Some (drop 48 ct)),
     box_seed_keypair = (\<lambda>s. (pad32 s, pad32 s)), box_easy = (\<lambda>m n pk sk. Some (replicate 16 (CHR ''X'') @ m)),
     pwhash = (\<lambda>p s. Some (pad32 p)), secretbox_open = (\<lambda>ct n k. if length ct < 16 then None else Some (drop 16 ct)) \<rparr>"

lemma ref_box_ok: "box_ok c cv ref_box"
  by (simp add: box_ok_def ref_box_def)

definition plain_env :: env where "plain_env = key_env\<lparr> e_accepts_protobuf := True \<rparr>"

lemma plain_env_fields [simp]:
  "e_crypto plain_env = tag_crypto" "e_sk_to_pk plain_env = drop 32" "e_accepts_protobuf plain_env" "sign_ok plain_env"
  "e_verify plain_env = (\<lambda>pk m sig. sig = replicate 64 (CHR ''S''))"
  using key_libraries_ok by (simp_all add: plain_env_def libraries_ok_def sign_ok_def)

lemma expand_alice: "expand_key ref_curve alice = Inr (alice @ alice)" "expand_key ref_curve (bob @ bob) = Inr (bob @ bob)"
  by (simp_all add: expand_key_def) (simp add: ref_curve_def)

theorem session_message_round_trip_witness:
  "\<exists>ct ct'. encrypt_for_recipient plain_env ref_curve ref_box [] alice (CHR 0x05 # bob) ''hello'' = Inr ct \<and>
    decrypt_incoming_session_id plain_env ref_encodings ref_curve ref_box (bob @ bob) ct = Inr (''hello'', ''05'' @ to_hex ref_encodings alice) \<and>
    encrypt_for_recipient_deterministic plain_env ref_curve ref_box alice (CHR 0x05 # bob) ''hello'' = Inr ct' \<and>
    decrypt_incoming_session_id plain_env ref_encodings ref_curve ref_box (bob @ bob) ct' = Inr (''hello'', ''05'' @ to_hex ref_encodings alice)"
  by (rule session_message_round_trip [OF ref_box_ok _ expand_alice(1) _ _ expand_alice(2)]) (simp_all add: pad32_id)

definition sealed_hello :: bytes where
  "sealed_hello = replicate 48 (CHR ''X'') @ ''hello'' @ alice @ replicate 64 (CHR ''S'')"

theorem incoming_message_authentic_witness:
  "\<exists>sig. length sig = 64 \<and> box_seal_open ref_box sealed_hello bob bob = Some (''hello'' @ alice @ sig) \<and>
    e_verify plain_env alice (''hello'' @ alice @ bob) sig"
proof -
  have "decrypt_incoming_x plain_env ref_box bob bob sealed_hello = Inr (''hello'', alice)"
    by (simp add: decrypt_incoming_x_def sealed_hello_def SEALBYTES_def Let_def ref_box_def memory)
  from incoming_message_authentic [OF ref_box_ok this] show ?thesis by auto
qed

lemma bob_blinded:
  "\<exists>A a k. key_pair_of xed_env ref_curve xor_edwards (CHR 0x15) (bob @ bob) carol = Inr (A, a, k)"
  "\<exists>A a k. key_pair_of xed_env ref_curve xor_edwards (CHR 0x15) negative_key carol = Inr (A, a, k)"
  unfolding key_pair_of_def using blind15_user [OF xor_blinding_ok users(2), of carol] blind15_user [OF xor_blinding_ok users(1), of carol]
  by (simp_all add: carol_def) metis+

lemma xed_crypto_ok: "crypto_ok (e_crypto xed_env)"
  using tag_crypto_ok by (simp add: xed_env_def)

theorem blinded_message_round_trip_witness:
  "\<exists>S R ct. encrypt_for_blinded_recipient xed_env ref_curve xor_edwards (replicate 24 (CHR ''N'')) negative_key carol (CHR 0x15 # R) ''hello'' = Inr ct \<and>
    decrypt_from_blinded_recipient xed_env ref_encodings ref_curve xor_edwards (bob @ bob) carol (CHR 0x15 # S) (CHR 0x15 # R) ct =
      Inr (''hello'', ''05'' @ to_hex ref_encodings negative_key) \<and>
    decrypt_from_blinded_recipient xed_env ref_encodings ref_curve xor_edwards negative_key carol (CHR 0x15 # S) (CHR 0x15 # R) ct =
      Inr (''hello'', ''05'' @ to_hex ref_encodings negative_key)"
proof -
  obtain S s k R r j where "key_pair_of xed_env ref_curve xor_edwards (CHR 0x15) negative_key carol = Inr (S, s, k)"
    "key_pair_of xed_env ref_curve xor_edwards (CHR 0x15) (bob @ bob) carol = Inr (R, r, j)" using bob_blinded by blast
  then show ?thesis
    using blinded_message_round_trip [OF xor_blinding_ok xed_crypto_ok users, of carol "replicate 24 (CHR ''N'')" "CHR 0x15" S s k R r j "''hello''" ref_encodings]
    by auto
qed

lemma xed_aead_lengths: "aead_lengths (e_crypto xed_env)" "aead_lengths tag_crypto"
proof -
  have "16 \<le> length c" if "drop (length c - 16) c = key_tag k" for c k
  proof -
    have "length (drop (length c - 16) c) = 16" using that by simp
    then show ?thesis by simp
  qed
  then show "aead_lengths tag_crypto" by (auto simp: aead_lengths_def tag_crypto_def split: if_splits)
  then show "aead_lengths (e_crypto xed_env)" by (simp add: xed_env_def)
qed

theorem blinded_sender_authentic_witness:
  "\<exists>id ct h S X B s'.
    decrypt_from_blinded_recipient xed_env ref_encodings ref_curve xor_edwards negative_key carol id id ct =
      Inr (''hello'', ''05'' @ to_hex ref_encodings negative_key) \<and> length S = 32 \<and>
    aead_decrypt (e_crypto xed_env) (take (length ct - 25) (drop 1 ct)) (drop (length ct - 24) ct) h = Some (''hello'' @ S) \<and>
    pk_to_curve ref_curve S = Some X \<and> to_hex ref_encodings negative_key = to_hex ref_encodings X \<and>
    blinded_id_from_ed xed_env ref_curve xor_edwards id S carol (Some []) = Inr (B, s') \<and> id \<noteq> B[32 := byte_xor (B ! 32) (CHR 0x80)]"
proof -
  obtain S s k where k: "key_pair_of xed_env ref_curve xor_edwards (CHR 0x15) negative_key carol = Inr (S, s, k)" using bob_blinded by blast
  obtain ct where ct: "decrypt_from_blinded_recipient xed_env ref_encodings ref_curve xor_edwards negative_key carol (CHR 0x15 # S) (CHR 0x15 # S) ct =
      Inr (''hello'', ''05'' @ to_hex ref_encodings negative_key)"
    by (rule blinded_transfer [OF xor_blinding_ok xed_crypto_ok users(1,1) _ _ _ k k, of "replicate 24 (CHR ''N'')" "''hello''" ref_encodings])
      (auto simp: carol_def)
  have "\<forall>a p q. ed_mult_noclamp xor_edwards a p = Some q \<longrightarrow> length q = 32" by (auto simp: xor_edwards_def)
  from blinded_sender_authentic [OF ct this xed_aead_lengths(1)] ct show ?thesis by (simp only: append_same_eq same_append_eq) blast
qed

theorem client_version_authenticated_witness:
  "\<exists>pk sig dest. get_client_version xed_env ref_net (\<lambda>b. b) Ios alice 7 10000 None demo_net =
      send_onion_request ref_net (To_Server dest) None (Some (sd_x25519_pubkey dest)) 7 10000 None Standard demo_net \<and>
    sd_headers dest = Some [(''X-FS-Pubkey'', ''07'' @ to_hex ref_encodings pk), (''X-FS-Timestamp'', ''1''), (''X-FS-Signature'', sig)] \<and>
    e_verify xed_env pk (''1'' @ sd_method dest @ sd_endpoint dest) sig"
proof -
  have cv: "e_curve ref_net = ref_curve" by (simp add: ref_net_def)
  have "int_to_string (uint (epoch_seconds ref_net)) = ''1''" by (simp add: epoch_seconds_def int_to_string_def) code_simp
  moreover have "e_sk_to_pk xed_env (snd (seed_keypair ref_curve seed)) = fst (seed_keypair ref_curve seed)" if "length seed = 32" for seed
    using that by (simp add: xed_env_def ref_curve_def)
  ultimately show ?thesis
    using client_version_authenticated [of xed_env ref_net xor_edwards "\<lambda>a. length a = 32" alice "\<lambda>b. b" Ios 7 10000 None demo_net,
        unfolded cv, OF xor_blinding_ok xed_crypto_ok xed_sign_ok] by auto
qed

section \<open>Protobuf\<close>

definition put_nat :: "nat \<Rightarrow> string" where "put_nat n = replicate n (CHR ''1'') @ ''0''"
definition put_str :: "string \<Rightarrow> string" where "put_str s = put_nat (length s) @ s"
definition put_int :: "int \<Rightarrow> string" where "put_int i = put_nat (nat i) @ put_nat (nat (- i))"

definition get_nat :: "string \<Rightarrow> nat \<times> string" where
  "get_nat s = (length (takeWhile (\<lambda>c. c = CHR ''1'') s), tl (dropWhile (\<lambda>c. c = CHR ''1'') s))"

definition get_str :: "string \<Rightarrow> string \<times> string" where
  "get_str s = (let (n, s) = get_nat s in (take n s, drop n s))"

definition get_int :: "string \<Rightarrow> int \<times> string" where
  "get_int s = (let (m, s) = get_nat s; (n, s) = get_nat s in (int m - int n, s))"

lemma get_put:
  "get_nat (put_nat n @ r) = (n, r)" "get_str (put_str t @ r) = (t, r)" "get_int (put_int i @ r) = (i, r)"
proof -
  have "takeWhile (\<lambda>c. c = CHR ''1'') (put_nat n @ r) = replicate n (CHR ''1'')"
    "dropWhile (\<lambda>c. c = CHR ''1'') (put_nat n @ r) = CHR ''0'' # r" for n r
    by (induction n) (simp_all add: put_nat_def)
  then show nat: "get_nat (put_nat n @ r) = (n, r)" for n r by (simp add: get_nat_def)
  show "get_str (put_str t @ r) = (t, r)" "get_int (put_int i @ r) = (i, r)"
    by (simp_all add: get_str_def put_str_def get_int_def put_int_def nat)
qed

definition kind_code :: "config_kind \<Rightarrow> nat" where
  "kind_code k = (case k of USER_PROFILE \<Rightarrow> 1 | CONTACTS \<Rightarrow> 2 | CONVO_INFO_VOLATILE \<Rightarrow> 3 | USER_GROUPS \<Rightarrow> 4)"

definition kind_of :: "nat \<Rightarrow> config_kind" where
  "kind_of n = (if n = 1 then USER_PROFILE else if n = 2 then CONTACTS else if n = 3 then CONVO_INFO_VOLATILE else USER_GROUPS)"

definition ws_code :: "web_socket_type \<Rightarrow> nat" where
  "ws_code t = (case t of WS_UNKNOWN \<Rightarrow> 0 | WS_REQUEST \<Rightarrow> 1 | WS_RESPONSE \<Rightarrow> 2)"

definition ws_of :: "nat \<Rightarrow> web_socket_type" where
  "ws_of n = (if n = 0 then WS_UNKNOWN else if n = 1 then WS_REQUEST else WS_RESPONSE)"

definition ref_protobuf :: protobuf where
  "ref_protobuf = \<lparr>
     content_serialize = (\<lambda>m. case m of None \<Rightarrow> put_nat 0
        | Some s \<Rightarrow> put_nat (kind_code (sc_kind s)) @ put_int (sc_seqno s) @ put_str (sc_data s)),
     content_parse = (\<lambda>b. let (k, b) = get_nat b; (i, b) = get_int b; (d, b) = get_str b in
        if k = 0 then Some None else Some (Some \<lparr> sc_kind = kind_of k, sc_seqno = i, sc_data = d \<rparr>)),
     envelope_serialize = (\<lambda>m. put_nat (if env_type m = SESSION_MESSAGE then 6 else 7) @ put_nat (unat (env_timestamp m)) @
        put_str (env_content m)),
     envelope_parse = (\<lambda>b. let (t, b) = get_nat b; (ts, b) = get_nat b; (c, b) = get_str b in
        Some \<lparr> env_type = (if t = 6 then SESSION_MESSAGE else CLOSED_GROUP_MESSAGE), env_timestamp = of_nat ts, env_content = c \<rparr>),
     message_serialize = (\<lambda>m. put_nat (ws_code (wm_type m)) @ put_str (wr_verb (wm_request m)) @ put_str (wr_path (wm_request m)) @
        put_nat (unat (wr_requestid (wm_request m))) @ put_str (wr_body (wm_request m))),
     message_parse = (\<lambda>b. if b = [] \<or> hd b \<notin> {CHR ''0'', CHR ''1''} then None else
        let (t, b) = get_nat b; (v, b) = get_str b; (p, b) = get_str b; (i, b) = get_nat b; (c, b) = get_str b in
        Some \<lparr> wm_type = ws_of t, wm_request = \<lparr> wr_verb = v, wr_path = p, wr_requestid = of_nat i, wr_body = c \<rparr> \<rparr>) \<rparr>"

lemma ref_protobuf_ok: "protobuf_ok ref_protobuf"
  unfolding protobuf_ok_def
proof (intro conjI allI)
  have body: "get_str (put_str t) = (t, [])" for t using get_put(2) [of t "[]"] by simp
  have "ws_of (ws_code t) = t" for t by (cases t) (simp_all add: ws_of_def ws_code_def)
  moreover have "put_nat n \<noteq> []" "hd (put_nat n @ r) \<in> {CHR ''0'', CHR ''1''}" for n r
    by (cases n; simp add: put_nat_def)+
  ultimately show "message_parse ref_protobuf (message_serialize ref_protobuf m) = Some m" for m
    by (simp add: ref_protobuf_def get_put body)
  have "(if (if t = SESSION_MESSAGE then 6 else 7) = (6 :: nat) then SESSION_MESSAGE else CLOSED_GROUP_MESSAGE) = t" for t
    by (cases t) simp_all
  then show "envelope_parse ref_protobuf (envelope_serialize ref_protobuf m) = Some m" for m
    by (simp add: ref_protobuf_def get_put body)
  have "kind_of (kind_code k) = k" "kind_code k \<noteq> 0" for k by (cases k; simp add: kind_of_def kind_code_def)+
  moreover have "get_nat (put_nat 0) = (0, [])" using get_put(1) [of 0 "[]"] by simp
  ultimately show "content_parse ref_protobuf (content_serialize ref_protobuf m) = Some m" for m
    by (cases m) (simp_all add: ref_protobuf_def get_put body split: prod.split)
qed

lemma alice_self: "self_key plain_env ref_curve alice (alice @ alice)"
  by (simp add: self_key_def expand_alice pad32_id)

theorem wrapped_configs_merge_witness:
  "\<exists>w w'. e_wrap (with_protos plain_env ref_curve ref_box ref_protobuf ContactsNs) alice ''config'' 1 = Inr w \<and>
    e_wrap (with_protos plain_env ref_curve ref_box ref_protobuf ContactsNs) alice w 2 = Inr w' \<and>
    unwrap_incoming (with_protos plain_env ref_curve ref_box ref_protobuf ContactsNs) (demo_base\<lparr> cb_keys := [alice] \<rparr>)
      [(''a'', ''config''), (''b'', w), (''c'', w')] = [(''a'', ''config''), (''b'', ''config''), (''c'', ''config'')]"
proof -
  have "unwrap_config plain_env ref_curve ref_box ref_protobuf alice ''config'' ContactsNs = Inl Runtime_error"
    by (simp add: unwrap_config_def expand_alice Let_def ref_protobuf_def)
  from wrapped_configs_merge [OF ref_box_ok _ alice_self ref_protobuf_ok _ this, of CONTACTS "demo_base\<lparr> cb_keys := [alice] \<rparr>" "[]" 1 2]
  show ?thesis by fastforce
qed

section \<open>C functions\<close>

definition release_env :: env where "release_env = plain_env\<lparr> e_ndebug := True \<rparr>"

abbreviation padded_curve :: curve where
  "padded_curve \<equiv> ref_curve\<lparr> sk_to_curve := pad32, pk_to_curve := (\<lambda>pk. Some (pad32 pk)) \<rparr>"

lemma ref_lengths_ok: "lengths_ok (e_crypto release_env) ref_encodings padded_curve ref_box"
proof -
  have "length (concat (map hex_byte b)) = 2 * length b" for b by (induction b) (simp_all add: hex_byte_def)
  then show ?thesis
    using xed_aead_lengths(2)
    by (auto simp: lengths_ok_def release_env_def ref_encodings_def ref_curve_def ref_box_def split: if_splits)
qed

theorem c_functions_return_witness:
  "(\<exists>r. session_decrypt_incoming release_env ref_encodings padded_curve ref_box (replicate 100 (CHR ''j'')) (alice @ bob) = Inr r) \<and>
   session_decrypt_ons_response release_env ref_encodings ref_box ''name'' (replicate 100 (CHR ''j'')) None = Inl Undefined_behaviour \<and>
   (\<exists>r. c_session_id_matches_blinded_id release_env ref_encodings xor_edwards ref_field (replicate 66 (CHR ''x'')) (replicate 66 (CHR ''y''))
      (replicate 64 (CHR ''z'')) = Inr r)"
proof -
  have "49 < length (replicate 100 (CHR ''j''))" "\<exists>key m. pwhash ref_box ''name'' (replicate 16 (CHR 0x00)) = Some key \<and>
      secretbox_open ref_box (replicate 100 (CHR ''j'')) (replicate 24 (CHR 0x00)) key = Some m"
    by (simp_all add: ref_box_def)
  then show ?thesis
    using c_functions_return [OF _ ref_lengths_ok, of "alice @ bob" carol "replicate 33 (CHR ''s'')" "replicate 33 (CHR ''r'')"
        "replicate 66 (CHR ''x'')" "replicate 66 (CHR ''y'')" "replicate 64 (CHR ''z'')" "[]" xor_edwards "[]"
        "replicate 100 (CHR ''j'')" "''name''" ref_field]
    by (simp add: release_env_def)
qed

end
