(* ===== verification/Spec2Isabelle.thy ===== *)
theory Spec2Isabelle
  imports Witnesses Message_Witnesses
begin

text \<open>
  A verification library for libsession-util, the C++ library that keeps the configuration of a Session
  messenger account (profile, contacts, conversations, groups) consistent across the user's devices.

  \<^bold>\<open>The program.\<close> Every config type (\<open>src/src/config/*.cpp\<close>) is a \<open>ConfigBase\<close> object
  (\<open>src/src/config/base.cpp\<close>) around one \<open>ConfigMessage\<close> (\<open>src/src/config.cpp\<close>): a nested dict of data, a
  sequence number, the diff against the previous message and the diffs of the last few messages. Editing a
  field makes the object dirty and its message mutable. \<open>push\<close> serializes the message (bencode), signs it
  when the config has keys for that, compresses, pads and encrypts it and splits it when it is too large;
  \<open>confirm_pushed\<close> records the storage hash. Messages of other devices come in through \<open>merge\<close>, which
  decrypts and reassembles them, drops the ones another message already contains, and replays the diffs of
  the others in a fixed order. \<open>dump\<close> and the constructor store and restore an object. The configs of a group are
  encrypted with keys that its admins rotate: \<open>groups::Keys\<close> (\<open>src/src/config/groups/keys.cpp\<close>) makes and reads the
  messages that carry them, encrypted for every member (\<open>src/src/multi_encrypt.cpp\<close>), and hands the keys to the
  info and member configs. The network layer (\<open>src/src/session_network.cpp\<close>, \<open>src/src/onionreq\<close>) carries requests to
  service nodes and servers: it keeps a cache of service nodes, connections and paths of three nodes, wraps every
  request in one layer of encryption per node, retries what can be retried and answers each call through its callback.
  The messages themselves are encrypted for session ids or for the blinded ids of a community
  (\<open>src/src/session_encrypt.cpp\<close>, \<open>src/src/blinding.cpp\<close>); old clients receive configs inside such a message
  (\<open>src/src/config/protos.cpp\<close>).

  \<^bold>\<open>Theories, in dependency order.\<close>
  \<^item> \<open>Prelude\<close>: exceptions as values (\<open>'a res\<close>), \<open>std::map\<close> and \<open>std::set\<close> as strictly sorted lists with the
    interface locale \<open>ordered_map\<close>, 64- and 32-bit ranges.
  \<^item> \<open>Bt_Values\<close>: the bencoded values of the oxenc library and \<open>src/src/bt_merge.cpp\<close>. The codec itself is an
    argument (\<open>libs\<close>) with the law \<open>codec_ok\<close>; \<open>Bencode\<close> holds a reference codec that satisfies it.
  \<^item> \<open>Config_Data\<close>, \<open>Config_Diff\<close>: the data tree of \<open>config.hpp\<close>, \<open>prune_\<close>, \<open>diff_impl\<close> and \<open>apply_diff\<close>, and that
    replaying a diff over the old data gives the new data.
  \<^item> \<open>Config_Wire\<close>, \<open>Config_Message\<close>, \<open>Config_Roundtrip\<close>: \<open>load_diff\<close>, \<open>serialize_data\<close>, \<open>parse_data\<close>, the lagged
    diffs, unknown keys and signatures; loading, serializing and incrementing messages; the round trips.
  \<^item> \<open>Diff_Loader\<close>: when the loop of \<open>load_diff\<close> ends.
  \<^item> \<open>Config_Merge\<close>: the merging constructor: redundancy, and the invariance of the result. \<open>Config_Replay\<close>: what the
    replay of the diffs leaves of each scalar and each element of a set, at every path (locale \<open>observation\<close>,
    interpreted once for scalars and once for elements).
  \<^item> \<open>Channel\<close>: the contract of every encryption (locales \<open>channel\<close>, and \<open>nested_channel\<close> when messages are wrapped
    twice): what is sealed arrives. \<open>Encrypt\<close>, \<open>Session_Encrypt\<close> and \<open>Protos\<close> interpret it.
  \<^item> \<open>Encrypt\<close>: key derivation, encryption and padding of \<open>config/encrypt.cpp\<close>, sizes as 64-bit words.
  \<^item> \<open>Config_Base\<close>, \<open>Config_Lifecycle\<close>, \<open>Multipart\<close>, \<open>Config_Transfer\<close>: the states of \<open>ConfigBase\<close>, multipart messages,
    \<open>_merge\<close>, \<open>push\<close>, \<open>confirm_pushed\<close>, \<open>dump\<close>, \<open>init\<close>, keys and \<open>ConfigSig\<close>; the invariant over all sequences of
    operations (an inductive step relation); the parts of long messages, collected in any order; and the
    transfer of data between two objects.
  \<^item> \<open>Field_Proxy\<close>: the field proxies of \<open>base.hpp\<close> and the helpers of \<open>config/internal.cpp\<close>. Locale
    \<open>field_store\<close> is the contract the config types use: fields are independent variables.
  \<^item> \<open>Util\<close>, \<open>Contacts\<close>, \<open>User_Profile\<close> (with the local settings), \<open>Community\<close>, \<open>Convo_Volatile\<close>,
    \<open>User_Groups\<close>, \<open>Group_Members\<close> (with the group info): one record per C++ struct, one definition per method,
    prefixed where methods of several classes share a name (\<open>contacts_\<close>, \<open>profile_\<close>, \<open>ug_\<close>, \<open>info_\<close>, \<open>members_\<close>).
  \<^item> \<open>Multi_Encrypt\<close>: encryption for several recipients.
  \<^item> \<open>Group_Keys\<close>, \<open>Group_Key_Messages\<close>, \<open>Group_Key_Transfer\<close>: the key list of a group with insertion, expiry and
    dumps (locale \<open>refined_store\<close>: a list kept by insertions that implements an abstract set); the messages
    made by \<open>rekey\<close> and \<open>key_supplement\<close> and read by \<open>load_key_message\<close>; group message encryption; and the
    transfer of a key from an admin to the members.
  \<^item> \<open>Subaccounts\<close>: XEd25519 signatures and the swarm subaccounts of group members.
  \<^item> \<open>Network_Nodes\<close>: service nodes from JSON and from the cache file, versions, swarms, constants and retry delays.
  \<^item> \<open>Onion\<close>: keys, hop encryption, the request builder, the parser of a node and the response parser of \<open>onionreq\<close>.
  \<^item> \<open>Network\<close>, \<open>Network_Requests\<close>, \<open>Network_Calls\<close>: the state of \<open>class Network\<close> with its jobs, connection attempts and
    commands under way; paths and connections; requests, responses, errors, retries, the refresh of the node
    cache, swarms and timeouts; construction, the cache on disk, uploads and downloads, and the step relation
    \<open>net_step\<close>: any scheduled job may run next, any attempt or command may end, any call may arrive, each step with
    its own clock, random choices and library answers (record \<open>net_env\<close>). User callbacks are numbers.
  \<^item> \<open>Network_Conservation\<close>, \<open>Network_Paths\<close>, \<open>Network_Responses\<close>: no callback is lost or called twice; the invariant of
    the paths; what batches, refreshes, seed node lists and the stored cache come to.
  \<^item> \<open>Blinding\<close>: blinded ids, keys and signatures in the 15 and the 25 scheme, with the wrappers of \<open>ed25519.cpp\<close>,
    \<open>curve25519.cpp\<close>, \<open>hash.cpp\<close> and \<open>random.cpp\<close>.
  \<^item> \<open>Session_Encrypt\<close>: messages to session ids and between blinded ids, name-service responses, push notifications,
    message hashes. Received data is read by position (\<open>read_at\<close>, \<open>fill_buf\<close>, \<open>size_minus\<close>): leaving a buffer is undefined
    behaviour. \<open>C_Messages\<close>: the C functions for them, with the buffers they read and write and the exceptions they catch.
  \<^item> \<open>Protos\<close>: the protobuf wrapping of configs, over the generated classes as an argument (\<open>protobuf\<close>).
  \<^item> \<open>Client_Version\<close>: the authenticated request for the client version.
  \<^item> \<open>Ref_Env\<close>, \<open>Witnesses\<close>, \<open>Key_Witnesses\<close>, \<open>Network_Witnesses\<close>, \<open>Message_Witnesses\<close>: concrete libraries and inputs at which the hypotheses of the theorems hold.

  \<^bold>\<open>Conventions.\<close> A method that changes an object returns the changed object; every throw is a value
  \<open>Inl\<close> of \<open>exn\<close>, where \<open>Undefined_behaviour\<close> marks steps the C++ standard leaves undefined and
  \<open>Assertion_failed\<close> a failed \<open>assert\<close> (skipped with \<open>e_ndebug\<close>). \<open>int64_t\<close> values are integers in range, with
  undefined behaviour on overflow; narrowing to \<open>int\<close> is written out (\<open>to_int32\<close>). The current time, random
  bytes and libraries outside the repository (oxenc, libsodium, zstd, protobuf, nlohmann-json, QUIC)
  are arguments: the records \<open>libs\<close>, \<open>crypto\<close>, \<open>encodings\<close>, \<open>env\<close>, \<open>json_lib\<close>, \<open>quic_lib\<close>,
  \<open>curve\<close>, \<open>edwards\<close>, \<open>field25519\<close>, \<open>box_lib\<close>, \<open>protobuf\<close> and \<open>net_env\<close>. Loops are structural recursions or have termination proofs;
  the loop over the list of a seed node, which may not end, is a partial function (\<open>bt_nodes_loop\<close>) that is \<open>None\<close> then. Vectors
  may have any length: the library's limit on the size of an allocation is left out.

  \<^bold>\<open>What is shown.\<close> Whatever bytes arrive, a message that loads is well typed. Serializing and loading a message, signed or not, gives the message back; a message can be
  merged in any order with the same result, and at least one message always survives; in merged data every scalar and every
  element of a set is as the last diff that writes it left it; the diff of an edit
  replays the edit; what one object pushes, in one message or in parts, another merges to the same data; an edit made while a push is
  under way is never lost; every reachable object satisfies the invariant; a read-only object stays
  read-only; encryption and padding invert; every config type reads back what was stored, leaves its
  neighbours alone and rejects what it documents to reject; group statuses are final where they must be.
  The group's key list refines a set of keys in which only superseded keys expire; a new key reaches every
  member and is confirmed to the admin; group messages and messages to several recipients are read back by
  those they are meant for; a subaccount is accepted exactly for the permissions it was given.
  An onion request is opened by the nodes of its path and its destination, and the answer by the sender; each call of
  the network is answered exactly once or still under way, in every order of events; paths keep their three
  nodes and guard; a suspended network holds no paths and no requests; the cache of nodes is the intersection of
  three answers and survives a restart; the swarm of an account is the closest one.
  A session id matches exactly the blinded ids of its user; blinded signatures verify; messages to session ids and
  between blinded ids are read by those they are meant for; one that is accepted for a session id is signed by the sender that is
  reported, and one that is accepted from a blinded id carries the key of the sender that is reported; a wrapped config
  merges like a plain one; the C functions on messages stay inside their buffers and return for all inputs, but for one.
  Several theorems record behaviour the documentation or the intention contradicts; they say so.

  \<^bold>\<open>Not modelled.\<close> Sockets, TLS and timers of the QUIC library, the locks of the disk thread (its passes are single
  steps), log output and the callbacks for status and path changes; malformed bencode is refused as a whole where the
  code reads it piece by piece; generated protobuf code, which is an argument; the generation of random key pairs,
  locked memory, logging and file access, which are single library calls; the C functions of the configs and of the network,
  which only convert arguments and catch exceptions. Of the C enumeration of platforms only the listed values are modelled.
\<close>

end
